(* ===== verification/Prelude.thy ===== *)
theory Prelude
  imports Complex_Main "HOL-Library.Word" "HOL-Library.Char_ord" "HOL-Library.List_Lexorder"
begin

text \<open>
  Shared vocabulary of the development: machine integers, byte sequences in network order, the
  JSON values the program builds with \<open>serde_json\<close>, the ASCII string operations of the Rust
  standard library that the components use, and the list lemmas their proofs share.

  Conventions. A Rust \<open>String\<close> is the list of the bytes of its UTF-8 encoding, as an Isabelle
  \<open>string\<close> (a list of 8-bit characters). A byte buffer is a \<open>byte list\<close>. A
  \<open>u64\<close> or \<open>usize\<close> that counts bytes is a \<open>nat\<close>; where the code adds two of them without a
  bound the model uses \<open>u64_add\<close>, which wraps as the release build does.
\<close>

unbundle bit_operations_syntax

named_theorems wire_simps \<open>rewriting of wire-level encodings\<close>
named_theorems rule_simps \<open>unfolding of the rule language\<close>
named_theorems frame_simps \<open>unfolding of frame-level definitions\<close>

type_synonym byte = "8 word"
type_synonym u16 = "16 word"
type_synonym u32 = "32 word"
type_synonym u64 = "64 word"

section \<open>Unsigned arithmetic of fixed width\<close>

definition u64_add :: "nat \<Rightarrow> nat \<Rightarrow> nat" where
  "u64_add a b = (a + b) mod 2 ^ 64"

definition u32_add :: "nat \<Rightarrow> nat \<Rightarrow> nat" where
  "u32_add a b = (a + b) mod 2 ^ 32"

definition u64_saturating_add :: "nat \<Rightarrow> nat \<Rightarrow> nat" where
  "u64_saturating_add a b = min (a + b) (2 ^ 64 - 1)"

lemma u64_add_exact: "a + b < 2 ^ 64 \<Longrightarrow> u64_add a b = a + b"
  by (simp add: u64_add_def)

lemma u64_add_less [simp]: "u64_add a b < 2 ^ 64"
  by (simp add: u64_add_def)

lemma u64_add_zero [simp]: "a < 2 ^ 64 \<Longrightarrow> u64_add 0 a = a"
  by (simp add: u64_add_def)

section \<open>Bytes in network order\<close>

definition be_nat :: "byte list \<Rightarrow> nat" where
  "be_nat bs = foldl (\<lambda>acc b. acc * 256 + unat b) 0 bs"

definition le_nat :: "byte list \<Rightarrow> nat" where
  "le_nat bs = be_nat (rev bs)"

fun be_bytes :: "nat \<Rightarrow> nat \<Rightarrow> byte list" where
  "be_bytes 0 n = []"
| "be_bytes (Suc k) n = be_bytes k (n div 256) @ [word_of_nat (n mod 256)]"

lemma be_nat_Nil [simp, wire_simps]: "be_nat [] = 0"
  by (simp add: be_nat_def)

lemma be_nat_snoc [simp, wire_simps]: "be_nat (bs @ [b]) = be_nat bs * 256 + unat b"
  by (simp add: be_nat_def)

lemma be_bytes_numeral [simp]:
  "be_bytes (numeral k) n = be_bytes (pred_numeral k) (n div 256) @ [word_of_nat (n mod 256)]"
  using be_bytes.simps(2) [of "pred_numeral k" n] by (simp only: numeral_eq_Suc [symmetric])

lemma length_be_bytes [simp, wire_simps]: "length (be_bytes k n) = k"
  by (induction k arbitrary: n) auto

lemma unat_byte_less [simp]: "unat (b :: byte) < 256"
  using unsigned_less [of b] by simp

lemma be_nat_less: "be_nat bs < 256 ^ length bs"
proof (induction bs rule: rev_induct)
  case Nil
  then show ?case by simp
next
  case (snoc b bs)
  have "be_nat bs * 256 + unat b < Suc (be_nat bs) * 256"
    using unat_byte_less [of b] by simp
  also have "\<dots> \<le> 256 ^ length bs * 256"
    using snoc.IH by (intro mult_le_mono) auto
  finally show ?case by (simp add: mult.commute)
qed

lemma be_nat_be_bytes: "n < 256 ^ k \<Longrightarrow> be_nat (be_bytes k n) = n"
proof (induction k arbitrary: n)
  case 0
  then show ?case by simp
next
  case (Suc k)
  have "n div 256 < 256 ^ k"
    using Suc.prems by (simp add: less_mult_imp_div_less mult.commute)
  then have "be_nat (be_bytes k (n div 256)) = n div 256"
    by (rule Suc.IH)
  moreover have "unat (word_of_nat (n mod 256) :: byte) = n mod 256"
    by (simp add: unat_of_nat)
  ultimately show ?case by simp
qed

section \<open>JSON values\<close>

text \<open>
  \<open>serde_json::Value\<close> without the \<open>preserve_order\<close> feature: an object is a \<open>BTreeMap\<close>, kept here
  as an association list sorted by key (\<open>obj_put\<close> inserts; it serves for every \<open>BTreeMap\<close> of the
  program). A finite float is a rational number.
\<close>

datatype json =
    JNull
  | JBool bool
  | JInt int
  | JFloat rat
  | JStr string
  | JArr "json list"
  | JObj "(string \<times> json) list"

fun obj_put :: "'k::linorder \<Rightarrow> 'v \<Rightarrow> ('k \<times> 'v) list \<Rightarrow> ('k \<times> 'v) list" where
  "obj_put k v [] = [(k, v)]"
| "obj_put k v ((k', v') # kvs) =
     (if k = k' then (k, v) # kvs
      else if k < k' then (k, v) # (k', v') # kvs
      else (k', v') # obj_put k v kvs)"

definition jobj :: "(string \<times> json) list \<Rightarrow> json" where
  "jobj kvs = JObj (foldl (\<lambda>m (k, v). obj_put k v m) [] kvs)"

definition jnat :: "nat \<Rightarrow> json" where
  "jnat n = JInt (int n)"

definition jopt :: "('a \<Rightarrow> json) \<Rightarrow> 'a option \<Rightarrow> json" where
  "jopt f v = (case v of None \<Rightarrow> JNull | Some x \<Rightarrow> f x)"

definition obj_keys :: "(string \<times> 'v) list \<Rightarrow> string list" where
  "obj_keys kvs = map fst kvs"

lemma map_of_obj_put [simp]: "map_of (obj_put k v kvs) = (map_of kvs)(k \<mapsto> v)"
  by (induction k v kvs rule: obj_put.induct) (auto simp: fun_eq_iff)

lemma set_obj_put_keys: "set (map fst (obj_put k v kvs)) = insert k (set (map fst kvs))"
  by (induction k v kvs rule: obj_put.induct) auto

lemma obj_put_sorted: "sorted_wrt (<) (map fst kvs) \<Longrightarrow> sorted_wrt (<) (map fst (obj_put k v kvs))"
proof (induction k v kvs rule: obj_put.induct)
  case (1 k v)
  then show ?case by simp
next
  case (2 k v k' v' kvs)
  then show ?case
    using set_obj_put_keys [of k v kvs] by fastforce
qed

text \<open>Two such maps with the same contents are the same list.\<close>

lemma obj_ext:
  "sorted_wrt (<) (map fst kvs) \<Longrightarrow> sorted_wrt (<) (map fst kvs') \<Longrightarrow> map_of kvs = map_of kvs' \<Longrightarrow> kvs = kvs'"
  for kvs kvs' :: "('k::linorder \<times> 'v) list"
proof -
  assume sorted: "sorted_wrt (<) (map fst kvs)" "sorted_wrt (<) (map fst kvs')" and same: "map_of kvs = map_of kvs'"
  from sorted have keys: "sorted (map fst kvs)" "distinct (map fst kvs)" "sorted (map fst kvs')" "distinct (map fst kvs')"
    by (simp_all add: strict_sorted_iff)
  then have "set kvs = set kvs'"
    using same map_of_inject_set by blast
  moreover have "inj_on fst (set kvs \<union> set kvs')"
    using keys calculation by (simp add: distinct_map)
  ultimately show "kvs = kvs'"
    using keys map_sorted_distinct_set_unique by blast
qed

lemma obj_put_not_Nil [simp]: "obj_put k v kvs \<noteq> []"
  by (induction k v kvs rule: obj_put.induct) auto

section \<open>ASCII strings\<close>

definition ascii_lower_char :: "char \<Rightarrow> char" where
  "ascii_lower_char c =
     (let n = (of_char c :: nat) in if 65 \<le> n \<and> n \<le> 90 then char_of (n + 32) else c)"

definition to_ascii_lowercase :: "string \<Rightarrow> string" where
  "to_ascii_lowercase s = map ascii_lower_char s"

definition eq_ignore_ascii_case :: "string \<Rightarrow> string \<Rightarrow> bool" where
  "eq_ignore_ascii_case a b \<longleftrightarrow> to_ascii_lowercase a = to_ascii_lowercase b"

definition starts_with :: "string \<Rightarrow> string \<Rightarrow> bool" where
  "starts_with s p \<longleftrightarrow> take (length p) s = p"

fun str_contains :: "'a list \<Rightarrow> 'a list \<Rightarrow> bool" where
  "str_contains [] needle \<longleftrightarrow> needle = []"
| "str_contains (c # cs) needle \<longleftrightarrow>
     take (length needle) (c # cs) = needle \<or> str_contains cs needle"

text \<open>\<open>str::split(sep)\<close> for one separator character: always at least one piece.\<close>

fun split_on :: "'a \<Rightarrow> 'a list \<Rightarrow> 'a list list" where
  "split_on sep [] = [[]]"
| "split_on sep (c # cs) =
     (if c = sep then [] # split_on sep cs
      else case split_on sep cs of [] \<Rightarrow> [[c]] | p # ps \<Rightarrow> (c # p) # ps)"

definition is_ascii_space :: "char \<Rightarrow> bool" where
  "is_ascii_space c \<longleftrightarrow> (let n = (of_char c :: nat) in n = 32 \<or> (9 \<le> n \<and> n \<le> 13))"

definition trim_ascii :: "string \<Rightarrow> string" where
  "trim_ascii s = rev (dropWhile is_ascii_space (rev (dropWhile is_ascii_space s)))"

definition byte_char :: "byte \<Rightarrow> char" where
  "byte_char b = char_of (unat b)"

definition char_byte :: "char \<Rightarrow> byte" where
  "char_byte c = word_of_nat (of_char c)"

definition str_bytes :: "string \<Rightarrow> byte list" where
  "str_bytes s = map char_byte s"

definition bytes_str :: "byte list \<Rightarrow> string" where
  "bytes_str bs = map byte_char bs"

lemma byte_char_inverse [simp]: "char_byte (byte_char b) = b"
  by (simp add: char_byte_def byte_char_def)

lemma char_byte_inverse [simp]: "byte_char (char_byte c) = c"
proof -
  have "(of_char c :: nat) < 256"
    by (rule nat_of_char_less_256)
  then show ?thesis by (simp add: char_byte_def byte_char_def unat_of_nat)
qed

lemma bytes_str_inverse [simp]: "str_bytes (bytes_str bs) = bs"
  by (simp add: str_bytes_def bytes_str_def comp_def)

lemma str_bytes_inverse [simp]: "bytes_str (str_bytes s) = s"
  by (simp add: str_bytes_def bytes_str_def comp_def)

lemma str_contains_refl [simp]: "str_contains s s"
  by (cases s) auto

lemma str_contains_empty [simp]: "str_contains s []"
  by (cases s) auto

lemma str_contains_iff: "str_contains s n \<longleftrightarrow> (\<exists>a b. s = a @ n @ b)"
proof (induction s)
  case Nil
  then show ?case by auto
next
  case (Cons c cs)
  have pre: "take (length n) (c # cs) = n \<longleftrightarrow> (\<exists>b. c # cs = n @ b)"
    by (metis append_eq_conv_conj append_take_drop_id)
  show ?case
    unfolding str_contains.simps pre Cons.IH
    by (metis append_Cons append_Nil append_eq_Cons_conv)
qed

section \<open>Numbers as text\<close>

fun dec_digits :: "nat \<Rightarrow> string" where
  "dec_digits n =
     (if n < 10 then [char_of (48 + n)] else dec_digits (n div 10) @ [char_of (48 + n mod 10)])"

declare dec_digits.simps [simp del]

definition hex_digit :: "nat \<Rightarrow> char" where
  "hex_digit d = (if d < 10 then char_of (48 + d) else char_of (87 + d))"

fun hex_pad :: "nat \<Rightarrow> nat \<Rightarrow> string" where
  "hex_pad 0 n = []"
| "hex_pad (Suc k) n = hex_pad k (n div 16) @ [hex_digit (n mod 16)]"

lemma length_hex_pad [simp]: "length (hex_pad k n) = k"
  by (induction k arbitrary: n) auto

definition is_digit :: "char \<Rightarrow> bool" where
  "is_digit c \<longleftrightarrow> (let n = (of_char c :: nat) in 48 \<le> n \<and> n \<le> 57)"

text \<open>
  \<open>str::parse\<close> at an unsigned type of the given number of bits: an optional plus sign, then
  decimal digits, no overflow.
\<close>

definition parse_unsigned :: "nat \<Rightarrow> string \<Rightarrow> nat option" where
  "parse_unsigned bits s =
     (let ds = (case s of c # cs \<Rightarrow> if c = CHR ''+'' then cs else s | [] \<Rightarrow> s) in
      if ds = [] \<or> \<not> list_all is_digit ds then None
      else let n = foldl (\<lambda>acc c. acc * 10 + (of_char c - 48)) 0 ds in
           if n < 2 ^ bits then Some n else None)"

lemma dec_digits_not_Nil [simp]: "dec_digits n \<noteq> []"
  by (subst dec_digits.simps) auto

section \<open>List lemmas\<close>

lemma take_min_length [simp]: "take (min n (length xs)) xs = take n xs"
  by (simp add: min_def)

lemma drop_min_length [simp]: "drop (min n (length xs)) xs = drop n xs"
  by (simp add: min_def)

lemma foldl_append_concat: "foldl (@) xs yss = xs @ concat yss"
  by (induction yss arbitrary: xs) auto

end
