(* ===== verification/WsFrame.thy ===== *)
theory WsFrame
  imports Prelude
begin

text \<open>
  The wire level of \<^verbatim>\<open>net/ws.rs\<close>: frame direction and opcode, the machine-readable protocol
  violations, the frame encoder used for injection (\<open>encode_frame\<close>) and the header parser shared
  by both framers (\<open>parse_header\<close>). The masking seed, a process-wide atomic counter in the code, is
  threaded explicitly.
\<close>

section \<open>Limits\<close>

definition RETAIN_CAP :: nat where
  "RETAIN_CAP = 64 * 1024"

definition COMPRESSED_ACCUM_CAP :: nat where
  "COMPRESSED_ACCUM_CAP = 256 * 1024"

definition MAX_DECOMPRESS :: nat where
  "MAX_DECOMPRESS = 8 * 1024 * 1024"

definition PREVIEW_CAP :: nat where
  "PREVIEW_CAP = 200"

definition MAX_RETAINED_FRAMES :: nat where
  "MAX_RETAINED_FRAMES = 256"

definition MAX_WS_HELD :: nat where
  "MAX_WS_HELD = 64"

definition MAX_FRAME_LEN :: nat where
  "MAX_FRAME_LEN = 512 * 1024 * 1024"

definition MANAGED_FRAME_CAP :: nat where
  "MANAGED_FRAME_CAP = 8 * 1024 * 1024"

section \<open>Direction and opcode\<close>

datatype direction = ClientToServer | ServerToClient

fun direction_str :: "direction \<Rightarrow> string" where
  "direction_str ClientToServer = ''c2s''"
| "direction_str ServerToClient = ''s2c''"

datatype opcode =
    Continuation
  | OpText
  | OpBinary
  | OpClose
  | OpPing
  | OpPong
  | Reserved byte

definition from_u8 :: "byte \<Rightarrow> opcode" where
  "from_u8 v =
     (if v = 0x0 then Continuation
      else if v = 0x1 then OpText
      else if v = 0x2 then OpBinary
      else if v = 0x8 then OpClose
      else if v = 0x9 then OpPing
      else if v = 0xA then OpPong
      else Reserved v)"

fun is_control :: "opcode \<Rightarrow> bool" where
  "is_control OpClose = True"
| "is_control OpPing = True"
| "is_control OpPong = True"
| "is_control (Reserved v) = (v AND 0x08 \<noteq> 0)"
| "is_control Continuation = False"
| "is_control OpText = False"
| "is_control OpBinary = False"

fun opcode_str :: "opcode \<Rightarrow> string" where
  "opcode_str Continuation = ''continuation''"
| "opcode_str OpText = ''text''"
| "opcode_str OpBinary = ''binary''"
| "opcode_str OpClose = ''close''"
| "opcode_str OpPing = ''ping''"
| "opcode_str OpPong = ''pong''"
| "opcode_str (Reserved v) = ''reserved''"

fun to_u8 :: "opcode \<Rightarrow> byte" where
  "to_u8 Continuation = 0x0"
| "to_u8 OpText = 0x1"
| "to_u8 OpBinary = 0x2"
| "to_u8 OpClose = 0x8"
| "to_u8 OpPing = 0x9"
| "to_u8 OpPong = 0xA"
| "to_u8 (Reserved v) = v AND 0x0F"

definition from_label :: "string \<Rightarrow> opcode option" where
  "from_label l =
     (if l = ''text'' then Some OpText
      else if l = ''binary'' then Some OpBinary
      else if l = ''ping'' then Some OpPing
      else if l = ''pong'' then Some OpPong
      else if l = ''close'' then Some OpClose
      else None)"

definition is_reserved :: "opcode \<Rightarrow> bool" where
  "is_reserved op \<longleftrightarrow> (case op of Reserved _ \<Rightarrow> True | _ \<Rightarrow> False)"

lemma from_label_str: "from_label l = Some op \<Longrightarrow> opcode_str op = l"
  by (auto simp: from_label_def split: if_splits)

lemma from_label_not_reserved: "from_label l = Some op \<Longrightarrow> \<not> is_reserved op"
  by (auto simp: from_label_def is_reserved_def split: if_splits)

lemma from_to_u8 [simp, wire_simps]: "\<not> is_reserved op \<Longrightarrow> from_u8 (to_u8 op) = op"
  by (cases op) (auto simp: from_u8_def is_reserved_def)

section \<open>Protocol violations\<close>

record protocol_violation =
  pv_code :: string
  pv_scope :: string
  pv_action :: string
  pv_fatal :: bool
  pv_opcode :: "string option"
  pv_detail :: json

definition violation_frame :: "string \<Rightarrow> opcode \<Rightarrow> json \<Rightarrow> protocol_violation" where
  "violation_frame code op detail =
     \<lparr>pv_code = code, pv_scope = ''frame'', pv_action = ''forwarded_unmodified'',
      pv_fatal = False, pv_opcode = Some (opcode_str op), pv_detail = detail\<rparr>"

definition violation_message :: "string \<Rightarrow> opcode \<Rightarrow> json \<Rightarrow> protocol_violation" where
  "violation_message code op detail =
     \<lparr>pv_code = code, pv_scope = ''message'', pv_action = ''forwarded_unmodified'',
      pv_fatal = False, pv_opcode = Some (opcode_str op), pv_detail = detail\<rparr>"

definition violation_fatal_frame :: "string \<Rightarrow> json \<Rightarrow> protocol_violation" where
  "violation_fatal_frame code detail =
     \<lparr>pv_code = code, pv_scope = ''frame'', pv_action = ''forwarding_untapped'',
      pv_fatal = True, pv_opcode = None, pv_detail = detail\<rparr>"

definition violation_stream_end :: "string \<Rightarrow> opcode option \<Rightarrow> json \<Rightarrow> protocol_violation" where
  "violation_stream_end code op detail =
     \<lparr>pv_code = code, pv_scope = ''frame'', pv_action = ''observed_incomplete'',
      pv_fatal = False, pv_opcode = map_option opcode_str op, pv_detail = detail\<rparr>"

definition violation_message_stream_end :: "string \<Rightarrow> opcode \<Rightarrow> json \<Rightarrow> protocol_violation" where
  "violation_message_stream_end code op detail =
     \<lparr>pv_code = code, pv_scope = ''message'', pv_action = ''observed_incomplete'',
      pv_fatal = False, pv_opcode = Some (opcode_str op), pv_detail = detail\<rparr>"

lemmas violation_defs [frame_simps] =
  violation_frame_def violation_message_def violation_fatal_frame_def
  violation_stream_end_def violation_message_stream_end_def

section \<open>Masking\<close>

text \<open>Byte \<open>i\<close> of the payload is combined with byte \<open>i & 3\<close> of the key.\<close>

fun apply_mask :: "byte list \<Rightarrow> nat \<Rightarrow> byte list \<Rightarrow> byte list" where
  "apply_mask key off [] = []"
| "apply_mask key off (b # bs) = (b XOR key ! (off mod 4)) # apply_mask key (Suc off) bs"

lemma length_apply_mask [simp, wire_simps]: "length (apply_mask key off bs) = length bs"
  by (induction bs arbitrary: off) auto

lemma apply_mask_involutive [simp, wire_simps]:
  "apply_mask key off (apply_mask key off bs) = bs"
  by (induction bs arbitrary: off) (auto simp: xor.assoc)

lemma apply_mask_append [wire_simps]:
  "apply_mask key off (xs @ ys) = apply_mask key off xs @ apply_mask key (off + length xs) ys"
  by (induction xs arbitrary: off) auto

lemma apply_mask_eq_Nil [simp]: "apply_mask key off bs = [] \<longleftrightarrow> bs = []"
  by (cases bs) auto

section \<open>Encoding a frame\<close>

definition INJECT_MASK_STEP :: u64 where
  "INJECT_MASK_STEP = 0x6d2b79f5a1b2c3d4"

definition encode_header :: "opcode \<Rightarrow> nat \<Rightarrow> bool \<Rightarrow> byte list" where
  "encode_header op len masked =
     (let mask_bit = (if masked then 0x80 else 0) :: byte in
      (0x80 OR to_u8 op) #
      (if len < 126 then [mask_bit OR word_of_nat len]
       else if len < 65536 then (mask_bit OR 126) # be_bytes 2 len
       else (mask_bit OR 127) # be_bytes 8 len))"

definition encode_frame :: "u64 \<Rightarrow> opcode \<Rightarrow> byte list \<Rightarrow> bool \<Rightarrow> u64 \<times> byte list" where
  "encode_frame seed op payload masked =
     (if masked then
        let key = take 4 (be_bytes 8 (unat seed)) in
        (seed + INJECT_MASK_STEP,
         encode_header op (length payload) True @ key @ apply_mask key 0 payload)
      else (seed, encode_header op (length payload) False @ payload))"

section \<open>Parsing a header\<close>

record frame_header =
  h_fin :: bool
  h_rsv1 :: bool
  h_opcode :: opcode
  h_masked :: bool
  h_mask :: "byte list"
  h_payload_len :: nat
  h_violations :: "protocol_violation list"

datatype header_parse =
    Need
  | Parsed frame_header nat
  | Malformed protocol_violation

text \<open>
  The length field: an early return (\<open>Inl\<close>) or the payload length and the number of extended
  length bytes.
\<close>

definition parse_length :: "byte list \<Rightarrow> byte \<Rightarrow> header_parse + (nat \<times> nat)" where
  "parse_length buf len7 =
     (if len7 = 126 then
        (if length buf < 4 then Inl Need
         else Inr (be_nat [buf ! 2, buf ! 3], 2))
      else if len7 = 127 then
        (if length buf < 10 then Inl Need
         else let raw = take 8 (drop 2 buf) in
              if raw ! 0 AND 0x80 \<noteq> 0 then
                Inl (Malformed (violation_fatal_frame ''length_msb_set''
                       (jobj [(''length_encoding'', JInt 127)])))
              else Inr (be_nat raw, 8))
      else Inr (unat len7, 0))"

definition header_violations ::
  "bool \<Rightarrow> bool \<Rightarrow> bool \<Rightarrow> opcode \<Rightarrow> byte \<Rightarrow> nat \<Rightarrow> protocol_violation list" where
  "header_violations fin rsv2 rsv3 op len7 payload_len =
     (if rsv2 then [violation_frame ''rsv2_set'' op (jobj [(''rsv'', JInt 2)])] else []) @
     (if rsv3 then [violation_frame ''rsv3_set'' op (jobj [(''rsv'', JInt 3)])] else []) @
     (case op of
        Reserved v \<Rightarrow> [violation_frame ''reserved_opcode'' op (jobj [(''opcode'', jnat (unat v))])]
      | _ \<Rightarrow> []) @
     (if is_control op \<and> \<not> fin then
        [violation_frame ''fragmented_control_frame'' op (jobj [(''fin'', JBool False)])] else []) @
     (if is_control op \<and> payload_len > 125 then
        [violation_frame ''oversized_control_frame'' op
           (jobj [(''payload_len'', jnat payload_len), (''maximum'', JInt 125)])] else []) @
     (if len7 = 126 \<and> payload_len < 126 then
        [violation_frame ''non_minimal_length'' op
           (jobj [(''payload_len'', jnat payload_len), (''length_encoding'', JInt 126),
                  (''minimal_encoding'', JStr ''7-bit'')])] else []) @
     (if len7 = 127 \<and> payload_len \<le> 65535 then
        [violation_frame ''non_minimal_length'' op
           (jobj [(''payload_len'', jnat payload_len), (''length_encoding'', JInt 127),
                  (''minimal_encoding'',
                   JStr (if payload_len < 126 then ''7-bit'' else ''16-bit''))])] else [])"

definition parse_header :: "byte list \<Rightarrow> header_parse" where
  "parse_header buf =
     (if length buf < 2 then Need
      else
        let b0 = buf ! 0; b1 = buf ! 1;
            fin = (b0 AND 0x80 \<noteq> 0); rsv1 = (b0 AND 0x40 \<noteq> 0);
            rsv2 = (b0 AND 0x20 \<noteq> 0); rsv3 = (b0 AND 0x10 \<noteq> 0);
            op = from_u8 (b0 AND 0x0F);
            masked = (b1 AND 0x80 \<noteq> 0);
            len7 = b1 AND 0x7F
        in case parse_length buf len7 of
             Inl early \<Rightarrow> early
           | Inr (payload_len, len_bytes) \<Rightarrow>
               if payload_len > MAX_FRAME_LEN then
                 Malformed (violation_fatal_frame ''frame_length_limit_exceeded''
                   (jobj [(''payload_len'', jnat payload_len),
                          (''capture_limit'', jnat MAX_FRAME_LEN)]))
               else
                 let header_len = 2 + len_bytes + (if masked then 4 else 0) in
                 if length buf < header_len then Need
                 else Parsed
                   \<lparr>h_fin = fin, h_rsv1 = rsv1, h_opcode = op, h_masked = masked,
                    h_mask = (if masked then take 4 (drop (2 + len_bytes) buf) else [0, 0, 0, 0]),
                    h_payload_len = payload_len,
                    h_violations = header_violations fin rsv2 rsv3 op len7 payload_len\<rparr>
                   header_len)"

section \<open>Facts about bytes below 128\<close>

lemma and_7F: "(w :: byte) AND 0x7F = take_bit 7 w"
  using take_bit_eq_mask [of 7 w] by (simp add: mask_eq_exp_minus_1)

lemma take_bit_7_small: "(w :: byte) < 128 \<Longrightarrow> take_bit 7 w = w"
  by (simp add: word_unat_eq_iff unsigned_take_bit_eq take_bit_nat_eq_self_iff word_less_nat_alt)

lemma small_and_7F [wire_simps]: "(w :: byte) < 128 \<Longrightarrow> w AND 0x7F = w"
  by (simp add: and_7F take_bit_7_small)

lemma small_and_80 [wire_simps]: "(w :: byte) < 128 \<Longrightarrow> w AND 0x80 = 0"
proof -
  assume "w < 128"
  then have "w = w AND 0x7F" by (simp add: small_and_7F)
  then have "w AND 0x80 = w AND (0x7F AND 0x80)" by (metis and.assoc)
  then show ?thesis by simp
qed

lemma masked_and_7F [wire_simps]: "(w :: byte) < 128 \<Longrightarrow> (0x80 OR w) AND 0x7F = w"
  by (simp add: bit.conj_disj_distrib2 small_and_7F)

lemma masked_and_80 [wire_simps]: "(w :: byte) < 128 \<Longrightarrow> (0x80 OR w) AND 0x80 = 0x80"
  by (simp add: bit.conj_disj_distrib2 small_and_80)

lemma word_of_nat_small: "n < 128 \<Longrightarrow> (word_of_nat n :: byte) < 128"
  by (simp add: word_less_nat_alt unat_of_nat)

lemma unat_word_of_nat_byte [wire_simps]: "n < 256 \<Longrightarrow> unat (word_of_nat n :: byte) = n"
  by (simp add: unat_of_nat)

section \<open>The parser reads a prefix of the buffer\<close>

lemma parse_length_append:
  assumes "parse_length buf l7 \<noteq> Inl Need"
  shows "parse_length (buf @ rest) l7 = parse_length buf l7"
  using assms by (auto simp: parse_length_def nth_append Let_def split: if_splits)

lemma parse_length_Inr:
  "parse_length buf l7 = Inr (n, k) \<Longrightarrow> (k = 0 \<or> k = 2 \<or> k = 8) \<and> 2 + k \<le> max 2 (length buf)"
  by (auto simp: parse_length_def Let_def split: if_splits)

lemma parse_length_Inl:
  "parse_length buf l7 = Inl r \<Longrightarrow> r = Need \<or> (\<exists>v. r = Malformed v \<and> pv_fatal v)"
  by (auto simp: parse_length_def Let_def frame_simps split: if_splits)

lemma parse_header_append:
  assumes "parse_header buf \<noteq> Need"
  shows "parse_header (buf @ rest) = parse_header buf"
proof -
  from assms have len: "\<not> length buf < 2"
    by (auto simp: parse_header_def)
  then have nth: "(buf @ rest) ! 0 = buf ! 0" "(buf @ rest) ! Suc 0 = buf ! Suc 0"
    by (cases buf; simp add: nth_append)+
  from assms len have "parse_length buf (buf ! Suc 0 AND 0x7F) \<noteq> Inl Need"
    by (auto simp: parse_header_def Let_def)
  note pl = parse_length_append [OF this, of rest]
  show ?thesis
    using assms len
    by (auto simp: parse_header_def Let_def nth pl split: sum.splits if_splits)
qed

lemma parse_header_Parsed:
  assumes "parse_header buf = Parsed h n"
  shows "2 \<le> n \<and> n \<le> length buf \<and> n \<le> 14 \<and> h_payload_len h \<le> MAX_FRAME_LEN"
  using assms parse_length_Inr [of buf "buf ! 1 AND 0x7F"] parse_length_Inl [of buf "buf ! 1 AND 0x7F"]
  by (auto simp: parse_header_def Let_def split: sum.splits if_splits)

lemma parse_header_Malformed: "parse_header buf = Malformed v \<Longrightarrow> pv_fatal v"
  using parse_length_Inl [of buf "buf ! 1 AND 0x7F"]
  by (fastforce simp: parse_header_def Let_def frame_simps split: sum.splits if_splits)

lemma parse_header_Need_short: "parse_header buf = Need \<Longrightarrow> length buf < 14"
  by (auto simp: parse_header_def parse_length_def Let_def split: sum.splits if_splits)

lemma parse_header_Nil [simp]: "parse_header [] = Need"
  by (simp add: parse_header_def)

lemma header_violations_nonfatal:
  "v \<in> set (header_violations fin r2 r3 op l7 n) \<Longrightarrow> pv_fatal v \<Longrightarrow> False"
  by (auto simp: header_violations_def violation_frame_def split: if_splits opcode.splits)

lemma parse_header_nonfatal:
  assumes "parse_header buf = Parsed h n" "v \<in> set (h_violations h)"
  shows "\<not> pv_fatal v"
  using assms parse_length_Inl [of buf "buf ! 1 AND 0x7F"]
  by (auto simp: parse_header_def Let_def split: sum.splits if_splits)
     (drule (1) header_violations_nonfatal, simp)+

lemma parse_length_take:
  assumes "parse_length buf l7 = Inr (n, k)" "2 + k \<le> m" "m \<le> length buf"
  shows "parse_length (take m buf) l7 = Inr (n, k)"
  using assms by (auto simp: parse_length_def Let_def take_drop min_def split: if_splits)

lemma parse_header_take:
  assumes "parse_header buf = Parsed h n" "n \<le> m"
  shows "parse_header (take m buf) = Parsed h n"
proof -
  have *: "take (min m (length buf)) buf = take m buf" by simp
  show ?thesis
    using assms parse_length_take [of buf "buf ! Suc 0 AND 0x7F" _ _ "min m (length buf)"] parse_length_Inl [of buf "buf ! Suc 0 AND 0x7F"]
    unfolding * by (auto simp: parse_header_def Let_def take_drop  split: sum.splits if_splits)
qed

section \<open>Parsing what the encoder wrote\<close>

lemma length_encode_header [wire_simps]:
  "length (encode_header op len msk) =
     (if len < 126 then 2 else if len < 65536 then 4 else 10)"
  by (simp add: encode_header_def Let_def)

lemma encode_byte0:
  assumes "\<not> is_reserved op"
  shows "(0x80 OR to_u8 op) AND 0x80 \<noteq> 0" "(0x80 OR to_u8 op) AND 0x40 = 0"
    "(0x80 OR to_u8 op) AND 0x20 = 0" "(0x80 OR to_u8 op) AND 0x10 = 0"
    "from_u8 ((0x80 OR to_u8 op) AND 0x0F) = op"
  using assms by (cases op; simp add: is_reserved_def from_u8_def)+

text \<open>The length field of an encoded header, whatever bytes follow it.\<close>

lemma parse_length_encoded:
  assumes "len \<le> MAX_FRAME_LEN"
    and hdr_def: "hdr = encode_header op len msk"
  shows "parse_length (hdr @ rest) (hdr ! 1 AND 0x7F) = Inr (len, length hdr - 2)
       \<and> (hdr ! 1 AND 0x80 \<noteq> 0 \<longleftrightarrow> msk)
       \<and> (hdr ! 1 AND 0x7F = 126 \<longrightarrow> 126 \<le> len) \<and> (hdr ! 1 AND 0x7F = 127 \<longrightarrow> 65535 < len)"
proof -
  consider (short) "len < 126" | (mid) "126 \<le> len" "len < 65536" | (long) "65536 \<le> len"
    by linarith
  then show ?thesis
  proof cases
    case short
    define w where "w = (word_of_nat len :: byte)"
    have w: "w < 128" "unat w = len"
      using short by (auto simp: w_def word_of_nat_small unat_word_of_nat_byte)
    then have ne: "w \<noteq> 126" "w \<noteq> 127"
      using short by auto
    have "hdr = [0x80 OR to_u8 op, (if msk then 0x80 else 0) OR w]"
      using short by (simp add: hdr_def encode_header_def w_def)
    with w ne show ?thesis
      by (auto simp: parse_length_def wire_simps)
  next
    case mid
    have "be_nat (be_bytes 2 len) = len"
      using mid by (intro be_nat_be_bytes) simp
    moreover obtain x y where xy: "be_bytes 2 len = [x, y]"
      by simp
    ultimately show ?thesis
      using mid by (simp add: hdr_def encode_header_def parse_length_def)
  next
    case long
    have len8: "len < 256 ^ 8"
      using assms(1) by (simp add: MAX_FRAME_LEN_def)
    have be: "be_nat (be_bytes 8 len) = len"
      using len8 by (rule be_nat_be_bytes)
    have zero: "be_bytes 8 len ! 0 = 0"
      using assms(1) by (simp add: MAX_FRAME_LEN_def)
    have "hdr = [0x80 OR to_u8 op, (if msk then 0x80 else 0) OR 127] @ be_bytes 8 len"
      using long by (simp add: hdr_def encode_header_def del: be_bytes_numeral)
    then show ?thesis
      using long be zero by (simp add: parse_length_def Let_def nth_append del: be_bytes_numeral)
  qed
qed

definition encoded_header :: "opcode \<Rightarrow> nat \<Rightarrow> bool \<Rightarrow> byte list \<Rightarrow> frame_header" where
  "encoded_header op len msk key =
     \<lparr>h_fin = True, h_rsv1 = False, h_opcode = op, h_masked = msk,
      h_mask = (if msk then key else [0, 0, 0, 0]), h_payload_len = len, h_violations = []\<rparr>"

lemma parse_header_encoded:
  assumes "\<not> is_reserved op" "len \<le> MAX_FRAME_LEN" "is_control op \<longrightarrow> len \<le> 125"
    and key: "if msk then length key = 4 else key = []"
  shows "parse_header (encode_header op len msk @ key @ rest)
       = Parsed (encoded_header op len msk key) (length (encode_header op len msk) + length key)"
proof -
  let ?hd = "encode_header op len msk"
  have len2: "2 \<le> length ?hd"
    by (simp add: length_encode_header)
  have b0: "(?hd @ key @ rest) ! 0 = 0x80 OR to_u8 op"
    by (simp add: encode_header_def Let_def)
  have b1: "(?hd @ key @ rest) ! Suc 0 = ?hd ! Suc 0"
    using len2 by (simp add: nth_append)
  note pl = parse_length_encoded [OF assms(2) refl, of op msk "key @ rest"]
  have viol: "header_violations True False False op (?hd ! Suc 0 AND 0x7F) len = []"
    using pl assms(1,3) by (auto simp: header_violations_def is_reserved_def split: opcode.splits)
  show ?thesis
    using pl len2 key assms(2) viol encode_byte0 [OF assms(1)]
    by (auto simp: parse_header_def Let_def b0 b1 encoded_header_def split: if_splits)
qed

end
