(* ===== verification/Incremental.thy ===== *)
theory Incremental
  imports Prelude
begin

text \<open>
  The contract of an incremental parser: the two framers of \<^verbatim>\<open>net/ws.rs\<close> are fed the bytes of a
  connection in whatever pieces the sockets deliver them, and the program relies on the pieces not
  mattering. The contract is a locale over the parser's \<open>push\<close> operation and over a \<open>view\<close> of its
  output (what of the output must not depend on the pieces); its one law speaks of a buffer cut in
  two, and the consequences for any number of cuts are proved here once.
\<close>

fun feed :: "('s \<Rightarrow> 'i list \<Rightarrow> 's \<times> 'o list) \<Rightarrow> 's \<Rightarrow> 'i list list \<Rightarrow> 's \<times> 'o list" where
  "feed push s [] = (s, [])"
| "feed push s (c # cs) =
     (let (s', out) = push s c; (s'', out') = feed push s' cs in (s'', out @ out'))"

locale incremental =
  fixes push :: "'s \<Rightarrow> 'i list \<Rightarrow> 's \<times> 'o list"
    and view :: "'o \<Rightarrow> 'v list"
  assumes push_state: "fst (push s (a @ b)) = fst (push (fst (push s a)) b)"
    and push_view:
      "concat (map view (snd (push s (a @ b)))) =
       concat (map view (snd (push s a))) @ concat (map view (snd (push (fst (push s a)) b)))"
begin

lemma feed_state: "cs \<noteq> [] \<Longrightarrow> fst (feed push s cs) = fst (push s (concat cs))"
proof (induction cs arbitrary: s)
  case Nil
  then show ?case by simp
next
  case (Cons c cs)
  show ?case
  proof (cases "cs = []")
    case True
    then show ?thesis by (simp add: case_prod_beta)
  next
    case False
    then show ?thesis
      using Cons.IH [of "fst (push s c)"] by (simp add: case_prod_beta push_state)
  qed
qed

lemma feed_view:
  "cs \<noteq> [] \<Longrightarrow>
   concat (map view (snd (feed push s cs))) = concat (map view (snd (push s (concat cs))))"
proof (induction cs arbitrary: s)
  case Nil
  then show ?case by simp
next
  case (Cons c cs)
  show ?case
  proof (cases "cs = []")
    case True
    then show ?thesis by (simp add: case_prod_beta)
  next
    case False
    then show ?thesis
      using Cons.IH [of "fst (push s c)"] by (simp add: case_prod_beta push_view)
  qed
qed

lemma feed_split_irrelevant:
  assumes "cs \<noteq> []" "ds \<noteq> []" "concat cs = concat ds"
  shows "fst (feed push s cs) = fst (feed push s ds)"
    and "concat (map view (snd (feed push s cs))) = concat (map view (snd (feed push s ds)))"
  using assms feed_state feed_view by metis+

end

end
