(* ===== verification/WsDecoder.thy ===== *)
theory WsDecoder
  imports WsFrame Incremental
begin

text \<open>
  \<open>FrameDecoder\<close> of \<^verbatim>\<open>net/ws.rs\<close>: the observe-mode parser of one direction. It consumes the wire
  bytes in arbitrary pieces, retains a bounded, unmasked prefix of each payload and latches
  \<open>desynced\<close> on a header whose length cannot be trusted. The lemmas show that the pieces do not
  matter, that retention is bounded and that what the encoder wrote is what the decoder returns.
\<close>

section \<open>State\<close>

record raw_frame =
  rf_fin :: bool
  rf_rsv1 :: bool
  rf_opcode :: opcode
  rf_masked :: bool
  rf_payload :: "byte list"
  rf_payload_len :: nat
  rf_truncated :: bool
  rf_violations :: "protocol_violation list"

record pending =
  p_fin :: bool
  p_rsv1 :: bool
  p_opcode :: opcode
  p_masked :: bool
  p_mask :: "byte list"
  p_remaining :: nat
  p_retained :: "byte list"
  p_payload_len :: nat
  p_consumed :: nat
  p_retain_cap :: nat
  p_violations :: "protocol_violation list"

record frame_decoder =
  fd_buf :: "byte list"
  fd_pending :: "pending option"
  fd_retain_cap :: nat
  fd_desynced :: bool
  fd_violations :: "protocol_violation list"

definition decoder_new :: frame_decoder where
  "decoder_new =
     \<lparr>fd_buf = [], fd_pending = None, fd_retain_cap = COMPRESSED_ACCUM_CAP,
      fd_desynced = False, fd_violations = []\<rparr>"

section \<open>Operations\<close>

definition decoder_take_violations :: "frame_decoder \<Rightarrow> frame_decoder \<times> protocol_violation list" where
  "decoder_take_violations d = (d\<lparr>fd_violations := []\<rparr>, fd_violations d)"

definition decoder_at_boundary :: "frame_decoder \<Rightarrow> bool" where
  "decoder_at_boundary d \<longleftrightarrow> fd_pending d = None \<and> fd_buf d = []"

definition decoder_finish_stream :: "frame_decoder \<Rightarrow> frame_decoder \<times> protocol_violation list" where
  "decoder_finish_stream d =
     (if fd_desynced d then decoder_take_violations d
      else
        let (d1, violations) = decoder_take_violations d in
        case fd_pending d1 of
          Some p \<Rightarrow>
            (d1\<lparr>fd_pending := None, fd_buf := []\<rparr>,
             violations @ p_violations p @
             [violation_stream_end ''connection_ended_mid_frame'' (Some (p_opcode p))
                (jobj [(''payload_len'', jnat (p_payload_len p)),
                       (''payload_bytes_received'', jnat (p_consumed p)),
                       (''payload_bytes_missing'', jnat (p_remaining p))])])
        | None \<Rightarrow>
            (d1\<lparr>fd_buf := []\<rparr>,
             violations @
             (case fd_buf d1 of
                [] \<Rightarrow> []
              | b # _ \<Rightarrow>
                  [violation_stream_end ''connection_ended_mid_frame_header''
                     (Some (from_u8 (b AND 0x0F)))
                     (jobj [(''header_bytes_received'', jnat (length (fd_buf d1)))])])))"

text \<open>The retention loop of \<open>drive_payload\<close>: a byte is kept while the prefix is below the cap.\<close>

definition retain_bytes :: "nat \<Rightarrow> byte list \<Rightarrow> byte list \<Rightarrow> byte list" where
  "retain_bytes cap kept plain =
     foldl (\<lambda>ret b. if length ret < cap then ret @ [b] else ret) kept plain"

definition plain_bytes :: "pending \<Rightarrow> byte list \<Rightarrow> byte list" where
  "plain_bytes p chunk = (if p_masked p then apply_mask (p_mask p) (p_consumed p) chunk else chunk)"

definition pending_advance :: "pending \<Rightarrow> byte list \<Rightarrow> pending" where
  "pending_advance p chunk =
     p\<lparr>p_retained := retain_bytes (p_retain_cap p) (p_retained p) (plain_bytes p chunk),
       p_consumed := p_consumed p + length chunk,
       p_remaining := p_remaining p - length chunk\<rparr>"

definition pending_frame :: "pending \<Rightarrow> raw_frame" where
  "pending_frame p =
     \<lparr>rf_fin = p_fin p, rf_rsv1 = p_rsv1 p, rf_opcode = p_opcode p, rf_masked = p_masked p,
      rf_payload = p_retained p, rf_payload_len = p_payload_len p,
      rf_truncated = (length (p_retained p) < p_payload_len p),
      rf_violations = p_violations p\<rparr>"

definition drive_payload :: "frame_decoder \<Rightarrow> frame_decoder \<times> raw_frame option" where
  "drive_payload d =
     (case fd_pending d of
        None \<Rightarrow> (d, None)
      | Some p \<Rightarrow>
          let n = min (p_remaining p) (length (fd_buf d));
              p' = pending_advance p (take n (fd_buf d));
              d' = d\<lparr>fd_buf := drop n (fd_buf d)\<rparr>
          in if p_remaining p' = 0
             then (d'\<lparr>fd_pending := None\<rparr>, Some (pending_frame p'))
             else (d'\<lparr>fd_pending := Some p'\<rparr>, None))"

definition pending_of_header :: "nat \<Rightarrow> frame_header \<Rightarrow> pending" where
  "pending_of_header cap h =
     \<lparr>p_fin = h_fin h, p_rsv1 = h_rsv1 h, p_opcode = h_opcode h, p_masked = h_masked h,
      p_mask = h_mask h, p_remaining = h_payload_len h, p_retained = [],
      p_payload_len = h_payload_len h, p_consumed = 0, p_retain_cap = cap,
      p_violations = h_violations h\<rparr>"

lemma drive_payload_shrinks:
  "drive_payload d = (d', Some f) \<Longrightarrow>
   fd_pending d \<noteq> None \<and> fd_pending d' = None \<and> length (fd_buf d') \<le> length (fd_buf d)"
  by (auto simp: drive_payload_def Let_def split: option.splits if_splits)

function decoder_loop :: "frame_decoder \<Rightarrow> frame_decoder \<times> raw_frame list" where
  "decoder_loop d =
     (case fd_pending d of
        Some _ \<Rightarrow>
          (case drive_payload d of
             (d', Some frame) \<Rightarrow> (let (d'', out) = decoder_loop d' in (d'', frame # out))
           | (d', None) \<Rightarrow> (d', []))
      | None \<Rightarrow>
          (case parse_header (fd_buf d) of
             Need \<Rightarrow> (d, [])
           | Malformed violation \<Rightarrow>
               (d\<lparr>fd_violations := fd_violations d @ [violation], fd_desynced := True,
                  fd_buf := []\<rparr>, [])
           | Parsed header consumed \<Rightarrow>
               decoder_loop
                 (d\<lparr>fd_buf := drop consumed (fd_buf d),
                    fd_pending := Some (pending_of_header (fd_retain_cap d) header)\<rparr>)))"
  by pat_completeness auto
termination
  by (relation "measure (\<lambda>d. 2 * length (fd_buf d) + (if fd_pending d = None then 0 else 1))")
     (fastforce dest: drive_payload_shrinks [OF sym] parse_header_Parsed)+

declare decoder_loop.simps [simp del]

definition decoder_push :: "frame_decoder \<Rightarrow> byte list \<Rightarrow> frame_decoder \<times> raw_frame list" where
  "decoder_push d data =
     (if fd_desynced d then (d, [])
      else decoder_loop (d\<lparr>fd_buf := fd_buf d @ data\<rparr>))"

section \<open>The pieces do not matter\<close>

lemma retain_bytes_eq [frame_simps]:
  "retain_bytes cap kept plain = kept @ take (cap - length kept) plain"
proof (induction plain rule: rev_induct)
  case Nil
  then show ?case by (simp add: retain_bytes_def)
next
  case (snoc b plain)
  have "retain_bytes cap kept (plain @ [b]) =
      (let ret = retain_bytes cap kept plain in if length ret < cap then ret @ [b] else ret)"
    by (simp add: retain_bytes_def Let_def)
  then show ?case
    using snoc.IH by (auto simp: Let_def)
qed

lemma plain_bytes_append:
  "plain_bytes p (a @ b) = plain_bytes p a @ plain_bytes (pending_advance p a) b"
  by (simp add: plain_bytes_def pending_advance_def apply_mask_append)

lemma length_plain_bytes [simp]: "length (plain_bytes p a) = length a"
  by (simp add: plain_bytes_def)

lemma pending_advance_append:
  "pending_advance p (a @ b) = pending_advance (pending_advance p a) b"
proof -
  define k where "k = p_retain_cap p - length (p_retained p)"
  have "k - length a = k - min (length a) k"
    by simp
  then show ?thesis
    using plain_bytes_append [of p a b]
    by (simp add: pending_advance_def retain_bytes_eq k_def diff_diff_add)
qed

lemma pending_advance_Nil [simp]: "pending_advance p [] = p"
  by (simp add: pending_advance_def retain_bytes_eq plain_bytes_def)

lemma pending_advance_remaining [simp]:
  "p_remaining (pending_advance p a) = p_remaining p - length a"
  by (simp add: pending_advance_def)

lemma drive_complete:
  assumes "fd_pending d = Some p" "p_remaining p \<le> length (fd_buf d)"
  shows "drive_payload d =
    (d\<lparr>fd_buf := drop (p_remaining p) (fd_buf d), fd_pending := None\<rparr>,
     Some (pending_frame (pending_advance p (take (p_remaining p) (fd_buf d)))))"
  using assms by (simp add: drive_payload_def Let_def min_absorb1)

lemma drive_partial:
  assumes "fd_pending d = Some p" "length (fd_buf d) < p_remaining p"
  shows "drive_payload d =
    (d\<lparr>fd_buf := [], fd_pending := Some (pending_advance p (fd_buf d))\<rparr>, None)"
  using assms by (simp add: drive_payload_def Let_def min_absorb2)

lemma decoder_loop_complete:
  assumes "fd_pending d = Some p" "p_remaining p \<le> length (fd_buf d)"
  shows "decoder_loop d =
    (let (d', out) =
       decoder_loop (d\<lparr>fd_buf := drop (p_remaining p) (fd_buf d), fd_pending := None\<rparr>)
     in (d', pending_frame (pending_advance p (take (p_remaining p) (fd_buf d))) # out))"
  using assms drive_complete [OF assms] by (simp add: decoder_loop.simps [of d])

lemma decoder_loop_partial:
  assumes "fd_pending d = Some p" "length (fd_buf d) < p_remaining p"
  shows "decoder_loop d = (d\<lparr>fd_buf := [], fd_pending := Some (pending_advance p (fd_buf d))\<rparr>, [])"
  using assms drive_partial [OF assms] by (simp add: decoder_loop.simps [of d])

lemma decoder_loop_Need:
  assumes "fd_pending d = None" "parse_header (fd_buf d) = Need"
  shows "decoder_loop d = (d, [])"
  using assms by (simp add: decoder_loop.simps [of d])

lemma decoder_loop_Malformed:
  assumes "fd_pending d = None" "parse_header (fd_buf d) = Malformed v"
  shows "decoder_loop d =
    (d\<lparr>fd_violations := fd_violations d @ [v], fd_desynced := True, fd_buf := []\<rparr>, [])"
  using assms by (simp add: decoder_loop.simps [of d])

lemma decoder_loop_Parsed:
  assumes "fd_pending d = None" "parse_header (fd_buf d) = Parsed h n"
  shows "decoder_loop d =
    decoder_loop (d\<lparr>fd_buf := drop n (fd_buf d),
                    fd_pending := Some (pending_of_header (fd_retain_cap d) h)\<rparr>)"
  using assms by (simp add: decoder_loop.simps [of d])

lemma fd_update_commute [simp]:
  "(d :: frame_decoder)\<lparr>fd_pending := q, fd_buf := b\<rparr> = d\<lparr>fd_buf := b, fd_pending := q\<rparr>"
  by simp

lemma fd_pending_None_update [simp]:
  "fd_pending d = None \<Longrightarrow> (d :: frame_decoder)\<lparr>fd_buf := b, fd_pending := None\<rparr> = d\<lparr>fd_buf := b\<rparr>"
  by (cases d) simp

text \<open>An induction over the loop with one case for each of its exits.\<close>

lemma decoder_loop_induct [case_names partial complete need malformed parsed]:
  fixes P :: "frame_decoder \<Rightarrow> bool"
  assumes "\<And>d p. fd_pending d = Some p \<Longrightarrow> length (fd_buf d) < p_remaining p \<Longrightarrow> P d"
    and "\<And>d p. fd_pending d = Some p \<Longrightarrow> p_remaining p \<le> length (fd_buf d) \<Longrightarrow>
           P (d\<lparr>fd_buf := drop (p_remaining p) (fd_buf d), fd_pending := None\<rparr>) \<Longrightarrow> P d"
    and "\<And>d. fd_pending d = None \<Longrightarrow> parse_header (fd_buf d) = Need \<Longrightarrow> P d"
    and "\<And>d v. fd_pending d = None \<Longrightarrow> parse_header (fd_buf d) = Malformed v \<Longrightarrow> P d"
    and "\<And>d h n. fd_pending d = None \<Longrightarrow> parse_header (fd_buf d) = Parsed h n \<Longrightarrow>
           P (d\<lparr>fd_buf := drop n (fd_buf d),
                fd_pending := Some (pending_of_header (fd_retain_cap d) h)\<rparr>) \<Longrightarrow> P d"
  shows "P d"
proof (induction d rule: decoder_loop.induct)
  case (1 d)
  show ?case
  proof (cases "fd_pending d")
    case None
    then show ?thesis
      using "1.IH" assms(3-5) by (cases "parse_header (fd_buf d)") auto
  next
    case (Some p)
    show ?thesis
    proof (cases "p_remaining p \<le> length (fd_buf d)")
      case True
      then show ?thesis
        using Some drive_complete [OF Some True] "1.IH" assms(2) by auto
    next
      case False
      then show ?thesis
        using Some assms(1) by auto
    qed
  qed
qed

lemma decoder_loop_append:
  assumes "\<not> fd_desynced d"
  shows "decoder_loop (d\<lparr>fd_buf := fd_buf d @ b\<rparr>) =
    (let (d1, out1) = decoder_loop d; (d2, out2) = decoder_push d1 b in (d2, out1 @ out2))"
  using assms
proof (induction d rule: decoder_loop_induct)
  case (partial d p)
  let ?q = "pending_advance p (fd_buf d)"
  show ?case
  proof (cases "p_remaining p \<le> length (fd_buf d @ b)")
    case True
    then have "take (p_remaining p) (fd_buf d @ b)
        = fd_buf d @ take (p_remaining p - length (fd_buf d)) b"
      using partial(2) by simp
    with True partial show ?thesis
      by (simp add: decoder_loop_partial decoder_loop_complete decoder_push_def
          pending_advance_append case_prod_beta)
  next
    case False
    with partial show ?thesis
      by (simp add: decoder_loop_partial decoder_push_def pending_advance_append)
  qed
next
  case (complete d p)
  then show ?case
    by (simp add: decoder_loop_complete case_prod_beta Let_def)
next
  case (need d)
  then show ?case
    by (simp add: decoder_loop_Need decoder_push_def case_prod_beta)
next
  case (malformed d v)
  then have "parse_header (fd_buf d @ b) = Malformed v"
    by (simp add: parse_header_append)
  with malformed show ?case
    by (simp add: decoder_loop_Malformed decoder_push_def)
next
  case (parsed d h n)
  then have "parse_header (fd_buf d @ b) = Parsed h n"
    by (simp add: parse_header_append)
  with parsed show ?case
    using parse_header_Parsed [OF parsed(2)]
    by (simp add: decoder_loop_Parsed [of d h n] decoder_loop_Parsed [of "d\<lparr>fd_buf := fd_buf d @ b\<rparr>" h n])
qed

lemma decoder_push_append:
  "decoder_push d (a @ b) =
    (let (d1, out1) = decoder_push d a; (d2, out2) = decoder_push d1 b in (d2, out1 @ out2))"
proof (cases "fd_desynced d")
  case True
  then show ?thesis by (simp add: decoder_push_def)
next
  case False
  then show ?thesis
    using decoder_loop_append [of "d\<lparr>fd_buf := fd_buf d @ a\<rparr>" b]
    by (simp add: decoder_push_def)
qed

interpretation decoder: incremental decoder_push "\<lambda>frame. [frame]"
  by unfold_locales (simp_all add: decoder_push_append case_prod_beta)

section \<open>Bounded retention\<close>

text \<open>
  \<open>pending_ok\<close> relates the counters of a frame in flight; \<open>decoder_ok\<close> is the state of a decoder
  between two pushes: it holds either an incomplete header or the retained prefix of one payload,
  never unread payload bytes.
\<close>

definition pending_ok :: "nat \<Rightarrow> pending \<Rightarrow> bool" where
  "pending_ok cap p \<longleftrightarrow>
     p_retain_cap p = cap \<and> length (p_retained p) = min cap (p_consumed p) \<and>
     p_consumed p + p_remaining p = p_payload_len p \<and> p_payload_len p \<le> MAX_FRAME_LEN \<and>
     (\<forall>v \<in> set (p_violations p). \<not> pv_fatal v)"

definition decoder_ok :: "frame_decoder \<Rightarrow> bool" where
  "decoder_ok d \<longleftrightarrow>
     (case fd_pending d of
        None \<Rightarrow> length (fd_buf d) < 14
      | Some p \<Rightarrow> fd_buf d = [] \<and> pending_ok (fd_retain_cap d) p \<and> 0 < p_remaining p) \<and>
     (fd_desynced d \<longrightarrow> fd_buf d = [] \<and> fd_pending d = None)"

definition raw_frame_ok :: "nat \<Rightarrow> raw_frame \<Rightarrow> bool" where
  "raw_frame_ok cap f \<longleftrightarrow>
     length (rf_payload f) = min cap (rf_payload_len f) \<and>
     (rf_truncated f \<longleftrightarrow> cap < rf_payload_len f) \<and>
     rf_payload_len f \<le> MAX_FRAME_LEN \<and> (\<forall>v \<in> set (rf_violations f). \<not> pv_fatal v)"

lemma decoder_ok_new: "decoder_ok decoder_new"
  by (simp add: decoder_ok_def decoder_new_def)

lemma pending_advance_ok:
  "pending_ok cap p \<Longrightarrow> length a \<le> p_remaining p \<Longrightarrow> pending_ok cap (pending_advance p a)"
  by (auto simp: pending_ok_def pending_advance_def retain_bytes_eq min_def)

lemma pending_frame_ok:
  "pending_ok cap p \<Longrightarrow> p_remaining p = 0 \<Longrightarrow> raw_frame_ok cap (pending_frame p)"
  by (auto simp: pending_ok_def pending_frame_def raw_frame_ok_def)

lemma pending_of_header_ok:
  "parse_header buf = Parsed h n \<Longrightarrow> pending_ok cap (pending_of_header cap h)"
  using parse_header_Parsed [of buf h n] parse_header_nonfatal [of buf h n]
  by (auto simp: pending_ok_def pending_of_header_def)

lemma decoder_loop_ok:
  assumes "\<not> fd_desynced d" "\<And>p. fd_pending d = Some p \<Longrightarrow> pending_ok (fd_retain_cap d) p"
  shows "decoder_ok (fst (decoder_loop d)) \<and> fd_retain_cap (fst (decoder_loop d)) = fd_retain_cap d \<and>
    (\<forall>f \<in> set (snd (decoder_loop d)). raw_frame_ok (fd_retain_cap d) f)"
  using assms
proof (induction d rule: decoder_loop_induct)
  case (partial d p)
  then show ?case
    by (auto simp: decoder_loop_partial decoder_ok_def intro: pending_advance_ok)
next
  case (complete d p)
  then have "raw_frame_ok (fd_retain_cap d)
      (pending_frame (pending_advance p (take (p_remaining p) (fd_buf d))))"
    by (intro pending_frame_ok pending_advance_ok) auto
  with complete show ?case
    by (simp add: decoder_loop_complete case_prod_beta)
next
  case (need d)
  then show ?case
    by (simp add: decoder_loop_Need decoder_ok_def parse_header_Need_short)
next
  case (malformed d v)
  then show ?case
    by (simp add: decoder_loop_Malformed decoder_ok_def)
next
  case (parsed d h n)
  then show ?case
    by (simp add: decoder_loop_Parsed [of d h n] pending_of_header_ok)
qed

lemma decoder_push_ok:
  assumes "decoder_ok d"
  shows "decoder_ok (fst (decoder_push d data)) \<and>
    fd_retain_cap (fst (decoder_push d data)) = fd_retain_cap d \<and>
    (\<forall>f \<in> set (snd (decoder_push d data)). raw_frame_ok (fd_retain_cap d) f)"
proof (cases "fd_desynced d")
  case True
  with assms show ?thesis by (simp add: decoder_push_def)
next
  case False
  then show ?thesis
    using assms decoder_loop_ok [of "d\<lparr>fd_buf := fd_buf d @ data\<rparr>"]
    by (auto simp: decoder_push_def decoder_ok_def split: option.splits)
qed

section \<open>Decoding what the encoder wrote\<close>

definition encoded_frame :: "nat \<Rightarrow> bool \<Rightarrow> opcode \<times> byte list \<Rightarrow> raw_frame" where
  "encoded_frame cap msk f =
     \<lparr>rf_fin = True, rf_rsv1 = False, rf_opcode = fst f, rf_masked = msk,
      rf_payload = take cap (snd f), rf_payload_len = length (snd f),
      rf_truncated = (cap < length (snd f)), rf_violations = []\<rparr>"

fun encode_frames :: "u64 \<Rightarrow> bool \<Rightarrow> (opcode \<times> byte list) list \<Rightarrow> byte list" where
  "encode_frames seed msk [] = []"
| "encode_frames seed msk (f # fs) =
     (let (seed', bytes) = encode_frame seed (fst f) (snd f) msk
      in bytes @ encode_frames seed' msk fs)"

definition sendable :: "opcode \<times> byte list \<Rightarrow> bool" where
  "sendable f \<longleftrightarrow> \<not> is_reserved (fst f) \<and> length (snd f) \<le> MAX_FRAME_LEN \<and>
     (is_control (fst f) \<longrightarrow> length (snd f) \<le> 125)"

lemma encode_frame_parts:
  obtains key where "if msk then length key = 4 else key = []"
    and "snd (encode_frame seed op payload msk) =
      encode_header op (length payload) msk @ key @
      (if msk then apply_mask key 0 payload else payload)"
proof (cases msk)
  case True
  show ?thesis
    by (rule that [of "take 4 (be_bytes 8 (unat seed))"])
       (use True in \<open>simp_all add: encode_frame_def Let_def del: be_bytes_numeral\<close>)
next
  case False
  then show ?thesis
    by (intro that [of "[]"]) (simp_all add: encode_frame_def)
qed

lemma decoder_loop_encoded:
  assumes "sendable f" "fd_pending d = None"
  shows "decoder_loop (d\<lparr>fd_buf := snd (encode_frame seed (fst f) (snd f) msk) @ rest\<rparr>) =
    (let (d', out) = decoder_loop (d\<lparr>fd_buf := rest\<rparr>)
     in (d', encoded_frame (fd_retain_cap d) msk f # out))"
proof -
  obtain key where key: "if msk then length key = 4 else key = []"
    and enc: "snd (encode_frame seed (fst f) (snd f) msk) =
      encode_header (fst f) (length (snd f)) msk @ key @
      (if msk then apply_mask key 0 (snd f) else snd f)"
    by (rule encode_frame_parts)
  define body where "body = (if msk then apply_mask key 0 (snd f) else snd f)"
  have len: "length body = length (snd f)"
    by (simp add: body_def)
  let ?hdr = "encode_header (fst f) (length (snd f)) msk"
  let ?h = "encoded_header (fst f) (length (snd f)) msk key"
  let ?p = "pending_of_header (fd_retain_cap d) ?h"
  have parse: "parse_header (?hdr @ key @ body @ rest) = Parsed ?h (length ?hdr + length key)"
    using assms(1) key by (intro parse_header_encoded) (auto simp: sendable_def)
  have frame: "pending_frame (pending_advance ?p body) = encoded_frame (fd_retain_cap d) msk f"
    by (auto simp: pending_frame_def pending_advance_def pending_of_header_def encoded_header_def
        encoded_frame_def retain_bytes_eq plain_bytes_def body_def)
  have rem: "p_remaining ?p = length body"
    by (simp add: pending_of_header_def encoded_header_def len)
  let ?d1 = "d\<lparr>fd_buf := body @ rest, fd_pending := Some ?p\<rparr>"
  have "decoder_loop (d\<lparr>fd_buf := ?hdr @ key @ body @ rest\<rparr>) = decoder_loop ?d1"
    using assms(2) parse by (simp add: decoder_loop_Parsed)
  also have "\<dots> = (let (d', out) = decoder_loop (d\<lparr>fd_buf := rest\<rparr>)
      in (d', encoded_frame (fd_retain_cap d) msk f # out))"
    using assms(2) rem frame by (simp add: decoder_loop_complete [of ?d1 ?p])
  finally show ?thesis
    by (simp only: enc body_def [symmetric] append_assoc)
qed

lemma decoder_loop_encode_frames:
  assumes "list_all sendable fs" "fd_pending d = None"
  shows "decoder_loop (d\<lparr>fd_buf := encode_frames seed msk fs\<rparr>) =
    (d\<lparr>fd_buf := []\<rparr>, map (encoded_frame (fd_retain_cap d) msk) fs)"
  using assms(1)
proof (induction fs arbitrary: seed)
  case Nil
  then show ?case
    using assms(2) by (simp add: decoder_loop_Need)
next
  case (Cons f fs)
  then show ?case
    using assms(2) by (simp add: case_prod_beta decoder_loop_encoded)
qed

section \<open>Properties\<close>

text \<open>
  However the sockets cut a byte stream into pieces, the observe-mode decoder reports the same
  frames and ends in the same state as if the whole stream had arrived at once.
\<close>

theorem decoder_chunking:
  assumes "cs \<noteq> []"
  shows "feed decoder_push d cs = decoder_push d (concat cs)"
proof -
  have "fst (feed decoder_push d cs) = fst (decoder_push d (concat cs))"
    using assms by (rule decoder.feed_state)
  moreover have "snd (feed decoder_push d cs) = snd (decoder_push d (concat cs))"
    using decoder.feed_view [OF assms, of d] by simp
  ultimately show ?thesis by (rule prod_eqI)
qed

theorem decoder_chunking_witness:
  "feed decoder_push decoder_new [[0x81], [0x01, 0x41]] = decoder_push decoder_new [0x81, 0x01, 0x41]"
  using decoder_chunking [of "[[0x81], [0x01, 0x41]]" decoder_new] by simp

text \<open>
  C25: Frames written by \<open>encode_frame\<close>, masked or not, are recovered by the decoder in order,
  unmasked, without a violation and up to the retention cap, and the decoder is back at a frame
  boundary with nothing buffered.
\<close>

theorem decoder_roundtrip:
  assumes "list_all sendable fs"
  shows "decoder_push decoder_new (encode_frames seed msk fs) =
    (decoder_new, map (encoded_frame COMPRESSED_ACCUM_CAP msk) fs)"
  using decoder_loop_encode_frames [OF assms, of decoder_new seed msk]
  by (simp add: decoder_push_def decoder_new_def)

theorem decoder_roundtrip_witness:
  "decoder_push decoder_new (encode_frames 7 True [(OpText, [0x68, 0x69]), (OpPing, [])]) =
    (decoder_new, map (encoded_frame COMPRESSED_ACCUM_CAP True) [(OpText, [0x68, 0x69]), (OpPing, [])])"
  by (rule decoder_roundtrip) (simp add: sendable_def is_reserved_def MAX_FRAME_LEN_def)

text \<open>
  Whatever bytes a peer sends, and in whatever pieces, the decoder never holds more than an
  incomplete header (under 14 bytes) or one payload prefix of at most the retention cap; every
  frame it reports retains exactly the capped prefix of its payload, is marked truncated exactly
  when bytes were left out, and is at most the capture limit long.
\<close>

theorem decoder_bounded:
  assumes "feed decoder_push decoder_new cs = (d, frames)"
  shows "(case fd_pending d of
            None \<Rightarrow> length (fd_buf d) < 14
          | Some p \<Rightarrow> fd_buf d = [] \<and> length (p_retained p) \<le> COMPRESSED_ACCUM_CAP)
       \<and> (\<forall>f \<in> set frames. raw_frame_ok COMPRESSED_ACCUM_CAP f)"
proof -
  have "decoder_ok (fst (feed decoder_push d0 cs)) \<and>
      fd_retain_cap (fst (feed decoder_push d0 cs)) = fd_retain_cap d0 \<and>
      (\<forall>f \<in> set (snd (feed decoder_push d0 cs)). raw_frame_ok (fd_retain_cap d0) f)"
    if "decoder_ok d0" for d0
    using that
  proof (induction cs arbitrary: d0)
    case (Cons c cs)
    then show ?case
      using decoder_push_ok [OF Cons.prems, of c] Cons.IH [of "fst (decoder_push d0 c)"]
      by (auto simp: case_prod_beta)
  qed simp
  from this [OF decoder_ok_new] assms have "decoder_ok d \<and> fd_retain_cap d = COMPRESSED_ACCUM_CAP \<and>
      (\<forall>f \<in> set frames. raw_frame_ok COMPRESSED_ACCUM_CAP f)"
    by (simp add: decoder_new_def)
  then show ?thesis
    by (auto simp: decoder_ok_def pending_ok_def split: option.splits)
qed

theorem decoder_bounded_witness:
  "\<exists>d frames. feed decoder_push decoder_new [[0x81]] = (d, frames)
     \<and> (case fd_pending d of
            None \<Rightarrow> length (fd_buf d) < 14
          | Some p \<Rightarrow> fd_buf d = [] \<and> length (p_retained p) \<le> COMPRESSED_ACCUM_CAP)
     \<and> (\<forall>f \<in> set frames. raw_frame_ok COMPRESSED_ACCUM_CAP f)"
  using decoder_bounded [of "[[0x81]]"] by (metis surj_pair)

end
