(* ===== verification/WsFramer.thy ===== *)
theory WsFramer
  imports WsDecoder
begin

text \<open>
  \<open>ManagedFramer\<close> of \<^verbatim>\<open>net/ws.rs\<close>: the parser used while a direction is under rules or
  interception. It buffers each frame whole, with its exact wire bytes, streams frames above the
  managed cap through raw, and gives up decoding (but not forwarding) on a header it cannot trust.
  The lemmas show that no byte is lost, invented or reordered, that buffering is bounded, and that
  it reports the frames the observe-mode decoder reports.
\<close>

section \<open>State\<close>

record managed_frame =
  mf_fin :: bool
  mf_rsv1 :: bool
  mf_opcode :: opcode
  mf_masked :: bool
  mf_violations :: "protocol_violation list"
  mf_payload :: "byte list"
  mf_raw :: "byte list"

datatype managed_item =
    ManagedFrame managed_frame
  | Passthrough "byte list"
  | ObservedFrame raw_frame

record oversized_frame =
  ov_fin :: bool
  ov_rsv1 :: bool
  ov_opcode :: opcode
  ov_masked :: bool
  ov_payload_len :: nat
  ov_remaining :: nat
  ov_violations :: "protocol_violation list"

record managed_framer =
  mg_buf :: "byte list"
  mg_oversized :: "oversized_frame option"
  mg_desynced :: bool
  mg_violations :: "protocol_violation list"

definition framer_new :: managed_framer where
  "framer_new = \<lparr>mg_buf = [], mg_oversized = None, mg_desynced = False, mg_violations = []\<rparr>"

section \<open>Operations\<close>

definition framer_at_boundary :: "managed_framer \<Rightarrow> bool" where
  "framer_at_boundary m \<longleftrightarrow> mg_buf m = [] \<and> mg_oversized m = None"

definition framer_take_violations :: "managed_framer \<Rightarrow> managed_framer \<times> protocol_violation list" where
  "framer_take_violations m = (m\<lparr>mg_violations := []\<rparr>, mg_violations m)"

definition framer_finish_stream :: "managed_framer \<Rightarrow> managed_framer \<times> protocol_violation list" where
  "framer_finish_stream m =
     (if mg_desynced m then framer_take_violations m
      else
        let (m1, violations) = framer_take_violations m;
            ended =
              (case mg_oversized m1 of
                 Some ov \<Rightarrow>
                   ov_violations ov @
                   [violation_stream_end ''connection_ended_mid_oversized_frame''
                      (Some (ov_opcode ov))
                      (jobj [(''payload_len'', jnat (ov_payload_len ov)),
                             (''payload_bytes_received'',
                              jnat (ov_payload_len ov - ov_remaining ov)),
                             (''payload_bytes_missing'', jnat (ov_remaining ov))])]
               | None \<Rightarrow>
                   if mg_buf m1 = [] then []
                   else
                     let (op, payload_len, received, header_violations) =
                       (case parse_header (mg_buf m1) of
                          Parsed h consumed \<Rightarrow>
                            (Some (h_opcode h), Some (h_payload_len h),
                             length (mg_buf m1) - consumed, h_violations h)
                        | _ \<Rightarrow> (None, None, 0, []))
                     in header_violations @
                        [violation_stream_end ''connection_ended_mid_frame'' op
                           (jobj [(''buffered_bytes'', jnat (length (mg_buf m1))),
                                  (''payload_len'', jopt jnat payload_len),
                                  (''payload_bytes_received'', jnat received)])])
        in (m1\<lparr>mg_buf := [], mg_oversized := None\<rparr>, violations @ ended))"

definition oversized_observation :: "oversized_frame \<Rightarrow> raw_frame" where
  "oversized_observation ov =
     \<lparr>rf_fin = ov_fin ov, rf_rsv1 = ov_rsv1 ov, rf_opcode = ov_opcode ov,
      rf_masked = ov_masked ov, rf_payload = [], rf_payload_len = ov_payload_len ov,
      rf_truncated = True, rf_violations = ov_violations ov\<rparr>"

definition oversized_of_header :: "frame_header \<Rightarrow> oversized_frame" where
  "oversized_of_header h =
     \<lparr>ov_fin = h_fin h, ov_rsv1 = h_rsv1 h, ov_opcode = h_opcode h, ov_masked = h_masked h,
      ov_payload_len = h_payload_len h, ov_remaining = h_payload_len h,
      ov_violations =
        [violation_frame ''managed_frame_exceeds_observation_cap'' (h_opcode h)
           (jobj [(''payload_len'', jnat (h_payload_len h)),
                  (''managed_frame_cap'', jnat MANAGED_FRAME_CAP)])]\<rparr>"

definition managed_of_header :: "frame_header \<Rightarrow> nat \<Rightarrow> byte list \<Rightarrow> managed_frame" where
  "managed_of_header h consumed raw =
     (let payload = drop consumed raw in
      \<lparr>mf_fin = h_fin h, mf_rsv1 = h_rsv1 h, mf_opcode = h_opcode h, mf_masked = h_masked h,
       mf_violations = h_violations h,
       mf_payload = (if h_masked h then apply_mask (h_mask h) 0 payload else payload),
       mf_raw = raw\<rparr>)"

function framer_loop :: "managed_framer \<Rightarrow> managed_framer \<times> managed_item list" where
  "framer_loop m =
     (case mg_oversized m of
        Some ov \<Rightarrow>
          let n = min (ov_remaining ov) (length (mg_buf m)) in
          if n = 0 then (m, [])
          else
            let chunk = take n (mg_buf m);
                ov' = ov\<lparr>ov_remaining := ov_remaining ov - n\<rparr>
            in if ov_remaining ov' = 0 then
                 (let (m', out) =
                    framer_loop (m\<lparr>mg_buf := drop n (mg_buf m), mg_oversized := None\<rparr>)
                  in (m', Passthrough chunk # ObservedFrame (oversized_observation ov') # out))
               else
                 (let (m', out) =
                    framer_loop (m\<lparr>mg_buf := drop n (mg_buf m), mg_oversized := Some ov'\<rparr>)
                  in (m', Passthrough chunk # out))
      | None \<Rightarrow>
          (case parse_header (mg_buf m) of
             Need \<Rightarrow> (m, [])
           | Malformed violation \<Rightarrow>
               (m\<lparr>mg_violations := mg_violations m @ [violation], mg_desynced := True,
                  mg_buf := []\<rparr>,
                if mg_buf m = [] then [] else [Passthrough (mg_buf m)])
           | Parsed h consumed \<Rightarrow>
               if h_payload_len h > MANAGED_FRAME_CAP then
                 (let (m', out) =
                    framer_loop (m\<lparr>mg_buf := drop consumed (mg_buf m),
                                   mg_violations := mg_violations m @ h_violations h,
                                   mg_oversized := Some (oversized_of_header h)\<rparr>)
                  in (m', Passthrough (take consumed (mg_buf m)) # out))
               else
                 let total = consumed + h_payload_len h in
                 if length (mg_buf m) < total then (m, [])
                 else
                   (let (m', out) = framer_loop (m\<lparr>mg_buf := drop total (mg_buf m)\<rparr>)
                    in (m', ManagedFrame (managed_of_header h consumed (take total (mg_buf m))) # out))))"
  by pat_completeness auto
termination
  by (relation "measure (\<lambda>m. length (mg_buf m))") (fastforce dest: parse_header_Parsed)+

declare framer_loop.simps [simp del]

definition framer_push :: "managed_framer \<Rightarrow> byte list \<Rightarrow> managed_framer \<times> managed_item list" where
  "framer_push m data =
     (if mg_desynced m then (m, if data = [] then [] else [Passthrough data])
      else framer_loop (m\<lparr>mg_buf := mg_buf m @ data\<rparr>))"

section \<open>The exits of the loop\<close>

lemma mg_update_commute [simp]:
  "(m :: managed_framer)\<lparr>mg_oversized := q, mg_buf := b\<rparr> = m\<lparr>mg_buf := b, mg_oversized := q\<rparr>"
  "(m :: managed_framer)\<lparr>mg_violations := v, mg_buf := b\<rparr> = m\<lparr>mg_buf := b, mg_violations := v\<rparr>"
  by simp_all

lemma framer_loop_stuck:
  assumes "mg_oversized m = Some ov" "ov_remaining ov = 0"
  shows "framer_loop m = (m, [])"
  using assms by (simp add: framer_loop.simps [of m])

lemma framer_loop_partial:
  assumes "mg_oversized m = Some ov" "length (mg_buf m) < ov_remaining ov"
  shows "framer_loop m =
    (if mg_buf m = [] then (m, [])
     else (m\<lparr>mg_buf := [],
             mg_oversized := Some (ov\<lparr>ov_remaining := ov_remaining ov - length (mg_buf m)\<rparr>)\<rparr>,
           [Passthrough (mg_buf m)]))"
proof -
  have stop: "framer_loop m' = (m', [])"
    if "mg_buf m' = []" "mg_oversized m' = Some ov'" for m' ov'
    using that by (simp add: framer_loop.simps [of m'])
  have "min (ov_remaining ov) (length (mg_buf m)) = length (mg_buf m)"
    using assms(2) by simp
  then show ?thesis
    using assms stop by (simp add: framer_loop.simps [of m] Let_def)
qed

lemma framer_loop_complete:
  assumes "mg_oversized m = Some ov" "0 < ov_remaining ov" "ov_remaining ov \<le> length (mg_buf m)"
  shows "framer_loop m =
    (let (m', out) =
       framer_loop (m\<lparr>mg_buf := drop (ov_remaining ov) (mg_buf m), mg_oversized := None\<rparr>)
     in (m', Passthrough (take (ov_remaining ov) (mg_buf m)) #
             ObservedFrame (oversized_observation ov) # out))"
proof -
  have "min (ov_remaining ov) (length (mg_buf m)) = ov_remaining ov"
    using assms(3) by simp
  then show ?thesis
    using assms by (simp add: framer_loop.simps [of m] Let_def oversized_observation_def)
qed

lemma framer_loop_Need:
  assumes "mg_oversized m = None" "parse_header (mg_buf m) = Need"
  shows "framer_loop m = (m, [])"
  using assms by (simp add: framer_loop.simps [of m])

lemma framer_loop_Malformed:
  assumes "mg_oversized m = None" "parse_header (mg_buf m) = Malformed v"
  shows "framer_loop m =
    (m\<lparr>mg_buf := [], mg_violations := mg_violations m @ [v], mg_desynced := True\<rparr>,
     [Passthrough (mg_buf m)])"
  using assms by (auto simp: framer_loop.simps [of m])

lemma framer_loop_big:
  assumes "mg_oversized m = None" "parse_header (mg_buf m) = Parsed h n"
    "MANAGED_FRAME_CAP < h_payload_len h"
  shows "framer_loop m =
    (let (m', out) =
       framer_loop (m\<lparr>mg_buf := drop n (mg_buf m),
                      mg_violations := mg_violations m @ h_violations h,
                      mg_oversized := Some (oversized_of_header h)\<rparr>)
     in (m', Passthrough (take n (mg_buf m)) # out))"
  using assms by (simp add: framer_loop.simps [of m])

lemma framer_loop_wait:
  assumes "mg_oversized m = None" "parse_header (mg_buf m) = Parsed h n"
    "h_payload_len h \<le> MANAGED_FRAME_CAP" "length (mg_buf m) < n + h_payload_len h"
  shows "framer_loop m = (m, [])"
  using assms by (simp add: framer_loop.simps [of m])

lemma framer_loop_whole:
  assumes "mg_oversized m = None" "parse_header (mg_buf m) = Parsed h n"
    "h_payload_len h \<le> MANAGED_FRAME_CAP" "n + h_payload_len h \<le> length (mg_buf m)"
  shows "framer_loop m =
    (let (m', out) = framer_loop (m\<lparr>mg_buf := drop (n + h_payload_len h) (mg_buf m)\<rparr>)
     in (m', ManagedFrame (managed_of_header h n (take (n + h_payload_len h) (mg_buf m))) # out))"
  using assms by (simp add: framer_loop.simps [of m] Let_def)

lemmas framer_loop_exits =
  framer_loop_stuck framer_loop_partial framer_loop_complete framer_loop_Need
  framer_loop_Malformed framer_loop_big framer_loop_wait framer_loop_whole

lemma framer_loop_induct
  [case_names stuck partial complete need malformed big wait whole]:
  fixes P :: "managed_framer \<Rightarrow> bool"
  assumes "\<And>m ov. mg_oversized m = Some ov \<Longrightarrow> ov_remaining ov = 0 \<Longrightarrow> P m"
    and "\<And>m ov. mg_oversized m = Some ov \<Longrightarrow> length (mg_buf m) < ov_remaining ov \<Longrightarrow> P m"
    and "\<And>m ov. mg_oversized m = Some ov \<Longrightarrow> 0 < ov_remaining ov \<Longrightarrow>
           ov_remaining ov \<le> length (mg_buf m) \<Longrightarrow>
           P (m\<lparr>mg_buf := drop (ov_remaining ov) (mg_buf m), mg_oversized := None\<rparr>) \<Longrightarrow> P m"
    and "\<And>m. mg_oversized m = None \<Longrightarrow> parse_header (mg_buf m) = Need \<Longrightarrow> P m"
    and "\<And>m v. mg_oversized m = None \<Longrightarrow> parse_header (mg_buf m) = Malformed v \<Longrightarrow> P m"
    and "\<And>m h n. mg_oversized m = None \<Longrightarrow> parse_header (mg_buf m) = Parsed h n \<Longrightarrow>
           MANAGED_FRAME_CAP < h_payload_len h \<Longrightarrow>
           P (m\<lparr>mg_buf := drop n (mg_buf m), mg_violations := mg_violations m @ h_violations h,
                mg_oversized := Some (oversized_of_header h)\<rparr>) \<Longrightarrow> P m"
    and "\<And>m h n. mg_oversized m = None \<Longrightarrow> parse_header (mg_buf m) = Parsed h n \<Longrightarrow>
           h_payload_len h \<le> MANAGED_FRAME_CAP \<Longrightarrow>
           length (mg_buf m) < n + h_payload_len h \<Longrightarrow> P m"
    and "\<And>m h n. mg_oversized m = None \<Longrightarrow> parse_header (mg_buf m) = Parsed h n \<Longrightarrow>
           h_payload_len h \<le> MANAGED_FRAME_CAP \<Longrightarrow>
           n + h_payload_len h \<le> length (mg_buf m) \<Longrightarrow>
           P (m\<lparr>mg_buf := drop (n + h_payload_len h) (mg_buf m)\<rparr>) \<Longrightarrow> P m"
  shows "P m"
proof (induction "length (mg_buf m)" arbitrary: m rule: less_induct)
  case less
  show ?case
  proof (cases "mg_oversized m")
    case None
    show ?thesis
    proof (cases "parse_header (mg_buf m)")
      case (Parsed h n)
      note pos = parse_header_Parsed [OF Parsed]
      show ?thesis
        using None Parsed pos less assms(6-8) [of m h n]
        by (cases "MANAGED_FRAME_CAP < h_payload_len h";
            cases "length (mg_buf m) < n + h_payload_len h") auto
    qed (use None assms(4,5) in auto)
  next
    case (Some ov)
    then show ?thesis
      using less assms(1-3) [of m ov]
      by (cases "ov_remaining ov = 0"; cases "length (mg_buf m) < ov_remaining ov") auto
  qed
qed

section \<open>Bytes are conserved\<close>

fun item_bytes :: "managed_item \<Rightarrow> byte list" where
  "item_bytes (ManagedFrame f) = mf_raw f"
| "item_bytes (Passthrough bs) = bs"
| "item_bytes (ObservedFrame f) = []"

lemma framer_loop_bytes:
  "concat (map item_bytes (snd (framer_loop m))) @ mg_buf (fst (framer_loop m)) = mg_buf m"
proof (induction m rule: framer_loop_induct)
  case (whole m h n)
  then show ?case
    using append_take_drop_id [of "n + h_payload_len h" "mg_buf m"]
    by (simp add: framer_loop_whole case_prod_beta managed_of_header_def Let_def)
qed (simp_all add: framer_loop_exits case_prod_beta)

lemma framer_push_bytes:
  assumes "mg_desynced m \<longrightarrow> mg_buf m = []"
  shows "concat (map item_bytes (snd (framer_push m data))) @ mg_buf (fst (framer_push m data))
       = mg_buf m @ data"
  using assms framer_loop_bytes [of "m\<lparr>mg_buf := mg_buf m @ data\<rparr>"]
  by (auto simp: framer_push_def)

section \<open>The pieces do not matter\<close>

text \<open>
  Raw bytes stream through in whatever pieces arrive, so what the pieces must not change is the
  sequence of raw bytes and decoded items, not the grouping of the raw bytes.
\<close>

fun item_view :: "managed_item \<Rightarrow> (byte + managed_item) list" where
  "item_view (Passthrough bs) = map Inl bs"
| "item_view (ManagedFrame f) = [Inr (ManagedFrame f)]"
| "item_view (ObservedFrame f) = [Inr (ObservedFrame f)]"

abbreviation items_view :: "managed_item list \<Rightarrow> (byte + managed_item) list" where
  "items_view items \<equiv> concat (map item_view items)"

lemma oversized_observation_remaining [simp]:
  "oversized_observation (ov\<lparr>ov_remaining := r\<rparr>) = oversized_observation ov"
  by (simp add: oversized_observation_def)

lemma framer_loop_append:
  assumes "\<not> mg_desynced m"
  shows "fst (framer_loop (m\<lparr>mg_buf := mg_buf m @ b\<rparr>)) = fst (framer_push (fst (framer_loop m)) b) \<and>
    items_view (snd (framer_loop (m\<lparr>mg_buf := mg_buf m @ b\<rparr>))) =
    items_view (snd (framer_loop m)) @ items_view (snd (framer_push (fst (framer_loop m)) b))"
  using assms
proof (induction m rule: framer_loop_induct)
  case (stuck m ov)
  then show ?case
    by (simp add: framer_loop_stuck framer_push_def)
next
  case (partial m ov)
  show ?case
  proof (cases "mg_buf m = []")
    case True
    with partial show ?thesis
      by (simp add: framer_loop_partial framer_push_def)
  next
    case False
    let ?ov = "ov\<lparr>ov_remaining := ov_remaining ov - length (mg_buf m)\<rparr>"
    note first = framer_loop_partial [OF partial(1,2)]
    show ?thesis
    proof (cases "ov_remaining ov \<le> length (mg_buf m @ b)")
      case True
      then have "take (ov_remaining ov) (mg_buf m @ b)
          = mg_buf m @ take (ov_remaining ov - length (mg_buf m)) b"
        using partial(2) by simp
      with True partial first False show ?thesis
        by (simp add: framer_push_def case_prod_beta framer_loop_complete)
    next
      case far: False
      with partial first False show ?thesis
        by (auto simp: framer_push_def framer_loop_partial)
    qed
  qed
next
  case (complete m ov)
  then show ?case
    by (simp add: framer_loop_complete case_prod_beta)
next
  case (need m)
  then show ?case
    by (simp add: framer_loop_Need framer_push_def)
next
  case (malformed m v)
  then have "parse_header (mg_buf m @ b) = Malformed v"
    by (simp add: parse_header_append)
  with malformed show ?case
    by (simp add: framer_loop_Malformed framer_push_def)
next
  case (big m h n)
  then have "parse_header (mg_buf m @ b) = Parsed h n"
    by (simp add: parse_header_append)
  with big show ?case
    using parse_header_Parsed [OF big(2)]
    by (simp add: framer_loop_big [of m h n] framer_loop_big [of "m\<lparr>mg_buf := mg_buf m @ b\<rparr>" h n]
        case_prod_beta)
next
  case (wait m h n)
  then show ?case
    by (simp add: framer_loop_wait framer_push_def)
next
  case (whole m h n)
  then have "parse_header (mg_buf m @ b) = Parsed h n"
    by (simp add: parse_header_append)
  with whole show ?case
    by (simp add: framer_loop_whole [of m h n]
        framer_loop_whole [of "m\<lparr>mg_buf := mg_buf m @ b\<rparr>" h n] case_prod_beta)
qed

lemma framer_push_append:
  "fst (framer_push m (a @ b)) = fst (framer_push (fst (framer_push m a)) b) \<and>
   items_view (snd (framer_push m (a @ b))) =
   items_view (snd (framer_push m a)) @ items_view (snd (framer_push (fst (framer_push m a)) b))"
proof (cases "mg_desynced m")
  case True
  then show ?thesis by (simp add: framer_push_def)
next
  case False
  then show ?thesis
    using framer_loop_append [of "m\<lparr>mg_buf := mg_buf m @ a\<rparr>" b]
    by (simp add: framer_push_def)
qed

interpretation framer: incremental framer_push item_view
  by unfold_locales (simp_all add: framer_push_append)

section \<open>Agreement with the observe-mode decoder\<close>

text \<open>
  \<open>item_frames\<close> is what the framer makes observable (\<open>managed_to_raw\<close> for a managed frame);
  \<open>managed_view\<close> is what a frame of the observe-mode decoder becomes in managed mode: unchanged up
  to the managed cap, its bare boundary above it.
\<close>

definition managed_to_raw :: "managed_frame \<Rightarrow> raw_frame" where
  "managed_to_raw f =
     (let full = length (mf_payload f);
          payload = (if length (mf_payload f) > COMPRESSED_ACCUM_CAP
                     then take COMPRESSED_ACCUM_CAP (mf_payload f) else mf_payload f)
      in \<lparr>rf_fin = mf_fin f, rf_rsv1 = mf_rsv1 f, rf_opcode = mf_opcode f, rf_masked = mf_masked f,
          rf_payload = payload, rf_payload_len = full, rf_truncated = (length payload < full),
          rf_violations = mf_violations f\<rparr>)"

fun item_frames :: "managed_item \<Rightarrow> raw_frame list" where
  "item_frames (ManagedFrame f) = [managed_to_raw f]"
| "item_frames (Passthrough bs) = []"
| "item_frames (ObservedFrame f) = [f]"

definition managed_view :: "raw_frame \<Rightarrow> raw_frame" where
  "managed_view f =
     (if rf_payload_len f > MANAGED_FRAME_CAP then
        f\<lparr>rf_payload := [], rf_truncated := True,
          rf_violations :=
            [violation_frame ''managed_frame_exceeds_observation_cap'' (rf_opcode f)
               (jobj [(''payload_len'', jnat (rf_payload_len f)),
                      (''managed_frame_cap'', jnat MANAGED_FRAME_CAP)])]\<rparr>
      else f)"

lemma managed_to_raw_decoded:
  assumes "length raw = n + h_payload_len h"
  shows "managed_to_raw (managed_of_header h n raw) =
    pending_frame (pending_advance (pending_of_header COMPRESSED_ACCUM_CAP h) (drop n raw))"
  using assms
  by (auto simp: managed_to_raw_def managed_of_header_def pending_frame_def pending_advance_def
      pending_of_header_def retain_bytes_eq plain_bytes_def Let_def)

lemma managed_view_small:
  "h_payload_len h \<le> MANAGED_FRAME_CAP \<Longrightarrow>
   managed_view (pending_frame (pending_advance (pending_of_header cap h) bs)) =
   pending_frame (pending_advance (pending_of_header cap h) bs)"
  by (simp add: managed_view_def pending_frame_def pending_advance_def pending_of_header_def)

lemma managed_view_big:
  "MANAGED_FRAME_CAP < h_payload_len h \<Longrightarrow>
   managed_view (pending_frame (pending_advance (pending_of_header cap h) bs)) =
   oversized_observation (oversized_of_header h)"
  by (simp add: managed_view_def pending_frame_def pending_advance_def pending_of_header_def
      oversized_observation_def oversized_of_header_def)

text \<open>One decoded header at a time, for the decoder and for the framer above the managed cap.\<close>

abbreviation decoded_frame :: "nat \<Rightarrow> frame_header \<Rightarrow> byte list \<Rightarrow> raw_frame" where
  "decoded_frame cap h body \<equiv> pending_frame (pending_advance (pending_of_header cap h) body)"

lemma decoder_parsed_whole:
  assumes "fd_pending d = None" "parse_header (fd_buf d) = Parsed h n"
    "n + h_payload_len h \<le> length (fd_buf d)"
  shows "decoder_loop d =
    (let (d', out) = decoder_loop (d\<lparr>fd_buf := drop (n + h_payload_len h) (fd_buf d)\<rparr>)
     in (d', decoded_frame (fd_retain_cap d) h (take (h_payload_len h) (drop n (fd_buf d))) # out))"
proof -
  let ?p = "pending_of_header (fd_retain_cap d) h"
  let ?d1 = "d\<lparr>fd_buf := drop n (fd_buf d), fd_pending := Some ?p\<rparr>"
  have rem: "p_remaining ?p = h_payload_len h"
    by (simp add: pending_of_header_def)
  show ?thesis
    using assms rem le_diff_conv2 [of n "length (fd_buf d)"] decoder_loop_complete [of ?d1 ?p]
    by (simp add: decoder_loop_Parsed [of d h n] add.commute)
qed

lemma decoder_parsed_wait:
  assumes "fd_pending d = None" "parse_header (fd_buf d) = Parsed h n"
    "length (fd_buf d) < n + h_payload_len h"
  shows "decoder_loop d =
    (d\<lparr>fd_buf := [],
       fd_pending := Some (pending_advance (pending_of_header (fd_retain_cap d) h)
                             (drop n (fd_buf d)))\<rparr>, [])"
proof -
  let ?p = "pending_of_header (fd_retain_cap d) h"
  let ?d1 = "d\<lparr>fd_buf := drop n (fd_buf d), fd_pending := Some ?p\<rparr>"
  have rem: "p_remaining ?p = h_payload_len h"
    by (simp add: pending_of_header_def)
  then show ?thesis
    using assms parse_header_Parsed [OF assms(2)] decoder_loop_partial [of ?d1 ?p]
    by (simp add: decoder_loop_Parsed [of d h n] less_diff_conv2)
qed

lemma framer_big_whole:
  assumes "mg_oversized m = None" "parse_header (mg_buf m) = Parsed h n"
    "MANAGED_FRAME_CAP < h_payload_len h" "n + h_payload_len h \<le> length (mg_buf m)"
  shows "framer_loop m =
    (let (m', out) =
       framer_loop (m\<lparr>mg_buf := drop (n + h_payload_len h) (mg_buf m),
                      mg_violations := mg_violations m @ h_violations h, mg_oversized := None\<rparr>)
     in (m', Passthrough (take n (mg_buf m)) #
             Passthrough (take (h_payload_len h) (drop n (mg_buf m))) #
             ObservedFrame (oversized_observation (oversized_of_header h)) # out))"
proof -
  have "ov_remaining (oversized_of_header h) = h_payload_len h"
    by (simp add: oversized_of_header_def)
  then show ?thesis
    using assms by (simp add: framer_loop_big case_prod_beta framer_loop_complete add.commute)
qed

lemma framer_big_wait:
  assumes "mg_oversized m = None" "parse_header (mg_buf m) = Parsed h n"
    "MANAGED_FRAME_CAP < h_payload_len h" "length (mg_buf m) < n + h_payload_len h"
  shows "concat (map item_frames (snd (framer_loop m))) = [] \<and>
    mg_desynced (fst (framer_loop m)) = mg_desynced m \<and>
    mg_oversized (fst (framer_loop m)) \<noteq> None"
proof -
  let ?m1 = "m\<lparr>mg_buf := drop n (mg_buf m), mg_violations := mg_violations m @ h_violations h,
               mg_oversized := Some (oversized_of_header h)\<rparr>"
  have "ov_remaining (oversized_of_header h) = h_payload_len h"
    by (simp add: oversized_of_header_def)
  then show ?thesis
    using assms parse_header_Parsed [OF assms(2)]
    by (simp add: framer_loop_big case_prod_beta framer_loop_partial [of ?m1 "oversized_of_header h"]
        less_diff_conv2)
qed

text \<open>The two loops agree on frames, desynchronisation and frame boundaries.\<close>

definition loops_agree :: "managed_framer \<Rightarrow> frame_decoder \<Rightarrow> bool" where
  "loops_agree m d \<longleftrightarrow>
     concat (map item_frames (snd (framer_loop m))) = map managed_view (snd (decoder_loop d)) \<and>
     mg_desynced (fst (framer_loop m)) = fd_desynced (fst (decoder_loop d)) \<and>
     framer_at_boundary (fst (framer_loop m)) = decoder_at_boundary (fst (decoder_loop d))"

definition loops_related :: "managed_framer \<Rightarrow> frame_decoder \<Rightarrow> bool" where
  "loops_related m d \<longleftrightarrow>
     mg_oversized m = None \<and> fd_pending d = None \<and> fd_buf d = mg_buf m \<and>
     fd_retain_cap d = COMPRESSED_ACCUM_CAP \<and> \<not> mg_desynced m \<and> \<not> fd_desynced d"

lemma loops_agree_parsed:
  assumes rel: "loops_related m d" and Parsed: "parse_header (mg_buf m) = Parsed h n"
    and fits: "n + h_payload_len h \<le> length (mg_buf m)"
    and IH: "\<And>m' d'. length (mg_buf m') < length (mg_buf m) \<Longrightarrow> loops_related m' d' \<Longrightarrow>
               loops_agree m' d'"
  shows "loops_agree m d"
proof -
  let ?rest = "drop (n + h_payload_len h) (mg_buf m)"
  let ?d2 = "d\<lparr>fd_buf := ?rest\<rparr>"
  have shorter: "length ?rest < length (mg_buf m)"
    using parse_header_Parsed [OF Parsed] fits by auto
  have dec: "decoder_loop d = (fst (decoder_loop ?d2),
      decoded_frame COMPRESSED_ACCUM_CAP h (take (h_payload_len h) (drop n (mg_buf m)))
        # snd (decoder_loop ?d2))"
    using rel Parsed fits decoder_parsed_whole [of d h n]
    by (simp add: loops_related_def case_prod_beta)
  show ?thesis
  proof (cases "MANAGED_FRAME_CAP < h_payload_len h")
    case True
    let ?m2 = "m\<lparr>mg_buf := ?rest, mg_violations := mg_violations m @ h_violations h,
                 mg_oversized := None\<rparr>"
    have "loops_agree ?m2 ?d2"
      using rel shorter by (intro IH) (simp_all add: loops_related_def)
    then show ?thesis
      using True rel Parsed fits dec
      by (simp add: loops_agree_def loops_related_def framer_big_whole case_prod_beta managed_view_big)
  next
    case False
    let ?m2 = "m\<lparr>mg_buf := ?rest\<rparr>"
    have "loops_agree ?m2 ?d2"
      using rel shorter by (intro IH) (simp_all add: loops_related_def)
    moreover have "managed_to_raw (managed_of_header h n (take (n + h_payload_len h) (mg_buf m))) =
        decoded_frame COMPRESSED_ACCUM_CAP h (take (h_payload_len h) (drop n (mg_buf m)))"
      using fits by (subst managed_to_raw_decoded) (simp_all add: drop_take)
    ultimately show ?thesis
      using False rel Parsed fits dec
      by (simp add: loops_agree_def loops_related_def framer_loop_whole case_prod_beta
          managed_view_small)
  qed
qed

lemma framer_loop_agrees: "loops_related m d \<Longrightarrow> loops_agree m d"
proof (induction "length (mg_buf m)" arbitrary: m d rule: less_induct)
  case less
  show ?case
  proof (cases "parse_header (mg_buf m)")
    case (Parsed h n)
    show ?thesis
    proof (cases "n + h_payload_len h \<le> length (mg_buf m)")
      case True
      with less.prems Parsed show ?thesis
        by (rule loops_agree_parsed) (rule less.hyps)
    next
      case False
      then show ?thesis
        using less.prems Parsed parse_header_Parsed [OF Parsed] framer_big_wait [of m h n]
          decoder_parsed_wait [of d h n] framer_loop_wait [of m h n]
        by (cases "MANAGED_FRAME_CAP < h_payload_len h")
           (auto simp: loops_agree_def loops_related_def framer_at_boundary_def
             decoder_at_boundary_def)
    qed
  qed (use less.prems in \<open>auto simp: loops_agree_def loops_related_def framer_loop_Need
      decoder_loop_Need framer_loop_Malformed decoder_loop_Malformed framer_at_boundary_def
      decoder_at_boundary_def\<close>)
qed

section \<open>Bounded buffering\<close>

definition framer_ok :: "managed_framer \<Rightarrow> bool" where
  "framer_ok m \<longleftrightarrow>
     (case mg_oversized m of
        None \<Rightarrow> length (mg_buf m) < 14 + MANAGED_FRAME_CAP
      | Some ov \<Rightarrow> mg_buf m = [] \<and> 0 < ov_remaining ov) \<and>
     (mg_desynced m \<longrightarrow> mg_buf m = [] \<and> mg_oversized m = None)"

fun item_ok :: "managed_item \<Rightarrow> bool" where
  "item_ok (ManagedFrame f) \<longleftrightarrow>
     length (mf_payload f) \<le> MANAGED_FRAME_CAP \<and>
     (\<exists>h n. parse_header (mf_raw f) = Parsed h n \<and> f = managed_of_header h n (mf_raw f) \<and>
            length (mf_raw f) = n + h_payload_len h)"
| "item_ok (Passthrough bs) \<longleftrightarrow> bs \<noteq> []"
| "item_ok (ObservedFrame f) \<longleftrightarrow> rf_payload f = [] \<and> rf_truncated f"

lemma framer_ok_new: "framer_ok framer_new"
  by (simp add: framer_ok_def framer_new_def MANAGED_FRAME_CAP_def)

lemma managed_item_ok:
  assumes "parse_header buf = Parsed h n" "h_payload_len h \<le> MANAGED_FRAME_CAP"
    "n + h_payload_len h \<le> length buf"
  shows "item_ok (ManagedFrame (managed_of_header h n (take (n + h_payload_len h) buf)))"
  using assms parse_header_take [OF assms(1), of "n + h_payload_len h"]
  by (auto simp: managed_of_header_def Let_def)

lemma framer_loop_ok:
  assumes "\<not> mg_desynced m" "\<And>ov. mg_oversized m = Some ov \<Longrightarrow> 0 < ov_remaining ov"
  shows "framer_ok (fst (framer_loop m)) \<and> list_all item_ok (snd (framer_loop m))"
  using assms
proof (induction m rule: framer_loop_induct)
  case (stuck m ov)
  then show ?case by simp
next
  case (partial m ov)
  then show ?case by (simp add: framer_loop_partial framer_ok_def)
next
  case (complete m ov)
  then show ?case
    by (simp add: framer_loop_complete [of m ov] case_prod_beta oversized_observation_def)
       (metis list.size(3) not_less)
next
  case (need m)
  then show ?case
    using parse_header_Need_short [of "mg_buf m"] by (simp add: framer_loop_Need framer_ok_def)
next
  case (malformed m v)
  then show ?case
    by (auto simp: framer_loop_Malformed framer_ok_def MANAGED_FRAME_CAP_def)
next
  case (big m h n)
  then show ?case
    using parse_header_Parsed [OF big(2)]
    by (simp add: framer_loop_big [of m h n] case_prod_beta oversized_of_header_def) auto
next
  case (wait m h n)
  then show ?case
    using parse_header_Parsed [OF wait(2)] by (simp add: framer_loop_wait framer_ok_def)
next
  case (whole m h n)
  then show ?case
    using managed_item_ok [OF whole(2-4)] by (simp add: framer_loop_whole case_prod_beta)
qed

lemma framer_push_ok:
  assumes "framer_ok m"
  shows "framer_ok (fst (framer_push m data)) \<and> list_all item_ok (snd (framer_push m data))"
proof (cases "mg_desynced m")
  case True
  with assms show ?thesis by (simp add: framer_push_def)
next
  case False
  have "framer_ok (fst (framer_loop (m\<lparr>mg_buf := mg_buf m @ data\<rparr>))) \<and>
      list_all item_ok (snd (framer_loop (m\<lparr>mg_buf := mg_buf m @ data\<rparr>)))"
    by (rule framer_loop_ok) (use assms False in \<open>auto simp: framer_ok_def\<close>)
  with False show ?thesis by (simp add: framer_push_def)
qed

lemma framer_feed_ok:
  "framer_ok m \<Longrightarrow> framer_ok (fst (feed framer_push m cs)) \<and> list_all item_ok (snd (feed framer_push m cs))"
proof (induction cs arbitrary: m)
  case (Cons c cs)
  then show ?case
    using framer_push_ok [of m c] by (simp add: case_prod_beta)
qed simp

lemma framer_feed_bytes:
  "framer_ok m \<Longrightarrow>
   concat (map item_bytes (snd (feed framer_push m cs))) @ mg_buf (fst (feed framer_push m cs))
   = mg_buf m @ concat cs"
proof (induction cs arbitrary: m)
  case (Cons c cs)
  have "concat (map item_bytes (snd (framer_push m c))) @ mg_buf (fst (framer_push m c)) = mg_buf m @ c"
    using Cons.prems by (intro framer_push_bytes) (simp add: framer_ok_def)
  then show ?case
    using Cons.IH [of "fst (framer_push m c)"] framer_push_ok [OF Cons.prems, of c]
    by (simp add: case_prod_beta)
qed simp

section \<open>Properties\<close>

text \<open>
  C1: In managed mode no wire byte is lost, invented or reordered by framing: at every moment the
  raw bytes of the items handed out so far, followed by the bytes still buffered, are exactly the
  bytes received, also after the framer has given up decoding.
\<close>

theorem framer_conserves_bytes:
  assumes "feed framer_push framer_new cs = (m, items)"
  shows "concat (map item_bytes items) @ mg_buf m = concat cs"
  using framer_feed_bytes [OF framer_ok_new, of cs] assms by (simp add: framer_new_def)

theorem framer_conserves_bytes_witness:
  "\<exists>m items. feed framer_push framer_new [[0x81, 1], [0x41, 0x82]] = (m, items) \<and>
     concat (map item_bytes items) @ mg_buf m = [0x81, 1, 0x41, 0x82]"
proof -
  obtain m items where "feed framer_push framer_new [[0x81, 1], [0x41, 0x82]] = (m, items)"
    by (rule prod.exhaust)
  from framer_conserves_bytes [OF this] this show ?thesis by auto
qed

text \<open>
  The managed framer buffers less than one header plus the managed cap, buffers nothing while an
  oversized frame streams through, and every frame it hands out for rules or interception is at
  most the managed cap long, its raw bytes are one complete frame on their own, and its payload is
  that frame's unmasked payload.
\<close>

theorem framer_bounded:
  assumes "feed framer_push framer_new cs = (m, items)"
  shows "length (mg_buf m) < 14 + MANAGED_FRAME_CAP \<and> (mg_oversized m \<noteq> None \<longrightarrow> mg_buf m = []) \<and>
    list_all item_ok items"
  using framer_feed_ok [OF framer_ok_new, of cs] assms
  by (auto simp: framer_ok_def split: option.splits)

theorem framer_bounded_witness:
  "\<exists>m items. feed framer_push framer_new [[0x82, 0]] = (m, items) \<and>
     length (mg_buf m) < 14 + MANAGED_FRAME_CAP \<and> (mg_oversized m \<noteq> None \<longrightarrow> mg_buf m = []) \<and>
     list_all item_ok items"
  using framer_bounded [of "[[0x82, 0]]"] by (metis surj_pair)

text \<open>
  C3: The two parsers of a direction agree: fed the same bytes, in whatever pieces, the managed framer
  makes observable exactly the frames of the observe-mode decoder (above the managed cap only the
  frame boundary), is desynchronised exactly when the decoder is, and is between frames exactly when
  the decoder is, which is where the pump may change mode.
\<close>

theorem modes_agree:
  assumes "cs \<noteq> []" "ds \<noteq> []" "concat cs = concat ds"
    and "feed framer_push framer_new cs = (m, items)"
    and "feed decoder_push decoder_new ds = (d, frames)"
  shows "concat (map item_frames items) = map managed_view frames \<and>
    mg_desynced m = fd_desynced d \<and> framer_at_boundary m = decoder_at_boundary d"
proof -
  let ?data = "concat cs"
  have by_view: "concat (map item_frames xs) =
      concat (map (case_sum (\<lambda>_. []) item_frames) (items_view xs))" for xs
  proof (induction xs)
    case (Cons x xs)
    have "concat (map (case_sum (\<lambda>_. []) item_frames) (map Inl bs)) = []" for bs :: "byte list"
      by (induction bs) auto
    then show ?case using Cons by (cases x) auto
  qed simp
  have "loops_agree (framer_new\<lparr>mg_buf := ?data\<rparr>) (decoder_new\<lparr>fd_buf := ?data\<rparr>)"
    by (rule framer_loop_agrees) (simp add: loops_related_def framer_new_def decoder_new_def)
  moreover have "m = fst (framer_push framer_new ?data)"
    "concat (map item_frames items) = concat (map item_frames (snd (framer_push framer_new ?data)))"
    using framer.feed_state [OF assms(1), of framer_new] framer.feed_view [OF assms(1), of framer_new]
      assms(4) by (simp_all add: by_view)
  moreover have "(d, frames) = decoder_push decoder_new ?data"
    using decoder.feed_state [OF assms(2), of decoder_new] assms(3,5)
      decoder.feed_view [OF assms(2), of decoder_new] by (simp add: prod_eq_iff)
  ultimately show ?thesis
    by (auto simp: loops_agree_def framer_push_def decoder_push_def framer_new_def decoder_new_def
        prod_eq_iff)
qed

theorem modes_agree_witness:
  "\<exists>m items d frames. feed framer_push framer_new [[0x81, 1], [0x41]] = (m, items) \<and>
     feed decoder_push decoder_new [[0x81, 1, 0x41]] = (d, frames) \<and>
     concat (map item_frames items) = map managed_view frames \<and>
     mg_desynced m = fd_desynced d \<and> framer_at_boundary m = decoder_at_boundary d"
proof -
  obtain m items where 1: "feed framer_push framer_new [[0x81, 1], [0x41]] = (m, items)"
    by (rule prod.exhaust)
  obtain d frames where 2: "feed decoder_push decoder_new [[0x81, 1, 0x41]] = (d, frames)"
    by (rule prod.exhaust)
  from modes_agree [OF _ _ _ 1 2] 1 2 show ?thesis by auto
qed

end
