(* ===== verification/Utf8.thy ===== *)
theory Utf8
  imports Prelude
begin

text \<open>
  What the program uses of Rust's text: UTF-8 validation (\<open>str::from_utf8\<close>), lossy decoding
  (\<open>String::from_utf8_lossy\<close>, one replacement character for each maximal invalid piece), the
  \<open>char\<close>s of a string as their scalar values, and the character classes \<open>is_whitespace\<close> and
  \<open>is_control\<close>, which are fixed finite sets.
\<close>

section \<open>Decoding one character\<close>

definition byte_of :: "nat \<Rightarrow> byte" where
  "byte_of n = word_of_nat n"


definition is_cont :: "byte \<Rightarrow> bool" where
  "is_cont b \<longleftrightarrow> 0x80 \<le> unat b \<and> unat b \<le> 0xBF"

definition second_of_3 :: "nat \<Rightarrow> byte \<Rightarrow> bool" where
  "second_of_3 n c \<longleftrightarrow>
     (if n = 0xE0 then 0xA0 \<le> unat c \<and> unat c \<le> 0xBF
      else if n = 0xED then 0x80 \<le> unat c \<and> unat c \<le> 0x9F
      else is_cont c)"

definition second_of_4 :: "nat \<Rightarrow> byte \<Rightarrow> bool" where
  "second_of_4 n c \<longleftrightarrow>
     (if n = 0xF0 then 0x90 \<le> unat c \<and> unat c \<le> 0xBF
      else if n = 0xF4 then 0x80 \<le> unat c \<and> unat c \<le> 0x8F
      else is_cont c)"

definition low6 :: "byte \<Rightarrow> nat" where
  "low6 c = unat c - 0x80"

text \<open>The scalar value at the front (or None for an invalid piece) and the bytes after it.\<close>

fun utf8_next :: "byte list \<Rightarrow> nat option \<times> byte list" where
  "utf8_next [] = (None, [])"
| "utf8_next (b # bs) =
     (let n = unat b in
      if n < 0x80 then (Some n, bs)
      else if 0xC2 \<le> n \<and> n \<le> 0xDF then
        (case bs of
           c1 # r1 \<Rightarrow> if is_cont c1 then (Some ((n - 0xC0) * 64 + low6 c1), r1) else (None, bs)
         | [] \<Rightarrow> (None, bs))
      else if 0xE0 \<le> n \<and> n \<le> 0xEF then
        (case bs of
           c1 # r1 \<Rightarrow>
             if second_of_3 n c1 then
               (case r1 of
                  c2 # r2 \<Rightarrow>
                    if is_cont c2
                    then (Some ((n - 0xE0) * 4096 + low6 c1 * 64 + low6 c2), r2)
                    else (None, r1)
                | [] \<Rightarrow> (None, r1))
             else (None, bs)
         | [] \<Rightarrow> (None, bs))
      else if 0xF0 \<le> n \<and> n \<le> 0xF4 then
        (case bs of
           c1 # r1 \<Rightarrow>
             if second_of_4 n c1 then
               (case r1 of
                  c2 # r2 \<Rightarrow>
                    if is_cont c2 then
                      (case r2 of
                         c3 # r3 \<Rightarrow>
                           if is_cont c3
                           then (Some ((n - 0xF0) * 262144 + low6 c1 * 4096 + low6 c2 * 64 + low6 c3), r3)
                           else (None, r2)
                       | [] \<Rightarrow> (None, r2))
                    else (None, r1)
                | [] \<Rightarrow> (None, r1))
             else (None, bs)
         | [] \<Rightarrow> (None, bs))
      else (None, bs))"

lemma utf8_next_shrinks: "length (snd (utf8_next (b # bs))) \<le> length bs"
  by (auto simp: Let_def split: list.splits)

section \<open>Decoding and encoding\<close>

function utf8_chars :: "byte list \<Rightarrow> nat option list" where
  "utf8_chars [] = []"
| "utf8_chars (b # bs) = (let (c, rest) = utf8_next (b # bs) in c # utf8_chars rest)"
  by pat_completeness auto
termination
proof (relation "measure length", goal_cases)
  case 1
  show ?case by simp
next
  case (2 b bs p c rest)
  then show ?case
    using utf8_next_shrinks [of b bs] by (metis in_measure le_imp_less_Suc length_Cons snd_conv)
qed

definition utf8_valid :: "byte list \<Rightarrow> bool" where
  "utf8_valid bs \<longleftrightarrow> None \<notin> set (utf8_chars bs)"

definition utf8_lossy :: "byte list \<Rightarrow> nat list" where
  "utf8_lossy bs = map (\<lambda>c. case c of None \<Rightarrow> 0xFFFD | Some n \<Rightarrow> n) (utf8_chars bs)"

definition utf8_encode_char :: "nat \<Rightarrow> byte list" where
  "utf8_encode_char c =
     (if c < 0x80 then [byte_of c]
      else if c < 0x800 then [byte_of (0xC0 + c div 64), byte_of (0x80 + c mod 64)]
      else if c < 0x10000 then
        [byte_of (0xE0 + c div 4096), byte_of (0x80 + c div 64 mod 64),
         byte_of (0x80 + c mod 64)]
      else
        [byte_of (0xF0 + c div 262144), byte_of (0x80 + c div 4096 mod 64),
         byte_of (0x80 + c div 64 mod 64), byte_of (0x80 + c mod 64)])"

definition utf8_encode :: "nat list \<Rightarrow> byte list" where
  "utf8_encode cs = concat (map utf8_encode_char cs)"

definition is_scalar :: "nat \<Rightarrow> bool" where
  "is_scalar c \<longleftrightarrow> c < 0xD800 \<or> (0xE000 \<le> c \<and> c < 0x110000)"

section \<open>Strings and their characters\<close>

definition from_utf8 :: "byte list \<Rightarrow> string option" where
  "from_utf8 bs = (if utf8_valid bs then Some (bytes_str bs) else None)"

definition from_utf8_lossy :: "byte list \<Rightarrow> string" where
  "from_utf8_lossy bs = bytes_str (utf8_encode (utf8_lossy bs))"

definition str_chars :: "string \<Rightarrow> nat list" where
  "str_chars s = utf8_lossy (str_bytes s)"

definition chars_str :: "nat list \<Rightarrow> string" where
  "chars_str cs = bytes_str (utf8_encode cs)"

definition char_is_whitespace :: "nat \<Rightarrow> bool" where
  "char_is_whitespace c \<longleftrightarrow>
     (9 \<le> c \<and> c \<le> 13) \<or> c = 0x20 \<or> c = 0x85 \<or> c = 0xA0 \<or> c = 0x1680 \<or>
     (0x2000 \<le> c \<and> c \<le> 0x200A) \<or> c = 0x2028 \<or> c = 0x2029 \<or> c = 0x202F \<or> c = 0x205F \<or> c = 0x3000"

definition char_is_control :: "nat \<Rightarrow> bool" where
  "char_is_control c \<longleftrightarrow> c \<le> 0x1F \<or> (0x7F \<le> c \<and> c \<le> 0x9F)"

text \<open>\<open>str::trim\<close>\<close>

definition str_trim :: "string \<Rightarrow> string" where
  "str_trim s =
     chars_str (rev (dropWhile char_is_whitespace
       (rev (dropWhile char_is_whitespace (str_chars s)))))"

section \<open>Round trips\<close>

lemma unat_byte_of [simp]: "n < 256 \<Longrightarrow> unat (byte_of n) = n"
  by (simp add: byte_of_def unat_of_nat)

lemma byte_of_unat [simp]: "byte_of (unat b) = b"
  by (simp add: byte_of_def)

lemma scalar_split3: "(c::nat) = c div 4096 * 4096 + c div 64 mod 64 * 64 + c mod 64"
proof -
  have "c div 4096 = c div 64 div 64" by (simp add: div_mult2_eq [symmetric])
  then show ?thesis
    using div_mult_mod_eq [of c 64] div_mult_mod_eq [of "c div 64" 64] by linarith
qed
lemma scalar_split4: "(c::nat) = c div 262144 * 262144 + c div 4096 mod 64 * 4096 + c div 64 mod 64 * 64 + c mod 64"
proof -
  have "c div 262144 = c div 4096 div 64" by (simp add: div_mult2_eq [symmetric])
  then show ?thesis
    using scalar_split3[of c] div_mult_mod_eq [of "c div 4096" 64] by linarith
qed
lemma utf8_next_encode:
  assumes "is_scalar c"
  shows "utf8_next (utf8_encode_char c @ rest) = (Some c, rest)"
proof -
  have m: "c mod 64 < 64" "c div 64 mod 64 < 64" "c div 4096 mod 64 < 64"
    by simp_all
  have top: "c < 0x110000"
    using assms by (auto simp: is_scalar_def)
  consider (one) "c < 0x80" | (two) "0x80 \<le> c" "c < 0x800" | (three) "0x800 \<le> c" "c < 0x10000"
    | (four) "0x10000 \<le> c"
    by linarith
  then show ?thesis
  proof cases
    case one
    then show ?thesis by (simp add: utf8_encode_char_def)
  next
    case two
    then have "2 \<le> c div 64" "c div 64 < 32" by auto
    then show ?thesis
      using two m by (simp add: utf8_encode_char_def is_cont_def low6_def)
  next
    case three
    define x y z where "x = c div 4096" and "y = c div 64 mod 64" and "z = c mod 64"
    have enc: "utf8_encode_char c = [byte_of (0xE0 + x), byte_of (0x80 + y), byte_of (0x80 + z)]"
      using three by (simp add: utf8_encode_char_def x_def y_def z_def)
    have c: "x * 4096 + y * 64 + z = c" and b: "y < 64" "z < 64"
      using scalar_split3 [of c] by (simp_all add: x_def y_def z_def)
    have "x < 16" "x = 0 \<Longrightarrow> 32 \<le> y"
      using three b c by linarith+
    moreover have "x = 13 \<Longrightarrow> y < 32"
      using assms b c by (auto simp: is_scalar_def)
    ultimately show ?thesis
      using b c by (auto simp: Let_def enc is_cont_def low6_def second_of_3_def)
  next
    case four
    define w x y z
      where "w = c div 262144" and "x = c div 4096 mod 64" and "y = c div 64 mod 64" and "z = c mod 64"
    have enc: "utf8_encode_char c =
        [byte_of (0xF0 + w), byte_of (0x80 + x), byte_of (0x80 + y), byte_of (0x80 + z)]"
      using four by (simp add: utf8_encode_char_def w_def x_def y_def z_def)
    have c: "w * 262144 + x * 4096 + y * 64 + z = c" and b: "x < 64" "y < 64" "z < 64"
      using scalar_split4 [of c] by (simp_all add: w_def x_def y_def z_def)
    have "w < 5" "w = 0 \<Longrightarrow> 16 \<le> x" "w = 4 \<Longrightarrow> x < 16"
      using four top b c by linarith+
    then show ?thesis
      using b c by (auto simp: Let_def enc is_cont_def low6_def second_of_4_def)
  qed
qed

lemma utf8_encode_char_not_Nil [simp]: "utf8_encode_char c \<noteq> []"
  by (simp add: utf8_encode_char_def)

lemma utf8_chars_encode: "list_all is_scalar cs \<Longrightarrow> utf8_chars (utf8_encode cs) = map Some cs"
proof (induction cs)
  case Nil
  then show ?case by (simp add: utf8_encode_def)
next
  case (Cons c cs)
  obtain b bs where b: "utf8_encode_char c @ utf8_encode cs = b # bs"
    by (cases "utf8_encode_char c") auto
  have "utf8_next (b # bs) = (Some c, utf8_encode cs)"
    using Cons.prems utf8_next_encode [of c "utf8_encode cs"] b by simp
  then show ?case
    using Cons b by (simp add: utf8_encode_def)
qed

lemma utf8_valid_encode: "list_all is_scalar cs \<Longrightarrow> utf8_valid (utf8_encode cs)"
  by (auto simp: utf8_valid_def utf8_chars_encode)

lemma str_chars_chars_str: "list_all is_scalar cs \<Longrightarrow> str_chars (chars_str cs) = cs"
  by (simp add: str_chars_def chars_str_def utf8_lossy_def utf8_chars_encode comp_def)

text \<open>A valid piece is the encoding of the scalar value it decodes to.\<close>

lemma low6_cont: "is_cont c \<Longrightarrow> low6 c < 64 \<and> byte_of (0x80 + low6 c) = c"
  by (auto simp: is_cont_def low6_def)

lemma byte_of_sub: "k \<le> unat b \<Longrightarrow> byte_of (k + (unat b - k)) = b"
  by simp

lemma second_of_3_cont: "second_of_3 n c \<Longrightarrow> is_cont c"
  by (auto simp: second_of_3_def is_cont_def split: if_splits)

lemma second_of_4_cont: "second_of_4 n c \<Longrightarrow> is_cont c"
  by (auto simp: second_of_4_def is_cont_def split: if_splits)

lemma encode_two:
  assumes "2 \<le> x" "x < 32" "y < 64"
  shows "utf8_encode_char (x * 64 + y) = [byte_of (0xC0 + x), byte_of (0x80 + y)]"
  using assms by (simp add: utf8_encode_char_def)

lemma digit64: "z < 64 \<Longrightarrow> (a * 64 + z) div 64 = a \<and> (a * 64 + z) mod 64 = (z :: nat)"
  by simp

lemma encode_three:
  assumes "x < 16" "y < 64" "z < 64" "x = 0 \<longrightarrow> 32 \<le> y"
  shows "utf8_encode_char (x * 4096 + y * 64 + z) =
    [byte_of (0xE0 + x), byte_of (0x80 + y), byte_of (0x80 + z)]"
proof -
  define c where "c = x * 4096 + y * 64 + z"
  have "c = (x * 64 + y) * 64 + z"
    by (simp add: c_def)
  then have d: "c div 64 = x * 64 + y" "c mod 64 = z"
    using digit64 [of z "x * 64 + y"] assms by simp_all
  moreover have "c div 4096 = c div 64 div 64"
    by (simp add: div_mult2_eq [symmetric])
  then have "c div 4096 = x" "c div 64 mod 64 = y"
    using d digit64 [of y x] assms by simp_all
  moreover have "0x800 \<le> c" "c < 0x10000"
    using assms by (auto simp: c_def)
  ultimately have "utf8_encode_char c = [byte_of (0xE0 + x), byte_of (0x80 + y), byte_of (0x80 + z)]"
    unfolding utf8_encode_char_def by simp
  then show ?thesis by (simp only: c_def)
qed

lemma encode_four:
  assumes "w < 5" "x < 64" "y < 64" "z < 64" "w = 0 \<longrightarrow> 16 \<le> x"
  shows "utf8_encode_char (w * 262144 + x * 4096 + y * 64 + z) =
    [byte_of (0xF0 + w), byte_of (0x80 + x), byte_of (0x80 + y), byte_of (0x80 + z)]"
proof -
  define c where "c = w * 262144 + x * 4096 + y * 64 + z"
  have "c = ((w * 64 + x) * 64 + y) * 64 + z"
    by (simp add: c_def)
  then have d: "c div 64 = (w * 64 + x) * 64 + y" "c mod 64 = z"
    using digit64 [of z "(w * 64 + x) * 64 + y"] assms by simp_all
  have "c div 4096 = c div 64 div 64"
    by (simp add: div_mult2_eq [symmetric])
  then have d2: "c div 4096 = w * 64 + x" "c div 64 mod 64 = y"
    using d digit64 [of y "w * 64 + x"] assms by simp_all
  have "c div 262144 = c div 4096 div 64"
    by (simp add: div_mult2_eq [symmetric])
  then have "c div 262144 = w" "c div 4096 mod 64 = x"
    using d2 digit64 [of x w] assms by simp_all
  moreover have "0x10000 \<le> c"
    using assms by (auto simp: c_def)
  ultimately have "utf8_encode_char c =
      [byte_of (0xF0 + w), byte_of (0x80 + x), byte_of (0x80 + y), byte_of (0x80 + z)]"
    using d d2 unfolding utf8_encode_char_def by simp
  then show ?thesis by (simp only: c_def)
qed

lemma utf8_next_decoded:
  assumes "utf8_next bs = (Some c, rest)"
  shows "bs = utf8_encode_char c @ rest"
proof (cases bs)
  case Nil
  with assms show ?thesis by simp
next
  case (Cons b tail)
  define n where "n = unat b"
  have b: "b = byte_of n"
    by (simp add: n_def)
  consider (one) "n < 0x80" | (two) "0xC2 \<le> n" "n \<le> 0xDF" | (three) "0xE0 \<le> n" "n \<le> 0xEF"
    | (four) "0xF0 \<le> n" "n \<le> 0xF4"
    using assms Cons by (fastforce simp: Let_def n_def split: if_splits)
  then show ?thesis
  proof cases
    case one
    with assms Cons show ?thesis
      by (auto simp: n_def utf8_encode_char_def)
  next
    case two
    with assms Cons obtain c1 where c1: "tail = c1 # rest" "is_cont c1"
      "c = (n - 0xC0) * 64 + low6 c1"
      by (auto simp: Let_def n_def split: if_splits list.splits)
    with two Cons b low6_cont [of c1] encode_two [of "n - 0xC0" "low6 c1"] show ?thesis
      by simp
  next
    case three
    with assms Cons obtain c1 c2 where c1: "tail = c1 # c2 # rest" "second_of_3 n c1" "is_cont c2"
      "c = (n - 0xE0) * 4096 + low6 c1 * 64 + low6 c2"
      by (auto simp: Let_def n_def split: if_splits list.splits)
    moreover from c1 have "n - 0xE0 = 0 \<longrightarrow> 32 \<le> low6 c1"
      using three by (auto simp: second_of_3_def low6_def)
    ultimately show ?thesis
      using three Cons b low6_cont [of c1] low6_cont [of c2] second_of_3_cont [of n c1]
        encode_three [of "n - 0xE0" "low6 c1" "low6 c2"] by simp
  next
    case four
    with assms Cons obtain c1 c2 c3 where c1: "tail = c1 # c2 # c3 # rest" "second_of_4 n c1"
      "is_cont c2" "is_cont c3"
      "c = (n - 0xF0) * 262144 + low6 c1 * 4096 + low6 c2 * 64 + low6 c3"
      by (auto simp: Let_def n_def split: if_splits list.splits)
    moreover from c1 have "n - 0xF0 = 0 \<longrightarrow> 16 \<le> low6 c1"
      using four by (auto simp: second_of_4_def low6_def)
    ultimately show ?thesis
      using four Cons b low6_cont [of c1] low6_cont [of c2] low6_cont [of c3]
        second_of_4_cont [of n c1]
        encode_four [of "n - 0xF0" "low6 c1" "low6 c2" "low6 c3"] by simp
  qed
qed

lemma utf8_encode_lossy: "utf8_valid bs \<Longrightarrow> utf8_encode (utf8_lossy bs) = bs"
proof (induction bs rule: utf8_chars.induct)
  case 1
  then show ?case by (simp add: utf8_lossy_def utf8_encode_def)
next
  case (2 b bs)
  obtain c rest where nxt: "utf8_next (b # bs) = (c, rest)"
    by (rule prod.exhaust)
  with "2.prems" obtain n where n: "c = Some n" "utf8_valid rest"
    by (cases c) (auto simp: utf8_valid_def simp del: utf8_next.simps)
  with nxt have "b # bs = utf8_encode_char n @ rest"
    by (intro utf8_next_decoded) simp
  moreover have "utf8_encode (utf8_lossy rest) = rest"
    using "2.IH" [OF nxt [symmetric] refl] n by simp
  moreover have "utf8_chars (b # bs) = Some n # utf8_chars rest"
    using nxt n by (simp del: utf8_next.simps)
  ultimately show ?case
    by (simp add: utf8_lossy_def utf8_encode_def del: utf8_chars.simps)
qed

lemma from_utf8_lossy_valid: "utf8_valid bs \<Longrightarrow> from_utf8_lossy bs = bytes_str bs"
  by (simp add: from_utf8_lossy_def utf8_encode_lossy)

section \<open>Decoded characters are scalar values\<close>

lemma low6_less: "is_cont c \<Longrightarrow> low6 c < 64"
  using low6_cont by blast

lemma utf8_next_scalar:
  assumes "utf8_next bs = (Some c, rest)"
  shows "is_scalar c"
proof (cases bs)
  case Nil
  with assms show ?thesis by simp
next
  case (Cons b tail)
  define n where "n = unat b"
  consider (one) "n < 0x80" | (two) "0xC2 \<le> n" "n \<le> 0xDF" | (three) "0xE0 \<le> n" "n \<le> 0xEF"
    | (four) "0xF0 \<le> n" "n \<le> 0xF4"
    using assms Cons by (fastforce simp: Let_def n_def split: if_splits)
  then show ?thesis
  proof cases
    case one
    with assms Cons show ?thesis
      by (auto simp: n_def is_scalar_def)
  next
    case two
    with assms Cons obtain c1 where "is_cont c1" "c = (n - 0xC0) * 64 + low6 c1"
      by (auto simp: Let_def n_def split: if_splits list.splits)
    moreover from two have "n - 0xC0 \<le> 31" by linarith
    ultimately show ?thesis
      using low6_less [of c1] by (simp add: is_scalar_def)
  next
    case three
    with assms Cons obtain c1 c2 where c: "second_of_3 n c1" "is_cont c2"
      "c = (n - 0xE0) * 4096 + low6 c1 * 64 + low6 c2"
      by (auto simp: Let_def n_def split: if_splits list.splits)
    have low: "low6 c1 < 64" "low6 c2 < 64"
      using c second_of_3_cont low6_less by blast+
    have ed: "n = 0xED \<Longrightarrow> low6 c1 < 32"
      using c(1) by (auto simp: second_of_3_def low6_def)
    show ?thesis
    proof (cases "n < 0xEE")
      case True
      then have "n - 0xE0 \<le> 12 \<or> n = 0xED" by linarith
      then have "c < 0xD800"
        using low ed c(3) by auto
      then show ?thesis by (simp add: is_scalar_def)
    next
      case False
      then have "14 \<le> n - 0xE0" "n - 0xE0 \<le> 15"
        using three by linarith+
      then show ?thesis
        using low c(3) by (simp add: is_scalar_def)
    qed
  next
    case four
    with assms Cons obtain c1 c2 c3 where c: "second_of_4 n c1" "is_cont c2" "is_cont c3"
      "c = (n - 0xF0) * 262144 + low6 c1 * 4096 + low6 c2 * 64 + low6 c3"
      by (auto simp: Let_def n_def split: if_splits list.splits)
    have low: "low6 c1 < 64" "low6 c2 < 64" "low6 c3 < 64"
      using c second_of_4_cont low6_less by blast+
    have f0: "n = 0xF0 \<Longrightarrow> 16 \<le> low6 c1" and f4: "n = 0xF4 \<Longrightarrow> low6 c1 < 16"
      using c(1) by (auto simp: second_of_4_def low6_def)
    have "n - 0xF0 \<le> 3 \<or> n = 0xF4" using four by linarith
    then have "c < 0x110000" using low f4 c(4) by auto
    moreover have "0x10000 \<le> c"
      using low f0 four c(4) by (cases "n = 0xF0") auto
    ultimately show ?thesis by (simp add: is_scalar_def)
  qed
qed

lemma utf8_lossy_scalar: "list_all is_scalar (utf8_lossy bs)"
proof (induction bs rule: utf8_chars.induct)
  case 1
  then show ?case by (simp add: utf8_lossy_def)
next
  case (2 b bs)
  obtain c rest where nxt: "utf8_next (b # bs) = (c, rest)"
    by (rule prod.exhaust)
  have "is_scalar (case c of None \<Rightarrow> 0xFFFD | Some n \<Rightarrow> n)"
    using nxt utf8_next_scalar [of "b # bs"]
    by (cases c) (simp_all add: is_scalar_def del: utf8_next.simps)
  moreover have "utf8_chars (b # bs) = c # utf8_chars rest"
    using nxt by (simp del: utf8_next.simps)
  ultimately show ?case
    using "2.IH" [OF nxt [symmetric] refl] by (simp add: utf8_lossy_def del: utf8_chars.simps)
qed

lemma str_chars_scalar: "list_all is_scalar (str_chars s)"
  by (simp add: str_chars_def utf8_lossy_scalar)


section \<open>ASCII text\<close>

lemma str_chars_ascii: "list_all (\<lambda>c. of_char c < (128 :: nat)) s \<Longrightarrow> str_chars s = map of_char s"
proof (induction s)
  case Nil
  then show ?case
    by (simp add: str_chars_def utf8_lossy_def str_bytes_def)
next
  case (Cons c s)
  have "unat (char_byte c) = of_char c"
    using nat_of_char_less_256 [of c] by (simp add: char_byte_def unat_of_nat)
  with Cons show ?case
    by (simp add: str_chars_def utf8_lossy_def str_bytes_def Let_def)
qed

lemma chars_str_ascii: "list_all (\<lambda>c. of_char c < (128 :: nat)) s \<Longrightarrow> chars_str (map of_char s) = s"
  by (induction s)
     (simp_all add: chars_str_def utf8_encode_def utf8_encode_char_def bytes_str_def byte_of_def
       char_byte_def [symmetric])

text \<open>Trimming a text that is all visible ASCII changes nothing.\<close>

lemma str_trim_ascii:
  assumes "list_all (\<lambda>c. (32 :: nat) < of_char c \<and> of_char c < (128 :: nat)) s"
  shows "str_trim s = s"
proof -
  have ascii: "list_all (\<lambda>c. of_char c < (128 :: nat)) s"
    using assms by (simp add: list_all_iff)
  have "dropWhile char_is_whitespace xs = xs" if "set xs \<subseteq> of_char ` set s" for xs
    using that assms by (cases xs) (auto simp: char_is_whitespace_def list_all_iff)
  then show ?thesis
    using ascii by (simp add: str_trim_def str_chars_ascii chars_str_ascii rev_map [symmetric])
qed

end
