(* ===== verification/WsAssembler.thy ===== *)
theory WsAssembler
  imports WsFramer Utf8
begin

text \<open>
  \<open>MessageAssembler\<close> of \<^verbatim>\<open>net/ws.rs\<close>: frames become application messages. Fragments are
  concatenated, control frames pass through on their own, and \<open>permessage-deflate\<close> messages are
  inflated with the context kept across messages. The DEFLATE engine is the \<open>flate2\<close> crate, which
  is a parameter here (the record \<open>flate\<close>); the loop that drives it is the program's and is
  modelled.
\<close>

section \<open>Messages\<close>

record frame_meta =
  fm_opcode :: string
  fm_len :: nat
  fm_fin :: bool
  fm_rsv1 :: bool

record message =
  ms_opcode :: opcode
  ms_payload :: "byte list"
  ms_payload_len :: nat
  ms_wire_len :: nat
  ms_truncated :: bool
  ms_frame_count :: nat
  ms_compressed :: bool
  ms_decompressed :: bool
  ms_frames :: "frame_meta list"
  ms_protocol_violations :: "string list"

definition close_code_reason :: "message \<Rightarrow> (nat \<times> string) option" where
  "close_code_reason msg =
     (if ms_opcode msg \<noteq> OpClose then None
      else if length (ms_payload msg) < 2 then Some (1005, [])
      else Some (be_nat (take 2 (ms_payload msg)), from_utf8_lossy (drop 2 (ms_payload msg))))"

definition message_evidence_reliable :: "message \<Rightarrow> bool" where
  "message_evidence_reliable msg \<longleftrightarrow>
     ms_protocol_violations msg = [] \<and> \<not> ms_truncated msg \<and>
     (\<not> ms_compressed msg \<or> ms_decompressed msg)"

section \<open>Negotiated compression\<close>

record deflate_params =
  dp_enabled :: bool
  dp_client_no_context_takeover :: bool
  dp_server_no_context_takeover :: bool

definition deflate_default :: deflate_params where
  "deflate_default =
     \<lparr>dp_enabled = False, dp_client_no_context_takeover = False,
      dp_server_no_context_takeover = False\<rparr>"

definition deflate_param :: "deflate_params \<Rightarrow> string \<Rightarrow> deflate_params" where
  "deflate_param params param =
     (let key = to_ascii_lowercase (str_trim (hd (split_on CHR ''='' param))) in
      if key = ''client_no_context_takeover'' then params\<lparr>dp_client_no_context_takeover := True\<rparr>
      else if key = ''server_no_context_takeover'' then params\<lparr>dp_server_no_context_takeover := True\<rparr>
      else params)"

fun deflate_offers :: "string list \<Rightarrow> deflate_params" where
  "deflate_offers [] = deflate_default"
| "deflate_offers (offer # offers) =
     (case map str_trim (split_on CHR '';'' offer) of
        [] \<Rightarrow> deflate_offers offers
      | name # params \<Rightarrow>
          if to_ascii_lowercase name \<noteq> ''permessage-deflate'' then deflate_offers offers
          else foldl deflate_param (deflate_default\<lparr>dp_enabled := True\<rparr>) params)"

definition parse_deflate_params :: "string option \<Rightarrow> deflate_params" where
  "parse_deflate_params extensions =
     (case extensions of
        None \<Rightarrow> deflate_default
      | Some v \<Rightarrow> deflate_offers (split_on CHR '','' v))"

section \<open>Inflating\<close>

datatype flate_status = FlateOk | FlateBufError | FlateStreamEnd

text \<open>
  One call of \<open>flate2::Decompress::decompress\<close>: an error, or a status with the number of input
  bytes consumed and the output produced. The call never consumes more input than it is given.
\<close>

datatype flate_result = FlateError | FlateDone flate_status nat "byte list"

record 'z flate =
  fl_new :: 'z
  fl_reset :: "'z \<Rightarrow> 'z"
  fl_step :: "'z \<Rightarrow> byte list \<Rightarrow> 'z \<times> flate_result"

datatype inflate_outcome = Complete | FinalBlock | LimitExceeded

datatype inflate_failure = InvalidPayload | ContextTerminated

record inflate_result =
  ir_retained :: "byte list"
  ir_full_len :: nat
  ir_outcome :: inflate_outcome

record 'z inflater =
  if_decompress :: 'z
  if_reset_each :: bool
  if_terminated :: bool

definition inflater_new :: "'z flate \<Rightarrow> bool \<Rightarrow> 'z inflater" where
  "inflater_new fl reset =
     \<lparr>if_decompress = fl_new fl, if_reset_each = reset, if_terminated = False\<rparr>"

text \<open>
  The loop of \<open>Inflater::inflate\<close>: \<open>input\<close> is what is left from the offset on, \<open>out\<close> the retained
  prefix, \<open>sofar\<close> the output produced for this message so far.
\<close>

function inflate_loop ::
  "'z flate \<Rightarrow> nat \<Rightarrow> 'z inflater \<Rightarrow> byte list \<Rightarrow> byte list \<Rightarrow> nat \<Rightarrow>
   'z inflater \<times> (inflate_failure + inflate_result)" where
  "inflate_loop fl retain infl input out sofar =
     (case fl_step fl (if_decompress infl) input of
        (z, FlateError) \<Rightarrow> (infl\<lparr>if_decompress := z\<rparr>, Inl InvalidPayload)
      | (z, FlateDone status used produced) \<Rightarrow>
          let infl' = infl\<lparr>if_decompress := z\<rparr>;
              out' = (if length out < retain then out @ take (retain - length out) produced else out);
              consumed = min used (length input);
              input' = drop consumed input;
              sofar' = sofar + length produced
          in if sofar' > MAX_DECOMPRESS then
               (infl', Inr \<lparr>ir_retained = out', ir_full_len = sofar', ir_outcome = LimitExceeded\<rparr>)
             else
               (case status of
                  FlateStreamEnd \<Rightarrow>
                    (infl'\<lparr>if_terminated := True\<rparr>,
                     Inr \<lparr>ir_retained = out', ir_full_len = sofar', ir_outcome = FinalBlock\<rparr>)
                | _ \<Rightarrow>
                    if consumed = 0 \<and> produced = [] then
                      (if input' \<noteq> [] then (infl', Inl InvalidPayload)
                       else (infl', Inr \<lparr>ir_retained = out', ir_full_len = sofar',
                                       ir_outcome = Complete\<rparr>))
                    else inflate_loop fl retain infl' input' out' sofar'))"
  by pat_completeness auto
termination
proof (relation "measure (\<lambda>(fl, retain, infl, input, out, sofar).
        length input + (MAX_DECOMPRESS + 1 - sofar))", goal_cases)
  case 1
  then show ?case by simp
next
  case (2 fl retain infl input out sofar)
  then show ?case
    by (auto simp: not_less min_def simp flip: length_greater_0_conv split: if_splits)
next
  case (3 fl retain infl input out sofar)
  then show ?case
    by (auto simp: not_less min_def simp flip: length_greater_0_conv split: if_splits)
qed

declare inflate_loop.simps [simp del]

definition inflate ::
  "'z flate \<Rightarrow> 'z inflater \<Rightarrow> byte list \<Rightarrow> nat \<Rightarrow> 'z inflater \<times> (inflate_failure + inflate_result)" where
  "inflate fl infl compressed retain =
     (let inf0 = (if if_reset_each infl
                  then infl\<lparr>if_decompress := fl_reset fl (if_decompress infl), if_terminated := False\<rparr>
                  else infl)
      in if \<not> if_reset_each infl \<and> if_terminated infl then (infl, Inl ContextTerminated)
         else inflate_loop fl retain inf0 (compressed @ [0x00, 0x00, 0xFF, 0xFF]) [] 0)"

section \<open>State of the assembler\<close>

record active_message =
  am_opcode :: opcode
  am_payload :: "byte list"
  am_payload_len :: nat
  am_wire_len :: nat
  am_truncated :: bool
  am_frame_count :: nat
  am_compressed :: bool
  am_frames :: "frame_meta list"
  am_protocol_violations :: "string list"

record 'z assembler =
  as_direction :: direction
  as_deflate :: deflate_params
  as_inflater :: "'z inflater option"
  as_active :: "active_message option"
  as_retain_cap :: nat
  as_deflate_desynced :: bool
  as_reset_each :: bool
  as_pending_violations :: "protocol_violation list"

definition assembler_new :: "'z flate \<Rightarrow> direction \<Rightarrow> deflate_params \<Rightarrow> 'z assembler" where
  "assembler_new fl direction deflate =
     (let reset = dp_enabled deflate \<and>
            (case direction of
               ClientToServer \<Rightarrow> dp_client_no_context_takeover deflate
             | ServerToClient \<Rightarrow> dp_server_no_context_takeover deflate)
      in \<lparr>as_direction = direction, as_deflate = deflate,
          as_inflater = (if dp_enabled deflate then Some (inflater_new fl reset) else None),
          as_active = None, as_retain_cap = RETAIN_CAP, as_deflate_desynced = False,
          as_reset_each = reset, as_pending_violations = []\<rparr>)"

definition mark_deflate_desynced :: "'z assembler \<Rightarrow> 'z assembler" where
  "mark_deflate_desynced a = (if as_reset_each a then a else a\<lparr>as_deflate_desynced := True\<rparr>)"

definition at_message_boundary :: "'z assembler \<Rightarrow> bool" where
  "at_message_boundary a \<longleftrightarrow> as_active a = None"

definition assembler_take_violations :: "'z assembler \<Rightarrow> 'z assembler \<times> protocol_violation list" where
  "assembler_take_violations a = (a\<lparr>as_pending_violations := []\<rparr>, as_pending_violations a)"

definition assembler_finish_stream :: "'z assembler \<Rightarrow> 'z assembler \<times> protocol_violation list" where
  "assembler_finish_stream a =
     (let (a1, violations) = assembler_take_violations a in
      case as_active a1 of
        None \<Rightarrow> (a1, violations)
      | Some active \<Rightarrow>
          (a1\<lparr>as_active := None\<rparr>,
           violations @
           [violation_message_stream_end ''connection_ended_mid_fragmented_message'' (am_opcode active)
              (jobj [(''frame_count'', jnat (am_frame_count active)),
                     (''wire_len'', jnat (am_wire_len active))])]))"

section \<open>Validation\<close>

definition valid_close_code :: "nat \<Rightarrow> bool" where
  "valid_close_code code \<longleftrightarrow>
     ((1000 \<le> code \<and> code \<le> 1003) \<or> (1007 \<le> code \<and> code \<le> 1014) \<or> (3000 \<le> code \<and> code \<le> 4999)) \<and>
     \<not> (1004 \<le> code \<and> code \<le> 1006)"

definition validate_close_payload :: "direction \<Rightarrow> raw_frame \<Rightarrow> protocol_violation list" where
  "validate_close_payload direction frame =
     (if rf_payload_len frame = 1 then
        [violation_message ''invalid_close_payload_length'' OpClose
           (jobj [(''payload_len'', JInt 1), (''valid'', JStr ''0 or >=2'')])]
      else if rf_payload_len frame < 2 \<or> length (rf_payload frame) < 2 then []
      else
        let code = be_nat (take 2 (rf_payload frame)) in
        (if \<not> valid_close_code code then
           [violation_message ''invalid_close_code'' OpClose (jobj [(''close_code'', jnat code)])]
         else if code = 1010 \<and> direction = ServerToClient then
           [violation_message ''invalid_close_code_direction'' OpClose
              (jobj [(''close_code'', jnat code), (''direction'', JStr (direction_str direction))])]
         else []) @
        (if \<not> rf_truncated frame \<and> \<not> utf8_valid (drop 2 (rf_payload frame)) then
           [violation_message ''invalid_close_reason_utf8'' OpClose
              (jobj [(''reason_len'', jnat (rf_payload_len frame - 2))])]
         else []))"

definition frame_findings :: "'z assembler \<Rightarrow> raw_frame \<Rightarrow> protocol_violation list" where
  "frame_findings a frame =
     (let expected_masked = (as_direction a = ClientToServer);
          op = rf_opcode frame;
          rsv1_code =
            (if is_control op then Some ''rsv1_on_control_frame''
             else if op = Continuation then Some ''rsv1_on_continuation''
             else if \<not> dp_enabled (as_deflate a) then Some ''rsv1_without_negotiated_extension''
             else None)
      in
      (if rf_masked frame \<noteq> expected_masked then
         [violation_frame ''incorrect_masking'' op
            (jobj [(''direction'', JStr (direction_str (as_direction a))),
                   (''masked'', JBool (rf_masked frame)),
                   (''expected_masked'', JBool expected_masked)])] else []) @
      (if rf_rsv1 frame then
         (case rsv1_code of
            None \<Rightarrow> []
          | Some code \<Rightarrow>
              [violation_frame code op
                 (jobj [(''rsv'', JInt 1),
                        (''permessage_deflate'', JBool (dp_enabled (as_deflate a)))])])
       else []) @
      (if (op = OpText \<or> op = OpBinary) \<and> as_active a \<noteq> None then
         [violation_message ''new_data_frame_before_final_continuation'' op
            (jobj [(''abandoned_fragmented_message'', JBool True)])] else []) @
      (if op = Continuation \<and> as_active a = None then
         [violation_message ''continuation_without_message'' op
            (jobj [(''active_message'', JBool False)])] else []) @
      (if op = OpClose then validate_close_payload (as_direction a) frame else []))"

definition validate_frame :: "'z assembler \<Rightarrow> raw_frame \<Rightarrow> raw_frame" where
  "validate_frame a frame = frame\<lparr>rf_violations := rf_violations frame @ frame_findings a frame\<rparr>"

definition safe_to_manage :: "'z assembler \<Rightarrow> managed_frame \<Rightarrow> bool" where
  "safe_to_manage a frame \<longleftrightarrow>
     (let raw = validate_frame a (managed_to_raw frame) in
      rf_violations raw = [] \<and>
      \<not> (rf_fin raw \<and> rf_opcode raw = OpText \<and> \<not> rf_rsv1 raw \<and> \<not> rf_truncated raw \<and>
         \<not> utf8_valid (rf_payload raw)))"

section \<open>Accepting a frame\<close>

definition frame_meta_of :: "raw_frame \<Rightarrow> frame_meta" where
  "frame_meta_of frame =
     \<lparr>fm_opcode = opcode_str (rf_opcode frame), fm_len = rf_payload_len frame,
      fm_fin = rf_fin frame, fm_rsv1 = rf_rsv1 frame\<rparr>"

definition append_frame :: "'z assembler \<Rightarrow> active_message \<Rightarrow> raw_frame \<Rightarrow> active_message" where
  "append_frame a active frame =
     (let cap = (if am_compressed active then COMPRESSED_ACCUM_CAP else as_retain_cap a);
          room = cap - length (am_payload active);
          fits = room \<ge> length (rf_payload frame)
      in active\<lparr>
           am_frame_count := u32_add (am_frame_count active) 1,
           am_wire_len := u64_add (am_wire_len active) (rf_payload_len frame),
           am_frames := (if length (am_frames active) < MAX_RETAINED_FRAMES
                         then am_frames active @ [frame_meta_of frame] else am_frames active),
           am_truncated := (am_truncated active \<or> rf_truncated frame \<or> \<not> fits),
           am_payload := am_payload active @
             (if fits then rf_payload frame else take room (rf_payload frame)),
           am_payload_len := u64_add (am_payload_len active) (rf_payload_len frame),
           am_protocol_violations :=
             am_protocol_violations active @ map pv_code (rf_violations frame)\<rparr>)"

definition add_message_violation ::
  "'z assembler \<Rightarrow> message \<Rightarrow> string \<Rightarrow> json \<Rightarrow> 'z assembler \<times> message" where
  "add_message_violation a msg code detail =
     (a\<lparr>as_pending_violations :=
          as_pending_violations a @ [violation_message code (ms_opcode msg) detail]\<rparr>,
      msg\<lparr>ms_protocol_violations := ms_protocol_violations msg @ [code]\<rparr>)"

definition validate_completed_text :: "'z assembler \<Rightarrow> message \<Rightarrow> 'z assembler \<times> message" where
  "validate_completed_text a msg =
     (if ms_opcode msg \<noteq> OpText \<or> ms_truncated msg then (a, msg)
      else if \<not> utf8_valid (ms_payload msg) then
        add_message_violation a msg ''invalid_text_utf8''
          (jobj [(''payload_len'', jnat (ms_payload_len msg))])
      else (a, msg))"

definition message_of_active :: "active_message \<Rightarrow> message" where
  "message_of_active active =
     \<lparr>ms_opcode = am_opcode active, ms_payload = am_payload active,
      ms_payload_len = am_payload_len active, ms_wire_len = am_wire_len active,
      ms_truncated = am_truncated active, ms_frame_count = am_frame_count active,
      ms_compressed = am_compressed active, ms_decompressed = False,
      ms_frames = am_frames active, ms_protocol_violations = am_protocol_violations active\<rparr>"

definition finish_undecoded ::
  "'z assembler \<Rightarrow> message \<Rightarrow> string \<Rightarrow> json \<Rightarrow> bool \<Rightarrow> 'z assembler \<times> message" where
  "finish_undecoded a msg code detail desync =
     (let (a1, msg1) = add_message_violation a msg code detail in
      ((if desync then mark_deflate_desynced a1 else a1), msg1\<lparr>ms_truncated := True\<rparr>))"

definition finish_inflated ::
  "'z assembler \<Rightarrow> message \<Rightarrow> inflate_failure + inflate_result \<Rightarrow> 'z assembler \<times> message" where
  "finish_inflated a msg result =
     (case result of
        Inr res \<Rightarrow>
          (if ir_outcome res = LimitExceeded then
             finish_undecoded a msg ''permessage_deflate_decompression_limit_exceeded''
               (jobj [(''decompressed_bytes_observed'', jnat (ir_full_len res)),
                      (''decompression_limit'', jnat MAX_DECOMPRESS)]) True
           else
             let msg1 = msg\<lparr>ms_payload := ir_retained res, ms_payload_len := ir_full_len res,
                            ms_truncated := (length (ir_retained res) \<noteq> ir_full_len res),
                            ms_decompressed := True\<rparr>;
                 (a2, msg2) =
                   (if ir_outcome res = FinalBlock then
                      let (a', m') = add_message_violation a msg1 ''permessage_deflate_final_block''
                            (jobj [(''context_takeover'', JBool (\<not> as_reset_each a))])
                      in (mark_deflate_desynced a', m')
                    else (a, msg1))
             in validate_completed_text a2 msg2)
      | Inl InvalidPayload \<Rightarrow>
          finish_undecoded a msg ''permessage_deflate_invalid_payload''
            (jobj [(''wire_len'', jnat (ms_wire_len msg))]) True
      | Inl ContextTerminated \<Rightarrow>
          finish_undecoded a msg ''permessage_deflate_context_terminated''
            (jobj [(''context_takeover'', JBool True)]) True)"

definition finish_message ::
  "'z flate \<Rightarrow> 'z assembler \<Rightarrow> active_message \<Rightarrow> 'z assembler \<times> message" where
  "finish_message fl a active =
     (let msg = message_of_active active in
      if \<not> ms_compressed msg then validate_completed_text a msg
      else if ms_truncated msg then
        finish_undecoded a msg ''permessage_deflate_input_incomplete''
          (jobj [(''wire_len'', jnat (ms_wire_len msg)),
                 (''retained_compressed_bytes'', jnat (length (ms_payload msg))),
                 (''compressed_accum_cap'', jnat COMPRESSED_ACCUM_CAP)]) True
      else if as_deflate_desynced a then
        finish_undecoded a msg ''permessage_deflate_context_desynced''
          (jobj [(''context_takeover'', JBool True)]) False
      else
        (case as_inflater a of
           None \<Rightarrow> (a, msg)
         | Some infl \<Rightarrow>
             let msg1 = msg\<lparr>ms_wire_len := ms_payload_len msg\<rparr>;
                 (infl', result) = inflate fl infl (ms_payload msg1) (as_retain_cap a)
             in finish_inflated (a\<lparr>as_inflater := Some infl'\<rparr>) msg1 result))"

definition control_message :: "raw_frame \<Rightarrow> message" where
  "control_message frame =
     \<lparr>ms_opcode = rf_opcode frame, ms_payload = rf_payload frame,
      ms_payload_len = rf_payload_len frame, ms_wire_len = rf_payload_len frame,
      ms_truncated = rf_truncated frame, ms_frame_count = 1, ms_compressed = False,
      ms_decompressed = False, ms_frames = [frame_meta_of frame],
      ms_protocol_violations = map pv_code (rf_violations frame)\<rparr>"

definition active_new :: "'z assembler \<Rightarrow> raw_frame \<Rightarrow> active_message" where
  "active_new a frame =
     \<lparr>am_opcode = rf_opcode frame, am_payload = [], am_payload_len = 0, am_wire_len = 0,
      am_truncated = False, am_frame_count = 0,
      am_compressed = (dp_enabled (as_deflate a) \<and> rf_rsv1 frame), am_frames = [],
      am_protocol_violations = []\<rparr>"

definition continue_active ::
  "'z flate \<Rightarrow> 'z assembler \<Rightarrow> active_message \<Rightarrow> raw_frame \<Rightarrow> 'z assembler \<times> message option" where
  "continue_active fl a active frame =
     (let active' = append_frame a active frame in
      if rf_fin frame then (let (a', msg) = finish_message fl a active' in (a', Some msg))
      else (a\<lparr>as_active := Some active'\<rparr>, None))"

definition accept :: "'z flate \<Rightarrow> 'z assembler \<Rightarrow> raw_frame \<Rightarrow> 'z assembler \<times> message option" where
  "accept fl a frame0 =
     (let frame = validate_frame a frame0;
          a1 = a\<lparr>as_pending_violations := as_pending_violations a @ rf_violations frame\<rparr>
      in if is_control (rf_opcode frame) then (a1, Some (control_message frame))
         else
           (case rf_opcode frame of
              OpText \<Rightarrow> continue_active fl a1 (active_new a1 frame) frame
            | OpBinary \<Rightarrow> continue_active fl a1 (active_new a1 frame) frame
            | Continuation \<Rightarrow>
                (case as_active a1 of
                   None \<Rightarrow> (a1, None)
                 | Some active \<Rightarrow> continue_active fl (a1\<lparr>as_active := None\<rparr>) active frame)
            | _ \<Rightarrow> (a1, None)))"

section \<open>Feeding frames\<close>

fun accept_all :: "'z flate \<Rightarrow> 'z assembler \<Rightarrow> raw_frame list \<Rightarrow> 'z assembler \<times> message list" where
  "accept_all fl a [] = (a, [])"
| "accept_all fl a (f # fs) =
     (let (a1, m) = accept fl a f; (a2, ms) = accept_all fl a1 fs
      in (a2, (case m of None \<Rightarrow> [] | Some x \<Rightarrow> [x]) @ ms))"

named_theorems finish_defs \<open>unfolding of the completion of a message\<close>

lemmas [finish_defs] =
  finish_message_def finish_inflated_def finish_undecoded_def validate_completed_text_def
  add_message_violation_def message_of_active_def

lemma mark_deflate_desynced_fields [simp]:
  "as_active (mark_deflate_desynced a) = as_active a"
  "as_retain_cap (mark_deflate_desynced a) = as_retain_cap a"
  "as_reset_each (mark_deflate_desynced a) = as_reset_each a"
  "as_deflate (mark_deflate_desynced a) = as_deflate a"
  "as_direction (mark_deflate_desynced a) = as_direction a"
  "as_pending_violations (mark_deflate_desynced a) = as_pending_violations a"
  "as_inflater (mark_deflate_desynced a) = as_inflater a"
  "as_deflate_desynced a \<Longrightarrow> as_deflate_desynced (mark_deflate_desynced a)"
  by (auto simp: mark_deflate_desynced_def)

text \<open>
  What completing a message never touches: the direction, the negotiated parameters, the fragments
  in flight and the caps of the assembler, and the opcode and frame list of the message.
\<close>

definition same_frame :: "'z assembler \<times> message \<Rightarrow> 'z assembler \<times> message \<Rightarrow> bool" where
  "same_frame p q \<longleftrightarrow>
     (as_active (fst q), as_retain_cap (fst q), as_reset_each (fst q), as_deflate (fst q),
      as_direction (fst q)) =
     (as_active (fst p), as_retain_cap (fst p), as_reset_each (fst p), as_deflate (fst p),
      as_direction (fst p)) \<and>
     (ms_opcode (snd q), ms_compressed (snd q), ms_frames (snd q), ms_frame_count (snd q)) =
     (ms_opcode (snd p), ms_compressed (snd p), ms_frames (snd p), ms_frame_count (snd p)) \<and>
     (as_deflate_desynced (fst p) \<longrightarrow> as_deflate_desynced (fst q)) \<and>
     (ms_protocol_violations (snd p) \<noteq> [] \<longrightarrow> ms_protocol_violations (snd q) \<noteq> [])"

lemma same_frame_refl [simp]: "same_frame p p"
  by (simp add: same_frame_def)

lemma same_frame_trans: "same_frame p q \<Longrightarrow> same_frame q r \<Longrightarrow> same_frame p r"
  by (simp add: same_frame_def)

lemma same_frame_violation: "same_frame (a, msg) (add_message_violation a msg code detail)"
  by (simp add: same_frame_def add_message_violation_def)

lemma same_frame_undecoded: "same_frame (a, msg) (finish_undecoded a msg code detail desync)"
  by (simp add: same_frame_def finish_undecoded_def add_message_violation_def)

lemma same_frame_text: "same_frame (a, msg) (validate_completed_text a msg)"
  by (simp add: validate_completed_text_def same_frame_violation)

lemma same_frame_inflated: "same_frame (a, msg) (finish_inflated a msg result)"
proof (cases result)
  case (Inl e)
  then show ?thesis
    by (cases e) (simp_all add: finish_inflated_def same_frame_undecoded)
next
  case (Inr res)
  define msg1 where "msg1 = msg\<lparr>ms_payload := ir_retained res, ms_payload_len := ir_full_len res,
      ms_truncated := (length (ir_retained res) \<noteq> ir_full_len res), ms_decompressed := True\<rparr>"
  have first: "same_frame (a, msg) (a, msg1)"
    by (simp add: same_frame_def msg1_def)
  have final: "same_frame (a, msg) (validate_completed_text (mark_deflate_desynced a') m')"
    if "add_message_violation a msg1 code detail = (a', m')" for a' m' code detail
  proof -
    have "same_frame (a, msg1) (mark_deflate_desynced a', m')"
      using same_frame_violation [of a msg1 code detail] that by (simp add: same_frame_def)
    then show ?thesis
      using first same_frame_text same_frame_trans by blast
  qed
  show ?thesis
    using Inr first
    by (auto simp: finish_inflated_def same_frame_undecoded msg1_def [symmetric] Let_def
        split: prod.splits intro: same_frame_trans same_frame_text final)
qed

lemma same_frame_finish: "same_frame (a, message_of_active active) (finish_message fl a active)"
proof -
  have "same_frame (a, m) (finish_inflated (a\<lparr>as_inflater := i\<rparr>) (m\<lparr>ms_wire_len := n\<rparr>) result)"
    for m i n result
    using same_frame_inflated [of "a\<lparr>as_inflater := i\<rparr>" "m\<lparr>ms_wire_len := n\<rparr>" result]
    by (simp add: same_frame_def)
  then show ?thesis
    by (auto simp: finish_message_def Let_def same_frame_text same_frame_undecoded
        split: option.splits prod.splits)
qed

lemma finish_message_frame:
  assumes "finish_message fl a active = (a', msg)"
  shows "as_active a' = as_active a" "as_retain_cap a' = as_retain_cap a"
    "as_reset_each a' = as_reset_each a" "as_deflate a' = as_deflate a"
    "as_direction a' = as_direction a"
    "ms_opcode msg = am_opcode active" "ms_compressed msg = am_compressed active"
    "ms_frames msg = am_frames active" "ms_frame_count msg = am_frame_count active"
    "as_deflate_desynced a \<Longrightarrow> as_deflate_desynced a'"
    "am_protocol_violations active \<noteq> [] \<Longrightarrow> ms_protocol_violations msg \<noteq> []"
  using same_frame_finish [of a active fl] assms
  by (simp_all add: same_frame_def message_of_active_def)

lemma finish_message_plain:
  "\<not> am_compressed active \<Longrightarrow>
   finish_message fl a active = validate_completed_text a (message_of_active active)"
  by (simp add: finish_message_def message_of_active_def)

lemma undecoded_unreliable:
  "finish_undecoded a msg code detail desync = (a', msg') \<Longrightarrow> \<not> message_evidence_reliable msg'"
  by (auto simp: finish_undecoded_def add_message_violation_def message_evidence_reliable_def)

lemma validated_text:
  "validate_completed_text a msg = (a', msg') \<Longrightarrow> ms_opcode msg' = OpText \<Longrightarrow>
   message_evidence_reliable msg' \<Longrightarrow> utf8_valid (ms_payload msg')"
  by (auto simp: validate_completed_text_def add_message_violation_def message_evidence_reliable_def
      split: if_splits)

lemma inflated_text:
  assumes "finish_inflated a msg result = (a', msg')" "ms_opcode msg' = OpText"
    "message_evidence_reliable msg'"
  shows "utf8_valid (ms_payload msg')"
proof (cases result)
  case (Inl e)
  with assms show ?thesis
    by (cases e) (auto simp: finish_inflated_def dest: undecoded_unreliable)
next
  case (Inr res)
  with assms show ?thesis
    by (auto simp: finish_inflated_def Let_def split: if_splits prod.splits
        dest: undecoded_unreliable validated_text)
qed

lemma finished_text:
  assumes "finish_message fl a active = (a', msg)" "am_opcode active = OpText"
    "message_evidence_reliable msg"
  shows "utf8_valid (ms_payload msg)"
proof -
  have "ms_opcode msg = OpText"
    using assms finish_message_frame(6) by metis
  with assms show ?thesis
    by (auto simp: finish_message_def Let_def message_of_active_def
        split: if_splits option.splits prod.splits
        dest: undecoded_unreliable validated_text inflated_text)
       (simp add: message_evidence_reliable_def)
qed

lemma desynced_unreliable:
  assumes "finish_message fl a active = (a', msg)" "am_compressed active" "as_deflate_desynced a"
  shows "\<not> message_evidence_reliable msg"
  using assms
  by (auto simp: finish_message_def Let_def message_of_active_def split: if_splits
      dest: undecoded_unreliable)

text \<open>One step of the assembler, by the kind of the frame.\<close>

abbreviation noted :: "'z assembler \<Rightarrow> raw_frame \<Rightarrow> 'z assembler" where
  "noted a f \<equiv> a\<lparr>as_pending_violations := as_pending_violations a @ rf_violations (validate_frame a f)\<rparr>"

lemma validate_frame_fields [simp]:
  "rf_opcode (validate_frame a f) = rf_opcode f" "rf_fin (validate_frame a f) = rf_fin f"
  "rf_payload (validate_frame a f) = rf_payload f"
  "rf_payload_len (validate_frame a f) = rf_payload_len f"
  "rf_truncated (validate_frame a f) = rf_truncated f" "rf_rsv1 (validate_frame a f) = rf_rsv1 f"
  "rf_masked (validate_frame a f) = rf_masked f"
  by (simp_all add: validate_frame_def)

lemma accept_control:
  "is_control (rf_opcode f) \<Longrightarrow>
   accept fl a f = (noted a f, Some (control_message (validate_frame a f)))"
  by (simp add: accept_def Let_def)

lemma accept_reserved:
  "rf_opcode f = Reserved c \<Longrightarrow> \<not> is_control (rf_opcode f) \<Longrightarrow> accept fl a f = (noted a f, None)"
  by (simp add: accept_def Let_def)

lemma accept_start:
  "rf_opcode f = OpText \<or> rf_opcode f = OpBinary \<Longrightarrow>
   accept fl a f = continue_active fl (noted a f)
     (active_new (noted a f) (validate_frame a f)) (validate_frame a f)"
  by (auto simp: accept_def Let_def)

lemma accept_orphan:
  "rf_opcode f = Continuation \<Longrightarrow> as_active a = None \<Longrightarrow> accept fl a f = (noted a f, None)"
  by (simp add: accept_def Let_def)

lemma accept_continuation:
  "rf_opcode f = Continuation \<Longrightarrow> as_active a = Some active \<Longrightarrow>
   accept fl a f = continue_active fl ((noted a f)\<lparr>as_active := None\<rparr>) active (validate_frame a f)"
  by (simp add: accept_def Let_def)

lemmas accept_kinds = accept_control accept_reserved accept_start accept_orphan accept_continuation

text \<open>A case split on a frame that follows the branches of \<open>accept\<close>.\<close>

lemma accept_cases:
  fixes a :: "'z assembler"
  obtains (control) "is_control (rf_opcode f)"
  | (reserved) c where "rf_opcode f = Reserved c" "\<not> is_control (rf_opcode f)"
  | (start) "rf_opcode f = OpText \<or> rf_opcode f = OpBinary"
  | (orphan) "rf_opcode f = Continuation" "as_active a = None"
  | (continuation) active where "rf_opcode f = Continuation" "as_active a = Some active"
  by (cases "rf_opcode f"; cases "as_active a") auto

section \<open>The inflate loop follows the decompressor\<close>

text \<open>
  A run of the decompressor: the calls made one after the other on what is left of the input, with
  the output of all of them.
\<close>

inductive flate_run :: "'z flate \<Rightarrow> 'z \<Rightarrow> byte list \<Rightarrow> byte list \<Rightarrow> 'z \<Rightarrow> byte list \<Rightarrow> bool"
  for fl where
  run_done: "flate_run fl z input [] z input"
| run_step: "fl_step fl z input = (z1, FlateDone status used made) \<Longrightarrow>
    flate_run fl z1 (drop (min used (length input)) input) out z2 rest \<Longrightarrow>
    flate_run fl z input (made @ out) z2 rest"

lemma run_one:
  "fl_step fl z input = (z1, FlateDone status used made) \<Longrightarrow>
   flate_run fl z input made z1 (drop (min used (length input)) input)"
  using run_step [OF _ run_done] by fastforce

lemma retain_step:
  "(if length (take n xs) < n then take n xs @ take (n - length (take n xs)) ys else take n xs) =
   take n (xs @ ys)"
  by (auto simp: min_def)

text \<open>One turn of the loop, with the retained prefix written as the prefix of all output so far.\<close>

lemma inflate_loop_step:
  assumes "fl_step fl (if_decompress infl) input = (z, FlateDone status used made)"
  shows "inflate_loop fl retain infl input (take retain sofar) (length sofar) =
    (let infl' = infl\<lparr>if_decompress := z\<rparr>; out' = sofar @ made;
         rest = drop (min used (length input)) input;
         res = \<lparr>ir_retained = take retain out', ir_full_len = length out', ir_outcome = Complete\<rparr>
     in if MAX_DECOMPRESS < length out' then (infl', Inr (res\<lparr>ir_outcome := LimitExceeded\<rparr>))
        else if status = FlateStreamEnd then
          (infl'\<lparr>if_terminated := True\<rparr>, Inr (res\<lparr>ir_outcome := FinalBlock\<rparr>))
        else if min used (length input) = 0 \<and> made = [] then
          (if rest \<noteq> [] then (infl', Inl InvalidPayload) else (infl', Inr res))
        else inflate_loop fl retain infl' rest (take retain out') (length out'))"
  by (subst inflate_loop.simps)
     (cases status; simp only: assms prod.case flate_result.case flate_status.case Let_def
        retain_step length_append flate_status.distinct if_False if_True simp_thms
        inflate_result.update_convs)

lemma inflate_loop_run:
  assumes "inflate_loop fl retain infl input (take retain sofar) (length sofar) = (infl', Inr res)"
  shows "\<exists>out rest. flate_run fl (if_decompress infl) input out (if_decompress infl') rest \<and>
     ir_retained res = take retain (sofar @ out) \<and> ir_full_len res = length (sofar @ out) \<and>
     (ir_outcome res = LimitExceeded \<longleftrightarrow> MAX_DECOMPRESS < length (sofar @ out)) \<and>
     (ir_outcome res = Complete \<longrightarrow> rest = []) \<and>
     (ir_outcome res = FinalBlock \<longrightarrow> if_terminated infl')"
  using assms
proof (induction "length input + (MAX_DECOMPRESS + 1 - length sofar)" arbitrary: infl input sofar
    rule: less_induct)
  case less
  obtain z r where step: "fl_step fl (if_decompress infl) input = (z, r)"
    by fastforce
  show ?case
  proof (cases r)
    case FlateError
    with less.prems step show ?thesis
      by (subst (asm) inflate_loop.simps) simp
  next
    case (FlateDone status used made)
    note step = step [unfolded FlateDone]
    let ?rest = "drop (min used (length input)) input"
    note unroll = inflate_loop_step [OF step, of retain sofar] and run = run_one [OF step]
    define stops where "stops \<longleftrightarrow> MAX_DECOMPRESS < length (sofar @ made) \<or>
        status = FlateStreamEnd \<or> min used (length input) = 0 \<and> made = []"
    show ?thesis
    proof (cases stops)
      case True
      then show ?thesis
        using less.prems run unfolding unroll Let_def stops_def
        by - (rule exI [of _ made], rule exI [of _ ?rest], auto split: if_splits)
    next
      case False
      then have go: "inflate_loop fl retain (infl\<lparr>if_decompress := z\<rparr>) ?rest
          (take retain (sofar @ made)) (length (sofar @ made)) = (infl', Inr res)"
        using less.prems unfolding unroll Let_def stops_def by (simp split: if_splits)
      have "length ?rest + (MAX_DECOMPRESS + 1 - length (sofar @ made)) <
          length input + (MAX_DECOMPRESS + 1 - length sofar)"
        using False by (auto simp: stops_def not_less simp flip: length_greater_0_conv)
      from less.hyps [OF this go] obtain out rest where
        more: "flate_run fl z ?rest out (if_decompress infl') rest"
          "ir_retained res = take retain ((sofar @ made) @ out)"
          "ir_full_len res = length ((sofar @ made) @ out)"
          "ir_outcome res = LimitExceeded \<longleftrightarrow> MAX_DECOMPRESS < length ((sofar @ made) @ out)"
          "ir_outcome res = Complete \<longrightarrow> rest = []" "ir_outcome res = FinalBlock \<longrightarrow> if_terminated infl'"
        by auto
      then show ?thesis
        using run_step [OF step more(1)] by (intro exI [of _ "made @ out"] exI [of _ rest]) simp
    qed
  qed
qed

lemma inflate_run:
  assumes "inflate fl infl compressed retain = (infl', Inr res)"
  shows "\<exists>out rest.
     flate_run fl (if if_reset_each infl then fl_reset fl (if_decompress infl) else if_decompress infl)
       (compressed @ [0x00, 0x00, 0xFF, 0xFF]) out (if_decompress infl') rest \<and>
     ir_retained res = take retain out \<and> ir_full_len res = length out \<and>
     (ir_outcome res = LimitExceeded \<longleftrightarrow> MAX_DECOMPRESS < length out) \<and>
     (ir_outcome res = Complete \<longrightarrow> rest = []) \<and>
     (ir_outcome res = FinalBlock \<longrightarrow> if_terminated infl')"
proof -
  define infl0 where "infl0 = (if if_reset_each infl
      then infl\<lparr>if_decompress := fl_reset fl (if_decompress infl), if_terminated := False\<rparr> else infl)"
  have "inflate_loop fl retain infl0 (compressed @ [0x00, 0x00, 0xFF, 0xFF]) (take retain []) (length []) =
      (infl', Inr res)"
    using assms by (auto simp: inflate_def infl0_def [symmetric] Let_def split: if_splits)
  from inflate_loop_run [OF this] show ?thesis
    by (auto simp: infl0_def split: if_splits)
qed

text \<open>
  Inflating a message runs the decompressor on exactly the message followed by
  the four bytes \<open>00 00 FF FF\<close> that the sender cut off, from the carried state (or a reset one). The
  bytes kept are the first \<open>retain\<close> of everything it produced, the length reported counts all of it,
  a message is reported as over the limit exactly when more than \<open>MAX_DECOMPRESS\<close> bytes came out,
  and one reported complete consumed its whole input.
\<close>

theorem inflate_faithful:
  assumes "inflate fl infl compressed retain = (infl', Inr res)"
  shows "\<exists>out rest.
     flate_run fl (if if_reset_each infl then fl_reset fl (if_decompress infl) else if_decompress infl)
       (compressed @ [0x00, 0x00, 0xFF, 0xFF]) out (if_decompress infl') rest \<and>
     ir_retained res = take retain out \<and> ir_full_len res = length out \<and>
     (ir_outcome res = LimitExceeded \<longleftrightarrow> MAX_DECOMPRESS < length out) \<and>
     (ir_outcome res = Complete \<longrightarrow> rest = []) \<and>
     (ir_outcome res = FinalBlock \<longrightarrow> if_terminated infl')"
  by (rule inflate_run) (rule assms)

text \<open>A stand-in for the decompressor in the witnesses: it copies its input.\<close>

definition flate_copy :: "nat flate" where
  "flate_copy = \<lparr>fl_new = 0, fl_reset = (\<lambda>_. 0),
     fl_step = (\<lambda>z input. (z + 1, FlateDone FlateOk (length input) input))\<rparr>"

lemma flate_copy_inflate:
  assumes "bs \<noteq> []" "length bs \<le> 100"
  shows "inflate_loop flate_copy retain infl bs [] 0 =
    (infl\<lparr>if_decompress := if_decompress infl + 2\<rparr>,
     Inr \<lparr>ir_retained = take retain bs, ir_full_len = length bs, ir_outcome = Complete\<rparr>)"
  using assms
  by (subst inflate_loop.simps, subst inflate_loop.simps)
     (simp add: flate_copy_def Let_def MAX_DECOMPRESS_def)

theorem inflate_faithful_witness:
  "inflate flate_copy (inflater_new flate_copy True) [1, 2] 3 =
     (\<lparr>if_decompress = 2, if_reset_each = True, if_terminated = False\<rparr>,
      Inr \<lparr>ir_retained = [1, 2, 0], ir_full_len = 6, ir_outcome = Complete\<rparr>) \<and>
   (\<exists>out rest. flate_run flate_copy 0 [1, 2, 0, 0, 0xFF, 0xFF] out 2 rest \<and>
      take 3 out = [1, 2, 0] \<and> length out = 6)"
proof -
  have run: "inflate flate_copy (inflater_new flate_copy True) [1, 2] 3 =
     (\<lparr>if_decompress = 2, if_reset_each = True, if_terminated = False\<rparr>,
      Inr \<lparr>ir_retained = [1, 2, 0], ir_full_len = 6, ir_outcome = Complete\<rparr>)"
    by (simp add: inflate_def inflater_new_def flate_copy_inflate)
       (simp add: flate_copy_def numeral_eq_Suc)
  show ?thesis
    using inflate_faithful [OF run] run by (fastforce simp: inflater_new_def flate_copy_def)
qed

section \<open>Reassembly\<close>

lemma accept_all_append:
  "accept_all fl a (xs @ ys) =
     (let (a1, ms) = accept_all fl a xs; (a2, ms') = accept_all fl a1 ys in (a2, ms @ ms'))"
  by (induction xs arbitrary: a) (auto simp: Let_def split: prod.splits)

text \<open>
  What an uncompressed message in flight holds of the data frames \<open>fs\<close> it was gathered from: of their payloads the first
  \<open>cap\<close> bytes, the sum of their lengths, and whether anything is missing.
\<close>

definition gathered :: "nat \<Rightarrow> active_message \<Rightarrow> raw_frame list \<Rightarrow> bool" where
  "gathered cap act fs \<longleftrightarrow>
     \<not> am_compressed act \<and>
     am_payload act = take cap (concat (map rf_payload fs)) \<and>
     (am_truncated act \<longleftrightarrow> list_ex rf_truncated fs \<or> cap < length (concat (map rf_payload fs))) \<and>
     am_payload_len act = sum_list (map rf_payload_len fs) mod 2 ^ 64"

lemma append_gathered:
  assumes "gathered cap act fs" "as_retain_cap a = cap"
  shows "gathered cap (append_frame a act f) (fs @ [f])" "am_opcode (append_frame a act f) = am_opcode act"
proof -
  let ?x = "concat (map rf_payload fs)" and ?p = "rf_payload f"
  have room: "cap - length (am_payload act) = cap - length ?x"
    using assms(1) by (simp add: gathered_def)
  have "am_payload act @ (if length ?p \<le> cap - length ?x then ?p else take (cap - length ?x) ?p) = take cap (?x @ ?p)"
    using assms(1) by (simp add: gathered_def)
  moreover have "(cap < length ?x \<or> \<not> length ?p \<le> cap - length ?x) = (cap < length ?x + length ?p)"
    by linarith
  moreover have "u64_add (am_payload_len act) (rf_payload_len f) = sum_list (map rf_payload_len (fs @ [f])) mod 2 ^ 64"
    using assms(1) by (simp add: gathered_def u64_add_def mod_add_left_eq)
  ultimately show "gathered cap (append_frame a act f) (fs @ [f])"
    using assms room by (auto simp: gathered_def append_frame_def Let_def)
  show "am_opcode (append_frame a act f) = am_opcode act"
    by (simp add: append_frame_def Let_def)
qed

text \<open>A frame inside a fragmented message: a control frame, or a fragment that is not the last.\<close>

definition inner_frame :: "raw_frame \<Rightarrow> bool" where
  "inner_frame f \<longleftrightarrow> is_control (rf_opcode f) \<or> rf_opcode f = Continuation \<and> \<not> rf_fin f"

abbreviation is_data :: "raw_frame \<Rightarrow> bool" where
  "is_data f \<equiv> \<not> is_control (rf_opcode f)"

lemma gathered_validate [simp]: "gathered cap act (fs @ [validate_frame a f]) = gathered cap act (fs @ [f])"
  by (simp add: gathered_def)

lemma inner_frames_accumulate:
  assumes "\<forall>f\<in>set mid. inner_frame f" "as_active a = Some act" "gathered cap act fs" "as_retain_cap a = cap"
  shows "\<exists>a' act' ms. accept_all fl a mid = (a', ms) \<and>
     map ms_payload ms = map rf_payload (filter (\<lambda>f. is_control (rf_opcode f)) mid) \<and>
     as_active a' = Some act' \<and> gathered cap act' (fs @ filter is_data mid) \<and> am_opcode act' = am_opcode act \<and>
     as_retain_cap a' = cap"
  using assms
proof (induction mid arbitrary: a act fs)
  case Nil
  then show ?case by simp
next
  case (Cons f mid)
  show ?case
  proof (cases "is_control (rf_opcode f)")
    case True
    with Cons.prems have "\<exists>a' act' ms. accept_all fl (noted a f) mid = (a', ms) \<and>
       map ms_payload ms = map rf_payload (filter (\<lambda>f. is_control (rf_opcode f)) mid) \<and>
       as_active a' = Some act' \<and> gathered cap act' (fs @ filter is_data mid) \<and> am_opcode act' = am_opcode act \<and>
       as_retain_cap a' = cap"
      by (intro Cons.IH) auto
    with True show ?thesis
      by (auto simp: accept_control control_message_def)
  next
    case False
    let ?a = "(noted a f)\<lparr>as_active := None\<rparr>" and ?f = "validate_frame a f"
    let ?act = "append_frame ?a act ?f"
    have cont: "rf_opcode f = Continuation" "\<not> rf_fin f"
      using Cons.prems(1) False by (auto simp: inner_frame_def)
    have app: "gathered cap ?act (fs @ [f])" "am_opcode ?act = am_opcode act"
      using append_gathered [OF Cons.prems(3), of ?a ?f] Cons.prems(4) by simp_all
    have "\<exists>a' act' ms. accept_all fl (?a\<lparr>as_active := Some ?act\<rparr>) mid = (a', ms) \<and>
       map ms_payload ms = map rf_payload (filter (\<lambda>f. is_control (rf_opcode f)) mid) \<and>
       as_active a' = Some act' \<and> gathered cap act' ((fs @ [f]) @ filter is_data mid) \<and> am_opcode act' = am_opcode ?act \<and>
       as_retain_cap a' = cap"
      using Cons.prems(1,4) app(1) by (intro Cons.IH) auto
    moreover have "accept fl a f = (?a\<lparr>as_active := Some ?act\<rparr>, None)"
      using cont Cons.prems(2) by (simp add: accept_continuation continue_active_def)
    ultimately show ?thesis
      using False app by auto
  qed
qed

text \<open>
  C6: an uncompressed text or binary message sent in fragments, with control frames between them, comes out once, after
  its last fragment; every control frame comes out in its place in between and changes nothing of it. The message has
  the opcode of the first fragment, of the concatenated payloads the first \<open>RETAIN_CAP\<close> bytes, their full length (modulo
  \<open>2 ^ 64\<close>), and is marked as truncated exactly when a fragment was or the payloads are longer than that; after the last
  fragment no message is in flight.
\<close>

theorem fragments_reassemble:
  assumes "rf_opcode first = OpText \<or> rf_opcode first = OpBinary" "\<not> rf_fin first" "\<not> rf_rsv1 first"
    "\<forall>f\<in>set mid. inner_frame f"
    "rf_opcode final = Continuation" "rf_fin final"
    "as_retain_cap a = RETAIN_CAP"
    "data = filter is_data (first # mid @ [final])"
  shows "\<exists>a' ctl msg. accept_all fl a (first # mid @ [final]) = (a', ctl @ [msg]) \<and>
     map ms_payload ctl = map rf_payload (filter (\<lambda>f. is_control (rf_opcode f)) mid) \<and>
     ms_opcode msg = rf_opcode first \<and>
     ms_payload msg = take RETAIN_CAP (concat (map rf_payload data)) \<and>
     ms_payload_len msg = sum_list (map rf_payload_len data) mod 2 ^ 64 \<and>
     (ms_truncated msg \<longleftrightarrow> list_ex rf_truncated data \<or> RETAIN_CAP < length (concat (map rf_payload data))) \<and>
     \<not> ms_compressed msg \<and> at_message_boundary a'"
proof -
  let ?f = "validate_frame a first"
  let ?act = "append_frame (noted a first) (active_new (noted a first) ?f) ?f"
  let ?a = "(noted a first)\<lparr>as_active := Some ?act\<rparr>"
  have data: "data = first # filter is_data mid @ [final]"
    using assms(1,5,8) by auto
  have new: "gathered RETAIN_CAP (active_new (noted a first) ?f) []"
    using assms(3) by (simp add: gathered_def active_new_def)
  have app: "gathered RETAIN_CAP ?act [first]" "am_opcode ?act = rf_opcode first"
    using append_gathered [OF new, of "noted a first" ?f] assms(7) gathered_validate [of RETAIN_CAP ?act "[]" a first]
    by (simp_all add: active_new_def)
  have start: "accept fl a first = (?a, None)"
    using assms(1,2) by (simp add: accept_start continue_active_def)
  obtain a1 act1 ctl where mid: "accept_all fl ?a mid = (a1, ctl)"
    "map ms_payload ctl = map rf_payload (filter (\<lambda>f. is_control (rf_opcode f)) mid)"
    "as_active a1 = Some act1" "gathered RETAIN_CAP act1 ([first] @ filter is_data mid)" "am_opcode act1 = rf_opcode first"
    "as_retain_cap a1 = RETAIN_CAP"
    using inner_frames_accumulate [of mid ?a ?act RETAIN_CAP "[first]" fl] assms(4,7) app by auto
  let ?l = "validate_frame a1 final" and ?a1 = "(noted a1 final)\<lparr>as_active := None\<rparr>"
  let ?act1 = "append_frame ?a1 act1 ?l"
  have app1: "gathered RETAIN_CAP ?act1 data" "am_opcode ?act1 = rf_opcode first"
    using append_gathered [OF mid(4), of ?a1 ?l] mid(5,6) data
      gathered_validate [of RETAIN_CAP ?act1 "first # filter is_data mid" a1 final] by simp_all
  obtain a2 msg where fin: "finish_message fl ?a1 ?act1 = (a2, msg)"
    by fastforce
  have "accept fl a1 final = (a2, Some msg)"
    using assms(5,6) mid(3) fin by (simp add: accept_continuation continue_active_def)
  moreover have "validate_completed_text ?a1 (message_of_active ?act1) = (a2, msg)"
    using fin app1(1) by (simp add: finish_message_plain gathered_def)
  then have "ms_payload msg = am_payload ?act1" "ms_payload_len msg = am_payload_len ?act1"
    "ms_truncated msg = am_truncated ?act1" "ms_compressed msg = am_compressed ?act1"
    "ms_opcode msg = am_opcode ?act1" "as_active a2 = None"
    by (auto simp: validate_completed_text_def message_of_active_def add_message_violation_def
        split: if_splits)
  ultimately show ?thesis
    using start mid(1,2) app1
    by (auto simp: accept_all_append gathered_def at_message_boundary_def)
qed

lemma assembler_new_fields [simp]:
  "as_retain_cap (assembler_new fl dir params) = RETAIN_CAP"
  "as_active (assembler_new fl dir params) = None"
  "as_deflate_desynced (assembler_new fl dir params) = False"
  "as_direction (assembler_new fl dir params) = dir"
  "as_deflate (assembler_new fl dir params) = params"
  "as_pending_violations (assembler_new fl dir params) = []"
  by (simp_all add: assembler_new_def Let_def)

text \<open>Frames for the witnesses.\<close>

definition sample_frame :: "opcode \<Rightarrow> bool \<Rightarrow> bool \<Rightarrow> byte list \<Rightarrow> raw_frame" where
  "sample_frame op fin rsv1 bs =
     \<lparr>rf_fin = fin, rf_rsv1 = rsv1, rf_opcode = op, rf_masked = False, rf_payload = bs,
      rf_payload_len = length bs, rf_truncated = False, rf_violations = []\<rparr>"

lemma sample_frame_fields [simp]:
  "rf_fin (sample_frame op fin rsv1 bs) = fin" "rf_rsv1 (sample_frame op fin rsv1 bs) = rsv1"
  "rf_opcode (sample_frame op fin rsv1 bs) = op" "rf_masked (sample_frame op fin rsv1 bs) = False"
  "rf_payload (sample_frame op fin rsv1 bs) = bs"
  "rf_payload_len (sample_frame op fin rsv1 bs) = length bs"
  "rf_truncated (sample_frame op fin rsv1 bs) = False"
  "rf_violations (sample_frame op fin rsv1 bs) = []"
  by (simp_all add: sample_frame_def)

theorem fragments_reassemble_witness:
  "\<exists>a' ctl msg. accept_all flate_copy (assembler_new flate_copy ServerToClient deflate_default)
      [sample_frame OpText False False [72], sample_frame OpPing True False [9],
       sample_frame Continuation True False [105]] = (a', ctl @ [msg]) \<and>
     map ms_payload ctl = [[9]] \<and> ms_payload msg = [72, 105] \<and> at_message_boundary a'"
  using fragments_reassemble [of "sample_frame OpText False False [72]"
      "[sample_frame OpPing True False [9]]" "sample_frame Continuation True False [105]"
      "assembler_new flate_copy ServerToClient deflate_default" _ flate_copy]
  by (auto simp: inner_frame_def RETAIN_CAP_def simp del: accept_all.simps)

section \<open>Control frames\<close>

text \<open>
  A control frame comes out at once as a message of its own, of one
  frame, with its payload, and leaves the fragments in flight, the inflate context and the desync
  mark as they were.
\<close>

theorem control_frames_interleave:
  assumes "is_control (rf_opcode f)"
  shows "\<exists>a' msg. accept fl a f = (a', Some msg) \<and> as_active a' = as_active a \<and>
     as_inflater a' = as_inflater a \<and> as_deflate_desynced a' = as_deflate_desynced a \<and>
     ms_opcode msg = rf_opcode f \<and> ms_payload msg = rf_payload f \<and> ms_frame_count msg = 1 \<and>
     ms_protocol_violations msg = map pv_code (rf_violations f @ frame_findings a f)"
  using assms by (simp add: accept_control control_message_def validate_frame_def)

theorem control_frames_interleave_witness:
  "\<exists>a' msg. accept flate_copy (assembler_new flate_copy ServerToClient deflate_default)
      (sample_frame OpPing True False [9]) = (a', Some msg) \<and> ms_payload msg = [9]"
  using control_frames_interleave [of "sample_frame OpPing True False [9]" flate_copy
      "assembler_new flate_copy ServerToClient deflate_default"]
  by auto

section \<open>A lost compression context stays lost\<close>

lemma continue_desync:
  assumes "as_deflate_desynced b"
  shows "as_deflate_desynced (fst (continue_active fl b act g)) \<and>
      (\<forall>msg. snd (continue_active fl b act g) = Some msg \<longrightarrow> ms_compressed msg \<longrightarrow>
         \<not> message_evidence_reliable msg)"
proof (cases "rf_fin g")
  case True
  obtain b' msg where fin: "finish_message fl b (append_frame b act g) = (b', msg)"
    by fastforce
  have "as_deflate_desynced b'" "ms_compressed msg \<Longrightarrow> \<not> message_evidence_reliable msg"
    using finish_message_frame(7,10) [OF fin] desynced_unreliable [OF fin] assms by auto
  then show ?thesis
    using True fin by (simp add: continue_active_def)
next
  case False
  then show ?thesis
    using assms by (simp add: continue_active_def)
qed

lemma accept_desync:
  assumes "as_deflate_desynced a"
  shows "as_deflate_desynced (fst (accept fl a f)) \<and>
      (\<forall>msg. snd (accept fl a f) = Some msg \<longrightarrow> ms_compressed msg \<longrightarrow>
         \<not> message_evidence_reliable msg)"
proof (cases rule: accept_cases [where f = f and a = a])
  case control
  then show ?thesis using assms by (simp add: accept_control control_message_def)
next
  case (reserved c)
  then show ?thesis using assms by (simp add: accept_reserved)
next
  case start
  show ?thesis unfolding accept_start [OF start] by (rule continue_desync) (simp add: assms)
next
  case orphan
  then show ?thesis using assms by (simp add: accept_orphan)
next
  case (continuation active)
  show ?thesis
    unfolding accept_continuation [OF continuation] by (rule continue_desync) (simp add: assms)
qed

lemma desync_stays:
  assumes "as_deflate_desynced a"
  shows "as_deflate_desynced (fst (accept_all fl a fs)) \<and>
     (\<forall>msg \<in> set (snd (accept_all fl a fs)).
        ms_compressed msg \<longrightarrow> \<not> message_evidence_reliable msg)"
  using assms
proof (induction fs arbitrary: a)
  case Nil
  then show ?case by simp
next
  case (Cons f fs)
  obtain a1 m where step: "accept fl a f = (a1, m)"
    by fastforce
  show ?case
    using Cons.IH [of a1] accept_desync [OF Cons.prems, of fl f] step
    by (auto simp: Let_def split: prod.splits option.splits)
qed

text \<open>The decompressor has seen the end of its stream, so that its context is gone.\<close>

definition inflater_ended :: "'z assembler \<Rightarrow> bool" where
  "inflater_ended a \<longleftrightarrow> (case as_inflater a of None \<Rightarrow> False | Some infl \<Rightarrow> if_terminated infl)"

lemma inflate_loop_ended:
  "inflate_loop fl retain infl input out sofar = (infl', Inr res) \<Longrightarrow> if_terminated infl' \<Longrightarrow>
   if_terminated infl \<or> ir_outcome res = FinalBlock"
proof (induction fl retain infl input out sofar rule: inflate_loop.induct)
  case (1 fl retain infl input out sofar)
  obtain z r where step: "fl_step fl (if_decompress infl) input = (z, r)" by fastforce
  show ?case
  proof (cases r)
    case FlateError
    then show ?thesis
      using "1.prems" unfolding inflate_loop.simps [of fl retain infl input out sofar] step FlateError by simp
  next
    case (FlateDone status used produced)
    show ?thesis
      using "1.prems" "1.IH"(1) [OF step [symmetric] FlateDone refl refl refl refl refl] "1.IH"(2) [OF step [symmetric] FlateDone refl refl refl refl refl]
      unfolding inflate_loop.simps [of fl retain infl input out sofar] step FlateDone
      by (auto simp: Let_def split: if_splits flate_status.splits)
  qed
qed

lemma inflate_ended:
  "inflate fl infl bs retain = (infl', Inr res) \<Longrightarrow> if_terminated infl' \<Longrightarrow> ir_outcome res = FinalBlock"
  unfolding inflate_def Let_def by (auto split: if_splits dest!: inflate_loop_ended)

lemma marked_desynced: "\<not> as_reset_each a \<Longrightarrow> as_deflate_desynced (mark_deflate_desynced a)"
  by (simp add: mark_deflate_desynced_def)

lemma undecoded_marks:
  "finish_undecoded a msg code detail desync = (a', msg') \<Longrightarrow> \<not> as_reset_each a \<Longrightarrow> desync \<or> as_deflate_desynced a \<Longrightarrow>
   as_deflate_desynced a' \<and> \<not> message_evidence_reliable msg'"
  using undecoded_unreliable [of a msg code detail desync a' msg']
  by (auto simp: finish_undecoded_def add_message_violation_def marked_desynced Let_def split: if_splits)

lemma validated_keeps:
  assumes "validate_completed_text a msg = (a', msg')"
  shows "as_deflate_desynced a' = as_deflate_desynced a" "as_inflater a' = as_inflater a"
    "ms_decompressed msg' = ms_decompressed msg" "ms_protocol_violations msg \<noteq> [] \<Longrightarrow> ms_protocol_violations msg' \<noteq> []"
  using assms by (auto simp: validate_completed_text_def add_message_violation_def split: if_splits)

lemma inflated_marks:
  assumes "finish_inflated a msg result = (a', msg')" "\<not> as_reset_each a"
    "as_inflater a = Some infl" "\<And>res. result = Inr res \<Longrightarrow> if_terminated infl \<Longrightarrow> ir_outcome res = FinalBlock"
    "\<not> ms_decompressed msg' \<or> inflater_ended a'"
  shows "as_deflate_desynced a' \<and> \<not> message_evidence_reliable msg'"
proof (cases result)
  case (Inl e)
  then show ?thesis
    using assms(1,2) undecoded_marks by (cases e) (simp_all add: finish_inflated_def, blast+)
next
  case (Inr res)
  show ?thesis
  proof (cases "ir_outcome res = LimitExceeded")
    case True
    then show ?thesis
      using assms(1,2) undecoded_marks Inr by (simp add: finish_inflated_def) blast
  next
    case False
    let ?msg = "msg\<lparr>ms_payload := ir_retained res, ms_payload_len := ir_full_len res,
        ms_truncated := (length (ir_retained res) \<noteq> ir_full_len res), ms_decompressed := True\<rparr>"
    show ?thesis
    proof (cases "ir_outcome res = FinalBlock")
      case True
      obtain b m where m: "add_message_violation a ?msg ''permessage_deflate_final_block''
          (jobj [(''context_takeover'', JBool (\<not> as_reset_each a))]) = (b, m)" by fastforce
      then have "validate_completed_text (mark_deflate_desynced b) m = (a', msg')"
        using assms(1) Inr True False by (simp add: finish_inflated_def Let_def)
      moreover have "\<not> as_reset_each b" "ms_protocol_violations m \<noteq> []"
        using m assms(2) by (auto simp: add_message_violation_def)
      ultimately show ?thesis
        using validated_keeps marked_desynced [of b] by (fastforce simp: message_evidence_reliable_def)
    next
      case plain: False
      then have "validate_completed_text a ?msg = (a', msg')"
        using assms(1) Inr False by (simp add: finish_inflated_def Let_def)
      then have "ms_decompressed msg'" "as_inflater a' = Some infl"
        using validated_keeps(2,3) assms(3) by fastforce+
      then show ?thesis
        using assms(4,5) Inr plain by (simp add: inflater_ended_def)
    qed
  qed
qed

lemma finish_marks:
  assumes "finish_message fl a active = (a', msg)" "am_compressed active" "\<not> as_reset_each a" "as_inflater a \<noteq> None"
    "\<not> ms_decompressed msg \<or> inflater_ended a' \<and> \<not> as_deflate_desynced a"
  shows "as_deflate_desynced a' \<and> \<not> message_evidence_reliable msg"
proof -
  obtain infl where infl: "as_inflater a = Some infl" using assms(4) by blast
  let ?msg = "message_of_active active"
  have compressed: "ms_compressed ?msg" using assms(2) by (simp add: message_of_active_def)
  consider "ms_truncated ?msg" | "\<not> ms_truncated ?msg" "as_deflate_desynced a" | "\<not> ms_truncated ?msg" "\<not> as_deflate_desynced a"
    by blast
  then show ?thesis
  proof cases
    case 1
    then show ?thesis
      using assms(1,3) compressed undecoded_marks by (simp add: finish_message_def Let_def) blast
  next
    case 2
    then show ?thesis
      using assms(1,3) compressed undecoded_marks by (simp add: finish_message_def Let_def) blast
  next
    case 3
    obtain infl' result where inf: "inflate fl infl (ms_payload ?msg) (as_retain_cap a) = (infl', result)" by fastforce
    then have fin: "finish_inflated (a\<lparr>as_inflater := Some infl'\<rparr>) (?msg\<lparr>ms_wire_len := ms_payload_len ?msg\<rparr>) result = (a', msg)"
      using assms(1) 3 compressed infl by (simp add: finish_message_def Let_def)
    show ?thesis
      by (rule inflated_marks [OF fin, where infl = infl']) (use assms(3,5) inflate_ended inf in \<open>auto\<close>)
  qed
qed

lemma accept_marks:
  assumes "accept fl a f = (a1, Some msg)" "ms_compressed msg" "\<not> as_reset_each a" "as_inflater a \<noteq> None"
    "\<not> ms_decompressed msg \<or> inflater_ended a1 \<and> \<not> as_deflate_desynced a"
  shows "as_deflate_desynced a1 \<and> \<not> message_evidence_reliable msg"
proof -
  have continued: "as_deflate_desynced a1 \<and> \<not> message_evidence_reliable msg"
    if "continue_active fl b act g = (a1, Some msg)" "as_reset_each b = as_reset_each a" "as_inflater b = as_inflater a"
      "as_deflate_desynced b = as_deflate_desynced a" for b act g
  proof -
    have fin: "finish_message fl b (append_frame b act g) = (a1, msg)"
      using that(1) by (auto simp: continue_active_def Let_def split: if_splits prod.splits)
    show ?thesis
      by (rule finish_marks [OF fin]) (use finish_message_frame(7) [OF fin] assms(2-5) that(2-4) in \<open>auto\<close>)
  qed
  show ?thesis
  proof (cases rule: accept_cases [where f = f and a = a])
    case control
    then show ?thesis using assms(1,2) by (auto simp: accept_control control_message_def)
  next
    case (reserved c)
    then show ?thesis using assms(1) by (simp add: accept_reserved)
  next
    case start
    then show ?thesis using assms(1) continued unfolding accept_start [OF start] by simp
  next
    case orphan
    then show ?thesis using assms(1) by (simp add: accept_orphan)
  next
    case (continuation active)
    then show ?thesis using assms(1) continued unfolding accept_continuation [OF continuation] by simp
  qed
qed

text \<open>
  C7: with a compression context that messages share, once a compressed message comes out that could not be inflated, or
  that ended the compressed stream, that message and every compressed message after it on that direction are reported as
  unreliable evidence, whatever frames follow, and the context stays marked as lost.
\<close>

theorem lost_context_stays_lost:
  assumes "accept fl a f = (a1, Some msg)" "ms_compressed msg"
    "\<not> ms_decompressed msg \<or> inflater_ended a1 \<and> \<not> as_deflate_desynced a"
    "\<not> as_reset_each a" "as_inflater a \<noteq> None"
  shows "\<not> message_evidence_reliable msg \<and> as_deflate_desynced (fst (accept_all fl a1 fs)) \<and>
     (\<forall>later \<in> set (snd (accept_all fl a1 fs)). ms_compressed later \<longrightarrow> \<not> message_evidence_reliable later)"
  using accept_marks [OF assms(1,2,4,5,3)] desync_stays by blast

theorem lost_context_stays_lost_witness:
  "\<exists>a1 msg a2 later. accept flate_copy (assembler_new flate_copy ServerToClient (deflate_default\<lparr>dp_enabled := True\<rparr>))
      ((sample_frame OpText True True [1])\<lparr>rf_truncated := True\<rparr>) = (a1, Some msg) \<and> \<not> message_evidence_reliable msg \<and>
     accept_all flate_copy a1 [sample_frame OpText True True [2]] = (a2, [later]) \<and>
     ms_compressed later \<and> \<not> message_evidence_reliable later"
proof -
  let ?a = "assembler_new flate_copy ServerToClient (deflate_default\<lparr>dp_enabled := True\<rparr>)"
  let ?f = "(sample_frame OpText True True [1])\<lparr>rf_truncated := True\<rparr>"
  note steps = accept_start continue_active_def append_frame_def active_new_def finish_message_def message_of_active_def
    finish_undecoded_def add_message_violation_def mark_deflate_desynced_def Let_def RETAIN_CAP_def COMPRESSED_ACCUM_CAP_def
  have fields: "\<not> as_reset_each ?a" "as_inflater ?a \<noteq> None"
    by (simp_all add: assembler_new_def deflate_default_def Let_def)
  obtain a1 msg where first: "accept flate_copy ?a ?f = (a1, Some msg)" "ms_compressed msg" "\<not> ms_decompressed msg"
    "as_deflate_desynced a1" "dp_enabled (as_deflate a1)"
    using fields(1) by (simp add: steps)
  obtain a2 later where run: "accept_all flate_copy a1 [sample_frame OpText True True [2]] = (a2, [later])" "ms_compressed later"
    using first(4,5) by (simp add: steps)
  show ?thesis
    using lost_context_stays_lost [OF first(1,2) _ fields, of "[sample_frame OpText True True [2]]"] first run by auto
qed

section \<open>Reliable text is UTF-8\<close>

lemma continue_text:
  assumes "continue_active fl b act g = (b', Some msg)" "ms_opcode msg = OpText"
    "message_evidence_reliable msg"
  shows "utf8_valid (ms_payload msg)"
proof -
  have fin: "finish_message fl b (append_frame b act g) = (b', msg)"
    using assms(1) by (auto simp: continue_active_def Let_def split: if_splits prod.splits)
  then show ?thesis
    using finished_text [OF fin] finish_message_frame(6) [OF fin] assms(2,3) by simp
qed

text \<open>
  A text message the assembler hands out as reliable evidence carries valid
  UTF-8, compressed or not.
\<close>

theorem reliable_text_is_utf8:
  assumes "accept fl a f = (a', Some msg)" "ms_opcode msg = OpText" "message_evidence_reliable msg"
  shows "from_utf8 (ms_payload msg) = Some (bytes_str (ms_payload msg))"
proof -
  have "utf8_valid (ms_payload msg)"
  proof (cases rule: accept_cases [where f = f and a = a])
    case control
    then show ?thesis using assms by (auto simp: accept_control control_message_def)
  next
    case (reserved c)
    then show ?thesis using assms by (simp add: accept_reserved)
  next
    case start
    then show ?thesis using assms continue_text unfolding accept_start [OF start] by blast
  next
    case orphan
    then show ?thesis using assms by (simp add: accept_orphan)
  next
    case (continuation active)
    then show ?thesis
      using assms continue_text unfolding accept_continuation [OF continuation] by blast
  qed
  then show ?thesis by (simp add: from_utf8_def)
qed

theorem reliable_text_is_utf8_witness:
  "\<exists>a' msg. accept flate_copy (assembler_new flate_copy ServerToClient deflate_default)
      (sample_frame OpText True False [72, 105]) = (a', Some msg) \<and>
     from_utf8 (ms_payload msg) = Some (bytes_str [72, 105])"
proof -
  obtain a' msg where run: "accept flate_copy (assembler_new flate_copy ServerToClient deflate_default)
      (sample_frame OpText True False [72, 105]) = (a', Some msg)"
    "ms_opcode msg = OpText" "message_evidence_reliable msg" "ms_payload msg = [72, 105]"
    by (simp add: accept_start continue_active_def append_frame_def active_new_def
        finish_message_def message_of_active_def validate_completed_text_def Let_def
        RETAIN_CAP_def COMPRESSED_ACCUM_CAP_def deflate_default_def validate_frame_def
        frame_findings_def message_evidence_reliable_def utf8_valid_def utf8_chars.simps
        u64_add_def)
  show ?thesis
    using reliable_text_is_utf8 [OF run(1-3)] run by simp
qed

section \<open>Bounds on what is kept\<close>

definition active_ok :: "active_message \<Rightarrow> bool" where
  "active_ok act \<longleftrightarrow>
     length (am_payload act) \<le> (if am_compressed act then COMPRESSED_ACCUM_CAP else RETAIN_CAP) \<and>
     length (am_frames act) \<le> MAX_RETAINED_FRAMES"

definition assembler_ok :: "'z assembler \<Rightarrow> bool" where
  "assembler_ok a \<longleftrightarrow> as_retain_cap a = RETAIN_CAP \<and> (\<forall>act. as_active a = Some act \<longrightarrow> active_ok act)"

definition message_ok :: "message \<Rightarrow> bool" where
  "message_ok msg \<longleftrightarrow>
     length (ms_payload msg) \<le> COMPRESSED_ACCUM_CAP \<and> length (ms_frames msg) \<le> MAX_RETAINED_FRAMES \<and>
     (\<not> is_control (ms_opcode msg) \<and> (\<not> ms_compressed msg \<or> ms_decompressed msg) \<longrightarrow>
        length (ms_payload msg) \<le> RETAIN_CAP)"

lemma append_frame_ok:
  "active_ok act \<Longrightarrow> as_retain_cap a = RETAIN_CAP \<Longrightarrow> active_ok (append_frame a act f)"
  by (auto simp: active_ok_def append_frame_def Let_def min_def)

lemma append_frame_kind [simp]:
  "am_opcode (append_frame a act f) = am_opcode act"
  "am_compressed (append_frame a act f) = am_compressed act"
  by (simp_all add: append_frame_def Let_def)

text \<open>The payload a message is completed with: its own bytes, or the retained output.\<close>

lemma undecoded_payload:
  "finish_undecoded a msg code detail desync = (a', msg') \<Longrightarrow>
   ms_payload msg' = ms_payload msg \<and> ms_decompressed msg' = ms_decompressed msg"
  by (auto simp: finish_undecoded_def add_message_violation_def)

lemma validated_payload:
  "validate_completed_text a msg = (a', msg') \<Longrightarrow>
   ms_payload msg' = ms_payload msg \<and> ms_decompressed msg' = ms_decompressed msg"
  by (auto simp: validate_completed_text_def add_message_violation_def split: if_splits)

lemma inflated_payload:
  assumes "finish_inflated a msg result = (a', msg')" "\<not> ms_decompressed msg"
    "\<And>res. result = Inr res \<Longrightarrow> length (ir_retained res) \<le> n"
  shows "ms_payload msg' = ms_payload msg \<and> \<not> ms_decompressed msg' \<or> length (ms_payload msg') \<le> n"
proof (cases result)
  case (Inl e)
  with assms(1,2) show ?thesis
    by (cases e) (auto simp: finish_inflated_def dest: undecoded_payload)
next
  case (Inr res)
  with assms show ?thesis
    by (auto simp: finish_inflated_def Let_def add_message_violation_def split: if_splits prod.splits
        dest!: undecoded_payload validated_payload)
qed

lemma inflate_retained: "inflate fl infl bs retain = (infl', Inr res) \<Longrightarrow> length (ir_retained res) \<le> retain"
  by (drule inflate_run) auto

lemma finished_payload:
  assumes "finish_message fl a act = (a', msg)"
  shows "ms_payload msg = am_payload act \<and> \<not> ms_decompressed msg \<or>
     length (ms_payload msg) \<le> as_retain_cap a"
proof -
  consider (plain) "\<not> am_compressed act" | (cut) "am_compressed act" "am_truncated act"
    | (desynced) "am_compressed act" "\<not> am_truncated act" "as_deflate_desynced a"
    | (none) "am_compressed act" "\<not> am_truncated act" "\<not> as_deflate_desynced a" "as_inflater a = None"
    | (some) infl where "am_compressed act" "\<not> am_truncated act" "\<not> as_deflate_desynced a"
        "as_inflater a = Some infl"
    by blast
  then show ?thesis
  proof cases
    case (some infl)
    obtain infl' result where run: "inflate fl infl (am_payload act) (as_retain_cap a) = (infl', result)"
      by fastforce
    then have kept: "length (ir_retained res) \<le> as_retain_cap a" if "result = Inr res" for res
      using that inflate_retained by blast
    have "finish_inflated (a\<lparr>as_inflater := Some infl'\<rparr>)
        ((message_of_active act)\<lparr>ms_wire_len := am_payload_len act\<rparr>) result = (a', msg)"
      using assms some run by (simp add: finish_message_def message_of_active_def Let_def)
    from inflated_payload [OF this _ kept] show ?thesis
      by (simp add: message_of_active_def)
  qed (use assms in \<open>auto simp: finish_message_def message_of_active_def Let_def
         dest!: undecoded_payload validated_payload\<close>)
qed

lemma continue_ok:
  assumes "assembler_ok b" "active_ok act" "\<not> is_control (am_opcode act)"
  shows "assembler_ok (fst (continue_active fl b act g)) \<and>
     (\<forall>msg. snd (continue_active fl b act g) = Some msg \<longrightarrow> message_ok msg)"
proof (cases "rf_fin g")
  case True
  let ?act = "append_frame b act g"
  have cap: "as_retain_cap b = RETAIN_CAP" and act: "active_ok ?act"
    using assms append_frame_ok by (auto simp: assembler_ok_def)
  obtain b' msg where fin: "finish_message fl b ?act = (b', msg)"
    by fastforce
  note fields = finish_message_frame [OF fin]
  have "RETAIN_CAP \<le> COMPRESSED_ACCUM_CAP"
    by (simp add: RETAIN_CAP_def COMPRESSED_ACCUM_CAP_def)
  then have "message_ok msg"
    using finished_payload [OF fin] act fields(6,7,8) cap
    by (auto simp: message_ok_def active_ok_def split: if_splits)
  then show ?thesis
    using True fin fields(1,2) assms(1) by (simp add: continue_active_def assembler_ok_def)
next
  case False
  then show ?thesis
    using assms append_frame_ok [of act b g] by (auto simp: continue_active_def assembler_ok_def Let_def)
qed

definition active_data :: "'z assembler \<Rightarrow> bool" where
  "active_data a \<longleftrightarrow> (\<forall>act. as_active a = Some act \<longrightarrow> \<not> is_control (am_opcode act))"

lemma continue_data:
  assumes "active_data b" "\<not> is_control (am_opcode act)"
  shows "active_data (fst (continue_active fl b act g))"
  using assms finish_message_frame(1) [of fl b "append_frame b act g"]
  by (cases "finish_message fl b (append_frame b act g)")
     (auto simp: continue_active_def active_data_def Let_def)

lemma accept_ok:
  assumes "assembler_ok a" "active_data a" "length (rf_payload f) \<le> COMPRESSED_ACCUM_CAP"
  shows "assembler_ok (fst (accept fl a f)) \<and> active_data (fst (accept fl a f)) \<and>
     (\<forall>msg. snd (accept fl a f) = Some msg \<longrightarrow> message_ok msg)"
proof -
  have noted: "assembler_ok (noted a f)" "active_data (noted a f)"
    using assms by (simp_all add: assembler_ok_def active_data_def)
  have taken: "assembler_ok ((noted a f)\<lparr>as_active := None\<rparr>)"
    "active_data ((noted a f)\<lparr>as_active := None\<rparr>)"
    using assms by (simp_all add: assembler_ok_def active_data_def)
  show ?thesis
  proof (cases rule: accept_cases [where f = f and a = a])
    case control
    then show ?thesis
      using noted assms(3)
      by (simp add: accept_control message_ok_def control_message_def MAX_RETAINED_FRAMES_def)
  next
    case (reserved c)
    then show ?thesis using noted by (simp add: accept_reserved)
  next
    case start
    have "active_ok (active_new (noted a f) (validate_frame a f))"
      "\<not> is_control (am_opcode (active_new (noted a f) (validate_frame a f)))"
      using start by (auto simp: active_ok_def active_new_def)
    then show ?thesis
      unfolding accept_start [OF start] using continue_ok continue_data noted by blast
  next
    case orphan
    then show ?thesis using noted by (simp add: accept_orphan)
  next
    case (continuation active)
    then have "active_ok active" "\<not> is_control (am_opcode active)"
      using assms by (auto simp: assembler_ok_def active_data_def)
    then show ?thesis
      unfolding accept_continuation [OF continuation] using continue_ok continue_data taken by blast
  qed
qed

lemma accept_all_ok:
  assumes "assembler_ok a" "active_data a" "\<forall>f\<in>set fs. length (rf_payload f) \<le> COMPRESSED_ACCUM_CAP"
  shows "assembler_ok (fst (accept_all fl a fs)) \<and> (\<forall>msg\<in>set (snd (accept_all fl a fs)). message_ok msg)"
  using assms
proof (induction fs arbitrary: a)
  case Nil
  then show ?case by simp
next
  case (Cons f fs)
  obtain a1 m where step: "accept fl a f = (a1, m)"
    by fastforce
  have "assembler_ok a1" "active_data a1" "\<forall>msg. m = Some msg \<longrightarrow> message_ok msg"
    using accept_ok [of a f fl] Cons.prems step by auto
  then show ?case
    using Cons.IH [of a1] Cons.prems step by (auto simp: Let_def split: prod.splits option.splits)
qed

text \<open>
  Whatever frames the peer sends, the assembler never holds more than the
  compressed budget (256 KiB) of a compressed message or the retain cap (64 KiB) of a plain one, nor
  the metadata of more than 256 frames; every message it hands out obeys the same bounds, and one
  that is plain or was inflated never carries more than 64 KiB.
\<close>

theorem assembler_bounded:
  assumes "\<forall>f\<in>set fs. length (rf_payload f) \<le> COMPRESSED_ACCUM_CAP"
  shows "assembler_ok (fst (accept_all fl (assembler_new fl dir params) fs)) \<and>
     (\<forall>msg\<in>set (snd (accept_all fl (assembler_new fl dir params) fs)). message_ok msg)"
  using assms by (intro accept_all_ok) (simp_all add: assembler_ok_def active_data_def)

theorem assembler_bounded_witness:
  "assembler_ok (fst (accept_all flate_copy (assembler_new flate_copy ServerToClient deflate_default)
     [sample_frame OpText False False [72]]))"
  using assembler_bounded [of "[sample_frame OpText False False [72]]" flate_copy ServerToClient
      deflate_default]
  by (simp add: COMPRESSED_ACCUM_CAP_def del: accept_all.simps)

section \<open>An interrupted message\<close>

lemma interrupted_finding:
  assumes "as_active a = Some old" "rf_opcode f = OpText \<or> rf_opcode f = OpBinary"
  shows "''new_data_frame_before_final_continuation'' \<in> pv_code ` set (frame_findings a f)"
proof -
  let ?v = "violation_message ''new_data_frame_before_final_continuation'' (rf_opcode f)
       (jobj [(''abandoned_fragmented_message'', JBool True)])"
  have third: "c \<Longrightarrow> v \<in> set (xs @ ys @ (if c then [v] else []) @ zs)"
    for c and v :: protocol_violation and xs ys zs
    by simp
  have "?v \<in> set (frame_findings a f)"
    unfolding frame_findings_def Let_def by (rule third) (use assms in simp)
  moreover have "pv_code ?v = ''new_data_frame_before_final_continuation''"
    by (simp add: violation_message_def)
  ultimately show ?thesis
    by (metis image_eqI)
qed

text \<open>
  A whole text or binary message that arrives while a fragmented
  one is in flight comes out with the finding that the fragmented one is abandoned, yet the fragments
  stay in flight: the assembler is not at a message boundary after it, and a later continuation
  resumes them.
\<close>

theorem whole_message_keeps_old_fragments:
  assumes "as_active a = Some old" "rf_opcode f = OpText \<or> rf_opcode f = OpBinary" "rf_fin f"
  shows "\<exists>a' msg. accept fl a f = (a', Some msg) \<and> as_active a' = Some old \<and>
     \<not> at_message_boundary a' \<and>
     ''new_data_frame_before_final_continuation'' \<in> set (map pv_code (frame_findings a f)) \<and>
     ms_protocol_violations msg \<noteq> []"
proof -
  let ?f = "validate_frame a f"
  let ?act = "append_frame (noted a f) (active_new (noted a f) ?f) ?f"
  obtain a' msg where fin: "finish_message fl (noted a f) ?act = (a', msg)"
    by fastforce
  have found: "''new_data_frame_before_final_continuation'' \<in> set (map pv_code (frame_findings a f))"
    using interrupted_finding [OF assms(1,2)] by (simp only: set_map)
  then have "am_protocol_violations ?act \<noteq> []"
    by (auto simp: append_frame_def Let_def validate_frame_def)
  then have "ms_protocol_violations msg \<noteq> []" "as_active a' = Some old"
    using finish_message_frame(1,11) [OF fin] assms(1) by auto
  then show ?thesis
    using fin found assms(3)
    by (simp add: accept_start [OF assms(2)] continue_active_def at_message_boundary_def)
qed

theorem whole_message_keeps_old_fragments_witness:
  "\<exists>a' msg. accept flate_copy
     ((assembler_new flate_copy ServerToClient deflate_default)
        \<lparr>as_active := Some (active_new (assembler_new flate_copy ServerToClient deflate_default)
           (sample_frame OpText False False [1]))\<rparr>)
     (sample_frame OpBinary True False [7]) = (a', Some msg) \<and> \<not> at_message_boundary a'"
  using whole_message_keeps_old_fragments [of "(assembler_new flate_copy ServerToClient deflate_default)
        \<lparr>as_active := Some (active_new (assembler_new flate_copy ServerToClient deflate_default)
           (sample_frame OpText False False [1]))\<rparr>" _ "sample_frame OpBinary True False [7]" flate_copy]
  by auto

section \<open>Frames that may be rewritten\<close>

text \<open>
  A frame the assembler judges safe to rewrite adds no finding when it is
  then accepted, unless it closes a fragmented or compressed message (whose content is only checked
  as a whole).
\<close>

theorem safe_to_manage_clean:
  assumes "safe_to_manage a frame" "\<not> mf_rsv1 frame"
    "mf_opcode frame = Continuation \<longrightarrow> \<not> mf_fin frame"
  shows "as_pending_violations (fst (accept fl a (managed_to_raw frame))) = as_pending_violations a \<and>
     (\<forall>msg. snd (accept fl a (managed_to_raw frame)) = Some msg \<longrightarrow> ms_protocol_violations msg = [])"
proof -
  let ?f = "managed_to_raw frame"
  have quiet: "rf_violations (validate_frame a ?f) = []"
    using assms(1) by (simp add: safe_to_manage_def Let_def)
  have fields: "rf_fin ?f = mf_fin frame" "rf_rsv1 ?f = mf_rsv1 frame" "rf_opcode ?f = mf_opcode frame"
    by (simp_all add: managed_to_raw_def Let_def)
  have utf8: "rf_truncated ?f \<or> utf8_valid (rf_payload ?f)" if "mf_fin frame" "mf_opcode frame = OpText"
    using assms(1,2) that fields by (simp add: safe_to_manage_def Let_def)
  show ?thesis
  proof (cases rule: accept_cases [where f = ?f and a = a])
    case control
    then show ?thesis using quiet by (simp add: accept_control control_message_def)
  next
    case (reserved c)
    then show ?thesis using quiet by (simp add: accept_reserved)
  next
    case start
    show ?thesis
      using quiet utf8 assms(2) start fields
      by (auto simp: accept_start [OF start] continue_active_def append_frame_def active_new_def Let_def
          finish_message_plain validate_completed_text_def message_of_active_def split: prod.splits)
  next
    case orphan
    then show ?thesis using quiet by (simp add: accept_orphan)
  next
    case (continuation active)
    then show ?thesis
      using quiet assms(3) continuation(1) fields
      by (simp add: accept_continuation [OF continuation] continue_active_def Let_def)
  qed
qed

theorem safe_to_manage_clean_witness:
  "as_pending_violations (fst (accept flate_copy (assembler_new flate_copy ServerToClient deflate_default)
     (managed_to_raw \<lparr>mf_fin = True, mf_rsv1 = False, mf_opcode = OpBinary, mf_masked = False,
        mf_violations = [], mf_payload = [7], mf_raw = [0x82, 1, 7]\<rparr>))) = []"
  using safe_to_manage_clean [of "assembler_new flate_copy ServerToClient deflate_default"
      "\<lparr>mf_fin = True, mf_rsv1 = False, mf_opcode = OpBinary, mf_masked = False,
        mf_violations = [], mf_payload = [7], mf_raw = [0x82, 1, 7]\<rparr>" flate_copy]
  by (simp add: safe_to_manage_def validate_frame_def frame_findings_def managed_to_raw_def
      COMPRESSED_ACCUM_CAP_def Let_def)

end
