(* ===== verification/WsBase64.thy ===== *)
theory WsBase64
  imports Prelude
begin

text \<open>
  The base64 codec of \<^verbatim>\<open>net/ws.rs\<close> (\<open>b64_encode\<close>, \<open>b64_decode\<close>). The shifts and disjunctions
  of the code act on disjoint groups of bits of a 24-bit value, so they are written as arithmetic.
\<close>

function chunks :: "nat \<Rightarrow> 'a list \<Rightarrow> 'a list list" where
  "chunks n xs = (if n = 0 \<or> xs = [] then [] else take n xs # chunks n (drop n xs))"
  by pat_completeness auto
termination
  by (relation "measure (\<lambda>(n, xs). length xs)") auto

declare chunks.simps [simp del]

lemma chunks_Nil [simp]: "chunks n [] = []"
  by (subst chunks.simps) simp

lemma chunks_append [simp]: "0 < n \<Longrightarrow> length xs = n \<Longrightarrow> chunks n (xs @ ys) = xs # chunks n ys"
  by (subst chunks.simps) auto

lemma chunks_unfold: "0 < n \<Longrightarrow> xs \<noteq> [] \<Longrightarrow> chunks n xs = take n xs # chunks n (drop n xs)"
  by (subst chunks.simps) simp

lemma concat_chunks [simp]: "0 < n \<Longrightarrow> concat (chunks n xs) = xs"
  by (induction n xs rule: chunks.induct) (subst chunks.simps, simp)

section \<open>Encoding\<close>

definition B64_ALPHABET :: string where
  "B64_ALPHABET = ''ABCDEFGHIJKLMNOPQRSTUVWXYZabcdefghijklmnopqrstuvwxyz0123456789+/''"

definition b64_encode_chunk :: "byte list \<Rightarrow> string" where
  "b64_encode_chunk chunk =
     (let byte_at = (\<lambda>i. if i < length chunk then unat (chunk ! i) else 0);
          triple = byte_at 0 * 2 ^ 16 + byte_at 1 * 2 ^ 8 + byte_at 2
      in [B64_ALPHABET ! (triple div 2 ^ 18 mod 64),
          B64_ALPHABET ! (triple div 2 ^ 12 mod 64),
          (if length chunk > 1 then B64_ALPHABET ! (triple div 2 ^ 6 mod 64) else CHR ''=''),
          (if length chunk > 2 then B64_ALPHABET ! (triple mod 64) else CHR ''='')])"

definition b64_encode :: "byte list \<Rightarrow> string" where
  "b64_encode data = concat (map b64_encode_chunk (chunks 3 data))"

section \<open>Decoding\<close>

definition b64_val :: "char \<Rightarrow> nat option" where
  "b64_val c =
     (let n = (of_char c :: nat) in
      if 65 \<le> n \<and> n \<le> 90 then Some (n - 65)
      else if 97 \<le> n \<and> n \<le> 122 then Some (n - 97 + 26)
      else if 48 \<le> n \<and> n \<le> 57 then Some (n - 48 + 52)
      else if c = CHR ''+'' then Some 62
      else if c = CHR ''/'' then Some 63
      else None)"

definition is_ascii_whitespace :: "char \<Rightarrow> bool" where
  "is_ascii_whitespace c \<longleftrightarrow> (of_char c :: nat) \<in> {32, 9, 10, 12, 13}"

fun b64_acc :: "string \<Rightarrow> nat \<Rightarrow> nat \<Rightarrow> (nat \<times> nat) option" where
  "b64_acc [] acc count = Some (acc, count)"
| "b64_acc (c # cs) acc count =
     (if c = CHR ''='' then Some (acc, count)
      else case b64_val c of
             None \<Rightarrow> None
           | Some v \<Rightarrow> b64_acc cs (acc * 64 + v) (count + 1))"

definition b64_decode_chunk :: "string \<Rightarrow> byte list option" where
  "b64_decode_chunk chunk =
     (if length chunk < 2 then None
      else case b64_acc chunk 0 0 of
             None \<Rightarrow> None
           | Some (acc0, count) \<Rightarrow>
               let acc = acc0 * 64 ^ (4 - count) in
               Some ((if count \<ge> 2 then [word_of_nat (acc div 2 ^ 16)] else []) @
                     (if count \<ge> 3 then [word_of_nat (acc div 2 ^ 8)] else []) @
                     (if count \<ge> 4 then [word_of_nat acc] else [])))"

fun b64_decode_chunks :: "string list \<Rightarrow> byte list option" where
  "b64_decode_chunks [] = Some []"
| "b64_decode_chunks (c # cs) =
     (case b64_decode_chunk c of
        None \<Rightarrow> None
      | Some bs \<Rightarrow> map_option (\<lambda>rest. bs @ rest) (b64_decode_chunks cs))"

definition b64_decode :: "string \<Rightarrow> byte list option" where
  "b64_decode input =
     b64_decode_chunks (chunks 4 (filter (\<lambda>b. \<not> is_ascii_whitespace b) input))"

section \<open>Round trip\<close>

lemma alphabet_vals: "map b64_val B64_ALPHABET = map Some [0..<64]"
  by (simp add: B64_ALPHABET_def b64_val_def upt_rec Let_def)

lemma alphabet_length [simp]: "length B64_ALPHABET = 64"
  by (simp add: B64_ALPHABET_def)

lemma alphabet [simp]:
  assumes "v < 64"
  shows "b64_val (B64_ALPHABET ! v) = Some v"
  using arg_cong [OF alphabet_vals, of "\<lambda>xs. xs ! v"] assms by simp

lemma not_alphabet: "b64_val CHR ''='' = None" "is_ascii_whitespace c \<Longrightarrow> b64_val c = None"
proof -
  show "b64_val CHR ''='' = None"
    by (simp add: b64_val_def)
  assume "is_ascii_whitespace c"
  moreover have "c \<noteq> CHR ''+''" "c \<noteq> CHR ''/''" if "is_ascii_whitespace c"
    using that by (auto simp: is_ascii_whitespace_def)
  ultimately show "b64_val c = None"
    by (auto simp: b64_val_def is_ascii_whitespace_def Let_def)
qed

lemma alphabet_clean [simp]:
  assumes "v < 64"
  shows "B64_ALPHABET ! v \<noteq> CHR ''=''" "\<not> is_ascii_whitespace (B64_ALPHABET ! v)"
  using alphabet [OF assms] not_alphabet by (metis option.distinct(1))+

lemma pad_not_space [simp]: "\<not> is_ascii_whitespace CHR ''=''"
  by (simp add: is_ascii_whitespace_def)

lemma encoded_chunk_clean [simp]:
  "filter (\<lambda>b. \<not> is_ascii_whitespace b) (b64_encode_chunk chunk) = b64_encode_chunk chunk"
  "length (b64_encode_chunk chunk) = 4"
  by (simp_all add: b64_encode_chunk_def Let_def)

lemma byte_of_sum [simp]: "word_of_nat (m * 256 + unat (b :: byte)) = b"
proof -
  have "unat (word_of_nat (m * 256 + unat b) :: byte) = (m * 256 + unat b) mod 2 ^ LENGTH(8)"
    by (rule unat_of_nat)
  then show ?thesis by (simp only: word_unat_eq_iff) simp
qed

text \<open>A 24-bit value and its four groups of six bits, named so that they stay opaque.\<close>

lemma sextets:
  fixes t :: nat
  assumes "t < 2 ^ 24"
  obtains x y z w where "x < 64" "y < 64" "z < 64" "w < 64"
    "t div 2 ^ 18 mod 64 = x" "t div 2 ^ 12 mod 64 = y" "t div 2 ^ 6 mod 64 = z" "t mod 64 = w"
    "((x * 64 + y) * 64 + z) * 64 + w = t"
proof -
  define u v w where "u = t div 64" and "v = u div 64" and "w = v div 64"
  have shifts: "t div 2 ^ 6 = u" "t div 2 ^ 12 = v" "t div 2 ^ 18 = w"
    by (simp_all add: u_def v_def w_def flip: div_mult2_eq)
  have "w < 64"
    using assms by (simp add: u_def v_def w_def less_mult_imp_div_less flip: div_mult2_eq)
  moreover have eqs: "w * 64 + v mod 64 = v" "v * 64 + u mod 64 = u" "u * 64 + t mod 64 = t"
    by (simp_all only: u_def v_def w_def div_mult_mod_eq)
  ultimately show thesis
    by (intro that [of w "v mod 64" "u mod 64" "t mod 64"]) (simp_all only: shifts eqs, simp_all)
qed

lemma decode_sextets:
  assumes "x < 64" "y < 64" "z < 64" "w < 64"
  shows "b64_decode_chunk [B64_ALPHABET ! x, B64_ALPHABET ! y, CHR ''='', CHR ''=''] =
      Some [word_of_nat ((x * 64 + y) * 64 ^ 2 div 2 ^ 16)]"
    "b64_decode_chunk [B64_ALPHABET ! x, B64_ALPHABET ! y, B64_ALPHABET ! z, CHR ''=''] =
      Some [word_of_nat (((x * 64 + y) * 64 + z) * 64 div 2 ^ 16),
            word_of_nat (((x * 64 + y) * 64 + z) * 64 div 2 ^ 8)]"
    "b64_decode_chunk [B64_ALPHABET ! x, B64_ALPHABET ! y, B64_ALPHABET ! z, B64_ALPHABET ! w] =
      Some [word_of_nat ((((x * 64 + y) * 64 + z) * 64 + w) div 2 ^ 16),
            word_of_nat ((((x * 64 + y) * 64 + z) * 64 + w) div 2 ^ 8),
            word_of_nat (((x * 64 + y) * 64 + z) * 64 + w)]"
  using assms by (simp_all add: b64_decode_chunk_def Let_def)

lemma three_bytes:
  fixes a b c :: byte
  defines "t \<equiv> unat a * 2 ^ 16 + unat b * 2 ^ 8 + unat c"
  shows "t < 2 ^ 24" "t div 2 ^ 16 = unat a" "t div 2 ^ 8 = unat a * 256 + unat b"
proof -
  note less = unat_byte_less [of a] unat_byte_less [of b] unat_byte_less [of c]
  show "t < 2 ^ 24"
    unfolding t_def using less by (simp del: unat_byte_less)
  show "t div 2 ^ 16 = unat a" "t div 2 ^ 8 = unat a * 256 + unat b"
    unfolding t_def using less by (intro div_nat_eqI; simp del: unat_byte_less)+
qed

lemma decode_encoded_chunk:
  assumes "chunk \<noteq> []" "length chunk \<le> 3"
  shows "b64_decode_chunk (b64_encode_chunk chunk) = Some chunk"
proof -
  consider a where "chunk = [a]" | a b where "chunk = [a, b]" | a b c where "chunk = [a, b, c]"
    using assms by (cases chunk; cases "tl chunk"; cases "tl (tl chunk)") auto
  then show ?thesis
  proof cases
    case (1 a)
    define t where "t = unat a * 2 ^ 16"
    have t: "t < 2 ^ 24" "t mod 64 = 0" "t div 2 ^ 6 mod 64 = 0" "t div 2 ^ 16 = unat a"
      using unat_byte_less [of a] by (simp_all add: t_def)
    obtain x y z w where six: "x < 64" "y < 64" "z < 64" "w < 64" "t div 2 ^ 18 mod 64 = x"
      "t div 2 ^ 12 mod 64 = y" "t div 2 ^ 6 mod 64 = z" "t mod 64 = w"
      "((x * 64 + y) * 64 + z) * 64 + w = t"
      by (rule sextets [OF t(1)])
    have "b64_encode_chunk chunk = [B64_ALPHABET ! x, B64_ALPHABET ! y, CHR ''='', CHR ''='']"
      unfolding six(5,6) [symmetric] using 1 by (simp add: b64_encode_chunk_def Let_def t_def)
    moreover have "(x * 64 + y) * 64 ^ 2 = t"
      using six t by (simp add: power2_eq_square)
    ultimately show ?thesis
      using decode_sextets(1) [OF six(1-4)] t(4) 1 by simp
  next
    case (2 a b)
    define t where "t = unat a * 2 ^ 16 + unat b * 2 ^ 8"
    have "t = (unat a * 2 ^ 10 + unat b * 2 ^ 2) * 64"
      by (simp add: t_def)
    then have t: "t mod 64 = 0" "t div 2 ^ 16 = unat a" "t div 2 ^ 8 = unat a * 256 + unat b"
      using unat_byte_less [of a] unat_byte_less [of b] by (simp_all add: t_def)
    have "t < 2 ^ 24"
      unfolding t_def using unat_byte_less [of a] unat_byte_less [of b]
      by (simp del: unat_byte_less)
    obtain x y z w where six: "x < 64" "y < 64" "z < 64" "w < 64" "t div 2 ^ 18 mod 64 = x"
      "t div 2 ^ 12 mod 64 = y" "t div 2 ^ 6 mod 64 = z" "t mod 64 = w"
      "((x * 64 + y) * 64 + z) * 64 + w = t"
      by (rule sextets [OF \<open>t < 2 ^ 24\<close>])
    have "b64_encode_chunk chunk = [B64_ALPHABET ! x, B64_ALPHABET ! y, B64_ALPHABET ! z, CHR ''='']"
      unfolding six(5,6,7) [symmetric] using 2 by (simp add: b64_encode_chunk_def Let_def t_def)
    moreover have "((x * 64 + y) * 64 + z) * 64 = t"
      using six t by simp
    moreover have "word_of_nat (t div 2 ^ 16) = a" "word_of_nat (t div 2 ^ 8) = b"
      unfolding t by (simp, rule byte_of_sum)
    ultimately show ?thesis
      using decode_sextets(2) [OF six(1-4)] by (simp only: 2)
  next
    case (3 a b c)
    define t where "t = unat a * 2 ^ 16 + unat b * 2 ^ 8 + unat c"
    have t: "t < 2 ^ 24" "t div 2 ^ 16 = unat a" "t div 2 ^ 8 = unat a * 256 + unat b"
      "(unat a * 256 + unat b) * 256 + unat c = t"
      using three_bytes [of a b c] by (simp_all add: t_def)
    obtain x y z w where six: "x < 64" "y < 64" "z < 64" "w < 64" "t div 2 ^ 18 mod 64 = x"
      "t div 2 ^ 12 mod 64 = y" "t div 2 ^ 6 mod 64 = z" "t mod 64 = w"
      "((x * 64 + y) * 64 + z) * 64 + w = t"
      by (rule sextets [OF t(1)])
    have "b64_encode_chunk chunk =
        [B64_ALPHABET ! x, B64_ALPHABET ! y, B64_ALPHABET ! z, B64_ALPHABET ! w]"
      unfolding six(5-8) [symmetric] using 3 by (simp add: b64_encode_chunk_def Let_def t_def)
    moreover have "word_of_nat (t div 2 ^ 16) = a" "word_of_nat (t div 2 ^ 8) = b"
      unfolding t by (simp, rule byte_of_sum)
    moreover have "word_of_nat t = c"
      unfolding t(4) [symmetric] by (rule byte_of_sum)
    ultimately show ?thesis
      using decode_sextets(3) [OF six(1-4)] by (simp only: 3 six(9))
  qed
qed

lemma filter_concat_clean:
  "\<forall>c\<in>set cs. filter P c = c \<Longrightarrow> filter P (concat cs) = concat cs"
  by (induction cs) auto

lemma chunks_concat:
  "\<forall>c\<in>set cs. length c = n \<Longrightarrow> 0 < n \<Longrightarrow> chunks n (concat cs) = cs"
  by (induction cs) auto

lemma chunk_bounds: "0 < n \<Longrightarrow> c \<in> set (chunks n xs) \<Longrightarrow> c \<noteq> [] \<and> length c \<le> n"
proof (induction n xs rule: chunks.induct)
  case (1 n xs)
  then show ?case
    by (cases "xs = []") (auto simp: chunks_unfold)
qed

lemma decode_encoded_chunks:
  "\<forall>c\<in>set cs. c \<noteq> [] \<and> length c \<le> 3 \<Longrightarrow>
   b64_decode_chunks (map b64_encode_chunk cs) = Some (concat cs)"
  by (induction cs) (auto simp: decode_encoded_chunk)

lemma b64_decode_encode: "b64_decode (b64_encode data) = Some data"
proof -
  have "b64_decode (b64_encode data) = b64_decode_chunks (map b64_encode_chunk (chunks 3 data))"
    by (simp add: b64_decode_def b64_encode_def filter_concat_clean chunks_concat)
  also have "\<dots> = Some (concat (chunks 3 data))"
    using chunk_bounds [of 3] by (intro decode_encoded_chunks) auto
  finally show ?thesis by simp
qed

text \<open>
  Base64 is lossless: decoding the encoding of any bytes gives them back. It rests
  on no hypothesis, so the binary artifact of a record always yields the retained bytes.
\<close>

theorem b64_roundtrip: "b64_decode (b64_encode data) = Some data"
  by (rule b64_decode_encode)

lemma b64_encode_length: "length (b64_encode data) = 4 * length (chunks 3 data)"
  by (simp add: b64_encode_def length_concat comp_def sum_list_triv)

end
