(* ===== verification/WsRender.thy ===== *)
theory WsRender
  imports WsBase64 Utf8
begin

text \<open>
  Rendering of a payload for \<open>net show --format\<close> (\<^verbatim>\<open>net/ws.rs\<close>): the hexdump, the variable-length
  integers of the protobuf wire format, the schemaless protobuf decoder and \<open>render_payload\<close>. The
  JSON parser of \<open>serde_json\<close> is a parameter.
\<close>

section \<open>Hexdump\<close>

fun hex_lower :: "nat \<Rightarrow> string" where
  "hex_lower n =
     (if n < 16 then [hex_digit n] else hex_lower (n div 16) @ [hex_digit (n mod 16)])"

declare hex_lower.simps [simp del]

definition pad_left :: "nat \<Rightarrow> char \<Rightarrow> string \<Rightarrow> string" where
  "pad_left width c s = replicate (width - length s) c @ s"

definition hex_cell :: "byte list \<Rightarrow> nat \<Rightarrow> string" where
  "hex_cell chunk column =
     (if column < length chunk then hex_pad 2 (unat (chunk ! column)) @ '' '' else ''   '') @
     (if column = 7 then '' '' else '''')"

definition ascii_cell :: "byte \<Rightarrow> char" where
  "ascii_cell b = (if 0x20 \<le> unat b \<and> unat b < 0x7f then byte_char b else CHR ''.'')"

definition hexdump_row :: "nat \<Rightarrow> byte list \<Rightarrow> string" where
  "hexdump_row row chunk =
     pad_left 8 CHR ''0'' (hex_lower (row * 16)) @ ''  '' @ concat (map (hex_cell chunk) [0..<16]) @
     '' '' @ map ascii_cell chunk @ [CHR 0x0A]"

fun hexdump_rows :: "nat \<Rightarrow> byte list list \<Rightarrow> string" where
  "hexdump_rows row [] = []"
| "hexdump_rows row (chunk # rest) = hexdump_row row chunk @ hexdump_rows (row + 1) rest"

definition hexdump :: "byte list \<Rightarrow> string" where
  "hexdump data = hexdump_rows 0 (chunks 16 data)"

definition is_printable :: "string \<Rightarrow> bool" where
  "is_printable s \<longleftrightarrow>
     s \<noteq> [] \<and> list_all (\<lambda>ch. \<not> char_is_control ch \<or> char_is_whitespace ch) (str_chars s)"

section \<open>Protobuf\<close>

text \<open>
  \<open>read_varint\<close> on the bytes from the position on: the value and the bytes left. The 7-bit groups
  are disjoint, so the disjunction is a sum; bits shifted beyond the 64th are lost.
\<close>

fun read_varint_loop :: "byte list \<Rightarrow> nat \<Rightarrow> nat \<Rightarrow> (nat \<times> byte list) option" where
  "read_varint_loop [] result shift = None"
| "read_varint_loop (b # bs) result shift =
     (if shift \<ge> 64 then None
      else let result' = (result + unat (b AND 0x7f) * 2 ^ shift) mod 2 ^ 64
           in if b AND 0x80 = 0 then Some (result', bs)
              else read_varint_loop bs result' (shift + 7))"

definition read_varint :: "byte list \<Rightarrow> (nat \<times> byte list) option" where
  "read_varint buf = read_varint_loop buf 0 0"

text \<open>
  Slicing with the end before the start, or beyond the buffer, panics; the outcome of the decoder is
  a panic or the value it returns.
\<close>

datatype 'a outcome = Panic | Returned 'a

lemma read_varint_loop_shrinks:
  "read_varint_loop bs r s = Some (v, rest) \<Longrightarrow> length rest < length bs"
  by (induction bs r s rule: read_varint_loop.induct) (auto simp: Let_def split: if_splits)

lemma read_varint_shrinks: "read_varint bs = Some (v, rest) \<Longrightarrow> length rest < length bs"
  by (simp add: read_varint_def read_varint_loop_shrinks)

definition proto_insert :: "string \<Rightarrow> json \<Rightarrow> (string \<times> json) list \<Rightarrow> (string \<times> json) list" where
  "proto_insert key value fields =
     (case map_of fields key of
        None \<Rightarrow> obj_put key value fields
      | Some (JArr items) \<Rightarrow> obj_put key (JArr (items @ [value])) fields
      | Some prev \<Rightarrow> obj_put key (JArr [prev, value]) fields)"

datatype proto_field = ScalarField json "byte list" | BytesField "byte list" "byte list"

text \<open>
  The value of one field on the wire, with the bytes after it; \<open>whole\<close> is the length of the whole
  buffer, so that the position is \<open>whole\<close> less what is left. \<open>pos + len\<close> wraps at 64 bits.
\<close>

definition proto_wire :: "nat \<Rightarrow> nat \<Rightarrow> byte list \<Rightarrow> proto_field option outcome" where
  "proto_wire whole wire rest =
     (if wire = 0 then
        (case read_varint rest of
           None \<Rightarrow> Returned None
         | Some (v, rest') \<Rightarrow> Returned (Some (ScalarField (jnat v) rest')))
      else if wire = 1 then
        (if length rest < 8 then Returned None
         else Returned (Some (ScalarField (jnat (le_nat (take 8 rest))) (drop 8 rest))))
      else if wire = 5 then
        (if length rest < 4 then Returned None
         else Returned (Some (ScalarField (jnat (le_nat (take 4 rest))) (drop 4 rest))))
      else if wire = 2 then
        (case read_varint rest of
           None \<Rightarrow> Returned None
         | Some (len, rest') \<Rightarrow>
             let pos = whole - length rest'; stop = u64_add pos len in
             if stop > whole then Returned None
             else if stop < pos then Panic
             else Returned (Some (BytesField (take (stop - pos) rest') (drop (stop - pos) rest'))))
      else Returned None)"

lemma proto_wire_bytes:
  assumes "proto_wire whole wire rest = Returned (Some (BytesField sub rest'))"
  obtains len bs k where "read_varint rest = Some (len, bs)" "sub = take k bs" "rest' = drop k bs"
  using assms by (auto simp: proto_wire_def Let_def split: if_splits option.splits)

lemma proto_wire_scalar:
  "proto_wire whole wire rest = Returned (Some (ScalarField v rest')) \<Longrightarrow> length rest' \<le> length rest"
  by (auto simp: proto_wire_def Let_def split: if_splits option.splits dest: read_varint_shrinks)

lemma proto_wire_shrinks:
  assumes "proto_wire whole wire rest = Returned (Some (BytesField sub rest'))"
  shows "length rest' \<le> length rest" "length sub \<le> length rest"
proof -
  obtain len bs k where "read_varint rest = Some (len, bs)" "sub = take k bs" "rest' = drop k bs"
    using assms by (rule proto_wire_bytes)
  then have "length bs < length rest" "length sub \<le> length bs" "length rest' \<le> length bs"
    using read_varint_shrinks by auto
  then show "length rest' \<le> length rest" "length sub \<le> length rest"
    by linarith+
qed

definition proto_bytes :: "byte list \<Rightarrow> json option \<Rightarrow> json" where
  "proto_bytes sub nested =
     (case nested of
        Some v \<Rightarrow> v
      | None \<Rightarrow>
          (case from_utf8 sub of
             Some s \<Rightarrow> JStr s
           | None \<Rightarrow> jobj [(''bytes_b64'', JStr (b64_encode sub))]))"

definition proto_plain_text :: "byte list \<Rightarrow> string option" where
  "proto_plain_text sub =
     (case from_utf8 sub of None \<Rightarrow> None | Some s \<Rightarrow> if is_printable s then Some s else None)"

text \<open>
  The loop of \<open>protobuf_decode\<close> over the bytes left, with the fields collected so far; a nested
  message is decoded by the same loop on the slice.
\<close>

function proto_loop ::
  "nat \<Rightarrow> byte list \<Rightarrow> (string \<times> json) list \<Rightarrow> json option outcome" where
  "proto_loop whole rest fields =
     (if rest = [] then Returned (if fields = [] then None else Some (JObj fields))
      else case read_varint rest of
        None \<Rightarrow> Returned None
      | Some (tag, rest1) \<Rightarrow>
          if tag div 8 = 0 then Returned None
          else
            let key = ''field_'' @ dec_digits (tag div 8) in
            (case proto_wire whole (tag mod 8) rest1 of
               Panic \<Rightarrow> Panic
             | Returned None \<Rightarrow> Returned None
             | Returned (Some (ScalarField v rest2)) \<Rightarrow>
                 proto_loop whole rest2 (proto_insert key v fields)
             | Returned (Some (BytesField sub rest2)) \<Rightarrow>
                 (case proto_plain_text sub of
                    Some s \<Rightarrow> proto_loop whole rest2 (proto_insert key (JStr s) fields)
                  | None \<Rightarrow>
                      (case (if sub = [] then Returned None else proto_loop (length sub) sub []) of
                         Panic \<Rightarrow> Panic
                       | Returned nested \<Rightarrow>
                           proto_loop whole rest2 (proto_insert key (proto_bytes sub nested) fields)))))"
  by pat_completeness auto
termination
  by (relation "measure (\<lambda>(whole, rest, fields). length rest)")
     (fastforce dest: read_varint_shrinks proto_wire_shrinks proto_wire_scalar)+

declare proto_loop.simps [simp del]

definition protobuf_decode :: "byte list \<Rightarrow> json option outcome" where
  "protobuf_decode data =
     (if data = [] then Returned None else proto_loop (length data) data [])"

section \<open>Rendering\<close>

definition render_payload ::
  "(byte list \<Rightarrow> json option) \<Rightarrow> byte list \<Rightarrow> string \<Rightarrow> (json \<times> string option) outcome" where
  "render_payload parse_json payload format =
     (if format = ''hex'' then Returned (JStr (hexdump payload), None)
      else if format = ''json'' then
        (case parse_json payload of
           Some value \<Rightarrow> Returned (value, None)
         | None \<Rightarrow> Returned (JStr (hexdump payload), Some ''payload is not valid JSON; showing hex''))
      else if format = ''protobuf'' then
        (case protobuf_decode payload of
           Panic \<Rightarrow> Panic
         | Returned (Some value) \<Rightarrow> Returned (value, None)
         | Returned None \<Rightarrow>
             Returned (JStr (hexdump payload),
               Some ''payload did not parse as protobuf; showing hex''))
      else Returned (JStr (hexdump payload), Some (''unknown format `'' @ format @ ''`; showing hex'')))"

section \<open>Variable-length integers\<close>

text \<open>The reference encoding (little-endian base 128) that \<open>read_varint\<close> inverts.\<close>

fun leb128 :: "nat \<Rightarrow> byte list" where
  "leb128 n = (if n < 128 then [word_of_nat n]
               else word_of_nat (128 + n mod 128) # leb128 (n div 128))"

declare leb128.simps [simp del]

lemma low7: "unat ((b :: byte) AND 0x7f) = unat b mod 128"
proof -
  have "b AND 0x7f = take_bit 7 b"
    by (simp add: take_bit_eq_mask mask_eq_exp_minus_1)
  then have "unat (b AND 0x7f) = take_bit 7 (unat b)"
    by (simp only: unsigned_take_bit_eq)
  then show ?thesis
    by (simp add: take_bit_eq_mod)
qed

lemma high_bit: "(b :: byte) AND 0x80 = 0 \<longleftrightarrow> unat b < 128"
proof -
  have "b AND 2 ^ 7 = 0 \<longleftrightarrow> \<not> bit b 7"
    by (rule and_exp_eq_0_iff_not_bit)
  also have "bit b 7 \<longleftrightarrow> bit (unat b) 7"
    by (simp add: bit_unsigned_iff)
  also have "\<dots> \<longleftrightarrow> \<not> unat b < 128"
  proof (cases "unat b < 128")
    case False
    then have "unat b div 2 ^ 7 = 1"
      using unat_byte_less [of b] by (intro div_nat_eqI) (simp_all del: unat_byte_less)
    then show ?thesis using False by (simp add: bit_iff_odd)
  qed (simp add: bit_iff_odd)
  finally show ?thesis by simp
qed

lemma read_varint_loop_leb128:
  assumes "n * 2 ^ shift < 2 ^ 64" "result < 2 ^ shift" "shift < 64"
  shows "read_varint_loop (leb128 n @ rest) result shift = Some (result + n * 2 ^ shift, rest)"
  using assms
proof (induction n arbitrary: result shift rule: leb128.induct)
  case (1 n)
  have room: "(n + 1) * 2 ^ shift \<le> 2 ^ 64"
  proof -
    have split: "(2 :: nat) ^ 64 = 2 ^ (64 - shift) * 2 ^ shift"
      using 1(4) by (simp flip: power_add)
    then have "n < 2 ^ (64 - shift)"
      using 1(2) by (metis mult_less_cancel2)
    then show ?thesis
      unfolding split by (intro mult_le_mono1) simp
  qed
  have low: "result + n mod 128 * 2 ^ shift < (n mod 128 + 1) * 2 ^ shift"
    using 1(3) by simp
  also have "\<dots> \<le> (n + 1) * 2 ^ shift"
    by (intro mult_le_mono1) (simp add: mod_less_eq_dividend)
  also note room
  finally have small: "(result + n mod 128 * 2 ^ shift) mod 2 ^ 64 = result + n mod 128 * 2 ^ shift"
    by (rule mod_less)
  show ?case
  proof (cases "n < 128")
    case True
    then show ?thesis
      using 1(4) small by (subst leb128.simps) (simp add: low7 high_bit unat_of_nat Let_def)
  next
    case False
    have div: "n = n div 128 * 128 + n mod 128"
      by simp
    have step: "n div 128 * 2 ^ (shift + 7) + n mod 128 * 2 ^ shift = n * 2 ^ shift"
      by (subst (3) div) (simp only: add_mult_distrib power_add mult.assoc, simp)
    have "2 ^ (shift + 7) = 128 * (2 :: nat) ^ shift"
      by (simp add: power_add)
    also have "\<dots> \<le> n * 2 ^ shift"
      using False by (intro mult_le_mono1) simp
    also note 1(2)
    finally have "shift + 7 < 64"
      by (rule power_less_imp_less_exp [rotated]) simp
    moreover have "(n mod 128 + 1) * 2 ^ shift \<le> 2 ^ (shift + 7)"
      unfolding power_add by (simp only: mult.commute [of _ "2 ^ shift"]) (intro mult_le_mono2, simp add: Suc_leI)
    ultimately have "read_varint_loop (leb128 (n div 128) @ rest)
        (result + n mod 128 * 2 ^ shift) (shift + 7) =
        Some (result + n mod 128 * 2 ^ shift + n div 128 * 2 ^ (shift + 7), rest)"
      using 1(2) step low by (intro 1(1)) (simp_all add: False)
    moreover have "unat (word_of_nat (128 + n mod 128) :: byte) = 128 + n mod 128"
      by (subst unat_of_nat) simp
    then have "\<exists>b :: byte. word_of_nat (128 + n mod 128) = b \<and> unat b = 128 + n mod 128"
      by blast
    ultimately show ?thesis
      using False 1(4) small step
      by (subst leb128.simps) (auto simp: low7 high_bit Let_def simp del: of_nat_add)
  qed
qed

text \<open>
  The variable-length integer reader inverts the base-128 encoding of every
  64-bit value, leaving what follows it untouched.
\<close>

theorem varint_roundtrip: "n < 2 ^ 64 \<Longrightarrow> read_varint (leb128 n @ rest) = Some (n, rest)"
  using read_varint_loop_leb128 [of n 0 0 rest] by (simp add: read_varint_def)

theorem varint_roundtrip_witness: "read_varint (leb128 300 @ [7]) = Some (300, [7])"
  by (rule varint_roundtrip) simp

lemma read_varint_loop_bounds:
  "read_varint_loop bs r s = Some (v, rest) \<Longrightarrow>
   v < 2 ^ 64 \<and> length rest < length bs \<and> s + 7 * (length bs - length rest) \<le> 70 \<and>
   (r < 2 ^ s \<longrightarrow> v < 2 ^ (s + 7 * (length bs - length rest)))"
proof (induction bs r s rule: read_varint_loop.induct)
  case (1 r s)
  then show ?case by simp
next
  case (2 b bs r s)
  let ?r = "(r + unat (b AND 0x7f) * 2 ^ s) mod 2 ^ 64"
  have small: "s < 64"
    using 2(2) by (simp split: if_splits)
  have next_less: "?r < 2 ^ (s + 7)" if "r < 2 ^ s"
  proof -
    have "r + unat b mod 128 * 2 ^ s < (unat b mod 128 + 1) * 2 ^ s"
      using that by simp
    also have "\<dots> \<le> 128 * 2 ^ s"
      by (intro mult_le_mono1) (simp add: Suc_leI)
    finally show ?thesis
      unfolding low7 by (intro le_less_trans [OF mod_less_eq_dividend]) (simp add: power_add mult.commute)
  qed
  show ?case
  proof (cases "b AND 0x80 = 0")
    case True
    then show ?thesis
      using 2(2) small next_less by (auto simp: Let_def)
  next
    case False
    then have "read_varint_loop bs ?r (s + 7) = Some (v, rest)"
      using 2(2) small by (simp add: Let_def)
    from 2(1) [OF _ refl False this]
    have "v < 2 ^ 64 \<and> length rest < length bs \<and> s + 7 + 7 * (length bs - length rest) \<le> 70 \<and>
      (?r < 2 ^ (s + 7) \<longrightarrow> v < 2 ^ (s + 7 + 7 * (length bs - length rest)))"
      using small by simp
    moreover from this have "7 * (length (b # bs) - length rest) = 7 + 7 * (length bs - length rest)"
      by auto
    ultimately show ?thesis
      using next_less by (simp only: add.assoc) simp
  qed
qed

lemma read_varint_bounds:
  assumes "read_varint bs = Some (v, rest)"
  shows "v < 2 ^ 64" "length rest < length bs" "length bs \<le> length rest + 10"
    "v < 2 ^ (7 * (length bs - length rest))"
  using read_varint_loop_bounds [of bs 0 0 v rest] assms by (auto simp: read_varint_def)

text \<open>
  A variable-length integer takes between one and ten bytes, its value fits in 64
  bits, and one that takes at most nine bytes stays below 2 to the power of seven bits per byte.
\<close>

theorem varint_bounded:
  assumes "read_varint bs = Some (v, rest)"
  shows "v < 2 ^ 64 \<and> length rest < length bs \<and> length bs \<le> length rest + 10 \<and>
    v < 2 ^ (7 * (length bs - length rest))"
  using read_varint_bounds [OF assms] by simp

theorem varint_bounded_witness: "read_varint [0xAC, 2, 9] = Some (300, [9]) \<and> (300 :: nat) < 2 ^ 14"
proof -
  have "read_varint [0xAC, 2, 9] = Some (300, [9])"
    by (simp add: read_varint_def)
  from this varint_bounded [OF this] show ?thesis by simp
qed

section \<open>Hostile lengths\<close>

lemma proto_wire_short:
  assumes "length rest \<le> 9" "whole < 2 ^ 63"
  shows "proto_wire whole wire rest \<noteq> Panic"
proof (cases "read_varint rest")
  case None
  then show ?thesis by (simp add: proto_wire_def)
next
  case (Some p)
  obtain len rest' where p: "p = (len, rest')" by fastforce
  note var = read_varint_bounds [OF Some [unfolded p]]
  have "7 * (length rest - length rest') \<le> 63"
    using assms(1) by simp
  then have "len < 2 ^ 63"
    using var(4) by (meson less_le_trans one_le_numeral power_increasing)
  then have "whole - length rest' + len < 2 ^ 64"
    using assms(2) by simp
  then show ?thesis
    using Some p by (auto simp: proto_wire_def Let_def u64_add_exact split: option.splits)
qed

lemma proto_loop_short:
  "length rest \<le> 10 \<Longrightarrow> whole < 2 ^ 63 \<Longrightarrow> proto_loop whole rest fields \<noteq> Panic"
proof (induction rest arbitrary: whole fields rule: length_induct)
  case (1 rest)
  have IH: "proto_loop whole' rest' fields' \<noteq> Panic"
    if "length rest' < length rest" "whole' < 2 ^ 63" for whole' rest' fields'
    using 1 that by auto
  show ?case
  proof (cases "rest = [] \<or> read_varint rest = None")
    case True
    then show ?thesis by (subst proto_loop.simps) auto
  next
    case False
    then obtain tag rest1 where tag: "read_varint rest = Some (tag, rest1)"
      by auto
    note shorter = read_varint_shrinks [OF tag]
    have "proto_wire whole (tag mod 8) rest1 \<noteq> Panic"
      using shorter 1(2,3) by (intro proto_wire_short) auto
    then consider (none) "proto_wire whole (tag mod 8) rest1 = Returned None"
      | (scalar) v rest2 where "proto_wire whole (tag mod 8) rest1 = Returned (Some (ScalarField v rest2))"
      | (bytes) sub rest2 where "proto_wire whole (tag mod 8) rest1 = Returned (Some (BytesField sub rest2))"
      by (metis outcome.exhaust option.exhaust proto_field.exhaust)
    then show ?thesis
    proof cases
      case none
      then show ?thesis using False tag by (subst proto_loop.simps) simp
    next
      case (scalar v rest2)
      then show ?thesis
        using False tag IH [of rest2 whole] proto_wire_scalar [OF scalar] shorter 1(3)
        by (subst proto_loop.simps) simp
    next
      case (bytes sub rest2)
      note less = proto_wire_shrinks [OF bytes]
      have nested: "proto_loop (length sub) sub [] \<noteq> Panic"
        using less shorter 1(2) by (intro IH) auto
      have go: "proto_loop whole rest2 fields' \<noteq> Panic" for fields'
        using less shorter 1(3) by (intro IH) auto
      show ?thesis
        using False tag bytes nested go
        by (subst proto_loop.simps) (auto simp: Let_def split: option.splits outcome.splits)
    qed
  qed
qed

text \<open>
  On a payload of at most ten bytes the protobuf decoder always returns:
  a length that could wrap the position needs a ten-byte integer after a tag.
\<close>

theorem protobuf_short_no_panic: "length data \<le> 10 \<Longrightarrow> protobuf_decode data \<noteq> Panic"
  using proto_loop_short [of data "length data" "[]"] by (simp add: protobuf_decode_def)

theorem protobuf_short_no_panic_witness: "protobuf_decode [0x0A, 5] \<noteq> Panic"
  by (rule protobuf_short_no_panic) simp

text \<open>
  Eleven bytes suffice to crash it: a length-delimited field whose length is
  the largest 64-bit value makes \<open>pos + len\<close> wrap to just below \<open>pos\<close>, passes the bounds test, and
  the slice with its end before its start panics.
\<close>

theorem protobuf_length_wraps:
  "protobuf_decode [0x0A, 0xFF, 0xFF, 0xFF, 0xFF, 0xFF, 0xFF, 0xFF, 0xFF, 0xFF, 0x01] = Panic"
proof -
  let ?len = "[0xFF, 0xFF, 0xFF, 0xFF, 0xFF, 0xFF, 0xFF, 0xFF, 0xFF, 0x01] :: byte list"
  have tag: "read_varint (0x0A # ?len) = Some (10, ?len)"
    by (simp add: read_varint_def)
  have more: "read_varint_loop (0xFF # bs) r s = read_varint_loop bs ((r + 127 * 2 ^ s) mod 2 ^ 64) (s + 7)"
    if "s < 64" for bs r s
    using that by (simp add: low7 high_bit Let_def)
  have last: "read_varint_loop [0x01] r s = Some ((r + 2 ^ s) mod 2 ^ 64, [])" if "s < 64" for r s
    using that by (simp add: Let_def)
  have len: "read_varint ?len = Some (2 ^ 64 - 1, [])"
    unfolding read_varint_def by (simp add: more last del: read_varint_loop.simps)
  have "proto_wire (length (0x0A # ?len)) 2 ?len = Panic"
    unfolding proto_wire_def len by (simp add: u64_add_def)
  then show ?thesis
    unfolding protobuf_decode_def using tag by (subst proto_loop.simps) (simp add: Let_def)
qed

end
