(* ===== verification/WsRecord.thy ===== *)
theory WsRecord
  imports WsAssembler WsRender
begin

text \<open>
  The durable records of a WebSocket session (\<^verbatim>\<open>net/ws.rs\<close>): the upgrade, one record per message,
  one per protocol violation and the closing one; how a message is encoded and previewed, what
  redaction does to a record, the JSON shown to the agent, and the counters of a session. The
  redaction policy (\<^verbatim>\<open>redaction.rs\<close>, pattern matching on text) is a record of functions, so every
  theorem holds for any policy. Time stamps are rational numbers.
\<close>

section \<open>Redaction policy\<close>

record redaction_policy =
  rp_text :: "string \<Rightarrow> string"
  rp_urlish_text :: "string \<Rightarrow> string"
  rp_request_target :: "string \<Rightarrow> string \<times> bool"
  rp_header_value :: "string \<Rightarrow> string \<Rightarrow> string"
  rp_label :: string

definition POLICY_VERSION :: nat where
  "POLICY_VERSION = 2"

section \<open>The upgrade record\<close>

record ws_session_record =
  wsr_kind :: string
  wsr_id :: string
  wsr_flow_sequence :: nat
  wsr_capture_session_id :: string
  wsr_ts :: rat
  wsr_scheme :: string
  wsr_host :: string
  wsr_port :: "nat option"
  wsr_path :: string
  wsr_host_redacted :: bool
  wsr_path_redacted :: bool
  wsr_status :: nat
  wsr_subprotocol :: "string option"
  wsr_permessage_deflate :: bool
  wsr_req_headers :: "(string \<times> string) list"
  wsr_resp_headers :: "(string \<times> string) list"
  wsr_redaction_policy :: "string option"
  wsr_redaction_policy_version :: "nat option"

definition default_port :: "string \<Rightarrow> nat option" where
  "default_port scheme =
     (if scheme = ''http'' \<or> scheme = ''ws'' then Some 80
      else if scheme = ''https'' \<or> scheme = ''wss'' then Some 443
      else None)"

definition flow_url :: "string \<Rightarrow> string \<Rightarrow> nat option \<Rightarrow> string \<Rightarrow> string" where
  "flow_url scheme host port path =
     (let host' = (if CHR '':'' \<in> set host \<and> \<not> starts_with host ''[''
                   then ''['' @ host @ '']'' else host)
      in case port of
           Some p \<Rightarrow>
             if Some p \<noteq> default_port scheme
             then scheme @ ''://'' @ host' @ '':'' @ dec_digits p @ path
             else scheme @ ''://'' @ host' @ path
         | None \<Rightarrow> scheme @ ''://'' @ host' @ path)"

definition wsr_url :: "ws_session_record \<Rightarrow> string" where
  "wsr_url r = flow_url (wsr_scheme r) (wsr_host r) (wsr_port r) (wsr_path r)"

definition wsr_redact :: "redaction_policy \<Rightarrow> ws_session_record \<Rightarrow> ws_session_record" where
  "wsr_redact policy r =
     (let host = rp_text policy (wsr_host r);
          (path, changed) = rp_request_target policy (wsr_path r);
          hide = map (\<lambda>(name, value). (name, rp_header_value policy name value))
      in r\<lparr>wsr_host_redacted := (wsr_host_redacted r \<or> host \<noteq> wsr_host r),
           wsr_host := host,
           wsr_path_redacted := (wsr_path_redacted r \<or> changed),
           wsr_path := path,
           wsr_req_headers := hide (wsr_req_headers r),
           wsr_resp_headers := hide (wsr_resp_headers r),
           wsr_redaction_policy := Some (rp_label policy),
           wsr_redaction_policy_version := Some POLICY_VERSION\<rparr>)"

definition header_put :: "(string \<times> json) list \<Rightarrow> string \<times> string \<Rightarrow> (string \<times> json) list" where
  "header_put m kv =
     (let key = fst kv; val = JStr (snd kv);
          canonical = (case find (\<lambda>k. eq_ignore_ascii_case k key) (obj_keys m) of
                         Some k \<Rightarrow> k | None \<Rightarrow> key)
      in case map_of m canonical of
           None \<Rightarrow> obj_put canonical val m
         | Some (JArr items) \<Rightarrow> obj_put canonical (JArr (items @ [val])) m
         | Some prev \<Rightarrow> obj_put canonical (JArr [prev, val]) m)"

definition headers_to_map :: "(string \<times> string) list \<Rightarrow> json" where
  "headers_to_map headers = JObj (foldl header_put [] headers)"

definition wsr_detail :: "ws_session_record \<Rightarrow> json" where
  "wsr_detail r =
     jobj [(''type'', JStr ''ws_open''),
           (''id'', JStr (wsr_id r)),
           (''flow_sequence'', jnat (wsr_flow_sequence r)),
           (''capture_session_id'', JStr (wsr_capture_session_id r)),
           (''ts'', JFloat (wsr_ts r)),
           (''scheme'', JStr (wsr_scheme r)),
           (''host'', JStr (wsr_host r)),
           (''path'', JStr (wsr_path r)),
           (''url'', JStr (wsr_url r)),
           (''host_redacted'', JBool (wsr_host_redacted r)),
           (''path_redacted'', JBool (wsr_path_redacted r)),
           (''status'', jnat (wsr_status r)),
           (''subprotocol'', jopt JStr (wsr_subprotocol r)),
           (''permessage_deflate'', JBool (wsr_permessage_deflate r)),
           (''req_headers'', headers_to_map (wsr_req_headers r)),
           (''resp_headers'', headers_to_map (wsr_resp_headers r)),
           (''redaction_policy'', jopt JStr (wsr_redaction_policy r)),
           (''redaction_policy_version'', jopt jnat (wsr_redaction_policy_version r))]"

section \<open>Message records\<close>

record ws_message_record =
  wm_kind :: string
  wm_id :: string
  wm_session_id :: string
  wm_flow_sequence :: nat
  wm_capture_session_id :: string
  wm_ts :: rat
  wm_host :: string
  wm_host_redacted :: bool
  wm_dir :: string
  wm_seq :: nat
  wm_opcode :: string
  wm_payload_len :: nat
  wm_wire_len :: nat
  wm_retained_len :: nat
  wm_frame_count :: nat
  wm_protocol_violations :: "string list"
  wm_evidence_reliable :: bool
  wm_frames :: "frame_meta list"
  wm_truncated :: bool
  wm_compressed :: bool
  wm_decompressed :: bool
  wm_injected :: bool
  wm_rule_id :: "string option"
  wm_disposition :: "string option"
  wm_text :: "string option"
  wm_data_b64 :: "string option"
  wm_preview :: "string option"
  wm_close_code :: "nat option"
  wm_close_reason :: "string option"
  wm_body_redacted :: bool
  wm_redaction_policy :: "string option"
  wm_redaction_policy_version :: "nat option"

definition wm_effective_evidence_reliable :: "ws_message_record \<Rightarrow> bool" where
  "wm_effective_evidence_reliable r \<longleftrightarrow>
     wm_evidence_reliable r \<and> wm_protocol_violations r = [] \<and> \<not> wm_truncated r \<and>
     (\<not> wm_compressed r \<or> wm_decompressed r)"

definition wm_detail :: "bool \<Rightarrow> ws_message_record \<Rightarrow> json" where
  "wm_detail body r =
     jobj ([(''type'', JStr ''ws_msg''),
           (''id'', JStr (wm_id r)),
           (''session_id'', JStr (wm_session_id r)),
           (''flow_sequence'', jnat (wm_flow_sequence r)),
           (''capture_session_id'', JStr (wm_capture_session_id r)),
           (''ts'', JFloat (wm_ts r)),
           (''host'', JStr (wm_host r)),
           (''host_redacted'', JBool (wm_host_redacted r)),
           (''dir'', JStr (wm_dir r)),
           (''seq'', jnat (wm_seq r)),
           (''opcode'', JStr (wm_opcode r)),
           (''payload_len'', jnat (wm_payload_len r)),
           (''wire_len'', jnat (wm_wire_len r)),
           (''retained_len'', jnat (wm_retained_len r)),
           (''frame_count'', jnat (wm_frame_count r)),
           (''protocol_violations'', JArr (map JStr (wm_protocol_violations r))),
           (''evidence_reliable'', JBool (wm_effective_evidence_reliable r)),
           (''truncated'', JBool (wm_truncated r)),
           (''compressed'', JBool (wm_compressed r)),
           (''decompressed'', JBool (wm_decompressed r)),
           (''injected'', JBool (wm_injected r)),
           (''rule_id'', jopt JStr (wm_rule_id r)),
           (''disposition'', jopt JStr (wm_disposition r)),
           (''preview'', jopt JStr (wm_preview r)),
           (''close_code'', jopt jnat (wm_close_code r)),
           (''close_reason'', jopt JStr (wm_close_reason r)),
           (''body_redacted'', JBool (wm_body_redacted r)),
           (''redaction_policy'', jopt JStr (wm_redaction_policy r)),
           (''redaction_policy_version'', jopt jnat (wm_redaction_policy_version r))] @
          (if body then [(''text'', jopt JStr (wm_text r)),
                         (''data_b64'', jopt JStr (wm_data_b64 r))] else []))"

definition redact_option ::
  "(string \<Rightarrow> string) \<Rightarrow> string option \<Rightarrow> string option \<times> bool" where
  "redact_option hide v =
     (case v of None \<Rightarrow> (None, False) | Some s \<Rightarrow> (Some (hide s), hide s \<noteq> s))"

definition wm_redact :: "redaction_policy \<Rightarrow> ws_message_record \<Rightarrow> ws_message_record" where
  "wm_redact policy r =
     (let host = rp_text policy (wm_host r);
          (txt, changed) = redact_option (rp_urlish_text policy) (wm_text r);
          (reason, changed') = redact_option (rp_urlish_text policy) (wm_close_reason r)
      in r\<lparr>wm_host_redacted := (wm_host_redacted r \<or> host \<noteq> wm_host r),
           wm_host := host,
           wm_text := txt,
           wm_close_reason := reason,
           wm_body_redacted := (wm_body_redacted r \<or> changed \<or> changed'),
           wm_preview := map_option (rp_urlish_text policy) (wm_preview r),
           wm_redaction_policy := Some (rp_label policy),
           wm_redaction_policy_version := Some POLICY_VERSION\<rparr>)"

definition frame_breakdown :: "ws_message_record \<Rightarrow> frame_meta list" where
  "frame_breakdown r =
     (if wm_frames r \<noteq> [] then wm_frames r
      else [\<lparr>fm_opcode = wm_opcode r, fm_len = wm_wire_len r, fm_fin = True,
             fm_rsv1 = wm_compressed r\<rparr>])"

definition raw_payload :: "ws_message_record \<Rightarrow> byte list option" where
  "raw_payload r =
     (case wm_data_b64 r of
        Some b64 \<Rightarrow> b64_decode b64
      | None \<Rightarrow> map_option str_bytes (wm_text r))"

section \<open>Violation and close records\<close>

record ws_violation_record =
  wv_kind :: string
  wv_id :: string
  wv_session_id :: string
  wv_flow_sequence :: nat
  wv_capture_session_id :: string
  wv_ts :: rat
  wv_host :: string
  wv_host_redacted :: bool
  wv_dir :: string
  wv_violation :: string
  wv_scope :: string
  wv_action :: string
  wv_fatal :: bool
  wv_opcode :: "string option"
  wv_detail :: json
  wv_redaction_policy :: "string option"
  wv_redaction_policy_version :: "nat option"

definition wv_redact :: "redaction_policy \<Rightarrow> ws_violation_record \<Rightarrow> ws_violation_record" where
  "wv_redact policy r =
     (let host = rp_text policy (wv_host r)
      in r\<lparr>wv_host_redacted := (wv_host_redacted r \<or> host \<noteq> wv_host r),
           wv_host := host,
           wv_redaction_policy := Some (rp_label policy),
           wv_redaction_policy_version := Some POLICY_VERSION\<rparr>)"

record ws_close_record =
  wc_kind :: string
  wc_id :: string
  wc_session_id :: string
  wc_flow_sequence :: nat
  wc_capture_session_id :: string
  wc_ts :: rat
  wc_started_ts :: rat
  wc_dur_ms :: nat
  wc_host :: string
  wc_host_redacted :: bool
  wc_close_code :: "nat option"
  wc_close_reason :: "string option"
  wc_close_reason_redacted :: bool
  wc_close_initiator :: "string option"
  wc_c2s_msgs :: nat
  wc_s2c_msgs :: nat
  wc_c2s_bytes :: nat
  wc_s2c_bytes :: nat
  wc_dropped :: nat
  wc_unreliable_messages :: nat
  wc_c2s_protocol_violations :: nat
  wc_s2c_protocol_violations :: nat
  wc_c2s_decode_desynced :: bool
  wc_s2c_decode_desynced :: bool
  wc_evidence_reliable :: bool
  wc_redaction_policy :: "string option"
  wc_redaction_policy_version :: "nat option"

definition wc_effective_evidence_reliable :: "ws_close_record \<Rightarrow> bool" where
  "wc_effective_evidence_reliable r \<longleftrightarrow>
     wc_evidence_reliable r \<and> wc_dropped r = 0 \<and> wc_unreliable_messages r = 0 \<and>
     wc_c2s_protocol_violations r = 0 \<and> wc_s2c_protocol_violations r = 0 \<and>
     \<not> wc_c2s_decode_desynced r \<and> \<not> wc_s2c_decode_desynced r"

definition wc_redact :: "redaction_policy \<Rightarrow> ws_close_record \<Rightarrow> ws_close_record" where
  "wc_redact policy r =
     (let host = rp_text policy (wc_host r);
          (reason, changed) = redact_option (rp_urlish_text policy) (wc_close_reason r)
      in r\<lparr>wc_host_redacted := (wc_host_redacted r \<or> host \<noteq> wc_host r),
           wc_host := host,
           wc_close_reason_redacted := (wc_close_reason_redacted r \<or> changed),
           wc_close_reason := reason,
           wc_redaction_policy := Some (rp_label policy),
           wc_redaction_policy_version := Some POLICY_VERSION\<rparr>)"

definition wc_detail :: "ws_close_record \<Rightarrow> json" where
  "wc_detail r =
     jobj [(''type'', JStr ''ws_close''),
           (''id'', JStr (wc_id r)),
           (''flow_sequence'', jnat (wc_flow_sequence r)),
           (''capture_session_id'', JStr (wc_capture_session_id r)),
           (''ts'', JFloat (wc_ts r)),
           (''started_ts'', JFloat (wc_started_ts r)),
           (''dur_ms'', jnat (wc_dur_ms r)),
           (''host'', JStr (wc_host r)),
           (''host_redacted'', JBool (wc_host_redacted r)),
           (''close_code'', jopt jnat (wc_close_code r)),
           (''close_reason'', jopt JStr (wc_close_reason r)),
           (''close_reason_redacted'', JBool (wc_close_reason_redacted r)),
           (''close_initiator'', jopt JStr (wc_close_initiator r)),
           (''c2s_msgs'', jnat (wc_c2s_msgs r)),
           (''s2c_msgs'', jnat (wc_s2c_msgs r)),
           (''c2s_bytes'', jnat (wc_c2s_bytes r)),
           (''s2c_bytes'', jnat (wc_s2c_bytes r)),
           (''dropped'', jnat (wc_dropped r)),
           (''unreliable_messages'', jnat (wc_unreliable_messages r)),
           (''c2s_protocol_violations'', jnat (wc_c2s_protocol_violations r)),
           (''s2c_protocol_violations'', jnat (wc_s2c_protocol_violations r)),
           (''c2s_decode_desynced'', JBool (wc_c2s_decode_desynced r)),
           (''s2c_decode_desynced'', JBool (wc_s2c_decode_desynced r)),
           (''evidence_reliable'', JBool (wc_effective_evidence_reliable r)),
           (''redaction_policy'', jopt JStr (wc_redaction_policy r)),
           (''redaction_policy_version'', jopt jnat (wc_redaction_policy_version r))]"

definition redact_close_for_live_capture ::
  "ws_close_record \<Rightarrow> redaction_policy option \<Rightarrow> ws_close_record" where
  "redact_close_for_live_capture r policy =
     (case policy of None \<Rightarrow> r | Some p \<Rightarrow> wc_redact p r)"

section \<open>Building a message record\<close>

definition encode_payload ::
  "message \<Rightarrow> string option \<times> string option \<times> nat option \<times> string option" where
  "encode_payload msg =
     (if ms_opcode msg = OpClose then
        let (code, reason) = (case close_code_reason msg of None \<Rightarrow> (1005, []) | Some cr \<Rightarrow> cr)
        in ((if reason \<noteq> [] then Some reason else None), None, Some code, Some reason)
      else if ms_payload msg = [] then (None, None, None, None)
      else if ms_compressed msg \<and> \<not> ms_decompressed msg then
        (None, Some (b64_encode (ms_payload msg)), None, None)
      else if ms_opcode msg = OpText then (Some (from_utf8_lossy (ms_payload msg)), None, None, None)
      else (case from_utf8 (ms_payload msg) of
              Some s \<Rightarrow> (Some s, None, None, None)
            | None \<Rightarrow> (None, Some (b64_encode (ms_payload msg)), None, None)))"

text \<open>The loop of \<open>collapse_ws\<close> on the characters of the input, with the output so far.\<close>

fun collapse_loop :: "nat \<Rightarrow> nat list \<Rightarrow> bool \<Rightarrow> nat list \<Rightarrow> nat list" where
  "collapse_loop cap [] in_ws out = out"
| "collapse_loop cap (ch # cs) in_ws out =
     (if char_is_whitespace ch then collapse_loop cap cs True out
      else let out' = (if in_ws \<and> out \<noteq> [] then out @ [32] else out) @ [ch]
           in if length out' \<ge> cap then out' @ [0x2026]
              else collapse_loop cap cs False out')"

definition collapse_ws :: "string \<Rightarrow> nat \<Rightarrow> string" where
  "collapse_ws input cap = chars_str (collapse_loop cap (str_chars input) False [])"

definition build_preview ::
  "string option \<Rightarrow> nat \<Rightarrow> nat option \<Rightarrow> string option \<Rightarrow> string option" where
  "build_preview txt payload_len close_code close_reason =
     (case close_code of
        Some code \<Rightarrow>
          let reason = (case close_reason of None \<Rightarrow> [] | Some r \<Rightarrow> r) in
          Some (if reason = [] then ''close '' @ dec_digits code
                else ''close '' @ dec_digits code @ '' '' @ collapse_ws reason PREVIEW_CAP)
      | None \<Rightarrow>
          (case txt of
             Some t \<Rightarrow> Some (collapse_ws t PREVIEW_CAP)
           | None \<Rightarrow>
               if payload_len = 0 then None
               else Some (''<'' @ dec_digits payload_len @ '' binary bytes>'')))"

record ws_session_meta =
  sm_id :: string
  sm_capture_session_id :: string
  sm_host :: string
  sm_started_ts :: rat
  sm_deflate :: deflate_params

text \<open>\<open>flow\<close> is the number the global flow counter hands out for this record.\<close>

definition build_message_record ::
  "ws_session_meta \<Rightarrow> direction \<Rightarrow> nat \<Rightarrow> message \<Rightarrow> redaction_policy option \<Rightarrow> rat \<Rightarrow> nat \<Rightarrow>
   ws_message_record" where
  "build_message_record meta dir seq msg redaction ts flow =
     (let (txt0, data_b64, close_code, reason0) = encode_payload msg;
          host = (case redaction of None \<Rightarrow> sm_host meta | Some p \<Rightarrow> rp_text p (sm_host meta));
          (txt, changed) = (case redaction of None \<Rightarrow> (txt0, False)
                            | Some p \<Rightarrow> redact_option (rp_urlish_text p) txt0);
          (reason, changed') = (case redaction of None \<Rightarrow> (reason0, False)
                                | Some p \<Rightarrow> redact_option (rp_urlish_text p) reason0)
      in \<lparr>wm_kind = ''ws_msg'', wm_id = sm_id meta @ ''.'' @ dec_digits seq,
          wm_session_id = sm_id meta, wm_flow_sequence = flow,
          wm_capture_session_id = sm_capture_session_id meta, wm_ts = ts,
          wm_host = host, wm_host_redacted = (host \<noteq> sm_host meta),
          wm_dir = direction_str dir, wm_seq = seq, wm_opcode = opcode_str (ms_opcode msg),
          wm_payload_len = ms_payload_len msg, wm_wire_len = ms_wire_len msg,
          wm_retained_len = length (ms_payload msg), wm_frame_count = ms_frame_count msg,
          wm_protocol_violations = ms_protocol_violations msg,
          wm_evidence_reliable = message_evidence_reliable msg,
          wm_frames = (if ms_frame_count msg > 1 then ms_frames msg else []),
          wm_truncated = ms_truncated msg, wm_compressed = ms_compressed msg,
          wm_decompressed = ms_decompressed msg, wm_injected = False, wm_rule_id = None,
          wm_disposition = None, wm_text = txt, wm_data_b64 = data_b64,
          wm_preview = build_preview txt (ms_payload_len msg) close_code reason,
          wm_close_code = close_code, wm_close_reason = reason,
          wm_body_redacted = (changed \<or> changed'),
          wm_redaction_policy = map_option rp_label redaction,
          wm_redaction_policy_version = map_option (\<lambda>_. POLICY_VERSION) redaction\<rparr>)"

record injected_frame =
  inj_opcode :: opcode
  inj_payload :: "byte list"

definition injected_message :: "opcode \<Rightarrow> byte list \<Rightarrow> nat \<Rightarrow> message" where
  "injected_message op payload wire_len =
     \<lparr>ms_opcode = op, ms_payload = payload, ms_payload_len = length payload, ms_wire_len = wire_len,
      ms_truncated = False, ms_frame_count = 1, ms_compressed = False, ms_decompressed = False,
      ms_frames = [], ms_protocol_violations = []\<rparr>"

definition injected_record ::
  "ws_session_meta \<Rightarrow> direction \<Rightarrow> nat \<Rightarrow> injected_frame \<Rightarrow> redaction_policy option \<Rightarrow> rat \<Rightarrow> nat \<Rightarrow>
   ws_message_record" where
  "injected_record meta dir seq frame redaction ts flow =
     (build_message_record meta dir seq
        (injected_message (inj_opcode frame) (inj_payload frame) (length (inj_payload frame)))
        redaction ts flow)\<lparr>wm_injected := True\<rparr>"

section \<open>Counters of a session\<close>

record close_info =
  ci_code :: "nat option"
  ci_reason :: "string option"
  ci_initiator :: direction

record ws_stats =
  st_c2s_msgs :: nat
  st_s2c_msgs :: nat
  st_c2s_bytes :: nat
  st_s2c_bytes :: nat
  st_dropped :: nat
  st_unreliable_messages :: nat
  st_c2s_protocol_violations :: nat
  st_s2c_protocol_violations :: nat
  st_c2s_decode_desynced :: bool
  st_s2c_decode_desynced :: bool
  st_violation_counter :: nat
  st_close :: "close_info option"

definition stats_default :: ws_stats where
  "stats_default =
     \<lparr>st_c2s_msgs = 0, st_s2c_msgs = 0, st_c2s_bytes = 0, st_s2c_bytes = 0, st_dropped = 0,
      st_unreliable_messages = 0, st_c2s_protocol_violations = 0, st_s2c_protocol_violations = 0,
      st_c2s_decode_desynced = False, st_s2c_decode_desynced = False, st_violation_counter = 0,
      st_close = None\<rparr>"

definition stats_record :: "direction \<Rightarrow> message \<Rightarrow> ws_stats \<Rightarrow> ws_stats" where
  "stats_record dir msg st =
     (let st1 = (if message_evidence_reliable msg then st
                 else st\<lparr>st_unreliable_messages := u64_add (st_unreliable_messages st) 1\<rparr>);
          st2 = (case dir of
                   ClientToServer \<Rightarrow>
                     st1\<lparr>st_c2s_msgs := u64_add (st_c2s_msgs st1) 1,
                         st_c2s_bytes := u64_add (st_c2s_bytes st1) (ms_payload_len msg)\<rparr>
                 | ServerToClient \<Rightarrow>
                     st1\<lparr>st_s2c_msgs := u64_add (st_s2c_msgs st1) 1,
                         st_s2c_bytes := u64_add (st_s2c_bytes st1) (ms_payload_len msg)\<rparr>)
      in if ms_opcode msg = OpClose \<and> st_close st2 = None then
           st2\<lparr>st_close := Some
             \<lparr>ci_code = map_option fst (close_code_reason msg),
              ci_reason = map_option snd (close_code_reason msg), ci_initiator = dir\<rparr>\<rparr>
         else st2)"

definition mark_decode_desynced :: "direction \<Rightarrow> ws_stats \<Rightarrow> ws_stats" where
  "mark_decode_desynced dir st =
     (case dir of
        ClientToServer \<Rightarrow> st\<lparr>st_c2s_decode_desynced := True\<rparr>
      | ServerToClient \<Rightarrow> st\<lparr>st_s2c_decode_desynced := True\<rparr>)"

definition record_violation :: "direction \<Rightarrow> bool \<Rightarrow> ws_stats \<Rightarrow> ws_stats \<times> nat" where
  "record_violation dir fatal st =
     (let st1 = (case dir of
                   ClientToServer \<Rightarrow>
                     st\<lparr>st_c2s_protocol_violations := u64_add (st_c2s_protocol_violations st) 1\<rparr>
                 | ServerToClient \<Rightarrow>
                     st\<lparr>st_s2c_protocol_violations := u64_add (st_s2c_protocol_violations st) 1\<rparr>);
          st2 = (if fatal then mark_decode_desynced dir st1 else st1);
          ordinal = u64_add (st_violation_counter st2) 1
      in (st2\<lparr>st_violation_counter := ordinal\<rparr>, ordinal))"

definition record_dropped :: "ws_stats \<Rightarrow> ws_stats" where
  "record_dropped st = st\<lparr>st_dropped := u64_add (st_dropped st) 1\<rparr>"

definition stats_evidence_reliable :: "ws_stats \<Rightarrow> bool" where
  "stats_evidence_reliable st \<longleftrightarrow>
     st_dropped st = 0 \<and> st_c2s_protocol_violations st = 0 \<and>
     st_s2c_protocol_violations st = 0 \<and> st_unreliable_messages st = 0"

text \<open>\<open>f64 as u64\<close>: toward zero, saturating.\<close>

definition rat_to_u64 :: "rat \<Rightarrow> nat" where
  "rat_to_u64 q = min (nat (floor q)) (2 ^ 64 - 1)"

definition close_record ::
  "ws_session_meta \<Rightarrow> ws_stats \<Rightarrow> redaction_policy option \<Rightarrow> rat \<Rightarrow> nat \<Rightarrow> ws_close_record" where
  "close_record meta st redaction ended flow =
     redact_close_for_live_capture
       \<lparr>wc_kind = ''ws_close'', wc_id = sm_id meta, wc_session_id = sm_id meta,
        wc_flow_sequence = flow, wc_capture_session_id = sm_capture_session_id meta,
        wc_ts = ended, wc_started_ts = sm_started_ts meta,
        wc_dur_ms = rat_to_u64 (max (ended - sm_started_ts meta) 0 * 1000),
        wc_host = sm_host meta, wc_host_redacted = False,
        wc_close_code = Option.bind (st_close st) ci_code,
        wc_close_reason = Option.bind (st_close st) ci_reason,
        wc_close_reason_redacted = False,
        wc_close_initiator = map_option (\<lambda>c. direction_str (ci_initiator c)) (st_close st),
        wc_c2s_msgs = st_c2s_msgs st, wc_s2c_msgs = st_s2c_msgs st,
        wc_c2s_bytes = st_c2s_bytes st, wc_s2c_bytes = st_s2c_bytes st,
        wc_dropped = st_dropped st, wc_unreliable_messages = st_unreliable_messages st,
        wc_c2s_protocol_violations = st_c2s_protocol_violations st,
        wc_s2c_protocol_violations = st_s2c_protocol_violations st,
        wc_c2s_decode_desynced = st_c2s_decode_desynced st,
        wc_s2c_decode_desynced = st_s2c_decode_desynced st,
        wc_evidence_reliable = stats_evidence_reliable st,
        wc_redaction_policy = None, wc_redaction_policy_version = None\<rparr>
       redaction"

section \<open>What a session counted\<close>

text \<open>The events the pumps report to the counters, in the order in which they happen.\<close>

datatype stats_event =
    SawMessage direction message
  | SawViolation direction bool
  | LostRecord

fun stats_step :: "stats_event \<Rightarrow> ws_stats \<Rightarrow> ws_stats" where
  "stats_step (SawMessage dir msg) st = stats_record dir msg st"
| "stats_step (SawViolation dir fatal) st = fst (record_violation dir fatal st)"
| "stats_step LostRecord st = record_dropped st"

definition stats_after :: "stats_event list \<Rightarrow> ws_stats" where
  "stats_after es = fold stats_step es stats_default"

fun unclean :: "stats_event \<Rightarrow> bool" where
  "unclean (SawMessage dir msg) \<longleftrightarrow> \<not> message_evidence_reliable msg"
| "unclean (SawViolation dir fatal) \<longleftrightarrow> True"
| "unclean LostRecord \<longleftrightarrow> True"

definition event_count :: "(stats_event \<Rightarrow> bool) \<Rightarrow> stats_event list \<Rightarrow> nat" where
  "event_count P es = length (filter P es)"

definition stats_counts :: "stats_event list \<Rightarrow> ws_stats \<Rightarrow> bool" where
  "stats_counts es st \<longleftrightarrow>
     st_dropped st = event_count (\<lambda>e. e = LostRecord) es \<and>
     st_unreliable_messages st =
       event_count (\<lambda>e. \<exists>dir msg. e = SawMessage dir msg \<and> \<not> message_evidence_reliable msg) es \<and>
     st_c2s_protocol_violations st = event_count (\<lambda>e. \<exists>fatal. e = SawViolation ClientToServer fatal) es \<and>
     st_s2c_protocol_violations st = event_count (\<lambda>e. \<exists>fatal. e = SawViolation ServerToClient fatal) es \<and>
     (st_c2s_decode_desynced st \<longleftrightarrow> SawViolation ClientToServer True \<in> set es) \<and>
     (st_s2c_decode_desynced st \<longleftrightarrow> SawViolation ServerToClient True \<in> set es)"

lemma event_count_snoc: "event_count P (es @ [e]) = event_count P es + (if P e then 1 else 0)"
  by (simp add: event_count_def)

lemma event_count_le: "event_count P es \<le> length es"
  by (simp add: event_count_def)

lemma u64_count:
  assumes "length es + 1 < 2 ^ 64"
  shows "u64_add (event_count P es) (Suc 0) = Suc (event_count P es)"
  using assms event_count_le [of P es] by (subst u64_add_exact) simp_all

lemma stats_after_snoc: "stats_after (es @ [e]) = stats_step e (stats_after es)"
  by (simp add: stats_after_def)

lemma stats_counts_after: "length es < 2 ^ 64 \<Longrightarrow> stats_counts es (stats_after es)"
proof (induction es rule: rev_induct)
  case Nil
  then show ?case
    by (simp add: stats_counts_def stats_after_def stats_default_def event_count_def)
next
  case (snoc e es)
  then have counts: "stats_counts es (stats_after es)" and small: "length es + 1 < 2 ^ 64"
    by auto
  note u = u64_count [OF small]
  show ?case
  proof (cases e)
    case (SawMessage dir msg)
    with counts show ?thesis
      by (cases dir)
         (auto simp: stats_counts_def stats_after_snoc event_count_snoc stats_record_def Let_def u)
  next
    case (SawViolation dir fatal)
    with counts show ?thesis
      by (cases dir; cases fatal)
         (auto simp: stats_counts_def stats_after_snoc event_count_snoc record_violation_def
            mark_decode_desynced_def Let_def u)
  next
    case LostRecord
    with counts show ?thesis
      by (simp add: stats_counts_def stats_after_snoc event_count_snoc record_dropped_def u)
  qed
qed

lemma event_count_zero: "event_count P es = 0 \<longleftrightarrow> (\<forall>e\<in>set es. \<not> P e)"
  by (auto simp: event_count_def filter_empty_conv)

text \<open>The event is one of the four kinds the counters keep apart.\<close>

lemma unclean_kinds:
  "unclean e \<longleftrightarrow> e = LostRecord \<or>
     (\<exists>dir msg. e = SawMessage dir msg \<and> \<not> message_evidence_reliable msg) \<or>
     (\<exists>fatal. e = SawViolation ClientToServer fatal) \<or> (\<exists>fatal. e = SawViolation ServerToClient fatal)"
proof (cases e)
  case (SawViolation dir fatal)
  then show ?thesis by (cases dir) auto
qed auto

lemma redact_close_counters [simp]:
  "wc_evidence_reliable (redact_close_for_live_capture r p) = wc_evidence_reliable r"
  "wc_effective_evidence_reliable (redact_close_for_live_capture r p) = wc_effective_evidence_reliable r"
  by (auto simp: redact_close_for_live_capture_def wc_redact_def wc_effective_evidence_reliable_def Let_def
      split: option.splits prod.splits)

lemma close_record_flags:
  "wc_evidence_reliable (close_record meta st redaction ended flow) = stats_evidence_reliable st"
  "wc_effective_evidence_reliable (close_record meta st redaction ended flow) \<longleftrightarrow>
     stats_evidence_reliable st \<and> \<not> st_c2s_decode_desynced st \<and> \<not> st_s2c_decode_desynced st"
  unfolding close_record_def redact_close_counters
  by (auto simp: wc_effective_evidence_reliable_def stats_evidence_reliable_def)

text \<open>
  C26: the closing record of a session claims reliable evidence exactly when
  nothing went wrong in it: no record was lost, no protocol violation was found in either direction
  and no message was unreliable; and the flag it stores agrees with the one readers derive from its
  counters. (The counters are 64 bits wide; fewer events than that are assumed.)
\<close>

theorem close_record_truthful:
  assumes "length es < 2 ^ 64"
  shows "let r = close_record meta (stats_after es) redaction ended flow in
     (wc_evidence_reliable r \<longleftrightarrow> (\<forall>e\<in>set es. \<not> unclean e)) \<and>
     (wc_effective_evidence_reliable r \<longleftrightarrow> wc_evidence_reliable r)"
proof -
  note counts = stats_counts_after [OF assms, unfolded stats_counts_def]
  have all: "stats_evidence_reliable (stats_after es) \<longleftrightarrow> (\<forall>e\<in>set es. \<not> unclean e)"
    unfolding unclean_kinds stats_evidence_reliable_def using counts
    by (auto simp: event_count_zero)
  have desync: "\<not> st_c2s_decode_desynced (stats_after es) \<and> \<not> st_s2c_decode_desynced (stats_after es)"
    if "stats_evidence_reliable (stats_after es)"
    using that counts unfolding all by auto
  show ?thesis
    using all desync by (auto simp: close_record_flags Let_def)
qed

definition sample_meta :: ws_session_meta where
  "sample_meta = \<lparr>sm_id = ''w1'', sm_capture_session_id = ''s'', sm_host = ''h'', sm_started_ts = 0,
     sm_deflate = deflate_default\<rparr>"

theorem close_record_truthful_witness:
  "\<not> wc_evidence_reliable (close_record sample_meta
      (stats_after [SawViolation ClientToServer True]) None 1 7)"
  using close_record_truthful [of "[SawViolation ClientToServer True]" sample_meta None 1 7]
  by (simp add: Let_def)

section \<open>Messages and their records\<close>

text \<open>
  Without redaction the record of a message other than a close frame
  holds its payload losslessly: reading the record back gives exactly the retained bytes, as text or
  from base64. The one exception is a text frame that is not valid UTF-8.
\<close>

theorem record_payload_recoverable:
  assumes "ms_opcode msg \<noteq> OpClose" "ms_payload msg \<noteq> []"
    "ms_opcode msg = OpText \<longrightarrow> utf8_valid (ms_payload msg) \<or> (ms_compressed msg \<and> \<not> ms_decompressed msg)"
  shows "raw_payload (build_message_record meta dir seq msg None ts flow) = Some (ms_payload msg)"
  using assms
  by (auto simp: raw_payload_def build_message_record_def encode_payload_def from_utf8_def
      from_utf8_lossy_valid b64_decode_encode split: option.splits)

theorem record_payload_recoverable_witness:
  "raw_payload (build_message_record sample_meta ClientToServer 1
      (injected_message OpBinary [0xFF, 0] 2) None 0 1) = Some [0xFF, 0]"
  using record_payload_recoverable [of "injected_message OpBinary [0xFF, 0] 2"]
  by (simp add: injected_message_def)

text \<open>
  A compressed message that could not be inflated is never shown as text.
\<close>

theorem undecoded_never_text:
  assumes "ms_opcode msg \<noteq> OpClose" "ms_compressed msg" "\<not> ms_decompressed msg"
  shows "wm_text (build_message_record meta dir seq msg redaction ts flow) = None \<and>
     \<not> wm_effective_evidence_reliable (build_message_record meta dir seq msg redaction ts flow)"
  using assms
  by (auto simp: build_message_record_def encode_payload_def wm_effective_evidence_reliable_def
      redact_option_def Let_def split: option.splits)

theorem undecoded_never_text_witness:
  "wm_text (build_message_record sample_meta ClientToServer 1
      ((injected_message OpText [72] 1)\<lparr>ms_compressed := True\<rparr>) None 0 1) = None"
  using undecoded_never_text [of "(injected_message OpText [72] 1)\<lparr>ms_compressed := True\<rparr>"]
  by (simp add: injected_message_def)

text \<open>
  Redacting a stored record at export time gives the same host,
  text, close reason and redaction marks as capturing under the policy in the first place.
\<close>

theorem live_and_export_redaction_agree:
  "let live = build_message_record meta dir seq msg (Some policy) ts flow;
       exported = wm_redact policy (build_message_record meta dir seq msg None ts flow)
   in wm_host live = wm_host exported \<and> wm_host_redacted live = wm_host_redacted exported \<and>
      wm_text live = wm_text exported \<and> wm_close_reason live = wm_close_reason exported \<and>
      wm_body_redacted live = wm_body_redacted exported \<and>
      wm_redaction_policy live = wm_redaction_policy exported \<and>
      wm_data_b64 live = wm_data_b64 exported"
  by (simp add: build_message_record_def wm_redact_def Let_def split: prod.splits)

section \<open>Previews\<close>

text \<open>The words of a text, as \<open>split_whitespace\<close> gives them.\<close>

fun words_loop :: "nat list \<Rightarrow> nat list \<Rightarrow> nat list list" where
  "words_loop [] w = (if w = [] then [] else [w])"
| "words_loop (c # cs) w =
     (if char_is_whitespace c then (if w = [] then words_loop cs [] else w # words_loop cs [])
      else words_loop cs (w @ [c]))"

fun join_words :: "nat list list \<Rightarrow> nat list" where
  "join_words [] = []"
| "join_words [w] = w"
| "join_words (w # ws) = w @ 32 # join_words ws"

lemma join_words_Cons: "ws \<noteq> [] \<Longrightarrow> join_words (w # ws) = w @ 32 # join_words ws"
  by (cases ws) auto

lemma words_loop_not_Nil: "w \<noteq> [] \<Longrightarrow> words_loop cs w \<noteq> []"
  by (induction cs w rule: words_loop.induct) auto

lemma words_loop_nonempty: "ws \<in> set (words_loop cs w) \<Longrightarrow> ws \<noteq> []"
  by (induction cs w rule: words_loop.induct) (auto split: if_splits)

text \<open>What \<open>collapse_loop\<close> appends for the characters still to come.\<close>

fun collapse_rest :: "nat list \<Rightarrow> bool \<Rightarrow> nat list" where
  "collapse_rest [] gap = []"
| "collapse_rest (c # cs) gap =
     (if char_is_whitespace c then collapse_rest cs True
      else (if gap then [32, c] else [c]) @ collapse_rest cs False)"

lemma collapse_rest_words:
  "w \<noteq> [] \<Longrightarrow> w @ collapse_rest cs False = join_words (words_loop cs w)"
  "collapse_rest cs True = (if words_loop cs [] = [] then [] else 32 # join_words (words_loop cs []))"
proof (induction cs arbitrary: w)
  case Nil
  { case 1 then show ?case by simp }
  { case 2 then show ?case by simp }
next
  case (Cons c cs)
  { case 1
    then show ?case
      using Cons.IH(1) [of "w @ [c]"] Cons.IH(2) by (auto simp: join_words_Cons) }
  { case 2
    show ?case
      using Cons.IH(1) [of "[c]"] Cons.IH(2) words_loop_not_Nil [of "[c]" cs] by auto }
qed

lemma collapse_loop_fits:
  "length (out @ collapse_rest cs (in_ws \<and> out \<noteq> [])) < cap \<Longrightarrow> out \<noteq> [] \<Longrightarrow>
   collapse_loop cap cs in_ws out = out @ collapse_rest cs in_ws"
  by (induction cap cs in_ws out rule: collapse_loop.induct) (auto simp: Let_def)

lemma collapse_loop_words:
  assumes "length (join_words (words_loop cs [])) < cap"
  shows "collapse_loop cap cs in_ws [] = join_words (words_loop cs [])"
  using assms
proof (induction cs arbitrary: in_ws)
  case Nil
  then show ?case by simp
next
  case (Cons c cs)
  show ?case
  proof (cases "char_is_whitespace c")
    case True
    with Cons show ?thesis by simp
  next
    case False
    have "[c] @ collapse_rest cs False = join_words (words_loop cs [c])"
      by (rule collapse_rest_words(1)) simp
    moreover from this have "1 < cap"
      using Cons.prems False by (metis Suc_lessD Suc_leI append_Cons append_Nil le_less_trans
          length_Cons list.size(3) words_loop.simps(2) One_nat_def le_zero_eq not_less zero_less_Suc)
    ultimately show ?thesis
      using Cons.prems False collapse_loop_fits [of "[c]" cs False cap]
      by (auto simp: Let_def)
  qed
qed

lemma collapse_loop_length: "length out < cap \<Longrightarrow> length (collapse_loop cap cs in_ws out) \<le> cap + 2"
  by (induction cap cs in_ws out rule: collapse_loop.induct) (auto simp: Let_def)

lemma words_chars: "c \<in> set (join_words ws) \<Longrightarrow> c = 32 \<or> (\<exists>w\<in>set ws. c \<in> set w)"
  by (induction ws rule: join_words.induct) auto

definition collapse_chars :: "string \<Rightarrow> nat \<Rightarrow> nat list" where
  "collapse_chars input cap = collapse_loop cap (str_chars input) False []"

text \<open>
  A text whose words, joined by single spaces, are shorter than the cap is
  previewed as exactly those words; in every case the preview has at most two characters more than
  the cap (the last separator and the ellipsis).
\<close>

theorem preview_is_words:
  "(length (join_words (words_loop (str_chars input) [])) < cap \<longrightarrow>
      collapse_ws input cap = chars_str (join_words (words_loop (str_chars input) []))) \<and>
   (0 < cap \<longrightarrow> (\<exists>cs. collapse_ws input cap = chars_str cs \<and> length cs \<le> cap + 2))"
  unfolding collapse_ws_def using collapse_loop_words collapse_loop_length [of "[]" cap] by auto

theorem preview_is_words_witness: "collapse_ws '' a  b'' 200 = chars_str [97, 32, 98]"
proof -
  have chars: "str_chars '' a  b'' = [32, 97, 32, 32, 98]"
    by (simp add: str_chars_def utf8_lossy_def str_bytes_def char_byte_def utf8_chars.simps)
  then show ?thesis
    using preview_is_words [of "'' a  b''" 200] by (simp add: char_is_whitespace_def)
qed

lemma collapse_loop_exact:
  "length out + length cs = cap \<Longrightarrow> cs \<noteq> [] \<Longrightarrow> list_all (\<lambda>c. \<not> char_is_whitespace c) cs \<Longrightarrow>
   collapse_loop cap cs False out = out @ cs @ [0x2026]"
proof (induction cs arbitrary: out)
  case (Cons c cs)
  then show ?case
    by (cases "cs = []") (auto simp: Let_def)
qed simp

text \<open>
  The ellipsis is also appended when nothing is cut: a text of exactly
  \<open>cap\<close> characters without white space gets one.
\<close>

theorem preview_exact_cap_ellipsis:
  assumes "list_all (\<lambda>c. \<not> char_is_whitespace c) (str_chars input)" "str_chars input \<noteq> []"
  shows "collapse_ws input (length (str_chars input)) = chars_str (str_chars input @ [0x2026])"
  using assms by (simp add: collapse_ws_def collapse_loop_exact)

theorem preview_exact_cap_ellipsis_witness: "collapse_ws ''ab'' 2 = chars_str [97, 98, 0x2026]"
proof -
  have chars: "str_chars ''ab'' = [97, 98]"
    by (simp add: str_chars_def utf8_lossy_def str_bytes_def char_byte_def utf8_chars.simps)
  then show ?thesis
    using preview_exact_cap_ellipsis [of "''ab''"]
    by (simp add: char_is_whitespace_def flip: numeral_2_eq_2)
qed

end
