(* ===== verification/NetRule.thy ===== *)
theory NetRule
  imports WsFrame
begin

text \<open>
  The declarative rule language of \<^verbatim>\<open>net/rule.rs\<close>: Boolean matchers, actions and their phase, the
  conversion of the old \<open>kind\<close>/\<open>args\<close> form, evaluation of a matcher on a flow or frame, and the JSON
  edit with its application limit. Error messages are the constructors of \<open>rule_error\<close>. Code outside
  the repository (URL and JSON parsers, the Unicode case tables) is the record \<open>rule_ext\<close>.
\<close>

section \<open>Data\<close>

datatype rule_match_on = MatchOriginal | MatchTransformed

datatype ws_direction = C2s | S2c

datatype ws_opcode = WsText | WsBinary | WsPing | WsPong | WsClose

fun ws_opcode_str :: "ws_opcode \<Rightarrow> string" where
  "ws_opcode_str WsText = ''text''"
| "ws_opcode_str WsBinary = ''binary''"
| "ws_opcode_str WsPing = ''ping''"
| "ws_opcode_str WsPong = ''pong''"
| "ws_opcode_str WsClose = ''close''"

datatype rule_matcher =
    MAll "rule_matcher list"
  | MAny "rule_matcher list"
  | MNot rule_matcher
  | MHost string
  | MPath string
  | MMethod string
  | MStatus nat
  | MContentType string
  | MGraphqlOperation string
  | MDirection ws_direction
  | MOpcode ws_opcode

definition rule_matcher_default :: rule_matcher where
  "rule_matcher_default = MAll []"

datatype rule_transform =
    MapRemote string
  | SetRequestHeader string string
  | SetStatus nat
  | SetResponseHeader string string
  | ReplaceBody string string
  | SetJson string json json nat
  | SetWebsocketText string

record synthetic_response =
  sr_status :: nat
  sr_headers :: "(string \<times> string) list"
  sr_body :: "byte list"

datatype rule_terminal =
    Block nat
  | MapLocal string
  | Respond synthetic_response
  | DropWebsocket

datatype rule_action = Delay nat | Transform rule_transform | Terminal rule_terminal

datatype rule_phase = PhaseRequest | PhaseResponse | PhaseWebsocket

record rule_spec =
  rs_match_on :: rule_match_on
  rs_matcher :: rule_matcher
  rs_action :: rule_action

text \<open>Directions and opcodes are finite: a predicate over all of them can be evaluated.\<close>

instantiation ws_direction :: enum
begin

definition enum_ws_direction :: "ws_direction list" where
  "enum_ws_direction = [C2s, S2c]"

definition enum_all_ws_direction :: "(ws_direction \<Rightarrow> bool) \<Rightarrow> bool" where
  "enum_all_ws_direction P \<longleftrightarrow> P C2s \<and> P S2c"

definition enum_ex_ws_direction :: "(ws_direction \<Rightarrow> bool) \<Rightarrow> bool" where
  "enum_ex_ws_direction P \<longleftrightarrow> P C2s \<or> P S2c"

instance
proof
  show univ: "UNIV = set (enum_class.enum :: ws_direction list)"
    by (auto simp: enum_ws_direction_def) (metis ws_direction.exhaust)
  show "distinct (enum_class.enum :: ws_direction list)"
    by (simp add: enum_ws_direction_def)
  show "enum_class.enum_all P \<longleftrightarrow> Ball UNIV P" for P :: "ws_direction \<Rightarrow> bool"
    unfolding univ by (simp add: enum_all_ws_direction_def enum_ws_direction_def)
  show "enum_class.enum_ex P \<longleftrightarrow> Bex UNIV P" for P :: "ws_direction \<Rightarrow> bool"
    unfolding univ by (simp add: enum_ex_ws_direction_def enum_ws_direction_def)
qed

end

instantiation ws_opcode :: enum
begin

definition enum_ws_opcode :: "ws_opcode list" where
  "enum_ws_opcode = [WsText, WsBinary, WsPing, WsPong, WsClose]"

definition enum_all_ws_opcode :: "(ws_opcode \<Rightarrow> bool) \<Rightarrow> bool" where
  "enum_all_ws_opcode P \<longleftrightarrow> list_all P [WsText, WsBinary, WsPing, WsPong, WsClose]"

definition enum_ex_ws_opcode :: "(ws_opcode \<Rightarrow> bool) \<Rightarrow> bool" where
  "enum_ex_ws_opcode P \<longleftrightarrow> list_ex P [WsText, WsBinary, WsPing, WsPong, WsClose]"

instance
proof
  show univ: "UNIV = set (enum_class.enum :: ws_opcode list)"
    by (auto simp: enum_ws_opcode_def) (metis ws_opcode.exhaust)
  show "distinct (enum_class.enum :: ws_opcode list)"
    by (simp add: enum_ws_opcode_def)
  show "enum_class.enum_all P \<longleftrightarrow> Ball UNIV P" for P :: "ws_opcode \<Rightarrow> bool"
    unfolding univ by (simp add: enum_all_ws_opcode_def enum_ws_opcode_def)
  show "enum_class.enum_ex P \<longleftrightarrow> Bex UNIV P" for P :: "ws_opcode \<Rightarrow> bool"
    unfolding univ by (simp add: enum_ex_ws_opcode_def enum_ws_opcode_def)
qed

end

section \<open>Phase and kind of a rule\<close>

fun transform_phase :: "rule_transform \<Rightarrow> rule_phase" where
  "transform_phase (MapRemote target) = PhaseRequest"
| "transform_phase (SetRequestHeader name value) = PhaseRequest"
| "transform_phase (SetStatus status) = PhaseResponse"
| "transform_phase (SetResponseHeader name value) = PhaseResponse"
| "transform_phase (ReplaceBody pattern replacement) = PhaseResponse"
| "transform_phase (SetJson pointer expected value limit) = PhaseResponse"
| "transform_phase (SetWebsocketText txt) = PhaseWebsocket"

fun terminal_phase :: "rule_terminal \<Rightarrow> rule_phase" where
  "terminal_phase (Block status) = PhaseRequest"
| "terminal_phase (MapLocal path) = PhaseRequest"
| "terminal_phase (Respond response) = PhaseRequest"
| "terminal_phase DropWebsocket = PhaseWebsocket"

definition phase :: "rule_spec \<Rightarrow> rule_phase" where
  "phase spec =
     (case rs_action spec of
        Delay ms \<Rightarrow> PhaseRequest
      | Transform t \<Rightarrow> transform_phase t
      | Terminal t \<Rightarrow> terminal_phase t)"

definition action_kind :: "rule_spec \<Rightarrow> string" where
  "action_kind spec =
     (case rs_action spec of
        Delay ms \<Rightarrow> ''delay''
      | Transform t \<Rightarrow>
          (case t of
             MapRemote target \<Rightarrow> ''map_remote''
           | SetRequestHeader name value \<Rightarrow> ''set_request_header''
           | SetStatus status \<Rightarrow> ''set_status''
           | SetResponseHeader name value \<Rightarrow> ''set_response_header''
           | ReplaceBody pattern replacement \<Rightarrow> ''replace_body''
           | SetJson pointer expected value limit \<Rightarrow> ''set_json''
           | SetWebsocketText txt \<Rightarrow> ''set_websocket_text'')
      | Terminal t \<Rightarrow>
          (case t of
             Block status \<Rightarrow> ''block''
           | MapLocal path \<Rightarrow> ''map_local''
           | Respond response \<Rightarrow> ''respond''
           | DropWebsocket \<Rightarrow> ''drop_websocket''))"

definition is_terminal :: "rule_spec \<Rightarrow> bool" where
  "is_terminal spec \<longleftrightarrow> (case rs_action spec of Terminal t \<Rightarrow> True | _ \<Rightarrow> False)"

section \<open>The old form of a rule\<close>

record net_matcher =
  nm_host :: "string option"
  nm_path :: "string option"
  nm_method :: "string option"
  nm_status :: "nat option"

datatype matcher_field =
    FieldHost
  | FieldPath
  | FieldMethod
  | FieldStatus
  | FieldContentType
  | FieldGraphqlOperation
  | FieldDirection
  | FieldOpcode

datatype rule_error =
    ArgCount string nat nat
  | BlockArgCount nat
  | InvalidFinalStatusText string
  | MissingResponse
  | InvalidDelay string
  | SetJsonArgs
  | ExpectedNotJson
  | ReplacementNotJson
  | MaxApplicationsNotInteger
  | UnknownKind string
  | InvalidWsDirection string
  | InvalidWsOpcode string
  | EmptyAny
  | EmptySubstring
  | EmptyExact
  | InvalidStatusMatcher nat
  | FieldNotAvailable matcher_field rule_phase
  | InvalidFinalStatus nat
  | InvalidHeaderName string
  | InvalidHeaderValue string
  | ManagedRequestHeader string
  | ManagedResponseHeader string
  | InvalidRegex string
  | NotJsonPointer
  | MaxApplicationsZero
  | SetJsonSameValue
  | UnreadableLocalFile string
  | NotRegularFile string
  | RespondBodyTooLong nat
  | EmptyTarget
  | InvalidTarget string
  | TargetWithoutHost string
  | TargetWithCredentials
  | TargetWithQuery

definition ws_direction_of :: "string \<Rightarrow> ws_direction option" where
  "ws_direction_of s = (if s = ''c2s'' then Some C2s else if s = ''s2c'' then Some S2c else None)"

definition ws_opcode_of :: "string \<Rightarrow> ws_opcode option" where
  "ws_opcode_of s =
     (if s = ''text'' then Some WsText else if s = ''binary'' then Some WsBinary
      else if s = ''ping'' then Some WsPing else if s = ''pong'' then Some WsPong
      else if s = ''close'' then Some WsClose else None)"

text \<open>
  What the rule language calls outside the repository: \<open>str::to_lowercase\<close> (the Unicode case tables),
  \<open>reqwest::Url::parse\<close> with \<open>query_pairs\<close>, and the JSON parser.
\<close>

record rule_ext =
  rx_lowercase :: "string \<Rightarrow> string"
  rx_query_pairs :: "string \<Rightarrow> (string \<times> string) list option"
  rx_parse_json :: "byte list \<Rightarrow> json option"

definition exact :: "string \<Rightarrow> string list \<Rightarrow> nat \<Rightarrow> rule_error option" where
  "exact kind args wanted =
     (if length args = wanted then None else Some (ArgCount kind wanted (length args)))"

definition legacy_set_json :: "rule_ext \<Rightarrow> string list \<Rightarrow> rule_error + rule_action" where
  "legacy_set_json ext args =
     (if length args < 3 \<or> length args > 4 then Inl SetJsonArgs
      else case rx_parse_json ext (str_bytes (args ! 1)) of
        None \<Rightarrow> Inl ExpectedNotJson
      | Some expected \<Rightarrow>
          (case rx_parse_json ext (str_bytes (args ! 2)) of
             None \<Rightarrow> Inl ReplacementNotJson
           | Some value \<Rightarrow>
               if length args = 4 then
                 (case parse_unsigned 32 (args ! 3) of
                    None \<Rightarrow> Inl MaxApplicationsNotInteger
                  | Some n \<Rightarrow> Inr (Transform (SetJson (args ! 0) expected value n)))
               else Inr (Transform (SetJson (args ! 0) expected value 1))))"

text \<open>\<open>legacy_action\<close>: \<open>checked\<close> runs the argument count test of the branch first.\<close>

definition legacy_action ::
  "rule_ext \<Rightarrow> string \<Rightarrow> synthetic_response option \<Rightarrow> string list \<Rightarrow> rule_error + rule_action" where
  "legacy_action ext kind response args =
     (let checked = (\<lambda>wanted result.
            case exact kind args wanted of Some e \<Rightarrow> Inl e | None \<Rightarrow> result);
          arg = (\<lambda>i. args ! i)
      in
      if kind = ''respond'' then
        checked 0 (case response of None \<Rightarrow> Inl MissingResponse
                   | Some r \<Rightarrow> Inr (Terminal (Respond r)))
      else if kind = ''block'' then
        (case args of
           [] \<Rightarrow> Inr (Terminal (Block 444))
         | [raw] \<Rightarrow>
             (case parse_unsigned 16 raw of
                None \<Rightarrow> Inl (InvalidFinalStatusText raw)
              | Some status \<Rightarrow> Inr (Terminal (Block status)))
         | _ \<Rightarrow> Inl (BlockArgCount (length args)))
      else if kind = ''delay'' then
        checked 1 (case parse_unsigned 32 (arg 0) of
                     None \<Rightarrow> Inl (InvalidDelay (arg 0))
                   | Some ms \<Rightarrow> Inr (Delay ms))
      else if kind = ''map-local'' then checked 1 (Inr (Terminal (MapLocal (arg 0))))
      else if kind = ''map-remote'' then checked 1 (Inr (Transform (MapRemote (arg 0))))
      else if kind = ''set-status'' then
        checked 1 (case parse_unsigned 16 (arg 0) of
                     None \<Rightarrow> Inl (InvalidFinalStatusText (arg 0))
                   | Some status \<Rightarrow> Inr (Transform (SetStatus status)))
      else if kind = ''set-request-header'' then
        checked 2 (Inr (Transform (SetRequestHeader (arg 0) (arg 1))))
      else if kind = ''set-response-header'' then
        checked 2 (Inr (Transform (SetResponseHeader (arg 0) (arg 1))))
      else if kind = ''set-json'' then legacy_set_json ext args
      else if kind = ''replace'' then checked 2 (Inr (Transform (ReplaceBody (arg 0) (arg 1))))
      else if kind = ''ws-drop'' then checked 0 (Inr (Terminal DropWebsocket))
      else if kind = ''ws-set-text'' then checked 1 (Inr (Transform (SetWebsocketText (arg 0))))
      else Inl (UnknownKind kind))"

definition opt_matcher :: "('a \<Rightarrow> rule_matcher) \<Rightarrow> 'a option \<Rightarrow> rule_matcher list" where
  "opt_matcher f v = (case v of None \<Rightarrow> [] | Some x \<Rightarrow> [f x])"

definition from_legacy_parts ::
  "rule_ext \<Rightarrow> string \<Rightarrow> net_matcher \<Rightarrow> string option \<Rightarrow> string option \<Rightarrow>
   synthetic_response option \<Rightarrow> string option \<Rightarrow> string option \<Rightarrow> string list \<Rightarrow>
   rule_error + rule_spec" where
  "from_legacy_parts ext kind matcher content_type operation_name response ws_dir ws_opcode args =
     (let matchers =
        opt_matcher MHost (nm_host matcher) @ opt_matcher MPath (nm_path matcher) @
        opt_matcher MMethod (nm_method matcher) @ opt_matcher MStatus (nm_status matcher) @
        opt_matcher MContentType content_type @ opt_matcher MGraphqlOperation operation_name;
        finish = (\<lambda>extra.
          case legacy_action ext kind response args of
            Inl e \<Rightarrow> Inl e
          | Inr action \<Rightarrow>
              Inr \<lparr>rs_match_on = MatchOriginal, rs_matcher = MAll (matchers @ extra),
                   rs_action = action\<rparr>);
        with_opcode = (\<lambda>extra.
          case ws_opcode of
            None \<Rightarrow> finish extra
          | Some s \<Rightarrow>
              (case ws_opcode_of s of
                 None \<Rightarrow> Inl (InvalidWsOpcode s)
               | Some op \<Rightarrow> finish (extra @ [MOpcode op])))
      in case ws_dir of
           None \<Rightarrow> with_opcode []
         | Some s \<Rightarrow>
             (case ws_direction_of s of
                None \<Rightarrow> Inl (InvalidWsDirection s)
              | Some d \<Rightarrow> with_opcode [MDirection d]))"

section \<open>Matching\<close>

record match_context =
  mc_host :: string
  mc_path :: string
  mc_method :: string
  mc_status :: "nat option"
  mc_content_type :: "string option"
  mc_body :: "byte list"
  mc_direction :: "ws_direction option"
  mc_opcode :: "string option"

definition contains_ci :: "rule_ext \<Rightarrow> string \<Rightarrow> string \<Rightarrow> bool" where
  "contains_ci ext value needle \<longleftrightarrow> str_contains (rx_lowercase ext value) (rx_lowercase ext needle)"

fun graphql_json_matches :: "string \<Rightarrow> json \<Rightarrow> bool" where
  "graphql_json_matches wanted (JObj kvs) \<longleftrightarrow> map_of kvs ''operationName'' = Some (JStr wanted)"
| "graphql_json_matches wanted (JArr values) \<longleftrightarrow> list_ex (graphql_json_matches wanted) values"
| "graphql_json_matches wanted _ \<longleftrightarrow> False"

definition graphql_operation_matches ::
  "rule_ext \<Rightarrow> string \<Rightarrow> string \<Rightarrow> byte list \<Rightarrow> bool" where
  "graphql_operation_matches ext wanted path body \<longleftrightarrow>
     (let path' = (if starts_with path ''/'' then path else ''/'' @ path);
          pairs = (case rx_query_pairs ext (''http://shadowdroid.invalid'' @ path') of
                     None \<Rightarrow> [] | Some kvs \<Rightarrow> kvs)
      in list_ex (\<lambda>(key, value). key = ''operationName'' \<and> value = wanted) pairs \<or>
         (case rx_parse_json ext body of
            None \<Rightarrow> False | Some value \<Rightarrow> graphql_json_matches wanted value))"

fun matches :: "rule_ext \<Rightarrow> match_context \<Rightarrow> rule_matcher \<Rightarrow> bool" where
  "matches ext ctx (MAll ms) \<longleftrightarrow> list_all (matches ext ctx) ms"
| "matches ext ctx (MAny ms) \<longleftrightarrow> list_ex (matches ext ctx) ms"
| "matches ext ctx (MNot m) \<longleftrightarrow> \<not> matches ext ctx m"
| "matches ext ctx (MHost s) \<longleftrightarrow> contains_ci ext (mc_host ctx) s"
| "matches ext ctx (MPath s) \<longleftrightarrow> contains_ci ext (mc_path ctx) s"
| "matches ext ctx (MMethod s) \<longleftrightarrow> eq_ignore_ascii_case (mc_method ctx) s"
| "matches ext ctx (MStatus n) \<longleftrightarrow> mc_status ctx = Some n"
| "matches ext ctx (MContentType s) \<longleftrightarrow>
     (case mc_content_type ctx of None \<Rightarrow> False | Some v \<Rightarrow> contains_ci ext v s)"
| "matches ext ctx (MGraphqlOperation s) \<longleftrightarrow>
     graphql_operation_matches ext s (mc_path ctx) (mc_body ctx)"
| "matches ext ctx (MDirection d) \<longleftrightarrow> mc_direction ctx = Some d"
| "matches ext ctx (MOpcode op) \<longleftrightarrow>
     (case mc_opcode ctx of None \<Rightarrow> False | Some s \<Rightarrow> eq_ignore_ascii_case s (ws_opcode_str op))"

text \<open>
  \<open>explain\<close>: the JSON tree of a verdict. \<open>show\<close> is the serialized form of a predicate (derived by
  \<open>serde\<close>).
\<close>

definition json_matched :: "json \<Rightarrow> bool" where
  "json_matched v \<longleftrightarrow>
     (case v of JObj kvs \<Rightarrow> map_of kvs ''matched'' = Some (JBool True) | _ \<Rightarrow> False)"

fun explain :: "rule_ext \<Rightarrow> (rule_matcher \<Rightarrow> json) \<Rightarrow> match_context \<Rightarrow> rule_matcher \<Rightarrow> json" where
  "explain ext shown ctx (MAll ms) =
     (let children = map (explain ext shown ctx) ms in
      jobj [(''type'', JStr ''all''), (''matched'', JBool (list_all json_matched children)),
            (''children'', JArr children)])"
| "explain ext shown ctx (MAny ms) =
     (let children = map (explain ext shown ctx) ms in
      jobj [(''type'', JStr ''any''), (''matched'', JBool (list_ex json_matched children)),
            (''children'', JArr children)])"
| "explain ext shown ctx (MNot m) =
     (let child = explain ext shown ctx m in
      jobj [(''type'', JStr ''not''), (''matched'', JBool (\<not> json_matched child)),
            (''child'', child)])"
| "explain ext shown ctx m =
     jobj [(''predicate'', shown m), (''matched'', JBool (matches ext ctx m))]"

definition ws_context :: "string \<Rightarrow> ws_direction \<Rightarrow> string \<Rightarrow> match_context" where
  "ws_context host dir op =
     \<lparr>mc_host = host, mc_path = [], mc_method = [], mc_status = None, mc_content_type = None,
      mc_body = [], mc_direction = Some dir, mc_opcode = Some op\<rparr>"

definition could_match_websocket_direction ::
  "rule_ext \<Rightarrow> rule_matcher \<Rightarrow> string \<Rightarrow> ws_direction \<Rightarrow> bool" where
  "could_match_websocket_direction ext m host dir \<longleftrightarrow>
     list_ex (\<lambda>op. matches ext (ws_context host dir op) m)
       [''text'', ''binary'', ''ping'', ''pong'', ''close'']"

section \<open>The JSON edit\<close>

record json_runtime =
  jr_applications :: nat
  jr_rejections :: nat
  jr_last_error :: "string option"

definition json_runtime_default :: json_runtime where
  "json_runtime_default = \<lparr>jr_applications = 0, jr_rejections = 0, jr_last_error = None\<rparr>"

text \<open>The JSON library: parser, lookup and update at a pointer, and encoder.\<close>

record json_ext =
  jx_parse :: "byte list \<Rightarrow> json option"
  jx_pointer :: "json \<Rightarrow> string \<Rightarrow> json option"
  jx_pointer_set :: "json \<Rightarrow> string \<Rightarrow> json \<Rightarrow> json"
  jx_encode :: "json \<Rightarrow> byte list option"

definition json_edit ::
  "json_ext \<Rightarrow> string \<Rightarrow> json \<Rightarrow> json \<Rightarrow> byte list \<Rightarrow> string + byte list" where
  "json_edit jx pointer expected value body =
     (case jx_parse jx body of
        None \<Rightarrow> Inl ''json_body_invalid''
      | Some document \<Rightarrow>
          (case jx_pointer jx document pointer of
             None \<Rightarrow> Inl ''json_pointer_missing''
           | Some field \<Rightarrow>
               if field \<noteq> expected then Inl ''json_expected_value_mismatch''
               else (case jx_encode jx (jx_pointer_set jx document pointer value) of
                       None \<Rightarrow> Inl ''json_encode_failed''
                     | Some bytes \<Rightarrow> Inr bytes)))"

definition apply_json ::
  "json_ext \<Rightarrow> rule_spec \<Rightarrow> json_runtime \<Rightarrow> byte list \<Rightarrow>
   json_runtime \<times> (string + byte list option)" where
  "apply_json jx spec runtime body =
     (case rs_action spec of
        Transform (SetJson pointer expected value max_applications) \<Rightarrow>
          if jr_applications runtime \<ge> max_applications then (runtime, Inr None)
          else (case json_edit jx pointer expected value body of
                  Inr bytes \<Rightarrow>
                    (runtime\<lparr>jr_applications := u32_add (jr_applications runtime) 1,
                             jr_last_error := None\<rparr>, Inr (Some bytes))
                | Inl code \<Rightarrow>
                    (runtime\<lparr>jr_rejections := u64_add (jr_rejections runtime) 1,
                             jr_last_error := Some code\<rparr>, Inl code))
      | _ \<Rightarrow> (runtime, Inr None))"

fun apply_json_all ::
  "json_ext \<Rightarrow> rule_spec \<Rightarrow> json_runtime \<Rightarrow> byte list list \<Rightarrow>
   json_runtime \<times> (string + byte list option) list" where
  "apply_json_all jx spec runtime [] = (runtime, [])"
| "apply_json_all jx spec runtime (body # bodies) =
     (let (r1, res) = apply_json jx spec runtime body;
          (r2, rest) = apply_json_all jx spec r1 bodies
      in (r2, res # rest))"

section \<open>Properties of matching\<close>

lemma jobj_matched:
  "json_matched (jobj [(a, x), (''matched'', JBool b), (c, y)]) = b" if "c \<noteq> ''matched''"
  using that by (simp add: jobj_def json_matched_def)

lemma jobj_matched2: "json_matched (jobj [(a, x), (''matched'', JBool b)]) = b"
  by (simp add: jobj_def json_matched_def)

lemma explain_matched: "json_matched (explain ext shown ctx m) = matches ext ctx m"
proof (induction m)
  case (MAll ms)
  then show ?case by (simp add: jobj_matched Let_def list_all_iff)
next
  case (MAny ms)
  then show ?case by (simp add: jobj_matched Let_def list_ex_iff)
next
  case (MNot m)
  then show ?case by (simp add: jobj_matched Let_def)
qed (simp_all add: jobj_matched2)

text \<open>
  The explanation shown to the agent never disagrees with the matcher: the
  \<open>matched\<close> flag of the tree is the verdict of \<open>matches\<close>, at every depth of the expression.
\<close>

theorem explain_agrees: "json_matched (explain ext shown ctx m) = matches ext ctx m"
  by (rule explain_matched)

lemma ws_opcode_all: "(\<exists>op :: ws_opcode. P op) \<longleftrightarrow> P WsText \<or> P WsBinary \<or> P WsPing \<or> P WsPong \<or> P WsClose"
  by (metis ws_opcode.exhaust)

lemma could_match_iff:
  "could_match_websocket_direction ext m host dir \<longleftrightarrow>
     (\<exists>op :: ws_opcode. matches ext (ws_context host dir (ws_opcode_str op)) m)"
  unfolding ws_opcode_all by (simp add: could_match_websocket_direction_def)

text \<open>
  A direction is judged unreachable for a rule exactly when the rule matches
  no frame of the five opcodes in that direction.
\<close>

theorem could_match_complete:
  "could_match_websocket_direction ext m host dir \<longleftrightarrow>
     (\<exists>op \<in> set (enum_class.enum :: ws_opcode list). matches ext (ws_context host dir (ws_opcode_str op)) m)"
  by (simp add: could_match_iff enum_UNIV)

definition holds_if :: "('a \<Rightarrow> bool) \<Rightarrow> 'a option \<Rightarrow> bool" where
  "holds_if P v \<longleftrightarrow> (case v of None \<Rightarrow> True | Some x \<Rightarrow> P x)"

lemma matches_opt: "list_all (matches ext ctx) (opt_matcher f v) \<longleftrightarrow> holds_if (\<lambda>x. matches ext ctx (f x)) v"
  by (simp add: opt_matcher_def holds_if_def split: option.splits)

lemma from_legacy_parts_accepted:
  assumes "from_legacy_parts ext kind m content_type operation response ws_dir ws_opcode args = Inr spec"
  shows "\<exists>dir op. rs_matcher spec = MAll (
        (opt_matcher MHost (nm_host m) @ opt_matcher MPath (nm_path m) @
         opt_matcher MMethod (nm_method m) @ opt_matcher MStatus (nm_status m) @
         opt_matcher MContentType content_type @ opt_matcher MGraphqlOperation operation) @
        opt_matcher MDirection dir @ opt_matcher MOpcode op) \<and>
      map_option Some dir = map_option ws_direction_of ws_dir \<and>
      map_option Some op = map_option ws_opcode_of ws_opcode \<and>
      rs_match_on spec = MatchOriginal \<and> legacy_action ext kind response args = Inr (rs_action spec)"
proof -
  obtain dir where dir: "map_option Some dir = map_option ws_direction_of ws_dir"
    using assms by (cases ws_dir; cases "ws_direction_of (the ws_dir)") (auto simp: from_legacy_parts_def Let_def)
  obtain op where op: "map_option Some op = map_option ws_opcode_of ws_opcode"
    using assms by (cases ws_opcode; cases "ws_opcode_of (the ws_opcode)")
      (auto simp: from_legacy_parts_def Let_def split: option.splits)
  obtain action where act: "legacy_action ext kind response args = Inr action"
    using assms by (cases "legacy_action ext kind response args")
      (auto simp: from_legacy_parts_def Let_def split: option.splits)
  show ?thesis
    using assms dir op act unfolding from_legacy_parts_def Let_def
    by (intro exI [of _ dir] exI [of _ op]; cases ws_dir; cases ws_opcode)
       (auto simp: opt_matcher_def [of MDirection] opt_matcher_def [of MOpcode] split: option.splits)
qed

definition present_and :: "('a \<Rightarrow> bool) \<Rightarrow> 'a option \<Rightarrow> bool" where
  "present_and P v \<longleftrightarrow> (case v of None \<Rightarrow> False | Some x \<Rightarrow> P x)"

lemma matches_present:
  "matches ext ctx (MContentType s) = present_and (\<lambda>v. contains_ci ext v s) (mc_content_type ctx)"
  "matches ext ctx (MOpcode op) = present_and (\<lambda>v. eq_ignore_ascii_case v (ws_opcode_str op)) (mc_opcode ctx)"
  by (simp_all add: present_and_def)

lemmas matches_field = matches.simps(4-7,9,10) matches_present

lemma matches_parts:
  "matches ext ctx (MAll ((opt_matcher MHost h @ opt_matcher MPath p @ opt_matcher MMethod m @
      opt_matcher MStatus st @ opt_matcher MContentType ct @ opt_matcher MGraphqlOperation g) @
      opt_matcher MDirection d @ opt_matcher MOpcode op)) \<longleftrightarrow>
    holds_if (contains_ci ext (mc_host ctx)) h \<and>
    holds_if (contains_ci ext (mc_path ctx)) p \<and>
    holds_if (eq_ignore_ascii_case (mc_method ctx)) m \<and>
    holds_if (\<lambda>n. mc_status ctx = Some n) st \<and>
    holds_if (\<lambda>s. present_and (\<lambda>v. contains_ci ext v s) (mc_content_type ctx)) ct \<and>
    holds_if (\<lambda>s. graphql_operation_matches ext s (mc_path ctx) (mc_body ctx)) g \<and>
    holds_if (\<lambda>d. mc_direction ctx = Some d) d \<and>
    holds_if (\<lambda>op. present_and (\<lambda>v. eq_ignore_ascii_case v (ws_opcode_str op)) (mc_opcode ctx)) op"
  by (simp only: matches.simps(1) list_all_append matches_opt matches_field conj_assoc)

lemma holds_if_parsed:
  "map_option Some x = map_option f s \<Longrightarrow> holds_if P x = holds_if (\<lambda>t. present_and P (f t)) s"
  by (cases x; cases s) (auto simp: holds_if_def present_and_def dest: sym)

text \<open>
  A rule in the old form, when it is accepted, matches exactly the contexts
  that satisfy every field given, tests the values before any earlier rule, and has the action its
  kind and arguments denote.
\<close>

theorem legacy_rule_meaning:
  assumes "from_legacy_parts ext kind m content_type operation response ws_dir ws_opcode args = Inr spec"
  shows "(matches ext ctx (rs_matcher spec) \<longleftrightarrow>
      holds_if (contains_ci ext (mc_host ctx)) (nm_host m) \<and>
      holds_if (contains_ci ext (mc_path ctx)) (nm_path m) \<and>
      holds_if (eq_ignore_ascii_case (mc_method ctx)) (nm_method m) \<and>
      holds_if (\<lambda>n. mc_status ctx = Some n) (nm_status m) \<and>
      holds_if (\<lambda>s. present_and (\<lambda>v. contains_ci ext v s) (mc_content_type ctx)) content_type \<and>
      holds_if (\<lambda>s. graphql_operation_matches ext s (mc_path ctx) (mc_body ctx)) operation \<and>
      holds_if (\<lambda>s. present_and (\<lambda>d. mc_direction ctx = Some d) (ws_direction_of s)) ws_dir \<and>
      holds_if (\<lambda>s. present_and (\<lambda>op. present_and (\<lambda>v. eq_ignore_ascii_case v (ws_opcode_str op))
        (mc_opcode ctx)) (ws_opcode_of s)) ws_opcode) \<and>
    rs_match_on spec = MatchOriginal \<and> legacy_action ext kind response args = Inr (rs_action spec)"
proof -
  obtain dir op where parts: "rs_matcher spec = MAll (
        (opt_matcher MHost (nm_host m) @ opt_matcher MPath (nm_path m) @
         opt_matcher MMethod (nm_method m) @ opt_matcher MStatus (nm_status m) @
         opt_matcher MContentType content_type @ opt_matcher MGraphqlOperation operation) @
        opt_matcher MDirection dir @ opt_matcher MOpcode op)"
    and dir: "map_option Some dir = map_option ws_direction_of ws_dir"
    and op: "map_option Some op = map_option ws_opcode_of ws_opcode"
    and rest: "rs_match_on spec = MatchOriginal" "legacy_action ext kind response args = Inr (rs_action spec)"
    using from_legacy_parts_accepted [OF assms] by blast
  show ?thesis
    using rest by (simp only: parts matches_parts holds_if_parsed [OF dir] holds_if_parsed [OF op])
qed

text \<open>Stand-ins for the library functions in the witnesses.\<close>

definition ext_ascii :: rule_ext where
  "ext_ascii = \<lparr>rx_lowercase = to_ascii_lowercase, rx_query_pairs = (\<lambda>_. None),
     rx_parse_json = (\<lambda>_. None)\<rparr>"

theorem legacy_rule_meaning_witness:
  "\<exists>spec. from_legacy_parts ext_ascii ''block''
       \<lparr>nm_host = Some ''a'', nm_path = None, nm_method = None, nm_status = None\<rparr>
       None None None None None [] = Inr spec \<and>
     matches ext_ascii (ws_context ''xax'' C2s ''text'') (rs_matcher spec)"
proof -
  let ?m = "\<lparr>nm_host = Some ''a'', nm_path = None, nm_method = None, nm_status = None\<rparr>"
  obtain spec where spec: "from_legacy_parts ext_ascii ''block'' ?m None None None None None [] = Inr spec"
    by (simp add: from_legacy_parts_def legacy_action_def opt_matcher_def)
  have "contains_ci ext_ascii ''xax'' ''a''"
    by (simp add: contains_ci_def ext_ascii_def to_ascii_lowercase_def ascii_lower_char_def Let_def)
  then show ?thesis
    using legacy_rule_meaning [OF spec, of "ws_context ''xax'' C2s ''text''"] spec
    by (auto simp: holds_if_def ws_context_def)
qed

section \<open>The application limit\<close>

lemma apply_json_all_limit:
  assumes "rs_action spec = Transform (SetJson pointer expected value limit)" "limit < 2 ^ 32"
    "jr_applications runtime \<le> limit" "apply_json_all jx spec runtime bodies = (runtime', results)"
  shows "jr_applications runtime' = jr_applications runtime +
      length (filter (\<lambda>r. \<exists>bytes. r = Inr (Some bytes)) results) \<and> jr_applications runtime' \<le> limit"
  using assms(3,4)
proof (induction bodies arbitrary: runtime results)
  case Nil
  then show ?case by auto
next
  case (Cons body bodies)
  obtain r1 res where step: "apply_json jx spec runtime body = (r1, res)"
    by fastforce
  obtain rest where rest: "apply_json_all jx spec r1 bodies = (runtime', rest)" "results = res # rest"
    using Cons.prems(2) step by (auto split: prod.splits)
  have "jr_applications r1 = jr_applications runtime + (if \<exists>bytes. res = Inr (Some bytes) then 1 else 0) \<and>
      jr_applications r1 \<le> limit"
    using step Cons.prems(1) assms(1,2)
    by (auto simp: apply_json_def u32_add_def split: if_splits sum.splits)
  then show ?case
    using Cons.IH [of r1 rest] rest by (auto split: if_splits)
qed

text \<open>
  However many bodies pass through it, a \<open>set-json\<close> rule edits at most its limit
  of them, its counter is exactly the number of edits made, and a body it does not edit is handed on
  unchanged or rejected with a code.
\<close>

theorem json_edit_limit:
  assumes "rs_action spec = Transform (SetJson pointer expected value limit)" "limit < 2 ^ 32"
    "apply_json_all jx spec json_runtime_default bodies = (runtime, results)"
  shows "jr_applications runtime = length (filter (\<lambda>r. \<exists>bytes. r = Inr (Some bytes)) results) \<and>
    jr_applications runtime \<le> limit"
  using apply_json_all_limit [OF assms(1,2) _ assms(3)] by (simp add: json_runtime_default_def)

definition json_always :: json_ext where
  "json_always = \<lparr>jx_parse = (\<lambda>_. Some JNull), jx_pointer = (\<lambda>v p. Some v),
     jx_pointer_set = (\<lambda>d p v. v), jx_encode = (\<lambda>_. Some [1])\<rparr>"

theorem json_edit_limit_witness:
  "\<exists>runtime. apply_json_all json_always
      \<lparr>rs_match_on = MatchOriginal, rs_matcher = MAll [],
       rs_action = Transform (SetJson ''/a'' JNull (JBool True) 1)\<rparr>
      json_runtime_default [[], []] = (runtime, [Inr (Some [1]), Inr None]) \<and>
     jr_applications runtime \<le> 1"
proof -
  let ?spec = "\<lparr>rs_match_on = MatchOriginal, rs_matcher = MAll [],
       rs_action = Transform (SetJson ''/a'' JNull (JBool True) 1)\<rparr>"
  obtain runtime where run: "apply_json_all json_always ?spec json_runtime_default [[], []] =
      (runtime, [Inr (Some [1]), Inr None])"
    by (simp add: apply_json_def json_edit_def json_always_def json_runtime_default_def u32_add_def)
  then show ?thesis
    using json_edit_limit [OF _ _ run] by auto
qed

end
