(* ===== verification/NetRuleCheck.thy ===== *)
theory NetRuleCheck
  imports NetRule Utf8
begin

text \<open>
  Compilation and lint of rules (\<^verbatim>\<open>net/rule.rs\<close>): the validation a rule passes before it becomes
  active, and the structural warnings about a list of rules. Regular expressions, HTTP header syntax,
  URL parsing and the file system are the record \<open>compile_ext\<close>.
\<close>

section \<open>What the compiler calls\<close>

record parsed_url =
  pu_scheme :: string
  pu_has_host :: bool
  pu_username :: string
  pu_password :: "string option"
  pu_query :: "string option"
  pu_fragment :: "string option"

datatype file_state = FileMissing | FileNotRegular | FileUnreadable | FileBytes "byte list"

record compile_ext =
  cx_regex_ok :: "string \<Rightarrow> bool"
  cx_header_name_ok :: "string \<Rightarrow> bool"
  cx_header_value_ok :: "string \<Rightarrow> bool"
  cx_parse_url :: "string \<Rightarrow> parsed_url option"
  cx_file :: "string \<Rightarrow> file_state"

section \<open>Validation\<close>

text \<open>A check succeeds with \<open>None\<close> or fails with an error; checks run one after the other.\<close>

fun first_error :: "'e option list \<Rightarrow> 'e option" where
  "first_error [] = None"
| "first_error (None # es) = first_error es"
| "first_error (Some e # es) = Some e"

lemma first_error_None [simp]: "first_error es = None \<longleftrightarrow> (\<forall>e\<in>set es. e = None)"
  by (induction es rule: first_error.induct) auto

fun validate_matcher :: "rule_matcher \<Rightarrow> rule_error option" where
  "validate_matcher (MAll ms) = first_error (map validate_matcher ms)"
| "validate_matcher (MAny ms) =
     (if ms = [] then Some EmptyAny else first_error (map validate_matcher ms))"
| "validate_matcher (MNot m) = validate_matcher m"
| "validate_matcher (MHost s) = (if str_trim s = [] then Some EmptySubstring else None)"
| "validate_matcher (MPath s) = (if str_trim s = [] then Some EmptySubstring else None)"
| "validate_matcher (MContentType s) = (if str_trim s = [] then Some EmptySubstring else None)"
| "validate_matcher (MMethod s) = (if str_trim s = [] then Some EmptyExact else None)"
| "validate_matcher (MGraphqlOperation s) = (if str_trim s = [] then Some EmptyExact else None)"
| "validate_matcher (MStatus n) =
     (if \<not> (100 \<le> n \<and> n \<le> 599) then Some (InvalidStatusMatcher n) else None)"
| "validate_matcher (MDirection d) = None"
| "validate_matcher (MOpcode op) = None"

fun matcher_fields :: "rule_matcher \<Rightarrow> matcher_field list" where
  "matcher_fields (MAll ms) = concat (map matcher_fields ms)"
| "matcher_fields (MAny ms) = concat (map matcher_fields ms)"
| "matcher_fields (MNot m) = matcher_fields m"
| "matcher_fields (MHost s) = [FieldHost]"
| "matcher_fields (MPath s) = [FieldPath]"
| "matcher_fields (MMethod s) = [FieldMethod]"
| "matcher_fields (MStatus n) = [FieldStatus]"
| "matcher_fields (MContentType s) = [FieldContentType]"
| "matcher_fields (MGraphqlOperation s) = [FieldGraphqlOperation]"
| "matcher_fields (MDirection d) = [FieldDirection]"
| "matcher_fields (MOpcode op) = [FieldOpcode]"

definition field_invalid :: "rule_phase \<Rightarrow> matcher_field \<Rightarrow> bool" where
  "field_invalid ph field \<longleftrightarrow>
     (case ph of
        PhaseRequest \<Rightarrow> field \<in> {FieldStatus, FieldContentType, FieldDirection, FieldOpcode}
      | PhaseResponse \<Rightarrow> field \<in> {FieldDirection, FieldOpcode}
      | PhaseWebsocket \<Rightarrow> field \<notin> {FieldHost, FieldDirection, FieldOpcode})"

definition validate_phase_matchers :: "rule_spec \<Rightarrow> rule_error option" where
  "validate_phase_matchers spec =
     (case find (field_invalid (phase spec)) (matcher_fields (rs_matcher spec)) of
        Some field \<Rightarrow> Some (FieldNotAvailable field (phase spec))
      | None \<Rightarrow> None)"

definition validate_final_status :: "nat \<Rightarrow> rule_error option" where
  "validate_final_status status =
     (if 200 \<le> status \<and> status \<le> 599 then None else Some (InvalidFinalStatus status))"

definition validate_header :: "compile_ext \<Rightarrow> string \<Rightarrow> string \<Rightarrow> rule_error option" where
  "validate_header cx name value =
     (if \<not> cx_header_name_ok cx name then Some (InvalidHeaderName name)
      else if \<not> cx_header_value_ok cx value then Some (InvalidHeaderValue name)
      else None)"

definition is_managed_request_header :: "string \<Rightarrow> bool" where
  "is_managed_request_header name \<longleftrightarrow>
     to_ascii_lowercase name \<in> set [''host'', ''content-length'', ''transfer-encoding'', ''connection'',
       ''proxy-connection'', ''keep-alive'', ''proxy-authenticate'', ''proxy-authorization'', ''te'',
       ''trailer'', ''upgrade'']"

definition is_managed_response_header :: "string \<Rightarrow> bool" where
  "is_managed_response_header name \<longleftrightarrow>
     to_ascii_lowercase name \<in> set [''content-length'', ''content-encoding'', ''transfer-encoding'',
       ''connection'', ''proxy-connection'', ''keep-alive'', ''proxy-authenticate'',
       ''proxy-authorization'', ''te'', ''trailer'', ''upgrade'']"

definition validate_map_remote_target :: "compile_ext \<Rightarrow> string \<Rightarrow> rule_error option" where
  "validate_map_remote_target cx raw =
     (let target = str_trim raw in
      if target = [] then Some EmptyTarget
      else
        let candidate = (if str_contains target ''://'' then target else ''http://'' @ target) in
        case cx_parse_url cx candidate of
          None \<Rightarrow> Some (InvalidTarget target)
        | Some url \<Rightarrow>
            if \<not> (pu_scheme url = ''http'' \<or> pu_scheme url = ''https'') \<or> \<not> pu_has_host url
            then Some (TargetWithoutHost target)
            else if pu_username url \<noteq> [] \<or> pu_password url \<noteq> None then Some TargetWithCredentials
            else if pu_query url \<noteq> None \<or> pu_fragment url \<noteq> None then Some TargetWithQuery
            else None)"

text \<open>\<open>Path::extension\<close>: what follows the last dot of the file name, unless the dot starts it.\<close>

definition path_file_name :: "string \<Rightarrow> string option" where
  "path_file_name path =
     (let parts = filter (\<lambda>p. p \<noteq> [] \<and> p \<noteq> ''.'') (split_on CHR ''/'' path) in
      if parts = [] \<or> last parts = ''..'' then None else Some (last parts))"

definition path_extension :: "string \<Rightarrow> string option" where
  "path_extension path =
     (case path_file_name path of
        None \<Rightarrow> None
      | Some name \<Rightarrow>
          let pieces = split_on CHR ''.'' name in
          if length pieces < 2 \<or> concat (butlast pieces) = [] \<and> length pieces = 2 then None
          else Some (last pieces))"

definition guess_content_type :: "string \<Rightarrow> string" where
  "guess_content_type path =
     (case path_extension path of
        None \<Rightarrow> ''application/octet-stream''
      | Some ext \<Rightarrow>
          if ext = ''json'' then ''application/json''
          else if ext = ''html'' \<or> ext = ''htm'' then ''text/html''
          else if ext = ''css'' then ''text/css''
          else if ext = ''js'' then ''application/javascript''
          else if ext = ''xml'' then ''application/xml''
          else if ext = ''txt'' then ''text/plain''
          else if ext = ''png'' then ''image/png''
          else if ext = ''jpg'' \<or> ext = ''jpeg'' then ''image/jpeg''
          else if ext = ''gif'' then ''image/gif''
          else if ext = ''svg'' then ''image/svg+xml''
          else if ext = ''webp'' then ''image/webp''
          else ''application/octet-stream'')"

section \<open>Compilation\<close>

record local_response =
  lr_status :: nat
  lr_headers :: "(string \<times> string) list"
  lr_body :: "byte list"

record compiled_rule =
  cr_spec :: rule_spec
  cr_replace_regex :: "string option"
  cr_local_response :: "local_response option"
  cr_json_runtime :: json_runtime

definition compiled :: "rule_spec \<Rightarrow> string option \<Rightarrow> local_response option \<Rightarrow> compiled_rule" where
  "compiled spec regex response =
     \<lparr>cr_spec = spec, cr_replace_regex = regex, cr_local_response = response,
      cr_json_runtime = json_runtime_default\<rparr>"

definition json_pointer_ok :: "string \<Rightarrow> bool" where
  "json_pointer_ok pointer \<longleftrightarrow>
     starts_with pointer ''/'' \<and>
     list_all (\<lambda>s. starts_with s ''0'' \<or> starts_with s ''1'') (drop 1 (split_on CHR ''~'' pointer))"

definition validate_transform :: "compile_ext \<Rightarrow> rule_transform \<Rightarrow> rule_error option" where
  "validate_transform cx transform =
     (case transform of
        MapRemote target \<Rightarrow> validate_map_remote_target cx target
      | SetRequestHeader name value \<Rightarrow>
          first_error [validate_header cx name value,
            (if is_managed_request_header name then Some (ManagedRequestHeader name) else None)]
      | SetStatus status \<Rightarrow> validate_final_status status
      | SetResponseHeader name value \<Rightarrow>
          first_error [validate_header cx name value,
            (if is_managed_response_header name then Some (ManagedResponseHeader name) else None)]
      | ReplaceBody pattern replacement \<Rightarrow>
          (if cx_regex_ok cx pattern then None else Some (InvalidRegex pattern))
      | SetJson pointer expected value limit \<Rightarrow>
          (if \<not> json_pointer_ok pointer then Some NotJsonPointer
           else if limit = 0 then Some MaxApplicationsZero
           else if expected = value then Some SetJsonSameValue
           else None)
      | SetWebsocketText txt \<Rightarrow> None)"

definition validate_response :: "compile_ext \<Rightarrow> synthetic_response \<Rightarrow> rule_error option" where
  "validate_response cx response =
     first_error
       (validate_final_status (sr_status response) #
        (if length (sr_body response) > 8 * 1024 * 1024
         then Some (RespondBodyTooLong (length (sr_body response))) else None) #
        concat (map (\<lambda>(name, value).
          [validate_header cx name value,
           (if is_managed_response_header name then Some (ManagedResponseHeader name) else None)])
          (sr_headers response)))"

definition compile_action :: "compile_ext \<Rightarrow> rule_spec \<Rightarrow> rule_error + compiled_rule" where
  "compile_action cx spec =
     (case rs_action spec of
        Delay ms \<Rightarrow> Inr (compiled spec None None)
      | Transform t \<Rightarrow>
          (case validate_transform cx t of
             Some e \<Rightarrow> Inl e
           | None \<Rightarrow>
               Inr (compiled spec (case t of ReplaceBody pattern r \<Rightarrow> Some pattern | _ \<Rightarrow> None) None))
      | Terminal (Block status) \<Rightarrow>
          (case validate_final_status status of
             Some e \<Rightarrow> Inl e | None \<Rightarrow> Inr (compiled spec None None))
      | Terminal (MapLocal path) \<Rightarrow>
          (case cx_file cx path of
             FileMissing \<Rightarrow> Inl (UnreadableLocalFile path)
           | FileNotRegular \<Rightarrow> Inl (NotRegularFile path)
           | FileUnreadable \<Rightarrow> Inl (UnreadableLocalFile path)
           | FileBytes body \<Rightarrow>
               Inr (compiled spec None (Some
                 \<lparr>lr_status = 200, lr_headers = [(''content-type'', guess_content_type path)],
                  lr_body = body\<rparr>)))
      | Terminal (Respond response) \<Rightarrow>
          (case validate_response cx response of
             Some e \<Rightarrow> Inl e | None \<Rightarrow> Inr (compiled spec None None))
      | Terminal DropWebsocket \<Rightarrow> Inr (compiled spec None None))"

definition compile_rule :: "compile_ext \<Rightarrow> rule_spec \<Rightarrow> rule_error + compiled_rule" where
  "compile_rule cx spec =
     (case first_error [validate_matcher (rs_matcher spec), validate_phase_matchers spec] of
        Some e \<Rightarrow> Inl e
      | None \<Rightarrow> compile_action cx spec)"

section \<open>Lint\<close>

datatype lint_severity = LintError | LintWarning

datatype lint_code =
    InvalidRule rule_error
  | ImpossibleMatcher
  | ShadowedRule
  | DuplicateRule
  | OrderSensitiveRules

record lint_issue =
  li_severity :: lint_severity
  li_code :: lint_code
  li_rule_index :: nat
  li_related_rule_index :: "nat option"

definition matcher_matches_everything :: "rule_matcher \<Rightarrow> bool" where
  "matcher_matches_everything m \<longleftrightarrow> m = MAll []"

text \<open>The pair test inside an \<open>all\<close>: two members that cannot hold together.\<close>

definition conflict :: "rule_matcher \<Rightarrow> rule_matcher \<Rightarrow> bool" where
  "conflict l r \<longleftrightarrow>
     r = MNot l \<or> l = MNot r \<or>
     (case (l, r) of
        (MMethod a, MMethod b) \<Rightarrow> \<not> eq_ignore_ascii_case a b
      | (MStatus a, MStatus b) \<Rightarrow> a \<noteq> b
      | (MDirection a, MDirection b) \<Rightarrow> a \<noteq> b
      | (MOpcode a, MOpcode b) \<Rightarrow> a \<noteq> b
      | _ \<Rightarrow> False)"

fun conflict_within :: "rule_matcher list \<Rightarrow> bool" where
  "conflict_within [] \<longleftrightarrow> False"
| "conflict_within (l # rs) \<longleftrightarrow> list_ex (conflict l) rs \<or> conflict_within rs"

fun matcher_is_impossible :: "rule_matcher \<Rightarrow> bool" where
  "matcher_is_impossible (MAny ms) \<longleftrightarrow> ms = [] \<or> list_all matcher_is_impossible ms"
| "matcher_is_impossible (MAll ms) \<longleftrightarrow> list_ex matcher_is_impossible ms \<or> conflict_within ms"
| "matcher_is_impossible (MNot m) \<longleftrightarrow> matcher_matches_everything m"
| "matcher_is_impossible _ \<longleftrightarrow> False"

definition lint_pair :: "nat \<Rightarrow> rule_spec \<Rightarrow> nat \<Rightarrow> rule_spec \<Rightarrow> lint_issue list" where
  "lint_pair i spec j earlier =
     (let issue = (\<lambda>code. [\<lparr>li_severity = LintWarning, li_code = code, li_rule_index = i,
                            li_related_rule_index = Some j\<rparr>]);
          same_matcher = (rs_matcher earlier = rs_matcher spec \<and>
                          rs_match_on earlier = rs_match_on spec)
      in if phase earlier \<noteq> phase spec then []
         else if is_terminal earlier \<and>
           (same_matcher \<or> matcher_matches_everything (rs_matcher earlier)) then issue ShadowedRule
         else if same_matcher \<and> rs_action earlier = rs_action spec then issue DuplicateRule
         else if same_matcher then issue OrderSensitiveRules
         else [])"

definition lint_rule :: "compile_ext \<Rightarrow> rule_spec list \<Rightarrow> nat \<Rightarrow> lint_issue list" where
  "lint_rule cx specs i =
     (let spec = specs ! i;
          own = (\<lambda>code. [\<lparr>li_severity = LintError, li_code = code, li_rule_index = i,
                         li_related_rule_index = None\<rparr>])
      in (case compile_rule cx spec of Inl e \<Rightarrow> own (InvalidRule e) | Inr c \<Rightarrow> []) @
         (if matcher_is_impossible (rs_matcher spec) then own ImpossibleMatcher else []) @
         concat (map (\<lambda>j. lint_pair i spec j (specs ! j)) [0..<i]))"

definition lint_rules :: "compile_ext \<Rightarrow> rule_spec list \<Rightarrow> lint_issue list" where
  "lint_rules cx specs = concat (map (lint_rule cx specs) [0..<length specs])"

section \<open>What lint proves\<close>

lemma ws_opcode_str_lower [simp]: "map ascii_lower_char (ws_opcode_str op) = ws_opcode_str op"
  by (cases op) (simp_all add: ascii_lower_char_def)

lemma ws_opcode_str_inject [simp]: "ws_opcode_str a = ws_opcode_str b \<longleftrightarrow> a = b"
  by (cases a; cases b) simp_all

lemma matches_conflict:
  assumes "conflict l r" "matches ext ctx l" "matches ext ctx r"
  shows False
  using assms
  by (cases l; cases r)
     (auto simp: conflict_def eq_ignore_ascii_case_def to_ascii_lowercase_def split: option.splits)

lemma matches_conflict_within:
  "conflict_within ms \<Longrightarrow> list_all (matches ext ctx) ms \<Longrightarrow> False"
  by (induction ms rule: conflict_within.induct) (auto simp: list_ex_iff list_all_iff dest: matches_conflict)

lemma impossible_never_matches: "matcher_is_impossible m \<Longrightarrow> \<not> matches ext ctx m"
proof (induction m)
  case (MAll ms)
  then show ?case
    using matches_conflict_within [of ms ext ctx] by (auto simp: list_ex_iff list_all_iff)
next
  case (MAny ms)
  then show ?case by (auto simp: list_ex_iff list_all_iff)
next
  case (MNot m)
  then show ?case by (simp add: matcher_matches_everything_def)
qed simp_all

text \<open>
  A matcher that lint reports as impossible matches no flow and no frame
  whatever, so the error it raises is never a false alarm.
\<close>

theorem impossible_sound:
  assumes "i < length specs" "\<lparr>li_severity = LintError, li_code = ImpossibleMatcher, li_rule_index = i,
      li_related_rule_index = None\<rparr> \<in> set (lint_rules cx specs)"
  shows "\<not> matches ext ctx (rs_matcher (specs ! i))"
proof -
  have "matcher_is_impossible (rs_matcher (specs ! i))"
    using assms by (auto simp: lint_rules_def lint_rule_def lint_pair_def Let_def split: sum.splits if_splits)
  then show ?thesis by (rule impossible_never_matches)
qed

theorem impossible_sound_witness:
  "\<not> matches ext_ascii (ws_context ''h'' C2s ''text'') (MAll [MStatus 200, MStatus 404])"
  using impossible_sound [of 0 "[\<lparr>rs_match_on = MatchOriginal,
      rs_matcher = MAll [MStatus 200, MStatus 404], rs_action = Delay 5\<rparr>]"
    "\<lparr>cx_regex_ok = (\<lambda>_. True), cx_header_name_ok = (\<lambda>_. True), cx_header_value_ok = (\<lambda>_. True),
      cx_parse_url = (\<lambda>_. None), cx_file = (\<lambda>_. FileMissing)\<rparr>"
    ext_ascii "ws_context ''h'' C2s ''text''"]
  by (simp add: lint_rules_def lint_rule_def conflict_def del: matches.simps)

section \<open>What compilation guarantees\<close>

lemma compile_rule_checked:
  assumes "compile_rule cx spec = Inr c"
  shows "validate_matcher (rs_matcher spec) = None"
    "\<forall>field \<in> set (matcher_fields (rs_matcher spec)). \<not> field_invalid (phase spec) field"
    "compile_action cx spec = Inr c"
  using assms
  by (auto simp: compile_rule_def validate_phase_matchers_def find_None_iff split: option.splits)

lemma compile_action_spec: "compile_action cx spec = Inr c \<Longrightarrow> cr_spec c = spec"
  by (auto simp: compile_action_def compiled_def
      split: rule_action.splits rule_terminal.splits option.splits file_state.splits)

text \<open>Two contexts that agree on the fields a matcher reads give it the same verdict.\<close>

definition agree_on :: "matcher_field \<Rightarrow> match_context \<Rightarrow> match_context \<Rightarrow> bool" where
  "agree_on field a b \<longleftrightarrow>
     (case field of
        FieldHost \<Rightarrow> mc_host a = mc_host b
      | FieldPath \<Rightarrow> mc_path a = mc_path b
      | FieldMethod \<Rightarrow> mc_method a = mc_method b
      | FieldStatus \<Rightarrow> mc_status a = mc_status b
      | FieldContentType \<Rightarrow> mc_content_type a = mc_content_type b
      | FieldGraphqlOperation \<Rightarrow> mc_path a = mc_path b \<and> mc_body a = mc_body b
      | FieldDirection \<Rightarrow> mc_direction a = mc_direction b
      | FieldOpcode \<Rightarrow> mc_opcode a = mc_opcode b)"

lemma matches_agree:
  "\<forall>field \<in> set (matcher_fields m). agree_on field a b \<Longrightarrow> matches ext a m = matches ext b m"
  by (induction m) (auto simp: agree_on_def list_all_iff list_ex_iff)

definition agree_in_phase :: "rule_phase \<Rightarrow> match_context \<Rightarrow> match_context \<Rightarrow> bool" where
  "agree_in_phase ph a b \<longleftrightarrow>
     mc_host a = mc_host b \<and>
     (ph \<noteq> PhaseWebsocket \<longrightarrow> mc_path a = mc_path b \<and> mc_method a = mc_method b \<and> mc_body a = mc_body b) \<and>
     (ph = PhaseResponse \<longrightarrow> mc_status a = mc_status b \<and> mc_content_type a = mc_content_type b) \<and>
     (ph = PhaseWebsocket \<longrightarrow> mc_direction a = mc_direction b \<and> mc_opcode a = mc_opcode b)"

lemma agree_in_phase_fields:
  "agree_in_phase ph a b \<Longrightarrow> \<not> field_invalid ph field \<Longrightarrow> agree_on field a b"
  by (cases ph; cases field) (auto simp: agree_in_phase_def agree_on_def field_invalid_def)

text \<open>
  A rule that compiles can only see what its phase has: its verdict
  depends on the host, direction and opcode alone for a WebSocket rule, on the request alone for a
  request rule, and on the request with the status and content type for a response rule.
\<close>

theorem compiled_rule_phase_bound:
  assumes "compile_rule cx spec = Inr c" "agree_in_phase (phase spec) a b"
  shows "matches ext a (rs_matcher (cr_spec c)) = matches ext b (rs_matcher (cr_spec c))"
  using compile_rule_checked [OF assms(1)] agree_in_phase_fields [OF assms(2)] compile_action_spec
  by (metis matches_agree)

definition compile_all :: compile_ext where
  "compile_all = \<lparr>cx_regex_ok = (\<lambda>_. True), cx_header_name_ok = (\<lambda>_. True),
     cx_header_value_ok = (\<lambda>_. True), cx_parse_url = (\<lambda>_. None), cx_file = (\<lambda>_. FileMissing)\<rparr>"

theorem compiled_rule_phase_bound_witness:
  "matches ext_ascii (ws_context ''h'' C2s ''text'') (MDirection C2s) =
   matches ext_ascii ((ws_context ''h'' C2s ''text'')\<lparr>mc_path := ''/x''\<rparr>) (MDirection C2s)"
proof -
  let ?spec = "\<lparr>rs_match_on = MatchOriginal, rs_matcher = MDirection C2s, rs_action = Terminal DropWebsocket\<rparr>"
  have "compile_rule compile_all ?spec = Inr (compiled ?spec None None)"
    by (simp add: compile_rule_def validate_phase_matchers_def compile_action_def phase_def field_invalid_def)
  from compiled_rule_phase_bound [OF this, of "ws_context ''h'' C2s ''text''"
      "(ws_context ''h'' C2s ''text'')\<lparr>mc_path := ''/x''\<rparr>" ext_ascii]
  show ?thesis
    by (simp add: compiled_def phase_def agree_in_phase_def ws_context_def del: matches.simps)
qed

lemma validate_header_None:
  "validate_header cx name value = None \<longleftrightarrow> cx_header_name_ok cx name \<and> cx_header_value_ok cx value"
  by (simp add: validate_header_def)

lemma validate_final_status_None [simp]:
  "validate_final_status status = None \<longleftrightarrow> 200 \<le> status \<and> status \<le> 599"
  by (simp add: validate_final_status_def)

lemma validate_response_None:
  assumes "validate_response cx r = None"
  shows "200 \<le> sr_status r" "sr_status r \<le> 599" "length (sr_body r) \<le> 8 * 1024 * 1024"
    "(name, value) \<in> set (sr_headers r) \<Longrightarrow>
       \<not> is_managed_response_header name \<and> cx_header_name_ok cx name \<and> cx_header_value_ok cx value"
proof -
  note all = assms [unfolded validate_response_def first_error_None]
  show "200 \<le> sr_status r" "sr_status r \<le> 599" "length (sr_body r) \<le> 8 * 1024 * 1024"
    using all by (auto split: if_splits)
  show "\<not> is_managed_response_header name \<and> cx_header_name_ok cx name \<and> cx_header_value_ok cx value"
    if header: "(name, value) \<in> set (sr_headers r)"
  proof -
    have "validate_header cx name value = None"
      "(if is_managed_response_header name then Some (ManagedResponseHeader name) else None) = None"
      using all header by (force simp del: split_paired_All)+
    then show ?thesis by (auto simp: validate_header_None split: if_splits)
  qed
qed

lemma validate_transform_None:
  assumes "validate_transform cx t = None"
  shows "case t of
      SetRequestHeader name value \<Rightarrow>
        cx_header_name_ok cx name \<and> cx_header_value_ok cx value \<and> \<not> is_managed_request_header name
    | SetResponseHeader name value \<Rightarrow>
        cx_header_name_ok cx name \<and> cx_header_value_ok cx value \<and> \<not> is_managed_response_header name
    | SetStatus status \<Rightarrow> 200 \<le> status \<and> status \<le> 599
    | ReplaceBody pattern r \<Rightarrow> cx_regex_ok cx pattern
    | SetJson pointer expected value limit \<Rightarrow>
        starts_with pointer ''/'' \<and> 0 < limit \<and> expected \<noteq> value
    | _ \<Rightarrow> True"
  using assms
  by (cases t)
     (simp_all add: validate_transform_def validate_header_None json_pointer_ok_def split: if_splits)

text \<open>
  A rule that compiles carries out only well-formed actions: final statuses
  lie in 200 to 599, headers it sets are valid and none is one the proxy manages, a body it responds
  with has at most 8 MiB, a JSON edit has a positive limit, a pointer below the root and changes the
  value, and a file response is complete.
\<close>

theorem compiled_action_safe:
  assumes "compile_rule cx spec = Inr c"
  shows "case rs_action spec of
      Delay ms \<Rightarrow> True
    | Transform (SetRequestHeader name value) \<Rightarrow>
        cx_header_name_ok cx name \<and> cx_header_value_ok cx value \<and> \<not> is_managed_request_header name
    | Transform (SetResponseHeader name value) \<Rightarrow>
        cx_header_name_ok cx name \<and> cx_header_value_ok cx value \<and> \<not> is_managed_response_header name
    | Transform (SetStatus status) \<Rightarrow> 200 \<le> status \<and> status \<le> 599
    | Transform (ReplaceBody pattern r) \<Rightarrow> cx_regex_ok cx pattern \<and> cr_replace_regex c = Some pattern
    | Transform (SetJson pointer expected value limit) \<Rightarrow>
        starts_with pointer ''/'' \<and> 0 < limit \<and> expected \<noteq> value
    | Transform t \<Rightarrow> True
    | Terminal (Block status) \<Rightarrow> 200 \<le> status \<and> status \<le> 599
    | Terminal (Respond r) \<Rightarrow> 200 \<le> sr_status r \<and> sr_status r \<le> 599 \<and> length (sr_body r) \<le> 8 * 1024 * 1024 \<and>
        (\<forall>(name, value) \<in> set (sr_headers r). \<not> is_managed_response_header name \<and>
           cx_header_name_ok cx name \<and> cx_header_value_ok cx value)
    | Terminal (MapLocal path) \<Rightarrow>
        (\<exists>body. cx_file cx path = FileBytes body \<and> map_option lr_body (cr_local_response c) = Some body)
    | Terminal DropWebsocket \<Rightarrow> True"
proof -
  note act = compile_rule_checked(3) [OF assms]
  show ?thesis
  proof (cases "rs_action spec")
    case (Delay ms)
    then show ?thesis by simp
  next
    case (Transform t)
    then have "validate_transform cx t = None"
      "cr_replace_regex c = (case t of ReplaceBody pattern r \<Rightarrow> Some pattern | _ \<Rightarrow> None)"
      using act by (auto simp: compile_action_def compiled_def split: option.splits)
    then show ?thesis
      using validate_transform_None [of cx t] Transform by (cases t) simp_all
  next
    case (Terminal t)
    then show ?thesis
    proof (cases t)
      case (Respond r)
      then have "validate_response cx r = None"
        using act Terminal by (auto simp: compile_action_def split: option.splits)
      then show ?thesis
        using Terminal Respond validate_response_None [of cx r] by auto
    qed (use act in \<open>auto simp: compile_action_def compiled_def
           split: option.splits file_state.splits\<close>)
  qed
qed

theorem compiled_action_safe_witness:
  "\<exists>c. compile_rule compile_all
      \<lparr>rs_match_on = MatchOriginal, rs_matcher = MAll [], rs_action = Terminal (Block 404)\<rparr> = Inr c \<and>
    (200 :: nat) \<le> 404 \<and> 404 \<le> (599 :: nat)"
proof -
  let ?spec = "\<lparr>rs_match_on = MatchOriginal, rs_matcher = MAll [], rs_action = Terminal (Block 404)\<rparr>"
  have run: "compile_rule compile_all ?spec = Inr (compiled ?spec None None)"
    by (simp add: compile_rule_def validate_phase_matchers_def compile_action_def validate_final_status_def)
  from compiled_action_safe [OF run] run show ?thesis by auto
qed

end
