(* ===== verification/WsTap.thy ===== *)
theory WsTap
  imports WsRecord NetRuleCheck
begin

text \<open>
  The live tap of \<^verbatim>\<open>net/ws.rs\<close>: rules and interception of frames, the hold of a frame for the agent,
  and the pump that forwards one direction, decodes a copy of it and splices injected frames in. A
  pump is a machine over the events its select loop waits for; the two pumps of a session and the
  task that drains their records share counters and a bounded queue.
\<close>

section \<open>Rules and interception\<close>

fun to_ws_direction :: "direction \<Rightarrow> ws_direction" where
  "to_ws_direction ClientToServer = C2s"
| "to_ws_direction ServerToClient = S2c"

record ws_intercept_cfg =
  wi_host :: "string option"
  wi_dir :: "direction option"
  wi_opcode :: "string option"
  wi_hold_ms :: nat
  wi_on_timeout_drop :: bool

definition intercept_matches :: "rule_ext \<Rightarrow> ws_intercept_cfg \<Rightarrow> string \<Rightarrow> direction \<Rightarrow> string \<Rightarrow> bool" where
  "intercept_matches ext cfg host dir op \<longleftrightarrow>
     (case wi_host cfg of None \<Rightarrow> True | Some needle \<Rightarrow> contains_ci ext host needle) \<and>
     (case wi_dir cfg of None \<Rightarrow> True | Some d \<Rightarrow> d = dir) \<and>
     (case wi_opcode cfg of None \<Rightarrow> True | Some want \<Rightarrow> want = op)"

definition ws_rule_matches :: "rule_ext \<Rightarrow> rule_spec \<Rightarrow> string \<Rightarrow> direction \<Rightarrow> string \<Rightarrow> bool" where
  "ws_rule_matches ext spec host dir op \<longleftrightarrow>
     matches ext (ws_context host (to_ws_direction dir) op) (rs_matcher spec)"

datatype ws_rule_action = RuleForward | RuleDrop string | RuleModify string "byte list"

fun ws_rules_loop ::
  "rule_ext \<Rightarrow> (string \<times> compiled_rule) list \<Rightarrow> string \<Rightarrow> direction \<Rightarrow> string \<Rightarrow>
   (string \<times> byte list) option \<Rightarrow> ws_rule_action" where
  "ws_rules_loop ext [] host dir op modification =
     (case modification of None \<Rightarrow> RuleForward | Some (rid, payload) \<Rightarrow> RuleModify rid payload)"
| "ws_rules_loop ext ((rid, rule) # rules) host dir op modification =
     (let spec = cr_spec rule in
      if phase spec \<noteq> PhaseWebsocket \<or> \<not> ws_rule_matches ext spec host dir op
      then ws_rules_loop ext rules host dir op modification
      else case rs_action spec of
             Terminal DropWebsocket \<Rightarrow> RuleDrop rid
           | Transform (SetWebsocketText txt) \<Rightarrow>
               ws_rules_loop ext rules host dir op (Some (rid, str_bytes txt))
           | _ \<Rightarrow> ws_rules_loop ext rules host dir op modification)"

definition apply_ws_rules ::
  "rule_ext \<Rightarrow> (string \<times> compiled_rule) list \<Rightarrow> string \<Rightarrow> direction \<Rightarrow> string \<Rightarrow> ws_rule_action" where
  "apply_ws_rules ext rules host dir op = ws_rules_loop ext rules host dir op None"

definition managed_reencode_safe :: "deflate_params \<Rightarrow> direction \<Rightarrow> bool" where
  "managed_reencode_safe deflate dir \<longleftrightarrow>
     (if \<not> dp_enabled deflate then True
      else case dir of
             ClientToServer \<Rightarrow> dp_client_no_context_takeover deflate
           | ServerToClient \<Rightarrow> dp_server_no_context_takeover deflate)"

text \<open>
  The settings the pump reads from the daemon at one moment: active rules, armed interception, the
  redaction policy, the clock, the number of frames already held, and how a hold started now will end.
\<close>

datatype hold_decision = HoldForward | HoldModify "byte list" | HoldDrop

datatype hold_outcome = Decided hold_decision | Undecided

record tap_env =
  te_ext :: rule_ext
  te_rules :: "(string \<times> compiled_rule) list"
  te_intercept :: "ws_intercept_cfg option"
  te_redaction :: "redaction_policy option"
  te_now :: rat
  te_held :: nat
  te_hold :: hold_outcome

definition direction_managed :: "tap_env \<Rightarrow> ws_session_meta \<Rightarrow> direction \<Rightarrow> bool" where
  "direction_managed env meta dir \<longleftrightarrow>
     (case te_intercept env of
        None \<Rightarrow> False
      | Some cfg \<Rightarrow>
          (case wi_host cfg of None \<Rightarrow> True | Some needle \<Rightarrow> contains_ci (te_ext env) (sm_host meta) needle) \<and>
          (case wi_dir cfg of None \<Rightarrow> True | Some d \<Rightarrow> d = dir)) \<or>
     list_ex (\<lambda>(rid, rule).
         phase (cr_spec rule) = PhaseWebsocket \<and>
         could_match_websocket_direction (te_ext env) (rs_matcher (cr_spec rule)) (sm_host meta)
           (to_ws_direction dir)) (te_rules env)"

section \<open>Holding a frame\<close>

record ws_intercept_event =
  ie_id :: string
  ie_session_id :: string
  ie_host :: string
  ie_dir :: string
  ie_opcode :: string
  ie_len :: nat
  ie_hold_deadline_ms :: nat
  ie_editable :: bool
  ie_preview :: "string option"

definition hold_preview :: "byte list \<Rightarrow> string option" where
  "hold_preview payload =
     (case from_utf8 payload of
        Some s \<Rightarrow> Some (collapse_ws s PREVIEW_CAP)
      | None \<Rightarrow>
          if payload \<noteq> [] then Some (''<'' @ dec_digits (length payload) @ '' bytes>'') else None)"

text \<open>The decision, and the event that announced the held frame when it was held at all.\<close>

definition ws_hold ::
  "tap_env \<Rightarrow> ws_session_meta \<Rightarrow> direction \<Rightarrow> managed_frame \<Rightarrow> string \<Rightarrow> ws_intercept_cfg \<Rightarrow> string \<Rightarrow>
   hold_decision \<times> ws_intercept_event option" where
  "ws_hold env meta dir frame op cfg rid =
     (if te_held env \<ge> MAX_WS_HELD then (HoldForward, None)
      else
        ((case te_hold env of
            Decided decision \<Rightarrow> decision
          | Undecided \<Rightarrow> if wi_on_timeout_drop cfg then HoldDrop else HoldForward),
         Some \<lparr>ie_id = rid, ie_session_id = sm_id meta, ie_host = sm_host meta,
               ie_dir = direction_str dir, ie_opcode = op, ie_len = length (mf_payload frame),
               ie_hold_deadline_ms = wi_hold_ms cfg,
               ie_editable = managed_reencode_safe (sm_deflate meta) dir,
               ie_preview = hold_preview (mf_payload frame)\<rparr>))"

section \<open>Shared state of a session\<close>

datatype observed_record = ObsMessage ws_message_record | ObsViolation ws_violation_record

record tap_shared =
  sh_stats :: ws_stats
  sh_counter :: nat
  sh_flow :: nat
  sh_seed :: u64
  sh_queue :: "observed_record list"
  sh_log :: "observed_record list"
  sh_held_events :: "ws_intercept_event list"

definition QUEUE_CAP :: nat where
  "QUEUE_CAP = 256"

definition queue_observed_record :: "observed_record \<Rightarrow> tap_shared \<Rightarrow> tap_shared" where
  "queue_observed_record r sh =
     (if length (sh_queue sh) \<ge> QUEUE_CAP then sh\<lparr>sh_stats := record_dropped (sh_stats sh)\<rparr>
      else sh\<lparr>sh_queue := sh_queue sh @ [r]\<rparr>)"

definition next_seq :: "tap_shared \<Rightarrow> tap_shared \<times> nat" where
  "next_seq sh = (sh\<lparr>sh_counter := sh_counter sh + 1\<rparr>, sh_counter sh)"

definition next_flow :: "tap_shared \<Rightarrow> tap_shared \<times> nat" where
  "next_flow sh = (sh\<lparr>sh_flow := sh_flow sh + 1\<rparr>, sh_flow sh)"

definition emit_observed ::
  "tap_env \<Rightarrow> ws_session_meta \<Rightarrow> direction \<Rightarrow> message \<Rightarrow> tap_shared \<Rightarrow> tap_shared" where
  "emit_observed env meta dir msg sh =
     (let sh1 = sh\<lparr>sh_stats := stats_record dir msg (sh_stats sh)\<rparr>;
          (sh2, seq) = next_seq sh1;
          (sh3, flow) = next_flow sh2
      in queue_observed_record
           (ObsMessage (build_message_record meta dir seq msg (te_redaction env) (te_now env) flow)) sh3)"

definition violation_record ::
  "tap_env \<Rightarrow> ws_session_meta \<Rightarrow> direction \<Rightarrow> nat \<Rightarrow> nat \<Rightarrow> protocol_violation \<Rightarrow> ws_violation_record" where
  "violation_record env meta dir ordinal flow v =
     (let r = \<lparr>wv_kind = ''ws_protocol_violation'', wv_id = sm_id meta @ ''.v'' @ dec_digits ordinal,
            wv_session_id = sm_id meta, wv_flow_sequence = flow,
            wv_capture_session_id = sm_capture_session_id meta, wv_ts = te_now env,
            wv_host = sm_host meta, wv_host_redacted = False, wv_dir = direction_str dir,
            wv_violation = pv_code v, wv_scope = pv_scope v, wv_action = pv_action v,
            wv_fatal = pv_fatal v, wv_opcode = pv_opcode v, wv_detail = pv_detail v,
            wv_redaction_policy = None, wv_redaction_policy_version = None\<rparr>
      in case te_redaction env of None \<Rightarrow> r | Some policy \<Rightarrow> wv_redact policy r)"

fun emit_protocol_violations ::
  "tap_env \<Rightarrow> ws_session_meta \<Rightarrow> direction \<Rightarrow> protocol_violation list \<Rightarrow> tap_shared \<Rightarrow> tap_shared" where
  "emit_protocol_violations env meta dir [] sh = sh"
| "emit_protocol_violations env meta dir (v # vs) sh =
     (let (stats, ordinal) = record_violation dir (pv_fatal v) (sh_stats sh);
          (sh1, flow) = next_flow (sh\<lparr>sh_stats := stats\<rparr>)
      in emit_protocol_violations env meta dir vs
           (queue_observed_record (ObsViolation (violation_record env meta dir ordinal flow v)) sh1))"

definition accept_observed_frame ::
  "'z flate \<Rightarrow> tap_env \<Rightarrow> ws_session_meta \<Rightarrow> direction \<Rightarrow> raw_frame \<Rightarrow> 'z assembler \<Rightarrow> tap_shared \<Rightarrow>
   'z assembler \<times> tap_shared \<times> message option" where
  "accept_observed_frame fl env meta dir frame a sh =
     (let (a1, msg) = accept fl a frame;
          (a2, violations) = assembler_take_violations a1
      in (a2, emit_protocol_violations env meta dir violations sh, msg))"

definition observe_frame ::
  "'z flate \<Rightarrow> tap_env \<Rightarrow> ws_session_meta \<Rightarrow> direction \<Rightarrow> raw_frame \<Rightarrow> 'z assembler \<times> tap_shared \<Rightarrow>
   'z assembler \<times> tap_shared" where
  "observe_frame fl env meta dir frame ash =
     (let (a, sh, msg) = accept_observed_frame fl env meta dir frame (fst ash) (snd ash)
      in (a, (case msg of None \<Rightarrow> sh | Some m \<Rightarrow> emit_observed env meta dir m sh)))"

section \<open>The pump of one direction\<close>

text \<open>
  The write side: the bytes written so far and, when the peer will break the connection, how many
  more bytes get through before a write fails.
\<close>

record writer =
  wr_out :: "byte list"
  wr_budget :: "nat option"

definition write_all :: "byte list \<Rightarrow> writer \<Rightarrow> writer \<times> bool" where
  "write_all bs w =
     (case wr_budget w of
        None \<Rightarrow> (w\<lparr>wr_out := wr_out w @ bs\<rparr>, True)
      | Some n \<Rightarrow>
          if length bs \<le> n
          then (w\<lparr>wr_out := wr_out w @ bs, wr_budget := Some (n - length bs)\<rparr>, True)
          else (w\<lparr>wr_out := wr_out w @ take n bs, wr_budget := Some 0\<rparr>, False))"

record 'z pump =
  pu_decoder :: frame_decoder
  pu_framer :: managed_framer
  pu_managed :: bool
  pu_assembler :: "'z assembler"
  pu_writer :: writer
  pu_pending :: "injected_frame list"
  pu_done :: bool

definition pump_new :: "'z flate \<Rightarrow> direction \<Rightarrow> deflate_params \<Rightarrow> nat option \<Rightarrow> 'z pump" where
  "pump_new fl dir deflate budget =
     \<lparr>pu_decoder = decoder_new, pu_framer = framer_new, pu_managed = False,
      pu_assembler = assembler_new fl dir deflate,
      pu_writer = \<lparr>wr_out = [], wr_budget = budget\<rparr>, pu_pending = [], pu_done = False\<rparr>"

text \<open>Forward the exact bytes of a frame and only observe it.\<close>

definition forward_and_observe ::
  "'z flate \<Rightarrow> tap_env \<Rightarrow> ws_session_meta \<Rightarrow> direction \<Rightarrow> managed_frame \<Rightarrow> 'z pump \<times> tap_shared \<Rightarrow>
   ('z pump \<times> tap_shared) \<times> bool" where
  "forward_and_observe fl env meta dir frame st =
     (let (p, sh) = st; (w, ok) = write_all (mf_raw frame) (pu_writer p) in
      if \<not> ok then ((p\<lparr>pu_writer := w\<rparr>, sh), False)
      else let (a, sh') = observe_frame fl env meta dir (managed_to_raw frame) (pu_assembler p, sh)
           in ((p\<lparr>pu_writer := w, pu_assembler := a\<rparr>, sh'), True))"

text \<open>
  What is decided about a frame: the action, the sequence number already taken when it was held, and
  the shared state after the decision.
\<close>

definition managed_action ::
  "tap_env \<Rightarrow> ws_session_meta \<Rightarrow> direction \<Rightarrow> managed_frame \<Rightarrow> tap_shared \<Rightarrow>
   tap_shared \<times> ws_rule_action \<times> nat option" where
  "managed_action env meta dir frame sh =
     (let op = opcode_str (mf_opcode frame);
          action = apply_ws_rules (te_ext env) (te_rules env) (sm_host meta) dir op
      in if action \<noteq> RuleForward then (sh, action, None)
         else case te_intercept env of
                None \<Rightarrow> (sh, action, None)
              | Some cfg \<Rightarrow>
                  if \<not> intercept_matches (te_ext env) cfg (sm_host meta) dir op then (sh, action, None)
                  else
                    let (sh1, seq) = next_seq sh;
                        (decision, event) =
                          ws_hold env meta dir frame op cfg (sm_id meta @ ''.'' @ dec_digits seq);
                        sh2 = (case event of None \<Rightarrow> sh1
                               | Some e \<Rightarrow> sh1\<lparr>sh_held_events := sh_held_events sh1 @ [e]\<rparr>)
                    in (sh2,
                        (case decision of
                           HoldForward \<Rightarrow> RuleForward
                         | HoldModify payload \<Rightarrow> RuleModify [] payload
                         | HoldDrop \<Rightarrow> RuleDrop []),
                        Some seq))"

record managed_outcome =
  mo_bytes :: "byte list option"
  mo_rule_id :: "string option"
  mo_disposition :: "string option"
  mo_modified :: "byte list option"

definition rule_id_of :: "string \<Rightarrow> string option" where
  "rule_id_of rid = (if rid \<noteq> [] then Some rid else None)"

definition managed_outcome_of ::
  "deflate_params \<Rightarrow> direction \<Rightarrow> managed_frame \<Rightarrow> ws_rule_action \<Rightarrow> u64 \<Rightarrow> u64 \<times> managed_outcome" where
  "managed_outcome_of deflate dir frame action seed =
     (let safe = managed_reencode_safe deflate dir in
      case action of
        RuleForward \<Rightarrow>
          (seed, \<lparr>mo_bytes = Some (mf_raw frame), mo_rule_id = None, mo_disposition = None,
                  mo_modified = None\<rparr>)
      | RuleModify rid payload \<Rightarrow>
          (if safe then
             let (seed', encoded) = encode_frame seed (mf_opcode frame) payload (dir = ClientToServer)
             in (seed', \<lparr>mo_bytes = Some encoded, mo_rule_id = rule_id_of rid,
                         mo_disposition = Some ''modified'', mo_modified = Some payload\<rparr>)
           else (seed, \<lparr>mo_bytes = Some (mf_raw frame), mo_rule_id = rule_id_of rid,
                        mo_disposition = Some ''refused_deflate'', mo_modified = None\<rparr>))
      | RuleDrop rid \<Rightarrow>
          (seed, \<lparr>mo_bytes = (if safe then None else Some (mf_raw frame)), mo_rule_id = rule_id_of rid,
                  mo_disposition = Some (if safe then ''dropped'' else ''refused_deflate''),
                  mo_modified = None\<rparr>))"

definition write_opt :: "byte list option \<Rightarrow> writer \<Rightarrow> writer \<times> bool" where
  "write_opt bs w = (case bs of None \<Rightarrow> (w, True) | Some b \<Rightarrow> write_all b w)"

text \<open>The record of a managed frame: of the message as observed, or as modified.\<close>

definition record_managed ::
  "tap_env \<Rightarrow> ws_session_meta \<Rightarrow> direction \<Rightarrow> managed_frame \<Rightarrow> managed_outcome \<Rightarrow> nat option \<Rightarrow>
   message option \<Rightarrow> tap_shared \<Rightarrow> tap_shared" where
  "record_managed env meta dir frame out held_seq observed sh =
     (case (case mo_modified out of
              Some payload \<Rightarrow>
                Some (injected_message (mf_opcode frame) payload (length (mf_payload frame)))
            | None \<Rightarrow> observed) of
        None \<Rightarrow> sh
      | Some msg \<Rightarrow>
          let sh1 = sh\<lparr>sh_stats := stats_record dir msg (sh_stats sh)\<rparr>;
              (sh2, seq) = (case held_seq of Some n \<Rightarrow> (sh1, n) | None \<Rightarrow> next_seq sh1);
              (sh3, flow) = next_flow sh2;
              record = (build_message_record meta dir seq msg (te_redaction env) (te_now env) flow)
                \<lparr>wm_rule_id := mo_rule_id out, wm_disposition := mo_disposition out\<rparr>
          in queue_observed_record (ObsMessage record) sh3)"

definition handle_managed_frame ::
  "'z flate \<Rightarrow> tap_env \<Rightarrow> ws_session_meta \<Rightarrow> direction \<Rightarrow> managed_frame \<Rightarrow> 'z pump \<times> tap_shared \<Rightarrow>
   ('z pump \<times> tap_shared) \<times> bool" where
  "handle_managed_frame fl env meta dir frame st =
     (let (p, sh) = st in
      if \<not> safe_to_manage (pu_assembler p) frame then forward_and_observe fl env meta dir frame st
      else if \<not> (mf_fin frame \<and> mf_opcode frame \<noteq> Continuation)
      then forward_and_observe fl env meta dir frame st
      else
        let (sh1, action, held_seq) = managed_action env meta dir frame sh;
            (seed, out) = managed_outcome_of (sm_deflate meta) dir frame action (sh_seed sh1);
            sh2 = sh1\<lparr>sh_seed := seed\<rparr>;
            (w, ok) = write_opt (mo_bytes out) (pu_writer p)
        in
        if \<not> ok then ((p\<lparr>pu_writer := w\<rparr>, sh2), False)
        else
          let (a, sh3, observed) =
                accept_observed_frame fl env meta dir (managed_to_raw frame) (pu_assembler p) sh2
          in ((p\<lparr>pu_writer := w, pu_assembler := a\<rparr>,
               record_managed env meta dir frame out held_seq observed sh3), True))"

text \<open>
  The items of one managed read; item \<open>i\<close> meets the settings \<open>envs i\<close>, since a hold can last long
  enough for them to change.
\<close>

definition pump_item ::
  "'z flate \<Rightarrow> tap_env \<Rightarrow> ws_session_meta \<Rightarrow> direction \<Rightarrow> managed_item \<Rightarrow> 'z pump \<times> tap_shared \<Rightarrow>
   ('z pump \<times> tap_shared) \<times> bool" where
  "pump_item fl env meta dir item st =
     (case item of
        Passthrough bs \<Rightarrow>
          let (w, ok) = write_all bs (pu_writer (fst st))
          in (((fst st)\<lparr>pu_writer := w\<rparr>, snd st), ok)
      | ManagedFrame frame \<Rightarrow> handle_managed_frame fl env meta dir frame st
      | ObservedFrame frame \<Rightarrow>
          let (a, sh) = observe_frame fl env meta dir frame (pu_assembler (fst st), snd st)
          in (((fst st)\<lparr>pu_assembler := a\<rparr>, sh), True))"

fun pump_items ::
  "'z flate \<Rightarrow> (nat \<Rightarrow> tap_env) \<Rightarrow> nat \<Rightarrow> ws_session_meta \<Rightarrow> direction \<Rightarrow> managed_item list \<Rightarrow>
   'z pump \<times> tap_shared \<Rightarrow> ('z pump \<times> tap_shared) \<times> bool" where
  "pump_items fl envs i meta dir [] st = (st, True)"
| "pump_items fl envs i meta dir (item # items) st =
     (let (st1, ok) = pump_item fl (envs i) meta dir item st
      in if ok then pump_items fl envs (i + 1) meta dir items st1 else (st1, False))"

definition pump_at_boundary :: "'z pump \<Rightarrow> bool" where
  "pump_at_boundary p \<longleftrightarrow>
     (if pu_managed p then \<not> mg_desynced (pu_framer p) \<and> framer_at_boundary (pu_framer p)
      else \<not> fd_desynced (pu_decoder p) \<and> decoder_at_boundary (pu_decoder p))"

text \<open>The mode is chosen again before a read, but only between frames.\<close>

definition pump_mode :: "tap_env \<Rightarrow> ws_session_meta \<Rightarrow> direction \<Rightarrow> 'z pump \<Rightarrow> 'z pump" where
  "pump_mode env meta dir p =
     (if pump_at_boundary p then p\<lparr>pu_managed := direction_managed env meta dir\<rparr> else p)"

definition pump_read_managed ::
  "'z flate \<Rightarrow> (nat \<Rightarrow> tap_env) \<Rightarrow> ws_session_meta \<Rightarrow> direction \<Rightarrow> byte list \<Rightarrow> 'z pump \<times> tap_shared \<Rightarrow>
   ('z pump \<times> tap_shared) \<times> bool" where
  "pump_read_managed fl envs meta dir bs st =
     (let (p, sh) = st;
          (framer1, items) = framer_push (pu_framer p) bs;
          (framer2, violations) = framer_take_violations framer1
      in pump_items fl envs 1 meta dir items
           (p\<lparr>pu_framer := framer2\<rparr>, emit_protocol_violations (envs 0) meta dir violations sh))"

definition pump_read_observed ::
  "'z flate \<Rightarrow> tap_env \<Rightarrow> ws_session_meta \<Rightarrow> direction \<Rightarrow> byte list \<Rightarrow> 'z pump \<times> tap_shared \<Rightarrow>
   ('z pump \<times> tap_shared) \<times> bool" where
  "pump_read_observed fl env meta dir bs st =
     (let (p, sh) = st; (w, ok) = write_all bs (pu_writer p) in
      if \<not> ok then ((p\<lparr>pu_writer := w\<rparr>, sh), False)
      else
        let (decoder1, frames) = decoder_push (pu_decoder p) bs;
            (decoder2, violations) = decoder_take_violations decoder1;
            (a, sh') = fold (observe_frame fl env meta dir) frames
               (pu_assembler p, emit_protocol_violations env meta dir violations sh)
        in ((p\<lparr>pu_writer := w, pu_decoder := decoder2, pu_assembler := a\<rparr>, sh'), True))"

definition pump_read ::
  "'z flate \<Rightarrow> (nat \<Rightarrow> tap_env) \<Rightarrow> ws_session_meta \<Rightarrow> direction \<Rightarrow> byte list \<Rightarrow> 'z pump \<times> tap_shared \<Rightarrow>
   ('z pump \<times> tap_shared) \<times> bool" where
  "pump_read fl envs meta dir bs st =
     (let p = pump_mode (envs 0) meta dir (fst st) in
      if pu_managed p then pump_read_managed fl envs meta dir bs (p, snd st)
      else pump_read_observed fl (envs 0) meta dir bs (p, snd st))"

fun splice_injections ::
  "tap_env \<Rightarrow> ws_session_meta \<Rightarrow> direction \<Rightarrow> bool \<Rightarrow> bool \<Rightarrow> injected_frame list \<Rightarrow> 'z pump \<times> tap_shared \<Rightarrow>
   'z pump \<times> tap_shared" where
  "splice_injections env meta dir at_frame at_msg [] (p, sh) = (p\<lparr>pu_pending := []\<rparr>, sh)"
| "splice_injections env meta dir at_frame at_msg (f # fs) (p, sh) =
     (if \<not> (if is_control (inj_opcode f) then at_frame else at_msg) then (p\<lparr>pu_pending := f # fs\<rparr>, sh)
      else
        let (seed, bytes) = encode_frame (sh_seed sh) (inj_opcode f) (inj_payload f) (dir = ClientToServer);
            sh1 = sh\<lparr>sh_seed := seed\<rparr>;
            (w, ok) = write_all bytes (pu_writer p);
            p1 = p\<lparr>pu_writer := w\<rparr>
        in
        if \<not> ok then (p1\<lparr>pu_pending := []\<rparr>, sh1)
        else
          let (sh2, seq) = next_seq sh1;
              (sh3, flow) = next_flow sh2;
              record = injected_record meta dir seq f (te_redaction env) (te_now env) flow
          in splice_injections env meta dir at_frame at_msg fs
               (p1, queue_observed_record (ObsMessage record) sh3))"

definition pump_splice ::
  "tap_env \<Rightarrow> ws_session_meta \<Rightarrow> direction \<Rightarrow> 'z pump \<times> tap_shared \<Rightarrow> 'z pump \<times> tap_shared" where
  "pump_splice env meta dir st =
     (let p = fst st;
          at_frame = pump_at_boundary p;
          at_msg = (at_frame \<and> at_message_boundary (pu_assembler p))
      in splice_injections env meta dir at_frame at_msg (pu_pending p) st)"

definition pump_finish ::
  "tap_env \<Rightarrow> ws_session_meta \<Rightarrow> direction \<Rightarrow> 'z pump \<times> tap_shared \<Rightarrow> 'z pump \<times> tap_shared" where
  "pump_finish env meta dir st =
     (let (p, sh) = st;
          (p1, frame_end) =
            (if pu_managed p
             then let (m, vs) = framer_finish_stream (pu_framer p) in (p\<lparr>pu_framer := m\<rparr>, vs)
             else let (d, vs) = decoder_finish_stream (pu_decoder p) in (p\<lparr>pu_decoder := d\<rparr>, vs));
          sh1 = emit_protocol_violations env meta dir frame_end sh;
          (a, message_end) = assembler_finish_stream (pu_assembler p1)
      in (p1\<lparr>pu_assembler := a, pu_done := True\<rparr>,
          emit_protocol_violations env meta dir message_end sh1))"

text \<open>
  The events of the select loop: shutdown, a frame to inject, bytes read, end of file with the frames
  still waiting in the injection channel, and a read error.
\<close>

datatype pump_event =
    EvShutdown
  | EvInject injected_frame
  | EvRead "byte list"
  | EvEof "injected_frame list"
  | EvReadError

definition pump_step ::
  "'z flate \<Rightarrow> (nat \<Rightarrow> tap_env) \<Rightarrow> ws_session_meta \<Rightarrow> direction \<Rightarrow> pump_event \<Rightarrow> 'z pump \<times> tap_shared \<Rightarrow>
   'z pump \<times> tap_shared" where
  "pump_step fl envs meta dir ev st =
     (if pu_done (fst st) then st
      else case ev of
        EvShutdown \<Rightarrow> pump_finish (envs 0) meta dir st
      | EvReadError \<Rightarrow> pump_finish (envs 0) meta dir st
      | EvInject f \<Rightarrow>
          pump_splice (envs 0) meta dir ((fst st)\<lparr>pu_pending := pu_pending (fst st) @ [f]\<rparr>, snd st)
      | EvRead bs \<Rightarrow>
          (let (st1, ok) = pump_read fl envs meta dir bs st
           in if ok then pump_splice (envs 0) meta dir st1 else pump_finish (envs 0) meta dir st1)
      | EvEof queued \<Rightarrow>
          (let (st1, ok) = pump_read fl envs meta dir []
                 ((fst st)\<lparr>pu_pending := pu_pending (fst st) @ queued\<rparr>, snd st)
           in pump_finish (envs 0) meta dir (if ok then pump_splice (envs 0) meta dir st1 else st1)))"

section \<open>The session\<close>

record 'z tap =
  tp_client :: "'z pump"
  tp_server :: "'z pump"
  tp_shared :: tap_shared

definition shared_new :: "u64 \<Rightarrow> nat \<Rightarrow> tap_shared" where
  "shared_new seed flow =
     \<lparr>sh_stats = stats_default, sh_counter = 1, sh_flow = flow, sh_seed = seed, sh_queue = [],
      sh_log = [], sh_held_events = []\<rparr>"

definition tap_new :: "'z flate \<Rightarrow> ws_session_meta \<Rightarrow> u64 \<Rightarrow> nat \<Rightarrow> nat option \<Rightarrow> nat option \<Rightarrow> 'z tap" where
  "tap_new fl meta seed flow to_server to_client =
     \<lparr>tp_client = pump_new fl ClientToServer (sm_deflate meta) to_server,
      tp_server = pump_new fl ServerToClient (sm_deflate meta) to_client,
      tp_shared = shared_new seed flow\<rparr>"

text \<open>The drain task takes one record off the queue, persists it and broadcasts its event.\<close>

definition drain_one :: "tap_shared \<Rightarrow> tap_shared" where
  "drain_one sh =
     (case sh_queue sh of
        [] \<Rightarrow> sh
      | r # rs \<Rightarrow> sh\<lparr>sh_queue := rs, sh_log := sh_log sh @ [r]\<rparr>)"

text \<open>A step of the session: either pump handles one event, or the drain task takes a record.\<close>

inductive tap_step :: "'z flate \<Rightarrow> ws_session_meta \<Rightarrow> 'z tap \<Rightarrow> 'z tap \<Rightarrow> bool" for fl meta where
  step_client: "pump_step fl envs meta ClientToServer ev (tp_client t, tp_shared t) = (p, sh) \<Longrightarrow>
    tap_step fl meta t (t\<lparr>tp_client := p, tp_shared := sh\<rparr>)"
| step_server: "pump_step fl envs meta ServerToClient ev (tp_server t, tp_shared t) = (p, sh) \<Longrightarrow>
    tap_step fl meta t (t\<lparr>tp_server := p, tp_shared := sh\<rparr>)"
| step_drain: "tap_step fl meta t (t\<lparr>tp_shared := drain_one (tp_shared t)\<rparr>)"

inductive_cases tap_stepE [elim]: "tap_step fl meta t t'"

inductive tap_reachable :: "'z flate \<Rightarrow> ws_session_meta \<Rightarrow> 'z tap \<Rightarrow> bool" for fl meta where
  reach_start: "tap_reachable fl meta (tap_new fl meta seed flow to_server to_client)"
| reach_step: "tap_reachable fl meta t \<Longrightarrow> tap_step fl meta t t' \<Longrightarrow> tap_reachable fl meta t'"

section \<open>Transparency\<close>

text \<open>
  Settings under which no byte of a direction may change: either re-encoding is unsafe there, or no
  rule decides a frame and no interception is armed.
\<close>

definition harmless :: "ws_session_meta \<Rightarrow> direction \<Rightarrow> tap_env \<Rightarrow> bool" where
  "harmless meta dir env \<longleftrightarrow>
     \<not> managed_reencode_safe (sm_deflate meta) dir \<or>
     te_intercept env = None \<and>
     (\<forall>op. apply_ws_rules (te_ext env) (te_rules env) (sm_host meta) dir op = RuleForward)"

definition pump_out :: "'z pump \<Rightarrow> byte list" where
  "pump_out p = wr_out (pu_writer p)"

definition pump_tail :: "'z pump \<Rightarrow> byte list" where
  "pump_tail p = mg_buf (pu_framer p)"

lemma write_unbounded:
  "wr_budget w = None \<Longrightarrow> write_all bs w = (w\<lparr>wr_out := wr_out w @ bs\<rparr>, True)"
  by (simp add: write_all_def)

lemma harmless_outcome:
  assumes "harmless meta dir env" "managed_action env meta dir frame sh = (sh1, action, held)"
  shows "mo_bytes (snd (managed_outcome_of (sm_deflate meta) dir frame action seed)) = Some (mf_raw frame)"
proof (cases "managed_reencode_safe (sm_deflate meta) dir")
  case True
  then have "action = RuleForward"
    using assms by (auto simp: harmless_def managed_action_def Let_def)
  then show ?thesis by (simp add: managed_outcome_of_def)
next
  case False
  then show ?thesis
    by (cases action) (simp_all add: managed_outcome_of_def)
qed

text \<open>The pump after it wrote some bytes and its assembler moved on, everything else as before.\<close>

definition wrote :: "'z pump \<Rightarrow> byte list \<Rightarrow> 'z assembler \<Rightarrow> 'z pump" where
  "wrote p bs a = p\<lparr>pu_writer := (pu_writer p)\<lparr>wr_out := wr_out (pu_writer p) @ bs\<rparr>, pu_assembler := a\<rparr>"

lemma wrote_fields [simp]:
  "pu_decoder (wrote p bs a) = pu_decoder p" "pu_framer (wrote p bs a) = pu_framer p"
  "pu_managed (wrote p bs a) = pu_managed p" "pu_pending (wrote p bs a) = pu_pending p"
  "pu_done (wrote p bs a) = pu_done p" "pu_assembler (wrote p bs a) = a"
  "wr_budget (pu_writer (wrote p bs a)) = wr_budget (pu_writer p)"
  "wr_out (pu_writer (wrote p bs a)) = wr_out (pu_writer p) @ bs"
  "wrote (wrote p bs a) bs' a' = wrote p (bs @ bs') a'"
  by (simp_all add: wrote_def)

lemma forward_writes:
  "wr_budget (pu_writer p) = None \<Longrightarrow>
   \<exists>a sh'. forward_and_observe fl env meta dir frame (p, sh) = ((wrote p (mf_raw frame) a, sh'), True)"
  by (simp add: forward_and_observe_def write_unbounded wrote_def case_prod_beta) (rule exI, rule refl)

lemma handle_forwards:
  assumes "harmless meta dir env" "wr_budget (pu_writer p) = None"
  shows "\<exists>a sh'. handle_managed_frame fl env meta dir frame (p, sh) = ((wrote p (mf_raw frame) a, sh'), True)"
proof (cases "safe_to_manage (pu_assembler p) frame \<and> mf_fin frame \<and> mf_opcode frame \<noteq> Continuation")
  case False
  then show ?thesis
    using forward_writes [OF assms(2), of fl env meta dir frame sh]
    by (auto simp: handle_managed_frame_def)
next
  case True
  obtain sh1 action held where act: "managed_action env meta dir frame sh = (sh1, action, held)"
    by (rule prod_cases3)
  obtain seed out where out: "managed_outcome_of (sm_deflate meta) dir frame action (sh_seed sh1) = (seed, out)"
    by fastforce
  have "mo_bytes out = Some (mf_raw frame)"
    using harmless_outcome [OF assms(1) act, of "sh_seed sh1"] out by simp
  then have written: "write_opt (mo_bytes out) (pu_writer p) =
      ((pu_writer p)\<lparr>wr_out := wr_out (pu_writer p) @ mf_raw frame\<rparr>, True)"
    by (simp add: write_opt_def write_unbounded assms(2))
  show ?thesis
    using True
    by (simp add: handle_managed_frame_def act out written Let_def case_prod_beta wrote_def)
       (rule exI, rule refl)
qed

lemma item_forwards:
  assumes "harmless meta dir env" "wr_budget (pu_writer p) = None"
  shows "\<exists>a sh'. pump_item fl env meta dir item (p, sh) = ((wrote p (item_bytes item) a, sh'), True)"
proof (cases item)
  case (ManagedFrame frame)
  then show ?thesis using handle_forwards [OF assms] by (simp add: pump_item_def)
next
  case (Passthrough bs)
  then show ?thesis
    using assms(2) by (intro exI [of _ "pu_assembler p"]) (simp add: pump_item_def write_unbounded wrote_def)
next
  case (ObservedFrame frame)
  then show ?thesis by (simp add: pump_item_def case_prod_beta wrote_def) (rule exI, rule refl)
qed

lemma items_forward:
  assumes "\<forall>i. harmless meta dir (envs i)" "wr_budget (pu_writer p) = None"
  shows "\<exists>a sh'. pump_items fl envs i meta dir items (p, sh) =
    ((wrote p (concat (map item_bytes items)) a, sh'), True)"
  using assms(2)
proof (induction items arbitrary: i p sh)
  case Nil
  then show ?case by (intro exI [of _ "pu_assembler p"] exI [of _ sh]) (simp add: wrote_def)
next
  case (Cons item items)
  obtain a sh' where step: "pump_item fl (envs i) meta dir item (p, sh) = ((wrote p (item_bytes item) a, sh'), True)"
    using item_forwards [of meta dir "envs i" p] assms(1) Cons.prems by blast
  then show ?case
    using Cons.IH [of "wrote p (item_bytes item) a" "i + 1" sh'] Cons.prems by auto
qed

text \<open>What holds of a pump between events: unbroken, the framer in order and idle in observe mode.\<close>

definition pump_ok :: "'z pump \<Rightarrow> bool" where
  "pump_ok p \<longleftrightarrow> wr_budget (pu_writer p) = None \<and> pu_pending p = [] \<and> \<not> pu_done p \<and>
     framer_ok (pu_framer p) \<and> (\<not> pu_managed p \<longrightarrow> mg_buf (pu_framer p) = [])"

lemma framer_take_violations_ok [simp]:
  "framer_ok (fst (framer_take_violations m)) = framer_ok m"
  "mg_buf (fst (framer_take_violations m)) = mg_buf m"
  by (simp_all add: framer_take_violations_def framer_ok_def split: option.split)

lemma pump_mode_ok [simp]:
  "pump_ok p \<Longrightarrow> pump_ok (pump_mode env meta dir p)"
  "pump_out (pump_mode env meta dir p) = pump_out p"
  "pump_tail (pump_mode env meta dir p) = pump_tail p"
  by (auto simp: pump_mode_def pump_ok_def pump_out_def pump_tail_def pump_at_boundary_def
      framer_at_boundary_def split: if_splits)

lemma pump_read_managed_transparent:
  assumes "\<forall>i. harmless meta dir (envs i)" "pump_ok p" "pu_managed p"
  shows "\<exists>p' sh'. pump_read_managed fl envs meta dir bs (p, sh) = ((p', sh'), True) \<and> pump_ok p' \<and>
    pump_out p' @ pump_tail p' = pump_out p @ pump_tail p @ bs"
proof -
  let ?push = "framer_push (pu_framer p) bs"
  let ?take = "framer_take_violations (fst ?push)"
  let ?p = "p\<lparr>pu_framer := fst ?take\<rparr>"
  have framer: "framer_ok (fst ?push)" "concat (map item_bytes (snd ?push)) @ mg_buf (fst ?push) = pump_tail p @ bs"
    using assms(2) framer_push_ok [of "pu_framer p" bs] framer_push_bytes [of "pu_framer p" bs]
    by (auto simp: pump_ok_def pump_tail_def framer_ok_def)
  obtain a sh' where "pump_items fl envs 1 meta dir (snd ?push)
      (?p, emit_protocol_violations (envs 0) meta dir (snd ?take) sh) =
      ((wrote ?p (concat (map item_bytes (snd ?push))) a, sh'), True)"
    using items_forward [OF assms(1), of ?p fl 1 "snd ?push"
        "emit_protocol_violations (envs 0) meta dir (snd ?take) sh"] assms(2)
    unfolding pump_ok_def by auto
  then show ?thesis
    using framer assms(2,3)
    by (auto simp: pump_read_managed_def case_prod_beta pump_ok_def pump_out_def pump_tail_def)
qed

lemma pump_read_observed_transparent:
  assumes "pump_ok p" "\<not> pu_managed p"
  shows "\<exists>p' sh'. pump_read_observed fl env meta dir bs (p, sh) = ((p', sh'), True) \<and> pump_ok p' \<and>
    pump_out p' @ pump_tail p' = pump_out p @ pump_tail p @ bs"
  using assms
  by (auto simp: pump_read_observed_def case_prod_beta pump_ok_def pump_out_def pump_tail_def write_unbounded)

lemma pump_read_transparent:
  assumes "\<forall>i. harmless meta dir (envs i)" "pump_ok p"
  shows "\<exists>p' sh'. pump_read fl envs meta dir bs (p, sh) = ((p', sh'), True) \<and> pump_ok p' \<and>
    pump_out p' @ pump_tail p' = pump_out p @ pump_tail p @ bs"
  using pump_read_managed_transparent [OF assms(1), of "pump_mode (envs 0) meta dir p" fl bs sh]
    pump_read_observed_transparent [of "pump_mode (envs 0) meta dir p" fl "envs 0" meta dir bs sh] assms(2)
  by (cases "pu_managed (pump_mode (envs 0) meta dir p)") (auto simp: pump_read_def Let_def)

end
