(* ===== verification/WsTunnel.thy ===== *)
theory WsTunnel
  imports WsTap
begin

text \<open>
  What a pump of \<^verbatim>\<open>net/ws.rs\<close> promises to the two ends of a tunnel: which bytes reach the peer,
  what a rule or an interception may change of them, and where injected frames go.
\<close>

section \<open>Transparency\<close>

text \<open>A pump that reads chunks, each under the settings of its time.\<close>

fun pump_reads ::
  "'z flate \<Rightarrow> ws_session_meta \<Rightarrow> direction \<Rightarrow> ((nat \<Rightarrow> tap_env) \<times> byte list) list \<Rightarrow>
   'z pump \<times> tap_shared \<Rightarrow> 'z pump \<times> tap_shared" where
  "pump_reads fl meta dir [] st = st"
| "pump_reads fl meta dir ((envs, bs) # reads) st =
     pump_reads fl meta dir reads (pump_step fl envs meta dir (EvRead bs) st)"

lemma pump_ok_pending_update:
  "pu_pending p = [] \<Longrightarrow> p\<lparr>pu_pending := []\<rparr> = (p :: 'z pump)"
  by (cases p) simp

lemma pump_splice_nothing: "pu_pending p = [] \<Longrightarrow> pump_splice env meta dir (p, sh) = (p, sh)"
  by (simp add: pump_splice_def Let_def pump_ok_pending_update)

lemma pump_new_ok: "pump_ok (pump_new fl dir deflate None)"
  by (simp add: pump_ok_def pump_new_def framer_ok_new) (simp add: framer_new_def)

lemma pump_new_empty [simp]:
  "pump_out (pump_new fl dir deflate budget) = []" "pump_tail (pump_new fl dir deflate budget) = []"
  by (simp_all add: pump_out_def pump_tail_def pump_new_def framer_new_def)

lemma pump_step_read:
  assumes "\<forall>i. harmless meta dir (envs i)" "pump_ok p"
  shows "\<exists>p' sh'. pump_step fl envs meta dir (EvRead bs) (p, sh) = (p', sh') \<and> pump_ok p' \<and>
    pump_out p' @ pump_tail p' = pump_out p @ pump_tail p @ bs"
proof -
  obtain p' sh' where "pump_read fl envs meta dir bs (p, sh) = ((p', sh'), True)" "pump_ok p'"
    "pump_out p' @ pump_tail p' = pump_out p @ pump_tail p @ bs"
    using pump_read_transparent [OF assms, of fl bs sh] by blast
  then show ?thesis
    using assms(2) by (auto simp: pump_step_def pump_ok_def pump_splice_nothing)
qed

lemma pump_reads_ok:
  assumes "\<forall>(envs, bs) \<in> set reads. \<forall>i. harmless meta dir (envs i)" "pump_ok p"
  shows "\<exists>p' sh'. pump_reads fl meta dir reads (p, sh) = (p', sh') \<and> pump_ok p' \<and>
    pump_out p' @ pump_tail p' = pump_out p @ pump_tail p @ concat (map snd reads)"
  using assms
proof (induction reads arbitrary: p sh)
  case Nil
  then show ?case by simp
next
  case (Cons read reads)
  obtain envs bs where read: "read = (envs, bs)" by fastforce
  obtain p1 sh1 where step: "pump_step fl envs meta dir (EvRead bs) (p, sh) = (p1, sh1)" "pump_ok p1"
    "pump_out p1 @ pump_tail p1 = pump_out p @ pump_tail p @ bs"
    using pump_step_read [of meta dir envs p fl bs sh] Cons.prems read by fastforce
  then show ?case
    using Cons.IH [of p1 sh1] Cons.prems(1) read by fastforce
qed

lemma pump_tail_short: "pump_ok p \<Longrightarrow> length (pump_tail p) < 14 + MANAGED_FRAME_CAP"
  by (auto simp: pump_ok_def framer_ok_def pump_tail_def MANAGED_FRAME_CAP_def split: option.splits)

text \<open>
  C2: as long as no rule or interception may change a frame, and whether the
  direction is decoded in observe or in managed mode, the bytes written to the peer followed by the
  partial frame still buffered are exactly the bytes read, in order; what is held back is less than
  one frame of the managed cap, and the pump goes on.
\<close>

theorem tunnel_transparent:
  assumes "\<forall>(envs, bs) \<in> set reads. \<forall>i. harmless meta dir (envs i)"
    "pump_reads fl meta dir reads (pump_new fl dir deflate None, sh) = (p, sh')"
  shows "wr_out (pu_writer p) @ mg_buf (pu_framer p) = concat (map snd reads) \<and>
    length (mg_buf (pu_framer p)) < 14 + MANAGED_FRAME_CAP \<and> \<not> pu_done p"
  using pump_reads_ok [OF assms(1), of "pump_new fl dir deflate None" fl sh] assms(2)
    pump_new_ok [of fl dir deflate] pump_tail_short [of p]
  by (auto simp: pump_out_def [of p] pump_tail_def [of p] pump_ok_def)

text \<open>
  Settings for the witnesses: interception armed for every frame of a connection that keeps its
  compression context, so that frames are held and still may not be changed.
\<close>

definition armed_env :: tap_env where
  "armed_env = \<lparr>te_ext = ext_ascii, te_rules = [],
     te_intercept = Some \<lparr>wi_host = None, wi_dir = None, wi_opcode = None, wi_hold_ms = 5,
       wi_on_timeout_drop = True\<rparr>,
     te_redaction = None, te_now = 0, te_held = 0, te_hold = Undecided\<rparr>"

definition takeover_meta :: ws_session_meta where
  "takeover_meta = sample_meta\<lparr>sm_deflate := deflate_default\<lparr>dp_enabled := True\<rparr>\<rparr>"

lemma armed_harmless: "harmless takeover_meta dir armed_env"
  by (cases dir) (simp_all add: harmless_def managed_reencode_safe_def takeover_meta_def deflate_default_def)

theorem tunnel_transparent_witness:
  "\<exists>p sh. pump_reads flate_copy takeover_meta ServerToClient
       [(\<lambda>_. armed_env, [0x81, 2, 0x61]), (\<lambda>_. armed_env, [0x62, 0x81])]
       (pump_new flate_copy ServerToClient deflate_default None, shared_new 0 1) = (p, sh) \<and>
     wr_out (pu_writer p) @ mg_buf (pu_framer p) = [0x81, 2, 0x61, 0x62, 0x81]"
proof -
  let ?reads = "[(\<lambda>_ :: nat. armed_env, [0x81, 2, 0x61]), (\<lambda>_. armed_env, [0x62, 0x81])] ::
    ((nat \<Rightarrow> tap_env) \<times> byte list) list"
  obtain p sh where "pump_reads flate_copy takeover_meta ServerToClient ?reads
      (pump_new flate_copy ServerToClient deflate_default None, shared_new 0 1) = (p, sh)"
    by fastforce
  then show ?thesis
    using tunnel_transparent [of ?reads takeover_meta ServerToClient flate_copy deflate_default
        "shared_new 0 1" p sh] armed_harmless by auto
qed

section \<open>The end of the stream\<close>

text \<open>
  A connection that ends in the middle of a frame while its direction is
  managed does not get the bytes of that frame to the peer: they stay in the framer's buffer, although
  nothing was to be changed and observe mode would have forwarded them.
\<close>

theorem managed_eof_loses_tail:
  "(let (p, sh) = pump_step flate_copy (\<lambda>_. armed_env) takeover_meta ServerToClient (EvEof [])
       (pump_reads flate_copy takeover_meta ServerToClient [(\<lambda>_. armed_env, [0x81, 5, 0x61])]
         (pump_new flate_copy ServerToClient deflate_default None, shared_new 0 1))
    in pu_done p \<and> wr_out (pu_writer p) = [])"
proof -
  let ?buf = "[0x81, 5, 0x61] :: byte list"
  have push: "framer_push (framer_new\<lparr>mg_buf := b\<rparr>) c = (framer_new\<lparr>mg_buf := ?buf\<rparr>, [])" if "b @ c = ?buf" for b c
    using that by (simp add: framer_push_def framer_new_def framer_loop.simps parse_header_def parse_length_def
        header_violations_def from_u8_def MAX_FRAME_LEN_def MANAGED_FRAME_CAP_def Let_def)
  show ?thesis
    using push [of "[]" ?buf] push [of ?buf "[]"]
    by (simp add: pump_step_def pump_read_def pump_read_managed_def pump_mode_def pump_at_boundary_def
        direction_managed_def armed_env_def pump_new_def decoder_new_def decoder_at_boundary_def
        framer_at_boundary_def framer_take_violations_def framer_new_def Let_def pump_splice_def
        pump_finish_def case_prod_beta)
qed

section \<open>What a rule does to a frame\<close>

text \<open>A frame the pump may decide about: valid in its context and a message of its own.\<close>

definition manageable :: "'z assembler \<Rightarrow> managed_frame \<Rightarrow> bool" where
  "manageable a frame \<longleftrightarrow> safe_to_manage a frame \<and> mf_fin frame \<and> mf_opcode frame \<noteq> Continuation"

definition opt_bytes :: "byte list option \<Rightarrow> byte list" where
  "opt_bytes v = (case v of None \<Rightarrow> [] | Some bs \<Rightarrow> bs)"

lemma handle_writes:
  assumes "manageable (pu_assembler p) frame" "wr_budget (pu_writer p) = None"
    "managed_action env meta dir frame sh = (sh1, action, held)"
    "managed_outcome_of (sm_deflate meta) dir frame action (sh_seed sh1) = (seed, out)"
  shows "\<exists>a sh'. handle_managed_frame fl env meta dir frame (p, sh) =
    ((wrote p (opt_bytes (mo_bytes out)) a, sh'), True)"
proof -
  have "write_opt (mo_bytes out) (pu_writer p) = ((pu_writer p)\<lparr>wr_out := wr_out (pu_writer p) @
      (opt_bytes (mo_bytes out))\<rparr>, True)"
    by (cases "mo_bytes out") (simp_all add: write_opt_def opt_bytes_def write_unbounded assms(2))
  then show ?thesis
    using assms(1)
    by (simp add: handle_managed_frame_def manageable_def assms(3,4) Let_def case_prod_beta wrote_def)
       (rule exI, rule refl)
qed

lemma decode_one:
  assumes "sendable (op, payload)"
  shows "decoder_push decoder_new (snd (encode_frame seed op payload msk)) =
    (decoder_new, [encoded_frame COMPRESSED_ACCUM_CAP msk (op, payload)])"
  using decoder_loop_encode_frames [of "[(op, payload)]" decoder_new seed msk] assms
  by (simp add: decoder_push_def decoder_new_def case_prod_beta)

lemma managed_action_no_hold:
  "te_intercept env = None \<Longrightarrow> managed_action env meta dir frame sh =
     (sh, apply_ws_rules (te_ext env) (te_rules env) (sm_host meta) dir (opcode_str (mf_opcode frame)), None)"
  by (simp add: managed_action_def Let_def)

text \<open>
  C4: for a whole valid frame, without an interception and with a writer that takes everything, where re-encoding is
  safe, what the peer receives is what the rules decided: the bytes of the frame itself when none applies, nothing when
  one drops it, and when one sets its text one frame of the same kind encoded with all of that text. When the text fits
  a frame of that kind (125 bytes for a control frame, see \<open>rule_text_breaks_control_limit\<close>), a decoder reads
  that frame back alone, without a finding, with the length of the text and as much of it as a decoder retains.
\<close>

theorem rule_effect_on_wire:
  assumes "manageable (pu_assembler p) frame" "wr_budget (pu_writer p) = None"
    "managed_reencode_safe (sm_deflate meta) dir" "te_intercept env = None"
  shows "\<exists>out p' sh'. handle_managed_frame fl env meta dir frame (p, sh) = ((p', sh'), True) \<and>
     wr_out (pu_writer p') = wr_out (pu_writer p) @ out \<and>
     (case apply_ws_rules (te_ext env) (te_rules env) (sm_host meta) dir (opcode_str (mf_opcode frame)) of
        RuleForward \<Rightarrow> out = mf_raw frame
      | RuleDrop rid \<Rightarrow> out = []
      | RuleModify rid payload \<Rightarrow>
          (\<exists>seed. out = snd (encode_frame seed (mf_opcode frame) payload (dir = ClientToServer))) \<and>
          (sendable (mf_opcode frame, payload) \<longrightarrow>
            decoder_push decoder_new out =
              (decoder_new, [encoded_frame COMPRESSED_ACCUM_CAP (dir = ClientToServer)
                 (mf_opcode frame, payload)])))"
proof -
  let ?action = "apply_ws_rules (te_ext env) (te_rules env) (sm_host meta) dir (opcode_str (mf_opcode frame))"
  obtain seed out where out: "managed_outcome_of (sm_deflate meta) dir frame ?action (sh_seed sh) = (seed, out)"
    by fastforce
  let ?bs = "opt_bytes (mo_bytes out)"
  obtain a sh' where "handle_managed_frame fl env meta dir frame (p, sh) = ((wrote p ?bs a, sh'), True)"
    using handle_writes [OF assms(1,2) managed_action_no_hold [OF assms(4)] out] by blast
  moreover have "case ?action of
        RuleForward \<Rightarrow> ?bs = mf_raw frame
      | RuleDrop rid \<Rightarrow> ?bs = []
      | RuleModify rid payload \<Rightarrow> \<exists>seed. ?bs = snd (encode_frame seed (mf_opcode frame) payload (dir = ClientToServer))"
    using out assms(3)
    by (cases ?action) (auto simp: managed_outcome_of_def opt_bytes_def case_prod_beta intro!: exI [of _ "sh_seed sh"])
  ultimately show ?thesis
    by (intro exI [of _ ?bs] exI [of _ "wrote p ?bs a"] exI [of _ sh'])
       (auto simp: decode_one split: ws_rule_action.splits)
qed

definition set_text_env :: "string \<Rightarrow> tap_env" where
  "set_text_env txt = armed_env\<lparr>te_intercept := None,
     te_rules := [(''r1'',
       \<lparr>cr_spec = \<lparr>rs_match_on = MatchOriginal, rs_matcher = MAll [], rs_action = Transform (SetWebsocketText txt)\<rparr>,
        cr_replace_regex = None, cr_local_response = None, cr_json_runtime = json_runtime_default\<rparr>)]\<rparr>"

lemma set_text_decides:
  "apply_ws_rules (te_ext (set_text_env txt)) (te_rules (set_text_env txt)) host dir op =
     RuleModify ''r1'' (str_bytes txt)"
  by (simp add: set_text_env_def apply_ws_rules_def ws_rule_matches_def Let_def phase_def)

definition sample_managed :: "opcode \<Rightarrow> byte list \<Rightarrow> byte list \<Rightarrow> managed_frame" where
  "sample_managed op payload raw =
     \<lparr>mf_fin = True, mf_rsv1 = False, mf_opcode = op, mf_masked = False, mf_violations = [],
      mf_payload = payload, mf_raw = raw\<rparr>"

lemma sample_manageable:
  assumes "op \<in> {OpBinary, OpPing, OpPong}" "length payload \<le> 125"
  shows "manageable (pu_assembler (pump_new fl ServerToClient deflate_default None)) (sample_managed op payload raw)"
  using assms
  by (auto simp: manageable_def safe_to_manage_def pump_new_def assembler_new_def sample_managed_def
      managed_to_raw_def validate_frame_def frame_findings_def deflate_default_def Let_def is_reserved_def
      COMPRESSED_ACCUM_CAP_def)

lemma sample_facts [simp]:
  "wr_budget (pu_writer (pump_new fl dir deflate None)) = None"
  "wr_out (pu_writer (pump_new fl dir deflate budget)) = []"
  "managed_reencode_safe (sm_deflate sample_meta) dir"
  "te_intercept (set_text_env txt) = None"
  "mf_opcode (sample_managed op payload raw) = op"
  by (simp_all add: pump_new_def sample_meta_def managed_reencode_safe_def deflate_default_def set_text_env_def
      sample_managed_def)

theorem rule_effect_on_wire_witness:
  "\<exists>p sh. handle_managed_frame flate_copy (set_text_env ''ok'') sample_meta ServerToClient
       (sample_managed OpBinary [0x68] [0x82, 1, 0x68])
       (pump_new flate_copy ServerToClient deflate_default None, shared_new 0 1) = ((p, sh), True) \<and>
     decoder_push decoder_new (wr_out (pu_writer p)) =
       (decoder_new, [encoded_frame COMPRESSED_ACCUM_CAP False (OpBinary, str_bytes ''ok'')])"
  using rule_effect_on_wire [of "pump_new flate_copy ServerToClient deflate_default None"
      "sample_managed OpBinary [0x68] [0x82, 1, 0x68]" sample_meta ServerToClient "set_text_env ''ok''"
      flate_copy "shared_new 0 1"] sample_manageable [of OpBinary "[0x68]"]
  by (auto simp: set_text_decides sendable_def is_reserved_def MAX_FRAME_LEN_def str_bytes_def)

lemma parse_header_oversized_control:
  assumes "is_control op" "\<not> is_reserved op" "125 < len" "len \<le> MAX_FRAME_LEN"
  shows "\<exists>h n. parse_header (encode_header op len False @ rest) = Parsed h n \<and>
    ''oversized_control_frame'' \<in> pv_code ` set (h_violations h)"
proof -
  let ?hd = "encode_header op len False"
  have len2: "2 \<le> length ?hd"
    by (simp add: length_encode_header)
  have b0: "(?hd @ rest) ! 0 = 0x80 OR to_u8 op"
    by (simp add: encode_header_def Let_def)
  have b1: "(?hd @ rest) ! Suc 0 = ?hd ! Suc 0"
    using len2 by (simp add: nth_append)
  note pl = parse_length_encoded [OF assms(4) refl, of op False rest]
  have viol: "''oversized_control_frame'' \<in>
      pv_code ` set (header_violations True False False op (?hd ! Suc 0 AND 0x7F) len)"
    using assms(1,3) by (simp add: header_violations_def violation_frame_def)
  show ?thesis
    using pl len2 viol assms(4) encode_byte0 [OF assms(2)]
    by (simp add: parse_header_def Let_def b0 b1 split: if_splits)
qed

text \<open>
  A \<open>ws-set-text\<close> rule that compiles and matches every frame rewrites
  pings and pongs as well: with a text of more than 125 bytes the frame it puts on the wire is an
  oversized control frame, which the header parser of this program itself reports as a violation.
\<close>

theorem rule_text_breaks_control_limit:
  assumes "op \<in> {OpPing, OpPong}" "length payload \<le> 125"
    "125 < length txt" "length txt \<le> MAX_FRAME_LEN"
  shows "(\<exists>c. compile_rule cx (cr_spec (snd (te_rules (set_text_env txt) ! 0))) = Inr c) \<and>
    (\<exists>p sh' h n. handle_managed_frame fl (set_text_env txt) sample_meta ServerToClient
        (sample_managed op payload raw) (pump_new fl ServerToClient deflate_default None, sh) = ((p, sh'), True) \<and>
      parse_header (wr_out (pu_writer p)) = Parsed h n \<and>
      ''oversized_control_frame'' \<in> pv_code ` set (h_violations h))"
proof (rule conjI)
  show "\<exists>c. compile_rule cx (cr_spec (snd (te_rules (set_text_env txt) ! 0))) = Inr c"
    by (simp add: set_text_env_def compile_rule_def compile_action_def validate_transform_def
        validate_phase_matchers_def)
next
  let ?frame = "sample_managed op payload raw"
  let ?p = "pump_new fl ServerToClient deflate_default None"
  have frame: "manageable (pu_assembler ?p) ?frame"
    using assms(1,2) by (intro sample_manageable) auto
  obtain seed out where out: "managed_outcome_of (sm_deflate sample_meta) ServerToClient ?frame
      (RuleModify ''r1'' (str_bytes txt)) (sh_seed sh) = (seed, out)"
    by fastforce
  have bytes: "opt_bytes (mo_bytes out) = encode_header op (length txt) False @ str_bytes txt"
    using out by (auto simp: managed_outcome_of_def opt_bytes_def encode_frame_def str_bytes_def case_prod_beta)
  have act: "managed_action (set_text_env txt) sample_meta ServerToClient ?frame sh =
      (sh, RuleModify ''r1'' (str_bytes txt), None)"
    by (simp add: managed_action_no_hold set_text_decides)
  show "\<exists>p sh' h n. handle_managed_frame fl (set_text_env txt) sample_meta ServerToClient ?frame (?p, sh) =
      ((p, sh'), True) \<and> parse_header (wr_out (pu_writer p)) = Parsed h n \<and>
      ''oversized_control_frame'' \<in> pv_code ` set (h_violations h)"
  proof -
    obtain a sh' where run: "handle_managed_frame fl (set_text_env txt) sample_meta ServerToClient ?frame (?p, sh) =
        ((wrote ?p (opt_bytes (mo_bytes out)) a, sh'), True)"
      using handle_writes [OF frame sample_facts(1) act out] by blast
    obtain h n where "parse_header (encode_header op (length txt) False @ str_bytes txt) = Parsed h n"
      "''oversized_control_frame'' \<in> pv_code ` set (h_violations h)"
      using parse_header_oversized_control [of op "length txt" "str_bytes txt"] assms
      by (auto simp: is_reserved_def)
    with run show ?thesis
      by (intro exI [of _ "wrote ?p (opt_bytes (mo_bytes out)) a"] exI [of _ sh'] exI [of _ h] exI [of _ n])
         (simp add: bytes)
  qed
qed

theorem rule_text_breaks_control_limit_witness:
  "\<exists>p sh' h n. handle_managed_frame flate_copy (set_text_env (replicate 126 CHR ''x'')) sample_meta ServerToClient
        (sample_managed OpPing [] [0x89, 0]) (pump_new flate_copy ServerToClient deflate_default None, shared_new 0 1) =
        ((p, sh'), True) \<and>
      parse_header (wr_out (pu_writer p)) = Parsed h n \<and>
      ''oversized_control_frame'' \<in> pv_code ` set (h_violations h)"
  by (rule rule_text_breaks_control_limit [THEN conjunct2]) (simp_all add: MAX_FRAME_LEN_def)

section \<open>Injected frames\<close>

definition inj_pair :: "injected_frame \<Rightarrow> opcode \<times> byte list" where
  "inj_pair f = (inj_opcode f, inj_payload f)"

definition may_splice :: "bool \<Rightarrow> bool \<Rightarrow> injected_frame \<Rightarrow> bool" where
  "may_splice at_frame at_msg f \<longleftrightarrow> (if is_control (inj_opcode f) then at_frame else at_msg)"

lemma queue_counter [simp]: "sh_counter (queue_observed_record r sh) = sh_counter sh"
  "sh_seed (queue_observed_record r sh) = sh_seed sh"
  by (simp_all add: queue_observed_record_def)

lemma splice_injections_spec:
  assumes "wr_budget (pu_writer p) = None"
  shows "\<exists>sh'. splice_injections env meta dir at_frame at_msg fs (p, sh) =
     (p\<lparr>pu_pending := dropWhile (may_splice at_frame at_msg) fs,
        pu_writer := (pu_writer p)\<lparr>wr_out := wr_out (pu_writer p) @
          encode_frames (sh_seed sh) (dir = ClientToServer)
            (map inj_pair (takeWhile (may_splice at_frame at_msg) fs))\<rparr>\<rparr>, sh') \<and>
     sh_counter sh' = sh_counter sh + length (takeWhile (may_splice at_frame at_msg) fs)"
  using assms
proof (induction fs arbitrary: p sh)
  case Nil
  then show ?case by simp
next
  case (Cons f fs)
  show ?case
  proof (cases "may_splice at_frame at_msg f")
    case False
    then show ?thesis
      by (cases "is_control (inj_opcode f)") (simp_all add: may_splice_def)
  next
    case True
    obtain seed bytes where enc: "encode_frame (sh_seed sh) (inj_opcode f) (inj_payload f) (dir = ClientToServer) = (seed, bytes)"
      by fastforce
    let ?p = "p\<lparr>pu_writer := (pu_writer p)\<lparr>wr_out := wr_out (pu_writer p) @ bytes\<rparr>\<rparr>"
    obtain sh1 where step: "splice_injections env meta dir at_frame at_msg (f # fs) (p, sh) =
        splice_injections env meta dir at_frame at_msg fs (?p, sh1)"
      "sh_seed sh1 = seed" "sh_counter sh1 = sh_counter sh + 1"
      using True Cons.prems enc
      by (simp add: may_splice_def write_unbounded next_seq_def next_flow_def Let_def split: if_splits)
    show ?thesis
      using Cons.IH [of ?p sh1] Cons.prems True step enc by (auto simp: inj_pair_def)
  qed
qed

text \<open>
  Injected frames leave in the order they were queued, only between frames, and
  data frames only between messages: what is written is exactly the longest prefix of the queue that
  may go now, it reads back as those frames and nothing else, each gets a sequence number of its
  own, and the rest of the queue waits unchanged.
\<close>

theorem injections_spliced:
  fixes p :: "'z pump"
  defines "ok \<equiv> may_splice (pump_at_boundary p) (pump_at_boundary p \<and> at_message_boundary (pu_assembler p))"
  assumes "wr_budget (pu_writer p) = None"
    "list_all sendable (map inj_pair (takeWhile ok (pu_pending p)))"
  shows "\<exists>p' sh' bytes. pump_splice env meta dir (p, sh) = (p', sh') \<and>
    wr_out (pu_writer p') = wr_out (pu_writer p) @ bytes \<and> pu_pending p' = dropWhile ok (pu_pending p) \<and>
    decoder_push decoder_new bytes =
      (decoder_new, map (encoded_frame COMPRESSED_ACCUM_CAP (dir = ClientToServer))
         (map inj_pair (takeWhile ok (pu_pending p)))) \<and>
    sh_counter sh' = sh_counter sh + length (takeWhile ok (pu_pending p))"
proof -
  let ?bytes = "encode_frames (sh_seed sh) (dir = ClientToServer) (map inj_pair (takeWhile ok (pu_pending p)))"
  obtain sh' where "pump_splice env meta dir (p, sh) =
     (p\<lparr>pu_pending := dropWhile ok (pu_pending p),
        pu_writer := (pu_writer p)\<lparr>wr_out := wr_out (pu_writer p) @ ?bytes\<rparr>\<rparr>, sh')"
    "sh_counter sh' = sh_counter sh + length (takeWhile ok (pu_pending p))"
    using splice_injections_spec [OF assms(2), of env meta dir "pump_at_boundary p"
        "pump_at_boundary p \<and> at_message_boundary (pu_assembler p)" "pu_pending p" sh]
    by (auto simp: pump_splice_def Let_def ok_def)
  moreover have "decoder_push decoder_new ?bytes =
      (decoder_new, map (encoded_frame COMPRESSED_ACCUM_CAP (dir = ClientToServer))
         (map inj_pair (takeWhile ok (pu_pending p))))"
    using decoder_loop_encode_frames [OF assms(3), of decoder_new] by (simp add: decoder_push_def decoder_new_def)
  ultimately show ?thesis by auto
qed

definition waiting_pump :: "nat pump" where
  "waiting_pump = (pump_new flate_copy ClientToServer deflate_default None)
     \<lparr>pu_pending := [\<lparr>inj_opcode = OpText, inj_payload = [0x68, 0x69]\<rparr>, \<lparr>inj_opcode = OpPing, inj_payload = []\<rparr>]\<rparr>"

theorem injections_spliced_witness:
  "\<exists>p sh bytes. pump_splice armed_env sample_meta ClientToServer (waiting_pump, shared_new 7 1) = (p, sh) \<and>
     wr_out (pu_writer p) = bytes \<and> pu_pending p = [] \<and>
     decoder_push decoder_new bytes =
       (decoder_new, [encoded_frame COMPRESSED_ACCUM_CAP True (OpText, [0x68, 0x69]),
                      encoded_frame COMPRESSED_ACCUM_CAP True (OpPing, [])]) \<and>
     sh_counter sh = 3"
proof -
  have "pump_at_boundary waiting_pump" "at_message_boundary (pu_assembler waiting_pump)"
    by (simp_all add: waiting_pump_def pump_new_def pump_at_boundary_def decoder_new_def
        decoder_at_boundary_def at_message_boundary_def assembler_new_def Let_def)
  then show ?thesis
    using injections_spliced [of waiting_pump armed_env sample_meta ClientToServer "shared_new 7 1"]
    by (simp add: waiting_pump_def may_splice_def inj_pair_def sendable_def is_reserved_def
        MAX_FRAME_LEN_def shared_new_def numeral_3_eq_3)
qed

section \<open>Directions without rules\<close>

lemma rules_loop_skip:
  assumes "\<forall>(rid, rule) \<in> set rules. phase (cr_spec rule) = PhaseWebsocket \<longrightarrow>
      \<not> matches ext (ws_context host (to_ws_direction dir) op) (rs_matcher (cr_spec rule))"
  shows "ws_rules_loop ext rules host dir op m = (case m of None \<Rightarrow> RuleForward | Some (rid, payload) \<Rightarrow> RuleModify rid payload)"
  using assms by (induction rules) (auto simp: Let_def ws_rule_matches_def)

text \<open>
  A direction that is left in observe mode has nothing to apply: for a
  frame of any of the five kinds a rule or an armed interception can name, no rule decides it and no
  interception matches it.
\<close>

theorem observe_mode_misses_nothing:
  assumes "\<not> direction_managed env meta dir" "op \<in> {OpText, OpBinary, OpPing, OpPong, OpClose}"
  shows "managed_action env meta dir (frame\<lparr>mf_opcode := op\<rparr>) sh = (sh, RuleForward, None)"
proof -
  obtain wop :: ws_opcode where wop: "opcode_str op = ws_opcode_str wop"
    using assms(2) by (cases op) (auto intro: that [of WsText] that [of WsBinary] that [of WsPing] that [of WsPong] that [of WsClose])
  have "apply_ws_rules (te_ext env) (te_rules env) (sm_host meta) dir (opcode_str op) = RuleForward"
    using assms(1) unfolding apply_ws_rules_def
    by (subst rules_loop_skip) (auto simp: direction_managed_def list_ex_iff could_match_iff wop)
  then show ?thesis
    using assms(1) by (auto simp: managed_action_def direction_managed_def intercept_matches_def split: option.splits)
qed

theorem observe_mode_misses_nothing_witness:
  "managed_action (armed_env\<lparr>te_intercept := None\<rparr>) sample_meta ClientToServer
     ((sample_managed OpPing [] [])\<lparr>mf_opcode := OpText\<rparr>) (shared_new 0 1) = (shared_new 0 1, RuleForward, None)"
  by (rule observe_mode_misses_nothing) (simp_all add: direction_managed_def armed_env_def)

end
