(* ===== verification/WsSession.thy ===== *)
theory WsSession
  imports WsTunnel
begin

text \<open>
  The invariant of a whole session of \<^verbatim>\<open>net/ws.rs\<close>: two pumps and the drain task of \<open>tap\<close>, in any
  interleaving of their events. Records are numbered apart, and the queue between the pumps and the
  drain task stays within its capacity.
\<close>

section \<open>Numbers handed out\<close>

fun flow_of :: "observed_record \<Rightarrow> nat" where
  "flow_of (ObsMessage r) = wm_flow_sequence r"
| "flow_of (ObsViolation r) = wv_flow_sequence r"

fun seq_of :: "observed_record \<Rightarrow> nat list" where
  "seq_of (ObsMessage r) = [wm_seq r]"
| "seq_of (ObsViolation r) = []"

definition recorded :: "tap_shared \<Rightarrow> observed_record list" where
  "recorded sh = sh_log sh @ sh_queue sh"

definition flows :: "tap_shared \<Rightarrow> nat list" where
  "flows sh = map flow_of (recorded sh)"

definition seqs :: "tap_shared \<Rightarrow> nat list" where
  "seqs sh = concat (map seq_of (recorded sh))"

definition shared_ok :: "tap_shared \<Rightarrow> bool" where
  "shared_ok sh \<longleftrightarrow> length (sh_queue sh) \<le> QUEUE_CAP \<and>
     distinct (flows sh) \<and> (\<forall>n\<in>set (flows sh). n < sh_flow sh) \<and>
     distinct (seqs sh) \<and> (\<forall>n\<in>set (seqs sh). n < sh_counter sh)"

text \<open>A number taken from the counter that no record carries yet.\<close>

definition fresh_seq :: "nat \<Rightarrow> tap_shared \<Rightarrow> bool" where
  "fresh_seq n sh \<longleftrightarrow> n < sh_counter sh \<and> n \<notin> set (seqs sh)"

definition fresh_flow :: "nat \<Rightarrow> tap_shared \<Rightarrow> bool" where
  "fresh_flow n sh \<longleftrightarrow> n < sh_flow sh \<and> n \<notin> set (flows sh)"

lemmas shared_defs = recorded_def flows_def seqs_def fresh_seq_def fresh_flow_def

lemma shared_ok_fields [simp]:
  "shared_ok (sh\<lparr>sh_stats := st\<rparr>) = shared_ok sh" "shared_ok (sh\<lparr>sh_seed := seed\<rparr>) = shared_ok sh"
  "shared_ok (sh\<lparr>sh_held_events := es\<rparr>) = shared_ok sh"
  by (simp_all add: shared_ok_def shared_defs)

lemma fresh_fields [simp]:
  "fresh_seq n (sh\<lparr>sh_stats := st\<rparr>) = fresh_seq n sh" "fresh_seq n (sh\<lparr>sh_seed := seed\<rparr>) = fresh_seq n sh"
  "fresh_seq n (sh\<lparr>sh_held_events := es\<rparr>) = fresh_seq n sh"
  by (simp_all add: shared_defs)

lemma numbers_unchanged [simp]:
  "flows (sh\<lparr>sh_counter := n\<rparr>) = flows sh" "flows (sh\<lparr>sh_flow := n\<rparr>) = flows sh"
  "seqs (sh\<lparr>sh_counter := n\<rparr>) = seqs sh" "seqs (sh\<lparr>sh_flow := n\<rparr>) = seqs sh"
  by (simp_all add: shared_defs)

lemma next_seq_ok:
  assumes "shared_ok sh" "next_seq sh = (sh', n)"
  shows "shared_ok sh' \<and> fresh_seq n sh' \<and> (\<forall>m. fresh_seq m sh \<longrightarrow> fresh_seq m sh')"
  using assms by (auto simp: next_seq_def shared_ok_def fresh_seq_def less_Suc_eq)

lemma next_flow_ok:
  assumes "shared_ok sh" "next_flow sh = (sh', n)"
  shows "shared_ok sh' \<and> fresh_flow n sh' \<and> (\<forall>m. fresh_seq m sh \<longrightarrow> fresh_seq m sh')"
  using assms by (auto simp: next_flow_def shared_ok_def fresh_seq_def fresh_flow_def less_Suc_eq)

lemma queue_numbers:
  "flows (queue_observed_record r sh) =
     flows sh @ (if length (sh_queue sh) \<ge> QUEUE_CAP then [] else [flow_of r])"
  "seqs (queue_observed_record r sh) =
     seqs sh @ (if length (sh_queue sh) \<ge> QUEUE_CAP then [] else seq_of r)"
  "sh_flow (queue_observed_record r sh) = sh_flow sh"
  "length (sh_queue (queue_observed_record r sh)) =
     length (sh_queue sh) + (if length (sh_queue sh) \<ge> QUEUE_CAP then 0 else 1)"
  by (simp_all add: queue_observed_record_def flows_def seqs_def recorded_def)

lemma queue_message_ok:
  assumes "shared_ok sh" "fresh_flow (wm_flow_sequence r) sh" "fresh_seq (wm_seq r) sh"
  shows "shared_ok (queue_observed_record (ObsMessage r) sh)"
  using assms by (simp add: shared_ok_def queue_numbers fresh_flow_def fresh_seq_def)

lemma queue_violation_ok:
  assumes "shared_ok sh" "fresh_flow (wv_flow_sequence r) sh"
  shows "shared_ok (queue_observed_record (ObsViolation r) sh) \<and>
    (\<forall>m. fresh_seq m sh \<longrightarrow> fresh_seq m (queue_observed_record (ObsViolation r) sh))"
  using assms by (simp add: shared_ok_def queue_numbers fresh_flow_def fresh_seq_def)

text \<open>What every operation of a pump keeps: the invariant, and the freshness of a number in hand.\<close>

definition keeps :: "tap_shared \<Rightarrow> tap_shared \<Rightarrow> bool" where
  "keeps sh sh' \<longleftrightarrow> (shared_ok sh \<longrightarrow> shared_ok sh' \<and> (\<forall>m. fresh_seq m sh \<longrightarrow> fresh_seq m sh'))"

lemma keeps_refl [simp]: "keeps sh sh" "keeps sh (sh\<lparr>sh_seed := seed\<rparr>)" "keeps sh (sh\<lparr>sh_stats := st\<rparr>)"
  by (simp_all add: keeps_def)

lemma keeps_trans [trans]: "keeps a b \<Longrightarrow> keeps b c \<Longrightarrow> keeps a c"
  by (simp add: keeps_def)

lemma numbers_keepD: "keeps sh sh' \<Longrightarrow> shared_ok sh \<Longrightarrow> shared_ok sh'"
  by (simp add: keeps_def)

lemma record_numbers [simp]:
  "wm_seq (build_message_record meta dir seq msg red ts flow) = seq"
  "wm_flow_sequence (build_message_record meta dir seq msg red ts flow) = flow"
  "wm_seq (injected_record meta dir seq f red ts flow) = seq"
  "wm_flow_sequence (injected_record meta dir seq f red ts flow) = flow"
  by (simp_all add: injected_record_def build_message_record_def Let_def case_prod_beta)

lemma violation_number [simp]: "wv_flow_sequence (violation_record env meta dir ordinal flow v) = flow"
  by (simp add: violation_record_def wv_redact_def Let_def split: option.split)

lemma emit_violations_keeps: "keeps sh (emit_protocol_violations env meta dir vs sh)"
proof (induction vs arbitrary: sh)
  case (Cons v vs)
  obtain stats ordinal where rec: "record_violation dir (pv_fatal v) (sh_stats sh) = (stats, ordinal)"
    by fastforce
  obtain sh1 flow where flow: "next_flow (sh\<lparr>sh_stats := stats\<rparr>) = (sh1, flow)"
    by fastforce
  let ?r = "violation_record env meta dir ordinal flow v"
  have "keeps sh (queue_observed_record (ObsViolation ?r) sh1)"
    unfolding keeps_def
    using next_flow_ok [OF _ flow] queue_violation_ok [of sh1 ?r] by auto
  then show ?case
    using Cons.IH by (simp add: rec flow) (rule keeps_trans)
qed simp

lemma emit_violations_ok: "shared_ok sh \<Longrightarrow> shared_ok (emit_protocol_violations env meta dir vs sh)"
  using emit_violations_keeps by (rule numbers_keepD)

lemma emit_message_ok:
  assumes "shared_ok sh" "fresh_seq (wm_seq r) sh" "next_flow sh = (sh', wm_flow_sequence r)"
  shows "shared_ok (queue_observed_record (ObsMessage r) sh')"
  using next_flow_ok [OF assms(1,3)] assms(2) by (intro queue_message_ok) auto

lemma emit_observed_ok:
  assumes "shared_ok sh"
  shows "shared_ok (emit_observed env meta dir msg sh)"
proof -
  obtain sh1 seq where seq: "next_seq (sh\<lparr>sh_stats := stats_record dir msg (sh_stats sh)\<rparr>) = (sh1, seq)"
    by fastforce
  obtain sh2 flow where flow: "next_flow sh1 = (sh2, flow)"
    by fastforce
  have "shared_ok sh1" "fresh_seq seq sh1"
    using next_seq_ok [OF _ seq] assms by auto
  then show ?thesis
    using emit_message_ok [of sh1 _ sh2] flow by (simp add: emit_observed_def seq Let_def)
qed

lemma accept_observed_keeps:
  "accept_observed_frame fl env meta dir frame a sh = (a', sh', msg) \<Longrightarrow> keeps sh sh'"
  by (auto simp: accept_observed_frame_def case_prod_beta Let_def intro: emit_violations_keeps)

lemma observe_frame_ok:
  assumes "shared_ok (snd ash)"
  shows "shared_ok (snd (observe_frame fl env meta dir frame ash))"
proof -
  obtain a sh msg where acc: "accept_observed_frame fl env meta dir frame (fst ash) (snd ash) = (a, sh, msg)"
    by (rule prod_cases3)
  have "shared_ok sh"
    using accept_observed_keeps [OF acc] assms by (rule numbers_keepD)
  then show ?thesis
    by (simp add: observe_frame_def acc emit_observed_ok split: option.split)
qed

lemma fold_observe_ok:
  "shared_ok (snd ash) \<Longrightarrow> shared_ok (snd (fold (observe_frame fl env meta dir) frames ash))"
  by (induction frames arbitrary: ash) (simp_all add: observe_frame_ok)

lemma managed_action_ok:
  assumes "shared_ok sh" "managed_action env meta dir frame sh = (sh', action, held)"
  shows "shared_ok sh' \<and> (\<forall>n. held = Some n \<longrightarrow> fresh_seq n sh')"
proof -
  obtain sh1 seq where "next_seq sh = (sh1, seq)"
    by fastforce
  then show ?thesis
    using next_seq_ok [OF assms(1)] assms
    by (auto simp: managed_action_def Let_def case_prod_beta split: if_splits option.splits)
qed

lemma forward_and_observe_ok:
  "shared_ok (snd st) \<Longrightarrow> shared_ok (snd (fst (forward_and_observe fl env meta dir frame st)))"
  by (simp add: forward_and_observe_def case_prod_beta Let_def observe_frame_ok)

lemma record_managed_ok:
  assumes "shared_ok sh" "\<And>n. held = Some n \<Longrightarrow> fresh_seq n sh"
  shows "shared_ok (record_managed env meta dir frame out held observed sh)"
proof (cases "case mo_modified out of
    Some payload \<Rightarrow> Some (injected_message (mf_opcode frame) payload (length (mf_payload frame))) | None \<Rightarrow> observed")
  case None
  then show ?thesis using assms(1) by (simp add: record_managed_def)
next
  case (Some msg)
  let ?sh1 = "sh\<lparr>sh_stats := stats_record dir msg (sh_stats sh)\<rparr>"
  obtain sh2 seq where seq: "(case held of Some n \<Rightarrow> (?sh1, n) | None \<Rightarrow> next_seq ?sh1) = (sh2, seq)"
    by fastforce
  obtain sh3 flow where flow: "next_flow sh2 = (sh3, flow)"
    by fastforce
  have "shared_ok sh2" "fresh_seq seq sh2"
    using seq assms next_seq_ok [of ?sh1 sh2 seq] by (auto split: option.splits)
  then show ?thesis
    using emit_message_ok [of sh2 _ sh3] flow by (simp add: record_managed_def Some seq Let_def)
qed

lemma handle_ok:
  assumes "shared_ok (snd st)"
  shows "shared_ok (snd (fst (handle_managed_frame fl env meta dir frame st)))"
proof (cases "manageable (pu_assembler (fst st)) frame")
  case False
  then show ?thesis
    using forward_and_observe_ok [OF assms]
    by (auto simp: handle_managed_frame_def manageable_def case_prod_beta Let_def)
next
  case True
  obtain p sh where st: "st = (p, sh)" by fastforce
  obtain sh1 action held where act: "managed_action env meta dir frame sh = (sh1, action, held)"
    by (rule prod_cases3)
  obtain seed out where out: "managed_outcome_of (sm_deflate meta) dir frame action (sh_seed sh1) = (seed, out)"
    by fastforce
  obtain w ok where w: "write_opt (mo_bytes out) (pu_writer p) = (w, ok)"
    by fastforce
  obtain a sh3 observed where acc: "accept_observed_frame fl env meta dir (managed_to_raw frame) (pu_assembler p)
      (sh1\<lparr>sh_seed := seed\<rparr>) = (a, sh3, observed)"
    by (rule prod_cases3)
  have sh1: "shared_ok sh1" "\<And>n. held = Some n \<Longrightarrow> fresh_seq n sh1"
    using managed_action_ok [OF _ act] assms st by auto
  then have sh3: "shared_ok sh3" "\<And>n. held = Some n \<Longrightarrow> fresh_seq n sh3"
    using accept_observed_keeps [OF acc] by (auto simp: keeps_def)
  show ?thesis
    using True sh1(1) record_managed_ok [OF sh3]
    by (simp add: handle_managed_frame_def manageable_def st act out w acc Let_def)
qed

section \<open>Every event keeps the invariant\<close>

lemma pump_item_ok: "shared_ok (snd st) \<Longrightarrow> shared_ok (snd (fst (pump_item fl env meta dir item st)))"
  by (auto simp: pump_item_def case_prod_beta Let_def handle_ok observe_frame_ok split: managed_item.split)

lemma pump_items_ok:
  "shared_ok (snd st) \<Longrightarrow> shared_ok (snd (fst (pump_items fl envs i meta dir items st)))"
  by (induction items arbitrary: i st) (simp_all add: case_prod_beta Let_def pump_item_ok)

lemma pump_read_ok:
  "shared_ok (snd st) \<Longrightarrow> shared_ok (snd (fst (pump_read fl envs meta dir bs st)))"
  by (simp add: pump_read_def pump_read_managed_def pump_read_observed_def case_prod_beta Let_def
      pump_items_ok fold_observe_ok emit_violations_ok)

lemma splice_injections_ok:
  "shared_ok sh \<Longrightarrow> shared_ok (snd (splice_injections env meta dir at_frame at_msg fs (p, sh)))"
proof (induction fs arbitrary: p sh at_frame at_msg)
  case (Cons f fs)
  obtain seed bytes where enc: "encode_frame (sh_seed sh) (inj_opcode f) (inj_payload f) (dir = ClientToServer) = (seed, bytes)"
    by fastforce
  obtain w ok where w: "write_all bytes (pu_writer p) = (w, ok)"
    by fastforce
  obtain sh2 seq where seq: "next_seq (sh\<lparr>sh_seed := seed\<rparr>) = (sh2, seq)"
    by fastforce
  obtain sh3 flow where flow: "next_flow sh2 = (sh3, flow)"
    by fastforce
  have "shared_ok sh2" "fresh_seq seq sh2"
    using next_seq_ok [OF _ seq] Cons.prems by auto
  then show ?case
    using Cons emit_message_ok [of sh2 _ sh3] flow by (simp add: enc w seq Let_def)
qed simp

lemma pump_finish_ok: "shared_ok (snd st) \<Longrightarrow> shared_ok (snd (pump_finish env meta dir st))"
  by (simp add: pump_finish_def case_prod_beta Let_def emit_violations_ok)

lemma pump_splice_ok: "shared_ok (snd st) \<Longrightarrow> shared_ok (snd (pump_splice env meta dir st))"
  using splice_injections_ok by (cases st) (simp add: pump_splice_def Let_def)

lemma pump_step_ok:
  assumes "shared_ok (snd st)"
  shows "shared_ok (snd (pump_step fl envs meta dir ev st))"
proof (cases "pu_done (fst st)")
  case True
  then show ?thesis using assms by (simp add: pump_step_def)
next
  case False
  have read: "shared_ok (snd (fst (pump_read fl envs meta dir bs (p, snd st))))" for bs p
    using assms by (intro pump_read_ok) simp
  show ?thesis
    by (cases ev) (simp_all add: pump_step_def False assms pump_finish_ok pump_splice_ok case_prod_beta Let_def
        read read [of _ "fst st", simplified])
qed

lemma drain_one_ok: "shared_ok sh \<Longrightarrow> shared_ok (drain_one sh)"
proof (cases "sh_queue sh")
  case (Cons r rs)
  then have "flows (drain_one sh) = flows sh" "seqs (drain_one sh) = seqs sh"
    "sh_flow (drain_one sh) = sh_flow sh" "sh_counter (drain_one sh) = sh_counter sh"
    "length (sh_queue (drain_one sh)) \<le> length (sh_queue sh)"
    by (simp_all add: drain_one_def flows_def seqs_def recorded_def)
  then show "shared_ok sh \<Longrightarrow> shared_ok (drain_one sh)"
    by (simp add: shared_ok_def)
qed (simp add: drain_one_def)

lemma tap_step_ok: "tap_step fl meta t t' \<Longrightarrow> shared_ok (tp_shared t) \<Longrightarrow> shared_ok (tp_shared t')"
proof (induction rule: tap_step.induct)
  case (step_client envs ev t p sh)
  then show ?case using pump_step_ok [of "(tp_client t, tp_shared t)" fl envs meta ClientToServer ev] by simp
next
  case (step_server envs ev t p sh)
  then show ?case using pump_step_ok [of "(tp_server t, tp_shared t)" fl envs meta ServerToClient ev] by simp
qed (simp add: drain_one_ok)

lemma shared_new_ok: "shared_ok (shared_new seed flow)"
  by (simp add: shared_new_def shared_ok_def flows_def seqs_def recorded_def)

lemma tap_reachable_ok: "tap_reachable fl meta t \<Longrightarrow> shared_ok (tp_shared t)"
proof (induction rule: tap_reachable.induct)
  case (reach_start seed flow to_server to_client)
  then show ?case by (simp add: tap_new_def shared_new_ok)
next
  case (reach_step t t')
  then show ?case using tap_step_ok by blast
qed

section \<open>Properties\<close>

text \<open>
  C5: in every state a session can reach, however the events of its two pumps and
  of the drain task interleave, the record queue holds at most 256 records, no two message records
  carry the same sequence number (and so the same id) and no two records of any kind the same place
  in the global order.
\<close>

theorem session_records_apart:
  assumes "tap_reachable fl meta t"
  shows "length (sh_queue (tp_shared t)) \<le> 256 \<and>
    distinct (concat (map seq_of (sh_log (tp_shared t) @ sh_queue (tp_shared t)))) \<and>
    distinct (map flow_of (sh_log (tp_shared t) @ sh_queue (tp_shared t)))"
  using tap_reachable_ok [OF assms]
  by (simp add: shared_ok_def QUEUE_CAP_def flows_def seqs_def recorded_def)

theorem session_records_apart_witness:
  "\<exists>p sh. pump_step flate_copy (\<lambda>_. armed_env) sample_meta ClientToServer
      (EvInject \<lparr>inj_opcode = OpPing, inj_payload = []\<rparr>)
      (tp_client (tap_new flate_copy sample_meta 0 1 None None), tp_shared (tap_new flate_copy sample_meta 0 1 None None)) =
      (p, sh) \<and> length (sh_queue sh) \<le> 256 \<and> distinct (map flow_of (sh_log sh @ sh_queue sh))"
proof -
  let ?t = "tap_new flate_copy sample_meta 0 1 None None"
  obtain p sh where step: "pump_step flate_copy (\<lambda>_. armed_env) sample_meta ClientToServer
      (EvInject \<lparr>inj_opcode = OpPing, inj_payload = []\<rparr>) (tp_client ?t, tp_shared ?t) = (p, sh)"
    by fastforce
  have "tap_reachable flate_copy sample_meta (?t\<lparr>tp_client := p, tp_shared := sh\<rparr>)"
    by (rule reach_step [OF reach_start step_client [OF step]])
  then show ?thesis
    using session_records_apart [of flate_copy sample_meta "?t\<lparr>tp_client := p, tp_shared := sh\<rparr>"] step by simp
qed

section \<open>Shadowed rules\<close>

lemma rules_loop_terminal:
  assumes "(rid, rule) \<in> set rules" "phase (cr_spec rule) = PhaseWebsocket" "is_terminal (cr_spec rule)"
    "ws_rule_matches ext (cr_spec rule) host dir op"
  shows "ws_rules_loop ext (rules @ rest) host dir op m = ws_rules_loop ext rules host dir op m"
  using assms
proof (induction rules arbitrary: m)
  case (Cons r rules)
  show ?case
  proof (cases "r = (rid, rule)")
    case True
    then obtain terminal where "rs_action (cr_spec rule) = Terminal terminal"
      using Cons.prems(3) by (auto simp: is_terminal_def split: rule_action.splits)
    moreover from this have "terminal = DropWebsocket"
      using Cons.prems(2) by (cases terminal) (simp_all add: phase_def)
    ultimately show ?thesis
      using True Cons.prems by (simp add: Let_def)
  next
    case False
    then show ?thesis
      using Cons by (cases r) (auto simp: Let_def split: rule_action.split rule_transform.split rule_terminal.split)
  qed
qed simp

lemma rules_loop_append:
  assumes "\<And>m. ws_rules_loop ext rest host dir op m = ws_rules_loop ext rest' host dir op m"
  shows "ws_rules_loop ext (rules @ rest) host dir op m = ws_rules_loop ext (rules @ rest') host dir op m"
  by (induction rules arbitrary: m)
     (auto simp: assms Let_def split: rule_action.split rule_transform.split rule_terminal.split)

lemma lint_pair_shadowed:
  assumes "issue \<in> set (lint_pair i spec j earlier)" "li_code issue = ShadowedRule"
  shows "li_rule_index issue = i \<and> phase earlier = phase spec \<and> is_terminal earlier \<and>
    (rs_matcher earlier = rs_matcher spec \<or> matcher_matches_everything (rs_matcher earlier))"
  using assms by (auto simp: lint_pair_def Let_def split: if_splits)

lemma lint_rule_shadowed:
  assumes "issue \<in> set (lint_rule cx specs i)" "li_code issue = ShadowedRule"
  shows "\<exists>j<i. issue \<in> set (lint_pair i (specs ! i) j (specs ! j))"
proof -
  have "issue \<in> set (concat (map (\<lambda>j. lint_pair i (specs ! i) j (specs ! j)) [0..<i]))"
    using assms by (auto simp: lint_rule_def Let_def split: sum.splits if_splits simp del: set_concat)
  then show ?thesis by auto
qed

lemma lint_rules_shadowed:
  assumes "issue \<in> set (lint_rules cx specs)" "li_code issue = ShadowedRule" "li_rule_index issue = i"
  shows "\<exists>j<i. phase (specs ! j) = phase (specs ! i) \<and> is_terminal (specs ! j) \<and>
    (rs_matcher (specs ! j) = rs_matcher (specs ! i) \<or> matcher_matches_everything (rs_matcher (specs ! j)))"
proof -
  obtain k where "issue \<in> set (lint_rule cx specs k)"
    using assms(1) by (auto simp: lint_rules_def)
  then obtain j where j: "j < k" "issue \<in> set (lint_pair k (specs ! k) j (specs ! j))"
    using lint_rule_shadowed assms(2) by blast
  then show ?thesis
    using lint_pair_shadowed [OF j(2) assms(2)] assms(3) by auto
qed

text \<open>
  C27: a WebSocket rule that lint reports as shadowed never decides anything: with
  it removed, every frame of every host gets the same action.
\<close>

theorem shadowed_rule_is_dead:
  assumes "i < length rules"
    "issue \<in> set (lint_rules cx (map (cr_spec \<circ> snd) rules))" "li_code issue = ShadowedRule" "li_rule_index issue = i"
  shows "apply_ws_rules ext (take i rules @ drop (Suc i) rules) host dir op = apply_ws_rules ext rules host dir op"
proof -
  obtain rid rule where ri: "rules ! i = (rid, rule)" by fastforce
  have split: "rules = take i rules @ (rid, rule) # drop (Suc i) rules"
    using assms(1) ri by (metis id_take_nth_drop)
  let ?loop = "\<lambda>rest. ws_rules_loop ext (take i rules @ rest) host dir op None"
  have whole: "apply_ws_rules ext rules host dir op = ?loop ((rid, rule) # drop (Suc i) rules)"
    unfolding apply_ws_rules_def using split by simp
  show ?thesis
  proof (cases "phase (cr_spec rule) = PhaseWebsocket \<and> ws_rule_matches ext (cr_spec rule) host dir op")
    case False
    then show ?thesis
      unfolding whole unfolding apply_ws_rules_def by (intro rules_loop_append) auto
  next
    case True
    obtain j where j: "j < i" "phase (cr_spec (snd (rules ! j))) = phase (cr_spec rule)"
      "is_terminal (cr_spec (snd (rules ! j)))"
      "rs_matcher (cr_spec (snd (rules ! j))) = rs_matcher (cr_spec rule) \<or>
       matcher_matches_everything (rs_matcher (cr_spec (snd (rules ! j))))"
      using lint_rules_shadowed [OF assms(2-4)] assms(1) ri by auto
    obtain rid' rule' where rj: "rules ! j = (rid', rule')" by fastforce
    have "(rid', rule') \<in> set (take i rules)"
      unfolding in_set_conv_nth using j(1) assms(1) rj by (intro exI [of _ j]) simp
    moreover have "ws_rule_matches ext (cr_spec rule') host dir op"
      using True j(4) rj by (auto simp: ws_rule_matches_def matcher_matches_everything_def split: rule_matcher.splits)
    ultimately have "ws_rules_loop ext (take i rules @ rest) host dir op m = ws_rules_loop ext (take i rules) host dir op m" for rest m
      using j(2,3) rj True by (intro rules_loop_terminal) auto
    then show ?thesis
      unfolding whole unfolding apply_ws_rules_def by metis
  qed
qed

definition drop_all :: compiled_rule where
  "drop_all = \<lparr>cr_spec = \<lparr>rs_match_on = MatchOriginal, rs_matcher = MAll [], rs_action = Terminal DropWebsocket\<rparr>,
     cr_replace_regex = None, cr_local_response = None, cr_json_runtime = json_runtime_default\<rparr>"

definition text_on_c2s :: compiled_rule where
  "text_on_c2s = drop_all\<lparr>cr_spec := \<lparr>rs_match_on = MatchOriginal, rs_matcher = MDirection C2s,
     rs_action = Transform (SetWebsocketText ''x'')\<rparr>\<rparr>"

theorem shadowed_rule_is_dead_witness:
  "\<forall>ext. apply_ws_rules ext [(''a'', drop_all)] ''h'' ClientToServer ''text'' =
   apply_ws_rules ext [(''a'', drop_all), (''b'', text_on_c2s)] ''h'' ClientToServer ''text''"
  using shadowed_rule_is_dead [of 1 "[(''a'', drop_all), (''b'', text_on_c2s)]"
      "\<lparr>li_severity = LintWarning, li_code = ShadowedRule, li_rule_index = 1, li_related_rule_index = Some 0\<rparr>"
      compile_all _ "''h''" ClientToServer "''text''"]
  by (simp add: lint_rules_def lint_rule_def lint_pair_def drop_all_def text_on_c2s_def phase_def is_terminal_def
      matcher_matches_everything_def Let_def split: sum.split)

end
