(* ===== verification/Selector.thy ===== *)
theory Selector
  imports Utf8
begin

text \<open>
  The selector matching of \<^verbatim>\<open>selector.rs\<close>, shared by every verb that names an element: the canonical
  form of a text, the match of a value against a query, and the rule that a verb takes exactly one
  selector. Elements and queries are those of \<^verbatim>\<open>proto.rs\<close>. Unicode lower-casing is the argument
  \<open>lower\<close>.
\<close>

section \<open>Elements and queries\<close>

record range_semantics =
  rg_kind :: string
  rg_min :: rat
  rg_max :: rat
  rg_current :: rat
  rg_step :: json

record element =
  el_id :: nat
  el_handle :: "string option"
  el_text :: "string option"
  el_desc :: "string option"
  el_klass :: "string option"
  el_rid :: "string option"
  el_bounds :: "(int \<times> int \<times> int \<times> int) option"
  el_tap :: "(int \<times> int) option"
  el_range :: "range_semantics option"
  el_actions :: "string list"
  el_clickable :: bool
  el_long_clickable :: bool
  el_scrollable :: bool
  el_checkable :: bool
  el_focusable :: bool
  el_enabled :: bool
  el_selected :: bool
  el_checked :: bool
  el_focused :: bool
  el_password :: bool
  el_input :: bool

record selector_query =
  sq_id :: "nat option"
  sq_text :: "string option"
  sq_rid :: "string option"
  sq_desc :: "string option"
  sq_klass :: "string option"
  sq_xpath :: "string option"
  sq_all :: bool
  sq_exact :: bool
  sq_clickable :: "bool option"
  sq_enabled :: "bool option"
  sq_coordinate_fallback :: bool

definition selector_query_default :: selector_query where
  "selector_query_default =
     \<lparr>sq_id = None, sq_text = None, sq_rid = None, sq_desc = None, sq_klass = None, sq_xpath = None,
      sq_all = False, sq_exact = False, sq_clickable = None, sq_enabled = None,
      sq_coordinate_fallback = False\<rparr>"

section \<open>The canonical form of a text\<close>

definition is_zero_width_or_bidi :: "nat \<Rightarrow> bool" where
  "is_zero_width_or_bidi c \<longleftrightarrow>
     (0x200B \<le> c \<and> c \<le> 0x200F) \<or> (0x202A \<le> c \<and> c \<le> 0x202E) \<or> c = 0x2060 \<or> c = 0xFEFF"

definition fold_punctuation :: "nat \<Rightarrow> nat list" where
  "fold_punctuation c =
     (if c \<in> {0x2018, 0x2019, 0x02BC, 0x2032, 0x201B} then [0x27]
      else if c \<in> {0x201C, 0x201D, 0x2033, 0x201F} then [0x22]
      else if c = 0x2026 then [0x2E, 0x2E, 0x2E]
      else [c])"

fun normalize_loop :: "nat list \<Rightarrow> nat list \<Rightarrow> bool \<Rightarrow> nat list" where
  "normalize_loop [] out pending_space = out"
| "normalize_loop (c # cs) out pending_space =
     (if is_zero_width_or_bidi c then normalize_loop cs out pending_space
      else if char_is_whitespace c then normalize_loop cs out (out \<noteq> [])
      else normalize_loop cs ((if pending_space then out @ [0x20] else out) @ fold_punctuation c) False)"

definition normalize_chars :: "nat list \<Rightarrow> nat list" where
  "normalize_chars cs = normalize_loop cs [] False"

definition normalize :: "string \<Rightarrow> string" where
  "normalize s = chars_str (normalize_chars (str_chars s))"

section \<open>Matching\<close>

definition text_matches :: "(string \<Rightarrow> string) \<Rightarrow> string option \<Rightarrow> string option \<Rightarrow> bool \<Rightarrow> bool" where
  "text_matches lower actual expected exact =
     (case expected of
        None \<Rightarrow> True
      | Some e \<Rightarrow>
          (case actual of
             None \<Rightarrow> False
           | Some a \<Rightarrow>
               let a' = lower (normalize a); e' = lower (normalize e)
               in if exact then a' = e' else str_contains a' e'))"

record selector_args =
  sa_text :: "string option"
  sa_rid :: "string option"
  sa_desc :: "string option"

datatype selector = SelText string | SelRid string | SelDesc string

datatype selector_error = SelectorRequired | SelectorConflict "string list"

definition exactly_one :: "selector_args \<Rightarrow> selector_error + selector" where
  "exactly_one args =
     (case (sa_text args, sa_rid args, sa_desc args) of
        (Some t, None, None) \<Rightarrow> Inr (SelText t)
      | (None, Some r, None) \<Rightarrow> Inr (SelRid r)
      | (None, None, Some d) \<Rightarrow> Inr (SelDesc d)
      | (None, None, None) \<Rightarrow> Inl SelectorRequired
      | _ \<Rightarrow> Inl (SelectorConflict
               ((if sa_text args \<noteq> None then [''text''] else []) @
                (if sa_rid args \<noteq> None then [''rid''] else []) @
                (if sa_desc args \<noteq> None then [''desc''] else []))))"

definition selector_matches :: "(string \<Rightarrow> string) \<Rightarrow> selector \<Rightarrow> element \<Rightarrow> bool \<Rightarrow> bool" where
  "selector_matches lower sel el exact =
     (case sel of
        SelText q \<Rightarrow> text_matches lower (el_text el) (Some q) exact
      | SelRid q \<Rightarrow> text_matches lower (el_rid el) (Some q) exact
      | SelDesc q \<Rightarrow> text_matches lower (el_desc el) (Some q) exact)"

fun selector_label :: "selector \<Rightarrow> json" where
  "selector_label (SelText q) = jobj [(''text'', JStr q)]"
| "selector_label (SelRid q) = jobj [(''rid'', JStr q)]"
| "selector_label (SelDesc q) = jobj [(''desc'', JStr q)]"

fun selector_to_query :: "selector \<Rightarrow> selector_query" where
  "selector_to_query (SelText q) = selector_query_default\<lparr>sq_text := Some q\<rparr>"
| "selector_to_query (SelRid q) = selector_query_default\<lparr>sq_rid := Some q\<rparr>"
| "selector_to_query (SelDesc q) = selector_query_default\<lparr>sq_desc := Some q\<rparr>"

section \<open>The loop as a function of words\<close>

text \<open>The visible words of a text: split at white space, invisible characters dropped, punctuation folded.\<close>

fun visible_words :: "nat list \<Rightarrow> nat list \<Rightarrow> nat list list" where
  "visible_words [] word = (if word = [] then [] else [word])"
| "visible_words (c # cs) word =
     (if is_zero_width_or_bidi c then visible_words cs word
      else if char_is_whitespace c then
        (if word = [] then visible_words cs [] else word # visible_words cs [])
      else visible_words cs (word @ fold_punctuation c))"

fun join_spaces :: "nat list list \<Rightarrow> nat list" where
  "join_spaces [] = []"
| "join_spaces [w] = w"
| "join_spaces (w # ws) = w @ 0x20 # join_spaces ws"

lemma join_spaces_Cons: "ws \<noteq> [] \<Longrightarrow> join_spaces (w # ws) = w @ 0x20 # join_spaces ws"
  by (cases ws) simp_all

lemma fold_not_Nil [simp]: "fold_punctuation c \<noteq> []"
  by (simp add: fold_punctuation_def)

text \<open>The words of a canonical text: no white space, nothing invisible, nothing left to fold.\<close>

definition plain_char :: "nat \<Rightarrow> bool" where
  "plain_char c \<longleftrightarrow> \<not> is_zero_width_or_bidi c \<and> \<not> char_is_whitespace c \<and> fold_punctuation c = [c]"

lemma plain_ascii: "plain_char 0x27" "plain_char 0x22" "plain_char 0x2E"
  by (simp_all add: plain_char_def is_zero_width_or_bidi_def char_is_whitespace_def fold_punctuation_def)

lemma fold_plain:
  assumes "\<not> is_zero_width_or_bidi c" "\<not> char_is_whitespace c"
  shows "list_all plain_char (fold_punctuation c)"
proof -
  let ?single = "c \<in> {0x2018, 0x2019, 0x02BC, 0x2032, 0x201B}"
  let ?double = "c \<in> {0x201C, 0x201D, 0x2033, 0x201F}"
  consider ?single | "\<not> ?single" ?double | "\<not> ?single" "\<not> ?double" "c = 0x2026"
    | "\<not> ?single" "\<not> ?double" "c \<noteq> 0x2026"
    by blast
  then show ?thesis
  proof cases
    case 1
    then have "fold_punctuation c = [0x27]" unfolding fold_punctuation_def by (rule if_P)
    then show ?thesis by (simp add: plain_ascii)
  next
    case 2
    then have "fold_punctuation c = [0x22]" unfolding fold_punctuation_def by (simp only: if_False if_True)
    then show ?thesis by (simp add: plain_ascii)
  next
    case 3
    then have "fold_punctuation c = [0x2E, 0x2E, 0x2E]" unfolding fold_punctuation_def by simp
    then show ?thesis by (simp add: plain_ascii)
  next
    case 4
    then have "fold_punctuation c = [c]" unfolding fold_punctuation_def by (simp only: if_False)
    then show ?thesis using assms by (simp add: plain_char_def)
  qed
qed

definition plain_word :: "nat list \<Rightarrow> bool" where
  "plain_word w \<longleftrightarrow> w \<noteq> [] \<and> list_all plain_char w"

lemma visible_words_plain: "list_all plain_char word \<Longrightarrow> list_all plain_word (visible_words cs word)"
proof (induction cs word rule: visible_words.induct)
  case (1 word)
  then show ?case by (simp add: plain_word_def)
next
  case (2 c cs word)
  consider (invisible) "is_zero_width_or_bidi c"
    | (space) "\<not> is_zero_width_or_bidi c" "char_is_whitespace c" "word = []"
    | (word_end) "\<not> is_zero_width_or_bidi c" "char_is_whitespace c" "word \<noteq> []"
    | (plain) "\<not> is_zero_width_or_bidi c" "\<not> char_is_whitespace c"
    by blast
  then show ?case
  proof cases
    case invisible
    then show ?thesis using "2.IH"(1) "2.prems" by simp
  next
    case space
    then show ?thesis using "2.IH"(2) by simp
  next
    case word_end
    then show ?thesis using "2.IH"(3) "2.prems" by (simp add: plain_word_def)
  next
    case plain
    then show ?thesis using "2.IH"(4) "2.prems" fold_plain by simp
  qed
qed

lemma visible_words_word:
  "list_all plain_char w \<Longrightarrow> visible_words (w @ cs) word = visible_words cs (word @ w)"
proof (induction w arbitrary: word)
  case (Cons c w)
  then show ?case by (simp add: plain_char_def)
qed simp

lemma visible_words_join:
  assumes "list_all plain_word ws"
  shows "visible_words (join_spaces ws) [] = ws"
  using assms
proof (induction ws rule: join_spaces.induct)
  case (2 w)
  then show ?case
    using visible_words_word [of w "[]" "[]"] by (simp add: plain_word_def)
next
  case (3 w w' ws)
  then show ?case
    by (simp add: plain_word_def visible_words_word is_zero_width_or_bidi_def char_is_whitespace_def)
qed simp

lemma normalize_loop_words:
  "normalize_loop cs (join_spaces ws @ (if ws \<noteq> [] \<and> word \<noteq> [] then 0x20 # word else word))
     (ws \<noteq> [] \<and> word = []) =
   join_spaces (ws @ visible_words cs word)"
  if "\<forall>w\<in>set ws. w \<noteq> []"
  using that
proof (induction cs word arbitrary: ws rule: visible_words.induct)
  case (1 word)
  then show ?case
    by (induction ws rule: join_spaces.induct) auto
next
  case (2 c cs word)
  have snoc: "join_spaces (ws @ [word]) = join_spaces ws @ (if ws \<noteq> [] then 0x20 # word else word)"
    by (induction ws rule: join_spaces.induct) (simp_all add: join_spaces_Cons)
  have nonempty: "join_spaces ws = [] \<longleftrightarrow> ws = []"
    using "2.prems" by (cases ws rule: join_spaces.cases) auto
  consider (invisible) "is_zero_width_or_bidi c"
    | (space) "\<not> is_zero_width_or_bidi c" "char_is_whitespace c" "word = []"
    | (word_end) "\<not> is_zero_width_or_bidi c" "char_is_whitespace c" "word \<noteq> []"
    | (plain) "\<not> is_zero_width_or_bidi c" "\<not> char_is_whitespace c"
    by blast
  then show ?case
  proof cases
    case invisible
    then show ?thesis using "2.IH"(1) [OF _ "2.prems"] by simp
  next
    case space
    then show ?thesis using "2.IH"(2) [OF _ _ _ "2.prems"] nonempty by simp
  next
    case word_end
    then show ?thesis using "2.IH"(3) [of "ws @ [word]"] "2.prems" snoc nonempty by auto
  next
    case plain
    then show ?thesis using "2.IH"(4) [OF _ _ "2.prems"] by (cases "ws = []"; cases "word = []") auto
  qed
qed

lemma normalize_chars_words: "normalize_chars cs = join_spaces (visible_words cs [])"
  using normalize_loop_words [of "[]" cs "[]"] by (simp add: normalize_chars_def)

section \<open>Properties\<close>

lemma visible_words_filter:
  "visible_words (filter (\<lambda>c. \<not> is_zero_width_or_bidi c) cs) word = visible_words cs word"
  by (induction cs word rule: visible_words.induct) simp_all

lemma normalize_chars_idem: "normalize_chars (normalize_chars cs) = normalize_chars cs"
  using visible_words_join [of "visible_words cs []"] visible_words_plain [of "[]" cs]
  by (simp add: normalize_chars_words)

lemma scalar_fold: "is_scalar c \<Longrightarrow> list_all is_scalar (fold_punctuation c)"
  by (simp add: fold_punctuation_def is_scalar_def)

lemma visible_words_scalar:
  "list_all is_scalar cs \<Longrightarrow> list_all is_scalar word \<Longrightarrow> \<forall>w \<in> set (visible_words cs word). list_all is_scalar w"
  by (induction cs word rule: visible_words.induct) (auto simp: scalar_fold)

lemma join_spaces_scalar: "\<forall>w \<in> set ws. list_all is_scalar w \<Longrightarrow> list_all is_scalar (join_spaces ws)"
  by (induction ws rule: join_spaces.induct) (auto simp: is_scalar_def)

lemma normalize_chars_scalar: "list_all is_scalar cs \<Longrightarrow> list_all is_scalar (normalize_chars cs)"
  using visible_words_scalar [of cs "[]"] by (simp add: normalize_chars_words join_spaces_scalar)

text \<open>
  The canonical form of a text is its visible words joined by single spaces, with
  typographic quotes and ellipses folded; it is stable (normalising it again changes nothing), and
  zero-width and bidirectional control characters anywhere in the text make no difference.
\<close>

theorem normalize_canonical:
  "normalize_chars cs = join_spaces (visible_words cs []) \<and>
   normalize (normalize s) = normalize s \<and>
   normalize_chars (filter (\<lambda>c. \<not> is_zero_width_or_bidi c) cs) = normalize_chars cs"
proof (intro conjI)
  show "normalize (normalize s) = normalize s"
    by (simp add: normalize_def str_chars_chars_str normalize_chars_scalar str_chars_scalar normalize_chars_idem)
qed (simp_all add: normalize_chars_words visible_words_filter)

end
