(* ===== verification/ScreenDiff.thy ===== *)
theory ScreenDiff
  imports Prelude "HOL-Library.Product_Lexorder"
begin

text \<open>
  The screen cache and screen diff of \<^verbatim>\<open>screen_cache.rs\<close>: remembered screens by content hash, of which
  the newest 64 are kept, and the change between two lists of elements in their output shape. The
  cache directory is the list of its files (name, modification time, elements).
\<close>

section \<open>The cache\<close>

definition KEEP :: nat where
  "KEEP = 64"

definition is_hex_digit :: "char \<Rightarrow> bool" where
  "is_hex_digit c \<longleftrightarrow> c \<in> set ''0123456789abcdefABCDEF''"

definition file_for :: "string \<Rightarrow> string option" where
  "file_for hash =
     (if hash \<noteq> [] \<and> length hash \<le> 128 \<and> list_all is_hex_digit hash then Some (hash @ ''.json'') else None)"

record 'e cached =
  ca_path :: string
  ca_time :: nat
  ca_elements :: 'e

text \<open>The files sorted by modification time and path; all but the last \<open>KEEP\<close> go.\<close>

definition prune :: "'e cached list \<Rightarrow> 'e cached list" where
  "prune files =
     (if length files \<le> KEEP then files
      else drop (length files - KEEP) (sort_key (\<lambda>f. (ca_time f, ca_path f)) files))"

definition remember_in :: "nat \<Rightarrow> string \<Rightarrow> 'e \<Rightarrow> 'e cached list \<Rightarrow> 'e cached list" where
  "remember_in now hash elements files =
     (case file_for hash of
        None \<Rightarrow> files
      | Some path \<Rightarrow>
          if list_ex (\<lambda>f. ca_path f = path) files
          then map (\<lambda>f. if ca_path f = path then f\<lparr>ca_time := now\<rparr> else f) files
          else prune (\<lparr>ca_path = path, ca_time = now, ca_elements = elements\<rparr> # files))"

definition load_in :: "string \<Rightarrow> 'e cached list \<Rightarrow> 'e option" where
  "load_in hash files =
     (case file_for hash of
        None \<Rightarrow> None
      | Some path \<Rightarrow> map_option ca_elements (find (\<lambda>f. ca_path f = path) files))"

section \<open>The diff\<close>

definition VOLATILE_FIELDS :: "string list" where
  "VOLATILE_FIELDS = [''id'', ''handle'']"

text \<open>\<open>element[name]\<close>: the member, or null.\<close>

definition member :: "json \<Rightarrow> string \<Rightarrow> json" where
  "member v name = (case v of JObj kvs \<Rightarrow> (case map_of kvs name of None \<Rightarrow> JNull | Some x \<Rightarrow> x) | _ \<Rightarrow> JNull)"

definition str_field :: "json \<Rightarrow> string \<Rightarrow> string option" where
  "str_field v name = (case member v name of JStr s \<Rightarrow> if s \<noteq> [] then Some s else None | _ \<Rightarrow> None)"

definition base_key :: "json \<Rightarrow> string" where
  "base_key v =
     (let class = (case str_field v ''klass'' of None \<Rightarrow> [] | Some s \<Rightarrow> s) in
      case str_field v ''rid'' of
        Some rid \<Rightarrow> ''rid:'' @ rid
      | None \<Rightarrow>
          (case str_field v ''desc'' of
             Some desc \<Rightarrow> ''desc:'' @ class @ '':'' @ desc
           | None \<Rightarrow>
               (case str_field v ''text'' of
                  Some txt \<Rightarrow> ''text:'' @ class @ '':'' @ txt
                | None \<Rightarrow> ''class:'' @ class)))"

definition occurrence_key :: "string \<Rightarrow> nat \<Rightarrow> string" where
  "occurrence_key base n = (if n = 1 then base else base @ ''#'' @ dec_digits n)"

fun element_keys_loop :: "string list \<Rightarrow> json list \<Rightarrow> string list" where
  "element_keys_loop seen [] = []"
| "element_keys_loop seen (v # vs) =
     (let base = base_key v
      in occurrence_key base (count_list seen base + 1) # element_keys_loop (base # seen) vs)"

definition element_keys :: "json list \<Rightarrow> string list" where
  "element_keys vs = element_keys_loop [] vs"

definition comparable :: "json \<Rightarrow> (string \<times> json) list" where
  "comparable v =
     (case v of JObj kvs \<Rightarrow> filter (\<lambda>kv. fst kv \<notin> set VOLATILE_FIELDS) kvs | _ \<Rightarrow> [])"

definition differing_fields :: "(string \<times> json) list \<Rightarrow> (string \<times> json) list \<Rightarrow> string list" where
  "differing_fields was now =
     map fst (foldl (\<lambda>m k. obj_put k () m) []
       (filter (\<lambda>k. map_of was k \<noteq> map_of now k) (map fst was @ map fst now)))"

definition changed_entry :: "string \<Rightarrow> json \<Rightarrow> json \<Rightarrow> json" where
  "changed_entry key previous v =
     (let was = comparable previous; now = comparable v; changes = differing_fields was now
      in jobj [(''key'', JStr key),
               (''fields'', JArr (map JStr changes)),
               (''before'', jobj (map (\<lambda>k. (k, case map_of was k of None \<Rightarrow> JNull | Some x \<Rightarrow> x)) changes)),
               (''element'', v)])"

definition removed_entry :: "string \<Rightarrow> json \<Rightarrow> json" where
  "removed_entry key v =
     jobj ((''key'', JStr key) #
       concat (map (\<lambda>name. if member v name = JNull then [] else [(name, member v name)])
         [''text'', ''desc'', ''rid'', ''klass'']))"

text \<open>A later element with the same key hides an earlier one: a hash map collected from the pairs.\<close>

definition keyed :: "json list \<Rightarrow> string \<Rightarrow> json option" where
  "keyed vs = map_of (rev (zip (element_keys vs) vs))"

definition diff_added :: "json list \<Rightarrow> json list \<Rightarrow> json list" where
  "diff_added before now =
     map snd (filter (\<lambda>(key, v). keyed before key = None) (zip (element_keys now) now))"

definition diff_changed :: "json list \<Rightarrow> json list \<Rightarrow> (string \<times> json \<times> json) list" where
  "diff_changed before now =
     concat (map (\<lambda>(key, v).
         case keyed before key of
           None \<Rightarrow> []
         | Some previous \<Rightarrow> if comparable previous \<noteq> comparable v then [(key, previous, v)] else [])
       (zip (element_keys now) now))"

definition diff_removed :: "json list \<Rightarrow> json list \<Rightarrow> (string \<times> json) list" where
  "diff_removed before now =
     filter (\<lambda>(key, v). key \<notin> set (element_keys now)) (zip (element_keys before) before)"

definition screen_diff :: "json list \<Rightarrow> json list \<Rightarrow> json" where
  "screen_diff before now =
     (let added = diff_added before now; changed = diff_changed before now; removed = diff_removed before now
      in jobj [(''counts'', jobj [(''added'', jnat (length added)), (''removed'', jnat (length removed)),
                                  (''changed'', jnat (length changed))]),
               (''added'', JArr added),
               (''removed'', JArr (map (\<lambda>(key, v). removed_entry key v) removed)),
               (''changed'', JArr (map (\<lambda>(key, previous, v). changed_entry key previous v) changed))])"

section \<open>The cache keeps what it should\<close>

lemma length_prune: "length (prune files) \<le> KEEP \<or> length (prune files) = length files"
  by (simp add: prune_def)

lemma prune_bound: "length (prune files) \<le> KEEP"
  by (simp add: prune_def)

lemma prune_distinct:
  assumes "distinct (map ca_path files)"
  shows "distinct (map ca_path (prune files))"
proof -
  have "distinct (map ca_path (sort_key (\<lambda>f. (ca_time f, ca_path f)) files))"
    using assms by (simp add: distinct_map)
  then show ?thesis
    using assms by (simp add: prune_def drop_map [symmetric] distinct_drop)
qed

text \<open>The newest file sorts last and is kept.\<close>

lemma sort_key_last:
  assumes "x \<in> set xs" "\<forall>y \<in> set xs. y \<noteq> x \<longrightarrow> k y < (k x :: 'k :: linorder)" "xs \<noteq> []"
  shows "last (sort_key k xs) = x"
proof (rule ccontr)
  let ?s = "sort_key k xs"
  assume "last ?s \<noteq> x"
  have ne: "?s \<noteq> []"
    using assms(3) by (metis set_empty set_sort)
  then have "last ?s \<in> set xs"
    by (metis last_in_set set_sort)
  then have less: "k (last ?s) < k x"
    using assms(2) \<open>last ?s \<noteq> x\<close> by blast
  have "x \<in> set ?s" using assms(1) by simp
  then obtain i where i: "i < length ?s" "?s ! i = x"
    unfolding in_set_conv_nth by blast
  have "sorted (map k ?s)" by (rule sorted_sort_key)
  then have "k (?s ! i) \<le> k (?s ! (length ?s - 1))"
    using i sorted_nth_mono [of "map k ?s" i "length ?s - 1"] by (simp del: length_sort)
  then show False
    using less i ne by (simp add: last_conv_nth)
qed

lemma prune_keeps_newest:
  assumes "x \<in> set files" "\<forall>y \<in> set files. y \<noteq> x \<longrightarrow> ca_time y < ca_time x"
  shows "x \<in> set (prune files)"
proof (cases "length files \<le> KEEP")
  case True
  then show ?thesis using assms(1) by (simp add: prune_def)
next
  case False
  let ?s = "sort_key (\<lambda>f. (ca_time f, ca_path f)) files"
  have "last ?s = x"
    using assms False by (intro sort_key_last) (auto simp: less_prod_def)
  moreover have "drop (length files - KEEP) ?s \<noteq> []"
    using False by (simp add: KEEP_def)
  ultimately show ?thesis
    using last_in_set [of "drop (length files - KEEP) ?s"] last_drop [of "length files - KEEP" ?s] False
    by (simp add: prune_def KEEP_def)
qed

lemma find_unique:
  assumes "distinct (map f xs)" "x \<in> set xs"
  shows "find (\<lambda>y. f y = f x) xs = Some x"
  using assms by (induction xs) auto

text \<open>
  A screen that is remembered can be loaded back at once (unchanged when its hash was
  already known), the cache never grows beyond 64 files, and no two files have the same name. The
  clock is assumed to have moved on since the last screen.
\<close>

theorem cache_remembers:
  assumes "distinct (map ca_path files)" "length files \<le> KEEP" "\<forall>f \<in> set files. ca_time f < now"
    "file_for hash = Some path"
  shows "let files' = remember_in now hash elements files in
    load_in hash files' = Some (case load_in hash files of None \<Rightarrow> elements | Some old \<Rightarrow> old) \<and>
    length files' \<le> KEEP \<and> distinct (map ca_path files')"
proof (cases "list_ex (\<lambda>f. ca_path f = path) files")
  case True
  let ?touch = "\<lambda>f. if ca_path f = path then f\<lparr>ca_time := now\<rparr> else f"
  have touched: "find (\<lambda>f. ca_path f = path) (map ?touch files) =
      map_option ?touch (find (\<lambda>f. ca_path f = path) files)"
    by (induction files) auto
  obtain old where old: "find (\<lambda>f. ca_path f = path) files = Some old"
    using True by (cases "find (\<lambda>f. ca_path f = path) files") (auto simp: find_None_iff list_ex_iff)
  have paths: "map (ca_path \<circ> ?touch) files = map ca_path files"
    by simp
  show ?thesis
    using True assms by (simp add: remember_in_def load_in_def Let_def touched old paths)
next
  case False
  let ?x = "\<lparr>ca_path = path, ca_time = now, ca_elements = elements\<rparr>"
  have dist: "distinct (map ca_path (?x # files))"
    using False assms(1) by (auto simp: list_ex_iff)
  have "?x \<in> set (prune (?x # files))"
    using assms(3) by (intro prune_keeps_newest) auto
  then have "find (\<lambda>f. ca_path f = path) (prune (?x # files)) = Some ?x"
    using find_unique [OF prune_distinct [OF dist]] by fastforce
  moreover have "find (\<lambda>f. ca_path f = path) files = None"
    using False by (auto simp: find_None_iff list_ex_iff)
  ultimately show ?thesis
    using False assms(4) prune_bound prune_distinct [OF dist] by (simp add: remember_in_def load_in_def)
qed

theorem cache_remembers_witness:
  "let files = remember_in 7 ''ab12'' (5 :: nat) [] in
     load_in ''ab12'' files = Some 5 \<and> length files \<le> KEEP \<and> distinct (map ca_path files)"
  using cache_remembers [of "[] :: nat cached list" 7 "''ab12''" "''ab12.json''" 5]
  by (simp add: file_for_def is_hex_digit_def load_in_def)

section \<open>What the diff says\<close>

lemma length_element_keys_loop [simp]: "length (element_keys_loop seen vs) = length vs"
  by (induction vs arbitrary: seen) (simp_all add: Let_def)

lemma length_element_keys [simp]: "length (element_keys vs) = length vs"
  by (simp add: element_keys_def)

lemma keyed_Some: "keyed vs key = Some v \<Longrightarrow> (key, v) \<in> set (zip (element_keys vs) vs)"
  by (metis keyed_def map_of_SomeD set_rev)

lemma zip_keys: "fst ` set (zip (element_keys vs) vs) = set (element_keys vs)"
  by (metis length_element_keys list.set_map map_fst_zip)

lemma keyed_None: "keyed vs key = None \<longleftrightarrow> key \<notin> set (element_keys vs)"
  by (simp add: keyed_def map_of_eq_None_iff zip_keys)

lemma keyed_distinct:
  assumes "distinct (element_keys vs)"
  shows "keyed vs key = Some v \<longleftrightarrow> (key, v) \<in> set (zip (element_keys vs) vs)"
  using assms by (simp add: keyed_def rev_map [symmetric])

text \<open>
  When no two elements of a screen share a key, the diff reports nothing exactly
  when both screens have the same keys and under each key the same element up to the volatile fields;
  in particular two reads of an unchanged screen give an empty diff.
\<close>

theorem diff_empty_iff_same:
  assumes "distinct (element_keys now)"
  shows "diff_added before now = [] \<and> diff_changed before now = [] \<and> diff_removed before now = [] \<longleftrightarrow>
    (\<forall>key. map_option comparable (keyed before key) = map_option comparable (keyed now key))"
proof -
  let ?ks = "element_keys now"
  have added: "diff_added before now = [] \<longleftrightarrow> (\<forall>key \<in> set ?ks. keyed before key \<noteq> None)"
  proof -
    have "diff_added before now = [] \<longleftrightarrow> (\<forall>kv \<in> set (zip ?ks now). keyed before (fst kv) \<noteq> None)"
      by (auto simp: diff_added_def filter_empty_conv)
    then show ?thesis
      unfolding zip_keys [symmetric] by blast
  qed
  have removed: "diff_removed before now = [] \<longleftrightarrow> (\<forall>key \<in> set (element_keys before). key \<in> set ?ks)"
  proof -
    have "diff_removed before now = [] \<longleftrightarrow> (\<forall>kv \<in> set (zip (element_keys before) before). fst kv \<in> set ?ks)"
      by (auto simp: diff_removed_def filter_empty_conv)
    then show ?thesis
      unfolding zip_keys [of before, symmetric] by blast
  qed
  have changed: "diff_changed before now = [] \<longleftrightarrow>
      (\<forall>key previous v. keyed before key = Some previous \<longrightarrow> keyed now key = Some v \<longrightarrow> comparable previous = comparable v)"
  proof -
    have "diff_changed before now = [] \<longleftrightarrow> (\<forall>(key, v) \<in> set (zip ?ks now).
        \<forall>previous. keyed before key = Some previous \<longrightarrow> comparable previous = comparable v)"
      unfolding diff_changed_def concat_eq_Nil_conv set_map ball_simps
      by (rule ball_cong [OF refl]) (auto split: option.split if_split_asm)
    then show ?thesis
      unfolding keyed_distinct [OF assms] by blast
  qed
  show ?thesis
    unfolding added removed changed
  proof (intro iffI allI conjI ballI impI)
    fix key
    assume *: "(\<forall>key\<in>set ?ks. keyed before key \<noteq> None) \<and>
      (\<forall>key previous v. keyed before key = Some previous \<longrightarrow> keyed now key = Some v \<longrightarrow> comparable previous = comparable v) \<and>
      (\<forall>key\<in>set (element_keys before). key \<in> set ?ks)"
    show "map_option comparable (keyed before key) = map_option comparable (keyed now key)"
      using * keyed_None [of before key] keyed_None [of now key]
      by (cases "keyed before key"; cases "keyed now key") auto
  next
    assume *: "\<forall>key. map_option comparable (keyed before key) = map_option comparable (keyed now key)"
    fix key
    show "keyed before key \<noteq> None" if "key \<in> set ?ks"
      using that *[rule_format, of key] keyed_None [of now key] by (cases "keyed before key") auto
    show "key \<in> set ?ks" if "key \<in> set (element_keys before)"
      using that *[rule_format, of key] keyed_None [of now key] keyed_None [of before key]
      by (cases "keyed now key") auto
    show "comparable previous = comparable v" if "keyed before key = Some previous" "keyed now key = Some v" for previous v
      using that *[rule_format, of key] by simp
  qed
qed

lemma dec_two: "dec_digits (Suc (Suc 0)) = ''2''"
  by code_simp

definition text_element :: "string \<Rightarrow> json" where
  "text_element txt = JObj [(''text'', JStr txt)]"

theorem diff_empty_iff_same_witness:
  "diff_added [text_element ''a''] [text_element ''a''] = [] \<and> diff_changed [text_element ''a''] [text_element ''a''] = [] \<and>
   diff_removed [text_element ''a''] [text_element ''a''] = []"
  using diff_empty_iff_same [of "[text_element ''a'']" "[text_element ''a'']"]
  by (simp add: element_keys_def Let_def)

text \<open>
  Keys are not always distinct: two rows with the same text and a third whose
  text is that text with \<open>#2\<close> after it share a key, and the diff of such a screen with itself reports a
  changed element.
\<close>

theorem equal_screens_can_differ:
  "let rows = [text_element ''Row'', text_element ''Row'', text_element ''Row#2'']
   in diff_changed rows rows = [(''text::Row#2'', text_element ''Row#2'', text_element ''Row'')]"
  by (simp add: diff_changed_def keyed_def element_keys_def Let_def base_key_def str_field_def member_def
      text_element_def occurrence_key_def comparable_def VOLATILE_FIELDS_def dec_two)

end
