(* ===== verification/NetFlow.thy ===== *)
theory NetFlow
  imports WsRecord WsRender NetRule
begin

text \<open>
  A captured flow (\<^verbatim>\<open>net/flow.rs\<close>): the record kept of one HTTP exchange, its matcher, its content
  type, the text stored of a body, its identifier, its detail view and its redaction
  (\<open>Policy::redact_flow_record\<close>). A time in seconds is a rational number; the Unicode lower-case
  table is \<open>rx_lowercase\<close> of \<open>rule_ext\<close>.
\<close>

section \<open>The record\<close>

record flow_record =
  fr_id :: string
  fr_flow_sequence :: nat
  fr_capture_session_id :: string
  fr_ts :: rat
  fr_method :: string
  fr_scheme :: string
  fr_host :: string
  fr_port :: "nat option"
  fr_path :: string
  fr_host_redacted :: bool
  fr_path_redacted :: bool
  fr_status :: "nat option"
  fr_dur_ms :: "nat option"
  fr_req_headers :: "(string \<times> string) list"
  fr_resp_headers :: "(string \<times> string) list"
  fr_req_type :: "string option"
  fr_resp_type :: "string option"
  fr_req_len :: nat
  fr_resp_len :: nat
  fr_req_body :: "string option"
  fr_resp_body :: "string option"
  fr_req_body_redacted :: bool
  fr_resp_body_redacted :: bool
  fr_redaction_policy :: "string option"
  fr_redaction_policy_version :: "nat option"
  fr_req_truncated :: bool
  fr_resp_truncated :: bool
  fr_matched :: "string option"
  fr_rule_id :: "string option"
  fr_rule_ids :: "string list"
  fr_modified :: bool
  fr_request_body_modified :: bool
  fr_original_url :: "string option"
  fr_http_version :: "string option"
  fr_upstream_http_version :: "string option"
  fr_upstream_content_encoding :: "string option"
  fr_upstream_resp_len :: "nat option"
  fr_fault_ids :: "string list"
  fr_upstream_bypassed :: bool
  fr_error :: "string option"
  fr_error_redacted :: bool
  fr_streamed :: bool
  fr_resp_len_unknown :: bool
  fr_req_streamed :: bool
  fr_req_len_unknown :: bool

definition flow_default :: flow_record where
  "flow_default =
     \<lparr>fr_id = [], fr_flow_sequence = 0, fr_capture_session_id = [], fr_ts = 0, fr_method = [],
      fr_scheme = [], fr_host = [], fr_port = None, fr_path = [], fr_host_redacted = False,
      fr_path_redacted = False, fr_status = None, fr_dur_ms = None, fr_req_headers = [],
      fr_resp_headers = [], fr_req_type = None, fr_resp_type = None, fr_req_len = 0, fr_resp_len = 0,
      fr_req_body = None, fr_resp_body = None, fr_req_body_redacted = False,
      fr_resp_body_redacted = False, fr_redaction_policy = None, fr_redaction_policy_version = None,
      fr_req_truncated = False, fr_resp_truncated = False, fr_matched = None, fr_rule_id = None,
      fr_rule_ids = [], fr_modified = False, fr_request_body_modified = False,
      fr_original_url = None, fr_http_version = None, fr_upstream_http_version = None,
      fr_upstream_content_encoding = None, fr_upstream_resp_len = None, fr_fault_ids = [],
      fr_upstream_bypassed = False, fr_error = None, fr_error_redacted = False, fr_streamed = False,
      fr_resp_len_unknown = False, fr_req_streamed = False, fr_req_len_unknown = False\<rparr>"

definition BODY_CAP :: nat where
  "BODY_CAP = 1024 * 1024"

definition flow_ok :: "flow_record \<Rightarrow> bool" where
  "flow_ok f \<longleftrightarrow>
     fr_error f = None \<and> (case fr_status f of Some s \<Rightarrow> 200 \<le> s \<and> s < 400 | None \<Rightarrow> False)"

definition flow_matches :: "rule_ext \<Rightarrow> flow_record \<Rightarrow> net_matcher \<Rightarrow> bool" where
  "flow_matches ext f m \<longleftrightarrow>
     (let sub = (\<lambda>hay needle. case needle of None \<Rightarrow> True | Some n \<Rightarrow> contains_ci ext hay n)
      in sub (fr_host f) (nm_host m) \<and> sub (fr_path f) (nm_path m) \<and>
         sub (fr_method f) (nm_method m) \<and>
         (case nm_status m of None \<Rightarrow> True | Some s \<Rightarrow> fr_status f = Some s))"

section \<open>Headers and content type\<close>

definition header_get :: "(string \<times> string) list \<Rightarrow> string \<Rightarrow> string option" where
  "header_get headers name =
     map_option snd (find (\<lambda>(k, v). eq_ignore_ascii_case k name) headers)"

definition content_type :: "rule_ext \<Rightarrow> (string \<times> string) list \<Rightarrow> string option" where
  "content_type ext headers =
     (case header_get headers ''content-type'' of
        None \<Rightarrow> None
      | Some v \<Rightarrow>
          let s = rx_lowercase ext (str_trim (takeWhile (\<lambda>c. c \<noteq> CHR '';'') v))
          in if s = [] then None else Some s)"

fun is_textual :: "string option \<Rightarrow> bool" where
  "is_textual None \<longleftrightarrow> True"
| "is_textual (Some ct) \<longleftrightarrow>
     starts_with ct ''text/'' \<or> str_contains ct ''json'' \<or> str_contains ct ''xml'' \<or>
     str_contains ct ''javascript'' \<or> ct = ''application/x-www-form-urlencoded'' \<or>
     str_contains ct ''graphql''"

section \<open>The stored text of a body\<close>

text \<open>
  \<open>str::from_utf8\<close> with its error: the valid prefix (\<open>valid_up_to\<close>) and, for an error, whether the
  input merely ended inside a character (\<open>error_len\<close> is None).
\<close>

fun utf8_cut :: "byte list \<Rightarrow> bool" where
  "utf8_cut [b] \<longleftrightarrow> 0xC2 \<le> unat b \<and> unat b \<le> 0xF4"
| "utf8_cut [b, c] \<longleftrightarrow>
     (0xE0 \<le> unat b \<and> unat b \<le> 0xEF \<and> second_of_3 (unat b) c) \<or>
     (0xF0 \<le> unat b \<and> unat b \<le> 0xF4 \<and> second_of_4 (unat b) c)"
| "utf8_cut [b, c, d] \<longleftrightarrow> 0xF0 \<le> unat b \<and> unat b \<le> 0xF4 \<and> second_of_4 (unat b) c \<and> is_cont d"
| "utf8_cut _ \<longleftrightarrow> False"

function utf8_scan :: "byte list \<Rightarrow> byte list \<times> bool option" where
  "utf8_scan [] = ([], None)"
| "utf8_scan (b # bs) =
     (case utf8_next (b # bs) of
        (None, rest) \<Rightarrow> ([], Some (utf8_cut (b # bs)))
      | (Some c, rest) \<Rightarrow>
          let (ok, err) = utf8_scan rest
          in (take (length (b # bs) - length rest) (b # bs) @ ok, err))"
  by pat_completeness auto
termination
proof (relation "measure length", goal_cases)
  case 1
  show ?case by simp
next
  case (2 b bs r c rest)
  then show ?case
    using utf8_next_shrinks [of b bs] by (metis in_measure le_imp_less_Suc length_Cons snd_conv)
qed

definition body_to_text :: "string option \<Rightarrow> byte list \<Rightarrow> nat \<Rightarrow> string option \<times> bool" where
  "body_to_text ct bytes cap =
     (if bytes = [] \<or> \<not> is_textual ct then (None, False)
      else if ct = None \<and> list_ex (\<lambda>b. b = 0) (take 512 bytes) then (None, False)
      else
        let truncated = cap < length bytes;
            piece = take (min (length bytes) cap) bytes
        in case utf8_scan piece of
             (ok, None) \<Rightarrow> (Some (bytes_str piece), truncated)
           | (ok, Some incomplete) \<Rightarrow>
               if truncated \<and> incomplete then (Some (from_utf8_lossy ok), truncated)
               else (Some (from_utf8_lossy piece), truncated))"

section \<open>Identifiers\<close>

definition flow_id :: "nat \<Rightarrow> string" where
  "flow_id n = ''f'' @ hex_lower n"

definition hex_value :: "char \<Rightarrow> nat option" where
  "hex_value c =
     (let n = (of_char c :: nat) in
      if 48 \<le> n \<and> n \<le> 57 then Some (n - 48)
      else if 97 \<le> n \<and> n \<le> 102 then Some (n - 87)
      else if 65 \<le> n \<and> n \<le> 70 then Some (n - 55)
      else None)"

text \<open>\<open>u64::from_str_radix(_, 16)\<close>: an optional plus sign, then hexadecimal digits, no overflow.\<close>

fun hex_fold :: "nat \<Rightarrow> string \<Rightarrow> nat option" where
  "hex_fold acc [] = Some acc"
| "hex_fold acc (c # cs) =
     (case hex_value c of
        None \<Rightarrow> None
      | Some d \<Rightarrow> if acc * 16 + d < 2 ^ 64 then hex_fold (acc * 16 + d) cs else None)"

definition parse_hex64 :: "string \<Rightarrow> nat option" where
  "parse_hex64 s =
     (let ds = (case s of c # cs \<Rightarrow> if c = CHR ''+'' then cs else s | [] \<Rightarrow> s)
      in if ds = [] then None else hex_fold 0 ds)"

definition sequence_from_id :: "string \<Rightarrow> nat option" where
  "sequence_from_id s = (case s of c # cs \<Rightarrow> if c = CHR ''f'' then parse_hex64 cs else None | [] \<Rightarrow> None)"

section \<open>Detail view\<close>

definition flow_detail :: "flow_record \<Rightarrow> bool \<Rightarrow> json" where
  "flow_detail f body =
     jobj ([(''type'', JStr ''flow''),
            (''id'', JStr (fr_id f)),
            (''flow_sequence'', jnat (fr_flow_sequence f)),
            (''capture_session_id'', JStr (fr_capture_session_id f)),
            (''ts'', JFloat (fr_ts f)),
            (''method'', JStr (fr_method f)),
            (''scheme'', JStr (fr_scheme f)),
            (''host'', JStr (fr_host f)),
            (''port'', jopt jnat (fr_port f)),
            (''path'', JStr (fr_path f)),
            (''url'', JStr (flow_url (fr_scheme f) (fr_host f) (fr_port f) (fr_path f))),
            (''host_redacted'', JBool (fr_host_redacted f)),
            (''path_redacted'', JBool (fr_path_redacted f)),
            (''status'', jopt jnat (fr_status f)),
            (''ok'', JBool (flow_ok f)),
            (''dur_ms'', jopt jnat (fr_dur_ms f)),
            (''req_headers'', headers_to_map (fr_req_headers f)),
            (''resp_headers'', headers_to_map (fr_resp_headers f)),
            (''req_type'', jopt JStr (fr_req_type f)),
            (''resp_type'', jopt JStr (fr_resp_type f)),
            (''req_len'', jnat (fr_req_len f)),
            (''resp_len'', jnat (fr_resp_len f)),
            (''req_body_redacted'', JBool (fr_req_body_redacted f)),
            (''resp_body_redacted'', JBool (fr_resp_body_redacted f)),
            (''redaction_policy'', jopt JStr (fr_redaction_policy f)),
            (''redaction_policy_version'', jopt jnat (fr_redaction_policy_version f)),
            (''matched'', jopt JStr (fr_matched f)),
            (''rule_id'', jopt JStr (fr_rule_id f)),
            (''rule_ids'', JArr (map JStr (fr_rule_ids f))),
            (''modified'', JBool (fr_modified f)),
            (''request_body_modified'', JBool (fr_request_body_modified f)),
            (''original_url'', jopt JStr (fr_original_url f)),
            (''http_version'', jopt JStr (fr_http_version f)),
            (''upstream_http_version'', jopt JStr (fr_upstream_http_version f)),
            (''fault_ids'', JArr (map JStr (fr_fault_ids f))),
            (''upstream_bypassed'', JBool (fr_upstream_bypassed f)),
            (''error'', jopt JStr (fr_error f)),
            (''error_redacted'', JBool (fr_error_redacted f)),
            (''streamed'', JBool (fr_streamed f)),
            (''resp_len_unknown'', JBool (fr_resp_len_unknown f)),
            (''req_streamed'', JBool (fr_req_streamed f)),
            (''req_len_unknown'', JBool (fr_req_len_unknown f)),
            (''upstream_content_encoding'', jopt JStr (fr_upstream_content_encoding f)),
            (''upstream_resp_len'', jopt jnat (fr_upstream_resp_len f))] @
           (if body then
              [(''req_body'', jopt JStr (fr_req_body f)),
               (''resp_body'', jopt JStr (fr_resp_body f)),
               (''req_truncated'', JBool (fr_req_truncated f)),
               (''resp_truncated'', JBool (fr_resp_truncated f))]
            else []))"

section \<open>Redaction\<close>

text \<open>The redaction of a body comes on top of what the WebSocket records use of the policy.\<close>

record flow_policy = redaction_policy +
  rp_body :: "string \<Rightarrow> string \<times> bool"

definition redact_flow_record :: "flow_policy \<Rightarrow> flow_record \<Rightarrow> flow_record" where
  "redact_flow_record policy f =
     (let host = rp_text policy (fr_host f);
          (path, path_changed) = rp_request_target policy (fr_path f);
          err = map_option (rp_urlish_text policy) (fr_error f);
          hide = map (\<lambda>(name, value). (name, rp_header_value policy name value));
          req = map_option (rp_body policy) (fr_req_body f);
          resp = map_option (rp_body policy) (fr_resp_body f)
      in f\<lparr>fr_host_redacted := fr_host_redacted f \<or> host \<noteq> fr_host f,
           fr_host := host,
           fr_path_redacted := fr_path_redacted f \<or> path_changed,
           fr_path := path,
           fr_error_redacted := fr_error_redacted f \<or> err \<noteq> fr_error f,
           fr_error := err,
           fr_req_headers := hide (fr_req_headers f),
           fr_resp_headers := hide (fr_resp_headers f),
           fr_req_body := map_option fst req,
           fr_req_body_redacted := fr_req_body_redacted f \<or> (case req of Some (t, c) \<Rightarrow> c | None \<Rightarrow> False),
           fr_resp_body := map_option fst resp,
           fr_resp_body_redacted := fr_resp_body_redacted f \<or> (case resp of Some (t, c) \<Rightarrow> c | None \<Rightarrow> False),
           fr_redaction_policy := Some (rp_label policy),
           fr_redaction_policy_version := Some POLICY_VERSION\<rparr>)"

section \<open>What is stored of a body\<close>

text \<open>Cutting encoded text anywhere leaves whole characters and at most a piece of one.\<close>

lemma utf8_cut_lead2: "0xC2 \<le> unat b \<Longrightarrow> unat b \<le> 0xF4 \<Longrightarrow> fst (utf8_next [b]) = None \<and> utf8_cut [b]"
  by (simp add: Let_def)

lemma utf8_cut_lead3:
  "0xE0 \<le> unat b \<Longrightarrow> unat b \<le> 0xEF \<Longrightarrow> second_of_3 (unat b) c \<Longrightarrow>
   fst (utf8_next [b, c]) = None \<and> utf8_cut [b, c]"
  by (simp add: Let_def)

lemma utf8_cut_lead4:
  assumes "0xF0 \<le> unat b" "unat b \<le> 0xF4" "second_of_4 (unat b) c"
  shows "fst (utf8_next [b, c]) = None \<and> utf8_cut [b, c]"
    "is_cont d \<Longrightarrow> fst (utf8_next [b, c, d]) = None \<and> utf8_cut [b, c, d]"
  using assms by (simp_all add: Let_def)

lemma utf8_cut_char:
  assumes "is_scalar c" "0 < n" "n < length (utf8_encode_char c)"
  shows "fst (utf8_next (take n (utf8_encode_char c))) = None \<and> utf8_cut (take n (utf8_encode_char c))"
proof -
  have top: "c < 0x110000"
    using assms(1) by (auto simp: is_scalar_def)
  have len: "length (utf8_encode_char c) = (if c < 0x80 then 1 else if c < 0x800 then 2 else if c < 0x10000 then 3 else 4)"
    by (simp add: utf8_encode_char_def)
  consider (two) "0x80 \<le> c" "c < 0x800" "n = 1"
    | (three) "0x800 \<le> c" "c < 0x10000" "n = 1 \<or> n = 2"
    | (four) "0x10000 \<le> c" "n = 1 \<or> n = 2 \<or> n = 3"
    using assms(2,3) unfolding len by (fastforce split: if_splits)
  then show ?thesis
  proof cases
    case two
    then have "take n (utf8_encode_char c) = [byte_of (0xC0 + c div 64)]"
      by (simp add: utf8_encode_char_def)
    then show ?thesis
      using two by (simp only:) (rule utf8_cut_lead2; simp)
  next
    case three
    have lead: "unat (byte_of (0xE0 + c div 4096)) = 0xE0 + c div 4096"
      and second: "unat (byte_of (0x80 + c div 64 mod 64)) = 0x80 + c div 64 mod 64"
      using three by simp_all
    have below: "c div 64 mod 64 \<le> 31" if "c < 0xD800" "c div 4096 = 13"
      using that by (simp add: div_mult2_eq [of c 64 64, simplified] minus_mult_div_eq_mod [symmetric])
    have "second_of_3 (0xE0 + c div 4096) (byte_of (0x80 + c div 64 mod 64))"
      unfolding second_of_3_def is_cont_def second using assms(1) three(1,2) below
      by (auto simp: is_scalar_def)
    then have "fst (utf8_next [byte_of (0xE0 + c div 4096), byte_of (0x80 + c div 64 mod 64)]) = None \<and>
        utf8_cut [byte_of (0xE0 + c div 4096), byte_of (0x80 + c div 64 mod 64)]"
      using three by (intro utf8_cut_lead3) (simp_all add: lead)
    moreover have "fst (utf8_next [byte_of (0xE0 + c div 4096)]) = None \<and> utf8_cut [byte_of (0xE0 + c div 4096)]"
      using three by (intro utf8_cut_lead2) (simp_all add: lead)
    ultimately show ?thesis
      using three by (auto simp: utf8_encode_char_def simp del: utf8_next.simps utf8_cut.simps)
  next
    case four
    have lead: "unat (byte_of (0xF0 + c div 262144)) = 0xF0 + c div 262144"
      and second: "unat (byte_of (0x80 + c div 4096 mod 64)) = 0x80 + c div 4096 mod 64"
      and third: "unat (byte_of (0x80 + c div 64 mod 64)) = 0x80 + c div 64 mod 64"
      using four top by simp_all
    have below: "c div 4096 mod 64 \<le> 15" if "c div 262144 = 4"
      using that top by (simp add: div_mult2_eq [of c 4096 64, simplified] minus_mult_div_eq_mod [symmetric])
    have snd4: "second_of_4 (0xF0 + c div 262144) (byte_of (0x80 + c div 4096 mod 64))"
      unfolding second_of_4_def is_cont_def second using four(1) top below by auto
    have cont: "is_cont (byte_of (0x80 + c div 64 mod 64))"
      unfolding is_cont_def third by simp
    have "fst (utf8_next [byte_of (0xF0 + c div 262144)]) = None \<and> utf8_cut [byte_of (0xF0 + c div 262144)]"
      using four top by (intro utf8_cut_lead2) (simp_all add: lead)
    moreover note utf8_cut_lead4 [of "byte_of (0xF0 + c div 262144)" "byte_of (0x80 + c div 4096 mod 64)", unfolded lead]
    ultimately show ?thesis
      using four top snd4 cont
      by (auto simp: utf8_encode_char_def simp del: utf8_next.simps utf8_cut.simps)
  qed
qed

lemma utf8_next_encode_take:
  assumes "is_scalar c"
  shows "utf8_next (utf8_encode_char c @ rest) = (Some c, rest)"
  using assms by (rule utf8_next_encode)

lemma utf8_scan_char:
  assumes "is_scalar c"
  shows "utf8_scan (utf8_encode_char c @ rest) =
    (utf8_encode_char c @ fst (utf8_scan rest), snd (utf8_scan rest))"
proof -
  obtain b bs where e: "utf8_encode_char c @ rest = b # bs"
    using utf8_encode_char_not_Nil [of c] by (cases "utf8_encode_char c") auto
  have "take (length (b # bs) - length rest) (b # bs) = utf8_encode_char c"
    using arg_cong [OF e, of "\<lambda>xs. take (length xs - length rest) xs"] by simp
  then show ?thesis
    using utf8_next_encode_take [OF assms, of rest] unfolding e
    by (simp add: case_prod_unfold Let_def del: utf8_next.simps)
qed

lemma utf8_scan_piece:
  assumes "0 < n" "is_scalar c" "n < length (utf8_encode_char c)"
  shows "utf8_scan (take n (utf8_encode_char c)) = ([], Some True)"
proof -
  obtain b bs where e: "take n (utf8_encode_char c) = b # bs"
    using assms(1,3) by (cases "take n (utf8_encode_char c)") auto
  show ?thesis
    using utf8_cut_char [OF assms(2,1,3)] unfolding e
    by (cases "utf8_next (b # bs)") (simp add: case_prod_unfold del: utf8_next.simps)
qed

lemma length_utf8_encode_char: "length (utf8_encode_char c) \<le> 4"
  by (simp add: utf8_encode_char_def)

lemma utf8_scan_take:
  assumes "list_all is_scalar cs"
  shows "\<exists>k. fst (utf8_scan (take n (utf8_encode cs))) = utf8_encode (take k cs) \<and>
    length (utf8_encode (take k cs)) \<le> n \<and>
    (n < length (utf8_encode cs) \<longrightarrow> n < length (utf8_encode (take k cs)) + 4) \<and>
    (case snd (utf8_scan (take n (utf8_encode cs))) of
       None \<Rightarrow> take n (utf8_encode cs) = utf8_encode (take k cs)
     | Some e \<Rightarrow> e \<and> n < length (utf8_encode cs))"
  using assms
proof (induction cs arbitrary: n)
  case Nil
  then show ?case by (simp add: utf8_encode_def)
next
  case (Cons c cs)
  have enc: "utf8_encode (c # xs) = utf8_encode_char c @ utf8_encode xs" for xs
    by (simp add: utf8_encode_def)
  have c: "is_scalar c" and cs: "list_all is_scalar cs"
    using Cons.prems by auto
  show ?case
  proof (cases "length (utf8_encode_char c) \<le> n")
    case True
    then have split: "take n (utf8_encode (c # cs)) =
        utf8_encode_char c @ take (n - length (utf8_encode_char c)) (utf8_encode cs)"
      by (simp add: enc)
    obtain k where k: "fst (utf8_scan (take (n - length (utf8_encode_char c)) (utf8_encode cs))) = utf8_encode (take k cs)"
      "length (utf8_encode (take k cs)) \<le> n - length (utf8_encode_char c)"
      "n - length (utf8_encode_char c) < length (utf8_encode cs) \<longrightarrow>
         n - length (utf8_encode_char c) < length (utf8_encode (take k cs)) + 4"
      "case snd (utf8_scan (take (n - length (utf8_encode_char c)) (utf8_encode cs))) of
         None \<Rightarrow> take (n - length (utf8_encode_char c)) (utf8_encode cs) = utf8_encode (take k cs)
       | Some e \<Rightarrow> e \<and> n - length (utf8_encode_char c) < length (utf8_encode cs)"
      using Cons.IH [OF cs] by metis
    show ?thesis
      unfolding split utf8_scan_char [OF c]
      by (rule exI [of _ "Suc k"]) (use k True in \<open>auto simp: enc split: option.splits\<close>)
  next
    case False
    then have piece: "take n (utf8_encode (c # cs)) = take n (utf8_encode_char c)"
      by (simp add: enc)
    show ?thesis
    proof (cases "n = 0")
      case True
      then show ?thesis
        by (auto intro!: exI [of _ 0] simp: utf8_encode_def)
    next
      case pos: False
      then have scan: "utf8_scan (take n (utf8_encode_char c)) = ([], Some True)"
        using False c by (intro utf8_scan_piece) auto
      show ?thesis
        unfolding piece scan
        by (rule exI [of _ 0]) (use False length_utf8_encode_char [of c] in \<open>auto simp: utf8_encode_def\<close>)
    qed
  qed
qed

text \<open>
  Of a body that is UTF-8 text the record keeps the body itself when it fits under the cap,
  and otherwise its longest prefix of whole characters: valid text, within the cap, short of it by
  less than one character, never with a replacement character of the proxy's own making. The
  truncation flag is set exactly when something was cut.
\<close>

theorem body_text_faithful:
  assumes "utf8_valid bytes" "bytes \<noteq> []" "is_textual ct"
    "ct = None \<longrightarrow> \<not> list_ex (\<lambda>b. b = 0) (take 512 bytes)"
  shows "\<exists>stored left. body_to_text ct bytes cap = (Some (bytes_str stored), cap < length bytes) \<and>
    bytes = stored @ left \<and> utf8_valid stored \<and> length stored \<le> cap \<and> (left = [] \<longleftrightarrow> length bytes \<le> cap) \<and>
    (left \<noteq> [] \<longrightarrow> cap < length stored + 4)"
proof (cases "length bytes \<le> cap")
  case True
  have e: "utf8_encode (utf8_lossy bytes) = bytes"
    using assms(1) by (rule utf8_encode_lossy)
  have "snd (utf8_scan bytes) = None"
    using utf8_scan_take [OF utf8_lossy_scalar [of bytes], of "length bytes"] unfolding e
    by (auto split: option.splits)
  then have "body_to_text ct bytes cap = (Some (bytes_str bytes), False)"
    using True assms by (auto simp: body_to_text_def min_def Let_def split: prod.splits option.splits)
  then show ?thesis
    using True assms(1) by (intro exI [of _ bytes] exI [of _ "[]"]) auto
next
  case False
  have e: "utf8_encode (utf8_lossy bytes) = bytes"
    using assms(1) by (rule utf8_encode_lossy)
  obtain k where k: "fst (utf8_scan (take cap bytes)) = utf8_encode (take k (utf8_lossy bytes))"
    "length (utf8_encode (take k (utf8_lossy bytes))) \<le> cap"
    "cap < length bytes \<longrightarrow> cap < length (utf8_encode (take k (utf8_lossy bytes))) + 4"
    "case snd (utf8_scan (take cap bytes)) of
       None \<Rightarrow> take cap bytes = utf8_encode (take k (utf8_lossy bytes)) | Some e \<Rightarrow> e \<and> cap < length bytes"
    using utf8_scan_take [OF utf8_lossy_scalar [of bytes], of cap] unfolding e by auto
  let ?stored = "utf8_encode (take k (utf8_lossy bytes))"
  have scalars: "list_all is_scalar (take k (utf8_lossy bytes))"
    using utf8_lossy_scalar [of bytes] by (auto simp: list_all_iff dest: in_set_takeD)
  then have valid: "utf8_valid ?stored"
    by (rule utf8_valid_encode)
  have split: "bytes = ?stored @ utf8_encode (drop k (utf8_lossy bytes))"
    using e by (metis append_take_drop_id utf8_encode_def map_append concat_append)
  have "body_to_text ct bytes cap = (Some (bytes_str ?stored), True)"
    using False assms(2-4) k from_utf8_lossy_valid [OF valid]
    by (auto simp: body_to_text_def Let_def split: prod.splits option.splits)
  moreover have "utf8_encode (drop k (utf8_lossy bytes)) \<noteq> []"
    using split k(2) False by (metis append_Nil2)
  ultimately show ?thesis
    using split valid k(2,3) False
    by (intro exI [of _ ?stored] exI [of _ "utf8_encode (drop k (utf8_lossy bytes))"]) auto
qed

lemma body_text_faithful_witness:
  "\<exists>stored left. body_to_text (Some ''text/plain'') [0x61, 0xC3, 0xA9, 0x62] 2 = (Some (bytes_str stored), True) \<and>
    [0x61, 0xC3, 0xA9, 0x62] = stored @ left \<and> utf8_valid stored \<and> length stored \<le> 2 \<and> left \<noteq> [] \<and>
    2 < length stored + 4"
  using body_text_faithful [of "[0x61, 0xC3, 0xA9, 0x62]" "Some ''text/plain''" 2]
  by (fastforce simp: utf8_valid_def starts_with_def Let_def is_cont_def)

section \<open>Identifiers round trip\<close>

lemma hex_value_digit: "d < 16 \<Longrightarrow> hex_value (hex_digit d) = Some d"
  by (auto simp: hex_value_def hex_digit_def Let_def)

lemma hex_fold_append:
  "hex_fold acc (xs @ ys) = (case hex_fold acc xs of None \<Rightarrow> None | Some n \<Rightarrow> hex_fold n ys)"
  by (induction acc xs rule: hex_fold.induct) (auto split: option.splits)

lemma hex_fold_lower: "n < 2 ^ 64 \<Longrightarrow> hex_fold 0 (hex_lower n) = Some n"
proof (induction n rule: hex_lower.induct)
  case (1 n)
  show ?case
  proof (cases "n < 16")
    case True
    then show ?thesis
      by (subst hex_lower.simps) (simp add: hex_value_digit)
  next
    case False
    then have "hex_fold 0 (hex_lower (n div 16)) = Some (n div 16)"
      using 1 by simp
    then show ?thesis
      using False 1(2) by (subst hex_lower.simps) (simp add: hex_fold_append hex_value_digit mult.commute)
  qed
qed

lemma hex_lower_start: "\<exists>d cs. d < 16 \<and> hex_lower n = hex_digit d # cs"
proof (induction n rule: hex_lower.induct)
  case (1 n)
  then show ?case
    by (subst hex_lower.simps) fastforce
qed

lemma hex_digit_not_plus: "d < 16 \<Longrightarrow> hex_digit d \<noteq> CHR ''+''"
  using hex_value_digit [of d] by (auto simp: hex_value_def Let_def)

lemma sequence_of_flow_id: "n < 2 ^ 64 \<Longrightarrow> sequence_from_id (flow_id n) = Some n"
  using hex_lower_start [of n] hex_fold_lower [of n] hex_digit_not_plus
  by (auto simp: sequence_from_id_def flow_id_def parse_hex64_def Let_def)

end
