(* ===== verification/NetFault.thy ===== *)
theory NetFault
  imports Prelude
begin

text \<open>
  The faults of \<^verbatim>\<open>net/fault.rs\<close>: which requests a fault hits, what the faults of a proxy do to a
  request together, and how a response body is sabotaged. The hash (BLAKE3, a third-party crate) is
  the argument \<open>hash\<close>; a body stream is the list of its chunks, each some bytes or a read error.
\<close>

section \<open>Faults\<close>

datatype net_fault_effect =
    ErrorStatus nat
  | Latency nat nat
  | Bandwidth nat
  | ConnectionReset nat
  | TruncateBody nat
  | TlsFailure

record net_fault_spec =
  nf_id :: string
  nf_host :: "string option"
  nf_path :: "string option"
  nf_percent :: nat
  nf_seed :: nat
  nf_effect :: net_fault_effect

datatype fault_spec_error = BadFaultId | BadPercent | BadErrorStatus | BandwidthTooLow | TlsFailureNeedsHost

definition validate_fault :: "net_fault_spec \<Rightarrow> fault_spec_error option" where
  "validate_fault spec =
     (if nf_id spec = [] \<or> length (nf_id spec) > 64 then Some BadFaultId
      else if \<not> (1 \<le> nf_percent spec \<and> nf_percent spec \<le> 100) then Some BadPercent
      else case nf_effect spec of
        ErrorStatus status \<Rightarrow> if \<not> (400 \<le> status \<and> status \<le> 599) then Some BadErrorStatus else None
      | Bandwidth bytes_per_sec \<Rightarrow> if bytes_per_sec < 100 then Some BandwidthTooLow else None
      | TlsFailure \<Rightarrow>
          if (case nf_host spec of None \<Rightarrow> [] | Some h \<Rightarrow> h) = [] then Some TlsFailureNeedsHost else None
      | _ \<Rightarrow> None)"

record active_net_fault =
  af_spec :: net_fault_spec
  af_seen :: nat
  af_hits :: nat

definition le_bytes :: "nat \<Rightarrow> nat \<Rightarrow> byte list" where
  "le_bytes k n = rev (be_bytes k n)"

definition fault_mix :: "(byte list \<Rightarrow> byte list) \<Rightarrow> nat \<Rightarrow> nat \<Rightarrow> nat \<Rightarrow> nat" where
  "fault_mix hash seed n salt =
     le_nat (take 8 (hash (le_bytes 8 seed @ le_bytes 8 n @ le_bytes 8 salt)))"

definition fault_new :: "net_fault_spec \<Rightarrow> active_net_fault" where
  "fault_new spec = \<lparr>af_spec = spec, af_seen = 0, af_hits = 0\<rparr>"

definition scope_matches :: "net_fault_spec \<Rightarrow> string \<Rightarrow> string \<Rightarrow> bool" where
  "scope_matches spec host path \<longleftrightarrow>
     (let contains = (\<lambda>hay needle.
            case needle of None \<Rightarrow> True
            | Some n \<Rightarrow> str_contains (to_ascii_lowercase hay) (to_ascii_lowercase n))
      in contains host (nf_host spec) \<and> contains path (nf_path spec))"

definition fault_hits :: "(byte list \<Rightarrow> byte list) \<Rightarrow> net_fault_spec \<Rightarrow> nat \<Rightarrow> bool" where
  "fault_hits hash spec n \<longleftrightarrow>
     nf_percent spec \<ge> 100 \<or> fault_mix hash (nf_seed spec) n 0 mod 100 < nf_percent spec"

definition draw ::
  "(byte list \<Rightarrow> byte list) \<Rightarrow> active_net_fault \<Rightarrow> string \<Rightarrow> string \<Rightarrow> active_net_fault \<times> nat option" where
  "draw hash f host path =
     (if \<not> scope_matches (af_spec f) host path then (f, None)
      else
        let n = af_seen f; f1 = f\<lparr>af_seen := u64_add n 1\<rparr> in
        if fault_hits hash (af_spec f) n
        then (f1\<lparr>af_hits := u64_add (af_hits f1) 1\<rparr>, Some n)
        else (f1, None))"

definition jitter_ms :: "(byte list \<Rightarrow> byte list) \<Rightarrow> net_fault_spec \<Rightarrow> nat \<Rightarrow> nat" where
  "jitter_ms hash spec n =
     (case nf_effect spec of
        Latency delay jitter \<Rightarrow>
          if jitter > 0 then fault_mix hash (nf_seed spec) n 1 mod (jitter + 1) else 0
      | _ \<Rightarrow> 0)"

text \<open>The JSON form of a fault, as its derived serialiser writes it.\<close>

fun effect_json :: "net_fault_effect \<Rightarrow> json" where
  "effect_json (ErrorStatus status) = jobj [(''type'', JStr ''error_status''), (''status'', jnat status)]"
| "effect_json (Latency delay jitter) =
     jobj [(''type'', JStr ''latency''), (''delay_ms'', jnat delay), (''jitter_ms'', jnat jitter)]"
| "effect_json (Bandwidth rate) = jobj [(''type'', JStr ''bandwidth''), (''bytes_per_sec'', jnat rate)]"
| "effect_json (ConnectionReset after) =
     jobj [(''type'', JStr ''connection_reset''), (''after_bytes'', jnat after)]"
| "effect_json (TruncateBody keep) = jobj [(''type'', JStr ''truncate''), (''keep_bytes'', jnat keep)]"
| "effect_json TlsFailure = jobj [(''type'', JStr ''tls_failure'')]"

definition spec_json :: "net_fault_spec \<Rightarrow> json" where
  "spec_json spec =
     jobj ([(''id'', JStr (nf_id spec))] @
       (case nf_host spec of None \<Rightarrow> [] | Some h \<Rightarrow> [(''host'', JStr h)]) @
       (case nf_path spec of None \<Rightarrow> [] | Some p \<Rightarrow> [(''path'', JStr p)]) @
       [(''percent'', jnat (nf_percent spec)), (''seed'', jnat (nf_seed spec)),
        (''effect'', effect_json (nf_effect spec))])"

definition fault_status :: "active_net_fault \<Rightarrow> json" where
  "fault_status f =
     jobj [(''spec'', spec_json (af_spec f)), (''matching_requests'', jnat (af_seen f)),
           (''hits'', jnat (af_hits f))]"

section \<open>A request under every fault\<close>

datatype body_fault = BodyBandwidth nat | BodyReset nat | BodyTruncate nat

record request_faults =
  rq_ids :: "string list"
  rq_delay_ms :: nat
  rq_error_status :: "nat option"
  rq_body :: "body_fault option"

definition request_faults_default :: request_faults where
  "request_faults_default = \<lparr>rq_ids = [], rq_delay_ms = 0, rq_error_status = None, rq_body = None\<rparr>"

text \<open>What a hit does: the updated outcome, and whether the fault was applied.\<close>

definition apply_effect ::
  "(byte list \<Rightarrow> byte list) \<Rightarrow> net_fault_spec \<Rightarrow> nat \<Rightarrow> request_faults \<Rightarrow> request_faults \<times> bool" where
  "apply_effect hash spec n out =
     (case nf_effect spec of
        Latency delay jitter \<Rightarrow>
          (out\<lparr>rq_delay_ms := u64_add (rq_delay_ms out) (u64_add delay (jitter_ms hash spec n))\<rparr>, True)
      | ErrorStatus status \<Rightarrow>
          if rq_error_status out = None then (out\<lparr>rq_error_status := Some status\<rparr>, True) else (out, False)
      | Bandwidth rate \<Rightarrow>
          if rq_body out = None then (out\<lparr>rq_body := Some (BodyBandwidth rate)\<rparr>, True) else (out, False)
      | ConnectionReset after \<Rightarrow>
          if rq_body out = None then (out\<lparr>rq_body := Some (BodyReset after)\<rparr>, True) else (out, False)
      | TruncateBody keep \<Rightarrow>
          if rq_body out = None then (out\<lparr>rq_body := Some (BodyTruncate keep)\<rparr>, True) else (out, False)
      | TlsFailure \<Rightarrow> (out, False))"

fun for_request_loop ::
  "(byte list \<Rightarrow> byte list) \<Rightarrow> string \<Rightarrow> string \<Rightarrow> active_net_fault list \<Rightarrow> request_faults \<Rightarrow>
   active_net_fault list \<times> request_faults" where
  "for_request_loop hash host path [] out = ([], out)"
| "for_request_loop hash host path (f # fs) out =
     (if nf_effect (af_spec f) = TlsFailure then
        (let (fs', out') = for_request_loop hash host path fs out in (f # fs', out'))
      else
        case draw hash f host path of
          (f', None) \<Rightarrow> (let (fs', out') = for_request_loop hash host path fs out in (f' # fs', out'))
        | (f', Some n) \<Rightarrow>
            let (out1, applied) = apply_effect hash (af_spec f) n out;
                out2 = (if applied then out1\<lparr>rq_ids := rq_ids out1 @ [nf_id (af_spec f)]\<rparr> else out1);
                (fs', out') = for_request_loop hash host path fs out2
            in (f' # fs', out'))"

definition for_request ::
  "(byte list \<Rightarrow> byte list) \<Rightarrow> active_net_fault list \<Rightarrow> string \<Rightarrow> string \<Rightarrow>
   active_net_fault list \<times> request_faults" where
  "for_request hash fs host path = for_request_loop hash host path fs request_faults_default"

text \<open>The search stops at the first fault that hits; those after it draw nothing.\<close>

fun tls_failure_for ::
  "(byte list \<Rightarrow> byte list) \<Rightarrow> active_net_fault list \<Rightarrow> string \<Rightarrow> active_net_fault list \<times> string option" where
  "tls_failure_for hash [] host = ([], None)"
| "tls_failure_for hash (f # fs) host =
     (if nf_effect (af_spec f) \<noteq> TlsFailure then
        (let (fs', hit) = tls_failure_for hash fs host in (f # fs', hit))
      else
        case draw hash f host [] of
          (f', Some n) \<Rightarrow> (f' # fs, Some (nf_id (af_spec f)))
        | (f', None) \<Rightarrow> (let (fs', hit) = tls_failure_for hash fs host in (f' # fs', hit)))"

section \<open>Sabotaged bodies\<close>

datatype chunk = Data "byte list" | ReadError

fun limit_chunks :: "chunk list \<Rightarrow> nat \<Rightarrow> chunk list" where
  "limit_chunks chunks 0 = []"
| "limit_chunks [] left = []"
| "limit_chunks (Data bs # chunks) left =
     Data (take (min (length bs) left) bs) # limit_chunks chunks (left - min (length bs) left)"
| "limit_chunks (ReadError # chunks) left = [ReadError]"

text \<open>\<open>(0..len).step_by(slice)\<close> mapped to the slices that start there.\<close>

function slices :: "nat \<Rightarrow> byte list \<Rightarrow> byte list list" where
  "slices n bs = (if bs = [] \<or> n = 0 then [] else take n bs # slices n (drop n bs))"
  by pat_completeness auto
termination
  by (relation "measure (\<lambda>(n, bs). length bs)") auto

declare slices.simps [simp del]

fun chunk_pieces :: "nat \<Rightarrow> chunk \<Rightarrow> chunk list" where
  "chunk_pieces n (Data bs) = map Data (slices n bs)"
| "chunk_pieces n ReadError = [ReadError]"

fun piece_millis :: "nat \<Rightarrow> chunk \<Rightarrow> nat" where
  "piece_millis rate (Data bs) = length bs * 1000 div max rate 1"
| "piece_millis rate ReadError = 0"

text \<open>
  The sabotaged body: its chunks, each with the milliseconds slept before it, and the length to
  advertise. A reset ends in an error of its own after a pause of 100 ms.
\<close>

definition sabotage ::
  "chunk list \<Rightarrow> body_fault \<Rightarrow> nat option \<Rightarrow> (nat \<times> chunk) list \<times> nat option" where
  "sabotage body fault known_len =
     (case fault of
        BodyBandwidth rate \<Rightarrow>
          let n = max (rate div 10) 1
          in (map (\<lambda>piece. (piece_millis rate piece, piece)) (concat (map (chunk_pieces n) body)), known_len)
      | BodyReset after \<Rightarrow>
          (map (Pair 0) (limit_chunks body after) @ [(100, ReadError)], known_len)
      | BodyTruncate keep \<Rightarrow>
          (map (Pair 0) (limit_chunks body keep), map_option (\<lambda>len. min len keep) known_len))"

section \<open>Which requests are hit\<close>

text \<open>A fault meeting requests one after another, and what each drew.\<close>

fun draws ::
  "(byte list \<Rightarrow> byte list) \<Rightarrow> active_net_fault \<Rightarrow> (string \<times> string) list \<Rightarrow> active_net_fault \<times> nat option list" where
  "draws hash f [] = (f, [])"
| "draws hash f (r # rs) =
     (let (f1, d) = draw hash f (fst r) (snd r); (f2, ds) = draws hash f1 rs in (f2, d # ds))"

definition in_scope :: "net_fault_spec \<Rightarrow> string \<times> string \<Rightarrow> bool" where
  "in_scope spec r = scope_matches spec (fst r) (snd r)"

text \<open>The reference: the \<open>k\<close>-th request in scope is hit or not by the seed alone.\<close>

fun expected_draws :: "(byte list \<Rightarrow> byte list) \<Rightarrow> net_fault_spec \<Rightarrow> nat \<Rightarrow> (string \<times> string) list \<Rightarrow> nat option list" where
  "expected_draws hash spec n [] = []"
| "expected_draws hash spec n (r # rs) =
     (if in_scope spec r then (if fault_hits hash spec n then Some n else None) # expected_draws hash spec (Suc n) rs
      else None # expected_draws hash spec n rs)"

lemma draw_spec [simp]: "af_spec (fst (draw hash f host path)) = af_spec f"
  by (simp add: draw_def Let_def)

lemma draws_spec:
  assumes "af_seen f + length rs < 2 ^ 64" "af_hits f + length rs < 2 ^ 64"
  shows "snd (draws hash f rs) = expected_draws hash (af_spec f) (af_seen f) rs \<and>
    fst (draws hash f rs) =
      f\<lparr>af_seen := af_seen f + length (filter (in_scope (af_spec f)) rs),
        af_hits := af_hits f + length (filter (\<lambda>d. d \<noteq> None) (expected_draws hash (af_spec f) (af_seen f) rs))\<rparr>"
  using assms
proof (induction rs arbitrary: f)
  case Nil
  then show ?case by simp
next
  case (Cons r rs)
  then show ?case
    by (auto simp: draw_def in_scope_def u64_add_exact Let_def case_prod_beta)
qed

text \<open>
  Which requests a fault hits is decided by its seed and the order of the matching
  requests alone: the requests in scope are numbered from zero in order, number \<open>n\<close> is hit exactly when
  the hash of seed and \<open>n\<close> falls below the percentage, requests out of scope neither count nor are
  hit, and the two counters are exactly the matching requests and the hits.
\<close>

theorem fault_hits_replay:
  assumes "length rs < 2 ^ 64" "draws hash (fault_new spec) rs = (f, ds)"
  shows "ds = expected_draws hash spec 0 rs \<and>
    af_seen f = length (filter (in_scope spec) rs) \<and> af_hits f = length (filter (\<lambda>d. d \<noteq> None) ds)"
  using draws_spec [of "fault_new spec" rs hash] assms by (auto simp: fault_new_def)

theorem fault_hits_replay_witness:
  "\<exists>f. draws (\<lambda>_. [7]) (fault_new \<lparr>nf_id = ''a'', nf_host = Some ''x'', nf_path = None, nf_percent = 100,
       nf_seed = 1, nf_effect = TlsFailure\<rparr>) [(''x'', []), (''y'', []), (''xx'', [])] =
       (f, [Some 0, None, Some 1]) \<and> af_hits f = 2"
proof -
  let ?spec = "\<lparr>nf_id = ''a'', nf_host = Some ''x'', nf_path = None, nf_percent = 100, nf_seed = 1,
    nf_effect = TlsFailure\<rparr>"
  let ?rs = "[(''x'', []), (''y'', []), (''xx'', [])] :: (string \<times> string) list"
  obtain f ds where run: "draws (\<lambda>_. [7]) (fault_new ?spec) ?rs = (f, ds)" by fastforce
  show ?thesis
    using fault_hits_replay [OF _ run] run
    by (simp add: in_scope_def scope_matches_def to_ascii_lowercase_def ascii_lower_char_def fault_hits_def)
qed

section \<open>What several faults do together\<close>

definition fault_draw ::
  "(byte list \<Rightarrow> byte list) \<Rightarrow> string \<Rightarrow> string \<Rightarrow> active_net_fault \<Rightarrow> (net_fault_spec \<times> nat) list" where
  "fault_draw hash host path f =
     (if nf_effect (af_spec f) = TlsFailure then []
      else case snd (draw hash f host path) of None \<Rightarrow> [] | Some n \<Rightarrow> [(af_spec f, n)])"

definition hits_of ::
  "(byte list \<Rightarrow> byte list) \<Rightarrow> string \<Rightarrow> string \<Rightarrow> active_net_fault list \<Rightarrow> (net_fault_spec \<times> nat) list" where
  "hits_of hash host path fs = concat (map (fault_draw hash host path) fs)"

fun first_some :: "('a \<Rightarrow> 'b option) \<Rightarrow> 'a list \<Rightarrow> 'b option" where
  "first_some g [] = None"
| "first_some g (x # xs) = (case g x of None \<Rightarrow> first_some g xs | Some y \<Rightarrow> Some y)"

fun error_of :: "net_fault_spec \<times> nat \<Rightarrow> nat option" where
  "error_of (spec, n) = (case nf_effect spec of ErrorStatus status \<Rightarrow> Some status | _ \<Rightarrow> None)"

fun body_of :: "net_fault_spec \<times> nat \<Rightarrow> body_fault option" where
  "body_of (spec, n) =
     (case nf_effect spec of
        Bandwidth rate \<Rightarrow> Some (BodyBandwidth rate)
      | ConnectionReset after \<Rightarrow> Some (BodyReset after)
      | TruncateBody keep \<Rightarrow> Some (BodyTruncate keep)
      | _ \<Rightarrow> None)"

fun delay_of :: "(byte list \<Rightarrow> byte list) \<Rightarrow> net_fault_spec \<times> nat \<Rightarrow> nat" where
  "delay_of hash (spec, n) =
     (case nf_effect spec of Latency delay jitter \<Rightarrow> delay + jitter_ms hash spec n | _ \<Rightarrow> 0)"

definition or_else :: "'a option \<Rightarrow> 'a option \<Rightarrow> 'a option" where
  "or_else a b = (case a of None \<Rightarrow> b | Some x \<Rightarrow> Some x)"

lemma for_request_loop_meaning:
  assumes "rq_delay_ms out < 2 ^ 64"
  shows "let (fs', out') = for_request_loop hash host path fs out; hits = hits_of hash host path fs in
    fs' = map (\<lambda>f. if nf_effect (af_spec f) = TlsFailure then f else fst (draw hash f host path)) fs \<and>
    rq_error_status out' = or_else (rq_error_status out) (first_some error_of hits) \<and>
    rq_body out' = or_else (rq_body out) (first_some body_of hits) \<and>
    rq_delay_ms out' = (rq_delay_ms out + sum_list (map (delay_of hash) hits)) mod 2 ^ 64"
  using assms
proof (induction fs arbitrary: out)
  case Nil
  then show ?case by (simp add: hits_of_def or_else_def split: option.split)
next
  case (Cons f fs)
  show ?case
  proof (cases "nf_effect (af_spec f) = TlsFailure \<or> snd (draw hash f host path) = None")
    case True
    then show ?thesis
      using Cons.IH [OF Cons.prems]
      by (cases "draw hash f host path") (auto simp: hits_of_def fault_draw_def case_prod_beta Let_def)
  next
    case False
    then obtain f' n where draw: "draw hash f host path = (f', Some n)"
      by (cases "draw hash f host path") auto
    obtain out1 applied where app: "apply_effect hash (af_spec f) n out = (out1, applied)"
      by fastforce
    let ?out2 = "if applied then out1\<lparr>rq_ids := rq_ids out1 @ [nf_id (af_spec f)]\<rparr> else out1"
    have hits: "hits_of hash host path (f # fs) = (af_spec f, n) # hits_of hash host path fs"
      using False draw by (simp add: hits_of_def fault_draw_def)
    have eff: "rq_error_status ?out2 = or_else (rq_error_status out) (error_of (af_spec f, n))"
      "rq_body ?out2 = or_else (rq_body out) (body_of (af_spec f, n))"
      "rq_delay_ms ?out2 = (rq_delay_ms out + delay_of hash (af_spec f, n)) mod 2 ^ 64"
      using app Cons.prems
      by (auto simp: apply_effect_def or_else_def u64_add_def mod_simps split: net_fault_effect.splits
          if_splits option.splits)
    have "rq_delay_ms ?out2 < 2 ^ 64"
      unfolding eff by simp
    note IH = Cons.IH [OF this]
    have step: "for_request_loop hash host path (f # fs) out =
        (f' # fst (for_request_loop hash host path fs ?out2), snd (for_request_loop hash host path fs ?out2))"
      using False draw app by (simp add: case_prod_beta Let_def)
    show ?thesis
      unfolding step hits
      using IH False draw
      by (simp only: Let_def case_prod_beta fst_conv snd_conv eff list.map sum_list.Cons first_some.simps)
         (auto simp: or_else_def mod_simps add.assoc split: option.splits)
  qed
qed

text \<open>
  The faults of a proxy act on a request as documented: every fault draws for itself,
  latencies add up, and the first error status and the first body fault in installation order win.
\<close>

theorem faults_combine:
  assumes "for_request hash fs host path = (fs', out)"
  shows "fs' = map (\<lambda>f. if nf_effect (af_spec f) = TlsFailure then f else fst (draw hash f host path)) fs \<and>
    rq_error_status out = first_some error_of (hits_of hash host path fs) \<and>
    rq_body out = first_some body_of (hits_of hash host path fs) \<and>
    rq_delay_ms out = sum_list (map (delay_of hash) (hits_of hash host path fs)) mod 2 ^ 64"
  using for_request_loop_meaning [of request_faults_default hash host path fs] assms
  by (simp add: for_request_def request_faults_default_def or_else_def Let_def)

definition sample_fault :: "net_fault_effect \<Rightarrow> active_net_fault" where
  "sample_fault effect = fault_new \<lparr>nf_id = ''f'', nf_host = None, nf_path = None, nf_percent = 100,
     nf_seed = 3, nf_effect = effect\<rparr>"

theorem faults_combine_witness:
  "\<exists>fs out. for_request (\<lambda>_. [7]) (map sample_fault [Latency 5 0, ErrorStatus 500, Latency 10 0, ErrorStatus 404])
      ''h'' ''/'' = (fs, out) \<and> rq_error_status out = Some 500 \<and> rq_delay_ms out = 15"
proof -
  let ?fs = "map sample_fault [Latency 5 0, ErrorStatus 500, Latency 10 0, ErrorStatus 404]"
  obtain fs out where run: "for_request (\<lambda>_. [7]) ?fs ''h'' ''/'' = (fs, out)"
    by fastforce
  then show ?thesis
    using faults_combine [OF run]
    by (simp add: hits_of_def fault_draw_def sample_fault_def fault_new_def draw_def scope_matches_def
        fault_hits_def jitter_ms_def Let_def)
qed

section \<open>What a sabotaged body delivers\<close>

text \<open>The bytes a reader gets before the first error.\<close>

fun delivered :: "chunk list \<Rightarrow> byte list" where
  "delivered [] = []"
| "delivered (Data bs # chunks) = bs @ delivered chunks"
| "delivered (ReadError # chunks) = []"

lemma delivered_append: "ReadError \<notin> set xs \<Longrightarrow> delivered (xs @ ys) = delivered xs @ delivered ys"
  by (induction xs rule: delivered.induct) auto

lemma delivered_limit: "delivered (limit_chunks chunks n) = take n (delivered chunks)"
  by (induction chunks n rule: limit_chunks.induct) (simp_all add: min_def)

lemma concat_slices: "0 < n \<Longrightarrow> concat (slices n bs) = bs"
proof (induction n bs rule: slices.induct)
  case (1 n bs)
  then show ?case
    by (subst slices.simps) auto
qed

lemma slices_short: "piece \<in> set (slices n bs) \<Longrightarrow> length piece \<le> n"
proof (induction n bs rule: slices.induct)
  case (1 n bs)
  then show ?case
    by (subst (asm) (2) slices.simps) (auto split: if_splits)
qed

lemma delivered_data: "delivered (map Data bss @ chunks) = concat bss @ delivered chunks"
  by (induction bss) auto

lemma delivered_pieces: "0 < n \<Longrightarrow> delivered (concat (map (chunk_pieces n) body)) = delivered body"
proof (induction body)
  case (Cons c body)
  then show ?case
    by (cases c) (simp_all add: delivered_data concat_slices)
qed simp

lemma delivered_reset: "delivered (chunks @ [ReadError]) = delivered chunks"
  by (induction chunks rule: delivered.induct) auto

text \<open>
  Under a bandwidth fault the reader gets the whole body; a reset delivers exactly
  the bytes asked for (or the whole body when it is shorter) and always ends in an error; a
  truncation delivers exactly the bytes asked for, and for a body that is read without error the
  length advertised is the length delivered, so the app takes it for the complete body.
\<close>

theorem sabotage_delivers:
  "delivered (map snd (fst (sabotage body (BodyBandwidth rate) len))) = delivered body \<and>
   delivered (map snd (fst (sabotage body (BodyReset n) len))) = take n (delivered body) \<and>
   snd (last (fst (sabotage body (BodyReset n) len))) = ReadError \<and>
   delivered (map snd (fst (sabotage body (BodyTruncate n) len))) = take n (delivered body) \<and>
   snd (sabotage body (BodyTruncate n) (Some (length (delivered body)))) =
     Some (length (delivered (map snd (fst (sabotage body (BodyTruncate n) (Some (length (delivered body))))))))"
  by (simp add: sabotage_def Let_def comp_def delivered_pieces delivered_limit delivered_reset)

text \<open>
  The pause of a slice is rounded down to whole milliseconds, so a body that
  arrives in chunks of less than a thousandth of the rate is not slowed down at all.
\<close>

theorem small_chunks_unthrottled:
  assumes "\<forall>bs. Data bs \<in> set body \<longrightarrow> length bs * 1000 < rate"
  shows "\<forall>(pause, piece) \<in> set (fst (sabotage body (BodyBandwidth rate) len)). pause = 0"
proof -
  have short: "length piece \<le> length bs" if "piece \<in> set (slices n bs)" for piece n and bs :: "byte list"
    using that
  proof (induction n bs rule: slices.induct)
    case (1 n bs)
    then show ?case
      by (subst (asm) (2) slices.simps) (auto split: if_splits)
  qed
  have "piece_millis rate piece = 0" if pc: "piece \<in> set (chunk_pieces n c)" and elem: "c \<in> set body" for piece n c
  proof (cases c)
    case (Data bs)
    then obtain bs' where "piece = Data bs'" "bs' \<in> set (slices n bs)"
      using pc Data by auto
    then show ?thesis
      using short [of bs' n bs] assms elem Data by (fastforce simp: div_eq_0_iff)
  next
    case ReadError
    then show ?thesis using pc by simp
  qed
  then show ?thesis
    by (auto simp: sabotage_def Let_def)
qed

theorem small_chunks_unthrottled_witness:
  "\<forall>(pause, piece) \<in> set (fst (sabotage (replicate 1000 (Data [1, 2, 3])) (BodyBandwidth 4000) None)). pause = 0"
  by (rule small_chunks_unthrottled) simp

end
