(* ===== verification/ProxyHttp.thy ===== *)
theory ProxyHttp
  imports NetFlow NetFault
begin

text \<open>
  The HTTP tools of the proxy (\<^verbatim>\<open>net/proxy.rs\<close>, \<^verbatim>\<open>net/mod.rs\<close>): header lines and their mutation,
  the headers sent upstream, responses and whether they may carry a body, bodies read under a cap,
  bounded decompression, URL rewriting, host scoping and the replay of peeked bytes.

  A \<open>HeaderMap\<close> is kept as its field lines in insertion order. A body stream is the list of its
  chunks; an answer's body is the list of its chunks with the pause before each.
\<close>

section \<open>What the proxy calls outside the repository\<close>

datatype codec = GzipCodec | ZlibCodec | DeflateCodec | BrotliCodec | ZstdCodec

record url_parts =
  up_scheme :: string
  up_host :: "string option"
  up_port :: "nat option"
  up_path :: string
  up_query :: "string option"

text \<open>
  \<open>hx_regex_match\<close> is None for a pattern that does not compile. A decoder yields the bytes it can
  produce and whether it reaches the end without an error; None if it cannot be created. \<open>up_port\<close>
  is \<open>port_or_known_default\<close>.
\<close>

record http_ext =
  hx_rule :: rule_ext
  hx_regex_match :: "string \<Rightarrow> string \<Rightarrow> bool option"
  hx_regex_replace :: "string \<Rightarrow> string \<Rightarrow> string \<Rightarrow> string"
  hx_header_name :: "string \<Rightarrow> string option"
  hx_header_value :: "string \<Rightarrow> bool"
  hx_decoder :: "codec \<Rightarrow> byte list \<Rightarrow> (byte list \<times> bool) option"
  hx_url :: "string \<Rightarrow> url_parts option"

abbreviation hx_lower :: "http_ext \<Rightarrow> string \<Rightarrow> string" where
  "hx_lower ext \<equiv> rx_lowercase (hx_rule ext)"

section \<open>Header lines\<close>

type_synonym headers = "(string \<times> string) list"

definition header_pairs :: "(string \<times> byte list) list \<Rightarrow> headers" where
  "header_pairs h = map (\<lambda>(k, v). (k, from_utf8_lossy v)) h"

definition set_header_vec :: "headers \<Rightarrow> string \<Rightarrow> string \<Rightarrow> headers" where
  "set_header_vec headers name value =
     filter (\<lambda>(candidate, v). \<not> eq_ignore_ascii_case candidate name) headers @ [(name, value)]"

definition is_hop_by_hop :: "string \<Rightarrow> bool" where
  "is_hop_by_hop name \<longleftrightarrow>
     name \<in> set [''connection'', ''proxy-connection'', ''keep-alive'', ''proxy-authenticate'',
       ''proxy-authorization'', ''transfer-encoding'', ''te'', ''trailer'', ''upgrade'']"

definition connection_nominated_headers :: "headers \<Rightarrow> string list" where
  "connection_nominated_headers headers =
     map to_ascii_lowercase (filter (\<lambda>name. name \<noteq> []) (map str_trim
       (concat (map (\<lambda>(name, value). split_on CHR '','' value)
         (filter (\<lambda>(name, value). eq_ignore_ascii_case name ''connection'' \<or>
                    eq_ignore_ascii_case name ''proxy-connection'') headers)))))"

definition content_length :: "headers \<Rightarrow> nat option" where
  "content_length headers =
     (case header_get headers ''content-length'' of
        None \<Rightarrow> None | Some v \<Rightarrow> parse_unsigned 64 (str_trim v))"

definition replace_content_length :: "headers \<Rightarrow> nat option \<Rightarrow> headers" where
  "replace_content_length headers len =
     filter (\<lambda>(name, v). \<not> eq_ignore_ascii_case name ''content-length'') headers @
     (case len of None \<Rightarrow> [] | Some n \<Rightarrow> [(''content-length'', dec_digits n)])"

definition is_streaming_content_type :: "http_ext \<Rightarrow> headers \<Rightarrow> bool" where
  "is_streaming_content_type ext headers \<longleftrightarrow>
     (case content_type (hx_rule ext) headers of
        None \<Rightarrow> False
      | Some ct \<Rightarrow> ct = ''text/event-stream'' \<or> ct = ''multipart/x-mixed-replace'' \<or>
                   starts_with ct ''application/grpc'')"

text \<open>The lines of \<open>upstream_headers\<close> that survive, with the names \<open>HeaderName\<close> normalises.\<close>

definition upstream_line :: "http_ext \<Rightarrow> bool \<Rightarrow> bool \<Rightarrow> string list \<Rightarrow> string \<times> string \<Rightarrow> headers" where
  "upstream_line ext anticache anticomp nominated line =
     (let lname = hx_lower ext (fst line) in
      if is_hop_by_hop lname \<or> lname \<in> set nominated \<or> lname = ''host'' \<or> lname = ''content-length'' then []
      else if anticache \<and> (lname = ''if-none-match'' \<or> lname = ''if-modified-since'') then []
      else if anticomp \<and> lname = ''accept-encoding'' then []
      else case hx_header_name ext (fst line) of
             None \<Rightarrow> []
           | Some name \<Rightarrow> if hx_header_value ext (snd line) then [(name, snd line)] else [])"

definition header_insert :: "headers \<Rightarrow> string \<Rightarrow> string \<Rightarrow> headers" where
  "header_insert headers name value = filter (\<lambda>(n, v). n \<noteq> name) headers @ [(name, value)]"

definition upstream_headers ::
  "http_ext \<Rightarrow> headers \<Rightarrow> bool \<Rightarrow> bool \<Rightarrow> nat option \<Rightarrow> headers" where
  "upstream_headers ext req_headers anticache anticomp len =
     (let nominated = connection_nominated_headers req_headers;
          lines = concat (map (upstream_line ext anticache anticomp nominated) req_headers);
          lines = (if anticomp then header_insert lines ''accept-encoding'' ''identity'' else lines)
      in case len of
           None \<Rightarrow> lines
         | Some n \<Rightarrow> if hx_header_value ext (dec_digits n)
                     then header_insert lines ''content-length'' (dec_digits n) else lines)"

section \<open>Mutations of a held flow\<close>

record mutation =
  mu_set_status :: "nat option"
  mu_set_headers :: headers
  mu_remove_headers :: "string list"
  mu_body :: "byte list option"
  mu_replace :: "(string \<times> string) option"
  mu_delay_ms :: "nat option"
  mu_set_url :: "string option"

definition mutation_default :: mutation where
  "mutation_default = \<lparr>mu_set_status = None, mu_set_headers = [], mu_remove_headers = [],
     mu_body = None, mu_replace = None, mu_delay_ms = None, mu_set_url = None\<rparr>"

definition is_noop :: "mutation \<Rightarrow> bool" where
  "is_noop m \<longleftrightarrow>
     mu_set_status m = None \<and> mu_set_headers m = [] \<and> mu_remove_headers m = [] \<and>
     mu_body m = None \<and> mu_replace m = None \<and> mu_delay_ms m = None \<and> mu_set_url m = None"

definition remove_header :: "headers \<Rightarrow> string \<Rightarrow> headers" where
  "remove_header headers name = filter (\<lambda>(k, v). \<not> eq_ignore_ascii_case k name) headers"

definition apply_header_mutations :: "headers \<Rightarrow> mutation \<Rightarrow> headers" where
  "apply_header_mutations headers m =
     foldl (\<lambda>hs (name, value). set_header_vec hs name value)
       (foldl remove_header headers (mu_remove_headers m)) (mu_set_headers m)"

definition is_response_framing_header :: "string \<Rightarrow> bool" where
  "is_response_framing_header name \<longleftrightarrow>
     to_ascii_lowercase name \<in> set [''content-encoding'', ''content-length'', ''transfer-encoding'']"

definition remove_response_header :: "headers \<times> bool \<Rightarrow> string \<Rightarrow> headers \<times> bool" where
  "remove_response_header st name =
     (let (headers, modified) = st in
      if is_response_framing_header name then st
      else let rest = remove_header headers name
           in (rest, modified \<or> length rest \<noteq> length headers))"

definition set_response_header :: "headers \<times> bool \<Rightarrow> string \<times> string \<Rightarrow> headers \<times> bool" where
  "set_response_header st line =
     (if is_response_framing_header (fst line) then st
      else (set_header_vec (fst st) (fst line) (snd line), True))"

definition apply_response_header_mutations :: "headers \<Rightarrow> mutation \<Rightarrow> headers \<times> bool" where
  "apply_response_header_mutations headers m =
     foldl set_response_header
       (foldl remove_response_header (headers, False) (mu_remove_headers m)) (mu_set_headers m)"

definition body_validators :: "string list" where
  "body_validators = [''content-md5'', ''digest'', ''content-digest'', ''repr-digest'', ''etag'',
     ''last-modified'', ''content-range'', ''accept-ranges'']"

definition strip_body_validators :: "headers \<Rightarrow> headers" where
  "strip_body_validators headers =
     filter (\<lambda>(name, v). to_ascii_lowercase name \<notin> set body_validators) headers"

definition apply_body_mutation :: "http_ext \<Rightarrow> byte list \<Rightarrow> mutation \<Rightarrow> byte list" where
  "apply_body_mutation ext body m =
     (case mu_body m of
        Some b \<Rightarrow> b
      | None \<Rightarrow>
          (case mu_replace m of
             None \<Rightarrow> body
           | Some (re, repl) \<Rightarrow>
               (case from_utf8 body of
                  None \<Rightarrow> body
                | Some txt \<Rightarrow>
                    if hx_regex_match ext re txt = Some True
                    then str_bytes (hx_regex_replace ext re repl txt) else body)))"

definition apply_request_mutation ::
  "http_ext \<Rightarrow> string \<Rightarrow> headers \<Rightarrow> byte list \<Rightarrow> mutation \<Rightarrow> (string \<times> headers \<times> byte list) \<times> bool" where
  "apply_request_mutation ext url headers body m =
     (let url' = (case mu_set_url m of None \<Rightarrow> url | Some u \<Rightarrow> u);
          body' = apply_body_mutation ext body m
      in ((url', apply_header_mutations headers m, body'), body' \<noteq> body))"

definition apply_response_mutation ::
  "http_ext \<Rightarrow> nat option \<Rightarrow> headers \<Rightarrow> byte list \<Rightarrow> mutation \<Rightarrow> bool \<Rightarrow>
   (nat option \<times> headers \<times> byte list) \<times> bool" where
  "apply_response_mutation ext status headers body m allow_body =
     (let status' = (case mu_set_status m of None \<Rightarrow> status | Some s \<Rightarrow> Some s);
          mod1 = (mu_set_status m \<noteq> None);
          (headers1, mod2) = (if mu_remove_headers m \<noteq> [] \<or> mu_set_headers m \<noteq> []
                              then apply_response_header_mutations headers m else (headers, False))
      in if allow_body \<and> (mu_body m \<noteq> None \<or> mu_replace m \<noteq> None) then
           (let body' = apply_body_mutation ext body m in
            if body' \<noteq> body then ((status', strip_body_validators headers1, body'), True)
            else ((status', headers1, body'), mod1 \<or> mod2))
         else ((status', headers1, body), mod1 \<or> mod2))"

section \<open>Responses\<close>

record http_response =
  hr_status :: nat
  hr_headers :: headers
  hr_body :: "(nat \<times> chunk) list"

definition full_body :: "byte list \<Rightarrow> chunk list" where
  "full_body bs = (if bs = [] then [] else [Data bs])"

definition at_once :: "chunk list \<Rightarrow> (nat \<times> chunk) list" where
  "at_once cs = map (Pair 0) cs"

definition status_forbids_body :: "nat \<Rightarrow> bool" where
  "status_forbids_body status \<longleftrightarrow> (100 \<le> status \<and> status < 200) \<or> status = 204 \<or> status = 304"

definition response_allows_body :: "string \<Rightarrow> nat \<Rightarrow> bool" where
  "response_allows_body method status \<longleftrightarrow> method \<noteq> ''HEAD'' \<and> \<not> status_forbids_body status"

definition synthetic_response_length :: "nat \<Rightarrow> nat \<Rightarrow> nat option" where
  "synthetic_response_length status body_len = (if status_forbids_body status then None else Some body_len)"

definition client_lines :: "http_ext \<Rightarrow> headers \<Rightarrow> headers" where
  "client_lines ext headers =
     filter (\<lambda>(name, v). let lname = hx_lower ext name in
               \<not> (is_hop_by_hop lname \<or> lname \<in> set (connection_nominated_headers headers) \<or>
                  lname = ''content-length'' \<or> lname = ''transfer-encoding''))
       headers"

text \<open>
  \<open>response_with_body\<close>: the builder fails on a status outside 100-999 or a header line that is not
  valid, and the code then answers with an empty 200.
\<close>

definition response_with_body ::
  "http_ext \<Rightarrow> nat \<Rightarrow> headers \<Rightarrow> (nat \<times> chunk) list \<Rightarrow> nat option \<Rightarrow> http_response" where
  "response_with_body ext status headers body known =
     (let lines = client_lines ext headers in
      if 100 \<le> status \<and> status < 1000 \<and>
         list_all (\<lambda>(name, value). hx_header_name ext name \<noteq> None \<and> hx_header_value ext value) lines
      then \<lparr>hr_status = status,
            hr_headers = map (\<lambda>(name, value). (the (hx_header_name ext name), value)) lines @
              (case known of None \<Rightarrow> [] | Some n \<Rightarrow> [(''content-length'', dec_digits n)]),
            hr_body = body\<rparr>
      else \<lparr>hr_status = 200, hr_headers = [], hr_body = []\<rparr>)"

definition build_client_response :: "http_ext \<Rightarrow> nat \<Rightarrow> headers \<Rightarrow> byte list \<Rightarrow> http_response" where
  "build_client_response ext status headers body =
     response_with_body ext status headers (at_once (full_body body)) (Some (length body))"

definition build_client_response_for ::
  "http_ext \<Rightarrow> string \<Rightarrow> nat \<Rightarrow> headers \<Rightarrow> byte list \<Rightarrow> http_response" where
  "build_client_response_for ext method status headers body =
     (if response_allows_body method status then build_client_response ext status headers body
      else response_with_body ext status headers []
             (if method = ''HEAD'' \<and> \<not> status_forbids_body status then Some (length body) else None))"

definition build_replay_client_response ::
  "http_ext \<Rightarrow> string \<Rightarrow> nat \<Rightarrow> headers \<Rightarrow> byte list \<Rightarrow> nat option \<Rightarrow> http_response" where
  "build_replay_client_response ext method status headers body rep_len =
     (if method = ''HEAD'' then response_with_body ext status headers [] rep_len
      else build_client_response_for ext method status headers body)"

definition text_plain :: headers where
  "text_plain = [(''content-type'', ''text/plain; charset=utf-8'')]"

definition error_response_for :: "http_ext \<Rightarrow> string \<Rightarrow> nat \<Rightarrow> string \<Rightarrow> http_response" where
  "error_response_for ext method status msg =
     build_client_response_for ext method status text_plain (str_bytes (''shadowdroid proxy: '' @ msg))"

type_synonym synthetic = "nat \<times> headers \<times> byte list"

definition drop_response_parts :: "nat option \<Rightarrow> synthetic" where
  "drop_response_parts status =
     (case status of
        Some s \<Rightarrow> (s, [], [])
      | None \<Rightarrow> (502, text_plain, str_bytes ''shadowdroid proxy: dropped by net intercept''))"

definition drop_response :: "http_ext \<Rightarrow> string \<Rightarrow> nat option \<Rightarrow> http_response" where
  "drop_response ext method status =
     (let (s, headers, body) = drop_response_parts status
      in build_client_response_for ext method s headers body)"

section \<open>Bodies\<close>

definition BUFFER_CAP :: nat where
  "BUFFER_CAP = 8 * 1024 * 1024"

datatype body_read =
    Buffered "byte list"
  | Streamed "byte list list" "chunk list" "nat option"
  | BodyFailed

definition concat_chunks :: "byte list list \<Rightarrow> byte list" where
  "concat_chunks pieces = concat pieces"

fun read_chunks :: "chunk list \<Rightarrow> byte list list \<Rightarrow> nat \<Rightarrow> nat option \<Rightarrow> nat \<Rightarrow> body_read" where
  "read_chunks [] prefix sofar len_hint cap = Buffered (concat_chunks prefix)"
| "read_chunks (ReadError # rest) prefix sofar len_hint cap = BodyFailed"
| "read_chunks (Data chunk # rest) prefix sofar len_hint cap =
     (if cap < sofar + length chunk then Streamed (prefix @ [chunk]) rest len_hint
      else read_chunks rest (prefix @ [chunk]) (sofar + length chunk) len_hint cap)"

definition read_stream_capped :: "chunk list \<Rightarrow> bool \<Rightarrow> nat option \<Rightarrow> nat \<Rightarrow> body_read" where
  "read_stream_capped rest force_stream len_hint cap =
     (if force_stream then Streamed [] rest len_hint else read_chunks rest [] 0 len_hint cap)"

definition read_body_capped :: "http_ext \<Rightarrow> chunk list \<Rightarrow> headers \<Rightarrow> body_read" where
  "read_body_capped ext body headers =
     read_stream_capped body (is_streaming_content_type ext headers) (content_length headers) BUFFER_CAP"

definition streamed_body :: "byte list list \<Rightarrow> chunk list \<Rightarrow> chunk list" where
  "streamed_body prefix rest = map Data prefix @ rest"

section \<open>Decompression\<close>

datatype content_encoding = EncGzip | EncDeflate | EncBrotli | EncZstd

datatype encoding_disposition = IdentityEncoding | Supported content_encoding | Opaque

datatype decode_failure = Unsupported | InvalidData | TooLarge | Overloaded | DecodeWorkerFailed

datatype decode_outcome = DecodeIdentity | Decoded "byte list" | PassThrough decode_failure

definition encoding_disposition :: "headers \<Rightarrow> encoding_disposition" where
  "encoding_disposition headers =
     (case map (\<lambda>(name, value). str_trim value)
             (filter (\<lambda>(name, value). eq_ignore_ascii_case name ''content-encoding'') headers) of
        [] \<Rightarrow> IdentityEncoding
      | [value] \<Rightarrow>
          if eq_ignore_ascii_case value ''identity'' then IdentityEncoding
          else if eq_ignore_ascii_case value ''gzip'' \<or> eq_ignore_ascii_case value ''x-gzip'' then Supported EncGzip
          else if eq_ignore_ascii_case value ''deflate'' then Supported EncDeflate
          else if eq_ignore_ascii_case value ''br'' then Supported EncBrotli
          else if eq_ignore_ascii_case value ''zstd'' then Supported EncZstd
          else Opaque
      | _ \<Rightarrow> Opaque)"

text \<open>At most \<open>cap + 1\<close> bytes are read; a decoder that fails later is not noticed.\<close>

definition read_decoder_capped :: "(byte list \<times> bool) option \<Rightarrow> nat \<Rightarrow> decode_failure + byte list" where
  "read_decoder_capped decoder cap =
     (case decoder of
        None \<Rightarrow> Inl InvalidData
      | Some (produced, clean) \<Rightarrow>
          if length produced < cap + 1 \<and> \<not> clean then Inl InvalidData
          else let output = take (cap + 1) produced
               in if cap < length output then Inl TooLarge else Inr output)"

definition decode_capped ::
  "http_ext \<Rightarrow> content_encoding \<Rightarrow> byte list \<Rightarrow> nat \<Rightarrow> decode_outcome" where
  "decode_capped ext encoding body cap =
     (let read = (\<lambda>c. read_decoder_capped (hx_decoder ext c body) cap);
          decoded = (case encoding of
            EncGzip \<Rightarrow> read GzipCodec
          | EncDeflate \<Rightarrow> (if read ZlibCodec = Inl InvalidData then read DeflateCodec else read ZlibCodec)
          | EncBrotli \<Rightarrow> read BrotliCodec
          | EncZstd \<Rightarrow> read ZstdCodec)
      in case decoded of Inr plain \<Rightarrow> Decoded plain | Inl failure \<Rightarrow> PassThrough failure)"

text \<open>The worker pool: a free slot, none within the timeout, or a worker that panicked.\<close>

datatype decode_slot = SlotFree | SlotTimeout | SlotPanic

definition decompress_bounded ::
  "http_ext \<Rightarrow> decode_slot \<Rightarrow> headers \<Rightarrow> byte list \<Rightarrow> nat \<Rightarrow> decode_outcome" where
  "decompress_bounded ext slot headers body cap =
     (case encoding_disposition headers of
        IdentityEncoding \<Rightarrow> DecodeIdentity
      | Opaque \<Rightarrow> PassThrough Unsupported
      | Supported encoding \<Rightarrow>
          (case slot of
             SlotTimeout \<Rightarrow> PassThrough Overloaded
           | SlotPanic \<Rightarrow> PassThrough DecodeWorkerFailed
           | SlotFree \<Rightarrow> decode_capped ext encoding body cap))"

section \<open>URLs and hosts\<close>

fun find_sub :: "'a list \<Rightarrow> 'a list \<Rightarrow> nat option" where
  "find_sub [] needle = (if needle = [] then Some 0 else None)"
| "find_sub (c # cs) needle =
     (if take (length needle) (c # cs) = needle then Some 0 else map_option Suc (find_sub cs needle))"

definition trim_end_slashes :: "string \<Rightarrow> string" where
  "trim_end_slashes s = rev (dropWhile (\<lambda>c. c = CHR ''/'') (rev s))"

definition rewrite_url :: "string \<Rightarrow> string \<Rightarrow> string" where
  "rewrite_url url repl =
     (case find_sub url ''://'' of
        None \<Rightarrow> if str_contains repl ''://'' then repl else url
      | Some i \<Rightarrow>
          let scheme_end = i + 3;
              authority = takeWhile (\<lambda>c. c \<noteq> CHR ''/'') (drop scheme_end url);
              path = drop (scheme_end + length authority) url
          in if str_contains repl ''://'' then trim_end_slashes repl @ path
             else take scheme_end url @ repl @ path)"

definition effective_url_parts :: "http_ext \<Rightarrow> string \<Rightarrow> string \<Rightarrow> string \<Rightarrow> string \<times> string" where
  "effective_url_parts ext url fallback_host fallback_path =
     (case hx_url ext url of
        None \<Rightarrow> (fallback_host, fallback_path)
      | Some parsed \<Rightarrow>
          ((case up_host parsed of None \<Rightarrow> fallback_host | Some h \<Rightarrow> h),
           up_path parsed @ (case up_query parsed of None \<Rightarrow> [] | Some q \<Rightarrow> ''?'' @ q)))"

definition ends_with :: "string \<Rightarrow> string \<Rightarrow> bool" where
  "ends_with s suffix \<longleftrightarrow> starts_with (rev s) (rev suffix)"

definition host_glob_match :: "http_ext \<Rightarrow> string \<Rightarrow> string \<Rightarrow> bool" where
  "host_glob_match ext pattern host \<longleftrightarrow>
     (let p = hx_lower ext pattern; h = hx_lower ext host in
      if starts_with p ''*.'' then h = drop 2 p \<or> ends_with h (''.'' @ drop 2 p)
      else if str_contains p ''.'' then h = p \<or> ends_with h (''.'' @ p)
      else str_contains h p)"

definition host_in_scope :: "http_ext \<Rightarrow> string list \<Rightarrow> string \<Rightarrow> bool" where
  "host_in_scope ext filters host \<longleftrightarrow>
     filters = [] \<or> list_ex (\<lambda>f. host_glob_match ext f host) filters"

definition parse_capture_host_filter :: "string \<Rightarrow> string option" where
  "parse_capture_host_filter pattern =
     (let suffix = (if starts_with pattern ''*.'' then drop 2 pattern else pattern) in
      if pattern = [] \<or> list_ex char_is_whitespace (str_chars pattern) \<or> suffix = [] \<or>
         starts_with suffix ''.'' \<or> list_ex (\<lambda>c. c \<in> set ''*?[]{}'') suffix
      then None else Some pattern)"

definition validate_capture_host_filters :: "string list \<Rightarrow> string option" where
  "validate_capture_host_filters filters = find (\<lambda>f. parse_capture_host_filter f = None) filters"

text \<open>\<open>Rewind\<close>: peeked bytes are read again before the stream. A read asks for at most \<open>n\<close> bytes.\<close>

record rewind =
  rw_prefix :: "byte list"
  rw_pos :: nat

definition rewind_new :: "byte list \<Rightarrow> rewind" where
  "rewind_new prefix = \<lparr>rw_prefix = prefix, rw_pos = 0\<rparr>"

definition poll_read :: "nat \<Rightarrow> rewind \<Rightarrow> byte list \<Rightarrow> rewind \<times> byte list \<times> byte list" where
  "poll_read n r inner =
     (if rw_pos r < length (rw_prefix r) then
        (let k = min (length (rw_prefix r) - rw_pos r) n
         in (r\<lparr>rw_pos := rw_pos r + k\<rparr>, take k (drop (rw_pos r) (rw_prefix r)), inner))
      else (r, take n inner, drop n inner))"

section \<open>Bodies are passed on unchanged\<close>

fun chunk_bytes :: "chunk list \<Rightarrow> byte list" where
  "chunk_bytes [] = []"
| "chunk_bytes (Data bs # cs) = bs @ chunk_bytes cs"
| "chunk_bytes (ReadError # cs) = []"

lemma chunk_bytes_data [simp]: "chunk_bytes (map Data bss @ cs) = concat bss @ chunk_bytes cs"
  by (induction bss) auto

lemma chunk_bytes_full [simp]: "chunk_bytes (full_body bs) = bs"
  by (simp add: full_body_def)

lemma read_chunks_lossless:
  "sofar = length (concat prefix) \<Longrightarrow> sofar \<le> cap \<Longrightarrow>
   (case read_chunks stream prefix sofar hint cap of
      Buffered bs \<Rightarrow> bs = concat prefix @ chunk_bytes stream \<and> length bs \<le> cap \<and> ReadError \<notin> set stream
    | Streamed before rest h \<Rightarrow>
        streamed_body before rest = map Data prefix @ stream \<and> h = hint \<and> cap < length (concat before)
    | BodyFailed \<Rightarrow> ReadError \<in> set stream)"
proof (induction stream prefix sofar hint cap rule: read_chunks.induct)
  case (3 chunk rest prefix sofar len_hint cap)
  then show ?case
    by (auto simp: streamed_body_def split: body_read.splits)
qed (auto simp: concat_chunks_def)

lemma read_stream_lossless:
  "case read_stream_capped stream force hint cap of
     Buffered bs \<Rightarrow> bs = chunk_bytes stream \<and> length bs \<le> cap \<and> ReadError \<notin> set stream \<and> \<not> force
   | Streamed before rest h \<Rightarrow>
       streamed_body before rest = stream \<and> h = hint \<and> (force \<or> cap < length (concat before))
   | BodyFailed \<Rightarrow> ReadError \<in> set stream"
  using read_chunks_lossless [of 0 "[]" cap stream hint]
  by (auto simp: read_stream_capped_def streamed_body_def split: body_read.splits)

text \<open>
  Reading a body under a cap loses nothing. A buffered body is the whole stream, error-free and
  within the cap; a streamed one delivers, prefix and rest together, the very chunks of the original
  stream; a failure is reported only for a stream that has one.
\<close>

theorem body_read_lossless:
  "case read_stream_capped stream force hint cap of
     Buffered bs \<Rightarrow> bs = chunk_bytes stream \<and> length bs \<le> cap \<and> ReadError \<notin> set stream \<and> \<not> force
   | Streamed before rest h \<Rightarrow>
       streamed_body before rest = stream \<and> h = hint \<and> (force \<or> cap < length (concat before))
   | BodyFailed \<Rightarrow> ReadError \<in> set stream"
  by (rule read_stream_lossless)

section \<open>Decompression is bounded and complete\<close>

lemma read_decoder_capped_Inr:
  "read_decoder_capped decoder cap = Inr plain \<longleftrightarrow> decoder = Some (plain, True) \<and> length plain \<le> cap"
  by (auto simp: read_decoder_capped_def Let_def split: option.splits if_splits)

text \<open>
  A response is decoded only when a decoder of its one declared encoding reaches the end of the
  data within the cap; the proxy never continues with a truncated or failed decoding.
\<close>

theorem decoded_body_is_whole:
  assumes "decompress_bounded ext slot headers body cap = Decoded plain"
  shows "length plain \<le> cap \<and> slot = SlotFree \<and>
    (\<exists>value c. map snd (filter (\<lambda>(name, v). eq_ignore_ascii_case name ''content-encoding'') headers) = [value] \<and>
       hx_decoder ext c body = Some (plain, True) \<and>
       (c, to_ascii_lowercase (str_trim value)) \<in> {(GzipCodec, ''gzip''), (GzipCodec, ''x-gzip''), (ZlibCodec, ''deflate''),
         (DeflateCodec, ''deflate''), (BrotliCodec, ''br''), (ZstdCodec, ''zstd'')})"
proof -
  obtain enc where enc: "encoding_disposition headers = Supported enc" "slot = SlotFree"
    and dec: "decode_capped ext enc body cap = Decoded plain"
    using assms by (auto simp: decompress_bounded_def split: encoding_disposition.splits decode_slot.splits)
  obtain line where line: "filter (\<lambda>(name, v). eq_ignore_ascii_case name ''content-encoding'') headers = [line]"
    and names: "(enc, to_ascii_lowercase (str_trim (snd line))) \<in> {(EncGzip, ''gzip''), (EncGzip, ''x-gzip''),
      (EncDeflate, ''deflate''), (EncBrotli, ''br''), (EncZstd, ''zstd'')}"
  proof -
    have lower: "to_ascii_lowercase ''gzip'' = ''gzip''" "to_ascii_lowercase ''x-gzip'' = ''x-gzip''"
      "to_ascii_lowercase ''deflate'' = ''deflate''" "to_ascii_lowercase ''br'' = ''br''"
      "to_ascii_lowercase ''zstd'' = ''zstd''"
      by code_simp+
    have "\<exists>line. filter (\<lambda>(name, v). eq_ignore_ascii_case name ''content-encoding'') headers = [line]"
      using enc(1) unfolding encoding_disposition_def by (auto split: list.splits)
    then obtain line where line: "filter (\<lambda>(name, v). eq_ignore_ascii_case name ''content-encoding'') headers = [line]" ..
    moreover have "(enc, to_ascii_lowercase (str_trim (snd line))) \<in> {(EncGzip, ''gzip''), (EncGzip, ''x-gzip''),
      (EncDeflate, ''deflate''), (EncBrotli, ''br''), (EncZstd, ''zstd'')}"
      using enc(1) unfolding encoding_disposition_def line
      by (auto simp: eq_ignore_ascii_case_def lower case_prod_unfold split: if_splits)
    ultimately show thesis by (rule that)
  qed
  have "\<exists>c. hx_decoder ext c body = Some (plain, True) \<and> length plain \<le> cap \<and>
      (c, enc) \<in> {(GzipCodec, EncGzip), (ZlibCodec, EncDeflate), (DeflateCodec, EncDeflate), (BrotliCodec, EncBrotli),
        (ZstdCodec, EncZstd)}"
    using dec by (auto simp: decode_capped_def Let_def read_decoder_capped_Inr
        split: content_encoding.splits sum.splits if_splits)
  then show ?thesis
    using line names enc(2) by auto
qed

section \<open>Header lines of an answer\<close>

lemma client_lines_hop:
  "(name, v) \<in> set (client_lines ext headers) \<Longrightarrow>
   \<not> is_hop_by_hop (hx_lower ext name) \<and> hx_lower ext name \<noteq> ''content-length''"
  by (auto simp: client_lines_def Let_def)

section \<open>Peeked bytes\<close>

text \<open>Reading through a rewound stream gives the prefix and then the stream, whatever sizes are asked for.\<close>

fun poll_reads :: "nat list \<Rightarrow> rewind \<Rightarrow> byte list \<Rightarrow> rewind \<times> byte list \<times> byte list" where
  "poll_reads [] r inner = (r, [], inner)"
| "poll_reads (n # ns) r inner =
     (let (r1, got, inner1) = poll_read n r inner;
          (r2, more, inner2) = poll_reads ns r1 inner1
      in (r2, got @ more, inner2))"

lemma poll_read_bytes:
  "poll_read n r inner = (r', got, inner') \<Longrightarrow>
   got @ drop (rw_pos r') (rw_prefix r') @ inner' = drop (rw_pos r) (rw_prefix r) @ inner"
  by (auto simp: poll_read_def Let_def min_def split: if_splits)
    (metis append_take_drop_id append.assoc drop_drop add.commute)+

lemma poll_reads_bytes:
  "poll_reads ns r inner = (r', got, inner') \<Longrightarrow>
   got @ drop (rw_pos r') (rw_prefix r') @ inner' = drop (rw_pos r) (rw_prefix r) @ inner"
proof (induction ns arbitrary: r inner got)
  case Nil
  then show ?case by simp
next
  case (Cons n ns)
  obtain r1 g1 i1 where 1: "poll_read n r inner = (r1, g1, i1)"
    by (cases "poll_read n r inner")
  obtain g2 where 2: "poll_reads ns r1 i1 = (r', g2, inner')" "got = g1 @ g2"
    using Cons.prems 1 by (auto simp: Let_def split: prod.splits)
  show ?case
    using Cons.IH [OF 2(1)] poll_read_bytes [OF 1] 2(2) by simp
qed

lemma rewind_lossless:
  "poll_reads ns (rewind_new prefix) inner = (r', got, inner') \<Longrightarrow>
   got @ drop (rw_pos r') (rw_prefix r') @ inner' = prefix @ inner"
  by (drule poll_reads_bytes) (simp add: rewind_new_def)

end
