(* ===== verification/ReplayKey.thy ===== *)
theory ReplayKey
  imports ProxyHttp "HOL-Library.Product_Lexorder" "HOL-Library.Option_ord"
begin

text \<open>
  The identity of a request for replay (\<^verbatim>\<open>net/replay.rs\<close>): canonical method, scheme, host, target,
  GraphQL operation and body digest, and the validation of a key that comes from a file or from the
  wire. Matching is exact equality of keys, so two requests replay alike precisely when their keys
  agree.

  An error is the fixed part of the message the code gives. SHA-256, percent coding, JSON text and
  the syntax checks of the \<^verbatim>\<open>http\<close> crate are the record \<open>replay_ext\<close>.
\<close>

section \<open>What the code calls outside the repository\<close>

text \<open>
  \<open>re_decode\<close> is None when the decoded bytes are not UTF-8. \<open>re_sha\<close> is the digest in lower-case
  hexadecimal.
\<close>

record replay_ext =
  re_http :: http_ext
  re_method :: "string \<Rightarrow> bool"
  re_authority :: "string \<Rightarrow> bool"
  re_encode :: "string \<Rightarrow> string"
  re_decode :: "string \<Rightarrow> string option"
  re_sha :: "byte list \<Rightarrow> string"
  re_json_bytes :: "json \<Rightarrow> byte list"

abbreviation re_parse_json :: "replay_ext \<Rightarrow> byte list \<Rightarrow> json option" where
  "re_parse_json ext \<equiv> rx_parse_json (hx_rule (re_http ext))"

type_synonym 'a outcome = "string + 'a"

definition ensure :: "bool \<Rightarrow> string \<Rightarrow> 'a outcome \<Rightarrow> 'a outcome" where
  "ensure c msg rest = (if c then rest else Inl msg)"

definition and_then :: "'a outcome \<Rightarrow> ('a \<Rightarrow> 'b outcome) \<Rightarrow> 'b outcome" where
  "and_then x f = (case x of Inl e \<Rightarrow> Inl e | Inr a \<Rightarrow> f a)"

lemma ensure_Inr [simp]: "ensure c msg rest = Inr r \<longleftrightarrow> c \<and> rest = Inr r"
  by (simp add: ensure_def)

lemma and_then_Inr [simp]: "and_then x f = Inr r \<longleftrightarrow> (\<exists>a. x = Inr a \<and> f a = Inr r)"
  by (simp add: and_then_def split: sum.splits)

lemma ensure_True [simp]: "ensure True msg rest = rest"
  by (simp add: ensure_def)

lemma and_then_pass [simp]: "and_then (Inr a) f = f a" "and_then (Inl e) f = Inl e"
  by (simp_all add: and_then_def)

section \<open>Canonical parts\<close>

definition ascii_upper_char :: "char \<Rightarrow> char" where
  "ascii_upper_char c =
     (let n = (of_char c :: nat) in if 97 \<le> n \<and> n \<le> 122 then char_of (n - 32) else c)"

definition to_ascii_uppercase :: "string \<Rightarrow> string" where
  "to_ascii_uppercase s = map ascii_upper_char s"

definition has_char :: "(nat \<Rightarrow> bool) \<Rightarrow> string \<Rightarrow> bool" where
  "has_char p s \<longleftrightarrow> list_ex p (str_chars s)"

definition normalize_method :: "replay_ext \<Rightarrow> string \<Rightarrow> string outcome" where
  "normalize_method ext m =
     (let trimmed = str_trim m in
      ensure (trimmed \<noteq> []) ''HTTP method is empty''
       (ensure (re_method ext trimmed) ''invalid HTTP method'' (Inr (to_ascii_uppercase trimmed))))"

definition normalize_scheme :: "string \<Rightarrow> string outcome" where
  "normalize_scheme s =
     (let normalized = to_ascii_lowercase (str_trim s) in
      ensure (normalized = ''http'' \<or> normalized = ''https'') ''unsupported replay scheme'' (Inr normalized))"

definition default_port_for_scheme :: "string \<Rightarrow> nat outcome" where
  "default_port_for_scheme s =
     (let scheme = to_ascii_lowercase (str_trim s) in
      if scheme = ''http'' then Inr 80 else if scheme = ''https'' then Inr 443
      else Inl ''unsupported replay scheme'')"

definition strip_brackets :: "string \<Rightarrow> string" where
  "strip_brackets s =
     (if starts_with s ''['' \<and> ends_with s '']'' then butlast (tl s) else s)"

definition strip_dot :: "string \<Rightarrow> string" where
  "strip_dot s = (if ends_with s ''.'' then butlast s else s)"

definition normalize_host :: "replay_ext \<Rightarrow> string \<Rightarrow> string outcome" where
  "normalize_host ext host =
     (let normalized = strip_dot (strip_brackets (to_ascii_lowercase (str_trim host)));
          authority = (if CHR '':'' \<in> set normalized then ''['' @ normalized @ '']:1'' else normalized @ '':1'')
      in ensure (normalized \<noteq> []) ''host is empty''
          (ensure (\<not> has_char char_is_whitespace normalized \<and> CHR ''/'' \<notin> set normalized \<and>
                   CHR ''?'' \<notin> set normalized \<and> CHR ''#'' \<notin> set normalized) ''invalid replay host''
            (ensure (re_authority ext authority) ''invalid replay host'' (Inr normalized))))"

section \<open>Targets and queries\<close>

definition is_hexdigit :: "char \<Rightarrow> bool" where
  "is_hexdigit c \<longleftrightarrow> hex_value c \<noteq> None"

fun percents_ok :: "string \<Rightarrow> bool" where
  "percents_ok [] = True"
| "percents_ok (c # cs) =
     (if c = CHR ''%'' then
        (case cs of h1 # h2 # rest \<Rightarrow> is_hexdigit h1 \<and> is_hexdigit h2 \<and> percents_ok rest | _ \<Rightarrow> False)
      else percents_ok cs)"

definition decode_query_component :: "replay_ext \<Rightarrow> string \<Rightarrow> string outcome" where
  "decode_query_component ext value =
     ensure (percents_ok value) ''invalid percent-encoding in query component''
       (case re_decode ext (map (\<lambda>c. if c = CHR ''+'' then CHR '' '' else c) value) of
          None \<Rightarrow> Inl ''invalid percent-encoding in query component''
        | Some s \<Rightarrow> Inr s)"

text \<open>\<open>str::split_once\<close> for one separator character.\<close>

fun split_once :: "char \<Rightarrow> string \<Rightarrow> (string \<times> string) option" where
  "split_once sep [] = None"
| "split_once sep (c # cs) =
     (if c = sep then Some ([], cs) else map_option (\<lambda>(a, b). (c # a, b)) (split_once sep cs))"

definition query_pair :: "replay_ext \<Rightarrow> string \<Rightarrow> (string \<times> string) outcome" where
  "query_pair ext pair =
     (let (raw_key, raw_value) = (case split_once CHR ''='' pair of Some kv \<Rightarrow> kv | None \<Rightarrow> (pair, []))
      in and_then (decode_query_component ext raw_key) (\<lambda>k.
         and_then (decode_query_component ext raw_value) (\<lambda>v. Inr (k, v))))"

fun collect :: "'a outcome list \<Rightarrow> 'a list outcome" where
  "collect [] = Inr []"
| "collect (x # xs) = and_then x (\<lambda>a. and_then (collect xs) (\<lambda>as. Inr (a # as)))"

fun join_with :: "string \<Rightarrow> string list \<Rightarrow> string" where
  "join_with sep [] = []"
| "join_with sep [x] = x"
| "join_with sep (x # y # xs) = x @ sep @ join_with sep (y # xs)"

definition encode_pair :: "replay_ext \<Rightarrow> string \<times> string \<Rightarrow> string" where
  "encode_pair ext kv = re_encode ext (fst kv) @ ''='' @ re_encode ext (snd kv)"

definition canonical_query :: "replay_ext \<Rightarrow> string \<Rightarrow> string outcome" where
  "canonical_query ext query =
     (if query = [] then Inr []
      else and_then (collect (map (query_pair ext) (split_on CHR ''&'' query))) (\<lambda>pairs.
             Inr (join_with ''&'' (map (encode_pair ext) (sort pairs)))))"

definition split_target :: "replay_ext \<Rightarrow> string \<Rightarrow> (string \<times> string option) outcome" where
  "split_target ext target =
     ensure (starts_with target ''/'') ''request target must start with /''
      (ensure (CHR ''#'' \<notin> set target \<and> \<not> has_char char_is_control target)
         ''request target contains a fragment or control character''
        (case split_once CHR ''?'' target of
           Some (path, query) \<Rightarrow>
             and_then (canonical_query ext query) (\<lambda>q.
               ensure (path \<noteq> []) ''request path is empty'' (Inr (path, Some q)))
         | None \<Rightarrow> ensure (target \<noteq> []) ''request path is empty'' (Inr (target, None))))"

definition join_target :: "string \<Rightarrow> string option \<Rightarrow> string" where
  "join_target path query = (case query of Some q \<Rightarrow> path @ ''?'' @ q | None \<Rightarrow> path)"

section \<open>GraphQL operation and body\<close>

definition normalized_operation_name :: "string \<Rightarrow> string option outcome" where
  "normalized_operation_name value =
     (let trimmed = str_trim value in
      if trimmed = [] then Inr None
      else ensure (\<not> has_char char_is_control trimmed) ''GraphQL operation contains a control character''
             (Inr (Some trimmed)))"

text \<open>The first \<open>operationName\<close> parameter of a query decides; pairs after it are not decoded.\<close>

fun query_operation :: "replay_ext \<Rightarrow> string list \<Rightarrow> string option outcome option" where
  "query_operation ext [] = None"
| "query_operation ext (pair # pairs) =
     (let (raw_key, raw_value) = (case split_once CHR ''='' pair of Some kv \<Rightarrow> kv | None \<Rightarrow> (pair, []))
      in case decode_query_component ext raw_key of
           Inl e \<Rightarrow> Some (Inl e)
         | Inr key \<Rightarrow>
             if key = ''operationName''
             then Some (and_then (decode_query_component ext raw_value) normalized_operation_name)
             else query_operation ext pairs)"

fun find_json_operation_name :: "json \<Rightarrow> string option"
  and find_json_operation_names :: "json list \<Rightarrow> string option" where
  "find_json_operation_name (JObj kvs) =
     (case map_of kvs ''operationName'' of Some (JStr s) \<Rightarrow> Some s | _ \<Rightarrow> None)"
| "find_json_operation_name (JArr values) = find_json_operation_names values"
| "find_json_operation_name v = None"
| "find_json_operation_names [] = None"
| "find_json_operation_names (v # vs) =
     (case find_json_operation_name v of Some s \<Rightarrow> Some s | None \<Rightarrow> find_json_operation_names vs)"

definition graphql_operation_name :: "replay_ext \<Rightarrow> string option \<Rightarrow> byte list \<Rightarrow> string option outcome" where
  "graphql_operation_name ext query body =
     (case (case query of None \<Rightarrow> None | Some q \<Rightarrow> query_operation ext (split_on CHR ''&'' q)) of
        Some r \<Rightarrow> r
      | None \<Rightarrow>
          if body = [] then Inr None
          else case re_parse_json ext body of
                 None \<Rightarrow> Inr None
               | Some value \<Rightarrow>
                   (case find_json_operation_name value of
                      Some name \<Rightarrow> normalized_operation_name name
                    | None \<Rightarrow> Inr None))"

fun canonical_json :: "json \<Rightarrow> json"
  and canonical_fields :: "(string \<times> json) list \<Rightarrow> (string \<times> json) list"
  and canonical_items :: "json list \<Rightarrow> json list" where
  "canonical_json (JObj kvs) = jobj (canonical_fields kvs)"
| "canonical_json (JArr values) = JArr (canonical_items values)"
| "canonical_json JNull = JNull"
| "canonical_json (JBool b) = JBool b"
| "canonical_json (JInt i) = JInt i"
| "canonical_json (JFloat r) = JFloat r"
| "canonical_json (JStr s) = JStr s"
| "canonical_fields [] = []"
| "canonical_fields ((k, v) # kvs) = (k, canonical_json v) # canonical_fields kvs"
| "canonical_items [] = []"
| "canonical_items (v # vs) = canonical_json v # canonical_items vs"

definition canonical_request_body_sha256 :: "replay_ext \<Rightarrow> byte list \<Rightarrow> string" where
  "canonical_request_body_sha256 ext body =
     (case re_parse_json ext body of
        None \<Rightarrow> re_sha ext body
      | Some value \<Rightarrow> re_sha ext (re_json_bytes ext (canonical_json value)))"

section \<open>Keys\<close>

datatype replay_key = ReplayKey
  (rk_method: string) (rk_scheme: string) (rk_host: string) (rk_port: nat) (rk_path: string)
  (rk_query: "string option") (rk_operation: "string option") (rk_body_sha: string)

text \<open>The derived order compares the fields in turn.\<close>

definition key_fields ::
  "replay_key \<Rightarrow> string \<times> string \<times> string \<times> nat \<times> string \<times> string option \<times> string option \<times> string" where
  "key_fields k = (rk_method k, rk_scheme k, rk_host k, rk_port k, rk_path k, rk_query k, rk_operation k, rk_body_sha k)"

lemma key_fields_inject [simp]: "key_fields a = key_fields b \<longleftrightarrow> a = b"
  by (cases a; cases b) (simp add: key_fields_def)

instantiation replay_key :: linorder
begin

definition less_eq_replay_key :: "replay_key \<Rightarrow> replay_key \<Rightarrow> bool" where
  "less_eq_replay_key a b \<longleftrightarrow> key_fields a \<le> key_fields b"

definition less_replay_key :: "replay_key \<Rightarrow> replay_key \<Rightarrow> bool" where
  "less_replay_key a b \<longleftrightarrow> key_fields a < key_fields b"

instance
proof
  fix a b c :: replay_key
  show "a < b \<longleftrightarrow> a \<le> b \<and> \<not> b \<le> a"
    unfolding less_eq_replay_key_def less_replay_key_def by (rule less_le_not_le)
  show "a \<le> a"
    by (simp add: less_eq_replay_key_def)
  show "a \<le> b \<Longrightarrow> b \<le> c \<Longrightarrow> a \<le> c"
    unfolding less_eq_replay_key_def by (rule order_trans)
  show "a \<le> b \<Longrightarrow> b \<le> a \<Longrightarrow> a = b"
    unfolding less_eq_replay_key_def using order_antisym key_fields_inject by blast
  show "a \<le> b \<or> b \<le> a"
    unfolding less_eq_replay_key_def by (rule linear)
qed

end

definition is_sha256 :: "string \<Rightarrow> bool" where
  "is_sha256 s \<longleftrightarrow>
     length s = 64 \<and>
     list_all (\<lambda>c. let n = (of_char c :: nat) in (48 \<le> n \<and> n \<le> 57) \<or> (97 \<le> n \<and> n \<le> 102)) s"

definition validate_sha256 :: "string \<Rightarrow> unit outcome" where
  "validate_sha256 s = ensure (is_sha256 s) ''must be 64 lowercase hexadecimal characters'' (Inr ())"

definition validate_operation :: "string option \<Rightarrow> unit outcome" where
  "validate_operation op =
     (case op of
        None \<Rightarrow> Inr ()
      | Some s \<Rightarrow>
          ensure (str_trim s \<noteq> []) ''GraphQL operation is blank''
           (ensure (s = str_trim s \<and> \<not> has_char char_is_control s) ''GraphQL operation is not canonical''
             (Inr ())))"

definition validate_key :: "replay_ext \<Rightarrow> replay_key \<Rightarrow> unit outcome" where
  "validate_key ext k =
     and_then (normalize_method ext (rk_method k)) (\<lambda>m.
     ensure (rk_method k = m) ''method is not canonical''
     (and_then (normalize_scheme (rk_scheme k)) (\<lambda>s.
     ensure (rk_scheme k = s) ''scheme is not canonical''
     (and_then (normalize_host ext (rk_host k)) (\<lambda>h.
     ensure (rk_host k = h) ''host is not canonical''
     (ensure (rk_port k \<noteq> 0) ''port must be non-zero''
     (and_then (split_target ext (join_target (rk_path k) (rk_query k))) (\<lambda>(path, query).
     ensure (path = rk_path k \<and> query = rk_query k) ''path/query are not canonical''
     (and_then (validate_operation (rk_operation k)) (\<lambda>u. validate_sha256 (rk_body_sha k)))))))))))"

record replay_request =
  rq_method :: string
  rq_scheme :: string
  rq_host :: string
  rq_port :: nat
  rq_target :: string
  rq_bytes :: "byte list"

definition request_key :: "replay_ext \<Rightarrow> replay_request \<Rightarrow> replay_key outcome" where
  "request_key ext r =
     and_then (normalize_method ext (rq_method r)) (\<lambda>m.
     and_then (normalize_scheme (rq_scheme r)) (\<lambda>s.
     and_then (normalize_host ext (rq_host r)) (\<lambda>h.
     ensure (rq_port r \<noteq> 0) ''replay request port must be non-zero''
     (and_then (split_target ext (rq_target r)) (\<lambda>(path, query).
     and_then (graphql_operation_name ext query (rq_bytes r)) (\<lambda>op.
       let key = ReplayKey m s h (rq_port r) path query op (canonical_request_body_sha256 ext (rq_bytes r))
       in and_then (validate_key ext key) (\<lambda>u. Inr key)))))))"

end
