(* ===== verification/ReplayBundle.thy ===== *)
theory ReplayBundle
  imports ReplayKey
begin

text \<open>
  Replay bundles (\<^verbatim>\<open>net/replay.rs\<close>): recorded flows become a manifest and content-addressed response
  files, a manifest becomes a validated \<open>ReplaySet\<close>, a set goes to the daemon as a payload, and a
  live request is looked up in it. A \<open>BTreeMap\<close> is the sorted list of its entries.

  The text form of a manifest and of the entries (\<open>serde_json\<close>) is the record \<open>bundle_ext\<close>.
\<close>

section \<open>Data\<close>

record replay_source =
  so_flow :: flow_record
  so_port :: nat

record manifest_entry =
  me_method :: string
  me_scheme :: string
  me_host :: string
  me_port :: nat
  me_path :: string
  me_operation_name :: "string option"
  me_status :: nat
  me_request_content_type :: "string option"
  me_response_content_type :: "string option"
  me_response_file :: "string option"
  me_response_truncated :: bool
  me_match :: replay_key
  me_response_headers :: headers
  me_representation :: "nat option"
  me_response_bytes :: nat
  me_response_sha :: string

record replay_manifest =
  rm_artifact_type :: string
  rm_format_version :: nat
  rm_version :: nat
  rm_generated_by :: string
  rm_count :: nat
  rm_fixtures :: "manifest_entry list"

record stored_response =
  sp_status :: nat
  sp_headers :: headers
  sp_representation :: "nat option"
  sp_body :: string
  sp_sha :: string

type_synonym replay_entries = "(replay_key \<times> stored_response) list"

record replay_payload =
  ry_artifact_type :: string
  ry_format_version :: nat
  ry_active_sha :: string
  ry_entries :: replay_entries

record replay_set =
  st_entries :: replay_entries
  st_source_sha :: "string option"
  st_active_sha :: string
  st_source_count :: nat

datatype replay_lookup_result = Hit stored_response | Miss | Ambiguous nat

record built_bundle =
  bb_manifest :: replay_manifest
  bb_files :: "(string \<times> string) list"

record bundle_ext =
  be_replay :: replay_ext
  be_manifest_bytes :: "replay_manifest \<Rightarrow> byte list"
  be_parse_manifest :: "byte list \<Rightarrow> replay_manifest option"
  be_entries_bytes :: "replay_entries \<Rightarrow> byte list"
  be_version :: string

abbreviation be_http :: "bundle_ext \<Rightarrow> http_ext" where
  "be_http ext \<equiv> re_http (be_replay ext)"

abbreviation be_sha :: "bundle_ext \<Rightarrow> byte list \<Rightarrow> string" where
  "be_sha ext \<equiv> re_sha (be_replay ext)"

definition REPLAY_ARTIFACT_TYPE :: string where
  "REPLAY_ARTIFACT_TYPE = ''shadowdroid_replay_bundle''"

definition REPLAY_PAYLOAD_TYPE :: string where
  "REPLAY_PAYLOAD_TYPE = ''shadowdroid_replay_set''"

definition REPLAY_FORMAT_VERSION :: nat where
  "REPLAY_FORMAT_VERSION = 1"

definition MAX_MANIFEST_BYTES :: nat where
  "MAX_MANIFEST_BYTES = 8 * 1024 * 1024"

definition MAX_RESPONSE_BODY_BYTES :: nat where
  "MAX_RESPONSE_BODY_BYTES = BODY_CAP"

definition MAX_TOTAL_RESPONSE_BYTES :: nat where
  "MAX_TOTAL_RESPONSE_BYTES = 128 * 1024 * 1024"

definition MAX_REPLAY_ENTRIES :: nat where
  "MAX_REPLAY_ENTRIES = 10000"

section \<open>Response headers\<close>

definition is_managed_replay_header :: "string \<Rightarrow> bool" where
  "is_managed_replay_header name \<longleftrightarrow>
     name \<in> set [''content-length'', ''transfer-encoding'', ''connection'', ''proxy-connection'',
       ''keep-alive'', ''proxy-authenticate'', ''proxy-authorization'', ''upgrade'', ''trailer'', ''te'']"

fun nominated_tokens :: "http_ext \<Rightarrow> string list \<Rightarrow> string list outcome" where
  "nominated_tokens ext [] = Inr []"
| "nominated_tokens ext (token # tokens) =
     ensure (token \<noteq> []) ''Connection header contains a blank token''
      (ensure (hx_header_name ext token \<noteq> None) ''invalid Connection-nominated header''
        (and_then (nominated_tokens ext tokens) (\<lambda>names. Inr (to_ascii_lowercase token # names))))"

definition replay_nominated :: "http_ext \<Rightarrow> headers \<Rightarrow> string list outcome" where
  "replay_nominated ext headers =
     nominated_tokens ext
       (concat (map (\<lambda>(name, value). map str_trim (split_on CHR '','' value))
          (filter (\<lambda>(name, value). eq_ignore_ascii_case name ''connection'') headers)))"

definition header_syntax_ok :: "http_ext \<Rightarrow> headers \<Rightarrow> bool" where
  "header_syntax_ok ext headers \<longleftrightarrow>
     list_all (\<lambda>(name, value). hx_header_name ext name \<noteq> None \<and> hx_header_value ext value) headers"

definition unframed :: "string list \<Rightarrow> string \<Rightarrow> bool" where
  "unframed nominated name \<longleftrightarrow>
     (let lower = to_ascii_lowercase name in \<not> is_managed_replay_header lower \<and> lower \<notin> set nominated)"

definition validate_response_headers :: "http_ext \<Rightarrow> headers \<Rightarrow> unit outcome" where
  "validate_response_headers ext headers =
     and_then (replay_nominated ext headers) (\<lambda>nominated.
     ensure (header_syntax_ok ext headers) ''invalid HTTP response header''
      (ensure (list_all (\<lambda>(name, value). unframed nominated name) headers)
         ''replay response must not persist framing or hop-by-hop header'' (Inr ())))"

definition sanitize_response_headers :: "http_ext \<Rightarrow> headers \<Rightarrow> headers outcome" where
  "sanitize_response_headers ext headers =
     ensure (header_syntax_ok ext headers) ''invalid HTTP response header''
      (and_then (replay_nominated ext headers) (\<lambda>nominated.
        let sanitized = filter (\<lambda>(name, value). unframed nominated name) headers
        in and_then (validate_response_headers ext sanitized) (\<lambda>u. Inr sanitized)))"

section \<open>What a flow must be to be replayed\<close>

definition validate_status :: "nat \<Rightarrow> unit outcome" where
  "validate_status status = ensure (200 \<le> status \<and> status \<le> 599) ''invalid final HTTP status'' (Inr ())"

definition exact_request_body :: "flow_record \<Rightarrow> string outcome" where
  "exact_request_body f =
     (case fr_req_body f of
        Some body \<Rightarrow> ensure (length body = fr_req_len f) ''request body length mismatch'' (Inr body)
      | None \<Rightarrow> ensure (fr_req_len f = 0) ''request has no exact textual body'' (Inr []))"

definition is_head :: "flow_record \<Rightarrow> bool" where
  "is_head f \<longleftrightarrow> eq_ignore_ascii_case (fr_method f) ''HEAD''"

definition exact_response_body :: "flow_record \<Rightarrow> string outcome" where
  "exact_response_body f =
     (case fr_status f of
        None \<Rightarrow> Inl ''flow has no final response status''
      | Some status \<Rightarrow>
          let forbidden = (is_head f \<or> status_forbids_body status) in
          (case fr_resp_body f of
             Some body \<Rightarrow>
               ensure (\<not> forbidden \<or> body = []) ''response carries a body forbidden by method/status''
                (ensure (length body = fr_resp_len f) ''response body length mismatch''
                  (ensure (length body \<le> MAX_RESPONSE_BODY_BYTES) ''response body too large'' (Inr body)))
           | None \<Rightarrow>
               ensure (fr_resp_len f = 0 \<or> forbidden) ''response has no exact textual body'' (Inr [])))"

text \<open>Every advertised content-length of a HEAD response must be the same number.\<close>

fun agreed_length :: "string list \<Rightarrow> nat option \<Rightarrow> nat option outcome" where
  "agreed_length [] captured = Inr captured"
| "agreed_length (token # tokens) captured =
     ensure (token \<noteq> [] \<and> list_all (\<lambda>c. (48 :: nat) \<le> of_char c \<and> (of_char c :: nat) \<le> 57) token)
       ''HEAD response has invalid Content-Length''
       (case parse_unsigned 64 token of
          None \<Rightarrow> Inl ''HEAD response Content-Length is too large''
        | Some value \<Rightarrow>
            (case captured of
               Some existing \<Rightarrow>
                 ensure (existing = value) ''HEAD response has conflicting Content-Length values''
                   (agreed_length tokens captured)
             | None \<Rightarrow> agreed_length tokens (Some value)))"

definition captured_representation_content_length :: "flow_record \<Rightarrow> nat \<Rightarrow> nat option outcome" where
  "captured_representation_content_length f status =
     (if \<not> is_head f \<or> \<not> (200 \<le> status \<and> status < 400) then Inr None
      else agreed_length
        (concat (map (\<lambda>(name, value). map str_trim (split_on CHR '','' value))
          (filter (\<lambda>(name, value). eq_ignore_ascii_case name ''content-length'') (fr_resp_headers f)))) None)"

definition never_redacted :: "flow_record \<Rightarrow> bool" where
  "never_redacted f \<longleftrightarrow>
     fr_redaction_policy f = None \<and> fr_redaction_policy_version f = None \<and> \<not> fr_host_redacted f \<and>
     \<not> fr_path_redacted f \<and> \<not> fr_req_body_redacted f \<and> \<not> fr_resp_body_redacted f \<and> \<not> fr_error_redacted f"

definition validate_source_flow :: "replay_ext \<Rightarrow> flow_record \<Rightarrow> unit outcome" where
  "validate_source_flow ext f =
     ensure (fr_error f = None) ''flow has an upstream/capture error''
     (ensure (fr_status f \<noteq> None) ''flow has no final response status''
     (ensure (\<not> fr_req_streamed f) ''request body was streamed''
     (ensure (\<not> fr_req_truncated f) ''request body was truncated''
     (ensure (\<not> fr_request_body_modified f) ''request body was modified after replay lookup''
     (ensure (fr_original_url f = None) ''request was redirected by an interception''
     (ensure (\<not> fr_streamed f) ''response body was streamed or binary''
     (ensure (\<not> fr_resp_truncated f) ''response body was truncated''
     (ensure (never_redacted f) ''flow was redacted''
     (and_then (normalize_method ext (fr_method f)) (\<lambda>m.
     and_then (normalize_scheme (fr_scheme f)) (\<lambda>s.
     and_then (normalize_host ext (fr_host f)) (\<lambda>h.
     and_then (split_target ext (fr_path f)) (\<lambda>t.
     and_then (exact_request_body f) (\<lambda>rq.
     and_then (exact_response_body f) (\<lambda>rs.
     and_then (validate_status (the (fr_status f))) (\<lambda>u.
     and_then (sanitize_response_headers (re_http ext) (fr_resp_headers f)) (\<lambda>hs. Inr ())))))))))))))))))"

definition from_flow :: "flow_record \<Rightarrow> replay_source outcome" where
  "from_flow f =
     (case fr_port f of
        None \<Rightarrow> Inl ''flow has no effective port''
      | Some p \<Rightarrow> ensure (p \<noteq> 0) ''flow effective port must be non-zero'' (Inr \<lparr>so_flow = f, so_port = p\<rparr>))"

definition from_flow_or_default_port :: "flow_record \<Rightarrow> replay_source outcome" where
  "from_flow_or_default_port f =
     (if fr_port f \<noteq> None then from_flow f
      else and_then (default_port_for_scheme (fr_scheme f)) (\<lambda>p. Inr \<lparr>so_flow = f, so_port = p\<rparr>))"

definition request_of_flow :: "flow_record \<Rightarrow> nat \<Rightarrow> string \<Rightarrow> replay_request" where
  "request_of_flow f port body =
     \<lparr>rq_method = fr_method f, rq_scheme = fr_scheme f, rq_host = fr_host f, rq_port = port,
      rq_target = fr_path f, rq_bytes = str_bytes body\<rparr>"

definition key_from_flow :: "replay_ext \<Rightarrow> flow_record \<Rightarrow> nat \<Rightarrow> replay_key outcome" where
  "key_from_flow ext f port =
     and_then (exact_request_body f) (\<lambda>body. request_key ext (request_of_flow f port body))"

section \<open>Responses\<close>

definition validate_representation :: "replay_key \<Rightarrow> nat \<Rightarrow> nat option \<Rightarrow> unit outcome" where
  "validate_representation key status rep_len =
     (if rep_len \<noteq> None
      then ensure (rk_method key = ''HEAD'' \<and> 200 \<le> status \<and> status < 400 \<and>
                   (\<not> status_forbids_body status \<or> status = 304))
             ''representation_content_length is only valid for HEAD 2xx/3xx responses'' (Inr ())
      else Inr ())"

definition validate_runtime_response :: "replay_ext \<Rightarrow> replay_key \<Rightarrow> stored_response \<Rightarrow> unit outcome" where
  "validate_runtime_response ext key r =
     and_then (validate_status (sp_status r)) (\<lambda>u.
     and_then (validate_response_headers (re_http ext) (sp_headers r)) (\<lambda>u.
     and_then (validate_representation key (sp_status r) (sp_representation r)) (\<lambda>u.
     and_then (validate_sha256 (sp_sha r)) (\<lambda>u.
     ensure (length (sp_body r) \<le> MAX_RESPONSE_BODY_BYTES) ''response body too large''
     (ensure (re_sha ext (str_bytes (sp_body r)) = sp_sha r) ''response body SHA-256 does not match''
     (ensure (\<not> (rk_method key = ''HEAD'' \<or> status_forbids_body (sp_status r)) \<or> sp_body r = [])
        ''response body is forbidden by method/status'' (Inr ())))))))"

definition response_path :: "string \<Rightarrow> string" where
  "response_path sha = ''responses/'' @ sha"

definition validate_response_relative_path :: "string \<Rightarrow> string \<Rightarrow> unit outcome" where
  "validate_response_relative_path relative sha =
     and_then (validate_sha256 sha) (\<lambda>u.
     ensure (relative = response_path sha) ''response path is not the content-addressed path''
     (ensure (\<not> starts_with relative ''/'') ''response path must be relative''
     (ensure (list_all (\<lambda>c. c \<noteq> ''..'') (split_on CHR ''/'' relative) \<and> hd (split_on CHR ''/'' relative) \<noteq> ''.'')
        ''response path contains traversal or non-normal components'' (Inr ()))))"


section \<open>Building a bundle\<close>

definition stable_optional_min :: "string option \<Rightarrow> string option \<Rightarrow> string option" where
  "stable_optional_min a b =
     (case (a, b) of
        (Some x, Some y) \<Rightarrow> Some (min x y)
      | (Some x, None) \<Rightarrow> Some x
      | (None, y) \<Rightarrow> y)"

type_synonym bundle_entries = "(replay_key \<times> (manifest_entry \<times> string)) list"

definition stored_headers :: "replay_ext \<Rightarrow> flow_record \<Rightarrow> headers outcome" where
  "stored_headers ext f =
     and_then (sanitize_response_headers (re_http ext) (fr_resp_headers f)) (\<lambda>headers.
       let headers =
         (if list_ex (\<lambda>(name, v). eq_ignore_ascii_case name ''content-type'') headers then headers
          else case fr_resp_type f of
                 None \<Rightarrow> headers
               | Some ct \<Rightarrow> headers @ [(''content-type'', ct)])
       in and_then (validate_response_headers (re_http ext) headers) (\<lambda>u. Inr headers))"

definition manifest_entry_of ::
  "replay_key \<Rightarrow> stored_response \<Rightarrow> string option \<Rightarrow> string option \<Rightarrow> manifest_entry" where
  "manifest_entry_of key r req_type resp_type =
     \<lparr>me_method = rk_method key, me_scheme = rk_scheme key, me_host = rk_host key, me_port = rk_port key,
      me_path = join_target (rk_path key) (rk_query key), me_operation_name = rk_operation key,
      me_status = sp_status r, me_request_content_type = req_type, me_response_content_type = resp_type,
      me_response_file = (if sp_body r = [] then None else Some (response_path (sp_sha r))),
      me_response_truncated = False, me_match = key, me_response_headers = sp_headers r,
      me_representation = sp_representation r, me_response_bytes = length (sp_body r),
      me_response_sha = sp_sha r\<rparr>"

text \<open>What a source contributes: its key, its manifest entry and its response.\<close>

definition bundle_item ::
  "bundle_ext \<Rightarrow> replay_source \<Rightarrow> (replay_key \<times> manifest_entry \<times> stored_response) outcome" where
  "bundle_item ext src =
     (let f = so_flow src in
      ensure (fr_port f = None \<or> fr_port f = Some (so_port src)) ''flow captured another port''
      (and_then (validate_source_flow (be_replay ext) f) (\<lambda>u.
       and_then (key_from_flow (be_replay ext) f (so_port src)) (\<lambda>key.
       let status = the (fr_status f) in
       and_then (exact_response_body f) (\<lambda>body.
       and_then (captured_representation_content_length f status) (\<lambda>rep_len.
       and_then (stored_headers (be_replay ext) f) (\<lambda>headers.
       let response = \<lparr>sp_status = status, sp_headers = headers, sp_representation = rep_len,
             sp_body = body, sp_sha = be_sha ext (str_bytes body)\<rparr>;
           entry = manifest_entry_of key response (fr_req_type f) (fr_resp_type f)
       in and_then (validate_runtime_response (be_replay ext) key response) (\<lambda>u.
            Inr (key, entry, response)))))))))"

definition same_response :: "manifest_entry \<Rightarrow> string \<Rightarrow> manifest_entry \<Rightarrow> string \<Rightarrow> bool" where
  "same_response old old_body entry body \<longleftrightarrow>
     me_status old = me_status entry \<and> me_response_headers old = me_response_headers entry \<and>
     me_representation old = me_representation entry \<and> me_response_sha old = me_response_sha entry \<and>
     old_body = body"

definition merge_types :: "manifest_entry \<Rightarrow> manifest_entry \<Rightarrow> manifest_entry" where
  "merge_types old entry =
     old\<lparr>me_request_content_type := stable_optional_min (me_request_content_type old) (me_request_content_type entry),
         me_response_content_type := stable_optional_min (me_response_content_type old) (me_response_content_type entry)\<rparr>"

definition bundle_insert ::
  "replay_key \<times> manifest_entry \<times> stored_response \<Rightarrow> bundle_entries \<times> nat \<Rightarrow> (bundle_entries \<times> nat) outcome" where
  "bundle_insert item st =
     (let (key, entry, response) = item; (entries, total_bytes) = st; body = sp_body response in
      case map_of entries key of
        Some (old, old_body) \<Rightarrow>
          ensure (same_response old old_body entry body) ''conflicting responses for replay key''
            (Inr (obj_put key (merge_types old entry, old_body) entries, total_bytes))
      | None \<Rightarrow>
          ensure (total_bytes + length body < 2 ^ 64) ''replay bundle response byte count overflow''
           (ensure (total_bytes + length body \<le> MAX_TOTAL_RESPONSE_BYTES) ''replay bundle bodies exceed the limit''
             (Inr (obj_put key (entry, body) entries, total_bytes + length body))))"

fun bundle_loop :: "bundle_ext \<Rightarrow> replay_source list \<Rightarrow> bundle_entries \<times> nat \<Rightarrow> (bundle_entries \<times> nat) outcome" where
  "bundle_loop ext [] st = Inr st"
| "bundle_loop ext (src # sources) st =
     and_then (bundle_item ext src) (\<lambda>item.
     and_then (bundle_insert item st) (\<lambda>st'. bundle_loop ext sources st'))"

fun address_files :: "bundle_entries \<Rightarrow> (string \<times> string) list \<Rightarrow> (string \<times> string) list outcome" where
  "address_files [] files = Inr files"
| "address_files ((key, entry, body) # entries) files =
     (case me_response_file entry of
        None \<Rightarrow> address_files entries files
      | Some path \<Rightarrow>
          ensure (map_of files path = None \<or> map_of files path = Some body)
            ''SHA-256 collision while content-addressing response''
            (address_files entries (obj_put path body files)))"

definition manifest_bytes :: "bundle_ext \<Rightarrow> replay_manifest \<Rightarrow> byte list outcome" where
  "manifest_bytes ext manifest =
     (let bytes = be_manifest_bytes ext manifest @ [10] in
      ensure (length bytes \<le> MAX_MANIFEST_BYTES) ''replay manifest is too large'' (Inr bytes))"

definition build_bundle :: "bundle_ext \<Rightarrow> replay_source list \<Rightarrow> built_bundle outcome" where
  "build_bundle ext sources =
     ensure (sources \<noteq> []) ''cannot build an empty replay bundle''
     (ensure (length sources \<le> MAX_REPLAY_ENTRIES) ''replay bundle has too many flows''
     (and_then (bundle_loop ext sources ([], 0)) (\<lambda>(entries, total_bytes).
      and_then (address_files entries []) (\<lambda>files.
      let fixtures = map (\<lambda>(key, entry, body). entry) entries;
          manifest = \<lparr>rm_artifact_type = REPLAY_ARTIFACT_TYPE, rm_format_version = REPLAY_FORMAT_VERSION,
            rm_version = REPLAY_FORMAT_VERSION,
            rm_generated_by = ''shadowdroid net export fixtures ('' @ be_version ext @ '')'',
            rm_count = length fixtures, rm_fixtures = fixtures\<rparr>
      in and_then (manifest_bytes ext manifest) (\<lambda>bytes.
           Inr \<lparr>bb_manifest = manifest, bb_files = files\<rparr>)))))"

section \<open>Loading a manifest\<close>

definition validate_manifest_header :: "replay_manifest \<Rightarrow> unit outcome" where
  "validate_manifest_header m =
     ensure (rm_artifact_type m = REPLAY_ARTIFACT_TYPE) ''unsupported replay artifact type''
     (ensure (rm_format_version m = REPLAY_FORMAT_VERSION) ''unsupported replay format version''
     (ensure (rm_version m = REPLAY_FORMAT_VERSION) ''legacy version alias disagrees with format version''
     (ensure (str_trim (rm_generated_by m) \<noteq> []) ''generated_by is empty''
     (ensure (rm_count m = length (rm_fixtures m)) ''manifest count does not match fixture entries''
     (ensure (rm_count m \<noteq> 0) ''replay bundle is empty''
     (ensure (rm_count m \<le> MAX_REPLAY_ENTRIES) ''replay bundle has too many entries'' (Inr ())))))))"

definition validate_response_file :: "bundle_ext \<Rightarrow> manifest_entry \<Rightarrow> unit outcome" where
  "validate_response_file ext e =
     (case (me_response_file e, me_response_bytes e) of
        (None, 0) \<Rightarrow> ensure (me_response_sha e = be_sha ext []) ''empty response has the wrong SHA-256'' (Inr ())
      | (Some path, Suc n) \<Rightarrow> validate_response_relative_path path (me_response_sha e)
      | (None, Suc n) \<Rightarrow> Inl ''response has no response_file''
      | (Some path, 0) \<Rightarrow> Inl ''empty response must not reference a response_file'')"

definition validate_manifest_entry :: "bundle_ext \<Rightarrow> manifest_entry \<Rightarrow> unit outcome" where
  "validate_manifest_entry ext e =
     (let key = me_match e in
      and_then (validate_key (be_replay ext) key) (\<lambda>u.
      ensure (me_method e = rk_method key) ''flat method disagrees with match key''
      (ensure (me_scheme e = rk_scheme key) ''flat scheme disagrees with match key''
      (ensure (me_host e = rk_host key) ''flat host disagrees with match key''
      (ensure (me_port e = rk_port key) ''flat port disagrees with match key''
      (ensure (me_path e = join_target (rk_path key) (rk_query key)) ''flat request target disagrees with match key''
      (ensure (me_operation_name e = rk_operation key) ''flat GraphQL operation disagrees with match key''
      (ensure (\<not> me_response_truncated e) ''response is marked truncated''
      (and_then (validate_status (me_status e)) (\<lambda>u.
       and_then (validate_response_headers (be_http ext) (me_response_headers e)) (\<lambda>u.
       and_then (validate_representation key (me_status e) (me_representation e)) (\<lambda>u.
       and_then (validate_sha256 (me_response_sha e)) (\<lambda>u.
       ensure (me_response_bytes e \<le> MAX_RESPONSE_BODY_BYTES) ''response claims too many bytes''
         (validate_response_file ext e))))))))))))))"

fun manifest_loop ::
  "bundle_ext \<Rightarrow> (manifest_entry \<Rightarrow> string outcome) \<Rightarrow> manifest_entry list \<Rightarrow> replay_entries \<times> nat \<Rightarrow>
   (replay_entries \<times> nat) outcome" where
  "manifest_loop ext read_body [] st = Inr st"
| "manifest_loop ext read_body (e # es) st =
     (let (entries, total_bytes) = st in
      and_then (validate_manifest_entry ext e) (\<lambda>u.
      and_then (read_body e) (\<lambda>body.
      ensure (length body = me_response_bytes e) ''response byte count mismatch''
      (ensure (be_sha ext (str_bytes body) = me_response_sha e) ''response SHA-256 mismatch''
      (ensure (total_bytes + me_response_bytes e < 2 ^ 64) ''replay bundle response byte count overflow''
      (ensure (total_bytes + me_response_bytes e \<le> MAX_TOTAL_RESPONSE_BYTES) ''replay bundle bodies exceed the limit''
      (let response = \<lparr>sp_status = me_status e, sp_headers = me_response_headers e,
             sp_representation = me_representation e, sp_body = body, sp_sha = me_response_sha e\<rparr>
       in and_then (validate_runtime_response (be_replay ext) (me_match e) response) (\<lambda>u.
          ensure (map_of entries (me_match e) = None) ''ambiguous duplicate replay key at manifest entry''
            (manifest_loop ext read_body es
               (obj_put (me_match e) response entries, total_bytes + me_response_bytes e))))))))))"

definition active_entries_sha256 :: "bundle_ext \<Rightarrow> replay_entries \<Rightarrow> string" where
  "active_entries_sha256 ext entries = be_sha ext (be_entries_bytes ext entries)"

definition replay_set_from_manifest ::
  "bundle_ext \<Rightarrow> replay_manifest \<Rightarrow> byte list \<Rightarrow> string option \<Rightarrow> (manifest_entry \<Rightarrow> string outcome) \<Rightarrow>
   replay_set outcome" where
  "replay_set_from_manifest ext manifest bytes host_filter read_body =
     and_then (validate_manifest_header manifest) (\<lambda>u.
     and_then (case host_filter of None \<Rightarrow> Inr None
               | Some h \<Rightarrow> and_then (normalize_host (be_replay ext) h) (\<lambda>w. Inr (Some w))) (\<lambda>wanted_host.
     and_then (manifest_loop ext read_body (rm_fixtures manifest) ([], 0)) (\<lambda>(all_entries, total_bytes).
     let entries = (case wanted_host of
           Some host \<Rightarrow> filter (\<lambda>(key, response). rk_host key = host) all_entries
         | None \<Rightarrow> all_entries)
     in ensure (entries \<noteq> []) ''replay bundle has no entries matching the requested host''
          (Inr \<lparr>st_entries = entries, st_source_sha = Some (be_sha ext bytes),
                st_active_sha = active_entries_sha256 ext entries,
                st_source_count = length (rm_fixtures manifest)\<rparr>))))"

definition read_built :: "built_bundle \<Rightarrow> manifest_entry \<Rightarrow> string outcome" where
  "read_built bundle e =
     (case me_response_file e of
        Some path \<Rightarrow>
          (case map_of (bb_files bundle) path of Some body \<Rightarrow> Inr body | None \<Rightarrow> Inl ''missing built response'')
      | None \<Rightarrow> Inr [])"

definition into_replay_set :: "bundle_ext \<Rightarrow> built_bundle \<Rightarrow> string option \<Rightarrow> replay_set outcome" where
  "into_replay_set ext bundle host_filter =
     and_then (manifest_bytes ext (bb_manifest bundle)) (\<lambda>bytes.
       replay_set_from_manifest ext (bb_manifest bundle) bytes host_filter (read_built bundle))"

section \<open>Payloads and lookup\<close>

definition to_payload :: "replay_set \<Rightarrow> replay_payload" where
  "to_payload s =
     \<lparr>ry_artifact_type = REPLAY_PAYLOAD_TYPE, ry_format_version = REPLAY_FORMAT_VERSION,
      ry_active_sha = st_active_sha s, ry_entries = st_entries s\<rparr>"

fun payload_loop :: "bundle_ext \<Rightarrow> replay_entries \<Rightarrow> replay_entries \<times> nat \<Rightarrow> (replay_entries \<times> nat) outcome" where
  "payload_loop ext [] st = Inr st"
| "payload_loop ext ((key, response) # rest) st =
     (let (entries, total_bytes) = st in
      and_then (validate_key (be_replay ext) key) (\<lambda>u.
      and_then (validate_runtime_response (be_replay ext) key response) (\<lambda>u.
      ensure (total_bytes + length (sp_body response) < 2 ^ 64) ''replay payload response byte count overflow''
      (ensure (total_bytes + length (sp_body response) \<le> MAX_TOTAL_RESPONSE_BYTES) ''replay payload bodies exceed the limit''
      (ensure (map_of entries key = None) ''ambiguous duplicate replay key at payload entry''
        (payload_loop ext rest (obj_put key response entries, total_bytes + length (sp_body response))))))))"

definition from_payload :: "bundle_ext \<Rightarrow> replay_payload \<Rightarrow> replay_set outcome" where
  "from_payload ext p =
     ensure (ry_artifact_type p = REPLAY_PAYLOAD_TYPE) ''unsupported replay payload type''
     (ensure (ry_format_version p = REPLAY_FORMAT_VERSION) ''unsupported replay payload version''
     (and_then (validate_sha256 (ry_active_sha p)) (\<lambda>u.
      ensure (ry_entries p \<noteq> []) ''replay payload is empty''
      (ensure (length (ry_entries p) \<le> MAX_REPLAY_ENTRIES) ''replay payload has too many entries''
      (and_then (payload_loop ext (ry_entries p) ([], 0)) (\<lambda>(entries, total_bytes).
       ensure (active_entries_sha256 ext entries = ry_active_sha p) ''replay payload active_set_sha256 mismatch''
         (Inr \<lparr>st_entries = entries, st_source_sha = None, st_active_sha = active_entries_sha256 ext entries,
               st_source_count = length entries\<rparr>)))))))"

definition replay_lookup_set :: "replay_ext \<Rightarrow> replay_set \<Rightarrow> replay_request \<Rightarrow> replay_lookup_result outcome" where
  "replay_lookup_set ext s request =
     and_then (request_key ext request) (\<lambda>key.
       case filter (\<lambda>(k, r). key \<le> k \<and> k \<le> key) (st_entries s) of
         [] \<Rightarrow> Inr Miss
       | [(k, response)] \<Rightarrow> Inr (Hit response)
       | (k1 # k2 # ks) \<Rightarrow> Inr (Ambiguous (2 + length ks)))"

section \<open>Bundles on disk\<close>

text \<open>
  A bundle directory: the response files by relative path and the manifest. Each write is atomic (a
  temporary file renamed into place). Symbolic links and file types are not modelled.
\<close>

record bundle_dir =
  bd_files :: "string \<Rightarrow> string option"
  bd_manifest :: "byte list option"

datatype bundle_write = WriteResponse string string | WriteManifest "byte list"

fun apply_write :: "bundle_write \<Rightarrow> bundle_dir \<Rightarrow> bundle_dir" where
  "apply_write (WriteResponse path body) d = d\<lparr>bd_files := (bd_files d)(path \<mapsto> body)\<rparr>"
| "apply_write (WriteManifest bytes) d = d\<lparr>bd_manifest := Some bytes\<rparr>"

text \<open>The writes \<open>write_bundle\<close> makes, in order; none when it fails before the first.\<close>

fun response_writes :: "bundle_ext \<Rightarrow> bundle_dir \<Rightarrow> (string \<times> string) list \<Rightarrow> bundle_write list \<times> bool" where
  "response_writes ext d [] = ([], True)"
| "response_writes ext d ((path, body) # files) =
     (if validate_response_relative_path path (be_sha ext (str_bytes body)) \<noteq> Inr () then ([], False)
      else case bd_files d path of
             Some existing \<Rightarrow> if existing = body then response_writes ext d files else ([], False)
           | None \<Rightarrow> (let (ws, ok) = response_writes ext d files in (WriteResponse path body # ws, ok)))"

definition write_bundle :: "bundle_ext \<Rightarrow> replay_source list \<Rightarrow> bundle_dir \<Rightarrow> bundle_write list \<times> bool" where
  "write_bundle ext sources d =
     (case build_bundle ext sources of
        Inl e \<Rightarrow> ([], False)
      | Inr bundle \<Rightarrow>
          (let (ws, ok) = response_writes ext d (bb_files bundle) in
           if \<not> ok then (ws, False)
           else case manifest_bytes ext (bb_manifest bundle) of
                  Inl e \<Rightarrow> (ws, False)
                | Inr bytes \<Rightarrow>
                    (case into_replay_set ext bundle None of
                       Inl e \<Rightarrow> (ws, False)
                     | Inr s \<Rightarrow> (ws @ [WriteManifest bytes], True))))"

definition read_dir :: "bundle_dir \<Rightarrow> manifest_entry \<Rightarrow> string outcome" where
  "read_dir d e =
     (case me_response_file e of
        None \<Rightarrow> Inr []
      | Some relative \<Rightarrow>
          and_then (validate_response_relative_path relative (me_response_sha e)) (\<lambda>u.
            case bd_files d relative of
              None \<Rightarrow> Inl ''canonicalize response''
            | Some body \<Rightarrow>
                ensure (length body \<le> MAX_RESPONSE_BODY_BYTES) ''response too large''
                 (ensure (utf8_valid (str_bytes body)) ''response is not UTF-8'' (Inr body))))"

definition load_bundle :: "bundle_ext \<Rightarrow> bundle_dir \<Rightarrow> string option \<Rightarrow> replay_set outcome" where
  "load_bundle ext d host_filter =
     (case bd_manifest d of
        None \<Rightarrow> Inl ''inspect manifest''
      | Some bytes \<Rightarrow>
          ensure (length bytes \<le> MAX_MANIFEST_BYTES) ''manifest too large''
            (case be_parse_manifest ext bytes of
               None \<Rightarrow> Inl ''parse replay manifest''
             | Some manifest \<Rightarrow> replay_set_from_manifest ext manifest bytes host_filter (read_dir d)))"

end
