(* ===== verification/ReplayProps.thy ===== *)
theory ReplayProps
  imports ReplayBundle "HOL-Library.Multiset"
begin

text \<open>
  What replay bundles guarantee: they do not depend on the order of the flows, every recorded flow is
  found again with its own response, payloads carry a set unchanged, and writing a bundle over an old
  one never leaves a directory that loads as a mixture.
\<close>

section \<open>Order of the sources\<close>

text \<open>
  Insertion seen through the contents of the map, errors without their text. Items built from flows
  are determined by their key, their response and two content types, which makes insertions commute.
\<close>

definition item_ok :: "replay_key \<times> manifest_entry \<times> stored_response \<Rightarrow> bool" where
  "item_ok item \<longleftrightarrow>
     (case item of (key, e, r) \<Rightarrow> \<exists>req_type resp_type. e = manifest_entry_of key r req_type resp_type)"

lemma bundle_item_ok:
  assumes "bundle_item ext src = Inr item"
  shows "item_ok item"
  using assms by (auto simp: bundle_item_def item_ok_def Let_def split: prod.splits)

type_synonym entry_map = "replay_key \<Rightarrow> (manifest_entry \<times> string) option"

definition abs_insert ::
  "replay_key \<times> manifest_entry \<times> stored_response \<Rightarrow> (entry_map \<times> nat) option \<Rightarrow> (entry_map \<times> nat) option" where
  "abs_insert item st =
     (case st of
        None \<Rightarrow> None
      | Some (entries, total_bytes) \<Rightarrow>
          (let (key, e, r) = item; body = sp_body r in
           case entries key of
             Some (old, old_body) \<Rightarrow>
               if same_response old old_body e body
               then Some (entries(key \<mapsto> (merge_types old e, old_body)), total_bytes) else None
           | None \<Rightarrow>
               if total_bytes + length body \<le> MAX_TOTAL_RESPONSE_BYTES
               then Some (entries(key \<mapsto> (e, body)), total_bytes + length body) else None))"

lemma stable_optional_min_commute: "stable_optional_min a b = stable_optional_min b a"
  by (auto simp: stable_optional_min_def min.commute split: option.splits)

lemma stable_optional_min_left_commute:
  "stable_optional_min (stable_optional_min a b) c = stable_optional_min (stable_optional_min a c) b"
  by (auto simp: stable_optional_min_def min.commute min.left_commute min.assoc split: option.splits)

lemma merge_left_commute: "merge_types (merge_types old a) b = merge_types (merge_types old b) a"
  unfolding merge_types_def
  by (simp add: stable_optional_min_left_commute [of _ "me_request_content_type a"]
      stable_optional_min_left_commute [of _ "me_response_content_type a"])

lemma merge_same_response [simp]:
  "same_response (merge_types old a) old_body e body = same_response old old_body e body"
  by (simp add: same_response_def merge_types_def)

lemma same_response_items:
  "same_response (manifest_entry_of key r t u) (sp_body r) (manifest_entry_of key r' t' u') (sp_body r') \<longleftrightarrow> r = r'"
  by (cases r; cases r') (auto simp: same_response_def manifest_entry_of_def)

lemma manifest_entry_inject:
  "manifest_entry_of key s t u = manifest_entry_of key' r t' u' \<Longrightarrow> sp_body s = sp_body r \<Longrightarrow> s = r"
  by (cases r; cases s) (simp add: manifest_entry_of_def)

lemma merge_types_items:
  "merge_types (manifest_entry_of key r t u) (manifest_entry_of key r t' u') =
   manifest_entry_of key r (stable_optional_min t t') (stable_optional_min u u')"
  by (simp add: merge_types_def manifest_entry_of_def)

lemma same_response_commute: "same_response a x b y = same_response b y a x"
  by (auto simp: same_response_def)

lemma abs_insert_commute:
  assumes "item_ok a" "item_ok b"
  shows "abs_insert a (abs_insert b st) = abs_insert b (abs_insert a st)"
proof (cases st)
  case None
  then show ?thesis
    by (simp add: abs_insert_def)
next
  case (Some s)
  obtain entries n where s: "s = (entries, n)"
    by (cases s)
  obtain ka ea ra where a: "a = (ka, ea, ra)"
    by (cases a)
  obtain kb eb rb where b: "b = (kb, eb, rb)"
    by (cases b)
  show ?thesis
  proof (cases "ka = kb")
    case True
    then obtain t u t' u' where e: "ea = manifest_entry_of kb ra t u" "eb = manifest_entry_of kb rb t' u'"
      using assms by (auto simp: item_ok_def a b)
    show ?thesis
    proof (cases "entries kb")
      case None
      then show ?thesis
        using True
        by (auto simp: abs_insert_def Some s a b Let_def e same_response_items merge_types_items
            stable_optional_min_commute)
    next
      case (Some old)
      then show ?thesis
        using True merge_left_commute
        by (cases old) (auto simp: abs_insert_def \<open>st = Some s\<close> s a b Let_def)
    qed
  next
    case False
    then show ?thesis
      by (auto simp: abs_insert_def Some s a b Let_def fun_upd_twist split: option.splits)
  qed
qed


lemma bundle_insert_abs:
  "bundle_insert item (entries, n) = Inr (entries', n') \<Longrightarrow>
   abs_insert item (Some (map_of entries, n)) = Some (map_of entries', n')"
  by (auto simp: bundle_insert_def abs_insert_def Let_def split: prod.splits option.splits)

lemma abs_bundle_insert:
  "abs_insert item (Some (map_of entries, n)) = Some (m, n') \<Longrightarrow>
   \<exists>entries'. bundle_insert item (entries, n) = Inr (entries', n') \<and> map_of entries' = m"
  by (auto simp: bundle_insert_def abs_insert_def Let_def MAX_TOTAL_RESPONSE_BYTES_def
      split: prod.splits option.splits if_splits)

lemma bundle_insert_sorted:
  "bundle_insert item (entries, n) = Inr (entries', n') \<Longrightarrow> sorted_wrt (<) (map fst entries) \<Longrightarrow>
   sorted_wrt (<) (map fst entries')"
  by (auto simp: bundle_insert_def Let_def obj_put_sorted split: prod.splits option.splits)

lemma fold_abs_None [simp]: "fold abs_insert items None = None"
  by (induction items) (simp_all add: abs_insert_def)

lemma bundle_loop_abs:
  "bundle_loop ext sources (entries, n) = Inr (entries', n') \<Longrightarrow> sorted_wrt (<) (map fst entries) \<Longrightarrow>
   \<exists>items. map (bundle_item ext) sources = map Inr items \<and>
     fold abs_insert items (Some (map_of entries, n)) = Some (map_of entries', n') \<and>
     sorted_wrt (<) (map fst entries')"
proof (induction sources arbitrary: entries n)
  case Nil
  then show ?case
    by simp
next
  case (Cons src sources)
  then obtain item entries1 n1 where one: "bundle_item ext src = Inr item"
    "bundle_insert item (entries, n) = Inr (entries1, n1)"
    "bundle_loop ext sources (entries1, n1) = Inr (entries', n')"
    by auto
  then obtain items where "map (bundle_item ext) sources = map Inr items"
    "fold abs_insert items (Some (map_of entries1, n1)) = Some (map_of entries', n')"
    "sorted_wrt (<) (map fst entries')"
    using Cons.IH [OF one(3)] bundle_insert_sorted [OF one(2) Cons.prems(2)] by blast
  then show ?case
    using one bundle_insert_abs [OF one(2)] by (intro exI [of _ "item # items"]) simp
qed

lemma abs_bundle_loop:
  "map (bundle_item ext) sources = map Inr items \<Longrightarrow>
   fold abs_insert items (Some (map_of entries, n)) = Some (m, n') \<Longrightarrow>
   \<exists>entries'. bundle_loop ext sources (entries, n) = Inr (entries', n') \<and> map_of entries' = m"
proof (induction sources arbitrary: items entries n)
  case Nil
  then show ?case
    by simp
next
  case (Cons src sources)
  then obtain item rest where items: "items = item # rest" "bundle_item ext src = Inr item"
    "map (bundle_item ext) sources = map Inr rest"
    by (cases items) auto
  then obtain m1 n1 where "abs_insert item (Some (map_of entries, n)) = Some (m1, n1)"
    using Cons.prems(2) by (cases "abs_insert item (Some (map_of entries, n))") auto
  then obtain entries1 where "bundle_insert item (entries, n) = Inr (entries1, n1)" "map_of entries1 = m1"
    using abs_bundle_insert by blast
  then show ?case
    using Cons.IH [OF items(3), of entries1 n1] Cons.prems(2) items
      \<open>abs_insert item (Some (map_of entries, n)) = Some (m1, n1)\<close> by auto
qed

lemma bundle_loop_permute:
  assumes "bundle_loop ext xs ([], 0) = Inr (entries, n)" "mset xs = mset ys"
  shows "bundle_loop ext ys ([], 0) = Inr (entries, n)"
proof -
  obtain items where items: "map (bundle_item ext) xs = map Inr items"
    "fold abs_insert items (Some (map_of [], 0)) = Some (map_of entries, n)"
    "sorted_wrt (<) (map fst entries)"
    using bundle_loop_abs [OF assms(1)] by auto
  define items' where "items' = map (projr \<circ> bundle_item ext) ys"
  have "items = map (projr \<circ> bundle_item ext) xs"
    using arg_cong [OF items(1), of "map projr"] by (simp add: comp_def)
  then have perm: "mset items = mset items'"
    using assms(2) by (simp add: items'_def)
  have Inr: "bundle_item ext y = Inr (projr (bundle_item ext y))" if "y \<in> set ys" for y
  proof -
    have "y \<in> set xs"
      using that assms(2) mset_eq_setD by blast
    then have "bundle_item ext y \<in> set (map Inr items)"
      using items(1) by (metis image_eqI list.set_map)
    then show ?thesis
      by auto
  qed
  then have map': "map (bundle_item ext) ys = map Inr items'"
    by (simp add: items'_def)
  have ok: "item_ok i" if "i \<in> set items'" for i
    using that bundle_item_ok [OF Inr] by (auto simp: items'_def)
  have "fold abs_insert items = fold abs_insert items'"
  proof (rule fold_multiset_equiv [OF _ perm])
    fix a b
    assume "a \<in> set items" "b \<in> set items"
    then have "item_ok a" "item_ok b"
      using ok perm mset_eq_setD by blast+
    then show "abs_insert a \<circ> abs_insert b = abs_insert b \<circ> abs_insert a"
      using abs_insert_commute by (auto simp: fun_eq_iff)
  qed
  then have "fold abs_insert items' (Some (map_of [], 0)) = Some (map_of entries, n)"
    using items(2) by simp
  then obtain entries' where loop: "bundle_loop ext ys ([], 0) = Inr (entries', n)" "map_of entries' = map_of entries"
    using abs_bundle_loop [OF map'] by blast
  then have "sorted_wrt (<) (map fst entries')"
    using bundle_loop_abs [OF loop(1)] by auto
  then show ?thesis
    using loop obj_ext items(3) by blast
qed

text \<open>
  C23: a bundle does not depend on the order the flows come in: any rearrangement of the sources
  builds the same manifest and the same response files.
\<close>

theorem bundle_order_free:
  assumes "build_bundle ext xs = Inr bundle" "mset xs = mset ys"
  shows "build_bundle ext ys = Inr bundle"
proof -
  obtain entries n where "bundle_loop ext xs ([], 0) = Inr (entries, n)"
    using assms(1) by (auto simp: build_bundle_def)
  moreover from this have "bundle_loop ext ys ([], 0) = Inr (entries, n)"
    by (rule bundle_loop_permute [OF _ assms(2)])
  moreover have "ys \<noteq> []" "length ys = length xs"
    using assms by (auto simp: build_bundle_def dest: mset_eq_length)
  ultimately show ?thesis
    using assms(1) by (simp add: build_bundle_def)
qed


section \<open>What a finished bundle holds\<close>

text \<open>Insertion at the end of a sorted map.\<close>

lemma obj_put_end: "\<forall>x\<in>fst ` set kvs. x < k \<Longrightarrow> obj_put k v kvs = kvs @ [(k, v)]"
  by (induction k v kvs rule: obj_put.induct) auto

definition bundle_size :: "bundle_entries \<Rightarrow> nat" where
  "bundle_size entries = sum_list (map (\<lambda>(k, e, body). length body) entries)"

lemma bundle_size_put:
  "sorted_wrt (<) (map fst entries) \<Longrightarrow>
   bundle_size (obj_put k (e, body) entries) + (case map_of entries k of None \<Rightarrow> 0 | Some (e', b') \<Rightarrow> length b') =
   bundle_size entries + length body"
proof (induction k "(e, body)" entries rule: obj_put.induct)
  case (2 k k' v' kvs)
  have "map_of kvs k = None" if "k \<le> k'"
    using 2(2) that by (force simp: map_of_eq_None_iff)
  then show ?case
    using 2 by (cases v'; cases "k = k'") (auto simp: bundle_size_def split: option.splits)
qed (simp add: bundle_size_def)

lemma length_obj_put: "length (obj_put k v kvs) \<le> Suc (length kvs)"
  by (induction k v kvs rule: obj_put.induct) auto

lemma set_obj_put: "set (obj_put k v kvs) \<subseteq> insert (k, v) (set kvs)"
  by (induction k v kvs rule: obj_put.induct) auto

text \<open>An entry of the bundle under its key, with the response it stands for.\<close>

definition entry_ok :: "bundle_ext \<Rightarrow> replay_key \<Rightarrow> manifest_entry \<times> string \<Rightarrow> stored_response \<Rightarrow> bool" where
  "entry_ok ext key eb r \<longleftrightarrow>
     (\<exists>t u. fst eb = manifest_entry_of key r t u) \<and> snd eb = sp_body r \<and>
     validate_key (be_replay ext) key = Inr () \<and>
     validate_runtime_response (be_replay ext) key r = Inr ()"

lemma bundle_item_valid:
  assumes "bundle_item ext src = Inr (key, e, r)"
  shows "entry_ok ext key (e, sp_body r) r"
  using assms
  by (auto simp: bundle_item_def entry_ok_def Let_def key_from_flow_def request_key_def split: prod.splits)

lemma bundle_item_source:
  assumes "bundle_item ext src = Inr (key, e, r)"
  shows "\<exists>body. exact_request_body (so_flow src) = Inr body \<and>
    request_key (be_replay ext) (request_of_flow (so_flow src) (so_port src) body) = Inr key \<and>
    fr_status (so_flow src) = Some (sp_status r) \<and> exact_response_body (so_flow src) = Inr (sp_body r) \<and>
    stored_headers (be_replay ext) (so_flow src) = Inr (sp_headers r)"
proof -
  obtain rep_len body headers where item: "key_from_flow (be_replay ext) (so_flow src) (so_port src) = Inr key"
    "exact_response_body (so_flow src) = Inr body" "stored_headers (be_replay ext) (so_flow src) = Inr headers"
    "r = \<lparr>sp_status = the (fr_status (so_flow src)), sp_headers = headers, sp_representation = rep_len,
       sp_body = body, sp_sha = be_sha ext (str_bytes body)\<rparr>"
    using assms by (auto simp: bundle_item_def Let_def)
  moreover have "\<exists>status. fr_status (so_flow src) = Some status"
    using item(2) by (auto simp: exact_response_body_def split: option.splits)
  ultimately show ?thesis
    by (auto simp: key_from_flow_def)
qed

definition bundle_inv :: "bundle_ext \<Rightarrow> bundle_entries \<times> nat \<Rightarrow> bool" where
  "bundle_inv ext st \<longleftrightarrow>
     (case st of (entries, n) \<Rightarrow>
        sorted_wrt (<) (map fst entries) \<and> n = bundle_size entries \<and> n \<le> MAX_TOTAL_RESPONSE_BYTES \<and>
        (\<forall>(k, eb) \<in> set entries. \<exists>r. entry_ok ext k eb r))"

text \<open>Later insertions keep the response of a key.\<close>

definition has_response :: "bundle_entries \<Rightarrow> replay_key \<Rightarrow> stored_response \<Rightarrow> bool" where
  "has_response entries key r \<longleftrightarrow>
     (\<exists>t u. map_of entries key = Some (manifest_entry_of key r t u, sp_body r))"

lemma merge_entry_ok:
  "entry_ok ext key (old, b) r \<Longrightarrow> entry_ok ext key (merge_types old e, b) r"
  by (auto simp: entry_ok_def merge_types_def manifest_entry_of_def)

lemma bundle_insert_inv:
  assumes "bundle_item ext src = Inr (key, e, r)" "bundle_insert (key, e, r) (entries, n) = Inr (entries', n')"
    "bundle_inv ext (entries, n)"
  shows "bundle_inv ext (entries', n') \<and> has_response entries' key r \<and>
    (\<forall>k q. has_response entries k q \<longrightarrow> has_response entries' k q)"
proof -
  have ok: "entry_ok ext key (e, sp_body r) r"
    using bundle_item_valid [OF assms(1)] .
  then obtain t u where e: "e = manifest_entry_of key r t u"
    by (auto simp: entry_ok_def)
  have sorted: "sorted_wrt (<) (map fst entries)" and entries_ok: "\<forall>(k, eb) \<in> set entries. \<exists>r. entry_ok ext k eb r"
    using assms(3) by (auto simp: bundle_inv_def)
  have sorted': "sorted_wrt (<) (map fst entries')"
    using bundle_insert_sorted [OF assms(2) sorted] .
  show ?thesis
  proof (cases "map_of entries key")
    case None
    then have new: "entries' = obj_put key (e, sp_body r) entries" "n' = n + length (sp_body r)"
      "n' \<le> MAX_TOTAL_RESPONSE_BYTES"
      using assms(2) by (auto simp: bundle_insert_def Let_def)
    have "set entries' \<subseteq> insert (key, e, sp_body r) (set entries)"
      unfolding new(1) by (rule set_obj_put)
    then have "bundle_inv ext (entries', n')"
      using new ok entries_ok sorted' bundle_size_put [OF sorted, of key e "sp_body r"] None assms(3)
      by (auto simp: bundle_inv_def)
    then show ?thesis
      using None new e by (auto simp: has_response_def)
  next
    case (Some old)
    obtain oe ob where old: "old = (oe, ob)"
      by (cases old)
    with Some have upd: "same_response oe ob e (sp_body r)" "n' = n"
      "entries' = obj_put key (merge_types oe e, ob) entries"
      using assms(2) by (auto simp: bundle_insert_def Let_def)
    obtain q where q: "entry_ok ext key (oe, ob) q"
      using entries_ok Some old by (fastforce dest: map_of_SomeD)
    then obtain t' u' where oe: "oe = manifest_entry_of key q t' u'" "ob = sp_body q"
      by (auto simp: entry_ok_def)
    then have "q = r"
      using upd(1) e by (simp add: same_response_items)
    then have here: "has_response entries' key r"
      using oe e upd(3) by (auto simp: has_response_def merge_types_items)
    have "bundle_size entries' = bundle_size entries"
      using bundle_size_put [OF sorted, of key "merge_types oe e" ob] Some old upd(3) by simp
    moreover have "\<forall>(k, eb) \<in> set entries'. \<exists>r. entry_ok ext k eb r"
      using set_obj_put [of key "(merge_types oe e, ob)" entries] merge_entry_ok [OF q, of e] entries_ok upd(3)
      by blast
    ultimately have "bundle_inv ext (entries', n')"
      using sorted' upd(2) assms(3) by (simp add: bundle_inv_def)
    moreover have "has_response entries' k s" if had: "has_response entries k s" for k s
    proof (cases "k = key")
      case True
      then obtain taa uaa where "manifest_entry_of key s taa uaa = manifest_entry_of key r t' u'" "sp_body s = sp_body r"
        using had Some old oe \<open>q = r\<close> by (auto simp: has_response_def)
      then have "s = r"
        by (rule manifest_entry_inject)
      then show ?thesis
        using here True by simp
    next
      case False
      then show ?thesis
        using had upd(3) by (simp add: has_response_def)
    qed
    ultimately show ?thesis
      using here by blast
  qed
qed

lemma bundle_loop_inv:
  "bundle_loop ext sources st = Inr (entries', n') \<Longrightarrow> bundle_inv ext st \<Longrightarrow>
   bundle_inv ext (entries', n') \<and>
   (\<forall>k q. has_response (fst st) k q \<longrightarrow> has_response entries' k q) \<and>
   (\<forall>src \<in> set sources. \<exists>key e r. bundle_item ext src = Inr (key, e, r) \<and> has_response entries' key r) \<and>
   length entries' \<le> length (fst st) + length sources"
proof (induction sources arbitrary: st)
  case Nil
  then show ?case
    by simp
next
  case (Cons src sources)
  obtain entries n where st: "st = (entries, n)"
    by (cases st)
  obtain key e r entries1 n1 where one: "bundle_item ext src = Inr (key, e, r)"
    "bundle_insert (key, e, r) (entries, n) = Inr (entries1, n1)"
    "bundle_loop ext sources (entries1, n1) = Inr (entries', n')"
    using Cons.prems(1) by (auto simp: st)
  note step = bundle_insert_inv [OF one(1,2) Cons.prems(2) [unfolded st]]
  then have rest: "bundle_inv ext (entries', n')"
    "\<And>k q. has_response entries1 k q \<Longrightarrow> has_response entries' k q"
    "\<forall>src \<in> set sources. \<exists>key e r. bundle_item ext src = Inr (key, e, r) \<and> has_response entries' key r"
    "length entries' \<le> length entries1 + length sources"
    using Cons.IH [OF one(3)] by auto
  have "length entries1 \<le> Suc (length entries)"
    using one(2) length_obj_put [of key _ entries]
    by (auto simp: bundle_insert_def Let_def split: option.splits)
  then show ?case
    using step rest one(1) by (auto simp: st)
qed

text \<open>Once a path is bound to a body, it stays bound, and every entry with a body is bound.\<close>

lemma address_files_keeps:
  "address_files entries files = Inr files' \<Longrightarrow> map_of files path = Some body \<Longrightarrow> map_of files' path = Some body"
proof (induction entries files rule: address_files.induct)
  case (2 key e b entries files)
  show ?case
  proof (cases "me_response_file e")
    case (Some p)
    then have "address_files entries (obj_put p b files) = Inr files'" "map_of (obj_put p b files) path = Some body"
      using 2(3,4) by (cases "p = path"; simp)+
    then show ?thesis
      using 2(2) [OF Some] 2(3) Some by simp
  qed (use 2 in simp)
qed simp

lemma address_files_binds:
  "address_files entries files = Inr files' \<Longrightarrow> (key, e, body) \<in> set entries \<Longrightarrow>
   me_response_file e = Some path \<Longrightarrow> map_of files' path = Some body"
proof (induction entries files rule: address_files.induct)
  case (1 files)
  then show ?case
    by simp
next
  case (2 key' e' body' entries files)
  show ?case
  proof (cases "me_response_file e'")
    case None
    then show ?thesis
      using 2 by auto
  next
    case (Some path')
    then have files: "address_files entries (obj_put path' body' files) = Inr files'"
      using 2(3) by simp
    show ?thesis
      using 2 Some files address_files_keeps [OF files, of path' body'] by auto
  qed
qed

text \<open>The response an entry stands for, and the set a bundle holds.\<close>

definition response_of :: "manifest_entry \<Rightarrow> string \<Rightarrow> stored_response" where
  "response_of e body =
     \<lparr>sp_status = me_status e, sp_headers = me_response_headers e, sp_representation = me_representation e,
      sp_body = body, sp_sha = me_response_sha e\<rparr>"

definition set_of_entries :: "bundle_entries \<Rightarrow> replay_entries" where
  "set_of_entries entries = map (\<lambda>(key, e, body). (key, response_of e body)) entries"

lemma response_of_entry [simp]: "response_of (manifest_entry_of key r t u) (sp_body r) = r"
  by (cases r) (simp add: response_of_def manifest_entry_of_def)

lemma set_of_entries_keys [simp]: "map fst (set_of_entries entries) = map fst entries"
  by (induction entries) (auto simp: set_of_entries_def)

lemma map_of_set_of_entries:
  "map_of (set_of_entries entries) key = map_option (\<lambda>(e, body). response_of e body) (map_of entries key)"
  by (induction entries) (auto simp: set_of_entries_def)

lemma split_on_absent [simp]: "sep \<notin> set s \<Longrightarrow> split_on sep s = [s]"
  by (induction s) auto

lemma split_on_append:
  "sep \<notin> set s \<Longrightarrow> split_on sep (s @ sep # t) = s # split_on sep t"
  by (induction s) auto

lemma response_path_ok: "is_sha256 sha \<Longrightarrow> validate_response_relative_path (response_path sha) sha = Inr ()"
proof -
  assume sha: "is_sha256 sha"
  then have slash: "CHR ''/'' \<notin> set sha"
    by (auto simp: is_sha256_def list_all_iff Let_def)
  have "length sha = 64"
    using sha by (simp add: is_sha256_def)
  then have "sha \<noteq> ''..''"
    by auto
  moreover have "split_on CHR ''/'' (response_path sha) = [''responses'', sha]"
    using split_on_append [of "CHR ''/''" "''responses''" sha] slash by (simp add: response_path_def)
  ultimately show ?thesis
    using sha by (simp add: validate_response_relative_path_def validate_sha256_def starts_with_def response_path_def)
qed

lemma entry_ok_validates:
  assumes "entry_ok ext key (e, body) r"
  shows "validate_manifest_entry ext e = Inr ()" "me_match e = key" "body = sp_body r"
    "response_of e body = r" "me_response_bytes e = length body" "me_response_sha e = sp_sha r"
    "be_sha ext (str_bytes body) = sp_sha r"
    "me_response_file e = (if body = [] then None else Some (response_path (sp_sha r)))"
proof -
  obtain t u where e: "e = manifest_entry_of key r t u" "body = sp_body r"
    and ok: "validate_key (be_replay ext) key = Inr ()" "validate_runtime_response (be_replay ext) key r = Inr ()"
    using assms by (auto simp: entry_ok_def)
  then have "validate_response_file ext e = Inr ()"
    using response_path_ok [of "sp_sha r"]
    by (cases "sp_body r") (auto simp: validate_response_file_def manifest_entry_of_def validate_runtime_response_def
        validate_sha256_def str_bytes_def)
  then show "validate_manifest_entry ext e = Inr ()"
    using ok by (simp add: validate_manifest_entry_def e manifest_entry_of_def validate_runtime_response_def)
  show "me_match e = key" "body = sp_body r" "response_of e body = r" "me_response_bytes e = length body"
    "me_response_sha e = sp_sha r" "be_sha ext (str_bytes body) = sp_sha r"
    "me_response_file e = (if body = [] then None else Some (response_path (sp_sha r)))"
    using e ok by (auto simp: manifest_entry_of_def validate_runtime_response_def response_of_def)
qed

lemma set_of_entries_Cons [simp]:
  "set_of_entries ((key, e, body) # entries) = (key, response_of e body) # set_of_entries entries"
  by (simp add: set_of_entries_def)

text \<open>Reading the manifest of well-formed entries back yields their responses in order.\<close>

lemma manifest_loop_entries:
  assumes "\<forall>(key, eb) \<in> set entries. \<exists>r. entry_ok ext key eb r"
    "\<forall>(key, e, body) \<in> set entries. read_body e = Inr body"
    "sorted_wrt (<) (map fst acc @ map fst entries)"
    "n + bundle_size entries \<le> MAX_TOTAL_RESPONSE_BYTES"
  shows "manifest_loop ext read_body (map (\<lambda>(key, e, body). e) entries) (acc, n) =
    Inr (acc @ set_of_entries entries, n + bundle_size entries)"
  using assms
proof (induction entries arbitrary: acc n)
  case Nil
  then show ?case
    by (simp add: set_of_entries_def bundle_size_def)
next
  case (Cons entry entries)
  obtain key e body where entry: "entry = (key, e, body)"
    by (cases entry)
  then obtain r where ok: "entry_ok ext key (e, body) r"
    using Cons.prems(1) by auto
  note valid = entry_ok_validates [OF ok]
  have runtime: "validate_runtime_response (be_replay ext) key r = Inr ()"
    using ok by (simp add: entry_ok_def)
  have response: "\<lparr>sp_status = me_status e, sp_headers = me_response_headers e, sp_representation = me_representation e,
      sp_body = sp_body r, sp_sha = sp_sha r\<rparr> = r"
    using valid(3,4,6) by (simp add: response_of_def)
  have size: "n + length body + bundle_size entries \<le> MAX_TOTAL_RESPONSE_BYTES"
    using Cons.prems(4) by (simp add: entry bundle_size_def)
  have below: "\<forall>x \<in> fst ` set acc. x < key"
    using Cons.prems(3) by (auto simp: entry sorted_wrt_append)
  then have new: "map_of acc key = None" "obj_put key r acc = acc @ [(key, r)]"
    by (auto simp: map_of_eq_None_iff obj_put_end)
  have "manifest_loop ext read_body (map (\<lambda>(key, e, body). e) (entry # entries)) (acc, n) =
    manifest_loop ext read_body (map (\<lambda>(key, e, body). e) entries) (acc @ [(key, r)], n + length body)"
    using valid runtime new size Cons.prems(2)
    by (simp add: entry response Let_def MAX_TOTAL_RESPONSE_BYTES_def)
  also have "\<dots> = Inr ((acc @ [(key, r)]) @ set_of_entries entries, n + length body + bundle_size entries)"
    using Cons.prems(1-3) size by (intro Cons.IH) (auto simp: entry)
  finally show ?case
    using valid(4) by (simp add: entry bundle_size_def add.assoc del: manifest_loop.simps list.map(2)) simp
qed

lemma str_trim_not_Nil:
  assumes "(32 :: nat) < of_char c" "of_char c < (128 :: nat)"
  shows "str_trim (c # s) \<noteq> []"
proof -
  obtain rest where chars: "str_chars (c # s) = of_char c # rest"
    using assms by (auto simp: str_chars_def str_bytes_def utf8_lossy_def char_byte_def Let_def unat_of_nat split: prod.splits)
  have "\<not> char_is_whitespace (of_char c)"
    using assms by (auto simp: char_is_whitespace_def)
  then show ?thesis
    using chars by (auto simp: str_trim_def chars_str_def bytes_str_def utf8_encode_def dropWhile_append3)
qed

text \<open>What a built bundle is.\<close>

lemma build_bundle_entries:
  assumes "build_bundle ext sources = Inr bundle"
  obtains entries bytes where
    "bundle_loop ext sources ([], 0) = Inr (entries, bundle_size entries)"
    "bundle_inv ext (entries, bundle_size entries)"
    "address_files entries [] = Inr (bb_files bundle)"
    "rm_fixtures (bb_manifest bundle) = map (\<lambda>(key, e, body). e) entries"
    "validate_manifest_header (bb_manifest bundle) = Inr ()"
    "manifest_bytes ext (bb_manifest bundle) = Inr bytes"
    "\<forall>src \<in> set sources. \<exists>key e r. bundle_item ext src = Inr (key, e, r) \<and> has_response entries key r"
    "entries \<noteq> []"
proof -
  obtain entries n where loop: "bundle_loop ext sources ([], 0) = Inr (entries, n)"
    and rest: "sources \<noteq> []" "length sources \<le> MAX_REPLAY_ENTRIES" "address_files entries [] = Inr (bb_files bundle)"
    "rm_fixtures (bb_manifest bundle) = map (\<lambda>(key, e, body). e) entries"
    "rm_artifact_type (bb_manifest bundle) = REPLAY_ARTIFACT_TYPE"
    "rm_format_version (bb_manifest bundle) = REPLAY_FORMAT_VERSION"
    "rm_version (bb_manifest bundle) = REPLAY_FORMAT_VERSION"
    "rm_generated_by (bb_manifest bundle) = ''shadowdroid net export fixtures ('' @ be_version ext @ '')''"
    "rm_count (bb_manifest bundle) = length entries"
    "\<exists>bytes. manifest_bytes ext (bb_manifest bundle) = Inr bytes"
    using assms by (auto simp: build_bundle_def Let_def)
  have inv: "bundle_inv ext (entries, n)"
    "\<forall>src \<in> set sources. \<exists>key e r. bundle_item ext src = Inr (key, e, r) \<and> has_response entries key r"
    "length entries \<le> length sources"
    using bundle_loop_inv [OF loop] by (auto simp: bundle_inv_def bundle_size_def)
  then have n: "n = bundle_size entries"
    by (simp add: bundle_inv_def)
  have nonempty: "entries \<noteq> []"
    using inv(2) rest(1) by (cases sources) (auto simp: has_response_def)
  have "validate_manifest_header (bb_manifest bundle) = Inr ()"
    using rest inv(3) nonempty str_trim_not_Nil [of "CHR ''s''"]
    by (simp add: validate_manifest_header_def)
  then show thesis
    using that loop inv rest n nonempty by blast
qed

lemma into_replay_set_entries:
  assumes "build_bundle ext sources = Inr bundle"
  obtains entries s where
    "into_replay_set ext bundle None = Inr s" "st_entries s = set_of_entries entries"
    "sorted_wrt (<) (map fst (st_entries s))"
    "\<forall>src \<in> set sources. \<exists>key e r. bundle_item ext src = Inr (key, e, r) \<and> has_response entries key r"
proof -
  from assms obtain entries bytes where b:
    "bundle_inv ext (entries, bundle_size entries)" "address_files entries [] = Inr (bb_files bundle)"
    "rm_fixtures (bb_manifest bundle) = map (\<lambda>(key, e, body). e) entries"
    "validate_manifest_header (bb_manifest bundle) = Inr ()"
    "manifest_bytes ext (bb_manifest bundle) = Inr bytes"
    "\<forall>src \<in> set sources. \<exists>key e r. bundle_item ext src = Inr (key, e, r) \<and> has_response entries key r"
    "entries \<noteq> []"
    by (rule build_bundle_entries) blast
  have ok: "\<forall>(key, eb) \<in> set entries. \<exists>r. entry_ok ext key eb r" "sorted_wrt (<) (map fst entries)"
    "bundle_size entries \<le> MAX_TOTAL_RESPONSE_BYTES"
    using b(1) by (auto simp: bundle_inv_def)
  have read: "read_built bundle e = Inr body" if entry: "(key, e, body) \<in> set entries" for key e body
  proof -
    obtain r where "entry_ok ext key (e, body) r"
      using ok(1) entry by fastforce
    then have "me_response_file e = (if body = [] then None else Some (response_path (sp_sha r)))"
      by (rule entry_ok_validates)
    then show ?thesis
      using address_files_binds [OF b(2) entry] by (simp add: read_built_def)
  qed
  have loop: "manifest_loop ext (read_built bundle) (rm_fixtures (bb_manifest bundle)) ([], 0) =
      Inr (set_of_entries entries, bundle_size entries)"
    using manifest_loop_entries [of entries ext "read_built bundle" "[]" 0] ok read b(3) by fastforce
  have nonempty: "set_of_entries entries \<noteq> []"
    using b(7) by (simp add: set_of_entries_def)
  then obtain s where s: "into_replay_set ext bundle None = Inr s" "st_entries s = set_of_entries entries"
    using b(4,5) loop by (simp add: into_replay_set_def replay_set_from_manifest_def Let_def)
  then have "sorted_wrt (<) (map fst (st_entries s))"
    using ok(2) by simp
  then show thesis
    using that s b(6) by blast
qed

text \<open>A lookup in a sorted set finds exactly the entry of the key.\<close>

lemma filter_key:
  fixes key :: "'k::linorder"
  shows "sorted_wrt (<) (map fst kvs) \<Longrightarrow>
   filter (\<lambda>(k, r). key \<le> k \<and> k \<le> key) kvs = (case map_of kvs key of None \<Rightarrow> [] | Some r \<Rightarrow> [(key, r)])"
proof (induction kvs)
  case (Cons kv kvs)
  have "filter (\<lambda>(k, r). key \<le> k \<and> k \<le> key) kvs = []" if "fst kv = key"
    using Cons.prems that by (force simp: filter_empty_conv)
  then show ?case
    using Cons by (cases kv) (auto simp: order_antisym_conv split: option.splits)
qed simp

lemma lookup_sorted:
  assumes "sorted_wrt (<) (map fst (st_entries s))" "request_key ext request = Inr key"
  shows "replay_lookup_set ext s request =
    Inr (case map_of (st_entries s) key of None \<Rightarrow> Miss | Some r \<Rightarrow> Hit r)"
  using assms filter_key [OF assms(1), of key]
  by (simp add: replay_lookup_set_def split: option.splits)

text \<open>
  Every flow of a bundle replays: the request of a recorded flow, looked up in the set the bundle
  becomes, finds a response with the status, the body and the stored headers of that very flow, and
  the conversion of a built bundle to a set never fails.
\<close>

lemma recorded_flow_found:
  assumes "build_bundle ext sources = Inr bundle" "src \<in> set sources"
  shows "\<exists>s body r. into_replay_set ext bundle None = Inr s \<and>
    exact_request_body (so_flow src) = Inr body \<and>
    replay_lookup_set (be_replay ext) s (request_of_flow (so_flow src) (so_port src) body) = Inr (Hit r) \<and>
    fr_status (so_flow src) = Some (sp_status r) \<and>
    exact_response_body (so_flow src) = Inr (sp_body r) \<and>
    stored_headers (be_replay ext) (so_flow src) = Inr (sp_headers r)"
proof -
  obtain entries s where s: "into_replay_set ext bundle None = Inr s" "st_entries s = set_of_entries entries"
    "sorted_wrt (<) (map fst (st_entries s))"
    "\<forall>src \<in> set sources. \<exists>key e r. bundle_item ext src = Inr (key, e, r) \<and> has_response entries key r"
    by (rule into_replay_set_entries [OF assms(1)])
  obtain key e r where item: "bundle_item ext src = Inr (key, e, r)" and has: "has_response entries key r"
    using s(4) assms(2) by blast
  then have found: "map_of (st_entries s) key = Some r"
    by (auto simp: s(2) map_of_set_of_entries has_response_def)
  obtain body where body: "exact_request_body (so_flow src) = Inr body"
    "request_key (be_replay ext) (request_of_flow (so_flow src) (so_port src) body) = Inr key"
    "fr_status (so_flow src) = Some (sp_status r)" "exact_response_body (so_flow src) = Inr (sp_body r)"
    "stored_headers (be_replay ext) (so_flow src) = Inr (sp_headers r)"
    using bundle_item_source [OF item] by blast
  then show ?thesis
    using s(1) found lookup_sorted [OF s(3) body(2)] by (intro exI [of _ s] exI [of _ body] exI [of _ r]) simp
qed

section \<open>Loaded sets and their payloads\<close>

definition entries_size :: "replay_entries \<Rightarrow> nat" where
  "entries_size entries = sum_list (map (\<lambda>(k, r). length (sp_body r)) entries)"

definition entry_valid :: "bundle_ext \<Rightarrow> replay_key \<times> stored_response \<Rightarrow> bool" where
  "entry_valid ext kr \<longleftrightarrow>
     validate_key (be_replay ext) (fst kr) = Inr () \<and>
     validate_runtime_response (be_replay ext) (fst kr) (snd kr) = Inr ()"

text \<open>What holds of the entries while they are collected.\<close>

definition entries_inv :: "bundle_ext \<Rightarrow> replay_entries \<times> nat \<Rightarrow> bool" where
  "entries_inv ext st \<longleftrightarrow>
     (case st of (entries, n) \<Rightarrow>
        sorted_wrt (<) (map fst entries) \<and> n = entries_size entries \<and> n \<le> MAX_TOTAL_RESPONSE_BYTES \<and>
        (\<forall>kr \<in> set entries. entry_valid ext kr))"

definition set_ok :: "bundle_ext \<Rightarrow> replay_set \<Rightarrow> bool" where
  "set_ok ext s \<longleftrightarrow>
     entries_inv ext (st_entries s, entries_size (st_entries s)) \<and>
     st_entries s \<noteq> [] \<and> length (st_entries s) \<le> MAX_REPLAY_ENTRIES \<and>
     st_active_sha s = active_entries_sha256 ext (st_entries s)"

lemma entries_size_put:
  "map_of entries k = None \<Longrightarrow> entries_size (obj_put k r entries) = entries_size entries + length (sp_body r)"
  by (induction k r entries rule: obj_put.induct) (auto simp: entries_size_def split: if_splits)

lemma entries_inv_put:
  assumes "entries_inv ext (entries, n)" "map_of entries k = None" "entry_valid ext (k, r)"
    "n + length (sp_body r) \<le> MAX_TOTAL_RESPONSE_BYTES"
  shows "entries_inv ext (obj_put k r entries, n + length (sp_body r))"
  using assms set_obj_put [of k r entries] obj_put_sorted [of entries k r] entries_size_put
  by (auto simp: entries_inv_def)

lemma manifest_loop_inv:
  "manifest_loop ext read_body es (entries, n) = Inr (entries', n') \<Longrightarrow> entries_inv ext (entries, n) \<Longrightarrow>
   entries_inv ext (entries', n') \<and> length entries' \<le> length entries + length es"
proof (induction es arbitrary: entries n)
  case Nil
  then show ?case
    by simp
next
  case (Cons e es)
  obtain body where step: "read_body e = Inr body" "length body = me_response_bytes e"
    "n + length body \<le> MAX_TOTAL_RESPONSE_BYTES" "map_of entries (me_match e) = None"
    "validate_manifest_entry ext e = Inr ()"
    "validate_runtime_response (be_replay ext) (me_match e) (response_of e body) = Inr ()"
    "manifest_loop ext read_body es (obj_put (me_match e) (response_of e body) entries, n + length body) = Inr (entries', n')"
    using Cons.prems(1) by (auto simp: response_of_def Let_def)
  then have "entry_valid ext (me_match e, response_of e body)"
    by (auto simp: entry_valid_def validate_manifest_entry_def Let_def)
  moreover have "length (sp_body (response_of e body)) = length body"
    by (simp add: response_of_def)
  ultimately have "entries_inv ext (obj_put (me_match e) (response_of e body) entries, n + length body)"
    using entries_inv_put [OF Cons.prems(2) step(4)] step(3) by metis
  then show ?case
    using Cons.IH [OF step(7)] length_obj_put [of "me_match e" "response_of e body" entries] by simp
qed

lemma entries_inv_filter:
  "entries_inv ext (entries, n) \<Longrightarrow> entries_inv ext (filter p entries, entries_size (filter p entries))"
proof -
  assume inv: "entries_inv ext (entries, n)"
  have "entries_size (filter p entries) \<le> entries_size entries"
    by (induction entries) (auto simp: entries_size_def)
  then show ?thesis
    using inv by (auto simp: entries_inv_def sorted_wrt_map intro!: sorted_wrt_filter)
qed

lemma replay_set_from_manifest_ok:
  assumes "replay_set_from_manifest ext m bytes host_filter read_body = Inr s"
  shows "set_ok ext s"
proof -
  obtain wanted entries n where loop: "manifest_loop ext read_body (rm_fixtures m) ([], 0) = Inr (entries, n)"
    and fixtures: "length (rm_fixtures m) \<le> MAX_REPLAY_ENTRIES"
    and s: "st_entries s = (case wanted of Some h \<Rightarrow> filter (\<lambda>(key, r). rk_host key = h) entries | None \<Rightarrow> entries)"
      "st_entries s \<noteq> []" "st_active_sha s = active_entries_sha256 ext (st_entries s)"
    using assms by (auto simp: replay_set_from_manifest_def validate_manifest_header_def Let_def)
  have inv: "entries_inv ext (entries, n)" "length entries \<le> length (rm_fixtures m)"
    using manifest_loop_inv [OF loop] by (auto simp: entries_inv_def entries_size_def)
  then have "entries_inv ext (entries, entries_size entries)"
    by (simp add: entries_inv_def)
  then have "entries_inv ext (st_entries s, entries_size (st_entries s))"
    using entries_inv_filter s(1) by (cases wanted) auto
  moreover have "length (st_entries s) \<le> length entries"
    using s(1) by (cases wanted) auto
  ultimately show ?thesis
    using s fixtures inv(2) by (simp add: set_ok_def)
qed

text \<open>Reading the entries of a well-formed set back.\<close>

lemma payload_loop_entries:
  "entries_inv ext (acc @ entries, n + entries_size entries) \<Longrightarrow>
   payload_loop ext entries (acc, n) = Inr (acc @ entries, n + entries_size entries)"
proof (induction entries arbitrary: acc n)
  case Nil
  then show ?case
    by (simp add: entries_size_def)
next
  case (Cons kr entries)
  obtain key r where kr: "kr = (key, r)"
    by (cases kr)
  have inv: "entries_inv ext ((acc @ [(key, r)]) @ entries, n + length (sp_body r) + entries_size entries)"
    using Cons.prems by (simp add: kr entries_size_def add.assoc)
  have "\<forall>x \<in> fst ` set acc. x < key"
    using Cons.prems by (auto simp: kr entries_inv_def sorted_wrt_append)
  then have "map_of acc key = None" "obj_put key r acc = acc @ [(key, r)]"
    by (auto simp: map_of_eq_None_iff obj_put_end)
  moreover have "entry_valid ext (key, r)" "n + length (sp_body r) \<le> MAX_TOTAL_RESPONSE_BYTES"
    using Cons.prems by (auto simp: kr entries_inv_def entries_size_def)
  ultimately show ?case
    using Cons.IH [OF inv] by (simp add: kr entry_valid_def MAX_TOTAL_RESPONSE_BYTES_def entries_size_def add.assoc)
qed

lemma payload_loop_inv:
  "payload_loop ext kvs (entries, n) = Inr (entries', n') \<Longrightarrow> entries_inv ext (entries, n) \<Longrightarrow>
   entries_inv ext (entries', n')"
proof (induction kvs arbitrary: entries n)
  case (Cons kr kvs)
  obtain key r where kr: "kr = (key, r)"
    by (cases kr)
  show ?case
    using Cons entries_inv_put [of ext entries n key r]
    by (auto simp: kr entry_valid_def)
qed simp

lemma from_payload_sorted:
  assumes "from_payload ext p = Inr s"
  shows "sorted_wrt (<) (map fst (st_entries s))"
proof -
  obtain entries n where "payload_loop ext (ry_entries p) ([], 0) = Inr (entries, n)" "st_entries s = entries"
    using assms by (auto simp: from_payload_def)
  then show ?thesis
    using payload_loop_inv by (fastforce simp: entries_inv_def entries_size_def)
qed

text \<open>
  A replay set reaches the daemon unchanged: the payload of a set loaded from a manifest is accepted,
  has the same entries and the same digest, and answers every request alike.
\<close>

lemma payload_same_set:
  assumes "replay_set_from_manifest ext m bytes host_filter read_body = Inr s"
    "is_sha256 (active_entries_sha256 ext (st_entries s))"
  shows "\<exists>s'. from_payload ext (to_payload s) = Inr s' \<and> st_entries s' = st_entries s \<and>
    st_active_sha s' = st_active_sha s \<and>
    (\<forall>request. replay_lookup_set (be_replay ext) s' request = replay_lookup_set (be_replay ext) s request)"
proof -
  have ok: "set_ok ext s"
    using assms(1) by (rule replay_set_from_manifest_ok)
  then have "payload_loop ext (st_entries s) ([], 0) = Inr (st_entries s, entries_size (st_entries s))"
    using payload_loop_entries [of ext "[]" "st_entries s" 0] by (simp add: set_ok_def)
  then show ?thesis
    using ok assms(2)
    by (simp add: from_payload_def to_payload_def set_ok_def validate_sha256_def replay_lookup_set_def)
qed

text \<open>
  C24: a payload the daemon accepts never answers a request ambiguously, and a hit is a response
  that passed validation for exactly the key of the request.
\<close>

theorem replay_is_deterministic:
  assumes "from_payload ext p = Inr s" "replay_lookup_set (be_replay ext) s request = Inr result"
  shows "result = Miss \<or>
    (\<exists>key r. result = Hit r \<and> request_key (be_replay ext) request = Inr key \<and> (key, r) \<in> set (st_entries s) \<and>
      validate_runtime_response (be_replay ext) key r = Inr ())"
proof -
  obtain key where key: "request_key (be_replay ext) request = Inr key"
    using assms(2) by (auto simp: replay_lookup_set_def)
  obtain entries n where loop: "payload_loop ext (ry_entries p) ([], 0) = Inr (entries, n)" "st_entries s = entries"
    using assms(1) by (auto simp: from_payload_def)
  then have inv: "entries_inv ext (entries, n)"
    using payload_loop_inv [OF loop(1)] by (simp add: entries_inv_def entries_size_def)
  have "result = (case map_of (st_entries s) key of None \<Rightarrow> Miss | Some r \<Rightarrow> Hit r)"
    using lookup_sorted [OF from_payload_sorted [OF assms(1)] key] assms(2) by simp
  then show ?thesis
    using key inv loop(2) by (auto simp: entries_inv_def entry_valid_def split: option.splits dest!: map_of_SomeD)
qed

section \<open>Writing over an old bundle\<close>

abbreviation response_write :: "string \<times> string \<Rightarrow> bundle_write" where
  "response_write pb \<equiv> WriteResponse (fst pb) (snd pb)"

lemma response_writes_shape:
  "response_writes ext d files = (ws, ok) \<Longrightarrow>
   \<exists>l. ws = map response_write l \<and> (\<forall>pb \<in> set l. bd_files d (fst pb) = None) \<and>
     (ok \<longrightarrow> l = filter (\<lambda>pb. bd_files d (fst pb) = None) files \<and>
       (\<forall>pb \<in> set files. bd_files d (fst pb) = None \<or> bd_files d (fst pb) = Some (snd pb)))"
proof (induction files arbitrary: ws)
  case (Cons pb files)
  obtain path body where pb: "pb = (path, body)"
    by (cases pb)
  consider "validate_response_relative_path path (be_sha ext (str_bytes body)) \<noteq> Inr ()"
    | existing where "validate_response_relative_path path (be_sha ext (str_bytes body)) = Inr ()"
      "bd_files d path = Some existing" "existing \<noteq> body"
    | "validate_response_relative_path path (be_sha ext (str_bytes body)) = Inr ()" "bd_files d path = Some body"
    | rest where "validate_response_relative_path path (be_sha ext (str_bytes body)) = Inr ()"
      "bd_files d path = None" "response_writes ext d files = (rest, ok)" "ws = WriteResponse path body # rest"
    using Cons.prems by (fastforce simp: pb split: if_splits option.splits prod.splits)
  then show ?case
  proof cases
    case 1
    then show ?thesis
      using Cons.prems by (auto simp: pb)
  next
    case 2
    then show ?thesis
      using Cons.prems by (auto simp: pb)
  next
    case 3
    then show ?thesis
      using Cons by (auto simp: pb)
  next
    case 4
    then obtain l where l: "rest = map response_write l" "\<forall>pb \<in> set l. bd_files d (fst pb) = None"
      "ok \<longrightarrow> l = filter (\<lambda>pb. bd_files d (fst pb) = None) files \<and>
       (\<forall>pb \<in> set files. bd_files d (fst pb) = None \<or> bd_files d (fst pb) = Some (snd pb))"
      using Cons.IH [OF 4(3)] by (elim exE conjE) (rule that)
    have "ws = map response_write (pb # l)" "\<forall>q \<in> set (pb # l). bd_files d (fst q) = None"
      using 4(2,4) l(1,2) by (simp_all add: pb)
    moreover have "ok \<longrightarrow> pb # l = filter (\<lambda>q. bd_files d (fst q) = None) (pb # files) \<and>
        (\<forall>q \<in> set (pb # files). bd_files d (fst q) = None \<or> bd_files d (fst q) = Some (snd q))"
      using 4(2) l(3) by (simp add: pb)
    ultimately show ?thesis
      by blast
  qed
qed simp

lemma fold_response_writes:
  "fold apply_write (map response_write l) d = d\<lparr>bd_files := bd_files d ++ map_of (rev l)\<rparr>"
  by (induction l rule: rev_induct) (auto simp: map_add_def fun_eq_iff split: option.splits)

lemma read_dir_mono:
  "(\<And>p b. bd_files d p = Some b \<Longrightarrow> bd_files d' p = Some b) \<Longrightarrow> read_dir d e = Inr b \<Longrightarrow> read_dir d' e = Inr b"
  by (auto simp: read_dir_def split: option.splits)

lemma manifest_loop_mono:
  "(\<And>e b. e \<in> set es \<Longrightarrow> rb e = Inr b \<Longrightarrow> rb' e = Inr b) \<Longrightarrow>
   manifest_loop ext rb es st = Inr st' \<Longrightarrow> manifest_loop ext rb' es st = Inr st'"
proof (induction es arbitrary: st)
  case (Cons e es)
  obtain entries n where st: "st = (entries, n)"
    by (cases st)
  show ?case
    using Cons by (auto simp: st Let_def)
qed simp

lemma replay_set_mono:
  "(\<And>e b. e \<in> set (rm_fixtures m) \<Longrightarrow> rb e = Inr b \<Longrightarrow> rb' e = Inr b) \<Longrightarrow>
   replay_set_from_manifest ext m bytes hf rb = Inr s \<Longrightarrow> replay_set_from_manifest ext m bytes hf rb' = Inr s"
proof -
  assume rb: "\<And>e b. e \<in> set (rm_fixtures m) \<Longrightarrow> rb e = Inr b \<Longrightarrow> rb' e = Inr b"
    and ok: "replay_set_from_manifest ext m bytes hf rb = Inr s"
  obtain st where loop: "manifest_loop ext rb (rm_fixtures m) ([], 0) = Inr st"
    using ok by (auto simp: replay_set_from_manifest_def)
  then have "manifest_loop ext rb' (rm_fixtures m) ([], 0) = Inr st"
    using manifest_loop_mono rb by blast
  then show ?thesis
    using ok loop by (simp add: replay_set_from_manifest_def)
qed

lemma load_bundle_mono:
  assumes "bd_manifest d' = bd_manifest d" "\<And>p b. bd_files d p = Some b \<Longrightarrow> bd_files d' p = Some b"
    "load_bundle ext d hf = Inr s"
  shows "load_bundle ext d' hf = Inr s"
  using assms(1,3) read_dir_mono [OF assms(2)]
  by (auto simp: load_bundle_def intro: replay_set_mono [where rb = "read_dir d"] split: option.splits)

lemma address_files_distinct:
  "address_files entries files = Inr files' \<Longrightarrow> sorted_wrt (<) (map fst files) \<Longrightarrow> sorted_wrt (<) (map fst files')"
  by (induction entries files rule: address_files.induct) (auto simp: obj_put_sorted split: option.splits)

text \<open>What is on disk after the writes of a bundle.\<close>

lemma map_of_rev_distinct: "distinct (map fst kvs) \<Longrightarrow> map_of (rev kvs) = map_of kvs"
proof (induction kvs)
  case (Cons kv kvs)
  then have "map_of kvs (fst kv) = None"
    by (simp add: map_of_eq_None_iff)
  then show ?case
    using Cons by (auto simp: fun_eq_iff map_add_def split: option.splits)
qed simp

lemma response_writes_done:
  assumes "response_writes ext d files = (map response_write l, True)" "sorted_wrt (<) (map fst files)"
    "map_of files p = Some b"
  shows "bd_files (fold apply_write (map response_write l) d) p = Some b"
proof -
  have "inj response_write"
    by (rule injI) (auto simp: prod_eq_iff)
  moreover obtain l' where l': "map response_write l = map response_write l'"
    "l' = filter (\<lambda>pb. bd_files d (fst pb) = None) files"
    "\<forall>pb \<in> set files. bd_files d (fst pb) = None \<or> bd_files d (fst pb) = Some (snd pb)"
    using response_writes_shape [OF assms(1)] by blast
  ultimately have "l = l'"
    by (simp add: inj_map_eq_map)
  note inj = this [unfolded l'(2)] l'(3)
  have dist: "distinct (map fst files)"
    using assms(2) by (simp add: strict_sorted_iff)
  then have "distinct (map fst l)"
    using inj(1) by (simp add: distinct_map_filter)
  then have "map_of (rev l) = map_of l"
    by (rule map_of_rev_distinct)
  moreover have "map_of l p = (if bd_files d p = None then Some b else None)"
  proof (cases "bd_files d p = None")
    case True
    then have "(p, b) \<in> set l"
      using inj(1) map_of_SomeD [OF assms(3)] by simp
    then show ?thesis
      using True dist inj(1) by (simp add: distinct_map_filter)
  next
    case False
    then show ?thesis
      using inj(1) by (auto simp: map_of_eq_None_iff)
  qed
  ultimately show ?thesis
    using inj(2) map_of_SomeD [OF assms(3)] by (auto simp: fold_response_writes map_add_def)
qed

lemma manifest_loop_cong:
  "\<forall>e \<in> set es. rb e = rb' e \<Longrightarrow> manifest_loop ext rb es st = manifest_loop ext rb' es st"
proof (induction es arbitrary: st)
  case (Cons e es)
  then have "\<And>st. manifest_loop ext rb es st = manifest_loop ext rb' es st" "rb e = rb' e"
    by simp_all
  then show ?case
    by simp
qed simp

lemma replay_set_cong:
  "\<forall>e \<in> set (rm_fixtures m). rb e = rb' e \<Longrightarrow>
   replay_set_from_manifest ext m bytes hf rb = replay_set_from_manifest ext m bytes hf rb'"
  by (simp add: replay_set_from_manifest_def manifest_loop_cong [of _ rb rb'])

lemma built_files_sorted:
  assumes "build_bundle ext sources = Inr bundle"
  shows "sorted_wrt (<) (map fst (bb_files bundle))"
proof -
  obtain entries where "address_files entries [] = Inr (bb_files bundle)"
    by (rule build_bundle_entries [OF assms])
  then show ?thesis
    by (rule address_files_distinct) simp
qed

text \<open>A directory that holds the files of a bundle is read as the bundle itself.\<close>

lemma built_files_readable:
  assumes "build_bundle ext sources = Inr bundle" "list_all (\<lambda>(path, body). utf8_valid (str_bytes body)) (bb_files bundle)"
    "\<And>p b. map_of (bb_files bundle) p = Some b \<Longrightarrow> bd_files d p = Some b"
  shows "\<forall>e \<in> set (rm_fixtures (bb_manifest bundle)). read_dir d e = read_built bundle e"
proof
  fix e
  assume e: "e \<in> set (rm_fixtures (bb_manifest bundle))"
  obtain entries where files: "address_files entries [] = Inr (bb_files bundle)"
    and fixtures: "rm_fixtures (bb_manifest bundle) = map (\<lambda>(key, e, body). e) entries"
    and inv: "bundle_inv ext (entries, bundle_size entries)"
    by (rule build_bundle_entries [OF assms(1)])
  obtain key body where entry: "(key, e, body) \<in> set entries"
    using e fixtures by auto
  then obtain r where ok: "entry_ok ext key (e, body) r"
    using inv by (fastforce simp: bundle_inv_def)
  note valid = entry_ok_validates [OF ok]
  show "read_dir d e = read_built bundle e"
  proof (cases "body = []")
    case True
    then show ?thesis
      using valid(8) by (simp add: read_dir_def read_built_def)
  next
    case False
    then have path: "me_response_file e = Some (response_path (sp_sha r))"
      using valid(8) by simp
    then have built: "map_of (bb_files bundle) (response_path (sp_sha r)) = Some body"
      using address_files_binds [OF files entry] by simp
    then have "utf8_valid (str_bytes body)"
      using assms(2) map_of_SomeD by (fastforce simp: list_all_iff)
    moreover have "is_sha256 (sp_sha r)" "length body \<le> MAX_RESPONSE_BODY_BYTES"
      using ok by (auto simp: entry_ok_def validate_runtime_response_def validate_sha256_def)
    ultimately show ?thesis
      using path built assms(3) [OF built] response_path_ok [of "sp_sha r"] valid(6)
      by (simp add: read_dir_def read_built_def)
  qed
qed

lemma take_responses_load:
  assumes "\<forall>pb \<in> set l. bd_files d (fst pb) = None" "load_bundle ext d hf = Inr old"
  shows "load_bundle ext (fold apply_write (map response_write (take k l)) d) hf = Inr old"
proof (rule load_bundle_mono [OF _ _ assms(2)])
  fix p b
  assume old: "bd_files d p = Some b"
  have "map_of (rev (take k l)) p = None"
    using assms(1) old by (fastforce simp: map_of_eq_None_iff dest: in_set_takeD)
  then show "bd_files (fold apply_write (map response_write (take k l)) d) p = Some b"
    using old by (simp add: fold_response_writes map_add_def)
qed (simp add: fold_response_writes)

text \<open>
  C22: writing a bundle into a directory that holds an older one is safe at every point. After any
  number of its writes the directory loads as the old set, exactly as before, until the last write of
  a successful run, after which it loads as the set of the new bundle.
\<close>

theorem write_bundle_crash_safe:
  assumes "write_bundle ext sources d = (ws, ok)" "build_bundle ext sources = Inr bundle"
    "\<And>bytes. manifest_bytes ext (bb_manifest bundle) = Inr bytes \<Longrightarrow> be_parse_manifest ext bytes = Some (bb_manifest bundle)"
    "list_all (\<lambda>(path, body). utf8_valid (str_bytes body)) (bb_files bundle)"
    "load_bundle ext d hf = Inr old"
  shows "load_bundle ext (fold apply_write (take k ws) d) hf =
    (if ok \<and> length ws \<le> k then into_replay_set ext bundle hf else Inr old)"
proof -
  obtain rws rok where rw: "response_writes ext d (bb_files bundle) = (rws, rok)"
    by (cases "response_writes ext d (bb_files bundle)")
  obtain l where l: "rws = map response_write l" "\<forall>pb \<in> set l. bd_files d (fst pb) = None"
    using response_writes_shape [OF rw] by blast
  have shape: "(\<not> ok \<and> ws = rws) \<or>
      (ok \<and> rok \<and> (\<exists>bytes. manifest_bytes ext (bb_manifest bundle) = Inr bytes \<and> ws = rws @ [WriteManifest bytes]))"
    using assms(1,2) rw by (auto simp: write_bundle_def split: if_splits sum.splits)
  show ?thesis
  proof (cases "ok \<and> length ws \<le> k")
    case True
    then obtain bytes where bytes: "manifest_bytes ext (bb_manifest bundle) = Inr bytes"
      "take k ws = map response_write l @ [WriteManifest bytes]" "rok"
      using shape l(1) by auto
    define d' where "d' = fold apply_write (take k ws) d"
    have "\<And>p b. map_of (bb_files bundle) p = Some b \<Longrightarrow> bd_files d' p = Some b"
      using response_writes_done [of ext d "bb_files bundle" l] rw l(1) bytes(2,3) built_files_sorted [OF assms(2)]
      by (simp add: d'_def)
    then have readable: "\<forall>e \<in> set (rm_fixtures (bb_manifest bundle)). read_dir d' e = read_built bundle e"
      using built_files_readable [OF assms(2,4)] by blast
    have "bd_manifest d' = Some bytes" "length bytes \<le> MAX_MANIFEST_BYTES"
      using bytes(1,2) by (auto simp: d'_def manifest_bytes_def Let_def)
    then have "load_bundle ext d' hf = into_replay_set ext bundle hf"
      using bytes(1) assms(3) [OF bytes(1)] replay_set_cong [OF readable]
      by (simp add: load_bundle_def into_replay_set_def)
    then show ?thesis
      using True by (simp add: d'_def)
  next
    case False
    then have "take k ws = map response_write (take k l)"
      using shape l(1) by (auto simp: take_map)
    then have "load_bundle ext (fold apply_write (take k ws) d) hf = Inr old"
      using l(2) take_responses_load [OF _ assms(5)] by simp
    then show ?thesis
      using False by auto
  qed
qed

section \<open>What a key ignores\<close>

lemma collect_Inr: "collect xs = Inr ys \<longleftrightarrow> xs = map Inr ys"
proof (induction xs arbitrary: ys)
  case (Cons x xs)
  then show ?case
    by (cases ys) auto
qed auto

text \<open>
  The order of the parameters of a query does not matter for replay: queries whose pairs are a
  rearrangement of each other have the same canonical query, and one is refused when the other is.
\<close>

theorem query_order_free:
  assumes "mset (split_on CHR ''&'' q) = mset (split_on CHR ''&'' q')" "canonical_query ext q = Inr c"
    "q \<noteq> []" "q' \<noteq> []"
  shows "canonical_query ext q' = Inr c"
proof -
  obtain pairs where pairs: "map (query_pair ext) (split_on CHR ''&'' q) = map Inr pairs"
    "c = join_with ''&'' (map (encode_pair ext) (sort pairs))"
    using assms(2,3) by (auto simp: canonical_query_def collect_Inr)
  define pairs' where "pairs' = map (projr \<circ> query_pair ext) (split_on CHR ''&'' q')"
  have perm: "mset (map (query_pair ext) (split_on CHR ''&'' q')) = mset (map Inr pairs)"
    using assms(1) pairs(1) by (metis mset_map)
  then have "\<forall>x \<in> set (map (query_pair ext) (split_on CHR ''&'' q')). \<exists>y. x = Inr y"
    using mset_eq_setD [OF perm] by auto
  then have all: "map (query_pair ext) (split_on CHR ''&'' q') = map Inr pairs'"
    by (auto simp: pairs'_def)
  from perm [unfolded all] have "image_mset projr (mset (map Inr pairs' :: (string \<times> string) outcome list)) =
      image_mset projr (mset (map Inr pairs :: (string \<times> string) outcome list))"
    by (rule arg_cong)
  then have "mset pairs' = mset pairs"
    by (simp add: image_mset.compositionality comp_def)
  then have "sort pairs' = sort pairs"
    by (metis properties_for_sort sorted_sort mset_sort)
  then show ?thesis
    using all pairs(2) assms(4) by (simp add: canonical_query_def collect_Inr)
qed

end
