(* ===== verification/ProxyRules.thy ===== *)
theory ProxyRules
  imports ProxyHttp NetRuleCheck
begin

text \<open>
  The declarative rules as the proxy applies them to a request and to a response
  (\<^verbatim>\<open>apply_request_rules\<close>, \<^verbatim>\<open>apply_response_rules\<close> in \<^verbatim>\<open>net/proxy.rs\<close>). The active rules are a list of
  identified compiled rules; applying a JSON edit updates the counters of its rule, so the response
  phase returns the rules as well.
\<close>

type_synonym active_rules = "(string \<times> compiled_rule) list"

section \<open>Request phase\<close>

record req_rules =
  rr_short_circuit :: "synthetic option"
  rr_delay_ms :: nat
  rr_modified :: bool
  rr_rule_ids :: "string list"

definition req_rules_default :: req_rules where
  "req_rules_default = \<lparr>rr_short_circuit = None, rr_delay_ms = 0, rr_modified = False, rr_rule_ids = []\<rparr>"

definition extend_rule_ids :: "string list \<Rightarrow> string list \<Rightarrow> string list" where
  "extend_rule_ids target incoming =
     foldl (\<lambda>ids i. if i \<in> set ids then ids else ids @ [i]) target incoming"

definition request_context :: "string \<Rightarrow> string \<Rightarrow> string \<Rightarrow> byte list \<Rightarrow> match_context" where
  "request_context method host path body =
     \<lparr>mc_host = host, mc_path = path, mc_method = method, mc_status = None, mc_content_type = None,
      mc_body = body, mc_direction = None, mc_opcode = None\<rparr>"

definition request_rule_matches ::
  "http_ext \<Rightarrow> string \<Rightarrow> string \<Rightarrow> string \<Rightarrow> byte list \<Rightarrow> string \<Rightarrow> rule_spec \<Rightarrow> bool" where
  "request_rule_matches ext method host path body url spec \<longleftrightarrow>
     (let (match_host, match_path) =
        (case rs_match_on spec of
           MatchOriginal \<Rightarrow> (host, path)
         | MatchTransformed \<Rightarrow> effective_url_parts ext url host path)
      in matches (hx_rule ext) (request_context method match_host match_path body) (rs_matcher spec))"

definition hit :: "string \<Rightarrow> req_rules \<Rightarrow> req_rules" where
  "hit rid out = out\<lparr>rr_modified := True, rr_rule_ids := rr_rule_ids out @ [rid]\<rparr>"

fun request_rules_loop ::
  "http_ext \<Rightarrow> string \<Rightarrow> string \<Rightarrow> string \<Rightarrow> byte list \<Rightarrow> active_rules \<Rightarrow>
   string \<times> headers \<times> req_rules \<Rightarrow> string \<times> headers \<times> req_rules" where
  "request_rules_loop ext method host path body [] st = st"
| "request_rules_loop ext method host path body ((rid, rule) # rules) (url, headers, out) =
     (let spec = cr_spec rule; loop = request_rules_loop ext method host path body rules in
      if phase spec \<noteq> PhaseRequest then loop (url, headers, out)
      else if \<not> request_rule_matches ext method host path body url spec then loop (url, headers, out)
      else case rs_action spec of
        Terminal (Respond response) \<Rightarrow>
          (url, headers, hit rid out\<lparr>rr_short_circuit :=
             Some (sr_status response, sr_headers response, sr_body response)\<rparr>)
      | Terminal (Block status) \<Rightarrow> (url, headers, hit rid out\<lparr>rr_short_circuit := Some (status, [], [])\<rparr>)
      | Terminal (MapLocal file) \<Rightarrow>
          (case cr_local_response rule of
             Some local \<Rightarrow>
               (url, headers, hit rid out\<lparr>rr_short_circuit :=
                  Some (lr_status local, lr_headers local, lr_body local)\<rparr>)
           | None \<Rightarrow> loop (url, headers, out))
      | Transform (MapRemote target) \<Rightarrow> loop (rewrite_url url target, headers, hit rid out)
      | Transform (SetRequestHeader name value) \<Rightarrow> loop (url, set_header_vec headers name value, hit rid out)
      | Delay ms \<Rightarrow>
          loop (url, headers, out\<lparr>rr_delay_ms := max (rr_delay_ms out) ms,
                                  rr_rule_ids := rr_rule_ids out @ [rid]\<rparr>)
      | _ \<Rightarrow> loop (url, headers, out))"

definition apply_request_rules ::
  "http_ext \<Rightarrow> active_rules \<Rightarrow> string \<Rightarrow> string \<Rightarrow> string \<Rightarrow> byte list \<Rightarrow> string \<Rightarrow> headers \<Rightarrow>
   string \<times> headers \<times> req_rules" where
  "apply_request_rules ext rules method host path body url headers =
     request_rules_loop ext method host path body rules (url, headers, req_rules_default)"

section \<open>Response phase\<close>

definition response_context ::
  "string \<Rightarrow> string \<Rightarrow> string \<Rightarrow> nat option \<Rightarrow> string option \<Rightarrow> byte list \<Rightarrow> match_context" where
  "response_context method host path status ct body =
     \<lparr>mc_host = host, mc_path = path, mc_method = method, mc_status = status, mc_content_type = ct,
      mc_body = body, mc_direction = None, mc_opcode = None\<rparr>"

type_synonym resp_state = "nat option \<times> headers \<times> byte list"

text \<open>What one matching rule does: its updated form, the response, and whether it was applied.\<close>

definition apply_response_rule ::
  "http_ext \<Rightarrow> json_ext \<Rightarrow> bool \<Rightarrow> compiled_rule \<Rightarrow> resp_state \<Rightarrow> compiled_rule \<times> resp_state \<times> bool" where
  "apply_response_rule ext jx allow_body rule st =
     (let (status, headers, body) = st in
      case rs_action (cr_spec rule) of
        Transform (SetStatus new_status) \<Rightarrow> (rule, (Some new_status, headers, body), True)
      | Transform (SetResponseHeader name value) \<Rightarrow>
          if is_response_framing_header name then (rule, st, False)
          else (rule, (status, set_header_vec headers name value, body), True)
      | Transform (ReplaceBody pattern replacement) \<Rightarrow>
          if \<not> allow_body then (rule, st, False)
          else
            (case (cr_replace_regex rule, from_utf8 body) of
               (Some regex, Some txt) \<Rightarrow>
                 if hx_regex_match ext regex txt = Some True then
                   let new = str_bytes (hx_regex_replace ext regex replacement txt) in
                   if new \<noteq> body then (rule, (status, strip_body_validators headers, new), True)
                   else (rule, st, False)
                 else (rule, st, False)
             | _ \<Rightarrow> (rule, st, False))
      | Transform (SetJson pointer expected value limit) \<Rightarrow>
          if \<not> allow_body then (rule, st, False)
          else
            (case apply_json jx (cr_spec rule) (cr_json_runtime rule) body of
               (runtime, Inr (Some replacement)) \<Rightarrow>
                 (rule\<lparr>cr_json_runtime := runtime\<rparr>, (status, strip_body_validators headers, replacement), True)
             | (runtime, _) \<Rightarrow> (rule\<lparr>cr_json_runtime := runtime\<rparr>, st, False))
      | _ \<Rightarrow> (rule, st, False))"

definition response_rule_matches ::
  "http_ext \<Rightarrow> string \<Rightarrow> string \<times> string \<Rightarrow> string \<times> string \<Rightarrow> nat option \<Rightarrow> string option \<Rightarrow> byte list \<Rightarrow>
   resp_state \<Rightarrow> rule_spec \<Rightarrow> bool" where
  "response_rule_matches ext method original effective original_status original_type request_body st spec \<longleftrightarrow>
     (let (status, headers, body) = st;
          ctx = (case rs_match_on spec of
                   MatchOriginal \<Rightarrow>
                     response_context method (fst original) (snd original) original_status original_type
                       request_body
                 | MatchTransformed \<Rightarrow>
                     response_context method (fst effective) (snd effective) status
                       (content_type (hx_rule ext) headers) request_body)
      in matches (hx_rule ext) ctx (rs_matcher spec))"

fun response_rules_loop ::
  "http_ext \<Rightarrow> json_ext \<Rightarrow> bool \<Rightarrow> (resp_state \<Rightarrow> rule_spec \<Rightarrow> bool) \<Rightarrow> active_rules \<Rightarrow> resp_state \<Rightarrow>
   active_rules \<times> resp_state \<times> string list" where
  "response_rules_loop ext jx allow_body matching [] st = ([], st, [])"
| "response_rules_loop ext jx allow_body matching ((rid, rule) # rules) st =
     (if phase (cr_spec rule) \<noteq> PhaseResponse \<or> \<not> matching st (cr_spec rule) then
        (let (rules', st', ids) = response_rules_loop ext jx allow_body matching rules st
         in ((rid, rule) # rules', st', ids))
      else
        (let (rule', st1, applied) = apply_response_rule ext jx allow_body rule st;
             (rules', st', ids) = response_rules_loop ext jx allow_body matching rules st1
         in ((rid, rule') # rules', st', if applied then rid # ids else ids)))"

definition apply_response_rules ::
  "http_ext \<Rightarrow> json_ext \<Rightarrow> active_rules \<Rightarrow> string \<Rightarrow> string \<Rightarrow> string \<Rightarrow> string \<Rightarrow> resp_state \<Rightarrow> bool \<Rightarrow>
   byte list \<Rightarrow> active_rules \<times> resp_state \<times> string list" where
  "apply_response_rules ext jx rules method host path effective_url st allow_body request_body =
     response_rules_loop ext jx allow_body
       (response_rule_matches ext method (host, path) (effective_url_parts ext effective_url host path)
          (fst st) (content_type (hx_rule ext) (fst (snd st))) request_body)
       rules st"

section \<open>What the request rules decide\<close>

text \<open>The answer a rule gives in place of the upstream, if it gives one.\<close>

definition answer_of :: "compiled_rule \<Rightarrow> synthetic option" where
  "answer_of rule =
     (case rs_action (cr_spec rule) of
        Terminal (Respond r) \<Rightarrow> Some (sr_status r, sr_headers r, sr_body r)
      | Terminal (Block status) \<Rightarrow> Some (status, [], [])
      | Terminal (MapLocal file) \<Rightarrow>
          map_option (\<lambda>l. (lr_status l, lr_headers l, lr_body l)) (cr_local_response rule)
      | _ \<Rightarrow> None)"

definition remaps :: "compiled_rule \<Rightarrow> string \<Rightarrow> string" where
  "remaps rule url =
     (case rs_action (cr_spec rule) of Transform (MapRemote target) \<Rightarrow> rewrite_url url target | _ \<Rightarrow> url)"

definition sets_header :: "compiled_rule \<Rightarrow> headers \<Rightarrow> headers" where
  "sets_header rule headers =
     (case rs_action (cr_spec rule) of
        Transform (SetRequestHeader name value) \<Rightarrow> set_header_vec headers name value | _ \<Rightarrow> headers)"

definition delays :: "compiled_rule \<Rightarrow> nat" where
  "delays rule = (case rs_action (cr_spec rule) of Delay ms \<Rightarrow> ms | _ \<Rightarrow> 0)"

definition changes_request :: "compiled_rule \<Rightarrow> bool" where
  "changes_request rule \<longleftrightarrow>
     (case rs_action (cr_spec rule) of
        Delay ms \<Rightarrow> False | Terminal (MapLocal file) \<Rightarrow> cr_local_response rule \<noteq> None | _ \<Rightarrow> True)"

definition acts :: "compiled_rule \<Rightarrow> bool" where
  "acts rule \<longleftrightarrow> changes_request rule \<or> (case rs_action (cr_spec rule) of Delay ms \<Rightarrow> True | _ \<Rightarrow> False)"

text \<open>The rules that take part: those that match, up to and including the first that answers.\<close>

fun upto_answer :: "active_rules \<Rightarrow> active_rules" where
  "upto_answer [] = []"
| "upto_answer (r # rs) = (if answer_of (snd r) \<noteq> None then [r] else r # upto_answer rs)"

definition matching_rules ::
  "http_ext \<Rightarrow> string \<Rightarrow> string \<Rightarrow> string \<Rightarrow> byte list \<Rightarrow> active_rules \<Rightarrow> active_rules" where
  "matching_rules ext method host path body rules =
     filter (\<lambda>(rid, rule). phase (cr_spec rule) = PhaseRequest \<and>
               matches (hx_rule ext) (request_context method host path body) (rs_matcher (cr_spec rule)))
       rules"

lemma max_acc: "foldl max (max a b) xs = max a (foldl max b (xs :: nat list))"
  by (induction xs arbitrary: a b) (auto simp: max.assoc max.left_commute)

lemma request_phase_action:
  "phase (cr_spec rule) = PhaseRequest \<Longrightarrow>
   (\<exists>ms. rs_action (cr_spec rule) = Delay ms) \<or> (\<exists>t. rs_action (cr_spec rule) = Transform (MapRemote t)) \<or>
   (\<exists>n v. rs_action (cr_spec rule) = Transform (SetRequestHeader n v)) \<or>
   (\<exists>s. rs_action (cr_spec rule) = Terminal (Block s)) \<or> (\<exists>p. rs_action (cr_spec rule) = Terminal (MapLocal p)) \<or>
   (\<exists>r. rs_action (cr_spec rule) = Terminal (Respond r))"
  by (auto simp: phase_def split: rule_action.splits rule_transform.splits rule_terminal.splits
      elim: transform_phase.elims terminal_phase.elims)

lemma request_effects:
  "rs_action (cr_spec rule) = Delay ms \<Longrightarrow>
   answer_of rule = None \<and> remaps rule u = u \<and> sets_header rule h = h \<and>
   delays rule = ms \<and> (changes_request rule \<longleftrightarrow> False) \<and> (acts rule \<longleftrightarrow> True)"
  "rs_action (cr_spec rule) = Transform (MapRemote t) \<Longrightarrow>
   answer_of rule = None \<and> remaps rule u = rewrite_url u t \<and> sets_header rule h = h \<and>
   delays rule = 0 \<and> (changes_request rule \<longleftrightarrow> True) \<and> (acts rule \<longleftrightarrow> True)"
  "rs_action (cr_spec rule) = Transform (SetRequestHeader n v) \<Longrightarrow>
   answer_of rule = None \<and> remaps rule u = u \<and> sets_header rule h = set_header_vec h n v \<and>
   delays rule = 0 \<and> (changes_request rule \<longleftrightarrow> True) \<and> (acts rule \<longleftrightarrow> True)"
  "rs_action (cr_spec rule) = Terminal (Block s) \<Longrightarrow>
   answer_of rule = Some (s, [], []) \<and> remaps rule u = u \<and> sets_header rule h = h \<and>
   delays rule = 0 \<and> (changes_request rule \<longleftrightarrow> True) \<and> (acts rule \<longleftrightarrow> True)"
  "rs_action (cr_spec rule) = Terminal (Respond r) \<Longrightarrow>
   answer_of rule = Some (sr_status r, sr_headers r, sr_body r) \<and> remaps rule u = u \<and> sets_header rule h = h \<and>
   delays rule = 0 \<and> (changes_request rule \<longleftrightarrow> True) \<and> (acts rule \<longleftrightarrow> True)"
  "rs_action (cr_spec rule) = Terminal (MapLocal p) \<Longrightarrow>
   answer_of rule = map_option (\<lambda>l. (lr_status l, lr_headers l, lr_body l)) (cr_local_response rule) \<and> remaps rule u = u \<and> sets_header rule h = h \<and>
   delays rule = 0 \<and> (changes_request rule \<longleftrightarrow> cr_local_response rule \<noteq> None) \<and> (acts rule \<longleftrightarrow> cr_local_response rule \<noteq> None)"
  by (simp_all add: answer_of_def remaps_def sets_header_def delays_def changes_request_def acts_def)

lemma request_rules_loop_meaning:
  assumes "\<forall>(rid, rule) \<in> set rules. rs_match_on (cr_spec rule) = MatchOriginal" "rr_short_circuit out = None"
  shows "request_rules_loop ext method host path body rules (url, headers, out) =
    (let parts = upto_answer (matching_rules ext method host path body rules) in
     (foldl (\<lambda>u r. remaps (snd r) u) url parts,
      foldl (\<lambda>h r. sets_header (snd r) h) headers parts,
      out\<lparr>rr_short_circuit := List.find (\<lambda>a. True) (List.map_filter (answer_of \<circ> snd) parts),
          rr_delay_ms := foldl max (rr_delay_ms out) (map (delays \<circ> snd) parts),
          rr_modified := rr_modified out \<or> list_ex (changes_request \<circ> snd) parts,
          rr_rule_ids := rr_rule_ids out @ map fst (filter (acts \<circ> snd) parts)\<rparr>))"
  using assms
proof (induction rules arbitrary: url headers out)
  case Nil
  then show ?case
    by (simp add: matching_rules_def List.map_filter_simps)
next
  case (Cons r rules)
  obtain rid rule where r: "r = (rid, rule)"
    by (cases r)
  let ?m = "phase (cr_spec rule) = PhaseRequest \<and>
    matches (hx_rule ext) (request_context method host path body) (rs_matcher (cr_spec rule))"
  have on: "rs_match_on (cr_spec rule) = MatchOriginal"
    and rest: "\<forall>(rid, rule) \<in> set rules. rs_match_on (cr_spec rule) = MatchOriginal"
    using Cons.prems(1) r by auto
  note IH = Cons.IH [OF rest]
  have verdict: "request_rule_matches ext method host path body u (cr_spec rule) \<longleftrightarrow>
      matches (hx_rule ext) (request_context method host path body) (rs_matcher (cr_spec rule))" for u
    by (simp add: request_rule_matches_def on)
  show ?case
  proof (cases ?m)
    case False
    then show ?thesis
      using Cons.prems(2) IH [of out url headers] by (auto simp: r matching_rules_def verdict Let_def)
  next
    case True
    then have parts: "matching_rules ext method host path body ((rid, rule) # rules) =
        (rid, rule) # matching_rules ext method host path body rules"
      by (simp add: matching_rules_def)
    have ph: "phase (cr_spec rule) = PhaseRequest" and mt: "request_rule_matches ext method host path body u (cr_spec rule)" for u
      using True verdict by auto
    show ?thesis
      using request_phase_action [OF ph] Cons.prems(2)
      by (elim disjE exE)
        (auto simp: r parts ph mt IH hit_def request_effects Let_def List.map_filter_simps max_acc
          split: option.splits)
  qed
qed

text \<open>
  Rules that match the original request act on it exactly as a reference reading says: among
  the matching rules up to the first that answers, the URL is rewritten and headers are set in
  order, the longest delay counts, the answer is that of the first answering rule, and the recorded
  rule ids are those of the rules that did something.
\<close>

theorem request_rules_meaning:
  assumes "\<forall>(rid, rule) \<in> set rules. rs_match_on (cr_spec rule) = MatchOriginal"
  shows "apply_request_rules ext rules method host path body url headers =
    (let parts = upto_answer (matching_rules ext method host path body rules) in
     (foldl (\<lambda>u r. remaps (snd r) u) url parts,
      foldl (\<lambda>h r. sets_header (snd r) h) headers parts,
      \<lparr>rr_short_circuit = List.find (\<lambda>a. True) (List.map_filter (answer_of \<circ> snd) parts),
       rr_delay_ms = foldl max 0 (map (delays \<circ> snd) parts),
       rr_modified = list_ex (changes_request \<circ> snd) parts,
       rr_rule_ids = map fst (filter (acts \<circ> snd) parts)\<rparr>))"
  unfolding apply_request_rules_def
  by (subst request_rules_loop_meaning [OF assms]) (simp_all add: req_rules_default_def Let_def)

section \<open>What the response rules may touch\<close>

definition framing_lines :: "headers \<Rightarrow> headers" where
  "framing_lines headers = filter (\<lambda>(name, v). is_response_framing_header name) headers"

lemma framing_lines_set [simp]:
  "\<not> is_response_framing_header name \<Longrightarrow> framing_lines (set_header_vec headers name value) = framing_lines headers"
  by (auto simp: framing_lines_def set_header_vec_def is_response_framing_header_def eq_ignore_ascii_case_def
      intro!: filter_cong)

lemma validators_no_framing: "x \<in> set body_validators \<Longrightarrow> x \<notin> {''content-encoding'', ''content-length'', ''transfer-encoding''}"
  by (auto simp: body_validators_def)

lemma framing_lines_strip [simp]: "framing_lines (strip_body_validators headers) = framing_lines headers"
  using validators_no_framing
  by (fastforce simp: framing_lines_def strip_body_validators_def is_response_framing_header_def
      intro!: filter_cong)

lemma apply_response_rule_safe:
  assumes "apply_response_rule ext jx allow_body rule (status, headers, body) = (rule', (status', headers', body'), applied)"
  shows "framing_lines headers' = framing_lines headers" "\<not> allow_body \<Longrightarrow> body' = body"
    "cr_spec rule' = cr_spec rule" "\<not> applied \<Longrightarrow> (status', headers', body') = (status, headers, body)"
  using assms
  by (auto simp: apply_response_rule_def Let_def
      split: rule_action.splits rule_transform.splits if_splits option.splits prod.splits sum.splits)

lemma response_rules_loop_safe:
  assumes "response_rules_loop ext jx allow_body matching rules (status, headers, body) =
    (rules', (status', headers', body'), ids)"
  shows "framing_lines headers' = framing_lines headers \<and> (\<not> allow_body \<longrightarrow> body' = body) \<and>
    map (\<lambda>r. (fst r, cr_spec (snd r))) rules' = map (\<lambda>r. (fst r, cr_spec (snd r))) rules \<and>
    set ids \<subseteq> fst ` set rules \<and> (ids = [] \<longrightarrow> (status', headers', body') = (status, headers, body))"
  using assms
proof (induction rules arbitrary: status headers body rules' ids)
  case Nil
  then show ?case by auto
next
  case (Cons r rules)
  obtain rid rule where r: "r = (rid, rule)"
    by (cases r)
  show ?case
  proof (cases "phase (cr_spec rule) \<noteq> PhaseResponse \<or> \<not> matching (status, headers, body) (cr_spec rule)")
    case True
    obtain rs ids' where rest: "response_rules_loop ext jx allow_body matching rules (status, headers, body) =
        (rs, (status', headers', body'), ids')" "rules' = r # rs" "ids = ids'"
      using Cons.prems True by (auto simp: r Let_def split: prod.splits)
    then show ?thesis
      using Cons.IH [OF rest(1)] by auto
  next
    case False
    obtain rule1 s1 h1 b1 applied where one: "apply_response_rule ext jx allow_body rule (status, headers, body) =
        (rule1, (s1, h1, b1), applied)"
      by (cases "apply_response_rule ext jx allow_body rule (status, headers, body)") auto
    obtain rs ids' where rest: "response_rules_loop ext jx allow_body matching rules (s1, h1, b1) =
        (rs, (status', headers', body'), ids')" "rules' = (rid, rule1) # rs" "ids = (if applied then rid # ids' else ids')"
      using Cons.prems False one by (auto simp: r Let_def split: prod.splits)
    then show ?thesis
      using Cons.IH [OF rest(1)] apply_response_rule_safe [OF one] by (auto simp: r)
  qed
qed

text \<open>
  Whatever the rules, the response phase leaves the framing headers (encoding, length, transfer
  encoding) as they were, leaves the body alone where it is not plain text, reports only rules of the
  list, and when it reports none has changed nothing.
\<close>

theorem response_rules_safe:
  assumes "apply_response_rules ext jx rules method host path url (status, headers, body) allow_body request_body =
    (rules', (status', headers', body'), ids)"
  shows "framing_lines headers' = framing_lines headers \<and> (\<not> allow_body \<longrightarrow> body' = body) \<and>
    map (\<lambda>r. (fst r, cr_spec (snd r))) rules' = map (\<lambda>r. (fst r, cr_spec (snd r))) rules \<and>
    set ids \<subseteq> fst ` set rules \<and> (ids = [] \<longrightarrow> (status', headers', body') = (status, headers, body))"
  using assms unfolding apply_response_rules_def by (rule response_rules_loop_safe)

section \<open>Instances\<close>

definition sample_rules_ext :: rule_ext where
  "sample_rules_ext = \<lparr>rx_lowercase = to_ascii_lowercase, rx_query_pairs = (\<lambda>s. None), rx_parse_json = (\<lambda>s. None)\<rparr>"

definition sample_http :: http_ext where
  "sample_http = \<lparr>hx_rule = sample_rules_ext, hx_regex_match = (\<lambda>re s. Some (str_contains s re)),
     hx_regex_replace = (\<lambda>re repl s. repl), hx_header_name = (\<lambda>s. Some (to_ascii_lowercase s)),
     hx_header_value = (\<lambda>s. True), hx_decoder = (\<lambda>c bs. Some (rev bs, True)), hx_url = (\<lambda>s. None)\<rparr>"

definition sample_json :: json_ext where
  "sample_json = \<lparr>jx_parse = (\<lambda>bs. None), jx_pointer = (\<lambda>v p. None), jx_pointer_set = (\<lambda>v p w. v), jx_encode = (\<lambda>v. None)\<rparr>"

definition original_rule :: "rule_matcher \<Rightarrow> rule_action \<Rightarrow> compiled_rule" where
  "original_rule m action =
     compiled \<lparr>rs_match_on = MatchOriginal, rs_matcher = m, rs_action = action\<rparr> None None"

lemma request_rules_meaning_witness:
  "apply_request_rules sample_http
     [(''a'', original_rule (MAll []) (Delay 5)), (''b'', original_rule (MMethod ''get'') (Terminal (Block 503))),
      (''c'', original_rule (MAll []) (Terminal (Block 404)))]
     ''GET'' ''h'' ''/'' [] ''http://h/'' [] =
   (''http://h/'', [], \<lparr>rr_short_circuit = Some (503, [], []), rr_delay_ms = 5, rr_modified = True,
      rr_rule_ids = [''a'', ''b'']\<rparr>)"
proof -
  have eq: "eq_ignore_ascii_case ''GET'' ''get''"
    by code_simp
  show ?thesis
    by (subst request_rules_meaning)
      (auto simp: original_rule_def compiled_def matching_rules_def request_context_def phase_def request_effects
        List.map_filter_simps eq)
qed

lemma response_rules_safe_witness:
  "let (rules', (status, headers, body), ids) =
     apply_response_rules sample_http sample_json [(''s'', original_rule (MAll []) (Transform (SetStatus 204)))]
       ''GET'' ''h'' ''/'' ''http://h/'' (Some 200, [(''Content-Length'', ''1'')], [0x61]) False []
   in framing_lines headers = [(''Content-Length'', ''1'')] \<and> body = [0x61] \<and> set ids \<subseteq> {''s''}"
proof -
  have fr: "framing_lines [(''Content-Length'', ''1'')] = [(''Content-Length'', ''1'')]"
    by code_simp
  obtain rules' status headers body ids where run:
    "apply_response_rules sample_http sample_json [(''s'', original_rule (MAll []) (Transform (SetStatus 204)))]
       ''GET'' ''h'' ''/'' ''http://h/'' (Some 200, [(''Content-Length'', ''1'')], [0x61]) False [] =
     (rules', (status, headers, body), ids)"
    by (metis prod.exhaust)
  show ?thesis
    using response_rules_safe [OF run] fr unfolding run by simp
qed



lemma decoded_body_is_whole_witness:
  "decompress_bounded sample_http SlotFree [(''content-encoding'', ''gzip'')] [1, 2] 10 = Decoded [2, 1] \<and>
   length [2 :: byte, 1] \<le> 10"
proof -
  have "str_trim ''gzip'' = ''gzip''"
    by (rule str_trim_ascii) code_simp
  moreover have "to_ascii_lowercase ''gzip'' \<noteq> to_ascii_lowercase ''identity''"
    by code_simp
  ultimately have "encoding_disposition [(''content-encoding'', ''gzip'')] = Supported EncGzip"
    by (simp add: encoding_disposition_def eq_ignore_ascii_case_def)
  then have decoded: "decompress_bounded sample_http SlotFree [(''content-encoding'', ''gzip'')] [1, 2] 10 = Decoded [2, 1]"
    by (simp add: decompress_bounded_def decode_capped_def read_decoder_capped_def sample_http_def)
  show ?thesis
    using decoded decoded_body_is_whole [OF decoded] by blast
qed
end
