(* ===== verification/ProxyHold.thy ===== *)
theory ProxyHold
  imports ProxyHttp
begin

text \<open>
  Flows held for an agent's decision (\<^verbatim>\<open>hold\<close>, \<^verbatim>\<open>resolve_held\<close>, \<^verbatim>\<open>release_held\<close>,
  \<^verbatim>\<open>prune_inactive_holds\<close>, \<^verbatim>\<open>terminalize_held\<close> and \<^verbatim>\<open>TerminalHoldHistory\<close> in \<^verbatim>\<open>net/proxy.rs\<close>) as one
  transition system. The shared state is the map of active holds, the history of ended ones and the
  budget counters; each request task that waits has the receiving end of a one-shot channel. One
  event is what happens under the locks of one call: a release, a pruning, one poll of the waiting
  task, its timer, its claim after the timer, or its cancellation. The active map is a list (the
  order in which a pruning meets its entries is the list's).
\<close>

section \<open>Data\<close>

datatype hold_verdict =
    Resume mutation
  | DropFlow "nat option"
  | AbortTransport
  | RespondWith nat "byte list" headers

text \<open>
  A one-shot channel as its documentation describes it: a send succeeds while the receiver exists,
  and the receiver gets the value, or an error once the sender is gone without having sent.
\<close>

datatype slot = Pending | Got hold_verdict | Gone

record chan =
  ch_open :: bool
  ch_slot :: slot

record intercept_cfg =
  ic_matcher :: net_matcher
  ic_at_request :: bool
  ic_at_response :: bool
  ic_hold_ms :: nat
  ic_on_timeout_drop :: bool

record held_flow =
  hf_tx :: "nat option"
  hf_meta :: flow_record
  hf_phase :: string
  hf_held_at :: rat
  hf_expires_at :: rat
  hf_charge :: nat

datatype terminal_state = Released_t | DeadlineExpired_t | ClientCanceled_t

record terminal_hold =
  th_id :: string
  th_phase :: string
  th_state :: terminal_state
  th_held_at :: rat
  th_expires_at :: rat
  th_terminal_at :: rat
  th_action :: "string option"

definition TERMINAL_HOLD_HISTORY_CAP :: nat where
  "TERMINAL_HOLD_HISTORY_CAP = 256"

definition MAX_HELD_FLOWS :: nat where
  "MAX_HELD_FLOWS = 32"

definition MAX_HELD_BYTES :: nat where
  "MAX_HELD_BYTES = 32 * 1024 * 1024"

record terminal_history =
  hy_records :: "(string \<times> terminal_hold) list"
  hy_order :: "string list"

text \<open>The waiting task: its channel, its answer when nobody decides, and whether its timer fired.\<close>

record hold_task =
  ht_chan :: nat
  ht_default :: hold_verdict
  ht_timer :: bool

record hold_state =
  hs_held :: "(string \<times> held_flow) list"
  hs_terminal :: terminal_history
  hs_bytes :: nat
  hs_rejected :: nat
  hs_chans :: "nat \<Rightarrow> chan"
  hs_next :: nat
  hs_tasks :: "string \<Rightarrow> hold_task option"

definition hold_state_new :: hold_state where
  "hold_state_new =
     \<lparr>hs_held = [], hs_terminal = \<lparr>hy_records = [], hy_order = []\<rparr>, hs_bytes = 0, hs_rejected = 0,
      hs_chans = (\<lambda>n. \<lparr>ch_open = False, ch_slot = Gone\<rparr>), hs_next = 0, hs_tasks = (\<lambda>i. None)\<rparr>"

section \<open>The history of ended holds\<close>

definition without :: "string \<Rightarrow> (string \<times> 'v) list \<Rightarrow> (string \<times> 'v) list" where
  "without i kvs = filter (\<lambda>kv. fst kv \<noteq> i) kvs"

definition history_get :: "terminal_history \<Rightarrow> string \<Rightarrow> terminal_hold option" where
  "history_get h i = map_of (hy_records h) i"

definition history_remove :: "string \<Rightarrow> terminal_history \<Rightarrow> terminal_history" where
  "history_remove i h =
     \<lparr>hy_records = without i (hy_records h), hy_order = filter (\<lambda>c. c \<noteq> i) (hy_order h)\<rparr>"

function history_evict :: "terminal_history \<Rightarrow> terminal_history" where
  "history_evict h =
     (if TERMINAL_HOLD_HISTORY_CAP < length (hy_order h)
      then (case hy_order h of
              [] \<Rightarrow> h
            | i # order \<Rightarrow> history_evict \<lparr>hy_records = without i (hy_records h), hy_order = order\<rparr>)
      else h)"
  by pat_completeness auto
termination
  by (relation "measure (\<lambda>h. length (hy_order h))") auto

declare history_evict.simps [simp del]

definition history_record :: "terminal_hold \<Rightarrow> terminal_history \<Rightarrow> terminal_history" where
  "history_record t h =
     (let h1 = history_remove (th_id t) h
      in history_evict \<lparr>hy_records = (th_id t, t) # hy_records h1, hy_order = hy_order h1 @ [th_id t]\<rparr>)"

definition terminal_of :: "held_flow \<Rightarrow> terminal_state \<Rightarrow> string option \<Rightarrow> rat \<Rightarrow> terminal_hold" where
  "terminal_of f state action now =
     \<lparr>th_id = fr_id (hf_meta f), th_phase = hf_phase f, th_state = state, th_held_at = hf_held_at f,
      th_expires_at = hf_expires_at f, th_terminal_at = now, th_action = action\<rparr>"

record held_lifecycle =
  hl_id :: string
  hl_phase :: string
  hl_state :: string
  hl_held_at :: rat
  hl_expires_at :: rat
  hl_client_connected :: bool

definition lifecycle :: "hold_state \<Rightarrow> held_flow \<Rightarrow> held_lifecycle" where
  "lifecycle s f =
     \<lparr>hl_id = fr_id (hf_meta f), hl_phase = hf_phase f, hl_state = ''held'', hl_held_at = hf_held_at f,
      hl_expires_at = hf_expires_at f,
      hl_client_connected = (case hf_tx f of None \<Rightarrow> False | Some c \<Rightarrow> ch_open (hs_chans s c))\<rparr>"

section \<open>Leaving the active map\<close>

definition u64_sub :: "nat \<Rightarrow> nat \<Rightarrow> nat" where
  "u64_sub a b = (a + (2 ^ 64 - b mod 2 ^ 64)) mod 2 ^ 64"

definition set_slot :: "nat \<Rightarrow> slot \<Rightarrow> (nat \<Rightarrow> chan) \<Rightarrow> nat \<Rightarrow> chan" where
  "set_slot c v chans = chans(c := (chans c)\<lparr>ch_slot := v\<rparr>)"

text \<open>Dropping a sender that was not used, and dropping a held flow (which returns its charge).\<close>

definition drop_sender :: "nat option \<Rightarrow> (nat \<Rightarrow> chan) \<Rightarrow> nat \<Rightarrow> chan" where
  "drop_sender tx chans =
     (case tx of
        None \<Rightarrow> chans
      | Some c \<Rightarrow> if ch_slot (chans c) = Pending then set_slot c Gone chans else chans)"

definition drop_held :: "held_flow \<Rightarrow> hold_state \<Rightarrow> hold_state" where
  "drop_held f s =
     s\<lparr>hs_bytes := u64_sub (hs_bytes s) (hf_charge f), hs_chans := drop_sender (hf_tx f) (hs_chans s)\<rparr>"

definition retire :: "string \<Rightarrow> held_flow \<Rightarrow> terminal_hold \<Rightarrow> hold_state \<Rightarrow> hold_state" where
  "retire i f t s =
     drop_held f (s\<lparr>hs_held := without i (hs_held s), hs_terminal := history_record t (hs_terminal s)\<rparr>)"

definition terminalize_held :: "string \<Rightarrow> terminal_state \<Rightarrow> rat \<Rightarrow> hold_state \<Rightarrow> hold_state \<times> bool" where
  "terminalize_held i state now s =
     (case map_of (hs_held s) i of
        None \<Rightarrow> (s, False)
      | Some f \<Rightarrow> (retire i f (terminal_of f state None now) s, True))"

definition prune_verdict :: "hold_state \<Rightarrow> rat \<Rightarrow> held_flow \<Rightarrow> terminal_state option" where
  "prune_verdict s now f =
     (if hf_expires_at f \<le> now then Some DeadlineExpired_t
      else case hf_tx f of
             None \<Rightarrow> Some ClientCanceled_t
           | Some c \<Rightarrow> if ch_open (hs_chans s c) then None else Some ClientCanceled_t)"

definition prune_one :: "rat \<Rightarrow> hold_state \<Rightarrow> string \<times> terminal_state \<Rightarrow> hold_state" where
  "prune_one now s it = fst (terminalize_held (fst it) (snd it) now s)"

definition prune_inactive_holds :: "rat \<Rightarrow> hold_state \<Rightarrow> hold_state" where
  "prune_inactive_holds now s =
     foldl (prune_one now) s
       (List.map_filter (\<lambda>(i, f). map_option (Pair i) (prune_verdict s now f)) (hs_held s))"

section \<open>Registering a hold\<close>

definition held_flow_charge :: "flow_record \<Rightarrow> nat" where
  "held_flow_charge f =
     (let saturating_total = foldl u64_saturating_add 0;
          strings = saturating_total (map length [fr_id f, fr_method f, fr_scheme f, fr_host f, fr_path f]);
          len_of = (\<lambda>b. case b of None \<Rightarrow> [] | Some v \<Rightarrow> [length v]);
          bodies = saturating_total (len_of (fr_req_body f) @ len_of (fr_resp_body f));
          header_bytes = saturating_total
            (map (\<lambda>(name, value). u64_saturating_add (length name) (length value))
              (fr_req_headers f @ fr_resp_headers f))
      in u64_saturating_add (u64_saturating_add (u64_saturating_add strings bodies) header_bytes) 1024)"

definition fail_open :: "intercept_cfg \<Rightarrow> hold_verdict" where
  "fail_open cfg = (if ic_on_timeout_drop cfg then DropFlow None else Resume mutation_default)"

definition wants_hold :: "rule_ext \<Rightarrow> intercept_cfg option \<Rightarrow> string \<Rightarrow> flow_record \<Rightarrow> bool" where
  "wants_hold ext cfg ph snap \<longleftrightarrow>
     (case cfg of
        None \<Rightarrow> False
      | Some c \<Rightarrow>
          (if ph = ''request'' then ic_at_request c else ic_at_response c) \<and>
          flow_matches ext snap (ic_matcher c))"

definition visible :: "flow_policy option \<Rightarrow> flow_record \<Rightarrow> flow_record" where
  "visible policy snap = (case policy of None \<Rightarrow> snap | Some p \<Rightarrow> redact_flow_record p snap)"

text \<open>The first half of \<open>hold\<close>, up to the wait: true when the flow is now held.\<close>

definition hold_register ::
  "flow_policy option \<Rightarrow> intercept_cfg \<Rightarrow> string \<Rightarrow> rat \<Rightarrow> flow_record \<Rightarrow> hold_state \<Rightarrow> hold_state \<times> bool" where
  "hold_register policy cfg ph now snap s =
     (let i = fr_id snap; charge = held_flow_charge snap; c = hs_next s in
      if MAX_HELD_FLOWS \<le> length (hs_held s) \<or>
         MAX_HELD_BYTES < u64_saturating_add (hs_bytes s) charge
      then (s\<lparr>hs_rejected := u64_add (hs_rejected s) 1\<rparr>, False)
      else
        (s\<lparr>hs_terminal := history_remove i (hs_terminal s),
           hs_bytes := u64_add (hs_bytes s) charge,
           hs_held := without i (hs_held s) @
             [(i, \<lparr>hf_tx = Some c, hf_meta = visible policy snap, hf_phase = ph, hf_held_at = now,
                   hf_expires_at = now + of_nat (max (ic_hold_ms cfg) 1) / 1000, hf_charge = charge\<rparr>)],
           hs_chans := (hs_chans s)(c := \<lparr>ch_open = True, ch_slot = Pending\<rparr>),
           hs_next := Suc c,
           hs_tasks := (hs_tasks s)(i \<mapsto> \<lparr>ht_chan = c, ht_default = fail_open cfg, ht_timer = False\<rparr>)\<rparr>,
         True))"

section \<open>Releasing a hold\<close>

datatype release_result =
    ReleaseDone terminal_hold
  | ReleaseCanceled terminal_hold
  | ReleaseExpired terminal_hold
  | ReleaseMissing

definition release_held ::
  "string \<Rightarrow> string \<Rightarrow> hold_verdict \<Rightarrow> rat \<Rightarrow> hold_state \<Rightarrow> hold_state \<times> release_result" where
  "release_held i action decision now s =
     (case map_of (hs_held s) i of
        None \<Rightarrow> (s, ReleaseMissing)
      | Some f \<Rightarrow>
          if hf_expires_at f \<le> now then
            (let t = terminal_of f DeadlineExpired_t None now in (retire i f t s, ReleaseExpired t))
          else
            case hf_tx f of
              Some c \<Rightarrow>
                if ch_open (hs_chans s c) then
                  (let t = terminal_of f Released_t (Some action) now
                   in (retire i (f\<lparr>hf_tx := None\<rparr>) t (s\<lparr>hs_chans := set_slot c (Got decision) (hs_chans s)\<rparr>),
                       ReleaseDone t))
                else
                  (let t = terminal_of f ClientCanceled_t None now
                   in (retire i (f\<lparr>hf_tx := None\<rparr>) t s, ReleaseCanceled t))
            | None \<Rightarrow>
                (let t = terminal_of f ClientCanceled_t None now in (retire i f t s, ReleaseCanceled t)))"

section \<open>The waiting task\<close>

text \<open>
  The task ends: its clean-up retires an entry that is still there, then the receiver is dropped.
\<close>

definition task_end :: "string \<Rightarrow> hold_task \<Rightarrow> rat \<Rightarrow> hold_state \<Rightarrow> hold_state" where
  "task_end i t now s =
     (let s1 = fst (terminalize_held i ClientCanceled_t now s)
      in s1\<lparr>hs_chans := (hs_chans s1)(ht_chan t := (hs_chans s1 (ht_chan t))\<lparr>ch_open := False\<rparr>),
            hs_tasks := (hs_tasks s1)(i := None)\<rparr>)"

fun received :: "hold_task \<Rightarrow> slot \<Rightarrow> hold_verdict option" where
  "received t Pending = None"
| "received t (Got d) = Some d"
| "received t Gone = Some (ht_default t)"

text \<open>
  One poll of the biased \<open>select!\<close>: the receiver first; \<open>fired\<close> says that the timer has elapsed. The
  claim after an elapsed timer is a poll of its own.
\<close>

definition task_poll ::
  "string \<Rightarrow> bool \<Rightarrow> rat \<Rightarrow> hold_state \<Rightarrow> hold_state \<times> hold_verdict option" where
  "task_poll i fired now s =
     (case hs_tasks s i of
        None \<Rightarrow> (s, None)
      | Some t \<Rightarrow>
          if ht_timer t then
            (case terminalize_held i DeadlineExpired_t now s of
               (s1, True) \<Rightarrow> (task_end i t now s1, Some (ht_default t))
             | (s1, False) \<Rightarrow>
                 (case received t (ch_slot (hs_chans s1 (ht_chan t))) of
                    None \<Rightarrow> (s1, None)
                  | Some d \<Rightarrow> (task_end i t now s1, Some d)))
          else
            (case received t (ch_slot (hs_chans s (ht_chan t))) of
               Some d \<Rightarrow> (task_end i t now s, Some d)
             | None \<Rightarrow>
                 if fired then (s\<lparr>hs_tasks := (hs_tasks s)(i \<mapsto> t\<lparr>ht_timer := True\<rparr>)\<rparr>, None)
                 else (s, None)))"

definition task_cancel :: "string \<Rightarrow> rat \<Rightarrow> hold_state \<Rightarrow> hold_state" where
  "task_cancel i now s = (case hs_tasks s i of None \<Rightarrow> s | Some t \<Rightarrow> task_end i t now s)"

section \<open>Events\<close>

datatype hold_op =
    Hold intercept_cfg string flow_record rat
  | Release string string hold_verdict rat
  | Prune rat
  | Poll string bool rat
  | CancelTask string rat

datatype hold_out =
    NoOutput
  | Registered
  | Overloaded_hold
  | ReleaseOut release_result
  | Decision string hold_verdict

text \<open>
  A request task asks for one hold at a time: a new hold of a flow starts after the previous one
  ended.
\<close>

definition hold_enabled :: "hold_op \<Rightarrow> hold_state \<Rightarrow> bool" where
  "hold_enabled op s \<longleftrightarrow>
     (case op of Hold cfg ph snap now \<Rightarrow> hs_tasks s (fr_id snap) = None | _ \<Rightarrow> True)"

definition hold_step :: "flow_policy option \<Rightarrow> hold_op \<Rightarrow> hold_state \<Rightarrow> hold_state \<times> hold_out" where
  "hold_step policy op s =
     (case op of
        Hold cfg ph snap now \<Rightarrow>
          (let (s', held) = hold_register policy cfg ph now snap s
           in (s', if held then Registered else Overloaded_hold))
      | Release i action decision now \<Rightarrow>
          (let (s', r) = release_held i action decision now s in (s', ReleaseOut r))
      | Prune now \<Rightarrow> (prune_inactive_holds now s, NoOutput)
      | Poll i fired now \<Rightarrow>
          (case task_poll i fired now s of (s', None) \<Rightarrow> (s', NoOutput) | (s', Some d) \<Rightarrow> (s', Decision i d))
      | CancelTask i now \<Rightarrow> (task_cancel i now s, NoOutput))"

inductive hold_reachable :: "flow_policy option \<Rightarrow> hold_state \<Rightarrow> bool" for policy where
  reach_new: "hold_reachable policy hold_state_new"
| reach_step: "hold_reachable policy s \<Longrightarrow> hold_enabled op s \<Longrightarrow> hold_reachable policy (fst (hold_step policy op s))"

section \<open>The invariant\<close>

definition history_ok :: "terminal_history \<Rightarrow> bool" where
  "history_ok h \<longleftrightarrow>
     distinct (hy_order h) \<and> distinct (map fst (hy_records h)) \<and>
     set (map fst (hy_records h)) = set (hy_order h) \<and> length (hy_order h) \<le> TERMINAL_HOLD_HISTORY_CAP"

definition task_ok :: "hold_state \<Rightarrow> string \<Rightarrow> hold_task \<Rightarrow> bool" where
  "task_ok s i t \<longleftrightarrow>
     ht_chan t < hs_next s \<and> ch_open (hs_chans s (ht_chan t)) \<and>
     (ch_slot (hs_chans s (ht_chan t)) = Pending \<longleftrightarrow> i \<in> fst ` set (hs_held s))"

definition entry_ok :: "hold_state \<Rightarrow> string \<times> held_flow \<Rightarrow> bool" where
  "entry_ok s e \<longleftrightarrow>
     fr_id (hf_meta (snd e)) = fst e \<and>
     (\<exists>t. hs_tasks s (fst e) = Some t \<and> hf_tx (snd e) = Some (ht_chan t))"

definition hold_ok :: "hold_state \<Rightarrow> bool" where
  "hold_ok s \<longleftrightarrow>
     distinct (map fst (hs_held s)) \<and> (\<forall>e \<in> set (hs_held s). entry_ok s e) \<and>
     hs_bytes s = sum_list (map (hf_charge \<circ> snd) (hs_held s)) \<and> hs_bytes s \<le> MAX_HELD_BYTES \<and>
     length (hs_held s) \<le> MAX_HELD_FLOWS \<and>
     history_ok (hs_terminal s) \<and> set (hy_order (hs_terminal s)) \<inter> fst ` set (hs_held s) = {} \<and>
     (\<forall>i t. hs_tasks s i = Some t \<longrightarrow> task_ok s i t) \<and>
     (\<forall>i j t u. hs_tasks s i = Some t \<longrightarrow> hs_tasks s j = Some u \<longrightarrow> ht_chan t = ht_chan u \<longrightarrow> i = j)"

lemma without_keys: "fst ` set (without i kvs) = fst ` set kvs - {i}"
  by (auto simp: without_def)

lemma distinct_without: "distinct (map fst kvs) \<Longrightarrow> distinct (map fst (without i kvs))"
  by (induction kvs) (auto simp: without_def)

lemma without_absent: "i \<notin> fst ` set kvs \<Longrightarrow> without i kvs = kvs"
  by (auto simp: without_def filter_id_conv)

lemma sum_without:
  "distinct (map fst kvs) \<Longrightarrow> map_of kvs i = Some v \<Longrightarrow>
   sum_list (map (g \<circ> snd) kvs) = g v + sum_list (map (g \<circ> snd) (without i kvs)) \<and>
   length kvs = Suc (length (without i kvs))" for g :: "'v \<Rightarrow> nat"
proof (induction kvs)
  case Nil
  then show ?case by simp
next
  case (Cons kv kvs)
  then show ?case
    using without_absent [of i kvs] by (cases kv) (auto simp: without_def split: if_splits)
qed

lemma history_remove_ok: "history_ok h \<Longrightarrow> history_ok (history_remove i h)"
  by (auto simp: history_ok_def history_remove_def without_keys distinct_without
      intro: order_trans [OF length_filter_le])

lemma history_remove_keys [simp]: "set (hy_order (history_remove i h)) = set (hy_order h) - {i}"
  by (auto simp: history_remove_def)

lemma history_evict_small: "length (hy_order h) \<le> TERMINAL_HOLD_HISTORY_CAP \<Longrightarrow> history_evict h = h"
  by (simp add: history_evict.simps)

lemma history_evict_one:
  "hy_order h = i # order \<Longrightarrow> length order = TERMINAL_HOLD_HISTORY_CAP \<Longrightarrow>
   history_evict h = \<lparr>hy_records = without i (hy_records h), hy_order = order\<rparr>"
  by (subst history_evict.simps) (simp add: history_evict_small)

lemma history_record_ok:
  assumes "history_ok h"
  shows "history_ok (history_record t h) \<and> set (hy_order (history_record t h)) \<subseteq> insert (th_id t) (set (hy_order h))"
proof -
  let ?h1 = "history_remove (th_id t) h"
  let ?h2 = "\<lparr>hy_records = (th_id t, t) # hy_records ?h1, hy_order = hy_order ?h1 @ [th_id t]\<rparr>"
  have h1: "history_ok ?h1"
    using assms by (rule history_remove_ok)
  have keys: "fst ` set (hy_records ?h1) = set (hy_order h) - {th_id t}"
    using h1 unfolding history_ok_def by simp
  have unf: "history_record t h = history_evict ?h2"
    by (simp add: history_record_def Let_def)
  show ?thesis
  proof (cases "length (hy_order ?h2) \<le> TERMINAL_HOLD_HISTORY_CAP")
    case True
    then show ?thesis
      using h1 keys unfolding unf history_evict_small [OF True] by (auto simp: history_ok_def)
  next
    case False
    then have full: "length (hy_order ?h1) = TERMINAL_HOLD_HISTORY_CAP"
      using h1 by (simp add: history_ok_def)
    then obtain i order where order: "hy_order ?h1 = i # order"
      by (cases "hy_order ?h1") (auto simp: TERMINAL_HOLD_HISTORY_CAP_def)
    have evict: "history_evict ?h2 = \<lparr>hy_records = without i (hy_records ?h2), hy_order = order @ [th_id t]\<rparr>"
      using full by (intro history_evict_one) (simp_all add: order)
    have distinct: "distinct (i # order)"
      using h1 unfolding history_ok_def order by simp
    have sub: "set (hy_order h) - {th_id t} = insert i (set order)"
      using order by (metis history_remove_keys list.simps(15))
    show ?thesis
      unfolding unf evict using h1 keys distinct sub full order
      by (auto simp: history_ok_def without_keys distinct_without)
  qed
qed

section \<open>Every operation keeps it\<close>

lemma u64_sub_exact:
  assumes "b \<le> a" "a < 2 ^ 64"
  shows "u64_sub a b = a - b"
proof -
  have "b mod 2 ^ 64 = b"
    using assms by simp
  moreover have "a + (2 ^ 64 - b) = (a - b) + 2 ^ 64"
    using assms by simp
  ultimately show ?thesis
    using assms by (simp only: u64_sub_def mod_add_self2) simp
qed

text \<open>An entry leaves: its channel is settled, its charge returned, its end recorded.\<close>

definition leave :: "string \<Rightarrow> held_flow \<Rightarrow> terminal_hold \<Rightarrow> slot \<Rightarrow> hold_state \<Rightarrow> hold_state" where
  "leave i f t v s =
     s\<lparr>hs_held := without i (hs_held s), hs_terminal := history_record t (hs_terminal s),
       hs_bytes := hs_bytes s - hf_charge f,
       hs_chans := (case hf_tx f of None \<Rightarrow> hs_chans s | Some c \<Rightarrow> set_slot c v (hs_chans s))\<rparr>"

lemma held_entry:
  assumes "hold_ok s" "map_of (hs_held s) i = Some f"
  shows "\<exists>t. hs_tasks s i = Some t \<and> hf_tx f = Some (ht_chan t) \<and> fr_id (hf_meta f) = i \<and>
    ch_open (hs_chans s (ht_chan t)) \<and> ch_slot (hs_chans s (ht_chan t)) = Pending \<and> hf_charge f \<le> hs_bytes s"
proof -
  have m: "(i, f) \<in> set (hs_held s)"
    using assms(2) by (rule map_of_SomeD)
  then have e: "entry_ok s (i, f)"
    using assms(1) by (auto simp: hold_ok_def)
  then obtain t where t: "hs_tasks s i = Some t" "hf_tx f = Some (ht_chan t)" "fr_id (hf_meta f) = i"
    by (auto simp: entry_ok_def)
  then have "task_ok s i t"
    using assms(1) by (auto simp: hold_ok_def)
  moreover have "i \<in> fst ` set (hs_held s)"
    using m by force
  moreover have "hf_charge f \<le> hs_bytes s"
    using sum_without [of "hs_held s" i f hf_charge] assms by (auto simp: hold_ok_def)
  ultimately show ?thesis
    using t by (auto simp: task_ok_def)
qed

lemma hold_bytes_small: "hold_ok s \<Longrightarrow> hs_bytes s < 2 ^ 64"
  by (simp add: hold_ok_def MAX_HELD_BYTES_def)

lemma leave_ok:
  assumes ok: "hold_ok s" and f: "map_of (hs_held s) i = Some f" and t: "th_id t = i" and v: "v \<noteq> Pending"
  shows "hold_ok (leave i f t v s)"
proof -
  obtain task where task: "hs_tasks s i = Some task" "hf_tx f = Some (ht_chan task)"
    using held_entry [OF ok f] by auto
  have keys: "distinct (map fst (hs_held s))"
    using ok by (simp add: hold_ok_def)
  have chans: "hs_chans (leave i f t v s) = set_slot (ht_chan task) v (hs_chans s)"
    and held: "hs_held (leave i f t v s) = without i (hs_held s)"
    and tasks: "hs_tasks (leave i f t v s) = hs_tasks s" and nxt: "hs_next (leave i f t v s) = hs_next s"
    by (simp_all add: leave_def task)
  have entries: "entry_ok (leave i f t v s) e" if "e \<in> set (hs_held (leave i f t v s))" for e
    using that ok by (auto simp: held without_def hold_ok_def entry_ok_def tasks)
  have tasks_ok: "task_ok (leave i f t v s) j u" if "hs_tasks s j = Some u" for j u
  proof -
    have u: "task_ok s j u"
      using ok that by (auto simp: hold_ok_def)
    show ?thesis
    proof (cases "j = i")
      case True
      then show ?thesis
        using u task(1) that v by (auto simp: task_ok_def chans held without_keys nxt set_slot_def)
    next
      case False
      then have "ht_chan u \<noteq> ht_chan task"
        using ok task(1) that unfolding hold_ok_def by metis
      then show ?thesis
        using u False by (auto simp: task_ok_def chans held without_keys nxt set_slot_def)
    qed
  qed
  have bytes: "hs_bytes s - hf_charge f = sum_list (map (hf_charge \<circ> snd) (without i (hs_held s)))"
    and len: "length (without i (hs_held s)) \<le> length (hs_held s)"
    using sum_without [OF keys f, of hf_charge] ok by (simp_all add: hold_ok_def)
  have hist: "history_ok (history_record t (hs_terminal s))"
    "set (hy_order (history_record t (hs_terminal s))) \<subseteq> insert i (set (hy_order (hs_terminal s)))"
    using history_record_ok [of "hs_terminal s" t] ok t by (auto simp: hold_ok_def)
  have parts: "hs_bytes (leave i f t v s) = hs_bytes s - hf_charge f"
    "hs_terminal (leave i f t v s) = history_record t (hs_terminal s)"
    by (simp_all add: leave_def)
  have cap: "hs_bytes s \<le> MAX_HELD_BYTES" "length (hs_held s) \<le> MAX_HELD_FLOWS"
    and apart: "set (hy_order (hs_terminal s)) \<inter> fst ` set (hs_held s) = {}"
    and inj: "\<forall>i j t u. hs_tasks s i = Some t \<longrightarrow> hs_tasks s j = Some u \<longrightarrow> ht_chan t = ht_chan u \<longrightarrow> i = j"
    using ok unfolding hold_ok_def by blast+
  show ?thesis
    unfolding hold_ok_def tasks
  proof (intro conjI)
    show "distinct (map fst (hs_held (leave i f t v s)))"
      unfolding held by (rule distinct_without [OF keys])
    show "\<forall>e \<in> set (hs_held (leave i f t v s)). entry_ok (leave i f t v s) e"
      using entries by blast
    show "hs_bytes (leave i f t v s) = sum_list (map (hf_charge \<circ> snd) (hs_held (leave i f t v s)))"
      unfolding held parts by (rule bytes)
    show "hs_bytes (leave i f t v s) \<le> MAX_HELD_BYTES" "length (hs_held (leave i f t v s)) \<le> MAX_HELD_FLOWS"
      unfolding held parts using cap len by linarith+
    show "history_ok (hs_terminal (leave i f t v s))"
      unfolding parts by (rule hist)
    show "set (hy_order (hs_terminal (leave i f t v s))) \<inter> fst ` set (hs_held (leave i f t v s)) = {}"
      unfolding held parts without_keys using hist(2) apart by blast
    show "\<forall>i' t'. hs_tasks s i' = Some t' \<longrightarrow> task_ok (leave i f t v s) i' t'"
      using tasks_ok by blast
  qed (rule inj)
qed

lemma retire_eq:
  assumes "hold_ok s" "map_of (hs_held s) i = Some f"
  shows "retire i f t s = leave i f t Gone s"
proof -
  obtain task where task: "hf_tx f = Some (ht_chan task)" "ch_slot (hs_chans s (ht_chan task)) = Pending"
    "hf_charge f \<le> hs_bytes s" "hs_tasks s i = Some task"
    using held_entry [OF assms] by auto
  have sub: "u64_sub (hs_bytes s) (hf_charge f) = hs_bytes s - hf_charge f"
    by (rule u64_sub_exact [OF task(3) hold_bytes_small [OF assms(1)]])
  show ?thesis
    by (simp add: retire_def leave_def drop_held_def drop_sender_def sub task(1,2))
qed

lemma deliver_eq:
  assumes "hold_ok s" "map_of (hs_held s) i = Some f" "hf_tx f = Some c"
  shows "retire i (f\<lparr>hf_tx := None\<rparr>) t (s\<lparr>hs_chans := set_slot c (Got d) (hs_chans s)\<rparr>) = leave i f t (Got d) s"
proof -
  have "hf_charge f \<le> hs_bytes s"
    using held_entry [OF assms(1,2)] by auto
  then have sub: "u64_sub (hs_bytes s) (hf_charge f) = hs_bytes s - hf_charge f"
    by (rule u64_sub_exact [OF _ hold_bytes_small [OF assms(1)]])
  show ?thesis
    by (simp add: retire_def leave_def drop_held_def drop_sender_def sub assms(3))
qed

lemma terminalize_cases:
  assumes "hold_ok s"
  obtains (absent) "map_of (hs_held s) i = None" "terminalize_held i st now s = (s, False)"
  | (entry) f where "map_of (hs_held s) i = Some f"
      "terminalize_held i st now s = (leave i f (terminal_of f st None now) Gone s, True)"
      "th_id (terminal_of f st None now) = i"
proof (cases "map_of (hs_held s) i")
  case None
  then show thesis
    by (intro absent) (simp_all add: terminalize_held_def)
next
  case (Some f)
  obtain t where "fr_id (hf_meta f) = i"
    using held_entry [OF assms Some] by auto
  then show thesis
    using Some retire_eq [OF assms Some] by (intro entry [of f]) (simp_all add: terminalize_held_def terminal_of_def)
qed

lemma terminalize_ok: "hold_ok s \<Longrightarrow> hold_ok (fst (terminalize_held i st now s))"
  by (rule terminalize_cases [of s i st now]) (auto intro: leave_ok)

lemma terminalize_absent:
  "hold_ok s \<Longrightarrow> i \<notin> fst ` set (hs_held (fst (terminalize_held i st now s)))"
  by (rule terminalize_cases [of s i st now]) (auto simp: leave_def without_keys map_of_eq_None_iff)

lemma terminalize_tasks: "hold_ok s \<Longrightarrow> hs_tasks (fst (terminalize_held i st now s)) = hs_tasks s"
  by (rule terminalize_cases [of s i st now]) (auto simp: leave_def)

lemma task_end_ok:
  assumes ok: "hold_ok s" and t: "hs_tasks s i = Some t"
  shows "hold_ok (task_end i t now s)"
proof -
  define s1 where "s1 = fst (terminalize_held i ClientCanceled_t now s)"
  have ok1: "hold_ok s1" and gone: "i \<notin> fst ` set (hs_held s1)" and t1: "hs_tasks s1 i = Some t"
    using terminalize_ok [OF ok] terminalize_absent [OF ok] terminalize_tasks [OF ok] t by (simp_all add: s1_def)
  have other: "ht_chan u \<noteq> ht_chan t" if "hs_tasks s1 j = Some u" "j \<noteq> i" for j u
    using ok1 that t1 unfolding hold_ok_def by metis
  have eq: "task_end i t now s =
      s1\<lparr>hs_chans := (hs_chans s1)(ht_chan t := (hs_chans s1 (ht_chan t))\<lparr>ch_open := False\<rparr>),
         hs_tasks := (hs_tasks s1)(i := None)\<rparr>"
    by (simp add: task_end_def s1_def Let_def)
  have entries: "entry_ok (task_end i t now s) e" if "e \<in> set (hs_held s1)" for e
  proof -
    have "fst e \<noteq> i"
      using that gone by force
    then show ?thesis
      using ok1 that by (auto simp: hold_ok_def entry_ok_def eq)
  qed
  have tasks: "task_ok (task_end i t now s) j u" if "hs_tasks s1 j = Some u" "j \<noteq> i" for j u
    using ok1 that other [OF that] by (auto simp: hold_ok_def task_ok_def eq)
  show ?thesis
    using ok1 entries tasks unfolding hold_ok_def by (auto simp: eq)
qed

lemma foldl_invariant: "P s \<Longrightarrow> (\<And>s x. P s \<Longrightarrow> P (f s x)) \<Longrightarrow> P (foldl f s xs)"
  by (induction xs arbitrary: s) auto

lemma prune_ok: "hold_ok s \<Longrightarrow> hold_ok (prune_inactive_holds now s)"
  unfolding prune_inactive_holds_def by (rule foldl_invariant) (auto simp: prune_one_def terminalize_ok)

lemma release_cases:
  assumes ok: "hold_ok s"
  obtains (missing) "map_of (hs_held s) i = None" "release_held i action d now s = (s, ReleaseMissing)"
  | (expired) f t where "map_of (hs_held s) i = Some f" "th_id t = i"
      "release_held i action d now s = (leave i f t Gone s, ReleaseExpired t)"
  | (delivered) f t where "map_of (hs_held s) i = Some f" "th_id t = i"
      "release_held i action d now s = (leave i f t (Got d) s, ReleaseDone t)"
proof (cases "map_of (hs_held s) i")
  case None
  then show thesis
    by (intro missing) (simp_all add: release_held_def)
next
  case (Some f)
  obtain task where task: "hf_tx f = Some (ht_chan task)" "ch_open (hs_chans s (ht_chan task))" "fr_id (hf_meta f) = i"
      "hs_tasks s i = Some task"
    using held_entry [OF ok Some] by auto
  show thesis
  proof (cases "hf_expires_at f \<le> now")
    case True
    then show thesis
      using Some retire_eq [OF ok Some] task(3)
      by (intro expired [of f "terminal_of f DeadlineExpired_t None now"])
        (simp_all add: release_held_def terminal_of_def Let_def)
  next
    case False
    then show thesis
      using Some deliver_eq [OF ok Some task(1)] task
      by (intro delivered [of f "terminal_of f Released_t (Some action) now"])
        (simp_all add: release_held_def terminal_of_def Let_def)
  qed
qed

lemma release_ok: "hold_ok s \<Longrightarrow> hold_ok (fst (release_held i action d now s))"
  by (rule release_cases [of s i action d now]) (auto intro: leave_ok)

lemma visible_id [simp]: "fr_id (visible policy snap) = fr_id snap"
  by (auto simp: visible_def redact_flow_record_def Let_def split: option.splits prod.splits)

lemma register_cases:
  assumes ok: "hold_ok s" and free: "hs_tasks s (fr_id snap) = None"
  obtains (full) "hold_register policy cfg ph now snap s = (s\<lparr>hs_rejected := u64_add (hs_rejected s) 1\<rparr>, False)"
  | (held) f where "length (hs_held s) < MAX_HELD_FLOWS" "hs_bytes s + hf_charge f \<le> MAX_HELD_BYTES"
      "fr_id (hf_meta f) = fr_id snap" "hf_tx f = Some (hs_next s)"
      "hold_register policy cfg ph now snap s =
        (s\<lparr>hs_terminal := history_remove (fr_id snap) (hs_terminal s), hs_bytes := hs_bytes s + hf_charge f,
           hs_held := hs_held s @ [(fr_id snap, f)],
           hs_chans := (hs_chans s)(hs_next s := \<lparr>ch_open = True, ch_slot = Pending\<rparr>), hs_next := Suc (hs_next s),
           hs_tasks := (hs_tasks s)(fr_id snap \<mapsto>
             \<lparr>ht_chan = hs_next s, ht_default = fail_open cfg, ht_timer = False\<rparr>)\<rparr>, True)"
proof (cases "MAX_HELD_FLOWS \<le> length (hs_held s) \<or> MAX_HELD_BYTES < u64_saturating_add (hs_bytes s) (held_flow_charge snap)")
  case True
  then show thesis
    by (intro full) (simp add: hold_register_def)
next
  case False
  let ?f = "\<lparr>hf_tx = Some (hs_next s), hf_meta = visible policy snap, hf_phase = ph, hf_held_at = now,
    hf_expires_at = now + of_nat (max (ic_hold_ms cfg) 1) / 1000, hf_charge = held_flow_charge snap\<rparr>"
  have absent: "fr_id snap \<notin> fst ` set (hs_held s)"
    using ok free by (fastforce simp: hold_ok_def entry_ok_def)
  have fits: "hs_bytes s + held_flow_charge snap \<le> MAX_HELD_BYTES"
    using False by (auto simp: u64_saturating_add_def MAX_HELD_BYTES_def)
  then have exact: "u64_add (hs_bytes s) (held_flow_charge snap) = hs_bytes s + held_flow_charge snap"
    by (intro u64_add_exact) (simp add: MAX_HELD_BYTES_def)
  show thesis
  proof (rule held [of ?f])
    show "hold_register policy cfg ph now snap s =
        (s\<lparr>hs_terminal := history_remove (fr_id snap) (hs_terminal s), hs_bytes := hs_bytes s + hf_charge ?f,
           hs_held := hs_held s @ [(fr_id snap, ?f)],
           hs_chans := (hs_chans s)(hs_next s := \<lparr>ch_open = True, ch_slot = Pending\<rparr>), hs_next := Suc (hs_next s),
           hs_tasks := (hs_tasks s)(fr_id snap \<mapsto>
             \<lparr>ht_chan = hs_next s, ht_default = fail_open cfg, ht_timer = False\<rparr>)\<rparr>, True)"
      using False by (simp add: hold_register_def without_absent [OF absent] exact Let_def)
  qed (use False fits in simp_all)
qed

lemma register_ok:
  assumes ok: "hold_ok s" and free: "hs_tasks s (fr_id snap) = None"
  shows "hold_ok (fst (hold_register policy cfg ph now snap s))"
proof (rule register_cases [OF ok free, of policy cfg ph now], goal_cases)
  case full: 1
  then show ?thesis
    using ok by (simp add: hold_ok_def entry_ok_def task_ok_def)
next
  case held: (2 f)
  let ?s = "fst (hold_register policy cfg ph now snap s)"
  have absent: "fr_id snap \<notin> fst ` set (hs_held s)"
    using ok free by (fastforce simp: hold_ok_def entry_ok_def)
  have below: "ht_chan u < hs_next s" if "hs_tasks s j = Some u" for j u
    using ok that by (auto simp: hold_ok_def task_ok_def)
  let ?t = "\<lparr>ht_chan = hs_next s, ht_default = fail_open cfg, ht_timer = False\<rparr>"
  have eqs: "hs_held ?s = hs_held s @ [(fr_id snap, f)]" "hs_tasks ?s = (hs_tasks s)(fr_id snap \<mapsto> ?t)"
    "hs_chans ?s = (hs_chans s)(hs_next s := \<lparr>ch_open = True, ch_slot = Pending\<rparr>)" "hs_next ?s = Suc (hs_next s)"
    "hs_bytes ?s = hs_bytes s + hf_charge f" "hs_terminal ?s = history_remove (fr_id snap) (hs_terminal s)"
    by (simp_all add: held(5))
  have entries: "entry_ok ?s e" if "e \<in> set (hs_held ?s)" for e
  proof (cases "e \<in> set (hs_held s)")
    case True
    then have "fst e \<noteq> fr_id snap"
      using absent by force
    then show ?thesis
      using ok True by (auto simp: hold_ok_def entry_ok_def eqs)
  next
    case False
    then show ?thesis
      using that held(3,4) by (auto simp: entry_ok_def eqs)
  qed
  have tasks: "task_ok ?s j u" if "hs_tasks ?s j = Some u" for j u
  proof (cases "j = fr_id snap")
    case True
    then show ?thesis
      using that by (auto simp: task_ok_def eqs)
  next
    case False
    then have u: "hs_tasks s j = Some u"
      using that by (simp add: eqs)
    then have "task_ok s j u"
      using ok by (auto simp: hold_ok_def)
    then show ?thesis
      using below [OF u] False by (auto simp: task_ok_def eqs)
  qed
  have inj: "j = k" if "hs_tasks ?s j = Some u" "hs_tasks ?s k = Some v" "ht_chan u = ht_chan v" for j k u v
  proof (cases "j = fr_id snap \<or> k = fr_id snap")
    case True
    then show ?thesis
      using that below [of k v] below [of j u] by (auto simp: eqs split: if_splits)
  next
    case False
    then have "hs_tasks s j = Some u" "hs_tasks s k = Some v"
      using that by (simp_all add: eqs)
    then show ?thesis
      using ok that(3) unfolding hold_ok_def by metis
  qed
  have parts: "distinct (map fst (hs_held s))" "hs_bytes s = sum_list (map (hf_charge \<circ> snd) (hs_held s))"
    "history_ok (hs_terminal s)" "set (hy_order (hs_terminal s)) \<inter> fst ` set (hs_held s) = {}"
    using ok unfolding hold_ok_def by blast+
  show ?thesis
    unfolding hold_ok_def
  proof (intro conjI)
    show "\<forall>e \<in> set (hs_held ?s). entry_ok ?s e" "\<forall>i t. hs_tasks ?s i = Some t \<longrightarrow> task_ok ?s i t"
      "\<forall>i j t u. hs_tasks ?s i = Some t \<longrightarrow> hs_tasks ?s j = Some u \<longrightarrow> ht_chan t = ht_chan u \<longrightarrow> i = j"
      using entries tasks inj by blast+
    show "history_ok (hs_terminal ?s)"
      unfolding eqs by (rule history_remove_ok [OF parts(3)])
  qed (use parts absent held(1,2) in \<open>auto simp: eqs\<close>)
qed

lemma poll_ok: "hold_ok s \<Longrightarrow> hold_ok (fst (task_poll i fired now s))"
proof (cases "hs_tasks s i")
  case None
  then show "hold_ok s \<Longrightarrow> ?thesis" by (simp add: task_poll_def)
next
  case (Some t)
  assume ok: "hold_ok s"
  have ok1: "hold_ok (fst (terminalize_held i DeadlineExpired_t now s))"
    and t1: "hs_tasks (fst (terminalize_held i DeadlineExpired_t now s)) i = Some t"
    using terminalize_ok [OF ok] terminalize_tasks [OF ok] Some by simp_all
  have waiting: "hold_ok (s\<lparr>hs_tasks := (hs_tasks s)(i \<mapsto> t\<lparr>ht_timer := True\<rparr>)\<rparr>)"
    using ok Some by (auto simp: hold_ok_def entry_ok_def task_ok_def)
  show ?thesis
    using Some ok waiting ok1 task_end_ok [OF ok Some, of now] task_end_ok [OF ok1 t1, of now]
    by (auto simp: task_poll_def split: prod.splits bool.splits option.splits)
qed

lemma hold_step_ok: "hold_ok s \<Longrightarrow> hold_enabled op s \<Longrightarrow> hold_ok (fst (hold_step policy op s))"
proof (cases op)
  case (Hold cfg ph snap now)
  then show "hold_ok s \<Longrightarrow> hold_enabled op s \<Longrightarrow> ?thesis"
    using register_ok [of s snap policy cfg ph now] by (auto simp: hold_step_def hold_enabled_def split: prod.splits)
next
  case (Release i action d now)
  then show "hold_ok s \<Longrightarrow> hold_enabled op s \<Longrightarrow> ?thesis"
    using release_ok [of s i action d now] by (auto simp: hold_step_def split: prod.splits)
next
  case (Prune now)
  then show "hold_ok s \<Longrightarrow> hold_enabled op s \<Longrightarrow> ?thesis"
    using prune_ok by (simp add: hold_step_def)
next
  case (Poll i fired now)
  then show "hold_ok s \<Longrightarrow> hold_enabled op s \<Longrightarrow> ?thesis"
    using poll_ok [of s i fired now] by (auto simp: hold_step_def split: prod.splits option.splits)
next
  case (CancelTask i now)
  then show "hold_ok s \<Longrightarrow> hold_enabled op s \<Longrightarrow> ?thesis"
    using task_end_ok by (auto simp: hold_step_def task_cancel_def split: option.splits)
qed

lemma hold_new_ok: "hold_ok hold_state_new"
  by (simp add: hold_ok_def hold_state_new_def history_ok_def)

lemma hold_reachable_ok: "hold_reachable policy s \<Longrightarrow> hold_ok s"
  by (induction rule: hold_reachable.induct) (auto intro: hold_new_ok hold_step_ok)

section \<open>What a hold promises\<close>

text \<open>
  One hold seen from outside: none, open (with the verdict it gets by default), or settled on a
  verdict that the waiting task has not taken yet.
\<close>

datatype hold_view = Idle | Open hold_verdict | Settled hold_verdict

definition view :: "string \<Rightarrow> hold_state \<Rightarrow> hold_view" where
  "view i s =
     (case hs_tasks s i of
        None \<Rightarrow> Idle
      | Some t \<Rightarrow> (case received t (ch_slot (hs_chans s (ht_chan t))) of
                     None \<Rightarrow> Open (ht_default t) | Some d \<Rightarrow> Settled d))"

text \<open>An output that settles or ends a hold of the flow.\<close>

definition about :: "string \<Rightarrow> hold_op \<Rightarrow> hold_out \<Rightarrow> bool" where
  "about i op out \<longleftrightarrow>
     (\<exists>d. out = Decision i d) \<or>
     (\<exists>action d now t. op = Release i action d now \<and> out = ReleaseOut (ReleaseDone t)) \<or>
     (\<exists>cfg ph snap now. op = Hold cfg ph snap now \<and> fr_id snap = i \<and> out = Registered)"

text \<open>The steps a hold may take: the contract of the registry.\<close>

inductive hold_spec :: "string \<Rightarrow> hold_op \<Rightarrow> hold_out \<Rightarrow> hold_view \<Rightarrow> hold_view \<Rightarrow> bool" for i where
  spec_start: "fr_id snap = i \<Longrightarrow> hold_spec i (Hold cfg ph snap now) Registered Idle (Open (fail_open cfg))"
| spec_deliver: "hold_spec i (Release i action d now) (ReleaseOut (ReleaseDone t)) (Open v) (Settled d)"
| spec_expire: "hold_spec i (Release i action d now) (ReleaseOut (ReleaseExpired t)) (Open v) (Settled v)"
| spec_prune: "hold_spec i (Prune now) NoOutput (Open v) (Settled v)"
| spec_timeout: "hold_spec i (Poll i fired now) (Decision i v) (Open v) Idle"
| spec_decide: "hold_spec i (Poll i fired now) (Decision i d) (Settled d) Idle"
| spec_cancel: "hold_spec i (CancelTask i now) NoOutput x Idle"
| spec_other: "\<not> about i op out \<Longrightarrow> hold_spec i op out x x"

lemma leave_view:
  assumes ok: "hold_ok s" and f: "map_of (hs_held s) i = Some f" and v: "v \<noteq> Pending"
  shows "\<exists>t. hs_tasks s i = Some t \<and> view i s = Open (ht_default t) \<and>
    view i (leave i f th v s) = Settled (the (received t v)) \<and>
    (\<forall>j. j \<noteq> i \<longrightarrow> view j (leave i f th v s) = view j s)"
proof -
  obtain t where t: "hs_tasks s i = Some t" "hf_tx f = Some (ht_chan t)" "ch_slot (hs_chans s (ht_chan t)) = Pending"
    using held_entry [OF ok f] by auto
  have same: "hs_tasks (leave i f th v s) = hs_tasks s"
    "hs_chans (leave i f th v s) = set_slot (ht_chan t) v (hs_chans s)"
    by (simp_all add: leave_def t(2))
  have "view i s = Open (ht_default t)"
    by (simp add: view_def t)
  moreover have "view i (leave i f th v s) = Settled (the (received t v))"
    unfolding view_def same t(1) using v by (cases v) (simp_all add: set_slot_def)
  moreover have "view j (leave i f th v s) = view j s" if "j \<noteq> i" for j
  proof (cases "hs_tasks s j")
    case (Some u)
    then have "ht_chan u \<noteq> ht_chan t"
      using ok t(1) that unfolding hold_ok_def by metis
    then show ?thesis
      by (simp add: view_def same Some set_slot_def)
  qed (simp add: view_def same)
  ultimately show ?thesis
    using t(1) by blast
qed

lemma terminalize_view:
  assumes ok: "hold_ok s"
  shows "view j (fst (terminalize_held i st now s)) = view j s \<or>
    j = i \<and> (\<exists>v. view j s = Open v \<and> view j (fst (terminalize_held i st now s)) = Settled v)"
proof (rule terminalize_cases [OF ok, of i st now], goal_cases)
  case 1
  then show ?thesis by simp
next
  case (2 f)
  then show ?thesis
    using leave_view [OF ok 2(1), of Gone "terminal_of f st None now"] by (cases "j = i") auto
qed

lemma task_end_view:
  assumes ok: "hold_ok s" and t: "hs_tasks s i = Some t"
  shows "view i (task_end i t now s) = Idle" "j \<noteq> i \<Longrightarrow> view j (task_end i t now s) = view j s"
proof -
  define s1 where "s1 = fst (terminalize_held i ClientCanceled_t now s)"
  have ok1: "hold_ok s1" and t1: "hs_tasks s1 i = Some t"
    using terminalize_ok [OF ok] terminalize_tasks [OF ok] t by (simp_all add: s1_def)
  have eqs: "hs_tasks (task_end i t now s) = (hs_tasks s1)(i := None)"
    "hs_chans (task_end i t now s) = (hs_chans s1)(ht_chan t := (hs_chans s1 (ht_chan t))\<lparr>ch_open := False\<rparr>)"
    by (simp_all add: task_end_def s1_def Let_def)
  show "view i (task_end i t now s) = Idle"
    by (simp add: view_def eqs)
  assume j: "j \<noteq> i"
  have "view j (task_end i t now s) = view j s1"
    using j by (auto simp: view_def eqs split: option.splits)
  then show "view j (task_end i t now s) = view j s"
    using terminalize_view [OF ok, of j i ClientCanceled_t now] j by (simp add: s1_def)
qed

lemma prune_view:
  assumes "hold_ok s"
  shows "view j (prune_inactive_holds now s) = view j s \<or>
    (\<exists>v. view j s = Open v \<and> view j (prune_inactive_holds now s) = Settled v)"
proof -
  let ?P = "\<lambda>s'. hold_ok s' \<and> (view j s' = view j s \<or> (\<exists>v. view j s = Open v \<and> view j s' = Settled v))"
  have "?P (foldl (prune_one now) s xs)" for xs
  proof (rule foldl_invariant [of ?P])
    show "?P s"
      using assms by simp
    fix s' x
    assume P: "?P s'"
    then show "?P (prune_one now s' x)"
      using terminalize_view [of s' j "fst x" "snd x" now] terminalize_ok [of s' "fst x" "snd x" now]
      by (auto simp: prune_one_def)
  qed
  then show ?thesis
    by (simp add: prune_inactive_holds_def)
qed

lemma received_timer [simp]: "received (t\<lparr>ht_timer := b\<rparr>) v = received t v"
  by (cases v) simp_all

lemma poll_view:
  assumes ok: "hold_ok s" and poll: "task_poll i fired now s = (s', out)"
  shows "(\<forall>j. j \<noteq> i \<longrightarrow> view j s' = view j s) \<and>
    (case out of
       None \<Rightarrow> view i s' = view i s
     | Some d \<Rightarrow> view i s' = Idle \<and> (view i s = Open d \<or> view i s = Settled d))"
proof (cases "hs_tasks s i")
  case None
  then show ?thesis
    using poll by (auto simp: task_poll_def)
next
  case (Some t)
  let ?w = "\<lambda>s. received t (ch_slot (hs_chans s (ht_chan t)))"
  have view: "view i s = (case ?w s of None \<Rightarrow> Open (ht_default t) | Some d \<Rightarrow> Settled d)"
    by (simp add: view_def Some)
  show ?thesis
  proof (cases "ht_timer t")
    case False
    show ?thesis
    proof (cases "?w s")
      case None
      have "view j (s\<lparr>hs_tasks := (hs_tasks s)(i \<mapsto> t\<lparr>ht_timer := True\<rparr>)\<rparr>) = view j s" for j
        by (auto simp: view_def Some split: option.splits)
      then show ?thesis
        using poll Some False None by (auto simp: task_poll_def split: if_splits)
    next
      case (Some d)
      then have "s' = task_end i t now s" "out = Some d"
        using poll False \<open>hs_tasks s i = Some t\<close> by (auto simp: task_poll_def)
      then show ?thesis
        using view Some task_end_view [OF ok \<open>hs_tasks s i = Some t\<close>, where now = now] by auto
    qed
  next
    case True
    show ?thesis
    proof (rule terminalize_cases [OF ok, of i DeadlineExpired_t now], goal_cases)
      case 1
      have "task_poll i fired now s =
          (case ?w s of None \<Rightarrow> (s, None) | Some d \<Rightarrow> (task_end i t now s, Some d))"
        by (simp add: task_poll_def Some True 1(2))
      then show ?thesis
        using poll view task_end_view [OF ok Some, where now = now] by (cases "?w s") auto
    next
      case (2 f)
      let ?s1 = "leave i f (terminal_of f DeadlineExpired_t None now) Gone s"
      have ok1: "hold_ok ?s1" and t1: "hs_tasks ?s1 i = Some t"
        using leave_ok [OF ok 2(1,3)] Some by (simp_all add: leave_def)
      have "s' = task_end i t now ?s1" "out = Some (ht_default t)"
        using poll Some True 2(2) by (auto simp: task_poll_def)
      then show ?thesis
        using task_end_view [OF ok1 t1, where now = now] Some
          leave_view [OF ok 2(1), of Gone "terminal_of f DeadlineExpired_t None now"] by auto
    qed
  qed
qed

lemma task_chan_below: "hold_ok s \<Longrightarrow> hs_tasks s j = Some u \<Longrightarrow> ht_chan u < hs_next s"
  by (auto simp: hold_ok_def task_ok_def)

lemma spec_other_release: "i \<noteq> j \<Longrightarrow> hold_spec i (Release j action d now) (ReleaseOut r) x x"
  by (rule spec_other) (auto simp: about_def)

lemma spec_other_poll: "i \<noteq> j \<Longrightarrow> hold_spec i (Poll j fired now) (Decision j d) x x"
  by (rule spec_other) (auto simp: about_def)

lemma spec_other_quiet: "hold_spec i op NoOutput x x"
  by (rule spec_other) (auto simp: about_def)

lemma register_view:
  assumes ok: "hold_ok s" and free: "hs_tasks s (fr_id snap) = None"
    and reg: "hold_register policy cfg ph now snap s = (s', held)"
  shows "if held then view (fr_id snap) s' = Open (fail_open cfg) \<and> (\<forall>j. j \<noteq> fr_id snap \<longrightarrow> view j s' = view j s)
         else (\<forall>j. view j s' = view j s)"
proof (rule register_cases [OF ok free, of policy cfg ph now], goal_cases)
  case 1
  then show ?thesis
    using reg by (auto simp: view_def split: option.splits)
next
  case (2 f)
  have below: "ht_chan u \<noteq> hs_next s" if "hs_tasks s j = Some u" for j u
    using task_chan_below [OF ok that] by simp
  have "view j s' = view j s" if "j \<noteq> fr_id snap" for j
    using reg 2(5) that below [of j] by (auto simp: view_def split: option.splits)
  moreover have "view (fr_id snap) s' = Open (fail_open cfg)" "held"
    using reg 2(5) by (auto simp: view_def)
  ultimately show ?thesis
    by simp
qed

lemma hold_step_spec:
  assumes ok: "hold_ok s" and en: "hold_enabled op s" and step: "hold_step policy op s = (s', out)"
  shows "hold_spec i op out (view i s) (view i s')"
proof -
  show ?thesis
  proof (cases op)
    case (Hold cfg ph snap now)
    then have free: "hs_tasks s (fr_id snap) = None"
      using en by (simp add: hold_enabled_def)
    obtain held where reg: "hold_register policy cfg ph now snap s = (s', held)"
      and out: "out = (if held then Registered else Overloaded_hold)"
      using step by (auto simp: hold_step_def Hold split: prod.splits)
    have idle: "view (fr_id snap) s = Idle"
      by (simp add: view_def free)
    show ?thesis
      using register_view [OF ok free reg] idle out unfolding Hold
      by (cases "held \<and> i = fr_id snap") (auto simp: about_def intro: spec_start spec_other split: if_splits)
  next
    case (Release j action d now)
    then obtain r where r: "release_held j action d now s = (s', r)" "out = ReleaseOut r"
      using step by (auto simp: hold_step_def split: prod.splits)
    show ?thesis
    proof (rule release_cases [OF ok, of j action d now], goal_cases)
      case 1
      then show ?thesis
        using r unfolding Release by (auto simp: about_def intro: spec_other)
    next
      case (2 f t)
      have eqs: "s' = leave j f t Gone s" "r = ReleaseExpired t"
        using 2(3) r by auto
      show ?thesis
        using leave_view [OF ok 2(1), of Gone t] r(2) unfolding Release eqs
        by (cases "i = j") (auto intro: spec_expire spec_other_release)
    next
      case (3 f t)
      have eqs: "s' = leave j f t (Got d) s" "r = ReleaseDone t"
        using 3(3) r by auto
      show ?thesis
        using leave_view [OF ok 3(1), of "Got d" t] r(2) unfolding Release eqs
        by (cases "i = j") (auto intro: spec_deliver spec_other_release)
    qed
  next
    case (Prune now)
    then show ?thesis
      using step prune_view [OF ok, of i now]
      by (auto simp: hold_step_def intro: spec_prune spec_other_quiet)
  next
    case (Poll j fired now)
    then obtain r where r: "task_poll j fired now s = (s', r)"
      and out: "out = (case r of None \<Rightarrow> NoOutput | Some d \<Rightarrow> Decision j d)"
      using step by (auto simp: hold_step_def split: prod.splits option.splits)
    show ?thesis
      using poll_view [OF ok r] out unfolding Poll
      by (cases "i = j"; cases r) (auto intro: spec_timeout spec_decide spec_other_quiet spec_other_poll)
  next
    case (CancelTask j now)
    have "view k s' = (if k = j \<and> hs_tasks s j \<noteq> None then Idle else view k s)" for k
      using step task_end_view [OF ok, where now = now]
      by (auto simp: hold_step_def CancelTask task_cancel_def split: option.splits)
    moreover have "out = NoOutput"
      using step by (simp add: hold_step_def CancelTask)
    moreover have "view j s = Idle" if "hs_tasks s j = None"
      using that by (simp add: view_def)
    ultimately show ?thesis
      unfolding CancelTask by (cases "i = j") (auto intro: spec_cancel spec_other_quiet)
  qed
qed

text \<open>
  C11: seen through any one flow, every step of the shared registry is a step its contract allows. An open
  hold is settled by the one release that reports delivery, or by its deadline, and by nothing else;
  a settled hold is answered with exactly that verdict; an open hold is answered only with its
  default; and steps on other flows leave it alone.
\<close>

theorem hold_refines:
  assumes "hold_reachable policy s" "hold_enabled op s" "hold_step policy op s = (s', out)"
  shows "hold_spec i op out (view i s) (view i s')"
  by (rule hold_step_spec [OF hold_reachable_ok [OF assms(1)] assms(2,3)])

text \<open>
  C13: whatever is held, released, pruned or cancelled, at most 32 flows and 32 MiB are held at once, the byte
  counter is exactly the sum of the charges still held (it never wraps and nothing leaks), the
  history of ended holds keeps at most 256 of them, and no flow is both held and ended.
\<close>

theorem hold_budget:
  assumes "hold_reachable policy s"
  shows "length (hs_held s) \<le> 32 \<and> hs_bytes s \<le> 33554432 \<and>
    hs_bytes s = sum_list (map (hf_charge \<circ> snd) (hs_held s)) \<and> distinct (map fst (hs_held s)) \<and>
    length (hy_order (hs_terminal s)) \<le> 256 \<and>
    (\<forall>i. history_get (hs_terminal s) i \<noteq> None \<longrightarrow> map_of (hs_held s) i = None)"
proof -
  have ok: "hold_ok s"
    using assms by (rule hold_reachable_ok)
  have "map_of (hs_held s) i = None" if "history_get (hs_terminal s) i \<noteq> None" for i
  proof -
    have "i \<in> set (hy_order (hs_terminal s))"
      using ok that by (auto simp: hold_ok_def history_ok_def history_get_def dest: map_of_SomeD)
        (metis fst_conv image_eqI map_of_SomeD)
    then show ?thesis
      using ok by (auto simp: hold_ok_def map_of_eq_None_iff)
  qed
  then show ?thesis
    using ok by (auto simp: hold_ok_def history_ok_def MAX_HELD_FLOWS_def MAX_HELD_BYTES_def
        TERMINAL_HOLD_HISTORY_CAP_def)
qed

text \<open>
  C14: a held flow never waits for ever: once its timer has fired, two polls of its task are enough for a
  decision, whatever the other parties have done before.
\<close>

theorem hold_always_ends:
  assumes "hold_reachable policy s" "hs_tasks s i \<noteq> None"
    "hold_step policy (Poll i True now) s = (s1, out1)" "hold_step policy (Poll i True now') s1 = (s2, out2)"
  shows "(\<exists>d. out1 = Decision i d) \<or> (\<exists>d. out2 = Decision i d)"
proof -
  have ok: "hold_ok s"
    using assms(1) by (rule hold_reachable_ok)
  obtain t where t: "hs_tasks s i = Some t"
    using assms(2) by auto
  obtain r1 where r1: "task_poll i True now s = (s1, r1)"
    and o1: "out1 = (case r1 of None \<Rightarrow> NoOutput | Some d \<Rightarrow> Decision i d)"
    using assms(3) by (auto simp: hold_step_def split: prod.splits option.splits)
  obtain r2 where r2: "task_poll i True now' s1 = (s2, r2)"
    and o2: "out2 = (case r2 of None \<Rightarrow> NoOutput | Some d \<Rightarrow> Decision i d)"
    using assms(4) by (auto simp: hold_step_def split: prod.splits option.splits)
  have late: "\<exists>d. snd (task_poll i True nw s') = Some d"
    if ok': "hold_ok s'" and t': "hs_tasks s' i = Some u" and u: "ht_timer u" for s' u nw
  proof (rule terminalize_cases [OF ok', of i DeadlineExpired_t nw], goal_cases)
    case 1
    have "task_ok s' i u"
      using ok' t' by (auto simp: hold_ok_def)
    then have "ch_slot (hs_chans s' (ht_chan u)) \<noteq> Pending"
      using 1(1) by (auto simp: task_ok_def map_of_eq_None_iff)
    then show ?case
      using 1(2) t' u by (cases "ch_slot (hs_chans s' (ht_chan u))") (auto simp: task_poll_def)
  next
    case (2 f)
    then show ?case
      using t' u by (auto simp: task_poll_def)
  qed
  show ?thesis
  proof (cases "r1")
    case (Some d)
    then show ?thesis
      using o1 by simp
  next
    case None
    have not_timer: "\<not> ht_timer t"
      using late [OF ok t, of now] r1 None by auto
    then have s1: "s1 = s\<lparr>hs_tasks := (hs_tasks s)(i \<mapsto> t\<lparr>ht_timer := True\<rparr>)\<rparr>"
      using r1 None t by (auto simp: task_poll_def split: option.splits if_splits)
    have "hold_ok s1"
      using poll_ok [OF ok, of i True now] r1 by simp
    then obtain d where "r2 = Some d"
      using late [of s1 "t\<lparr>ht_timer := True\<rparr>" now'] r2 by (auto simp: s1)
    then show ?thesis
      using o2 by simp
  qed
qed

section \<open>Runs\<close>

lemma released_spec:
  "hold_spec i (Release i action d now) (ReleaseOut (ReleaseDone t)) x y \<Longrightarrow> (\<exists>v. x = Open v) \<and> y = Settled d"
  by (erule hold_spec.cases) (auto simp: about_def)

fun hold_run :: "flow_policy option \<Rightarrow> hold_op list \<Rightarrow> hold_state \<Rightarrow> hold_state \<times> hold_out list" where
  "hold_run policy [] s = (s, [])"
| "hold_run policy (op # ops) s =
     (if hold_enabled op s then
        (let (s1, out) = hold_step policy op s; (s2, outs) = hold_run policy ops s1 in (s2, out # outs))
      else hold_run policy ops s)"

fun first_decision :: "string \<Rightarrow> hold_out list \<Rightarrow> hold_verdict option" where
  "first_decision i [] = None"
| "first_decision i (Decision j d # outs) = (if i = j then Some d else first_decision i outs)"
| "first_decision i (out # outs) = first_decision i outs"

lemma first_decision_skip: "(\<And>d. out \<noteq> Decision i d) \<Longrightarrow> first_decision i (out # outs) = first_decision i outs"
  by (cases out) auto

lemma hold_run_reachable: "hold_reachable policy s \<Longrightarrow> hold_reachable policy (fst (hold_run policy ops s))"
proof (induction ops arbitrary: s)
  case Nil
  then show ?case by simp
next
  case (Cons op ops)
  have "hold_reachable policy (fst (hold_step policy op s))" if "hold_enabled op s"
    using Cons.prems that by (rule reach_step)
  then show ?case
    using Cons.IH [of s] Cons.IH [of "fst (hold_step policy op s)"] Cons.prems
    by (auto simp: Let_def case_prod_unfold)
qed

lemma settled_run:
  assumes "hold_reachable policy s" "view i s = Settled d" "\<forall>now. CancelTask i now \<notin> set ops"
    "hold_run policy ops s = (s', outs)"
  shows "case first_decision i outs of Some d' \<Rightarrow> d' = d | None \<Rightarrow> view i s' = Settled d"
  using assms
proof (induction ops arbitrary: s outs)
  case Nil
  then show ?case by auto
next
  case (Cons op ops)
  show ?case
  proof (cases "hold_enabled op s")
    case False
    then show ?thesis
      using Cons by auto
  next
    case True
    obtain s1 out outs1 where step: "hold_step policy op s = (s1, out)" "hold_run policy ops s1 = (s', outs1)"
      "outs = out # outs1"
      using Cons.prems(4) True by (auto simp: Let_def split: prod.splits)
    have spec: "hold_spec i op out (Settled d) (view i s1)"
      using hold_step_spec [OF hold_reachable_ok [OF Cons.prems(1)] True step(1), of i] Cons.prems(2) by simp
    have reach: "hold_reachable policy s1"
      using reach_step [OF Cons.prems(1) True] step(1) by simp
    have "out = Decision i d \<or> (\<exists>now. op = CancelTask i now) \<or> view i s1 = Settled d \<and> \<not> about i op out"
      using spec by (cases rule: hold_spec.cases) auto
    then consider "out = Decision i d" | "view i s1 = Settled d" "\<not> about i op out"
      using Cons.prems(3) by auto
    then show ?thesis
    proof cases
      case 1
      then show ?thesis
        by (simp add: step(3))
    next
      case 2
      then have "first_decision i outs = first_decision i outs1"
        unfolding step(3) by (intro first_decision_skip) (auto simp: about_def)
      then show ?thesis
        using Cons.IH [OF reach _ _ step(2)] 2(1) Cons.prems(3) by simp
    qed
  qed
qed

text \<open>
  C12: when a release reports delivery, the waiting request takes exactly that verdict, whatever
  prunings, timers, other releases and other flows come in between, unless the request itself is
  cancelled: the control plane never reports a release that a deadline or another release replaced.
\<close>

theorem release_reaches_task:
  assumes "hold_reachable policy s"
    "hold_step policy (Release i action d now) s = (s1, ReleaseOut (ReleaseDone t))"
    "hold_run policy ops s1 = (s2, outs)" "\<forall>now. CancelTask i now \<notin> set ops"
  shows "case first_decision i outs of Some d' \<Rightarrow> d' = d | None \<Rightarrow> view i s2 = Settled d"
proof -
  have en: "hold_enabled (Release i action d now) s"
    by (simp add: hold_enabled_def)
  have reach: "hold_reachable policy s1"
    using reach_step [OF assms(1) en] assms(2) by simp
  have "hold_spec i (Release i action d now) (ReleaseOut (ReleaseDone t)) (view i s) (view i s1)"
    using hold_step_spec [OF hold_reachable_ok [OF assms(1)] en assms(2)] .
  then have "view i s1 = Settled d"
    using released_spec by blast
  then show ?thesis
    by (rule settled_run [OF reach _ assms(4,3)])
qed

section \<open>A run\<close>

definition sample_cfg :: intercept_cfg where
  "sample_cfg = \<lparr>ic_matcher = \<lparr>nm_host = None, nm_path = None, nm_method = None, nm_status = None\<rparr>,
     ic_at_request = True, ic_at_response = False, ic_hold_ms = 1000, ic_on_timeout_drop = False\<rparr>"

definition sample_hold :: hold_op where
  "sample_hold = Hold sample_cfg ''request'' (flow_default\<lparr>fr_id := ''f1''\<rparr>) 0"

definition sample_release :: hold_op where
  "sample_release = Release ''f1'' ''drop'' (DropFlow (Some 418)) (1 / 2)"

definition held_state :: hold_state where
  "held_state = fst (hold_step None sample_hold hold_state_new)"

lemma held_state_reachable: "hold_reachable None held_state"
  unfolding held_state_def by (rule reach_step [OF reach_new]) (simp add: hold_enabled_def sample_hold_def hold_state_new_def)

lemma sample_charge: "held_flow_charge (flow_default\<lparr>fr_id := ''f1''\<rparr>) = 1026"
  by (simp add: held_flow_charge_def flow_default_def u64_saturating_add_def)

lemma held_state_eq: "hs_held held_state = [(''f1'', \<lparr>hf_tx = Some 0, hf_meta = flow_default\<lparr>fr_id := ''f1''\<rparr>,
    hf_phase = ''request'', hf_held_at = 0, hf_expires_at = 1, hf_charge = 1026\<rparr>)]"
  "hs_chans held_state 0 = \<lparr>ch_open = True, ch_slot = Pending\<rparr>"
  "hs_tasks held_state ''f1'' = Some \<lparr>ht_chan = 0, ht_default = Resume mutation_default, ht_timer = False\<rparr>"
  by (simp_all add: held_state_def hold_step_def sample_hold_def hold_register_def Let_def sample_charge
      hold_state_new_def MAX_HELD_FLOWS_def MAX_HELD_BYTES_def u64_saturating_add_def sample_cfg_def
      fail_open_def without_def visible_def)

lemma sample_delivered:
  "snd (hold_step None sample_release held_state) =
     ReleaseOut (ReleaseDone \<lparr>th_id = ''f1'', th_phase = ''request'', th_state = Released_t, th_held_at = 0,
       th_expires_at = 1, th_terminal_at = 1 / 2, th_action = Some ''drop''\<rparr>)"
  by (simp add: hold_step_def sample_release_def release_held_def held_state_eq terminal_of_def Let_def)

lemma hold_refines_witness:
  "\<exists>v. view ''f1'' held_state = Open v \<and> view ''f1'' (fst (hold_step None sample_release held_state)) = Settled (DropFlow (Some 418))"
proof -
  have "hold_spec ''f1'' sample_release (snd (hold_step None sample_release held_state)) (view ''f1'' held_state)
      (view ''f1'' (fst (hold_step None sample_release held_state)))"
    by (rule hold_refines [OF held_state_reachable]) (simp_all add: hold_enabled_def sample_release_def)
  then have "hold_spec ''f1'' (Release ''f1'' ''drop'' (DropFlow (Some 418)) (1 / 2))
      (ReleaseOut (ReleaseDone \<lparr>th_id = ''f1'', th_phase = ''request'', th_state = Released_t, th_held_at = 0,
       th_expires_at = 1, th_terminal_at = 1 / 2, th_action = Some ''drop''\<rparr>)) (view ''f1'' held_state)
      (view ''f1'' (fst (hold_step None sample_release held_state)))"
    unfolding sample_delivered by (simp only: sample_release_def)
  then show ?thesis
    by (rule released_spec [THEN conjE]) blast
qed

lemma hold_budget_witness: "hs_bytes held_state = 1026 \<and> history_get (hs_terminal held_state) ''f1'' = None"
  using hold_budget [OF held_state_reachable] by (auto simp: held_state_eq)

lemma hold_always_ends_witness:
  "\<exists>d. snd (hold_step None (Poll ''f1'' True 2) held_state) = Decision ''f1'' d \<or>
    snd (hold_step None (Poll ''f1'' True 2) (fst (hold_step None (Poll ''f1'' True 2) held_state))) = Decision ''f1'' d"
  using hold_always_ends [OF held_state_reachable _ surjective_pairing surjective_pairing, of "''f1''" 2 2]
  by (auto simp: held_state_eq)

lemma release_reaches_task_witness:
  "first_decision ''f1'' (snd (hold_run None [Prune 5, Poll ''f1'' True 5]
      (fst (hold_step None sample_release held_state)))) \<in> {None, Some (DropFlow (Some 418))}"
  using release_reaches_task [OF held_state_reachable, of "''f1''" "''drop''" "DropFlow (Some 418)" "1 / 2"
      "fst (hold_step None sample_release held_state)" _ "[Prune 5, Poll ''f1'' True 5]"
      "fst (hold_run None [Prune 5, Poll ''f1'' True 5] (fst (hold_step None sample_release held_state)))"
      "snd (hold_run None [Prune 5, Poll ''f1'' True 5] (fst (hold_step None sample_release held_state)))"]
    sample_delivered
  by (auto simp: sample_release_def prod_eq_iff split: option.splits)

end
