(* ===== verification/ProxyRequest.thy ===== *)
theory ProxyRequest
  imports ProxyRules ProxyHold
begin

text \<open>
  One request through the proxy (\<^verbatim>\<open>proxy_request\<close>, \<^verbatim>\<open>proxy_request_inner\<close> and the capture of its flow
  in \<^verbatim>\<open>net/proxy.rs\<close>): replay, request rules, injected faults, request interception, the exchange with
  the upstream, decompression, response rules, response interception, capture. The asynchronous
  function is a sequence of stages, cut where it awaits something, because the client can hang up at
  every such point and the request future is then dropped.

  What the outside does is the record \<open>px_env\<close>: the upstream, the replay set, the decisions on held
  flows (any verdict \<open>ProxyHold\<close> can deliver), the worker pool, one clock reading.
\<close>

section \<open>Targets\<close>

record uri_parts =
  ui_scheme :: "string option"
  ui_host :: "string option"
  ui_authority :: "string option"
  ui_port :: "nat option"
  ui_path_query :: "string option"

record tunnel =
  tu_scheme :: string
  tu_host :: string
  tu_authority :: string
  tu_port :: "nat option"

definition resolve_target ::
  "uri_parts \<Rightarrow> tunnel option \<Rightarrow> (string \<times> string \<times> string \<times> string) option" where
  "resolve_target uri tun =
     (let pq = (case ui_path_query uri of None \<Rightarrow> ''/'' | Some p \<Rightarrow> p) in
      case tun of
        Some t \<Rightarrow> Some (tu_scheme t, tu_host t, pq, tu_scheme t @ ''://'' @ tu_authority t @ pq)
      | None \<Rightarrow>
          (let scheme = (case ui_scheme uri of None \<Rightarrow> ''http'' | Some s \<Rightarrow> s) in
           case ui_host uri of
             None \<Rightarrow> None
           | Some host \<Rightarrow>
               let authority = (case ui_authority uri of None \<Rightarrow> host | Some a \<Rightarrow> a)
               in Some (scheme, host, pq, scheme @ ''://'' @ authority @ pq)))"

definition effective_target_port :: "uri_parts \<Rightarrow> tunnel option \<Rightarrow> string \<Rightarrow> nat" where
  "effective_target_port uri tun scheme =
     (let explicit = (case tun of Some t \<Rightarrow> tu_port t | None \<Rightarrow> ui_port uri)
      in case explicit of Some p \<Rightarrow> p | None \<Rightarrow> if scheme = ''https'' then 443 else 80)"

section \<open>State and environment\<close>

record pending_flow =
  pf_record :: "flow_record option"
  pf_original_url :: "string option"
  pf_http_version :: "string option"
  pf_upstream_http_version :: "string option"
  pf_fault_ids :: "string list"
  pf_upstream_encoding :: "(string \<times> nat) option"

datatype stage =
    ReadBody
  | AfterRules
  | AfterFaults
  | AfterRequestHold
  | Forward
  | ReadAnswer
  | Decode
  | ResponseRules
  | AfterResponseHold
  | Finish

record upstream_request =
  ur_method :: string
  ur_url :: string
  ur_headers :: headers
  ur_body :: "chunk list"

record upstream_response =
  us_status :: nat
  us_version :: string
  us_headers :: "(string \<times> byte list) list"
  us_body :: "chunk list"

record replay_response =
  rp_status :: nat
  rp_headers :: headers
  rp_bytes :: "byte list"
  rp_length :: "nat option"

record px =
  px_stage :: stage
  px_method :: string
  px_scheme :: string
  px_host :: string
  px_path :: string
  px_url :: string
  px_port :: nat
  px_req_headers :: headers
  px_len_hint :: "nat option"
  px_req_bytes :: "byte list"
  px_req_streaming :: bool
  px_req_stream :: "chunk list"
  px_id :: string
  px_in_scope :: bool
  px_matched :: "string option"
  px_rule_ids :: "string list"
  px_modified :: bool
  px_request_body_modified :: bool
  px_short_circuit :: "synthetic option"
  px_request_faults :: request_faults
  px_status_code :: nat
  px_status :: "nat option"
  px_resp_headers :: headers
  px_resp_chunks :: "chunk list"
  px_resp_bytes :: "byte list"
  px_original_length :: "nat option"
  px_plaintext :: bool
  px_pending :: pending_flow
  px_queue :: "flow_record list"
  px_dropped :: nat
  px_rules :: active_rules
  px_faults :: "active_net_fault list"
  px_sent :: "upstream_request list"

datatype px_result = Answer http_response | TransportAborted

record px_env =
  pe_http :: http_ext
  pe_json :: json_ext
  pe_hash :: "byte list \<Rightarrow> byte list"
  pe_policy :: "flow_policy option"
  pe_session :: string
  pe_filters :: "string list"
  pe_anticache :: bool
  pe_anticomp :: bool
  pe_queue_cap :: nat
  pe_replay :: "string \<Rightarrow> string \<Rightarrow> string \<Rightarrow> nat \<Rightarrow> string \<Rightarrow> byte list \<Rightarrow> string + replay_response option"
  pe_hold :: "string \<Rightarrow> flow_record \<Rightarrow> hold_verdict option"
  pe_upstream :: "upstream_request \<Rightarrow> string + upstream_response"
  pe_read_error :: string
  pe_slot :: decode_slot
  pe_now :: rat
  pe_dur_ms :: nat

abbreviation pe_rule :: "px_env \<Rightarrow> rule_ext" where
  "pe_rule env \<equiv> hx_rule (pe_http env)"

section \<open>Capture\<close>

record flow_parts =
  fp_id :: string
  fp_method :: string
  fp_scheme :: string
  fp_host :: string
  fp_port :: nat
  fp_path :: string
  fp_req_headers :: headers
  fp_req_bytes :: "byte list"
  fp_req_streamed :: bool
  fp_status :: "nat option"
  fp_resp_headers :: headers
  fp_resp_bytes :: "byte list"
  fp_dur_ms :: nat
  fp_error :: "string option"
  fp_matched :: "string option"
  fp_modified :: bool
  fp_request_body_modified :: bool
  fp_rule_ids :: "string list"

definition make_flow :: "px_env \<Rightarrow> pending_flow \<Rightarrow> flow_parts \<Rightarrow> flow_record" where
  "make_flow env pending p =
     (let req_type = content_type (pe_rule env) (fp_req_headers p);
          resp_type = content_type (pe_rule env) (fp_resp_headers p);
          (req_body, req_truncated) =
            (if fp_req_streamed p then (None, False) else body_to_text req_type (fp_req_bytes p) BODY_CAP);
          (resp_body, resp_truncated) = body_to_text resp_type (fp_resp_bytes p) BODY_CAP;
          declared = content_length (fp_req_headers p);
          req_len = (if fp_req_streamed p then (case declared of None \<Rightarrow> 0 | Some n \<Rightarrow> n)
                     else length (fp_req_bytes p))
      in \<lparr>fr_id = fp_id p,
          fr_flow_sequence = (case sequence_from_id (fp_id p) of None \<Rightarrow> 0 | Some n \<Rightarrow> n),
          fr_capture_session_id = [],
          fr_ts = pe_now env,
          fr_method = fp_method p,
          fr_scheme = fp_scheme p,
          fr_host = fp_host p,
          fr_port = Some (fp_port p),
          fr_path = fp_path p,
          fr_host_redacted = False,
          fr_path_redacted = False,
          fr_status = fp_status p,
          fr_dur_ms = Some (fp_dur_ms p),
          fr_req_headers = fp_req_headers p,
          fr_resp_headers = fp_resp_headers p,
          fr_req_type = req_type,
          fr_resp_type = resp_type,
          fr_req_len = req_len,
          fr_resp_len = length (fp_resp_bytes p),
          fr_req_body = req_body,
          fr_resp_body = resp_body,
          fr_req_body_redacted = False,
          fr_resp_body_redacted = False,
          fr_redaction_policy = None,
          fr_redaction_policy_version = None,
          fr_req_truncated = req_truncated,
          fr_resp_truncated = resp_truncated,
          fr_matched = fp_matched p,
          fr_rule_id = (if fp_rule_ids p = [] then None else Some (last (fp_rule_ids p))),
          fr_rule_ids = fp_rule_ids p,
          fr_modified = fp_modified p,
          fr_request_body_modified = fp_request_body_modified p,
          fr_original_url = pf_original_url pending,
          fr_http_version = pf_http_version pending,
          fr_upstream_http_version = pf_upstream_http_version pending,
          fr_upstream_content_encoding = map_option fst (pf_upstream_encoding pending),
          fr_upstream_resp_len = map_option snd (pf_upstream_encoding pending),
          fr_fault_ids = pf_fault_ids pending,
          fr_upstream_bypassed = False,
          fr_error = fp_error p,
          fr_error_redacted = False,
          fr_streamed = False,
          fr_resp_len_unknown = False,
          fr_req_streamed = fp_req_streamed p,
          fr_req_len_unknown = (fp_req_streamed p \<and> declared = None)\<rparr>)"

text \<open>The parts every capture of a request shares; each site then sets what it knows.\<close>

definition parts_of :: "px \<Rightarrow> flow_parts" where
  "parts_of s =
     \<lparr>fp_id = px_id s, fp_method = px_method s, fp_scheme = px_scheme s, fp_host = px_host s,
      fp_port = px_port s, fp_path = px_path s, fp_req_headers = px_req_headers s,
      fp_req_bytes = px_req_bytes s, fp_req_streamed = px_req_streaming s, fp_status = None,
      fp_resp_headers = [], fp_resp_bytes = [], fp_dur_ms = 0, fp_error = None, fp_matched = None,
      fp_modified = False, fp_request_body_modified = False, fp_rule_ids = []\<rparr>"

definition stamp_capture_context :: "px_env \<Rightarrow> flow_record \<Rightarrow> flow_record" where
  "stamp_capture_context env rec = rec\<lparr>fr_capture_session_id := pe_session env\<rparr>"

text \<open>The bounded queue to the daemon: a flow that does not fit is dropped and counted.\<close>

definition send_flow :: "px_env \<Rightarrow> flow_record \<Rightarrow> px \<Rightarrow> px" where
  "send_flow env rec s =
     (if length (px_queue s) < pe_queue_cap env then s\<lparr>px_queue := px_queue s @ [rec]\<rparr>
      else s\<lparr>px_dropped := u64_add (px_dropped s) 1\<rparr>)"

definition enqueue_flow :: "px_env \<Rightarrow> flow_record \<Rightarrow> px \<Rightarrow> px" where
  "enqueue_flow env rec s =
     (let pending = px_pending s;
          pending = (case pf_record pending of
                       Some r \<Rightarrow> if fr_id r = fr_id rec then pending\<lparr>pf_record := None\<rparr> else pending
                     | None \<Rightarrow> pending)
      in send_flow env rec (s\<lparr>px_pending := pending\<rparr>))"

definition finish_capture :: "px_env \<Rightarrow> flow_record \<Rightarrow> px \<Rightarrow> px" where
  "finish_capture env rec s = enqueue_flow env (visible (pe_policy env) (stamp_capture_context env rec)) s"

definition capture :: "px_env \<Rightarrow> flow_parts \<Rightarrow> px \<Rightarrow> px" where
  "capture env p s = finish_capture env (make_flow env (px_pending s) p) s"

definition capture_bypassed :: "px_env \<Rightarrow> flow_parts \<Rightarrow> px \<Rightarrow> px" where
  "capture_bypassed env p s =
     finish_capture env ((make_flow env (px_pending s) p)\<lparr>fr_upstream_bypassed := True\<rparr>) s"

definition capture_streamed :: "px_env \<Rightarrow> flow_parts \<Rightarrow> nat option \<Rightarrow> px \<Rightarrow> px" where
  "capture_streamed env p len_hint s =
     (let rec = stamp_capture_context env (make_flow env (px_pending s) p);
          rec = rec\<lparr>fr_streamed := True,
                    fr_resp_truncated := fr_resp_truncated rec \<or> fr_resp_body rec \<noteq> None,
                    fr_resp_len_unknown := (len_hint = None),
                    fr_resp_len := (case len_hint of None \<Rightarrow> fr_resp_len rec | Some n \<Rightarrow> n)\<rparr>
      in enqueue_flow env (visible (pe_policy env) rec) s)"

definition note_pending :: "flow_record \<Rightarrow> px \<Rightarrow> px" where
  "note_pending rec s = s\<lparr>px_pending := (px_pending s)\<lparr>pf_record := Some rec\<rparr>\<rparr>"

definition note_redirect :: "string \<Rightarrow> px \<Rightarrow> px" where
  "note_redirect original_url s =
     s\<lparr>px_pending := (px_pending s)\<lparr>
         pf_original_url := (case pf_original_url (px_pending s) of None \<Rightarrow> Some original_url | u \<Rightarrow> u),
         pf_record := map_option (\<lambda>r. r\<lparr>fr_scheme := px_scheme s, fr_host := px_host s,
             fr_port := Some (px_port s), fr_path := px_path s, fr_original_url := Some original_url\<rparr>)
           (pf_record (px_pending s))\<rparr>\<rparr>"

definition note_upstream_version :: "string \<Rightarrow> px \<Rightarrow> px" where
  "note_upstream_version version s =
     s\<lparr>px_pending := (px_pending s)\<lparr>pf_upstream_http_version := Some version\<rparr>\<rparr>"

definition note_faults :: "string list \<Rightarrow> px \<Rightarrow> px" where
  "note_faults ids s =
     s\<lparr>px_pending := (px_pending s)\<lparr>pf_fault_ids := pf_fault_ids (px_pending s) @ ids\<rparr>\<rparr>"

definition note_decoded :: "string \<Rightarrow> nat \<Rightarrow> px \<Rightarrow> px" where
  "note_decoded encoding wire_len s =
     s\<lparr>px_pending := (px_pending s)\<lparr>pf_upstream_encoding := Some (encoding, wire_len)\<rparr>\<rparr>"

definition CLIENT_CANCELED :: string where
  "CLIENT_CANCELED =
     ''client_canceled: the client closed the connection before the proxy finished the exchange''"

text \<open>The guard of a dropped request future; it runs outside the scope of the pending flow.\<close>

definition cancel_guard :: "px_env \<Rightarrow> px \<Rightarrow> px" where
  "cancel_guard env s =
     (case pf_record (px_pending s) of
        None \<Rightarrow> s
      | Some rec \<Rightarrow>
          let rec = rec\<lparr>fr_error := Some CLIENT_CANCELED, fr_dur_ms := Some (pe_dur_ms env), fr_ts := pe_now env\<rparr>;
              s = s\<lparr>px_pending := (px_pending s)\<lparr>pf_record := None\<rparr>\<rparr>
          in send_flow env (visible (pe_policy env) (stamp_capture_context env rec)) s)"

section \<open>Held flows\<close>

text \<open>What \<open>hold\<close> captures itself once the verdict is a drop or an abort.\<close>

definition hold_capture :: "px_env \<Rightarrow> string \<Rightarrow> flow_record \<Rightarrow> hold_verdict \<Rightarrow> px \<Rightarrow> px" where
  "hold_capture env ph snap verdict s =
     (case verdict of
        DropFlow status \<Rightarrow>
          (let (code, headers, body) = drop_response_parts status;
               response = build_client_response_for (pe_http env) (px_method s) code headers body;
               resp_type = content_type (pe_rule env) (hr_headers response);
               body = (if response_allows_body (px_method s) code then body else []);
               (resp_body, truncated) = body_to_text resp_type body BODY_CAP
           in finish_capture env
                (snap\<lparr>fr_status := Some code, fr_resp_headers := hr_headers response,
                      fr_resp_type := resp_type, fr_resp_len := length body, fr_resp_body := resp_body,
                      fr_resp_truncated := truncated, fr_streamed := False,
                      fr_error := Some ''dropped by net intercept'',
                      fr_matched := Some ''intercept:drop'', fr_modified := True,
                      fr_upstream_bypassed := (ph = ''request'')\<rparr>) s)
      | AbortTransport \<Rightarrow>
          finish_capture env
            (snap\<lparr>fr_error := Some ''downstream transport aborted by net intercept'',
                  fr_matched := Some ''intercept:transport_abort'', fr_modified := True,
                  fr_upstream_bypassed := (ph = ''request'')\<rparr>) s
      | _ \<Rightarrow> s)"

definition request_snapshot :: "px_env \<Rightarrow> px \<Rightarrow> flow_record" where
  "request_snapshot env s =
     stamp_capture_context env
       (make_flow env (px_pending s) ((parts_of s)\<lparr>fp_req_streamed := False, fp_rule_ids := px_rule_ids s\<rparr>))"

definition response_snapshot :: "px_env \<Rightarrow> px \<Rightarrow> flow_record" where
  "response_snapshot env s =
     (let snap = stamp_capture_context env
            (make_flow env (px_pending s)
               ((parts_of s)\<lparr>fp_status := px_status s, fp_resp_headers := px_resp_headers s,
                  fp_resp_bytes := if px_plaintext s then px_resp_bytes s else [],
                  fp_dur_ms := pe_dur_ms env, fp_request_body_modified := px_request_body_modified s,
                  fp_rule_ids := px_rule_ids s\<rparr>))
      in if px_plaintext s then snap
         else snap\<lparr>fr_streamed := True, fr_resp_body := None, fr_resp_len := length (px_resp_bytes s)\<rparr>)"

section \<open>Answers the proxy gives itself\<close>

text \<open>Capture and return an answer that replaces the upstream's.\<close>

definition answer_instead ::
  "px_env \<Rightarrow> synthetic \<Rightarrow> string \<Rightarrow> string list \<Rightarrow> px \<Rightarrow> px \<times> px_result" where
  "answer_instead env synth matched rule_ids s =
     (let (status, headers, body) = synth;
          headers = replace_content_length headers (synthetic_response_length status (length body));
          wire_body = (if response_allows_body (px_method s) status then body else [])
      in (capture_bypassed env
            ((parts_of s)\<lparr>fp_status := Some status, fp_resp_headers := headers,
               fp_resp_bytes := wire_body, fp_matched := Some matched, fp_modified := True,
               fp_rule_ids := rule_ids\<rparr>) s,
          Answer (build_client_response_for (pe_http env) (px_method s) status headers body)))"

definition replay_failed :: "px_env \<Rightarrow> string \<Rightarrow> px \<Rightarrow> px \<times> px_result" where
  "replay_failed env err s =
     (let message = ''replay lookup failed: '' @ err;
          body = str_bytes (''shadowdroid proxy: '' @ message)
      in (capture_bypassed env
            ((parts_of s)\<lparr>fp_req_streamed := False, fp_status := Some 502, fp_resp_headers := text_plain,
               fp_resp_bytes := body, fp_error := Some message, fp_matched := Some ''replay:error''\<rparr>) s,
          Answer (build_client_response_for (pe_http env) (px_method s) 502 text_plain body)))"

definition answer_replay :: "px_env \<Rightarrow> replay_response \<Rightarrow> px \<Rightarrow> px \<times> px_result" where
  "answer_replay env r s =
     (let len = (if px_method s = ''HEAD'' then rp_length r
                 else synthetic_response_length (rp_status r) (length (rp_bytes r)));
          headers = replace_content_length (rp_headers r) len;
          wire_body = (if response_allows_body (px_method s) (rp_status r) then rp_bytes r else [])
      in (capture_bypassed env
            ((parts_of s)\<lparr>fp_status := Some (rp_status r), fp_resp_headers := headers,
               fp_resp_bytes := wire_body, fp_matched := Some ''replay'', fp_modified := True\<rparr>) s,
          Answer (build_replay_client_response (pe_http env) (px_method s) (rp_status r) headers
                    (rp_bytes r) (rp_length r))))"

fun join_commas :: "string list \<Rightarrow> string" where
  "join_commas [] = []"
| "join_commas [x] = x"
| "join_commas (x # xs) = x @ '','' @ join_commas xs"

definition fault_answer :: "request_faults \<Rightarrow> nat \<Rightarrow> synthetic" where
  "fault_answer faults status =
     (status, text_plain,
      str_bytes (''shadowdroid fault '' @ join_commas (rq_ids faults) @ '': injected HTTP '' @ dec_digits status))"

section \<open>The stages before the upstream\<close>

type_synonym px_outcome = "px + (px \<times> px_result)"

definition px_goto :: "stage \<Rightarrow> px \<Rightarrow> px_outcome" where
  "px_goto st s = Inl (s\<lparr>px_stage := st\<rparr>)"

definition px_apply_request_rules :: "px_env \<Rightarrow> px \<Rightarrow> px" where
  "px_apply_request_rules env s =
     (if \<not> px_in_scope s then s\<lparr>px_short_circuit := None\<rparr>
      else
        let (url, headers, r) = apply_request_rules (pe_http env) (px_rules s) (px_method s) (px_host s)
              (px_path s) (px_req_bytes s) (px_url s) (px_req_headers s)
        in s\<lparr>px_url := url, px_req_headers := headers,
             px_modified := px_modified s \<or> rr_modified r,
             px_matched := (if rr_rule_ids r = [] then px_matched s else Some ''rule''),
             px_rule_ids := px_rule_ids s @ rr_rule_ids r,
             px_short_circuit := rr_short_circuit r\<rparr>)"

text \<open>After the request body: the flow gets its record, then replay and the request rules.\<close>

definition px_admit :: "px_env \<Rightarrow> px \<Rightarrow> px_outcome" where
  "px_admit env s0 =
     (let s = s0\<lparr>px_in_scope := host_in_scope (pe_http env) (pe_filters env) (px_host s0)\<rparr>;
          s = (if px_in_scope s then note_pending (make_flow env (px_pending s) (parts_of s)) s else s);
          replay = (if px_in_scope s \<and> \<not> px_req_streaming s
                    then pe_replay env (px_method s) (px_scheme s) (px_host s) (px_port s) (px_path s)
                           (px_req_bytes s)
                    else Inr None)
      in case replay of
           Inl err \<Rightarrow> Inr (replay_failed env err s)
         | Inr (Some r) \<Rightarrow> Inr (answer_replay env r s)
         | Inr None \<Rightarrow> px_goto AfterRules (px_apply_request_rules env s))"

definition stage_read_body :: "px_env \<Rightarrow> px \<Rightarrow> px_outcome" where
  "stage_read_body env s =
     (let force = (case px_len_hint s of None \<Rightarrow> False | Some n \<Rightarrow> BUFFER_CAP < n) in
      case read_stream_capped (px_req_stream s) force (px_len_hint s) BUFFER_CAP of
        Buffered b \<Rightarrow> px_admit env (s\<lparr>px_req_bytes := b, px_req_streaming := False, px_req_stream := []\<rparr>)
      | Streamed prefix rest hint \<Rightarrow>
          px_admit env (s\<lparr>px_req_streaming := True, px_req_stream := streamed_body prefix rest\<rparr>)
      | BodyFailed \<Rightarrow>
          Inr (s, Answer (error_response_for (pe_http env) (px_method s) 400
                            (''read request body: '' @ pe_read_error env))))"

definition stage_after_rules :: "px_env \<Rightarrow> px \<Rightarrow> px_outcome" where
  "stage_after_rules env s =
     (case px_short_circuit s of
        Some synth \<Rightarrow> Inr (answer_instead env synth ''rule'' (px_rule_ids s) s)
      | None \<Rightarrow>
          let (active, faults) =
                (if px_in_scope s then for_request (pe_hash env) (px_faults s) (px_host s) (px_path s)
                 else (px_faults s, request_faults_default));
              s = s\<lparr>px_faults := active, px_request_faults := faults\<rparr>;
              s = (if rq_ids faults = [] then s
                   else (note_faults (rq_ids faults) s)\<lparr>px_matched :=
                          (case px_matched s of None \<Rightarrow> Some ''fault'' | m \<Rightarrow> m)\<rparr>)
          in px_goto AfterFaults s)"

definition stage_after_faults :: "px_env \<Rightarrow> px \<Rightarrow> px_outcome" where
  "stage_after_faults env s =
     (case rq_error_status (px_request_faults s) of
        Some status \<Rightarrow>
          Inr (answer_instead env (fault_answer (px_request_faults s) status) ''fault'' (px_rule_ids s) s)
      | None \<Rightarrow> px_goto AfterRequestHold s)"

definition brackets_trimmed :: "string \<Rightarrow> string" where
  "brackets_trimmed h =
     (let br = (\<lambda>c. c = CHR ''['' \<or> c = CHR '']'') in rev (dropWhile br (rev (dropWhile br h))))"

definition apply_resume :: "px_env \<Rightarrow> mutation \<Rightarrow> px \<Rightarrow> px" where
  "apply_resume env m s =
     (if is_noop m then s
      else
        let ((url, headers, bytes), changed) =
              apply_request_mutation (pe_http env) (px_url s) (px_req_headers s) (px_req_bytes s) m;
            s1 = s\<lparr>px_modified := True, px_matched := Some ''intercept'', px_url := url,
                   px_req_headers := headers, px_req_bytes := bytes,
                   px_request_body_modified := px_request_body_modified s \<or> changed\<rparr>
        in if url = px_url s then s1
           else case hx_url (pe_http env) url of
             None \<Rightarrow> s1
           | Some target \<Rightarrow>
               (case up_host target of
                  None \<Rightarrow> s1
                | Some h \<Rightarrow>
                    note_redirect (px_url s)
                      (s1\<lparr>px_scheme := up_scheme target, px_host := brackets_trimmed h,
                          px_port := (case up_port target of None \<Rightarrow> px_port s | Some p \<Rightarrow> p),
                          px_path := (case up_query target of
                                        Some q \<Rightarrow> up_path target @ ''?'' @ q | None \<Rightarrow> up_path target)\<rparr>)))"

definition stage_after_request_hold :: "px_env \<Rightarrow> px \<Rightarrow> px_outcome" where
  "stage_after_request_hold env s =
     (let snap = request_snapshot env s;
          verdict = (if px_in_scope s \<and> \<not> px_req_streaming s then pe_hold env ''request'' snap else None)
      in case verdict of
           None \<Rightarrow> px_goto Forward s
         | Some v \<Rightarrow>
             let s = hold_capture env ''request'' snap v s in
             (case v of
                DropFlow status \<Rightarrow> Inr (s, Answer (drop_response (pe_http env) (px_method s) status))
              | AbortTransport \<Rightarrow> Inr (s, TransportAborted)
              | RespondWith status body headers \<Rightarrow>
                  Inr (answer_instead env (status, headers, body) ''intercept:respond'' (px_rule_ids s) s)
              | Resume m \<Rightarrow> px_goto Forward (apply_resume env m s)))"

section \<open>The exchange with the upstream\<close>

definition upstream_length :: "px \<Rightarrow> nat option" where
  "upstream_length s =
     (if px_req_streaming s then px_len_hint s
      else if px_req_bytes s = [] then (if px_len_hint s = Some 0 then Some 0 else None)
      else Some (length (px_req_bytes s)))"

definition upstream_request_of :: "px_env \<Rightarrow> px \<Rightarrow> upstream_request" where
  "upstream_request_of env s =
     \<lparr>ur_method = px_method s, ur_url = px_url s,
      ur_headers = upstream_headers (pe_http env) (px_req_headers s) (pe_anticache env) (pe_anticomp env)
        (upstream_length s),
      ur_body = (if px_req_streaming s then px_req_stream s else full_body (px_req_bytes s))\<rparr>"

definition stage_forward :: "px_env \<Rightarrow> px \<Rightarrow> px_outcome" where
  "stage_forward env s0 =
     (let s = s0\<lparr>px_req_headers := replace_content_length (px_req_headers s0) (upstream_length s0)\<rparr>
      in px_goto ReadAnswer (s\<lparr>px_sent := px_sent s @ [upstream_request_of env s]\<rparr>))"

text \<open>The flow of a request that failed before or while its answer was read.\<close>

definition capture_error ::
  "px_env \<Rightarrow> nat option \<Rightarrow> headers \<Rightarrow> string \<Rightarrow> px \<Rightarrow> px" where
  "capture_error env status resp_headers err s =
     (if px_in_scope s
      then capture env
             ((parts_of s)\<lparr>fp_status := status, fp_resp_headers := resp_headers,
                fp_dur_ms := pe_dur_ms env, fp_error := Some err, fp_matched := px_matched s,
                fp_modified := px_modified s, fp_request_body_modified := px_request_body_modified s,
                fp_rule_ids := px_rule_ids s\<rparr>) s
      else s)"

definition stage_read_answer :: "px_env \<Rightarrow> px \<Rightarrow> px_outcome" where
  "stage_read_answer env s =
     (case pe_upstream env (last (px_sent s)) of
        Inl err \<Rightarrow>
          Inr (capture_error env None [] err s,
               Answer (error_response_for (pe_http env) (px_method s) 502 err))
      | Inr resp \<Rightarrow>
          let s = note_upstream_version (us_version resp) s;
              headers = header_pairs (us_headers resp)
          in px_goto Decode
               (s\<lparr>px_status_code := us_status resp, px_resp_headers := headers,
                  px_original_length := content_length headers, px_resp_chunks := us_body resp\<rparr>))"

definition run_response_rules :: "px_env \<Rightarrow> nat option \<Rightarrow> byte list \<Rightarrow> bool \<Rightarrow> px \<Rightarrow> (nat option \<times> byte list) \<times> px" where
  "run_response_rules env status body allow_body s =
     (if \<not> px_in_scope s then ((status, body), s)
      else
        let (rules, (status', headers, body'), ids) =
              apply_response_rules (pe_http env) (pe_json env) (px_rules s) (px_method s) (px_host s)
                (px_path s) (px_url s) (status, px_resp_headers s, body) allow_body (px_req_bytes s);
            s = s\<lparr>px_rules := rules, px_resp_headers := headers\<rparr>
        in ((status', body'),
            if ids = [] then s
            else s\<lparr>px_rule_ids := extend_rule_ids (px_rule_ids s) ids, px_modified := True,
                   px_matched := (case px_matched s of None \<Rightarrow> Some ''rule'' | m \<Rightarrow> m)\<rparr>))"

definition identity_encoded :: "headers \<Rightarrow> bool" where
  "identity_encoded headers \<longleftrightarrow>
     list_all (\<lambda>(name, value). \<not> eq_ignore_ascii_case name ''content-encoding'' \<or>
                 eq_ignore_ascii_case (str_trim value) ''identity'') headers"

definition sabotaged ::
  "body_fault option \<Rightarrow> bool \<Rightarrow> chunk list \<Rightarrow> nat option \<Rightarrow> (nat \<times> chunk) list \<times> nat option" where
  "sabotaged fault allowed body len =
     (case fault of
        Some f \<Rightarrow> if allowed then sabotage body f len else (at_once body, len)
      | None \<Rightarrow> (at_once body, len))"

definition answer_streamed ::
  "px_env \<Rightarrow> byte list list \<Rightarrow> chunk list \<Rightarrow> nat option \<Rightarrow> px \<Rightarrow> px \<times> px_result" where
  "answer_streamed env prefix rest len_hint s0 =
     (let ((streamed_status, no_body), s) = run_response_rules env (Some (px_status_code s0)) [] False s0;
          final_status = (case streamed_status of Some n \<Rightarrow> n | None \<Rightarrow> px_status_code s);
          captured = (if identity_encoded (px_resp_headers s) then concat_chunks prefix else []);
          s1 = (if px_in_scope s
                then capture_streamed env
                       ((parts_of s)\<lparr>fp_status := Some final_status, fp_resp_headers := px_resp_headers s,
                          fp_resp_bytes := captured, fp_dur_ms := pe_dur_ms env,
                          fp_matched := px_matched s, fp_modified := px_modified s,
                          fp_request_body_modified := px_request_body_modified s,
                          fp_rule_ids := px_rule_ids s\<rparr>) len_hint s
                else s);
          allowed = response_allows_body (px_method s) final_status;
          body = (if allowed then streamed_body prefix rest else full_body []);
          len = (if allowed \<or> (px_method s = ''HEAD'' \<and> \<not> status_forbids_body final_status)
                 then len_hint else None);
          (body', len') = sabotaged (rq_body (px_request_faults s)) allowed body len
      in (s1, Answer (response_with_body (pe_http env) final_status (px_resp_headers s) body' len')))"

definition stage_decode :: "px_env \<Rightarrow> px \<Rightarrow> px_outcome" where
  "stage_decode env s =
     (case read_body_capped (pe_http env) (px_resp_chunks s) (px_resp_headers s) of
        Buffered b \<Rightarrow>
          px_goto ResponseRules
            (s\<lparr>px_resp_bytes := b, px_status := Some (px_status_code s), px_plaintext := True\<rparr>)
      | Streamed prefix rest len_hint \<Rightarrow> Inr (answer_streamed env prefix rest len_hint s)
      | BodyFailed \<Rightarrow>
          Inr (capture_error env (Some (px_status_code s)) (px_resp_headers s) (pe_read_error env) s,
               Answer (error_response_for (pe_http env) (px_method s) 502 (pe_read_error env))))"

section \<open>The stages after the upstream\<close>

definition px_decompress :: "px_env \<Rightarrow> px \<Rightarrow> px" where
  "px_decompress env s =
     (if \<not> px_in_scope s then s
      else case decompress_bounded (pe_http env) (pe_slot env) (px_resp_headers s) (px_resp_bytes s) BUFFER_CAP of
        DecodeIdentity \<Rightarrow> s
      | Decoded plain \<Rightarrow>
          let s = (case find (\<lambda>(k, v). eq_ignore_ascii_case k ''content-encoding'') (px_resp_headers s) of
                     Some (k, encoding) \<Rightarrow> note_decoded (str_trim encoding) (length (px_resp_bytes s)) s
                   | None \<Rightarrow> s)
          in s\<lparr>px_resp_bytes := plain,
               px_resp_headers := strip_body_validators
                 (filter (\<lambda>(k, v). \<not> eq_ignore_ascii_case k ''content-encoding'') (px_resp_headers s))\<rparr>
      | PassThrough reason \<Rightarrow> s\<lparr>px_plaintext := False\<rparr>)"

definition stage_response_rules :: "px_env \<Rightarrow> px \<Rightarrow> px_outcome" where
  "stage_response_rules env s0 =
     (let s = px_decompress env s0;
          ((status, body), s) = run_response_rules env (px_status s) (px_resp_bytes s) (px_plaintext s) s;
          s = s\<lparr>px_status := status, px_resp_bytes := body\<rparr>
      in px_goto AfterResponseHold (if px_in_scope s then note_pending (response_snapshot env s) s else s))"

definition stage_after_response_hold :: "px_env \<Rightarrow> px \<Rightarrow> px_outcome" where
  "stage_after_response_hold env s =
     (let snap = response_snapshot env s;
          verdict = (if px_in_scope s then pe_hold env ''response'' snap else None)
      in case verdict of
           None \<Rightarrow> px_goto Finish s
         | Some v \<Rightarrow>
             let s = hold_capture env ''response'' snap v s in
             (case v of
                DropFlow status \<Rightarrow> Inr (s, Answer (drop_response (pe_http env) (px_method s) status))
              | AbortTransport \<Rightarrow> Inr (s, TransportAborted)
              | RespondWith status body headers \<Rightarrow>
                  px_goto Finish
                    (s\<lparr>px_status := Some status, px_resp_headers := headers, px_resp_bytes := body,
                       px_plaintext := True, px_modified := True, px_matched := Some ''intercept:respond''\<rparr>)
              | Resume m \<Rightarrow>
                  let ((status, headers, body), changed) =
                        apply_response_mutation (pe_http env) (px_status s) (px_resp_headers s)
                          (px_resp_bytes s) m (px_plaintext s);
                      s = s\<lparr>px_status := status, px_resp_headers := headers, px_resp_bytes := body\<rparr>
                  in px_goto Finish
                       (if changed then s\<lparr>px_modified := True, px_matched := Some ''intercept''\<rparr> else s)))"

text \<open>The body and its length are settled by the final status and the method.\<close>

definition px_settle :: "px \<Rightarrow> px" where
  "px_settle s =
     (case px_status s of
        None \<Rightarrow> s
      | Some status \<Rightarrow>
          let before = length (px_resp_bytes s);
              suppress = (\<not> response_allows_body (px_method s) status \<and> px_resp_bytes s \<noteq> []);
              body = (if suppress then [] else px_resp_bytes s);
              len = (if status_forbids_body status then None
                     else if px_method s = ''HEAD'' then
                       (if before \<noteq> 0 then Some before else px_original_length s)
                     else Some (length body))
          in s\<lparr>px_resp_bytes := body, px_modified := px_modified s \<or> suppress,
               px_resp_headers := replace_content_length (px_resp_headers s) len\<rparr>)"

definition final_parts :: "px_env \<Rightarrow> px \<Rightarrow> byte list \<Rightarrow> flow_parts" where
  "final_parts env s body =
     (parts_of s)\<lparr>fp_status := px_status s, fp_resp_headers := px_resp_headers s, fp_resp_bytes := body,
        fp_dur_ms := pe_dur_ms env, fp_matched := px_matched s, fp_modified := px_modified s,
        fp_request_body_modified := px_request_body_modified s, fp_rule_ids := px_rule_ids s\<rparr>"

definition final_answer :: "px_env \<Rightarrow> px \<Rightarrow> http_response" where
  "final_answer env s =
     (case px_status s of
        None \<Rightarrow> error_response_for (pe_http env) (px_method s) 502 ''upstream error''
      | Some status \<Rightarrow>
          let len = (if status_forbids_body status then None
                     else if px_method s = ''HEAD'' then content_length (px_resp_headers s)
                     else Some (length (px_resp_bytes s)));
              (body, len) = sabotaged (rq_body (px_request_faults s)) (response_allows_body (px_method s) status)
                (full_body (px_resp_bytes s)) len
          in response_with_body (pe_http env) status (px_resp_headers s) body len)"

definition stage_finish :: "px_env \<Rightarrow> px \<Rightarrow> px_outcome" where
  "stage_finish env s0 =
     (let s = px_settle s0;
          s1 = (if px_in_scope s then
                  (if px_plaintext s then capture env (final_parts env s (px_resp_bytes s)) s
                   else capture_streamed env (final_parts env s []) (Some (length (px_resp_bytes s))) s)
                else s)
      in Inr (s1, Answer (final_answer env s)))"

section \<open>Running a request\<close>

definition px_step :: "px_env \<Rightarrow> px \<Rightarrow> px_outcome" where
  "px_step env s =
     (case px_stage s of
        ReadBody \<Rightarrow> stage_read_body env s
      | AfterRules \<Rightarrow> stage_after_rules env s
      | AfterFaults \<Rightarrow> stage_after_faults env s
      | AfterRequestHold \<Rightarrow> stage_after_request_hold env s
      | Forward \<Rightarrow> stage_forward env s
      | ReadAnswer \<Rightarrow> stage_read_answer env s
      | Decode \<Rightarrow> stage_decode env s
      | ResponseRules \<Rightarrow> stage_response_rules env s
      | AfterResponseHold \<Rightarrow> stage_after_response_hold env s
      | Finish \<Rightarrow> stage_finish env s)"

text \<open>A completed request forgets what was pending; at most \<open>n\<close> stages are run.\<close>

fun px_run :: "px_env \<Rightarrow> nat \<Rightarrow> px \<Rightarrow> px_outcome" where
  "px_run env 0 s = Inl s"
| "px_run env (Suc n) s =
     (case px_step env s of
        Inl s' \<Rightarrow> px_run env n s'
      | Inr (s', result) \<Rightarrow> Inr (s'\<lparr>px_pending := (px_pending s')\<lparr>pf_record := None\<rparr>\<rparr>, result))"

text \<open>The client hangs up after \<open>n\<close> stages (or the request was over by then).\<close>

definition px_cancelled :: "px_env \<Rightarrow> nat \<Rightarrow> px \<Rightarrow> px" where
  "px_cancelled env n s = (case px_run env n s of Inl s' \<Rightarrow> cancel_guard env s' | Inr (s', r) \<Rightarrow> s')"

definition px_start ::
  "px_env \<Rightarrow> string \<Rightarrow> uri_parts \<Rightarrow> tunnel option \<Rightarrow> string \<Rightarrow> (string \<times> byte list) list \<Rightarrow> chunk list \<Rightarrow> nat \<Rightarrow>
   active_rules \<Rightarrow> active_net_fault list \<Rightarrow> px option" where
  "px_start env method uri tun version raw_headers body counter rules faults =
     (case resolve_target uri tun of
        None \<Rightarrow> None
      | Some (scheme, host, path, url) \<Rightarrow>
          let headers = header_pairs raw_headers in
          Some \<lparr>px_stage = ReadBody, px_method = method, px_scheme = scheme, px_host = host, px_path = path,
            px_url = url, px_port = effective_target_port uri tun scheme, px_req_headers = headers,
            px_len_hint = content_length headers, px_req_bytes = [], px_req_streaming = False,
            px_req_stream = body, px_id = flow_id counter, px_in_scope = False, px_matched = None,
            px_rule_ids = [], px_modified = False, px_request_body_modified = False, px_short_circuit = None,
            px_request_faults = request_faults_default, px_status_code = 0,
            px_status = None, px_resp_headers = [], px_resp_chunks = [], px_resp_bytes = [],
            px_original_length = None, px_plaintext = True,
            px_pending = \<lparr>pf_record = None, pf_original_url = None, pf_http_version = Some version,
              pf_upstream_http_version = None, pf_fault_ids = [], pf_upstream_encoding = None\<rparr>,
            px_queue = [], px_dropped = 0, px_rules = rules, px_faults = faults, px_sent = []\<rparr>)"

end
