(* ===== verification/ProxyRequestProps.thy ===== *)
theory ProxyRequestProps
  imports ProxyRequest
begin

text \<open>
  What a proxied request guarantees: it ends, files one flow record, answers legally, and records
  truthfully whether the upstream saw it. Every theorem is about \<open>px_run\<close> and \<open>px_cancelled\<close> of
  \<open>ProxyRequest\<close>; the proofs follow one invariant through the ten stages.
\<close>

section \<open>What a stage keeps\<close>

text \<open>
  The capture state: what is filed, what a dropped future would file, and the identity of the
  request. Everything a stage does between two captures leaves it alone.
\<close>

definition px_same :: "px \<Rightarrow> px \<Rightarrow> bool" where
  "px_same s s' \<longleftrightarrow>
     px_queue s' = px_queue s \<and> px_dropped s' = px_dropped s \<and> px_id s' = px_id s \<and>
     px_in_scope s' = px_in_scope s \<and> px_sent s' = px_sent s \<and> px_method s' = px_method s \<and>
     map_option fr_id (pf_record (px_pending s')) = map_option fr_id (pf_record (px_pending s))"

lemma px_same_refl [simp]: "px_same s s"
  by (simp add: px_same_def)

lemma px_same_trans: "px_same s t \<Longrightarrow> px_same t u \<Longrightarrow> px_same s u"
  by (simp add: px_same_def)

lemma px_same_updates [simp]:
  "px_same s (t\<lparr>px_stage := st\<rparr>) = px_same s t"
  "px_same s (t\<lparr>px_rules := rs\<rparr>) = px_same s t"
  "px_same s (t\<lparr>px_faults := fs\<rparr>) = px_same s t"
  "px_same s (t\<lparr>px_request_faults := rf\<rparr>) = px_same s t"
  "px_same s (t\<lparr>px_matched := m\<rparr>) = px_same s t"
  "px_same s (t\<lparr>px_modified := b\<rparr>) = px_same s t"
  "px_same s (t\<lparr>px_request_body_modified := b\<rparr>) = px_same s t"
  "px_same s (t\<lparr>px_rule_ids := ids\<rparr>) = px_same s t"
  "px_same s (t\<lparr>px_short_circuit := sc\<rparr>) = px_same s t"
  "px_same s (t\<lparr>px_url := u\<rparr>) = px_same s t"
  "px_same s (t\<lparr>px_scheme := u\<rparr>) = px_same s t"
  "px_same s (t\<lparr>px_host := u\<rparr>) = px_same s t"
  "px_same s (t\<lparr>px_port := p\<rparr>) = px_same s t"
  "px_same s (t\<lparr>px_path := u\<rparr>) = px_same s t"
  "px_same s (t\<lparr>px_req_headers := h\<rparr>) = px_same s t"
  "px_same s (t\<lparr>px_req_bytes := y\<rparr>) = px_same s t"
  "px_same s (t\<lparr>px_req_streaming := b\<rparr>) = px_same s t"
  "px_same s (t\<lparr>px_req_stream := c\<rparr>) = px_same s t"
  "px_same s (t\<lparr>px_status_code := n\<rparr>) = px_same s t"
  "px_same s (t\<lparr>px_status := x\<rparr>) = px_same s t"
  "px_same s (t\<lparr>px_resp_headers := h\<rparr>) = px_same s t"
  "px_same s (t\<lparr>px_resp_chunks := c\<rparr>) = px_same s t"
  "px_same s (t\<lparr>px_resp_bytes := y\<rparr>) = px_same s t"
  "px_same s (t\<lparr>px_original_length := x\<rparr>) = px_same s t"
  "px_same s (t\<lparr>px_plaintext := b\<rparr>) = px_same s t"
  by (simp_all add: px_same_def)

lemma px_same_notes [simp]:
  "px_same s (note_redirect u t) = px_same s t"
  "px_same s (note_upstream_version v t) = px_same s t"
  "px_same s (note_faults ids t) = px_same s t"
  "px_same s (note_decoded e n t) = px_same s t"
  by (auto simp: px_same_def note_redirect_def note_upstream_version_def note_faults_def
      note_decoded_def option.map_comp comp_def)

lemma px_same_request_rules [simp]: "px_same s (px_apply_request_rules env s)"
  by (auto simp: px_apply_request_rules_def split: prod.splits)

lemma px_same_resume [simp]: "px_same s (apply_resume env m s)"
  by (auto simp: apply_resume_def Let_def split: prod.splits option.splits)

lemma px_same_decompress [simp]: "px_same s (px_decompress env s)"
  by (auto simp: px_decompress_def Let_def split: prod.splits option.splits decode_outcome.splits)

lemma px_same_response_rules [simp]: "px_same s (snd (run_response_rules env status body allowed s))"
  by (auto simp: run_response_rules_def Let_def split: prod.splits)

lemma px_same_settle [simp]: "px_same s (px_settle s)"
  by (auto simp: px_settle_def Let_def split: option.splits)

section \<open>What is filed\<close>

text \<open>One record has been offered to the queue, whether or not it had room.\<close>

definition px_filed :: "px_env \<Rightarrow> flow_record \<Rightarrow> px \<Rightarrow> px \<Rightarrow> bool" where
  "px_filed env rec s s' \<longleftrightarrow>
     px_queue s' = (if pe_queue_cap env = 0 then [] else [rec]) \<and>
     px_dropped s' = (if pe_queue_cap env = 0 then 1 else 0) \<and>
     px_in_scope s' = px_in_scope s \<and> px_sent s' = px_sent s"

lemma px_filed_send:
  "px_queue s = [] \<Longrightarrow> px_dropped s = 0 \<Longrightarrow> px_filed env rec s (send_flow env rec s)"
  by (simp add: px_filed_def send_flow_def u64_add_def)

lemma px_filed_pending:
  "px_filed env rec (s\<lparr>px_pending := p\<rparr>) s' = px_filed env rec s s'"
  by (simp add: px_filed_def)

lemma px_filed_enqueue:
  "px_queue s = [] \<Longrightarrow> px_dropped s = 0 \<Longrightarrow> px_filed env rec s (enqueue_flow env rec s)"
  using px_filed_send [of "s\<lparr>px_pending := p\<rparr>" env rec for p]
  by (auto simp: enqueue_flow_def Let_def px_filed_pending split: option.splits)

lemma visible_keeps [simp]:
  "fr_id (visible p rec) = fr_id rec"
  "fr_status (visible p rec) = fr_status rec"
  "fr_upstream_bypassed (visible p rec) = fr_upstream_bypassed rec"
  "fr_original_url (visible p rec) = fr_original_url rec"
  "(fr_error (visible p rec) = None) = (fr_error rec = None)"
  by (auto simp: visible_def redact_flow_record_def Let_def split: option.splits prod.splits)

lemma stamp_keeps [simp]:
  "fr_id (stamp_capture_context env rec) = fr_id rec"
  "fr_status (stamp_capture_context env rec) = fr_status rec"
  "fr_upstream_bypassed (stamp_capture_context env rec) = fr_upstream_bypassed rec"
  "fr_original_url (stamp_capture_context env rec) = fr_original_url rec"
  "fr_error (stamp_capture_context env rec) = fr_error rec"
  by (simp_all add: stamp_capture_context_def)

lemma make_flow_fields [simp]:
  "fr_id (make_flow env pending p) = fp_id p"
  "fr_status (make_flow env pending p) = fp_status p"
  "fr_upstream_bypassed (make_flow env pending p) = False"
  "fr_original_url (make_flow env pending p) = pf_original_url pending"
  "fr_error (make_flow env pending p) = fp_error p"
  by (simp_all add: make_flow_def Let_def split: prod.splits)

lemma parts_of_fields [simp]:
  "fp_id (parts_of s) = px_id s" "fp_status (parts_of s) = None" "fp_error (parts_of s) = None"
  by (simp_all add: parts_of_def)


section \<open>What is answered\<close>

text \<open>An answer with the given status, built by the proxy's one response builder, legal for the method.\<close>

definition px_response :: "px_env \<Rightarrow> string \<Rightarrow> nat \<Rightarrow> http_response \<Rightarrow> bool" where
  "px_response env m st resp \<longleftrightarrow>
     (\<exists>headers body known. resp = response_with_body (pe_http env) st headers body known \<and>
        (response_allows_body m st \<or> body = []))"

lemma px_responseI:
  "response_allows_body m st \<or> body = [] \<Longrightarrow>
   px_response env m st (response_with_body (pe_http env) st headers body known)"
  by (auto simp: px_response_def)

lemma px_response_build [simp]:
  "px_response env m st (build_client_response_for (pe_http env) m st headers body)"
  by (simp add: build_client_response_for_def build_client_response_def px_responseI)

lemma px_response_replay [simp]:
  "px_response env m st (build_replay_client_response (pe_http env) m st headers body n)"
  by (simp add: build_replay_client_response_def px_responseI)

lemma px_response_error [simp]: "px_response env m st (error_response_for (pe_http env) m st msg)"
  by (simp add: error_response_for_def)

lemma px_response_drop [simp]:
  "px_response env m (fst (drop_response_parts status)) (drop_response (pe_http env) m status)"
  by (simp add: drop_response_def split: prod.splits)

lemma px_response_exists [simp]:
  "\<exists>st. px_response env m st (build_client_response_for (pe_http env) m code headers body)"
  "\<exists>st. px_response env m st (build_replay_client_response (pe_http env) m code headers body n)"
  "\<exists>st. px_response env m st (error_response_for (pe_http env) m code msg)"
  "\<exists>st. px_response env m st (drop_response (pe_http env) m status)"
  by (blast intro: px_response_build px_response_replay px_response_error px_response_drop)+

lemma sabotaged_forbidden: "\<not> allowed \<Longrightarrow> fst (sabotaged fault allowed (full_body []) len) = []"
  by (simp add: sabotaged_def full_body_def at_once_def split: option.splits)

text \<open>The status and body an answer can end up with.\<close>

lemma px_response_legal:
  "px_response env m st resp \<Longrightarrow> \<not> response_allows_body m (hr_status resp) \<Longrightarrow> hr_body resp = []"
  by (auto simp: px_response_def response_with_body_def Let_def split: if_splits)

section \<open>One capture per request\<close>

definition px_closed :: "px_env \<Rightarrow> px \<Rightarrow> px \<Rightarrow> px_result \<Rightarrow> bool" where
  "px_closed env s s' res \<longleftrightarrow>
     px_in_scope s' = px_in_scope s \<and> px_sent s' = px_sent s \<and>
     (\<forall>resp. res = Answer resp \<longrightarrow> (\<exists>st. px_response env (px_method s) st resp)) \<and>
     (if px_in_scope s
      then \<exists>rec. px_filed env rec s s' \<and> fr_id rec = px_id s \<and>
             fr_upstream_bypassed rec = (px_sent s = []) \<and>
             (fr_error rec = None \<longrightarrow>
                (\<exists>st resp. fr_status rec = Some st \<and> res = Answer resp \<and>
                   px_response env (px_method s) st resp))
      else px_queue s' = [] \<and> px_dropped s' = 0)"

lemma px_filed_same: "px_same t s \<Longrightarrow> px_filed env rec t s' = px_filed env rec s s'"
  by (simp add: px_same_def px_filed_def)

lemma px_closed_same: "px_same t s \<Longrightarrow> px_closed env s s' res \<Longrightarrow> px_closed env t s' res"
  using px_filed_same [of t s env _ s'] by (auto simp: px_closed_def px_same_def)

lemma px_closed_pending [simp]: "px_closed env s (s'\<lparr>px_pending := p\<rparr>) res = px_closed env s s' res"
  by (simp add: px_closed_def px_filed_def)

text \<open>Nothing is filed yet.\<close>

definition px_ready :: "px \<Rightarrow> bool" where
  "px_ready s \<longleftrightarrow> px_queue s = [] \<and> px_dropped s = 0"

lemma px_ready_same: "px_same s t \<Longrightarrow> px_ready t = px_ready s"
  by (simp add: px_ready_def px_same_def)

text \<open>Filing a record closes the request.\<close>

lemma px_closed_file:
  assumes "px_in_scope s" "px_ready s" "fr_id rec = px_id s"
    "fr_upstream_bypassed rec = (px_sent s = [])"
    "\<And>resp. res = Answer resp \<Longrightarrow> \<exists>st. px_response env (px_method s) st resp"
    "fr_error rec = None \<Longrightarrow> \<exists>st resp. fr_status rec = Some st \<and> res = Answer resp \<and>
       px_response env (px_method s) st resp"
  shows "px_closed env s (enqueue_flow env rec s) res"
proof -
  have "px_filed env rec s (enqueue_flow env rec s)"
    using assms(2) by (simp add: px_filed_enqueue px_ready_def)
  then show ?thesis
    using assms by (auto simp: px_closed_def px_filed_def)
qed

lemma px_closed_capture:
  assumes "px_in_scope s" "px_ready s" "fp_id p = px_id s" "px_sent s \<noteq> []"
    "\<And>resp. res = Answer resp \<Longrightarrow> \<exists>st. px_response env (px_method s) st resp"
    "fp_error p = None \<Longrightarrow> \<exists>st resp. fp_status p = Some st \<and> res = Answer resp \<and>
       px_response env (px_method s) st resp"
  shows "px_closed env s (capture env p s) res"
  unfolding capture_def finish_capture_def
  by (rule px_closed_file) (use assms in auto)

lemma px_closed_capture_bypassed:
  assumes "px_in_scope s" "px_ready s" "fp_id p = px_id s" "px_sent s = []"
    "\<And>resp. res = Answer resp \<Longrightarrow> \<exists>st. px_response env (px_method s) st resp"
    "fp_error p = None \<Longrightarrow> \<exists>st resp. fp_status p = Some st \<and> res = Answer resp \<and>
       px_response env (px_method s) st resp"
  shows "px_closed env s (capture_bypassed env p s) res"
  unfolding capture_bypassed_def finish_capture_def
  by (rule px_closed_file) (use assms in auto)

lemma px_closed_capture_streamed:
  assumes "px_in_scope s" "px_ready s" "fp_id p = px_id s" "px_sent s \<noteq> []"
    "\<And>resp. res = Answer resp \<Longrightarrow> \<exists>st. px_response env (px_method s) st resp"
    "fp_error p = None \<Longrightarrow> \<exists>st resp. fp_status p = Some st \<and> res = Answer resp \<and>
       px_response env (px_method s) st resp"
  shows "px_closed env s (capture_streamed env p n s) res"
  unfolding capture_streamed_def Let_def
  by (rule px_closed_file) (use assms in auto)

lemma px_closed_hold:
  assumes "px_in_scope s" "px_ready s" "fr_id snap = px_id s" "(ph = ''request'') = (px_sent s = [])"
    "\<And>resp. res = Answer resp \<Longrightarrow> \<exists>st. px_response env (px_method s) st resp"
    "v = AbortTransport \<or> (\<exists>status. v = DropFlow status)"
  shows "px_closed env s (hold_capture env ph snap v s) res"
  using assms
  by (auto simp: hold_capture_def finish_capture_def Let_def split: prod.splits intro!: px_closed_file)

text \<open>A request out of scope closes without filing anything.\<close>

lemma px_closed_out:
  assumes "\<not> px_in_scope s" "px_ready s"
    "\<And>resp. res = Answer resp \<Longrightarrow> \<exists>st. px_response env (px_method s) st resp"
  shows "px_closed env s s res"
  using assms by (auto simp: px_closed_def px_ready_def)


section \<open>The invariant of a request in flight\<close>

fun px_rank :: "stage \<Rightarrow> nat" where
  "px_rank ReadBody = 0"
| "px_rank AfterRules = 1"
| "px_rank AfterFaults = 2"
| "px_rank AfterRequestHold = 3"
| "px_rank Forward = 4"
| "px_rank ReadAnswer = 5"
| "px_rank Decode = 6"
| "px_rank ResponseRules = 7"
| "px_rank AfterResponseHold = 8"
| "px_rank Finish = 9"

definition px_open :: "px \<Rightarrow> bool" where
  "px_open s \<longleftrightarrow>
     px_ready s \<and>
     map_option fr_id (pf_record (px_pending s)) = (if px_in_scope s then Some (px_id s) else None) \<and>
     (px_sent s = []) = (px_rank (px_stage s) \<le> 4) \<and>
     (px_stage s = AfterRules \<and> \<not> px_in_scope s \<longrightarrow> px_short_circuit s = None) \<and>
     (px_stage s = AfterFaults \<and> \<not> px_in_scope s \<longrightarrow> rq_error_status (px_request_faults s) = None) \<and>
     (7 \<le> px_rank (px_stage s) \<longrightarrow> px_status s \<noteq> None)"

text \<open>A stage hands an open request to the next stage, or closes it.\<close>

definition px_good :: "px_env \<Rightarrow> px \<Rightarrow> px_outcome \<Rightarrow> bool" where
  "px_good env s out \<longleftrightarrow>
     (case out of
        Inl s' \<Rightarrow> px_open s' \<and> px_id s' = px_id s \<and> px_method s' = px_method s \<and>
           px_in_scope s' = px_in_scope s \<and> px_rank (px_stage s') = Suc (px_rank (px_stage s))
      | Inr (s', res) \<Rightarrow> px_closed env s s' res)"

lemma px_good_goto:
  assumes "px_open s" "px_same s t" "px_rank st = Suc (px_rank (px_stage s))" "px_stage s \<noteq> Forward"
    "st = AfterRules \<Longrightarrow> \<not> px_in_scope s \<Longrightarrow> px_short_circuit t = None"
    "st = AfterFaults \<Longrightarrow> \<not> px_in_scope s \<Longrightarrow> rq_error_status (px_request_faults t) = None"
    "7 \<le> px_rank st \<Longrightarrow> px_status t \<noteq> None"
  shows "px_good env s (px_goto st t)"
proof -
  have "(px_rank (px_stage s) \<le> 4) = (px_rank st \<le> 4)"
    using assms(3,4) by (cases "px_stage s"; cases st) auto
  then show ?thesis
    using assms
    by (auto simp: px_good_def px_goto_def px_open_def px_same_def px_ready_def)
qed

lemma px_good_closed: "px_closed env s s' res \<Longrightarrow> px_good env s (Inr (s', res))"
  by (simp add: px_good_def)

lemma px_good_same: "px_same s t \<Longrightarrow> px_stage t = px_stage s \<Longrightarrow> px_good env t out \<Longrightarrow> px_good env s out"
  by (auto simp: px_good_def px_same_def split: sum.splits intro: px_closed_same [of s t])

lemma px_open_ready: "px_open s \<Longrightarrow> px_ready s"
  by (simp add: px_open_def)

lemma px_open_sent: "px_open s \<Longrightarrow> (px_sent s = []) = (px_rank (px_stage s) \<le> 4)"
  by (simp add: px_open_def)

section \<open>Stage by stage\<close>

lemma answer_instead_closed:
  assumes "px_in_scope s" "px_open s" "px_rank (px_stage s) \<le> 4"
  shows "px_good env s (Inr (answer_instead env synth matched ids s))"
  using assms
  by (auto simp: answer_instead_def Let_def px_open_ready px_open_sent split: prod.splits
      intro!: px_good_closed px_closed_capture_bypassed)

lemma stage_after_rules_good:
  assumes "px_open s" "px_stage s = AfterRules"
  shows "px_good env s (stage_after_rules env s)"
proof (cases "px_short_circuit s")
  case None
  have "rq_error_status request_faults_default = None"
    by (simp add: request_faults_default_def)
  then show ?thesis
    using assms None
    by (auto simp: stage_after_rules_def Let_def request_faults_default_def
        split: prod.splits intro!: px_good_goto)
next
  case (Some synth)
  then have "px_in_scope s"
    using assms by (auto simp: px_open_def)
  then show ?thesis
    using assms Some by (simp add: stage_after_rules_def answer_instead_closed)
qed

lemma stage_after_faults_good:
  assumes "px_open s" "px_stage s = AfterFaults"
  shows "px_good env s (stage_after_faults env s)"
proof (cases "rq_error_status (px_request_faults s)")
  case None
  then show ?thesis
    using assms by (auto simp: stage_after_faults_def intro!: px_good_goto)
next
  case (Some status)
  then have "px_in_scope s"
    using assms by (auto simp: px_open_def)
  then show ?thesis
    using assms Some by (simp add: stage_after_faults_def answer_instead_closed)
qed

lemma hold_capture_same: "(\<And>status. v \<noteq> DropFlow status) \<Longrightarrow> v \<noteq> AbortTransport \<Longrightarrow> hold_capture env ph snap v s = s"
  by (cases v) (auto simp: hold_capture_def)

lemma snapshot_id [simp]: "fr_id (request_snapshot env s) = px_id s" "fr_id (response_snapshot env s) = px_id s"
  by (simp_all add: request_snapshot_def response_snapshot_def Let_def)

lemma stage_after_request_hold_good:
  assumes "px_open s" "px_stage s = AfterRequestHold"
  shows "px_good env s (stage_after_request_hold env s)"
proof -
  define verdict where "verdict = (if px_in_scope s \<and> \<not> px_req_streaming s
    then pe_hold env ''request'' (request_snapshot env s) else None)"
  show ?thesis
  proof (cases verdict)
    case None
    then show ?thesis
      using assms by (auto simp: stage_after_request_hold_def Let_def verdict_def intro!: px_good_goto)
  next
    case (Some v)
    then have scope: "px_in_scope s"
      by (auto simp: verdict_def split: if_splits)
    have sent: "px_sent s = []"
      using assms by (simp add: px_open_def)
    have unfold: "stage_after_request_hold env s =
       (let s = hold_capture env ''request'' (request_snapshot env s) v s in
        (case v of
           DropFlow status \<Rightarrow> Inr (s, Answer (drop_response (pe_http env) (px_method s) status))
         | AbortTransport \<Rightarrow> Inr (s, TransportAborted)
         | RespondWith status body headers \<Rightarrow>
             Inr (answer_instead env (status, headers, body) ''intercept:respond'' (px_rule_ids s) s)
         | Resume m \<Rightarrow> px_goto Forward (apply_resume env m s)))"
      using Some by (simp add: stage_after_request_hold_def verdict_def Let_def split: if_splits)
    have meth: "px_method (hold_capture env ''request'' (request_snapshot env s) v s) = px_method s"
      by (auto simp: hold_capture_def finish_capture_def enqueue_flow_def send_flow_def Let_def
          split: hold_verdict.splits prod.splits option.splits)
    show ?thesis
      unfolding unfold using assms scope sent meth
      by (cases v) (auto simp: Let_def px_open_ready hold_capture_same answer_instead_closed
          intro!: px_good_closed px_closed_hold px_good_goto intro: px_response_drop)
  qed
qed

lemma stage_forward_good:
  assumes "px_open s" "px_stage s = Forward"
  shows "px_good env s (stage_forward env s)"
  using assms by (auto simp: stage_forward_def px_good_def px_goto_def px_open_def px_ready_def Let_def)


lemma capture_error_closed:
  assumes "px_open s" "5 \<le> px_rank (px_stage s)" "\<exists>st. px_response env (px_method s) st resp"
  shows "px_closed env s (capture_error env status headers err s) (Answer resp)"
proof (cases "px_in_scope s")
  case True
  then show ?thesis
    using assms by (auto simp: capture_error_def px_open_ready px_open_sent intro!: px_closed_capture)
next
  case False
  then show ?thesis
    using assms by (auto simp: capture_error_def px_open_ready intro!: px_closed_out)
qed

lemma stage_read_answer_good:
  assumes "px_open s" "px_stage s = ReadAnswer"
  shows "px_good env s (stage_read_answer env s)"
  using assms
  by (auto simp: stage_read_answer_def Let_def split: sum.splits
      intro!: px_good_closed capture_error_closed px_good_goto)

text \<open>Once the upstream has answered there is a status, whatever rules and edits do.\<close>

lemma apply_response_rule_status:
  "apply_response_rule ext json allowed rule (st, headers, body) = (rule', (st', headers', body'), b) \<Longrightarrow>
   st \<noteq> None \<Longrightarrow> st' \<noteq> None"
  by (auto simp: apply_response_rule_def Let_def split: rule_action.splits rule_transform.splits
      if_splits option.splits prod.splits sum.splits)

lemma response_rules_loop_status:
  "response_rules_loop ext json allowed matching rules (st, headers, body) = (rules', (st', headers', body'), ids) \<Longrightarrow>
   st \<noteq> None \<Longrightarrow> st' \<noteq> None"
proof (induction rules arbitrary: st headers body rules' st' headers' body' ids)
  case Nil
  then show ?case
    by simp
next
  case (Cons r rules)
  obtain rid rule where r: "r = (rid, rule)"
    by (cases r)
  show ?case
  proof (cases "phase (cr_spec rule) \<noteq> PhaseResponse \<or> \<not> matching (st, headers, body) (cr_spec rule)")
    case True
    then show ?thesis
      using Cons by (auto simp: r split: prod.splits)
  next
    case False
    obtain rule1 st1 headers1 body1 b where one:
      "apply_response_rule ext json allowed rule (st, headers, body) = (rule1, (st1, headers1, body1), b)"
      by (metis surj_pair)
    obtain rules2 st2 headers2 body2 ids2 where rest:
      "response_rules_loop ext json allowed matching rules (st1, headers1, body1) =
         (rules2, (st2, headers2, body2), ids2)"
      by (metis surj_pair)
    show ?thesis
      using Cons.prems False Cons.IH [OF rest] apply_response_rule_status [OF one]
      by (simp add: r one rest)
  qed
qed

lemma run_response_rules_status:
  "st \<noteq> None \<Longrightarrow> fst (fst (run_response_rules env st body allowed s)) \<noteq> None"
  using response_rules_loop_status
  by (fastforce simp: run_response_rules_def apply_response_rules_def Let_def split: prod.splits)

lemma apply_response_mutation_status:
  "st \<noteq> None \<Longrightarrow> fst (fst (apply_response_mutation ext st headers body m allowed)) \<noteq> None"
  by (auto simp: apply_response_mutation_def Let_def split: prod.splits option.splits)

lemma decompress_status [simp]: "px_status (px_decompress env s) = px_status s"
  by (auto simp: px_decompress_def note_decoded_def Let_def split: prod.splits option.splits decode_outcome.splits)


text \<open>A streamed answer.\<close>

lemma answer_streamed_good:
  assumes "px_open s" "5 \<le> px_rank (px_stage s)"
  shows "px_good env s (Inr (answer_streamed env prefix rest n s))"
proof -
  obtain st no_body t where run:
    "run_response_rules env (Some (px_status_code s)) [] False s = ((st, no_body), t)"
    by (metis surj_pair)
  have same: "px_same s t"
    using px_same_response_rules [of s env "Some (px_status_code s)" "[]" False] run by simp
  define final where "final = (case st of Some n \<Rightarrow> n | None \<Rightarrow> px_status_code t)"
  define allowed where "allowed = response_allows_body (px_method t) final"
  define body where "body = (if allowed then streamed_body prefix rest else full_body [])"
  define len where "len = (if allowed \<or> (px_method t = ''HEAD'' \<and> \<not> status_forbids_body final)
                 then n else None)"
  obtain body' len' where sab: "sabotaged (rq_body (px_request_faults t)) allowed body len = (body', len')"
    by fastforce
  define resp where "resp = response_with_body (pe_http env) final (px_resp_headers t) body' len'"
  have "\<not> allowed \<Longrightarrow> body' = []"
    using sabotaged_forbidden [of allowed "rq_body (px_request_faults t)" len] sab by (simp add: body_def)
  then have resp: "px_response env (px_method t) final resp"
    by (auto simp: resp_def allowed_def intro: px_responseI)
  have ready: "px_ready t" "px_sent t \<noteq> []"
    using same assms by (auto simp: px_open_def px_ready_def px_same_def)
  have out: "snd (answer_streamed env prefix rest n s) = Answer resp"
    using sab by (simp add: answer_streamed_def run Let_def final_def allowed_def body_def len_def resp_def)
  have "px_closed env t (fst (answer_streamed env prefix rest n s)) (Answer resp)"
  proof (cases "px_in_scope t")
    case True
    then show ?thesis
      using ready resp
      by (auto simp: answer_streamed_def run Let_def final_def split: prod.splits
          intro!: px_closed_capture_streamed)
  next
    case False
    then show ?thesis
      using ready resp
      by (auto simp: answer_streamed_def run Let_def split: prod.splits intro!: px_closed_out)
  qed
  then show ?thesis
    using out px_closed_same [OF same]
    by (cases "answer_streamed env prefix rest n s") (simp add: px_good_def)
qed

lemma stage_decode_good:
  assumes "px_open s" "px_stage s = Decode"
  shows "px_good env s (stage_decode env s)"
  using assms
  by (auto simp: stage_decode_def split: body_read.splits
      intro!: px_good_closed capture_error_closed px_good_goto answer_streamed_good)

lemma px_good_note_pending:
  assumes "px_open s" "px_same s t" "px_rank st = Suc (px_rank (px_stage s))" "4 < px_rank (px_stage s)"
    "px_status t \<noteq> None" "fr_id rec = px_id s"
  shows "px_good env s (px_goto st (if px_in_scope t then note_pending rec t else t))"
  using assms
  by (cases st) (auto simp: px_good_def px_goto_def px_open_def px_same_def px_ready_def note_pending_def)

lemma stage_response_rules_good:
  assumes "px_open s" "px_stage s = ResponseRules"
  shows "px_good env s (stage_response_rules env s)"
proof -
  define u where "u = px_decompress env s"
  obtain st body t where run:
    "run_response_rules env (px_status u) (px_resp_bytes u) (px_plaintext u) u = ((st, body), t)"
    by (metis surj_pair)
  have "px_same u t"
    using px_same_response_rules [of u env "px_status u" "px_resp_bytes u" "px_plaintext u"] run by simp
  moreover have "px_same s u"
    by (simp add: u_def)
  ultimately have same: "px_same s (t\<lparr>px_status := st, px_resp_bytes := body\<rparr>)" (is "px_same s ?w")
    by (auto simp: px_same_def)
  have "px_status s \<noteq> None"
    using assms by (simp add: px_open_def)
  then have "st \<noteq> None"
    using run_response_rules_status [of "px_status u" env "px_resp_bytes u" "px_plaintext u" u] run
    by (simp add: u_def)
  moreover have "px_id t = px_id s"
    using same by (simp add: px_same_def)
  ultimately have "px_good env s (px_goto AfterResponseHold
      (if px_in_scope ?w then note_pending (response_snapshot env ?w) ?w else ?w))"
    by (intro px_good_note_pending) (use assms same in auto)
  then show ?thesis
    by (simp add: stage_response_rules_def u_def [symmetric] run Let_def)
qed

lemma stage_after_response_hold_good:
  assumes "px_open s" "px_stage s = AfterResponseHold"
  shows "px_good env s (stage_after_response_hold env s)"
proof -
  define verdict where "verdict = (if px_in_scope s then pe_hold env ''response'' (response_snapshot env s) else None)"
  have status: "px_status s \<noteq> None"
    using assms by (simp add: px_open_def)
  show ?thesis
  proof (cases verdict)
    case None
    then show ?thesis
      using assms status by (auto simp: stage_after_response_hold_def Let_def verdict_def intro!: px_good_goto)
  next
    case (Some v)
    then have scope: "px_in_scope s"
      by (auto simp: verdict_def split: if_splits)
    have sent: "px_sent s \<noteq> []"
      using assms by (simp add: px_open_def)
    have meth: "px_method (hold_capture env ''response'' (response_snapshot env s) v s) = px_method s"
      by (auto simp: hold_capture_def finish_capture_def enqueue_flow_def send_flow_def Let_def
          split: hold_verdict.splits prod.splits option.splits)
    note unfold = stage_after_response_hold_def [of env s] Let_def
    show ?thesis
    proof (cases v)
      case (Resume m)
      obtain st headers body changed where mut:
        "apply_response_mutation (pe_http env) (px_status s) (px_resp_headers s) (px_resp_bytes s) m
           (px_plaintext s) = ((st, headers, body), changed)"
        by (metis surj_pair)
      then have "st \<noteq> None"
        using apply_response_mutation_status [OF status, of "pe_http env" "px_resp_headers s" "px_resp_bytes s" m
            "px_plaintext s"] by simp
      then show ?thesis
        using assms Some Resume scope mut
        by (auto simp: unfold verdict_def hold_capture_same intro!: px_good_goto)
    next
      case (RespondWith st body headers)
      then show ?thesis
        using assms Some scope by (auto simp: unfold verdict_def hold_capture_same intro!: px_good_goto)
    next
      case (DropFlow st)
      then show ?thesis
        using assms Some scope sent meth
        by (auto simp: unfold verdict_def px_open_ready intro!: px_good_closed px_closed_hold)
    next
      case AbortTransport
      then show ?thesis
        using assms Some scope sent meth
        by (auto simp: unfold verdict_def px_open_ready intro!: px_good_closed px_closed_hold)
    qed
  qed
qed


lemma settled_body:
  assumes "px_status s = Some st" "\<not> response_allows_body (px_method s) st"
  shows "px_resp_bytes (px_settle s) = []"
  using assms by (simp add: px_settle_def Let_def)

lemma settle_keeps [simp]: "px_status (px_settle s) = px_status s" "px_method (px_settle s) = px_method s"
  by (auto simp: px_settle_def Let_def split: option.splits)

lemma final_answer_legal:
  assumes "px_status s = Some st"
  shows "px_response env (px_method s) st (final_answer env (px_settle s))"
proof -
  define allowed where "allowed = response_allows_body (px_method s) st"
  define len where "len = (if status_forbids_body st then None
    else if px_method s = ''HEAD'' then content_length (px_resp_headers (px_settle s))
    else Some (length (px_resp_bytes (px_settle s))))"
  obtain body len' where sab: "sabotaged (rq_body (px_request_faults (px_settle s))) allowed
      (full_body (px_resp_bytes (px_settle s))) len = (body, len')"
    by fastforce
  have "\<not> allowed \<Longrightarrow> body = []"
    using settled_body [OF assms] sab sabotaged_forbidden [of allowed "rq_body (px_request_faults (px_settle s))" len]
    by (simp add: allowed_def)
  then have "response_allows_body (px_method s) st \<or> body = []"
    by (auto simp: allowed_def)
  moreover have "final_answer env (px_settle s) =
      response_with_body (pe_http env) st (px_resp_headers (px_settle s)) body len'"
    using assms sab by (auto simp: final_answer_def Let_def len_def allowed_def split: if_splits)
  ultimately show ?thesis
    by (simp add: px_responseI)
qed

lemma stage_finish_good:
  assumes "px_open s" "px_stage s = Finish"
  shows "px_good env s (stage_finish env s)"
proof -
  define t where "t = px_settle s"
  obtain st where st: "px_status s = Some st"
    using assms by (auto simp: px_open_def)
  have same: "px_same s t"
    by (simp add: t_def)
  have ready: "px_ready t" "px_sent t \<noteq> []" "px_status t = Some st" "px_method t = px_method s"
    using same assms st by (auto simp: px_open_def px_ready_def px_same_def t_def)
  have resp: "px_response env (px_method t) st (final_answer env t)"
    using final_answer_legal [OF st] ready by (simp add: t_def)
  define t' where "t' = (if px_in_scope t then
      (if px_plaintext t then capture env (final_parts env t (px_resp_bytes t)) t
       else capture_streamed env (final_parts env t []) (Some (length (px_resp_bytes t))) t) else t)"
  have "px_closed env t t' (Answer (final_answer env t))"
    using ready resp
    by (auto simp: t'_def final_parts_def intro!: px_closed_capture px_closed_capture_streamed px_closed_out)
  then have "px_closed env s t' (Answer (final_answer env t))"
    by (rule px_closed_same [OF same])
  then show ?thesis
    by (simp add: stage_finish_def t_def [symmetric] t'_def [symmetric] Let_def px_good_def)
qed

section \<open>The whole request\<close>

text \<open>Whether the request body can be read, and whether the flow is one to record.\<close>

definition request_readable :: "px \<Rightarrow> bool" where
  "request_readable s \<longleftrightarrow>
     read_stream_capped (px_req_stream s)
       (case px_len_hint s of None \<Rightarrow> False | Some n \<Rightarrow> BUFFER_CAP < n) (px_len_hint s) BUFFER_CAP \<noteq> BodyFailed"

definition to_record :: "px_env \<Rightarrow> px \<Rightarrow> bool" where
  "to_record env s \<longleftrightarrow>
     host_in_scope (pe_http env) (pe_filters env) (px_host s) \<and> request_readable s"

lemma px_admit_good:
  assumes ready: "px_ready s" "pf_record (px_pending s) = None" "px_sent s = []" "px_stage s = ReadBody"
    and scoped: "scoped = host_in_scope (pe_http env) (pe_filters env) (px_host s)"
  shows "px_good env (s\<lparr>px_in_scope := scoped\<rparr>) (px_admit env s)"
proof -
  define t where "t = (let s = s\<lparr>px_in_scope := scoped\<rparr> in
    if px_in_scope s then note_pending (make_flow env (px_pending s) (parts_of s)) s else s)"
  have t: "px_ready t" "px_sent t = []" "px_in_scope t = scoped" "px_id t = px_id s" "px_method t = px_method s"
    "map_option fr_id (pf_record (px_pending t)) = (if scoped then Some (px_id s) else None)"
    "px_stage t = ReadBody"
    using ready by (auto simp: t_def note_pending_def px_ready_def Let_def)
  have opened: "px_open t"
    using t by (simp add: px_open_def)
  define replay where "replay = (if px_in_scope t \<and> \<not> px_req_streaming t
    then pe_replay env (px_method t) (px_scheme t) (px_host t) (px_port t) (px_path t) (px_req_bytes t)
    else Inr None)"
  have admit: "px_admit env s =
     (case replay of
        Inl err \<Rightarrow> Inr (replay_failed env err t)
      | Inr (Some r) \<Rightarrow> Inr (answer_replay env r t)
      | Inr None \<Rightarrow> px_goto AfterRules (px_apply_request_rules env t))"
    unfolding px_admit_def replay_def t_def scoped Let_def ..
  have "px_good env t (px_admit env s)"
  proof (cases replay)
    case (Inl err)
    then have "px_in_scope t"
      by (auto simp: replay_def split: if_splits)
    then show ?thesis
      using opened t Inl
      by (auto simp: admit replay_failed_def Let_def intro!: px_good_closed px_closed_capture_bypassed)
  next
    case (Inr answer)
    show ?thesis
    proof (cases answer)
      case None
      have "\<not> px_in_scope t \<Longrightarrow> px_short_circuit (px_apply_request_rules env t) = None"
        by (simp add: px_apply_request_rules_def)
      then show ?thesis
        using Inr None opened t by (auto simp: admit intro!: px_good_goto)
    next
      case (Some r)
      then have "px_in_scope t"
        using Inr by (auto simp: replay_def split: if_splits)
      then show ?thesis
        using opened t Inr Some
        by (auto simp: admit answer_replay_def Let_def intro!: px_good_closed px_closed_capture_bypassed)
    qed
  qed
  then show ?thesis
    using t ready(4)
    by (auto simp: px_good_def px_closed_def px_filed_def ready(3) split: sum.splits)
qed

text \<open>The state a request starts in.\<close>

definition px_fresh :: "px \<Rightarrow> bool" where
  "px_fresh s \<longleftrightarrow>
     px_ready s \<and> pf_record (px_pending s) = None \<and> px_sent s = [] \<and> px_stage s = ReadBody \<and>
     \<not> px_in_scope s"

lemma px_start_fresh:
  "px_start env method uri tun version raw_headers body counter rules faults = Some s \<Longrightarrow>
   px_fresh s \<and> px_id s = flow_id counter \<and> px_method s = method"
  by (auto simp: px_start_def px_fresh_def px_ready_def Let_def split: option.splits prod.splits)

lemma stage_read_body_good:
  assumes "px_fresh s"
  shows "px_good env (s\<lparr>px_in_scope := to_record env s\<rparr>) (stage_read_body env s)"
proof -
  define force where "force = (case px_len_hint s of None \<Rightarrow> False | Some n \<Rightarrow> BUFFER_CAP < n)"
  note read = stage_read_body_def force_def [symmetric] Let_def
  note scope = to_record_def request_readable_def force_def [symmetric]
  have lift: "px_good env (s\<lparr>px_in_scope := b\<rparr>) out"
    if "px_good env (u\<lparr>px_in_scope := b\<rparr>) out" "px_same s u" "px_stage u = px_stage s" for u b out
    by (rule px_good_same [OF _ _ that(1)]) (use that(2,3) in \<open>simp_all add: px_same_def\<close>)
  show ?thesis
  proof (cases "read_stream_capped (px_req_stream s) force (px_len_hint s) BUFFER_CAP")
    case (Buffered b)
    let ?u = "s\<lparr>px_req_bytes := b, px_req_streaming := False, px_req_stream := []\<rparr>"
    have "px_good env (?u\<lparr>px_in_scope := to_record env s\<rparr>) (px_admit env ?u)"
      by (rule px_admit_good) (use assms Buffered in \<open>auto simp: px_fresh_def px_ready_def scope\<close>)
    then have "px_good env (s\<lparr>px_in_scope := to_record env s\<rparr>) (px_admit env ?u)"
      by (rule lift) simp_all
    then show ?thesis
      by (simp add: read Buffered)
  next
    case (Streamed prefix rest hint)
    let ?u = "s\<lparr>px_req_streaming := True, px_req_stream := streamed_body prefix rest\<rparr>"
    have "px_good env (?u\<lparr>px_in_scope := to_record env s\<rparr>) (px_admit env ?u)"
      by (rule px_admit_good) (use assms Streamed in \<open>auto simp: px_fresh_def px_ready_def scope\<close>)
    then have "px_good env (s\<lparr>px_in_scope := to_record env s\<rparr>) (px_admit env ?u)"
      by (rule lift) simp_all
    then show ?thesis
      by (simp add: read Streamed)
  next
    case BodyFailed
    then show ?thesis
      using assms
      by (auto simp: read scope px_fresh_def px_ready_def px_good_def px_closed_def)
  qed
qed


lemma px_step_good:
  "px_open s \<Longrightarrow> px_stage s \<noteq> ReadBody \<Longrightarrow> px_good env s (px_step env s)"
  by (cases "px_stage s")
     (simp_all add: px_step_def stage_after_rules_good stage_after_faults_good stage_after_request_hold_good
       stage_forward_good stage_read_answer_good stage_decode_good stage_response_rules_good
       stage_after_response_hold_good stage_finish_good)

text \<open>How a request may have ended, in terms of what it was when it was admitted.\<close>

definition px_ended :: "px_env \<Rightarrow> px \<Rightarrow> px \<Rightarrow> px_result \<Rightarrow> bool" where
  "px_ended env s s' res \<longleftrightarrow>
     (\<forall>resp. res = Answer resp \<longrightarrow> (\<exists>st. px_response env (px_method s) st resp)) \<and>
     (if px_in_scope s
      then \<exists>rec. px_queue s' = (if pe_queue_cap env = 0 then [] else [rec]) \<and>
             px_dropped s' = (if pe_queue_cap env = 0 then 1 else 0) \<and> fr_id rec = px_id s \<and>
             fr_upstream_bypassed rec = (px_sent s' = []) \<and>
             (fr_error rec = None \<longrightarrow>
                (\<exists>st resp. fr_status rec = Some st \<and> res = Answer resp \<and>
                   px_response env (px_method s) st resp))
      else px_queue s' = [] \<and> px_dropped s' = 0)"

lemma px_closed_ended:
  assumes "px_closed env t s' res" "px_id t = px_id s" "px_method t = px_method s" "px_in_scope t = px_in_scope s"
  shows "px_ended env s (s'\<lparr>px_pending := p\<rparr>) res"
proof (cases "px_in_scope s")
  case True
  then obtain rec where rec: "px_filed env rec t s'" "fr_id rec = px_id s"
    "fr_upstream_bypassed rec = (px_sent s' = [])"
    "fr_error rec = None \<longrightarrow> (\<exists>st resp. fr_status rec = Some st \<and> res = Answer resp \<and>
       px_response env (px_method s) st resp)"
    using assms by (auto simp: px_closed_def)
  have "\<forall>resp. res = Answer resp \<longrightarrow> (\<exists>st. px_response env (px_method s) st resp)"
    using assms by (simp add: px_closed_def)
  then show ?thesis
    unfolding px_ended_def if_P [OF True] using rec by (intro conjI exI [of _ rec]) (simp_all add: px_filed_def)
next
  case False
  then show ?thesis
    using assms by (simp add: px_ended_def px_closed_def)
qed

definition px_outcome_ok :: "px_env \<Rightarrow> px \<Rightarrow> nat \<Rightarrow> px_outcome \<Rightarrow> bool" where
  "px_outcome_ok env s n out \<longleftrightarrow>
     (case out of
        Inl t \<Rightarrow> px_open t \<and> px_id t = px_id s \<and> px_method t = px_method s \<and>
           px_in_scope t = px_in_scope s \<and> px_rank (px_stage t) = px_rank (px_stage s) + n
      | Inr (s', res) \<Rightarrow> px_ended env s s' res)"

lemma px_outcome_ok_cong:
  "px_outcome_ok env t n out \<Longrightarrow> px_id t = px_id s \<Longrightarrow> px_method t = px_method s \<Longrightarrow>
   px_in_scope t = px_in_scope s \<Longrightarrow> px_rank (px_stage t) = Suc (px_rank (px_stage s)) \<Longrightarrow>
   px_outcome_ok env s (Suc n) out"
  by (auto simp: px_outcome_ok_def px_ended_def split: sum.splits)

text \<open>One good stage, then the rest.\<close>

lemma px_run_Suc_ok:
  assumes "px_good env s (px_step env s)"
    and "\<And>t. px_open t \<Longrightarrow> px_stage t \<noteq> ReadBody \<Longrightarrow> px_outcome_ok env t n (px_run env n t)"
  shows "px_outcome_ok env s (Suc n) (px_run env (Suc n) s)"
proof (cases "px_step env s")
  case (Inl t)
  then have t: "px_open t" "px_id t = px_id s" "px_method t = px_method s" "px_in_scope t = px_in_scope s"
    "px_rank (px_stage t) = Suc (px_rank (px_stage s))"
    using assms(1) by (simp_all add: px_good_def)
  then have "px_stage t \<noteq> ReadBody"
    by auto
  then show ?thesis
    using assms(2) [OF t(1)] t by (simp add: Inl px_outcome_ok_cong)
next
  case (Inr done1)
  then show ?thesis
    using assms(1) px_closed_ended [of env s]
    by (cases done1) (simp add: px_good_def px_outcome_ok_def)
qed

lemma px_run_ok:
  "px_open s \<Longrightarrow> px_stage s \<noteq> ReadBody \<Longrightarrow> px_outcome_ok env s n (px_run env n s)"
proof (induction n arbitrary: s)
  case 0
  then show ?case
    by (simp add: px_outcome_ok_def)
next
  case (Suc n)
  show ?case
    by (rule px_run_Suc_ok [OF px_step_good]) (use Suc in auto)
qed

text \<open>From the start: with the verdict on scope and readability in place, any number of stages.\<close>

lemma px_run_fresh_ok:
  assumes "px_fresh s"
  shows "px_outcome_ok env (s\<lparr>px_in_scope := to_record env s\<rparr>) (Suc n) (px_run env (Suc n) s)"
proof -
  let ?s = "s\<lparr>px_in_scope := to_record env s\<rparr>"
  have step: "px_step env s = stage_read_body env s"
    using assms by (simp add: px_fresh_def px_step_def)
  have good: "px_good env ?s (px_step env s)"
    unfolding step by (rule stage_read_body_good [OF assms])
  show ?thesis
  proof (cases "px_step env s")
    case (Inl t)
    then have t: "px_open t" "px_id t = px_id ?s" "px_method t = px_method ?s" "px_in_scope t = px_in_scope ?s"
      "px_rank (px_stage t) = Suc (px_rank (px_stage ?s))"
      using good by (simp_all add: px_good_def)
    then have "px_stage t \<noteq> ReadBody"
      by auto
    from px_outcome_ok_cong [OF px_run_ok [OF t(1) this] t(2-5)] show ?thesis
      by (simp add: Inl)
  next
    case (Inr done1)
    then show ?thesis
      using good px_closed_ended [of env ?s]
      by (cases done1) (simp add: px_good_def px_outcome_ok_def)
  qed
qed

lemma px_rank_bound: "px_rank st \<le> 9"
  by (cases st) auto

text \<open>Ten stages are always enough.\<close>

lemma px_run_ends:
  assumes "px_fresh s" "9 \<le> n"
  shows "\<exists>s' res. px_run env (Suc n) s = Inr (s', res) \<and> px_ended env (s\<lparr>px_in_scope := to_record env s\<rparr>) s' res"
proof (cases "px_run env (Suc n) s")
  case (Inl t)
  then have "px_rank (px_stage t) = Suc n"
    using px_run_fresh_ok [OF assms(1), of env n] assms(1) by (simp add: px_outcome_ok_def px_fresh_def)
  then show ?thesis
    using px_rank_bound [of "px_stage t"] assms(2) by simp
next
  case (Inr r)
  then show ?thesis
    using px_run_fresh_ok [OF assms(1), of env n] by (cases r) (simp add: px_outcome_ok_def)
qed


text \<open>A dropped request future files the record that is pending, if there is one.\<close>

lemma cancel_guard_files:
  assumes "px_open t"
  shows "length (px_queue (cancel_guard env t)) + px_dropped (cancel_guard env t) = (if px_in_scope t then 1 else 0) \<and>
    (\<forall>rec\<in>set (px_queue (cancel_guard env t)). fr_id rec = px_id t)"
  using assms
  by (cases "pf_record (px_pending t)")
     (auto simp: px_open_def px_ready_def cancel_guard_def send_flow_def u64_add_def Let_def split: if_splits)

lemma px_ended_files:
  "px_ended env s s' res \<Longrightarrow>
   length (px_queue s') + px_dropped s' = (if px_in_scope s then 1 else 0) \<and>
   (\<forall>rec\<in>set (px_queue s'). fr_id rec = px_id s)"
  by (auto simp: px_ended_def split: if_splits)

section \<open>Properties\<close>

text \<open>
  C8: ten stages finish every request. A request whose host is in scope and whose body can be
  read then has filed exactly one flow record, under its own id (delivered, or counted as dropped
  when the queue is full), on every path through replay, rules, faults, holds and upstream errors; any
  other request none. Hanging up after any number of stages changes nothing of this, except that
  before the body was read there is nothing to file.
\<close>

theorem captured_exactly_once:
  assumes "px_start env method uri tun version raw_headers body counter rules faults = Some s"
  shows "(\<exists>s' res. px_run env 10 s = Inr (s', res) \<and>
            length (px_queue s') + px_dropped s' = (if to_record env s then 1 else 0) \<and>
            (\<forall>rec\<in>set (px_queue s'). fr_id rec = flow_id counter)) \<and>
         length (px_queue (px_cancelled env n s)) + px_dropped (px_cancelled env n s) =
           (if to_record env s \<and> 0 < n then 1 else 0) \<and>
         (\<forall>rec\<in>set (px_queue (px_cancelled env n s)). fr_id rec = flow_id counter)"
proof -
  from px_start_fresh [OF assms] have fresh: "px_fresh s" and ident: "px_id s = flow_id counter"
    by simp_all
  let ?s = "s\<lparr>px_in_scope := to_record env s\<rparr>"
  obtain s' res where run: "px_run env 10 s = Inr (s', res)" "px_ended env ?s s' res"
    using px_run_ends [OF fresh, of 9 env] by auto
  have "length (px_queue (px_cancelled env n s)) + px_dropped (px_cancelled env n s) =
      (if to_record env s \<and> 0 < n then 1 else 0) \<and>
    (\<forall>rec\<in>set (px_queue (px_cancelled env n s)). fr_id rec = flow_id counter)"
  proof (cases n)
    case 0
    then show ?thesis
      using fresh by (simp add: px_cancelled_def cancel_guard_def px_fresh_def px_ready_def)
  next
    case (Suc m)
    then have ok: "px_outcome_ok env ?s n (px_run env n s)"
      using px_run_fresh_ok [OF fresh, of env m] by simp
    show ?thesis
    proof (cases "px_run env n s")
      case (Inl t)
      then show ?thesis
        using ok cancel_guard_files [of t env] ident Suc by (simp add: px_cancelled_def px_outcome_ok_def)
    next
      case (Inr r)
      then show ?thesis
        using ok px_ended_files [of env ?s "fst r" "snd r"] ident Suc
        by (cases r) (simp add: px_cancelled_def px_outcome_ok_def)
    qed
  qed
  then show ?thesis
    using run px_ended_files [OF run(2)] ident by auto
qed

text \<open>
  Whatever rules, faults, replays and held-flow decisions do, an answer to HEAD and an answer
  with status 204, 304 or 1xx has no body.
\<close>

theorem answer_fits_method:
  assumes "px_start env method uri tun version raw_headers body counter rules faults = Some s"
    and "px_run env n s = Inr (s', Answer resp)"
    and "method = ''HEAD'' \<or> status_forbids_body (hr_status resp)"
  shows "hr_body resp = []"
proof -
  from px_start_fresh [OF assms(1)] have fresh: "px_fresh s" and meth: "px_method s = method"
    by simp_all
  obtain m where m: "n = Suc m"
    using assms(2) by (cases n) auto
  have "\<exists>st. px_response env method st resp"
    using px_run_fresh_ok [OF fresh, of env m] assms(2) meth
    by (simp add: m px_outcome_ok_def px_ended_def)
  then show ?thesis
    using assms(3) by (auto simp: response_allows_body_def intro: px_response_legal)
qed

text \<open>
  C10: the record filed for a finished request says that the upstream was bypassed exactly when
  nothing was sent to it, and a record without an error carries the status of the answer the client
  got, unless that answer could not be built and the client got an empty 200 in its place.
\<close>

theorem record_tells_truth:
  assumes "px_start env method uri tun version raw_headers body counter rules faults = Some s"
    and "px_run env n s = Inr (s', res)" "rec \<in> set (px_queue s')"
  shows "fr_upstream_bypassed rec = (px_sent s' = []) \<and>
    (fr_error rec = None \<longrightarrow>
       (\<exists>resp. res = Answer resp \<and>
          (fr_status rec = Some (hr_status resp) \<or>
           fr_status rec \<noteq> None \<and> resp = \<lparr>hr_status = 200, hr_headers = [], hr_body = []\<rparr>)))"
proof -
  have fresh: "px_fresh s"
    using px_start_fresh [OF assms(1)] by simp
  obtain m where m: "n = Suc m"
    using assms(2) by (cases n) auto
  have "px_ended env (s\<lparr>px_in_scope := to_record env s\<rparr>) s' res"
    using px_run_fresh_ok [OF fresh, of env m] assms(2) by (simp add: m px_outcome_ok_def)
  then have "fr_upstream_bypassed rec = (px_sent s' = []) \<and>
      (fr_error rec = None \<longrightarrow>
         (\<exists>st resp. fr_status rec = Some st \<and> res = Answer resp \<and> px_response env (px_method s) st resp))"
    using assms(3) by (auto simp: px_ended_def split: if_splits)
  then show ?thesis
    by (auto simp: px_response_def response_with_body_def Let_def split: if_splits)
qed


section \<open>A quiet proxy relays\<close>


definition request_content :: "px \<Rightarrow> byte list" where
  "request_content t = (if px_req_streaming t then chunk_bytes (px_req_stream t) else px_req_bytes t)"

definition without_length :: "headers \<Rightarrow> headers" where
  "without_length headers = filter (\<lambda>(name, v). \<not> eq_ignore_ascii_case name ''content-length'') headers"

lemma without_length_replace [simp]:
  "without_length (replace_content_length headers n) = without_length headers"
  by (auto simp: without_length_def replace_content_length_def eq_ignore_ascii_case_def split: option.splits)





definition px_calm :: "px \<Rightarrow> px \<Rightarrow> bool" where
  "px_calm s t \<longleftrightarrow>
     px_rules t = [] \<and> px_faults t = [] \<and> px_method t = px_method s \<and> px_url t = px_url s \<and>
     px_request_faults t = request_faults_default \<and>
     without_length (px_req_headers t) = without_length (px_req_headers s)"

lemma note_fields [simp]:
  "px_rules (note_pending r t) = px_rules t" "px_faults (note_pending r t) = px_faults t"
  "px_method (note_pending r t) = px_method t" "px_url (note_pending r t) = px_url t"
  "px_request_faults (note_pending r t) = px_request_faults t" "px_req_headers (note_pending r t) = px_req_headers t"
  "px_sent (note_pending r t) = px_sent t"
  "px_req_streaming (note_pending r t) = px_req_streaming t" "px_req_stream (note_pending r t) = px_req_stream t"
  "px_req_bytes (note_pending r t) = px_req_bytes t" "px_in_scope (note_pending r t) = px_in_scope t"
  "px_resp_headers (note_pending r t) = px_resp_headers t" "px_resp_bytes (note_pending r t) = px_resp_bytes t"
  "px_status (note_pending r t) = px_status t" "px_plaintext (note_pending r t) = px_plaintext t"
  by (simp_all add: note_pending_def)

lemma no_request_rules [simp]:
  "px_rules t = [] \<Longrightarrow> px_calm s (px_apply_request_rules env t) = px_calm s t"
  "px_rules t = [] \<Longrightarrow> px_short_circuit (px_apply_request_rules env t) = None"
  "request_content (px_apply_request_rules env t) = request_content t"
  by (auto simp: px_apply_request_rules_def apply_request_rules_def req_rules_default_def px_calm_def
      request_content_def split: prod.splits)


lemma calm_stage [simp]:
  "px_calm s (t\<lparr>px_stage := st\<rparr>) = px_calm s t" "request_content (t\<lparr>px_stage := st\<rparr>) = request_content t"
  by (simp_all add: px_calm_def request_content_def)







lemma captures_keep_sent [simp]:
  "px_sent (enqueue_flow env rec t) = px_sent t"
  "px_sent (capture env p t) = px_sent t"
  "px_sent (capture_streamed env p n t) = px_sent t"
  by (simp_all add: capture_def capture_streamed_def finish_capture_def enqueue_flow_def send_flow_def Let_def
      split: option.splits)

lemma no_sabotage [simp]: "sabotaged (rq_body request_faults_default) allowed body len = (at_once body, len)"
  by (simp add: sabotaged_def request_faults_default_def)






section \<open>An instance\<close>

text \<open>An upstream that answers 200 with two bytes, and a replay set that answers HEAD requests.\<close>

definition sample_env :: px_env where
  "sample_env =
     \<lparr>pe_http = sample_http, pe_json = sample_json, pe_hash = (\<lambda>bs. []), pe_policy = None, pe_session = ''s'',
      pe_filters = [], pe_anticache = False, pe_anticomp = False, pe_queue_cap = 8,
      pe_replay = (\<lambda>m sc h p q b. Inr None), pe_hold = (\<lambda>ph snap. None),
      pe_upstream = (\<lambda>r. Inr \<lparr>us_status = 200, us_version = ''HTTP/1.1'', us_headers = [], us_body = [Data [79, 75]]\<rparr>),
      pe_read_error = ''gone'', pe_slot = SlotFree, pe_now = 0, pe_dur_ms = 1\<rparr>"

definition sample_replay_env :: px_env where
  "sample_replay_env = sample_env\<lparr>pe_replay :=
     (\<lambda>m sc h p q b. Inr (Some \<lparr>rp_status = 200, rp_headers = [], rp_bytes = [79, 75], rp_length = Some 2\<rparr>))\<rparr>"

definition sample_uri :: uri_parts where
  "sample_uri = \<lparr>ui_scheme = Some ''http'', ui_host = Some ''h'', ui_authority = Some ''h'', ui_port = None,
     ui_path_query = Some ''/''\<rparr>"

definition sample_px :: "string \<Rightarrow> px" where
  "sample_px m = the (px_start sample_env m sample_uri None ''HTTP/1.1'' [] [] 7 [] [])"

lemma sample_start: "px_start sample_env m sample_uri None ''HTTP/1.1'' [] [] 7 [] [] = Some (sample_px m)"
  by (simp add: sample_px_def px_start_def resolve_target_def sample_uri_def Let_def)

lemma sample_replay_start:
  "px_start sample_replay_env m sample_uri None ''HTTP/1.1'' [] [] 7 [] [] = Some (sample_px m)"
  by (simp add: sample_px_def px_start_def resolve_target_def sample_uri_def Let_def)

lemma sample_fields:
  "px_stage (sample_px m) = ReadBody" "px_method (sample_px m) = m" "px_host (sample_px m) = ''h''"
  "px_len_hint (sample_px m) = None" "px_req_stream (sample_px m) = []" "px_id (sample_px m) = flow_id 7"
  "px_in_scope (sample_px m) = False" "px_queue (sample_px m) = []" "px_dropped (sample_px m) = 0"
  "px_sent (sample_px m) = []"
  by (simp_all add: sample_px_def px_start_def resolve_target_def sample_uri_def Let_def header_pairs_def
      content_length_def header_get_def)

lemma sample_readable: "request_readable (sample_px m)"
  by (simp add: request_readable_def sample_fields read_stream_capped_def)

lemma sample_recorded: "to_record sample_env (sample_px m)"
  by (simp add: to_record_def sample_readable host_in_scope_def sample_env_def)

lemma sample_read:
  "px_step env (sample_px m) =
     px_admit env ((sample_px m)\<lparr>px_req_bytes := [], px_req_streaming := False, px_req_stream := []\<rparr>)"
  by (simp add: px_step_def stage_read_body_def sample_fields read_stream_capped_def concat_chunks_def Let_def)

lemma sample_response:
  "response_with_body sample_http 200 (replace_content_length [] (Some 2)) [] (Some 2) =
   \<lparr>hr_status = 200, hr_headers = [(''content-length'', ''2'')], hr_body = []\<rparr>"
  by code_simp

lemma sample_head_run:
  "\<exists>s' rec. px_run sample_replay_env 1 (sample_px ''HEAD'') =
     Inr (s', Answer \<lparr>hr_status = 200, hr_headers = [(''content-length'', ''2'')], hr_body = []\<rparr>) \<and>
     px_queue s' = [rec]"
  by (simp add: sample_read px_admit_def sample_replay_env_def sample_env_def host_in_scope_def
      answer_replay_def sample_fields Let_def note_pending_def capture_bypassed_def finish_capture_def
      enqueue_flow_def send_flow_def build_replay_client_response_def sample_response)

lemma captured_exactly_once_witness:
  "\<exists>s' res. px_run sample_env 10 (sample_px ''GET'') = Inr (s', res) \<and>
     length (px_queue s') + px_dropped s' = 1 \<and>
     length (px_queue (px_cancelled sample_env 3 (sample_px ''GET''))) +
       px_dropped (px_cancelled sample_env 3 (sample_px ''GET'')) = 1"
  using captured_exactly_once [OF sample_start [of "''GET''"], where n = 3] by (auto simp: sample_recorded)

lemma answer_fits_method_witness:
  "\<exists>s' resp. px_run sample_replay_env 1 (sample_px ''HEAD'') = Inr (s', Answer resp) \<and> hr_body resp = []"
  using sample_head_run answer_fits_method [OF sample_replay_start, where n = 1] by fastforce

lemma record_tells_truth_witness:
  "\<exists>s' res rec. px_run sample_replay_env 1 (sample_px ''HEAD'') = Inr (s', res) \<and> rec \<in> set (px_queue s') \<and>
     fr_upstream_bypassed rec = (px_sent s' = [])"
proof -
  obtain s' res rec where run: "px_run sample_replay_env 1 (sample_px ''HEAD'') = Inr (s', res)"
    "px_queue s' = [rec]"
    using sample_head_run by blast
  then have "rec \<in> set (px_queue s')"
    by simp
  with run record_tells_truth [OF sample_replay_start run(1) this] show ?thesis
    by blast
qed


text \<open>
  A flow redirected by an intercepted request (\<^verbatim>\<open>net resume --set-url\<close>) is filed with the URL the app asked
  for as it was, whatever the redaction policy: \<^verbatim>\<open>redact_flow_record\<close> does not look at that field.
\<close>

theorem original_url_escapes_redaction:
  assumes "length (px_queue s) < pe_queue_cap env" "pf_original_url (px_pending s) = None"
  shows "fr_original_url (last (px_queue (capture env p (note_redirect url s)))) = Some url"
proof -
  have "px_queue (enqueue_flow env rec t) = px_queue t @ [rec]" if "length (px_queue t) < pe_queue_cap env" for rec t
    using that by (auto simp: enqueue_flow_def send_flow_def Let_def split: option.splits)
  moreover have "px_queue (note_redirect url s) = px_queue s"
    "pf_original_url (px_pending (note_redirect url s)) = Some url"
    using assms(2) by (simp_all add: note_redirect_def)
  ultimately show ?thesis
    using assms(1) by (simp add: capture_def finish_capture_def)
qed

end
