(* ===== verification/ReplayProxy.thy ===== *)
theory ReplayProxy
  imports ReplayProps ProxyRequestProps
begin

text \<open>
  Replay inside the proxy (\<open>replay_lookup\<close> in \<^verbatim>\<open>net/proxy.rs\<close>): the active set answers requests, and a
  request that was recorded is answered from the recording without a call to the upstream.
\<close>

definition replay_synthetic :: "stored_response \<Rightarrow> replay_response" where
  "replay_synthetic r =
     \<lparr>rp_status = sp_status r, rp_headers = sp_headers r, rp_bytes = str_bytes (sp_body r),
      rp_length = sp_representation r\<rparr>"

definition replay_lookup ::
  "replay_ext \<Rightarrow> replay_set option \<Rightarrow> string \<Rightarrow> string \<Rightarrow> string \<Rightarrow> nat \<Rightarrow> string \<Rightarrow> byte list \<Rightarrow>
   string + replay_response option" where
  "replay_lookup ext active method scheme host port path body =
     (case active of
        None \<Rightarrow> Inr None
      | Some s \<Rightarrow>
          let request = \<lparr>rq_method = method, rq_scheme = scheme, rq_host = host, rq_port = port,
                rq_target = path, rq_bytes = body\<rparr>
          in case replay_lookup_set ext s request of
               Inl e \<Rightarrow> Inl e
             | Inr (Hit r) \<Rightarrow> Inr (Some (replay_synthetic r))
             | Inr Miss \<Rightarrow> Inr None
             | Inr (Ambiguous n) \<Rightarrow> Inl (''validated replay set returned '' @ dec_digits n @ '' matches''))"

lemma replay_lookup_hit:
  "replay_lookup_set ext s (request_of_flow f port body) = Inr (Hit r) \<Longrightarrow>
   replay_lookup ext (Some s) (fr_method f) (fr_scheme f) (fr_host f) port (fr_path f) (str_bytes body) =
   Inr (Some (replay_synthetic r))"
  by (simp add: replay_lookup_def request_of_flow_def)

text \<open>A request that carries what a flow recorded, and whose body was read whole.\<close>

definition same_request :: "replay_source \<Rightarrow> string \<Rightarrow> px \<Rightarrow> bool" where
  "same_request src body s \<longleftrightarrow>
     px_method s = fr_method (so_flow src) \<and> px_scheme s = fr_scheme (so_flow src) \<and>
     px_host s = fr_host (so_flow src) \<and> px_port s = so_port src \<and> px_path s = fr_path (so_flow src) \<and>
     read_stream_capped (px_req_stream s) (case px_len_hint s of None \<Rightarrow> False | Some n \<Rightarrow> BUFFER_CAP < n)
       (px_len_hint s) BUFFER_CAP = Buffered (str_bytes body)"

lemma px_replay_step:
  assumes "px_stage s = ReadBody" "px_sent s = []"
    "host_in_scope (pe_http env) (pe_filters env) (px_host s)"
    "read_stream_capped (px_req_stream s) (case px_len_hint s of None \<Rightarrow> False | Some n \<Rightarrow> BUFFER_CAP < n)
       (px_len_hint s) BUFFER_CAP = Buffered b"
    "pe_replay env (px_method s) (px_scheme s) (px_host s) (px_port s) (px_path s) b = Inr (Some r)"
  shows "\<exists>s'. px_run env 1 s =
      Inr (s', Answer (build_replay_client_response (pe_http env) (px_method s) (rp_status r)
        (replace_content_length (rp_headers r)
          (if px_method s = ''HEAD'' then rp_length r else synthetic_response_length (rp_status r) (length (rp_bytes r))))
        (rp_bytes r) (rp_length r))) \<and>
      px_sent s' = []"
proof -
  have "\<exists>s'. px_step env s =
      Inr (s', Answer (build_replay_client_response (pe_http env) (px_method s) (rp_status r)
        (replace_content_length (rp_headers r)
          (if px_method s = ''HEAD'' then rp_length r else synthetic_response_length (rp_status r) (length (rp_bytes r))))
        (rp_bytes r) (rp_length r))) \<and>
      px_sent s' = []"
    using assms
    by (simp add: px_step_def stage_read_body_def px_admit_def Let_def note_pending_def answer_replay_def
        capture_bypassed_def finish_capture_def enqueue_flow_def send_flow_def split: option.splits)
  then show ?thesis
    by (auto simp: numeral_eq_Suc)
qed

text \<open>
  C21: the path from recording to replay, end to end. Build a bundle from recorded flows, load it,
  send it to the daemon as a payload and make it the active set: a request equal to a recorded one, in
  scope and with its body read whole, is answered in one step from the recording, with the flow's own
  status, body and stored headers, and nothing is sent to the upstream.
\<close>

theorem recorded_request_needs_no_backend:
  assumes "build_bundle ext sources = Inr bundle" "src \<in> set sources"
    "is_sha256 (active_entries_sha256 ext (st_entries (projr (into_replay_set ext bundle None))))"
    "pe_replay env = replay_lookup (be_replay ext)
       (Some (projr (from_payload ext (to_payload (projr (into_replay_set ext bundle None))))))"
    "px_start env method uri tun version raw_headers stream counter rules faults = Some s"
    "same_request src (projr (exact_request_body (so_flow src))) s"
    "host_in_scope (pe_http env) (pe_filters env) (px_host s)"
  shows "\<exists>s' status headers len body rep_len.
    fr_status (so_flow src) = Some status \<and> exact_response_body (so_flow src) = Inr body \<and>
    stored_headers (be_replay ext) (so_flow src) = Inr headers \<and>
    px_run env 1 s = Inr (s', Answer (build_replay_client_response (pe_http env) method status
      (replace_content_length headers len) (str_bytes body) rep_len)) \<and>
    px_sent s' = []"
proof -
  obtain st body r where st: "into_replay_set ext bundle None = Inr st"
    "exact_request_body (so_flow src) = Inr body"
    "replay_lookup_set (be_replay ext) st (request_of_flow (so_flow src) (so_port src) body) = Inr (Hit r)"
    "fr_status (so_flow src) = Some (sp_status r)" "exact_response_body (so_flow src) = Inr (sp_body r)"
    "stored_headers (be_replay ext) (so_flow src) = Inr (sp_headers r)"
    using recorded_flow_found [OF assms(1,2)] by blast
  then obtain bytes where "replay_set_from_manifest ext (bb_manifest bundle) bytes None (read_built bundle) = Inr st"
    by (auto simp: into_replay_set_def)
  then obtain active where active: "from_payload ext (to_payload st) = Inr active"
    "replay_lookup_set (be_replay ext) active (request_of_flow (so_flow src) (so_port src) body) = Inr (Hit r)"
    using payload_same_set assms(3) st(1,3) by fastforce
  have start: "px_stage s = ReadBody" "px_sent s = []" "px_method s = method"
    using px_start_fresh [OF assms(5)] by (simp_all add: px_fresh_def)
  have "pe_replay env (px_method s) (px_scheme s) (px_host s) (px_port s) (px_path s) (str_bytes body) =
      Inr (Some (replay_synthetic r))"
    using replay_lookup_hit [OF active(2)] assms(4,6) st(1,2) active(1) by (simp add: same_request_def)
  from px_replay_step [OF start(1,2) assms(7) _ this] show ?thesis
    using assms(6) st(2,4-6) start(3) by (auto simp: same_request_def replay_synthetic_def)
qed

end
