(* ===== verification/ReplaySamples.thy ===== *)
theory ReplaySamples
  imports ReplayProxy
begin

text \<open>
  Two recorded requests, of which one has a body, under collaborators that compute, and the theorems on
  replay at work on them.
\<close>

section \<open>The recorded requests\<close>

definition sample_replay_ext :: replay_ext where
  "sample_replay_ext =
     \<lparr>re_http = sample_http, re_method = (\<lambda>m. True), re_authority = (\<lambda>a. True), re_encode = (\<lambda>s. s),
      re_decode = Some, re_sha = (\<lambda>bs. replicate 64 CHR ''a''), re_json_bytes = (\<lambda>v. [])\<rparr>"

definition sample_flow :: "string \<Rightarrow> string \<Rightarrow> flow_record" where
  "sample_flow path body =
     flow_default\<lparr>fr_method := ''GET'', fr_scheme := ''http'', fr_host := ''h'', fr_port := Some 80, fr_path := path,
       fr_status := Some 200, fr_resp_body := Some body, fr_resp_len := length body\<rparr>"

definition sample_source :: "string \<Rightarrow> string \<Rightarrow> replay_source" where
  "sample_source path body = \<lparr>so_flow = sample_flow path body, so_port = 80\<rparr>"

definition sample_key :: "string \<Rightarrow> replay_key" where
  "sample_key path = ReplayKey ''GET'' ''http'' ''h'' 80 path None None (replicate 64 CHR ''a'')"

definition sample_response :: "string \<Rightarrow> stored_response" where
  "sample_response body =
     \<lparr>sp_status = 200, sp_headers = [], sp_representation = None, sp_body = body, sp_sha = replicate 64 CHR ''a''\<rparr>"

definition sample_manifest :: "manifest_entry list \<Rightarrow> replay_manifest" where
  "sample_manifest fixtures =
     \<lparr>rm_artifact_type = REPLAY_ARTIFACT_TYPE, rm_format_version = 1, rm_version = 1,
      rm_generated_by = ''shadowdroid net export fixtures (1)'', rm_count = length fixtures, rm_fixtures = fixtures\<rparr>"

definition sample_fixture :: "string \<Rightarrow> string \<Rightarrow> manifest_entry" where
  "sample_fixture path body = manifest_entry_of (sample_key path) (sample_response body) None None"

definition sample_old :: built_bundle where
  "sample_old = \<lparr>bb_manifest = sample_manifest [sample_fixture ''/b'' []], bb_files = []\<rparr>"

definition sample_new :: built_bundle where
  "sample_new = \<lparr>bb_manifest = sample_manifest [sample_fixture ''/a'' ''ok'', sample_fixture ''/b'' []],
     bb_files = [(response_path (replicate 64 CHR ''a''), ''ok'')]\<rparr>"

definition sample_bundle_ext :: bundle_ext where
  "sample_bundle_ext =
     \<lparr>be_replay = sample_replay_ext, be_manifest_bytes = (\<lambda>m. [word_of_nat (rm_count m)]),
      be_parse_manifest = (\<lambda>bs. Some (bb_manifest (if bs = [1, 10] then sample_old else sample_new))),
      be_entries_bytes = (\<lambda>es. []), be_version = ''1''\<rparr>"

definition sample_sources :: "replay_source list" where
  "sample_sources = [sample_source ''/b'' [], sample_source ''/a'' ''ok'']"

lemma sample_sha: "is_sha256 (replicate 64 CHR ''a'')"
  by (simp add: is_sha256_def list_all_iff)

lemma sample_ext [simp]:
  "re_http sample_replay_ext = sample_http" "re_sha sample_replay_ext bs = replicate 64 CHR ''a''"
  "be_replay sample_bundle_ext = sample_replay_ext" "be_manifest_bytes sample_bundle_ext m = [word_of_nat (rm_count m)]"
  "be_version sample_bundle_ext = ''1''" "be_entries_bytes sample_bundle_ext es = []"
  "be_parse_manifest sample_bundle_ext bs = Some (bb_manifest (if bs = [1, 10] then sample_old else sample_new))"
  "rm_count (bb_manifest sample_old) = 1" "rm_count (bb_manifest sample_new) = 2"
  by (simp_all add: sample_replay_ext_def sample_bundle_ext_def sample_old_def sample_new_def sample_manifest_def)

lemma sample_body_sha: "canonical_request_body_sha256 sample_replay_ext bs = replicate 64 CHR ''a''"
  by (simp add: canonical_request_body_sha256_def split: option.splits)

lemma sample_target:
  "p \<in> {''/a'', ''/b''} \<Longrightarrow> split_target sample_replay_ext p = Inr (p, None)"
  by (auto simp: split_target_def starts_with_def has_char_def str_chars_ascii char_is_control_def ensure_def)

lemma sample_norm:
  "normalize_method sample_replay_ext ''GET'' = Inr ''GET''"
  "normalize_scheme ''http'' = Inr ''http''"
  "normalize_host sample_replay_ext ''h'' = Inr ''h''"
  by (simp_all add: normalize_method_def normalize_scheme_def normalize_host_def str_trim_ascii sample_replay_ext_def
    to_ascii_uppercase_def ascii_upper_char_def to_ascii_lowercase_def ascii_lower_char_def strip_dot_def
    strip_brackets_def ends_with_def starts_with_def has_char_def str_chars_ascii char_is_whitespace_def ensure_def Let_def)

lemma sample_validate_key: "p \<in> {''/a'', ''/b''} \<Longrightarrow> validate_key sample_replay_ext (sample_key p) = Inr ()"
  using sample_target [of p] sample_sha
  by (simp add: validate_key_def sample_key_def sample_norm join_target_def validate_operation_def validate_sha256_def)

lemma sample_request_key:
  assumes "p \<in> {''/a'', ''/b''}"
  shows "request_key sample_replay_ext (request_of_flow (sample_flow p body) 80 []) = Inr (sample_key p)"
proof -
  have "graphql_operation_name sample_replay_ext None [] = Inr None"
    by (simp add: graphql_operation_name_def)
  then show ?thesis
    using sample_target [OF assms] sample_validate_key [OF assms]
    by (simp add: request_key_def request_of_flow_def sample_flow_def sample_norm str_bytes_def sample_body_sha
        sample_key_def [symmetric])
qed

lemma sample_bodies:
  "exact_request_body (sample_flow p body) = Inr []"
  "length body \<le> BODY_CAP \<Longrightarrow> exact_response_body (sample_flow p body) = Inr body"
  by (simp_all add: exact_request_body_def exact_response_body_def sample_flow_def flow_default_def is_head_def
     status_forbids_body_def eq_ignore_ascii_case_def to_ascii_lowercase_def ascii_lower_char_def MAX_RESPONSE_BODY_BYTES_def)

lemma sample_headers:
  "sanitize_response_headers sample_http [] = Inr []" "validate_response_headers sample_http [] = Inr ()"
  by (simp_all add: sanitize_response_headers_def validate_response_headers_def header_syntax_ok_def replay_nominated_def)

lemma sample_runtime:
  "length body \<le> BODY_CAP \<Longrightarrow> validate_runtime_response sample_replay_ext (sample_key p) (sample_response body) = Inr ()"
  using sample_sha
  by (simp add: validate_runtime_response_def sample_response_def validate_status_def sample_headers validate_representation_def
    validate_sha256_def MAX_RESPONSE_BODY_BYTES_def sample_key_def status_forbids_body_def)

lemma sample_item:
  assumes "p \<in> {''/a'', ''/b''}" "length body \<le> BODY_CAP"
  shows "bundle_item sample_bundle_ext (sample_source p body) =
    Inr (sample_key p, manifest_entry_of (sample_key p) (sample_response body) None None, sample_response body)"
proof -
  have f: "fr_error (sample_flow p body) = None" "fr_status (sample_flow p body) = Some 200"
    "fr_req_streamed (sample_flow p body) = False" "fr_req_truncated (sample_flow p body) = False"
    "fr_request_body_modified (sample_flow p body) = False" "fr_original_url (sample_flow p body) = None"
    "fr_streamed (sample_flow p body) = False" "fr_resp_truncated (sample_flow p body) = False"
    "never_redacted (sample_flow p body)" "fr_method (sample_flow p body) = ''GET''"
    "fr_scheme (sample_flow p body) = ''http''" "fr_host (sample_flow p body) = ''h''" "fr_path (sample_flow p body) = p"
    "fr_resp_headers (sample_flow p body) = []" "fr_req_type (sample_flow p body) = None"
    "fr_resp_type (sample_flow p body) = None" "fr_port (sample_flow p body) = Some 80" "\<not> is_head (sample_flow p body)"
    by (simp_all add: sample_flow_def flow_default_def never_redacted_def is_head_def eq_ignore_ascii_case_def
      to_ascii_lowercase_def ascii_lower_char_def)
  have source: "validate_source_flow sample_replay_ext (sample_flow p body) = Inr ()"
    using sample_target [OF assms(1)] sample_bodies(2) [OF assms(2)]
    by (simp add: validate_source_flow_def f sample_norm sample_bodies(1) validate_status_def sample_headers)
  have "key_from_flow sample_replay_ext (sample_flow p body) 80 = Inr (sample_key p)"
    using sample_request_key [OF assms(1)] by (simp add: key_from_flow_def sample_bodies(1))
  moreover have "stored_headers sample_replay_ext (sample_flow p body) = Inr []"
    by (simp add: stored_headers_def f sample_headers)
  moreover have "captured_representation_content_length (sample_flow p body) 200 = Inr None"
    by (simp add: captured_representation_content_length_def f)
  ultimately show ?thesis
    using source sample_bodies(2) [OF assms(2)] sample_runtime [OF assms(2), of p]
    by (simp add: bundle_item_def sample_source_def f sample_response_def Let_def)
qed


lemma sample_key_order: "sample_key ''/a'' < sample_key ''/b''"
  by (simp add: less_replay_key_def key_fields_def sample_key_def less_prod_def')

lemma sample_keys [simp]: "sample_key p = sample_key q \<longleftrightarrow> p = q"
  by (simp add: sample_key_def)

lemma sample_loop_old:
  "bundle_loop sample_bundle_ext [sample_source ''/b'' []] ([], 0) = Inr ([(sample_key ''/b'', sample_fixture ''/b'' [], [])], 0)"
  by (simp add: sample_item bundle_insert_def sample_response_def sample_fixture_def MAX_TOTAL_RESPONSE_BYTES_def)

lemma sample_loop_new:
  "bundle_loop sample_bundle_ext sample_sources ([], 0) =
     Inr ([(sample_key ''/a'', sample_fixture ''/a'' ''ok'', ''ok''), (sample_key ''/b'', sample_fixture ''/b'' [], [])], 2)"
proof -
  have "length ''ok'' \<le> BODY_CAP"
    by (simp add: BODY_CAP_def)
  then show ?thesis
    using sample_key_order
    by (simp add: sample_sources_def sample_item bundle_insert_def sample_response_def sample_fixture_def
      MAX_TOTAL_RESPONSE_BYTES_def Let_def)
qed

lemma sample_builds:
  "build_bundle sample_bundle_ext [sample_source ''/b'' []] = Inr sample_old"
  "build_bundle sample_bundle_ext sample_sources = Inr sample_new"
proof -
  have sources: "sample_sources \<noteq> []" "length sample_sources = 2"
    by (simp_all add: sample_sources_def)
  have stored: "me_response_file (sample_fixture ''/b'' []) = None"
    "me_response_file (sample_fixture ''/a'' ''ok'') = Some (response_path (replicate 64 CHR ''a''))"
    by (simp_all add: sample_fixture_def manifest_entry_of_def sample_response_def)
  show "build_bundle sample_bundle_ext [sample_source ''/b'' []] = Inr sample_old"
    by (simp add: build_bundle_def sample_loop_old stored MAX_REPLAY_ENTRIES_def MAX_MANIFEST_BYTES_def manifest_bytes_def
        Let_def REPLAY_FORMAT_VERSION_def sample_old_def sample_manifest_def del: bundle_loop.simps)
  show "build_bundle sample_bundle_ext sample_sources = Inr sample_new"
    by (simp add: build_bundle_def sample_loop_new sources stored MAX_REPLAY_ENTRIES_def MAX_MANIFEST_BYTES_def manifest_bytes_def
        Let_def REPLAY_FORMAT_VERSION_def sample_new_def sample_manifest_def del: bundle_loop.simps)
qed

lemma bundle_order_free_witness: "build_bundle sample_bundle_ext (rev sample_sources) = Inr sample_new"
  by (rule bundle_order_free [OF sample_builds(2)]) simp


lemma sample_sets:
  "\<exists>st. into_replay_set sample_bundle_ext sample_old None = Inr st"
  "\<exists>st. into_replay_set sample_bundle_ext sample_new None = Inr st"
  using into_replay_set_entries [OF sample_builds(1)] into_replay_set_entries [OF sample_builds(2)] by metis+

lemma sample_active:
  "\<exists>s s'. into_replay_set sample_bundle_ext sample_new None = Inr s \<and>
     from_payload sample_bundle_ext (to_payload s) = Inr s' \<and> st_entries s' = st_entries s"
proof -
  obtain s where s: "into_replay_set sample_bundle_ext sample_new None = Inr s"
    using sample_sets(2) by blast
  then obtain bytes where set: "replay_set_from_manifest sample_bundle_ext (bb_manifest sample_new) bytes None
      (read_built sample_new) = Inr s"
    by (auto simp: into_replay_set_def)
  have "is_sha256 (active_entries_sha256 sample_bundle_ext (st_entries s))"
    by (simp add: active_entries_sha256_def sample_sha)
  from payload_same_set [OF set this] s show ?thesis
    by blast
qed

lemma replay_is_deterministic_witness:
  "\<exists>p s. from_payload sample_bundle_ext p = Inr s \<and>
     (\<forall>result. replay_lookup_set sample_replay_ext s (request_of_flow (sample_flow ''/c'' []) 80 []) = Inr result \<longrightarrow>
        (\<forall>n. result \<noteq> Ambiguous n))"
proof -
  obtain p s where p: "from_payload sample_bundle_ext p = Inr s"
    using sample_active by blast
  then show ?thesis
    using replay_is_deterministic [OF p] by (fastforce intro!: exI [of _ p] exI [of _ s])
qed

definition sample_dir :: bundle_dir where
  "sample_dir = \<lparr>bd_files = Map.empty, bd_manifest = Some [1, 10]\<rparr>"

lemma sample_dir_loads:
  "\<exists>old. load_bundle sample_bundle_ext sample_dir None = Inr old \<and> into_replay_set sample_bundle_ext sample_old None = Inr old"
proof -
  have "\<forall>e \<in> set (rm_fixtures (bb_manifest sample_old)). read_dir sample_dir e = read_built sample_old e"
    by (rule built_files_readable [OF sample_builds(1)]) (simp_all add: sample_old_def)
  note same = replay_set_cong [OF this]
  obtain s where s: "into_replay_set sample_bundle_ext sample_old None = Inr s"
    using sample_sets(1) by blast
  then show ?thesis
    by (auto simp: load_bundle_def into_replay_set_def manifest_bytes_def Let_def same MAX_MANIFEST_BYTES_def
       sample_dir_def [THEN arg_cong [where f = bd_manifest]])
qed

lemma sample_writes:
  "write_bundle sample_bundle_ext sample_sources sample_dir =
     ([WriteResponse (response_path (replicate 64 CHR ''a'')) ''ok'', WriteManifest [2, 10]], True)"
proof -
  obtain s where s: "into_replay_set sample_bundle_ext sample_new None = Inr s"
    using sample_sets(2) by blast
  have path: "validate_response_relative_path (response_path (replicate 64 CHR ''a'')) (replicate 64 CHR ''a'') = Inr ()"
    by (rule response_path_ok [OF sample_sha])
  have files: "bb_files sample_new = [(response_path (replicate 64 CHR ''a''), ''ok'')]"
    by (simp add: sample_new_def)
  show ?thesis
    by (simp add: write_bundle_def sample_builds s files path sample_dir_def manifest_bytes_def MAX_MANIFEST_BYTES_def Let_def)
qed

lemma write_bundle_crash_safe_witness:
  "\<exists>old new. load_bundle sample_bundle_ext sample_dir None = Inr old \<and>
     load_bundle sample_bundle_ext (fold apply_write (take 1 [WriteResponse (response_path (replicate 64 CHR ''a'')) ''ok'',
       WriteManifest [2, 10]]) sample_dir) None = Inr old \<and>
     load_bundle sample_bundle_ext (fold apply_write (take 2 [WriteResponse (response_path (replicate 64 CHR ''a'')) ''ok'',
       WriteManifest [2, 10]]) sample_dir) None = Inr new \<and>
     into_replay_set sample_bundle_ext sample_new None = Inr new"
proof -
  obtain old where old: "load_bundle sample_bundle_ext sample_dir None = Inr old"
    using sample_dir_loads by blast
  obtain new where new: "into_replay_set sample_bundle_ext sample_new None = Inr new"
    using sample_sets(2) by blast
  have parse: "be_parse_manifest sample_bundle_ext bytes = Some (bb_manifest sample_new)"
    if "manifest_bytes sample_bundle_ext (bb_manifest sample_new) = Inr bytes" for bytes
    using that by (auto simp: manifest_bytes_def Let_def)
  have utf8: "list_all (\<lambda>(path, body). utf8_valid (str_bytes body)) (bb_files sample_new)"
    by (simp add: sample_new_def) code_simp
  note safe = write_bundle_crash_safe [OF sample_writes sample_builds(2) parse utf8 old]
  show ?thesis
    using safe [of 1] safe [of 2] old new by (intro exI [of _ old] exI [of _ new]) simp
qed

section \<open>The recorded request at the proxy\<close>

definition replaying_env :: px_env where
  "replaying_env = sample_env\<lparr>pe_replay := replay_lookup sample_replay_ext
     (Some (projr (from_payload sample_bundle_ext
        (to_payload (projr (into_replay_set sample_bundle_ext sample_new None))))))\<rparr>"

definition recorded_uri :: uri_parts where
  "recorded_uri = sample_uri\<lparr>ui_path_query := Some ''/a''\<rparr>"

definition recorded_px :: px where
  "recorded_px = the (px_start replaying_env ''GET'' recorded_uri None ''HTTP/1.1'' [] [] 7 [] [])"

lemma recorded_start: "px_start replaying_env ''GET'' recorded_uri None ''HTTP/1.1'' [] [] 7 [] [] = Some recorded_px"
  by (simp add: recorded_px_def px_start_def resolve_target_def recorded_uri_def sample_uri_def Let_def)

lemma recorded_same: "same_request (sample_source ''/a'' ''ok'') [] recorded_px"
proof -
  have "px_method recorded_px = ''GET''" "px_scheme recorded_px = ''http''" "px_host recorded_px = ''h''"
    "px_port recorded_px = 80" "px_path recorded_px = ''/a''" "px_len_hint recorded_px = None" "px_req_stream recorded_px = []"
    by (simp_all add: recorded_px_def px_start_def resolve_target_def recorded_uri_def sample_uri_def Let_def
        effective_target_port_def header_pairs_def content_length_def header_get_def)
  then show ?thesis
    by (simp add: same_request_def sample_source_def sample_flow_def read_stream_capped_def concat_chunks_def str_bytes_def)
qed

lemma recorded_request_needs_no_backend_witness:
  "\<exists>s' headers len rep_len. px_run replaying_env 1 recorded_px =
      Inr (s', Answer (build_replay_client_response sample_http ''GET'' 200
        (replace_content_length headers len) (str_bytes ''ok'') rep_len)) \<and>
    px_sent s' = []"
proof -
  have "is_sha256 (active_entries_sha256 sample_bundle_ext
      (st_entries (projr (into_replay_set sample_bundle_ext sample_new None))))"
    by (simp add: active_entries_sha256_def sample_sha)
  moreover have "sample_source ''/a'' ''ok'' \<in> set sample_sources"
    by (simp add: sample_sources_def)
  moreover have "pe_replay replaying_env = replay_lookup (be_replay sample_bundle_ext)
      (Some (projr (from_payload sample_bundle_ext
        (to_payload (projr (into_replay_set sample_bundle_ext sample_new None))))))"
    by (simp add: replaying_env_def)
  moreover have "same_request (sample_source ''/a'' ''ok'')
      (projr (exact_request_body (so_flow (sample_source ''/a'' ''ok'')))) recorded_px"
    using recorded_same by (simp add: sample_source_def sample_bodies)
  moreover have "host_in_scope (pe_http replaying_env) (pe_filters replaying_env) (px_host recorded_px)"
    by (simp add: host_in_scope_def replaying_env_def sample_env_def)
  ultimately obtain s' status headers len body rep_len where answer:
    "fr_status (so_flow (sample_source ''/a'' ''ok'')) = Some status"
    "exact_response_body (so_flow (sample_source ''/a'' ''ok'')) = Inr body"
    "px_run replaying_env 1 recorded_px = Inr (s', Answer (build_replay_client_response (pe_http replaying_env) ''GET''
      status (replace_content_length headers len) (str_bytes body) rep_len))" "px_sent s' = []"
    using recorded_request_needs_no_backend [OF sample_builds(2) _ _ _ recorded_start] by blast
  moreover have "status = 200"
    using answer(1) by (simp add: sample_source_def sample_flow_def)
  moreover have "body = ''ok''"
    using answer(2) sample_bodies(2) [of "''ok''" "''/a''"] by (simp add: sample_source_def BODY_CAP_def)
  moreover have "pe_http replaying_env = sample_http"
    by (simp add: replaying_env_def sample_env_def)
  ultimately show ?thesis
    by metis
qed

section \<open>A body that was not text\<close>

text \<open>
  The gates on exact bodies compare lengths only. Three bytes of a cut-off four-byte character are kept as
  one replacement character, which is three bytes long too: the recording passes as exact and the
  replay serves bytes the upstream never sent.
\<close>

theorem lossy_body_passes_as_exact:
  "\<exists>bytes body. body_to_text (Some ''text/plain'') bytes BODY_CAP = (Some body, False) \<and> str_bytes body \<noteq> bytes \<and>
     exact_response_body (flow_default\<lparr>fr_method := ''GET'', fr_status := Some 200, fr_resp_body := Some body,
       fr_resp_len := length bytes\<rparr>) = Inr body"
proof -
  define bytes :: "byte list" where "bytes = [0xF0, 0x9F, 0x98]"
  define body where "body = bytes_str [0xEF, 0xBF, 0xBD]"
  have "utf8_scan bytes = ([], Some True)" "is_textual (Some ''text/plain'')" "from_utf8_lossy bytes = body"
    by (simp_all add: bytes_def body_def Let_def second_of_4_def is_cont_def starts_with_def from_utf8_lossy_def utf8_lossy_def
        utf8_encode_def utf8_encode_char_def byte_of_def)
  moreover have "length bytes \<le> BODY_CAP" "bytes \<noteq> []"
    by (simp_all add: bytes_def BODY_CAP_def)
  ultimately have "body_to_text (Some ''text/plain'') bytes BODY_CAP = (Some body, False)"
    by (simp add: body_to_text_def Let_def)
  moreover have "str_bytes body \<noteq> bytes" "length body = length bytes"
    by (simp_all add: body_def bytes_def bytes_str_def str_bytes_def)
  ultimately show ?thesis
    using \<open>length bytes \<le> BODY_CAP\<close>
    by (intro exI [of _ bytes] exI [of _ body])
      (simp add: exact_response_body_def is_head_def eq_ignore_ascii_case_def to_ascii_lowercase_def
        ascii_lower_char_def status_forbids_body_def MAX_RESPONSE_BODY_BYTES_def)
qed

lemma query_order_free_witness: "canonical_query sample_replay_ext ''b=2&a=1'' = Inr ''a=1&b=2''"
proof -
  have "mset (split_on CHR ''&'' ''a=1&b=2'') = mset (split_on CHR ''&'' ''b=2&a=1'')"
    by (simp add: add_mset_commute)
  moreover have "canonical_query sample_replay_ext ''a=1&b=2'' = Inr ''a=1&b=2''"
    by (simp add: canonical_query_def query_pair_def decode_query_component_def sample_replay_ext_def encode_pair_def
        less_eq_char_def less_char_def)
  ultimately show ?thesis
    by (rule query_order_free) simp_all
qed

end
