(* ===== verification/Codec.thy ===== *)
theory Codec
  imports Prelude
begin

text \<open>
  Framings of a byte stream: an encoder of packets and a reader that takes one packet from the front.
  Whoever writes packets one after another is read back packet by packet, with whatever follows left
  in place; and two packets that start the same stream are the same packet.
\<close>

fun read_n :: "(byte list \<Rightarrow> ('p \<times> byte list) option) \<Rightarrow> nat \<Rightarrow> byte list \<Rightarrow> ('p list \<times> byte list) option" where
  "read_n rd 0 bs = Some ([], bs)"
| "read_n rd (Suc n) bs =
     (case rd bs of
        None \<Rightarrow> None
      | Some (p, rest) \<Rightarrow> map_option (\<lambda>(ps, left). (p # ps, left)) (read_n rd n rest))"

locale codec =
  fixes enc :: "'p \<Rightarrow> byte list"
    and rd :: "byte list \<Rightarrow> ('p \<times> byte list) option"
    and ok :: "'p \<Rightarrow> bool"
  assumes read_enc: "ok p \<Longrightarrow> rd (enc p @ rest) = Some (p, rest)"
begin

lemma read_n_enc: "list_all ok ps \<Longrightarrow> read_n rd (length ps) (concat (map enc ps) @ rest) = Some (ps, rest)"
  by (induction ps) (simp_all add: read_enc)

lemma prefix_free:
  assumes "ok p" "ok q" "enc p @ a = enc q @ b"
  shows "p = q \<and> a = b"
proof -
  have "Some (p, a) = Some (q, b)"
    unfolding read_enc [OF assms(1), of a, symmetric] read_enc [OF assms(2), of b, symmetric] assms(3) ..
  then show ?thesis
    by simp
qed

lemma stream_prefix_free:
  assumes "list_all ok ps" "list_all ok qs" "length ps = length qs"
    "concat (map enc ps) @ a = concat (map enc qs) @ b"
  shows "ps = qs \<and> a = b"
proof -
  have "Some (ps, a) = Some (qs, b)"
    unfolding read_n_enc [OF assms(1), of a, symmetric] read_n_enc [OF assms(2), of b, symmetric] assms(3,4) ..
  then show ?thesis
    by simp
qed

end

end
