(* ===== verification/AdbWire.thy ===== *)
theory AdbWire
  imports Codec NetFault NetFlow ReplayKey
begin

text \<open>
  The client of the host's ADB server (\<^verbatim>\<open>device/adb_wire.rs\<close>): requests of the smart socket, the shell
  protocol with its two output streams and its exit status, file transfer in sync mode, and package
  installation; and the quoting of shell arguments (\<^verbatim>\<open>config.rs\<close>).

  A connection is what the peer will send until it closes and what has been written to it. Writing
  always succeeds and reading fails only at the end of the stream: time-outs and broken sockets are
  not modelled.
\<close>

section \<open>Connections\<close>

record adb_conn =
  cn_in :: "byte list"
  cn_out :: "byte list"

type_synonym 'a adb_result = "adb_conn \<times> 'a outcome"

definition write_all :: "byte list \<Rightarrow> adb_conn \<Rightarrow> adb_conn" where
  "write_all bs c = c\<lparr>cn_out := cn_out c @ bs\<rparr>"

definition read_exact :: "nat \<Rightarrow> adb_conn \<Rightarrow> byte list adb_result" where
  "read_exact n c =
     (if n \<le> length (cn_in c) then (c\<lparr>cn_in := drop n (cn_in c)\<rparr>, Inr (take n (cn_in c)))
      else (c\<lparr>cn_in := []\<rparr>, Inl ''failed to fill whole buffer''))"

section \<open>Smart socket requests\<close>

text \<open>\<open>{:04x}\<close>: at least four hexadecimal digits.\<close>

definition hex4 :: "nat \<Rightarrow> string" where
  "hex4 n = (if n < 16 ^ 4 then hex_pad 4 n else hex_lower n)"

definition request_bytes :: "string \<Rightarrow> byte list" where
  "request_bytes command = str_bytes (hex4 (length command) @ command)"

definition parse_hex_length :: "byte list \<Rightarrow> nat option" where
  "parse_hex_length bs = (case from_utf8 bs of None \<Rightarrow> None | Some s \<Rightarrow> parse_hex64 s)"

definition read_hex_body :: "adb_conn \<Rightarrow> byte list adb_result" where
  "read_hex_body c =
     (case read_exact 4 c of
        (c, Inl e) \<Rightarrow> (c, Inl e)
      | (c, Inr digits) \<Rightarrow>
          (case parse_hex_length digits of
             None \<Rightarrow> (c, Inl ''parse ADB response length'')
           | Some n \<Rightarrow> read_exact n c))"

definition OKAY :: "byte list" where
  "OKAY = str_bytes ''OKAY''"

definition FAIL :: "byte list" where
  "FAIL = str_bytes ''FAIL''"

definition adb_request :: "string \<Rightarrow> adb_conn \<Rightarrow> unit adb_result" where
  "adb_request command c =
     (case read_exact 4 (write_all (request_bytes command) c) of
        (c, Inl e) \<Rightarrow> (c, Inl e)
      | (c, Inr status) \<Rightarrow>
          if status = OKAY then (c, Inr ())
          else if status = FAIL then
            (case read_hex_body c of
               (c, Inl e) \<Rightarrow> (c, Inl e)
             | (c, Inr message) \<Rightarrow> (c, Inl (''ADB server rejected: '' @ from_utf8_lossy message)))
          else (c, Inl (''unexpected ADB server response: '' @ from_utf8_lossy status)))"

text \<open>Each connection starts empty-handed and is switched to the transport of a device.\<close>

definition transport :: "string \<Rightarrow> adb_conn \<Rightarrow> unit adb_result" where
  "transport serial = adb_request (''host:transport:'' @ serial)"

text \<open>\<open>str::lines\<close>: pieces between line feeds without a final empty one, a trailing carriage return cut.\<close>

definition strip_cr :: "string \<Rightarrow> string" where
  "strip_cr s = (if ends_with s [CHR 0x0D] then butlast s else s)"

definition str_lines :: "string \<Rightarrow> string list" where
  "str_lines s =
     (let pieces = split_on CHR 0x0A s
      in map strip_cr (if last pieces = [] then butlast pieces else pieces))"

definition parse_devices :: "string \<Rightarrow> (string \<times> string) list" where
  "parse_devices listing =
     List.map_filter (\<lambda>line. map_option (\<lambda>(serial, state). (serial, str_trim state)) (split_once CHR 0x09 line))
       (str_lines listing)"

definition devices :: "adb_conn \<Rightarrow> (string \<times> string) list adb_result" where
  "devices c =
     (case adb_request ''host:devices'' c of
        (c, Inl e) \<Rightarrow> (c, Inl e)
      | (c, Inr u) \<Rightarrow>
          (case read_hex_body c of
             (c, Inl e) \<Rightarrow> (c, Inl e)
           | (c, Inr body) \<Rightarrow> (c, Inr (parse_devices (from_utf8_lossy body)))))"

section \<open>The shell protocol\<close>

definition SHELL_STDOUT :: byte where "SHELL_STDOUT = 1"
definition SHELL_STDERR :: byte where "SHELL_STDERR = 2"
definition SHELL_EXIT :: byte where "SHELL_EXIT = 3"
definition SHELL_CLOSE_STDIN :: byte where "SHELL_CLOSE_STDIN = 4"

definition shell_packet :: "byte \<Rightarrow> byte list \<Rightarrow> byte list" where
  "shell_packet pid data = pid # le_bytes 4 (length data mod 2 ^ 32) @ data"

text \<open>A caller may leave out either sink; what is written to it is then lost.\<close>

record shell_sinks =
  sk_stdout :: "byte list option"
  sk_stderr :: "byte list option"

definition sink_append :: "byte list option \<Rightarrow> byte list \<Rightarrow> byte list option" where
  "sink_append sink bs = map_option (\<lambda>b. b @ bs) sink"

function shell_loop :: "byte list \<Rightarrow> shell_sinks \<Rightarrow> shell_sinks \<times> byte option outcome" where
  "shell_loop input sk =
     (if length input < 5 then (sk, Inr None)
      else
        let pid = input ! 0; n = le_nat (take 4 (drop 1 input)); rest = drop 5 input
        in if length rest < n then (sk, Inl ''read ADB shell output'')
           else
             let payload = take n rest; rest' = drop n rest
             in if pid = SHELL_STDOUT then shell_loop rest' (sk\<lparr>sk_stdout := sink_append (sk_stdout sk) payload\<rparr>)
                else if pid = SHELL_STDERR then shell_loop rest' (sk\<lparr>sk_stderr := sink_append (sk_stderr sk) payload\<rparr>)
                else if pid = SHELL_EXIT then (sk, Inr (case payload of [] \<Rightarrow> None | b # bs \<Rightarrow> Some b))
                else shell_loop rest' sk)"
  by pat_completeness auto
termination
  by (relation "measure (length \<circ> fst)") auto

declare shell_loop.simps [simp del]

definition shell_v2 :: "shell_sinks \<Rightarrow> adb_conn \<Rightarrow> adb_conn \<times> shell_sinks \<times> byte option outcome" where
  "shell_v2 sk c =
     (let c = write_all (shell_packet SHELL_CLOSE_STDIN []) c in (c, shell_loop (cn_in c) sk))"

text \<open>
  \<open>shell\<close> opens a second connection when the first refuses the protocol; the two connections are its
  arguments.
\<close>

definition adb_shell ::
  "string \<Rightarrow> string \<Rightarrow> shell_sinks \<Rightarrow> adb_conn \<Rightarrow> adb_conn \<Rightarrow> shell_sinks \<times> byte option outcome" where
  "adb_shell serial command sk c1 c2 =
     (case transport serial c1 of
        (c1, Inl e) \<Rightarrow> (sk, Inl e)
      | (c1, Inr u) \<Rightarrow>
          (case adb_request (''shell,v2,raw:'' @ command) c1 of
             (c1, Inr u) \<Rightarrow> snd (shell_v2 sk c1)
           | (c1, Inl v2_error) \<Rightarrow>
               (case transport serial c2 of
                  (c2, Inl e) \<Rightarrow> (sk, Inl e)
                | (c2, Inr u) \<Rightarrow>
                    (case adb_request (''shell:'' @ command) c2 of
                       (c2, Inl e) \<Rightarrow> (sk, Inl (e @ '' (shell protocol v2: '' @ v2_error @ '')''))
                     | (c2, Inr u) \<Rightarrow> (sk\<lparr>sk_stdout := sink_append (sk_stdout sk) (cn_in c2)\<rparr>, Inr None)))))"

section \<open>File transfer\<close>

definition SYNC_MAX_CHUNK :: nat where "SYNC_MAX_CHUNK = 64 * 1024"

definition PUSH_MODE :: string where "PUSH_MODE = ''0777''"

definition sync_packet :: "string \<Rightarrow> byte list \<Rightarrow> byte list" where
  "sync_packet pid data = str_bytes pid @ le_bytes 4 (length data) @ data"

definition sync_request :: "string \<Rightarrow> byte list \<Rightarrow> adb_conn \<Rightarrow> unit adb_result" where
  "sync_request pid data c =
     (if length data < 2 ^ 32 then (write_all (sync_packet pid data) c, Inr ())
      else (c, Inl ''sync request too long''))"

definition sync_session :: "string \<Rightarrow> adb_conn \<Rightarrow> unit adb_result" where
  "sync_session serial c =
     (case transport serial c of
        (c, Inl e) \<Rightarrow> (c, Inl e)
      | (c, Inr u) \<Rightarrow> adb_request ''sync:'' c)"

definition sync_header :: "adb_conn \<Rightarrow> (byte list \<times> nat) adb_result" where
  "sync_header c =
     (case read_exact 8 c of
        (c, Inl e) \<Rightarrow> (c, Inl e)
      | (c, Inr header) \<Rightarrow> (c, Inr (take 4 header, le_nat (drop 4 header))))"

definition sync_failure :: "nat \<Rightarrow> adb_conn \<Rightarrow> adb_conn \<times> string" where
  "sync_failure n c =
     (case read_exact n c of
        (c, Inr message) \<Rightarrow> (c, from_utf8_lossy message)
      | (c, Inl e) \<Rightarrow> (c, ''sync failure without a readable reason: '' @ e))"

definition sync_quit :: "adb_conn \<Rightarrow> adb_conn" where
  "sync_quit c = fst (sync_request ''QUIT'' [] c)"

text \<open>What reading the local file yields; the end of the list, or an empty read, is its end.\<close>

datatype read_event = Got "byte list" | Interrupted | ReadFailed string

fun push_data :: "read_event list \<Rightarrow> adb_conn \<Rightarrow> unit adb_result" where
  "push_data [] c = (c, Inr ())"
| "push_data (Got [] # events) c = (c, Inr ())"
| "push_data (Got (b # bs) # events) c =
     (case sync_request ''DATA'' (b # bs) c of
        (c, Inl e) \<Rightarrow> (c, Inl e)
      | (c, Inr u) \<Rightarrow> push_data events c)"
| "push_data (Interrupted # events) c = push_data events c"
| "push_data (ReadFailed e # events) c = (c, Inl ''read local file'')"

definition push_finish :: "nat \<Rightarrow> adb_conn \<Rightarrow> unit adb_result" where
  "push_finish mtime c =
     (case sync_header (write_all (str_bytes ''DONE'' @ le_bytes 4 (mtime mod 2 ^ 32)) c) of
        (c, Inl e) \<Rightarrow> (c, Inl e)
      | (c, Inr (pid, n)) \<Rightarrow>
          if pid = OKAY then (sync_quit c, Inr ())
          else if pid = FAIL then (let (c, message) = sync_failure n c in (sync_quit c, Inl message))
          else (sync_quit c, Inl (''unexpected sync reply '' @ from_utf8_lossy pid)))"

definition push :: "string \<Rightarrow> read_event list \<Rightarrow> string \<Rightarrow> nat \<Rightarrow> adb_conn \<Rightarrow> unit adb_result" where
  "push serial input remote mtime c =
     (case sync_session serial c of
        (c, Inl e) \<Rightarrow> (c, Inl e)
      | (c, Inr u) \<Rightarrow>
          (case sync_request ''SEND'' (str_bytes (remote @ '','' @ PUSH_MODE)) c of
             (c, Inl e) \<Rightarrow> (c, Inl e)
           | (c, Inr u) \<Rightarrow>
               (case push_data input c of
                  (c, Inl e) \<Rightarrow> (c, Inl e)
                | (c, Inr u) \<Rightarrow> push_finish mtime c)))"

text \<open>The loop of \<open>pull\<close>, and what has been copied when it ends.\<close>

function pull_loop :: "adb_conn \<Rightarrow> byte list \<Rightarrow> adb_conn \<times> byte list \<times> unit outcome" where
  "pull_loop c output =
     (if length (cn_in c) < 8 then (c\<lparr>cn_in := []\<rparr>, output, Inl ''failed to fill whole buffer'')
      else
        let pid = take 4 (cn_in c); n = le_nat (take 4 (drop 4 (cn_in c))); c1 = c\<lparr>cn_in := drop 8 (cn_in c)\<rparr>
        in if pid = str_bytes ''DATA'' then
             (if n \<le> length (cn_in c1) then
                pull_loop (c1\<lparr>cn_in := drop n (cn_in c1)\<rparr>) (output @ take n (cn_in c1))
              else (c1\<lparr>cn_in := []\<rparr>, output, Inl ''failed to fill whole buffer''))
           else if pid = str_bytes ''DONE'' then (c1, output, Inr ())
           else if pid = FAIL then (let (c2, message) = sync_failure n c1 in (c2, output, Inl message))
           else (c1, output, Inl (''unexpected sync reply '' @ from_utf8_lossy pid)))"
  by pat_completeness auto
termination
  by (relation "measure (\<lambda>(c, output). length (cn_in c))") auto

declare pull_loop.simps [simp del]

definition pull :: "string \<Rightarrow> string \<Rightarrow> adb_conn \<Rightarrow> adb_conn \<times> byte list \<times> unit outcome" where
  "pull serial remote c =
     (case sync_session serial c of
        (c, Inl e) \<Rightarrow> (c, [], Inl e)
      | (c, Inr u) \<Rightarrow>
          (case sync_request ''RECV'' (str_bytes remote) c of
             (c, Inl e) \<Rightarrow> (c, [], Inl e)
           | (c, Inr u) \<Rightarrow>
               (case pull_loop c [] of
                  (c, output, Inr u) \<Rightarrow> (sync_quit c, output, Inr u)
                | (c, output, Inl e) \<Rightarrow> (c, output, Inl e))))"

section \<open>Packages\<close>

definition MAX_RESULT_TEXT :: nat where "MAX_RESULT_TEXT = 64 * 1024"

definition package_result :: "string \<Rightarrow> adb_conn \<Rightarrow> unit outcome" where
  "package_result action c =
     (case from_utf8 (take MAX_RESULT_TEXT (cn_in c)) of
        None \<Rightarrow> Inl (''read package '' @ action @ '' result'')
      | Some raw \<Rightarrow>
          let answer = str_trim raw
          in if list_ex (\<lambda>line. str_trim line = ''Success'') (str_lines answer) then Inr ()
             else if answer = [] then Inl (''package '' @ action @ '' ended without a result'')
             else Inl answer)"

text \<open>
  \<open>install\<close> announces the size the file had when it was opened and copies what the file holds when it
  is read.
\<close>

definition install :: "string \<Rightarrow> nat \<Rightarrow> byte list \<Rightarrow> adb_conn \<Rightarrow> unit adb_result" where
  "install serial announced apk c =
     (case transport serial c of
        (c, Inl e) \<Rightarrow> (c, Inl e)
      | (c, Inr u) \<Rightarrow>
          (case adb_request (''exec:cmd package install -S '' @ dec_digits announced) c of
             (c, Inl e) \<Rightarrow> (c, Inl e)
           | (c, Inr u) \<Rightarrow> (let c = write_all apk c in (c, package_result ''install'' c))))"

fun quote_chars :: "string \<Rightarrow> string" where
  "quote_chars [] = []"
| "quote_chars (c # cs) = (if c = CHR 0x27 then [CHR 0x27, CHR 0x22, CHR 0x27, CHR 0x22, CHR 0x27] else [c]) @ quote_chars cs"

definition quote_device_shell_arg :: "string \<Rightarrow> string" where
  "quote_device_shell_arg v = [CHR 0x27] @ quote_chars v @ [CHR 0x27]"

definition uninstall :: "string \<Rightarrow> string \<Rightarrow> adb_conn \<Rightarrow> unit adb_result" where
  "uninstall serial package c =
     (case transport serial c of
        (c, Inl e) \<Rightarrow> (c, Inl e)
      | (c, Inr u) \<Rightarrow>
          (case adb_request (''exec:cmd package uninstall '' @ quote_device_shell_arg package) c of
             (c, Inl e) \<Rightarrow> (c, Inl e)
           | (c, Inr u) \<Rightarrow> (c, package_result ''uninstall'' c)))"

end
