(* ===== verification/AdbWireProps.thy ===== *)
theory AdbWireProps
  imports AdbWire
begin

text \<open>
  What the ADB client guarantees: its three framings are codecs, so the peer reads back what was
  written; the shell protocol keeps the two output streams apart; what a push sends is what a pull
  reads; and a quoted argument is one word of the device's shell.
\<close>

section \<open>Lengths on the wire\<close>

lemma ascii_utf8_valid: "list_all (\<lambda>c. of_char c < (128 :: nat)) s \<Longrightarrow> utf8_valid (str_bytes s)"
proof (induction s)
  case Nil
  then show ?case
    by (simp add: utf8_valid_def str_bytes_def)
next
  case (Cons c s)
  then have "unat (char_byte c) < 128"
    by (simp add: char_byte_def unat_of_nat)
  then show ?case
    using Cons by (simp add: utf8_valid_def str_bytes_def Let_def)
qed

lemma le_nat_le_bytes: "n < 256 ^ k \<Longrightarrow> le_nat (le_bytes k n) = n"
  by (simp add: le_nat_def le_bytes_def be_nat_be_bytes)

lemma length_le_bytes [simp]: "length (le_bytes k n) = k"
  by (simp add: le_bytes_def)

lemma hex_digit_ascii: "d < 16 \<Longrightarrow> of_char (hex_digit d) < (128 :: nat)"
  by (simp add: hex_digit_def)

lemma hex_pad_ascii: "list_all (\<lambda>c. of_char c < (128 :: nat)) (hex_pad k n)"
  by (induction k arbitrary: n) (auto simp: hex_digit_ascii)

lemma hex_fold_pad: "n < 16 ^ k \<Longrightarrow> k \<le> 16 \<Longrightarrow> hex_fold 0 (hex_pad k n) = Some n"
proof (induction k arbitrary: n)
  case (Suc k)
  have less: "n div 16 < 16 ^ k"
    using Suc.prems(1) by (simp add: less_mult_imp_div_less mult.commute)
  have "n < 16 ^ 16"
    using Suc.prems by (meson less_le_trans power_increasing one_le_numeral)
  then have "n < 2 ^ 64"
    by simp
  then show ?case
    using Suc.IH [OF less] Suc.prems(2) by (simp add: hex_fold_append hex_value_digit mult.commute)
qed simp

lemma hex_pad_start: "hex_pad (Suc k) n = hex_digit (n div 16 ^ k mod 16) # hex_pad k n"
proof (induction k arbitrary: n)
  case 0
  then show ?case
    by simp
next
  case (Suc k)
  have "hex_pad (Suc (Suc k)) n = hex_pad (Suc k) (n div 16) @ [hex_digit (n mod 16)]"
    by simp
  also have "\<dots> = hex_digit (n div 16 div 16 ^ k mod 16) # hex_pad k (n div 16) @ [hex_digit (n mod 16)]"
    by (simp only: Suc.IH append_Cons)
  also have "n div 16 div 16 ^ k = n div 16 ^ Suc k"
    by (simp only: div_mult2_eq power_Suc)
  finally show ?case
    by (simp only: hex_pad.simps(2) [of k n])
qed

lemma parse_hex_length_pad:
  assumes "n < 16 ^ 4"
  shows "parse_hex_length (str_bytes (hex_pad 4 n)) = Some n"
proof -
  have "hex_pad 4 n = hex_digit (n div 16 ^ 3 mod 16) # hex_pad 3 n"
    using hex_pad_start [of 3 n] by (simp del: hex_pad.simps)
  moreover have "hex_digit (n div 16 ^ 3 mod 16) \<noteq> CHR ''+''"
    by (rule hex_digit_not_plus) simp
  ultimately have "parse_hex64 (hex_pad 4 n) = hex_fold 0 (hex_pad 4 n)"
    by (simp add: parse_hex64_def)
  then show ?thesis
    using hex_fold_pad [OF assms] ascii_utf8_valid [OF hex_pad_ascii [of 4 n]]
    by (simp add: parse_hex_length_def from_utf8_def)
qed

section \<open>The framings as codecs\<close>

text \<open>A request of the smart socket, read by the code that reads length-prefixed replies.\<close>

definition read_request :: "byte list \<Rightarrow> (string \<times> byte list) option" where
  "read_request bs =
     (case read_hex_body \<lparr>cn_in = bs, cn_out = []\<rparr> of
        (c, Inl e) \<Rightarrow> None
      | (c, Inr body) \<Rightarrow> Some (bytes_str body, cn_in c))"

definition command_fits :: "string \<Rightarrow> bool" where
  "command_fits command \<longleftrightarrow> length command < 16 ^ 4"

lemma str_bytes_append: "str_bytes (s @ t) = str_bytes s @ str_bytes t"
  by (simp add: str_bytes_def)

lemma length_str_bytes [simp]: "length (str_bytes s) = length s"
  by (simp add: str_bytes_def)

interpretation requests: codec request_bytes read_request command_fits
proof unfold_locales
  fix command rest
  assume fits: "command_fits command"
  then have small: "length command < 16 ^ 4"
    by (simp add: command_fits_def)
  let ?digits = "str_bytes (hex_pad 4 (length command))"
  have len: "length ?digits = 4"
    by simp
  have "request_bytes command @ rest = ?digits @ str_bytes command @ rest"
    using small by (simp add: request_bytes_def hex4_def str_bytes_append)
  then show "read_request (request_bytes command @ rest) = Some (command, rest)"
    using parse_hex_length_pad [OF small] len
    by (simp add: read_request_def read_hex_body_def read_exact_def)
qed

text \<open>Packets of the shell protocol and of sync mode.\<close>

definition shell_enc :: "byte \<times> byte list \<Rightarrow> byte list" where
  "shell_enc p = shell_packet (fst p) (snd p)"

definition read_shell :: "byte list \<Rightarrow> ((byte \<times> byte list) \<times> byte list) option" where
  "read_shell bs =
     (if length bs < 5 then None
      else let n = le_nat (take 4 (drop 1 bs)); rest = drop 5 bs
           in if length rest < n then None else Some ((bs ! 0, take n rest), drop n rest))"

definition payload_fits :: "'a \<times> byte list \<Rightarrow> bool" where
  "payload_fits p \<longleftrightarrow> length (snd p) < 2 ^ 32"

interpretation shell: codec shell_enc read_shell payload_fits
proof unfold_locales
  fix p :: "byte \<times> byte list" and rest
  assume "payload_fits p"
  then show "read_shell (shell_enc p @ rest) = Some (p, rest)"
    using le_nat_le_bytes [of "length (snd p)" 4]
    by (cases p) (simp add: read_shell_def shell_enc_def shell_packet_def payload_fits_def Let_def)
qed

definition sync_enc :: "string \<times> byte list \<Rightarrow> byte list" where
  "sync_enc p = sync_packet (fst p) (snd p)"

definition read_sync :: "byte list \<Rightarrow> ((string \<times> byte list) \<times> byte list) option" where
  "read_sync bs =
     (if length bs < 8 then None
      else let n = le_nat (take 4 (drop 4 bs)); rest = drop 8 bs
           in if length rest < n then None else Some ((bytes_str (take 4 bs), take n rest), drop n rest))"

definition sync_fits :: "string \<times> byte list \<Rightarrow> bool" where
  "sync_fits p \<longleftrightarrow> length (fst p) = 4 \<and> length (snd p) < 2 ^ 32"

interpretation sync: codec sync_enc read_sync sync_fits
proof unfold_locales
  fix p :: "string \<times> byte list" and rest
  assume "sync_fits p"
  then show "read_sync (sync_enc p @ rest) = Some (p, rest)"
    using le_nat_le_bytes [of "length (snd p)" 4]
    by (cases p) (simp add: read_sync_def sync_enc_def sync_packet_def sync_fits_def Let_def)
qed

section \<open>The shell\<close>

definition stream_of :: "byte \<Rightarrow> (byte \<times> byte list) list \<Rightarrow> byte list" where
  "stream_of pid ps = concat (map snd (filter (\<lambda>p. fst p = pid) ps))"

definition sinks_after :: "shell_sinks \<Rightarrow> (byte \<times> byte list) list \<Rightarrow> shell_sinks" where
  "sinks_after sk ps =
     sk\<lparr>sk_stdout := sink_append (sk_stdout sk) (stream_of SHELL_STDOUT ps),
        sk_stderr := sink_append (sk_stderr sk) (stream_of SHELL_STDERR ps)\<rparr>"

lemma shell_loop_read:
  "read_shell bs = Some ((pid, data), rest) \<Longrightarrow>
   shell_loop bs sk =
     (if pid = SHELL_STDOUT then shell_loop rest (sk\<lparr>sk_stdout := sink_append (sk_stdout sk) data\<rparr>)
      else if pid = SHELL_STDERR then shell_loop rest (sk\<lparr>sk_stderr := sink_append (sk_stderr sk) data\<rparr>)
      else if pid = SHELL_EXIT then (sk, Inr (case data of [] \<Rightarrow> None | b # bs \<Rightarrow> Some b))
      else shell_loop rest sk)"
  by (subst shell_loop.simps) (auto simp: read_shell_def Let_def split: if_splits)

lemma sink_append_append: "sink_append (sink_append s a) b = sink_append s (a @ b)"
  by (cases s) (simp_all add: sink_append_def)

lemma sink_append_Nil [simp]: "sink_append s [] = s"
  by (cases s) (simp_all add: sink_append_def)

lemma shell_loop_packets:
  "list_all payload_fits ps \<Longrightarrow> \<forall>p \<in> set ps. fst p \<noteq> SHELL_EXIT \<Longrightarrow>
   shell_loop (concat (map shell_enc ps) @ rest) sk = shell_loop rest (sinks_after sk ps)"
proof (induction ps arbitrary: sk)
  case Nil
  then show ?case
    by (simp add: sinks_after_def stream_of_def)
next
  case (Cons p ps)
  obtain pid data where p: "p = (pid, data)"
    by (cases p)
  have "read_shell (shell_enc p @ concat (map shell_enc ps) @ rest) = Some ((pid, data), concat (map shell_enc ps) @ rest)"
    using shell.read_enc [of p] Cons.prems(1) by (simp add: p)
  from shell_loop_read [OF this] show ?case
    using Cons.IH Cons.prems
    by (auto simp: p sinks_after_def stream_of_def sink_append_append SHELL_STDOUT_def SHELL_STDERR_def)
qed

text \<open>
  The shell protocol keeps the streams of a command apart: whatever the order and sizes of its
  packets, standard output and standard error are exactly the bytes sent on each, in order, packets of
  other kinds are skipped, and the exit status is the byte the device sent.
\<close>

theorem shell_v2_demultiplexes:
  assumes "cn_in c = concat (map shell_enc ps) @ shell_enc (SHELL_EXIT, status # more_bytes) @ rest"
    "list_all payload_fits ps" "\<forall>p \<in> set ps. fst p \<noteq> SHELL_EXIT" "length (status # more_bytes) < 2 ^ 32"
  shows "snd (shell_v2 sk c) =
    (sk\<lparr>sk_stdout := sink_append (sk_stdout sk) (stream_of SHELL_STDOUT ps),
        sk_stderr := sink_append (sk_stderr sk) (stream_of SHELL_STDERR ps)\<rparr>, Inr (Some status))"
proof -
  have "read_shell (shell_enc (SHELL_EXIT, status # more_bytes) @ rest) = Some ((SHELL_EXIT, status # more_bytes), rest)"
    using assms(4) by (intro shell.read_enc) (simp add: payload_fits_def)
  from shell_loop_read [OF this] show ?thesis
    using shell_loop_packets [OF assms(2,3)] assms(1)
    by (simp add: shell_v2_def write_all_def sinks_after_def SHELL_EXIT_def SHELL_STDOUT_def SHELL_STDERR_def)
qed

text \<open>
  A connection that breaks off between packets, or inside a packet header, ends the loop without an
  error: a partial output cannot be told from that of a command on a device without exit statuses.
\<close>

theorem cut_shell_looks_complete:
  assumes "cn_in c = concat (map shell_enc ps) @ partial" "length partial < 5"
    "list_all payload_fits ps" "\<forall>p \<in> set ps. fst p \<noteq> SHELL_EXIT"
  shows "snd (shell_v2 sk c) = (sinks_after sk ps, Inr None)"
  using shell_loop_packets [OF assms(3,4)] assms(1,2)
  by (simp add: shell_v2_def write_all_def shell_loop.simps [of partial])

section \<open>Push and pull\<close>

text \<open>The bytes of the local file as reading it yields them, when reading does not fail.\<close>

fun read_chunks_of :: "read_event list \<Rightarrow> byte list list" where
  "read_chunks_of [] = []"
| "read_chunks_of (Got [] # events) = []"
| "read_chunks_of (Got (b # bs) # events) = (b # bs) # read_chunks_of events"
| "read_chunks_of (Interrupted # events) = read_chunks_of events"
| "read_chunks_of (ReadFailed e # events) = []"

abbreviation data_packets :: "byte list list \<Rightarrow> (string \<times> byte list) list" where
  "data_packets pieces \<equiv> map (\<lambda>chunk. (''DATA'', chunk)) pieces"

lemma push_data_frames:
  "push_data events c = (c', Inr ()) \<Longrightarrow>
   c' = write_all (concat (map sync_enc (data_packets (read_chunks_of events)))) c \<and>
   list_all sync_fits (data_packets (read_chunks_of events))"
proof (induction events c rule: push_data.induct)
  case (3 b bs events c)
  then show ?case
    by (auto simp: sync_request_def write_all_def sync_enc_def sync_fits_def split: if_splits)
qed (auto simp: write_all_def)

lemma pull_loop_data:
  "list_all sync_fits (data_packets pieces) \<Longrightarrow>
   pull_loop (c\<lparr>cn_in := concat (map sync_enc (data_packets pieces)) @ rest\<rparr>) got =
   pull_loop (c\<lparr>cn_in := rest\<rparr>) (got @ concat pieces)"
proof (induction pieces arbitrary: got)
  case (Cons chunk pieces)
  let ?more = "concat (map sync_enc (data_packets pieces)) @ rest"
  have fits: "length chunk < 2 ^ 32"
    using Cons.prems by (simp add: sync_fits_def)
  have front: "sync_enc (''DATA'', chunk) @ ?more = str_bytes ''DATA'' @ le_bytes 4 (length chunk) @ chunk @ ?more"
    by (simp add: sync_enc_def sync_packet_def)
  have "pull_loop (c\<lparr>cn_in := sync_enc (''DATA'', chunk) @ ?more\<rparr>) got =
      pull_loop (c\<lparr>cn_in := ?more\<rparr>) (got @ chunk)"
    unfolding front using le_nat_le_bytes [of "length chunk" 4] fits
    by (subst pull_loop.simps) (simp add: Let_def)
  then show ?case
    using Cons by simp
qed simp

lemma pull_loop_done:
  "pull_loop (c\<lparr>cn_in := str_bytes ''DONE'' @ le_bytes 4 m @ rest\<rparr>) got = (c\<lparr>cn_in := rest\<rparr>, got, Inr ())"
  by (subst pull_loop.simps) (simp add: Let_def str_bytes_def char_byte_def)

lemma adb_request_ok:
  "adb_request command c = (c', Inr ()) \<Longrightarrow> cn_out c' = cn_out c @ request_bytes command"
  by (auto simp: adb_request_def read_exact_def write_all_def split: prod.splits sum.splits if_splits)

lemma sync_session_ok:
  "sync_session serial c = (c', Inr ()) \<Longrightarrow>
   cn_out c' = cn_out c @ request_bytes (''host:transport:'' @ serial) @ request_bytes ''sync:''"
  by (auto simp: sync_session_def transport_def dest!: adb_request_ok split: prod.splits sum.splits)

lemma push_finish_ok:
  "push_finish mtime c = (c', Inr ()) \<Longrightarrow>
   cn_out c' = cn_out c @ str_bytes ''DONE'' @ le_bytes 4 (mtime mod 2 ^ 32) @ sync_enc (''QUIT'', [])"
  by (auto simp: push_finish_def sync_header_def read_exact_def write_all_def sync_quit_def sync_request_def sync_enc_def
      Let_def split: prod.splits sum.splits if_splits)

text \<open>
  C28: what a push sends is what a pull reads. After a push that reports success the device has been
  sent the destination, the local file in packets, the end mark and the goodbye, and nothing else; and
  a device that sends those packets back makes a pull copy out exactly the bytes of the file, chunk
  boundaries and interruptions forgotten.
\<close>

theorem push_pull_roundtrip:
  assumes "push serial input remote mtime c = (c', Inr ())"
  shows "\<exists>packets. cn_out c' = cn_out c @ request_bytes (''host:transport:'' @ serial) @ request_bytes ''sync:'' @
      sync_packet ''SEND'' (str_bytes (remote @ '',0777'')) @ packets @
      str_bytes ''DONE'' @ le_bytes 4 (mtime mod 2 ^ 32) @ sync_packet ''QUIT'' [] \<and>
    (\<forall>d m rest. cn_in d = packets @ str_bytes ''DONE'' @ le_bytes 4 m @ rest \<longrightarrow>
      pull_loop d [] = (d\<lparr>cn_in := rest\<rparr>, concat (read_chunks_of input), Inr ()))"
proof -
  let ?packets = "concat (map sync_enc (data_packets (read_chunks_of input)))"
  obtain c1 c2 c3 where steps: "sync_session serial c = (c1, Inr ())"
    "sync_request ''SEND'' (str_bytes (remote @ '',0777'')) c1 = (c2, Inr ())"
    "push_data input c2 = (c3, Inr ())" "push_finish mtime c3 = (c', Inr ())"
    using assms by (auto simp: push_def PUSH_MODE_def split: prod.splits sum.splits)
  have frames: "c3 = write_all ?packets c2" "list_all sync_fits (data_packets (read_chunks_of input))"
    using push_data_frames [OF steps(3)] by simp_all
  have sent: "cn_out c2 = cn_out c1 @ sync_packet ''SEND'' (str_bytes (remote @ '',0777''))"
    using steps(2) by (auto simp: sync_request_def write_all_def split: if_splits)
  have out: "cn_out c' = cn_out c @ request_bytes (''host:transport:'' @ serial) @ request_bytes ''sync:'' @
      sync_packet ''SEND'' (str_bytes (remote @ '',0777'')) @ ?packets @
      str_bytes ''DONE'' @ le_bytes 4 (mtime mod 2 ^ 32) @ sync_packet ''QUIT'' []"
    using sync_session_ok [OF steps(1)] push_finish_ok [OF steps(4)] sent frames(1)
    by (simp add: write_all_def sync_enc_def)
  have pulled: "pull_loop d [] = (d\<lparr>cn_in := rest\<rparr>, concat (read_chunks_of input), Inr ())"
    if d: "cn_in d = ?packets @ str_bytes ''DONE'' @ le_bytes 4 m @ rest" for d m rest
  proof -
    have "d = d\<lparr>cn_in := ?packets @ str_bytes ''DONE'' @ le_bytes 4 m @ rest\<rparr>"
      using d by simp
    then have "pull_loop d [] = pull_loop (d\<lparr>cn_in := ?packets @ str_bytes ''DONE'' @ le_bytes 4 m @ rest\<rparr>) []"
      by (rule arg_cong)
    then show ?thesis
      using pull_loop_data [OF frames(2), where c = d and got = "[]"] pull_loop_done [where c = d] by simp
  qed
  show ?thesis
    using out pulled by blast
qed

section \<open>Quoting\<close>

text \<open>
  How a POSIX shell reads a word made of quoted pieces: everything up to the next quote of the same
  kind is literal, except that between double quotes a dollar sign, a backquote or a backslash would
  be special; those, and any unquoted character, are not accepted here.
\<close>

datatype quote_state = Bare | Single | Double

fun sh_read :: "quote_state \<Rightarrow> string \<Rightarrow> string option" where
  "sh_read Bare [] = Some []"
| "sh_read Single [] = None"
| "sh_read Double [] = None"
| "sh_read Bare (c # cs) =
     (if c = CHR 0x27 then sh_read Single cs else if c = CHR 0x22 then sh_read Double cs else None)"
| "sh_read Single (c # cs) = (if c = CHR 0x27 then sh_read Bare cs else map_option ((#) c) (sh_read Single cs))"
| "sh_read Double (c # cs) =
     (if c = CHR 0x22 then sh_read Bare cs
      else if c \<in> {CHR ''$'', CHR 0x60, CHR 0x5C} then None
      else map_option ((#) c) (sh_read Double cs))"

lemma sh_read_quoted: "sh_read Single (quote_chars v @ [CHR 0x27]) = Some v"
  by (induction v) auto

text \<open>
  A quoted argument cannot escape its quotes: whatever the value, quotes, spaces and command
  separators included, the shell of the device reads the quoted form as one word, which is the value.
\<close>

theorem quoted_argument_is_one_word: "sh_read Bare (quote_device_shell_arg v) = Some v"
  by (simp add: quote_device_shell_arg_def sh_read_quoted)

section \<open>Commands that do not fit\<close>

lemma hex_lower_pad: "16 ^ k \<le> n \<Longrightarrow> n < 16 ^ Suc k \<Longrightarrow> hex_lower n = hex_pad (Suc k) n"
proof (induction k arbitrary: n)
  case 0
  then show ?case
    by (subst hex_lower.simps) simp
next
  case (Suc k)
  have "16 ^ k \<le> n div 16" "n div 16 < 16 ^ Suc k"
    using Suc.prems by (simp_all add: less_mult_imp_div_less mult.commute less_eq_div_iff_mult_less_eq)
  then have "hex_lower (n div 16) = hex_pad (Suc k) (n div 16)"
    by (rule Suc.IH)
  moreover have "16 \<le> n"
    using Suc.prems(1) by (simp add: order_trans [rotated])
  ultimately show ?case
    by (subst hex_lower.simps) simp
qed

text \<open>
  The length field has room for four digits. A longer command is announced with a fifth, and the server
  takes the first four for the length: it sees another, shorter command and leaves the rest in the
  stream.
\<close>

theorem long_commands_misframed:
  assumes "16 ^ 4 \<le> length command" "length command < 16 ^ 5"
  shows "\<exists>seen left. read_request (request_bytes command) = Some (seen, left) \<and>
    length seen = length command div 16 \<and> left \<noteq> []"
proof -
  let ?n = "length command"
  have "hex4 ?n = hex_lower ?n"
    using assms(1) by (simp add: hex4_def)
  also have "\<dots> = hex_pad 4 (?n div 16) @ [hex_digit (?n mod 16)]"
    using hex_lower_pad [of 4 ?n] assms hex_pad.simps(2) [of 4 ?n] by simp
  finally have sent: "request_bytes command =
      str_bytes (hex_pad 4 (?n div 16)) @ str_bytes (hex_digit (?n mod 16) # command)"
    by (simp add: request_bytes_def str_bytes_def)
  have "parse_hex_length (str_bytes (hex_pad 4 (?n div 16))) = Some (?n div 16)"
    using assms(2) by (intro parse_hex_length_pad) simp
  moreover have "length (str_bytes (hex_pad 4 (?n div 16))) = 4"
    by simp
  moreover have "?n div 16 < Suc ?n"
    using div_le_dividend [of ?n 16] by linarith
  ultimately show ?thesis
    unfolding sent
    by (simp add: read_request_def read_hex_body_def read_exact_def bytes_str_def str_bytes_def)
qed

section \<open>Instances\<close>

definition sample_packets :: "(byte \<times> byte list) list" where
  "sample_packets = [(SHELL_STDOUT, [0x6F]), (SHELL_STDERR, [0x65]), (9, [1, 2]), (SHELL_STDOUT, [0x6B])]"

lemma shell_v2_demultiplexes_witness:
  "snd (shell_v2 \<lparr>sk_stdout = Some [], sk_stderr = Some []\<rparr>
     \<lparr>cn_in = concat (map shell_enc sample_packets) @ shell_enc (SHELL_EXIT, [3]), cn_out = []\<rparr>) =
   (\<lparr>sk_stdout = Some [0x6F, 0x6B], sk_stderr = Some [0x65]\<rparr>, Inr (Some 3))"
  using shell_v2_demultiplexes [of "\<lparr>cn_in = concat (map shell_enc sample_packets) @ shell_enc (SHELL_EXIT, [3]), cn_out = []\<rparr>"
      sample_packets 3 "[]" "[]" "\<lparr>sk_stdout = Some [], sk_stderr = Some []\<rparr>"]
  by (simp add: sample_packets_def payload_fits_def stream_of_def sink_append_def SHELL_STDOUT_def SHELL_STDERR_def SHELL_EXIT_def)

definition obliging_server :: adb_conn where
  "obliging_server = \<lparr>cn_in = OKAY @ OKAY @ OKAY @ [0, 0, 0, 0], cn_out = []\<rparr>"

definition sample_file :: "read_event list" where
  "sample_file = [Got [1, 2], Interrupted, Got [3]]"

lemma push_pull_roundtrip_witness:
  "\<exists>c' packets. push ''s'' sample_file ''/a'' 7 obliging_server = (c', Inr ()) \<and>
    (\<forall>d m rest. cn_in d = packets @ str_bytes ''DONE'' @ le_bytes 4 m @ rest \<longrightarrow>
      pull_loop d [] = (d\<lparr>cn_in := rest\<rparr>, [1, 2, 3], Inr ()))"
proof -
  have "length OKAY = 4"
    by (simp add: OKAY_def)
  then obtain c' where pushed: "push ''s'' sample_file ''/a'' 7 obliging_server = (c', Inr ())"
    by (simp add: push_def sync_session_def transport_def adb_request_def read_exact_def write_all_def obliging_server_def
        sync_request_def sample_file_def push_finish_def sync_header_def PUSH_MODE_def)
  have "concat (read_chunks_of sample_file) = [1, 2, 3]"
    by (simp add: sample_file_def)
  then show ?thesis
    using push_pull_roundtrip [OF pushed] pushed by metis
qed

end
