(* ===== verification/Prog.thy ===== *)
theory Prog
  imports ReplayKey
begin

text \<open>
  Programs with a state that may fail: the shape of the fault commands, which read and change a
  device, keep a journal, and stop at the first error. \<open>step\<close> is the question mark of the code, and
  \<open>attempt\<close> runs a program for its effects and hands its result over, error or not.

  A triple \<open>spec P p Q\<close> says of every run from a state with \<open>P\<close> what holds of the state and the result
  after it. The rules below take a program apart the way it was put together.
\<close>

type_synonym ('w, 'a) prog = "'w \<Rightarrow> 'w \<times> 'a outcome"

definition give :: "'a \<Rightarrow> ('w, 'a) prog" where
  "give a w = (w, Inr a)"

definition stop :: "string \<Rightarrow> ('w, 'a) prog" where
  "stop e w = (w, Inl e)"

definition step :: "('w, 'a) prog \<Rightarrow> ('a \<Rightarrow> ('w, 'b) prog) \<Rightarrow> ('w, 'b) prog" where
  "step p k w = (case p w of (w', Inl e) \<Rightarrow> (w', Inl e) | (w', Inr a) \<Rightarrow> k a w')"

definition attempt :: "('w, 'a) prog \<Rightarrow> ('a outcome \<Rightarrow> ('w, 'b) prog) \<Rightarrow> ('w, 'b) prog" where
  "attempt p k w = (let (w', r) = p w in k r w')"

definition look :: "('w \<Rightarrow> 'a) \<Rightarrow> ('w, 'a) prog" where
  "look f w = (w, Inr (f w))"

definition alter :: "('w \<Rightarrow> 'w) \<Rightarrow> ('w, unit) prog" where
  "alter f w = (f w, Inr ())"

text \<open>An outcome computed without touching the state, and a program for its effect only.\<close>

definition lift :: "'a outcome \<Rightarrow> ('w, 'a) prog" where
  "lift r w = (w, r)"

definition need :: "string \<Rightarrow> 'a option \<Rightarrow> ('w, 'a) prog" where
  "need e v = (case v of None \<Rightarrow> stop e | Some a \<Rightarrow> give a)"

fun each :: "('x \<Rightarrow> ('w, unit) prog) \<Rightarrow> 'x list \<Rightarrow> ('w, unit) prog" where
  "each f [] = give ()"
| "each f (x # xs) = step (f x) (\<lambda>u. each f xs)"

section \<open>Evaluation\<close>

lemma run_give [simp]: "give a w = (w, Inr a)"
  by (simp add: give_def)

lemma run_stop [simp]: "stop e w = (w, Inl e)"
  by (simp add: stop_def)

lemma run_look [simp]: "look f w = (w, Inr (f w))"
  by (simp add: look_def)

lemma run_alter [simp]: "alter f w = (f w, Inr ())"
  by (simp add: alter_def)

lemma run_lift [simp]: "lift r w = (w, r)"
  by (simp add: lift_def)

lemma run_step_ok: "p w = (w', Inr a) \<Longrightarrow> step p k w = k a w'"
  by (simp add: step_def)

lemma run_step_err: "p w = (w', Inl e) \<Longrightarrow> step p k w = (w', Inl e)"
  by (simp add: step_def)

lemma step_give [simp]: "step (give a) k = k a"
  by (simp add: step_def fun_eq_iff)

lemma step_stop [simp]: "step (stop e) k = stop e"
  by (simp add: step_def fun_eq_iff)

lemma step_look [simp]: "step (look f) k w = k (f w) w"
  by (simp add: step_def)

lemma step_alter [simp]: "step (alter f) k w = k () (f w)"
  by (simp add: step_def)

lemma step_assoc: "step (step p f) k = step p (\<lambda>a. step (f a) k)"
  by (simp add: step_def fun_eq_iff split: prod.splits sum.splits)

lemma need_simps [simp]: "need e None = stop e" "need e (Some a) = give a"
  by (simp_all add: need_def)

lemma step_Inr:
  "step p k w = (w'', Inr b) \<longleftrightarrow> (\<exists>w' a. p w = (w', Inr a) \<and> k a w' = (w'', Inr b))"
  by (auto simp: step_def split: prod.splits sum.splits)

section \<open>Triples\<close>

definition spec :: "('w \<Rightarrow> bool) \<Rightarrow> ('w, 'a) prog \<Rightarrow> ('a outcome \<Rightarrow> 'w \<Rightarrow> bool) \<Rightarrow> bool" where
  "spec P p Q \<longleftrightarrow> (\<forall>w. P w \<longrightarrow> Q (snd (p w)) (fst (p w)))"

lemma specI: "(\<And>w. P w \<Longrightarrow> Q (snd (p w)) (fst (p w))) \<Longrightarrow> spec P p Q"
  by (simp add: spec_def)

lemma specD: "spec P p Q \<Longrightarrow> P w \<Longrightarrow> p w = (w', r) \<Longrightarrow> Q r w'"
  unfolding spec_def by (metis fst_conv snd_conv)

lemma spec_step:
  assumes "spec P p (\<lambda>r w. case r of Inl e \<Rightarrow> R (Inl e) w | Inr a \<Rightarrow> Q a w)"
    "\<And>a. spec (Q a) (k a) R"
  shows "spec P (step p k) R"
proof (rule specI)
  fix w
  assume P: "P w"
  obtain w' r where p: "p w = (w', r)"
    by (cases "p w")
  then have q: "case r of Inl e \<Rightarrow> R (Inl e) w' | Inr a \<Rightarrow> Q a w'"
    using specD [OF assms(1) P p] by simp
  show "R (snd (step p k w)) (fst (step p k w))"
  proof (cases r)
    case (Inl e)
    then show ?thesis
      using p q by (simp add: step_def)
  next
    case (Inr a)
    then have "Q a w'"
      using q by simp
    then have "R (snd (k a w')) (fst (k a w'))"
      using assms(2) [of a] by (simp add: spec_def)
    then show ?thesis
      using p Inr by (simp add: step_def)
  qed
qed

text \<open>A predicate a program keeps, whatever its result; the calculus of invariants.\<close>

named_theorems keep_intros \<open>programs that keep an invariant\<close>

definition keeps :: "('w \<Rightarrow> bool) \<Rightarrow> ('w, 'a) prog \<Rightarrow> bool" where
  "keeps I p \<longleftrightarrow> (\<forall>w. I w \<longrightarrow> I (fst (p w)))"

lemma keepsI: "(\<And>w. I w \<Longrightarrow> I (fst (p w))) \<Longrightarrow> keeps I p"
  by (simp add: keeps_def)

lemma keepsD: "keeps I p \<Longrightarrow> I w \<Longrightarrow> p w = (w', r) \<Longrightarrow> I w'"
  unfolding keeps_def by (metis fst_conv)

lemma keeps_give [keep_intros]: "keeps I (give a)"
  by (simp add: keeps_def)

lemma keeps_stop [keep_intros]: "keeps I (stop e)"
  by (simp add: keeps_def)

lemma keeps_look [keep_intros]: "keeps I (look f)"
  by (simp add: keeps_def)

lemma keeps_lift [keep_intros]: "keeps I (lift r)"
  by (simp add: keeps_def)

lemma keeps_need [keep_intros]: "keeps I (need e v)"
  by (cases v) (simp_all add: keeps_def)

lemma keeps_step [keep_intros]: "keeps I p \<Longrightarrow> (\<And>a. keeps I (k a)) \<Longrightarrow> keeps I (step p k)"
  by (fastforce simp: keeps_def step_def split: prod.splits sum.splits)

lemma keeps_attempt [keep_intros]: "keeps I p \<Longrightarrow> (\<And>r. keeps I (k r)) \<Longrightarrow> keeps I (attempt p k)"
  by (fastforce simp: keeps_def attempt_def Let_def split: prod.splits)

lemma keeps_if [keep_intros]: "(c \<Longrightarrow> keeps I p) \<Longrightarrow> (\<not> c \<Longrightarrow> keeps I q) \<Longrightarrow> keeps I (if c then p else q)"
  by simp

lemma keeps_option [keep_intros]:
  "(v = None \<Longrightarrow> keeps I p) \<Longrightarrow> (\<And>a. v = Some a \<Longrightarrow> keeps I (q a)) \<Longrightarrow>
   keeps I (case v of None \<Rightarrow> p | Some a \<Rightarrow> q a)"
  by (cases v) simp_all

lemma keeps_sum [keep_intros]:
  "(\<And>e. v = Inl e \<Longrightarrow> keeps I (p e)) \<Longrightarrow> (\<And>a. v = Inr a \<Longrightarrow> keeps I (q a)) \<Longrightarrow>
   keeps I (case v of Inl e \<Rightarrow> p e | Inr a \<Rightarrow> q a)"
  by (cases v) simp_all

lemma keeps_prod [keep_intros]:
  "(\<And>a b. v = (a, b) \<Longrightarrow> keeps I (p a b)) \<Longrightarrow> keeps I (case v of (a, b) \<Rightarrow> p a b)"
  by (cases v) simp

lemma keeps_let [keep_intros]: "(\<And>a. keeps I (p a)) \<Longrightarrow> keeps I (let a = v in p a)"
  by (simp add: Let_def)

lemma keeps_each [keep_intros]: "(\<And>x. keeps I (f x)) \<Longrightarrow> keeps I (each f xs)"
  by (induction xs) (auto intro: keep_intros)

end
