(* ===== verification/FaultDevice.thy ===== *)
theory FaultDevice
  imports Prog AdbWire
begin

text \<open>
  What the fault commands do to a device (\<^verbatim>\<open>fault/device.rs\<close>), the steps that undo a fault
  (\<^verbatim>\<open>fault/restore.rs\<close>) and the record of a fault with its journal (\<^verbatim>\<open>fault/journal.rs\<close>).

  Everything outside this process is one value of type \<open>'d\<close>: the device, the emulator, the proxy, the
  clock and the disk. What the code asks of it are the functions of a \<open>fault_ext\<close>. A shell command
  yields its raw output or an error; the emulator console its text and whether the tool succeeded.
  Time passes only in \<open>fx_sleep\<close> and in those calls.

  The world of a command adds the journal file of the device, the history, and the recorder of the
  injection under way. It also keeps a list the code has no counterpart of: for every change made to
  the device, the journal file as it stood then (\<open>fw_trace\<close>).
\<close>

section \<open>Strings\<close>

text \<open>Splitting at a nonempty string: at its first occurrence, its last, and everywhere.\<close>

fun find_str :: "string \<Rightarrow> string \<Rightarrow> (string \<times> string) option" where
  "find_str n [] = None"
| "find_str n (c # cs) =
     (if starts_with (c # cs) n then Some ([], drop (length n) (c # cs))
      else map_option (\<lambda>(a, b). (c # a, b)) (find_str n cs))"

fun rfind_str :: "string \<Rightarrow> string \<Rightarrow> (string \<times> string) option" where
  "rfind_str n [] = None"
| "rfind_str n (c # cs) =
     (case rfind_str n cs of
        Some (a, b) \<Rightarrow> Some (c # a, b)
      | None \<Rightarrow> if starts_with (c # cs) n then Some ([], drop (length n) (c # cs)) else None)"

lemma find_str_shorter: "find_str n s = Some (a, b) \<Longrightarrow> length b + length n \<le> length s"
proof (induction n s arbitrary: a rule: find_str.induct)
  case (2 n c cs)
  show ?case
  proof (cases "starts_with (c # cs) n")
    case True
    then have "length n \<le> length (c # cs)"
      unfolding starts_with_def by (metis length_take min.cobounded1)
    then show ?thesis
      using 2(2) True by auto
  next
    case False
    then show ?thesis
      using 2 by fastforce
  qed
qed simp

function split_str :: "string \<Rightarrow> string \<Rightarrow> string list" where
  "split_str n s =
     (if n = [] then [s] else case find_str n s of None \<Rightarrow> [s] | Some (a, b) \<Rightarrow> a # split_str n b)"
  by pat_completeness auto
termination
proof (relation "measure (\<lambda>(n, s). length s)", goal_cases)
  case (2 n s p a b)
  then show ?case
    using find_str_shorter [of n s a b] by (cases n) auto
qed simp

declare split_str.simps [simp del]

definition replace_str :: "string \<Rightarrow> string \<Rightarrow> string \<Rightarrow> string" where
  "replace_str n r s = join_with r (split_str n s)"

definition nth_opt :: "nat \<Rightarrow> 'a list \<Rightarrow> 'a option" where
  "nth_opt n xs = (if n < length xs then Some (xs ! n) else None)"

text \<open>\<open>str::split_whitespace\<close>, \<open>str::trim_start\<close> and \<open>str::trim_end\<close>.\<close>

fun word_chars :: "nat list \<Rightarrow> nat list \<Rightarrow> nat list list" where
  "word_chars w [] = (if w = [] then [] else [rev w])"
| "word_chars w (c # cs) =
     (if char_is_whitespace c then (if w = [] then word_chars [] cs else rev w # word_chars [] cs)
      else word_chars (c # w) cs)"

definition split_whitespace :: "string \<Rightarrow> string list" where
  "split_whitespace s = map chars_str (word_chars [] (str_chars s))"

definition trim_start :: "string \<Rightarrow> string" where
  "trim_start s = chars_str (dropWhile char_is_whitespace (str_chars s))"

definition trim_end :: "string \<Rightarrow> string" where
  "trim_end s = chars_str (rev (dropWhile char_is_whitespace (rev (str_chars s))))"

text \<open>\<open>str::parse::<i32>\<close>.\<close>

definition parse_i32 :: "string \<Rightarrow> int option" where
  "parse_i32 s =
     (case s of
        c # ds \<Rightarrow>
          if c = CHR ''-'' then
            (if starts_with ds ''+'' then None
             else case parse_unsigned 32 ds of Some n \<Rightarrow> if n \<le> 2 ^ 31 then Some (- int n) else None | None \<Rightarrow> None)
          else (case parse_unsigned 31 s of Some n \<Rightarrow> Some (int n) | None \<Rightarrow> None)
      | [] \<Rightarrow> None)"

section \<open>Records of faults\<close>

record fault_check =
  vf_command :: string
  vf_contains :: string

datatype restore_step =
    SettingBack string string "string option"
  | ShellBack string string "fault_check option"
  | EmuBack "string list" string
  | ClockBack nat nat
  | KillPids string
  | RemoveFile string
  | ProxyFaultBack string

datatype fault_state = FaultActive | FaultRestoreFailed

record fault_record =
  ft_id :: string
  ft_kind :: string
  ft_device :: string
  ft_app :: "string option"
  ft_params :: json
  ft_state :: fault_state
  ft_injected_at_ms :: nat
  ft_expires_at_ms :: "nat option"
  ft_observed :: json
  ft_restore :: "restore_step list"
  ft_resources :: "string list"
  ft_expiry_pid :: "nat option"
  ft_restore_errors :: "json list"

text \<open>The journal file: absent, a list of faults, or bytes that do not parse.\<close>

datatype journal_file = NoJournal | Faults "fault_record list" | Garbled

section \<open>The world\<close>

record 'd fault_ext =
  fx_serial :: string
  fx_shell :: "string \<Rightarrow> 'd \<Rightarrow> 'd \<times> string outcome"
  fx_console :: "string list \<Rightarrow> 'd \<Rightarrow> 'd \<times> (string \<times> bool) outcome"
  fx_avd_name :: "'d \<Rightarrow> string option"
  fx_devices :: "'d \<Rightarrow> 'd \<times> (string \<times> string) list outcome"
  fx_launch_avd :: "string \<Rightarrow> bool \<Rightarrow> 'd \<Rightarrow> 'd \<times> string outcome"
  fx_release :: "'d \<Rightarrow> 'd \<times> unit outcome"
  fx_sleep :: "nat \<Rightarrow> 'd \<Rightarrow> 'd"
  fx_now :: "'d \<Rightarrow> nat"
  fx_new_id :: "'d \<Rightarrow> 'd \<times> string"
  fx_proxy_running :: "'d \<Rightarrow> bool"
  fx_control :: "json \<Rightarrow> 'd \<Rightarrow> 'd \<times> json outcome"
  fx_readable :: "'d \<Rightarrow> bool"
  fx_writable :: "'d \<Rightarrow> bool"
  fx_spawn_timer :: "string \<Rightarrow> nat \<Rightarrow> 'd \<Rightarrow> 'd \<times> nat outcome"
  fx_stop_timer :: "nat \<Rightarrow> string \<Rightarrow> 'd \<Rightarrow> 'd"
  fx_float :: "string \<Rightarrow> rat option"
  fx_show_float :: "rat \<Rightarrow> string"

datatype device_change =
    ShellChange string
  | ConsoleChange "string list"
  | ProxyChange json

record 'd fault_world =
  fw_dev :: 'd
  fw_file :: journal_file
  fw_events :: "json list"
  fw_record :: fault_record
  fw_recorded :: bool
  fw_trace :: "(device_change \<times> journal_file) list"

type_synonym ('d, 'a) fault_prog = "('d fault_world, 'a) prog"

text \<open>Asking the outside world, with and without the mark of a change.\<close>

definition outside :: "('d \<Rightarrow> 'd \<times> 'a outcome) \<Rightarrow> ('d, 'a) fault_prog" where
  "outside f w = (let (d, r) = f (fw_dev w) in (w\<lparr>fw_dev := d\<rparr>, r))"

definition changing :: "device_change \<Rightarrow> ('d \<Rightarrow> 'd \<times> 'a outcome) \<Rightarrow> ('d, 'a) fault_prog" where
  "changing c f w = outside f (w\<lparr>fw_trace := fw_trace w @ [(c, fw_file w)]\<rparr>)"

definition pause_ms :: "'d fault_ext \<Rightarrow> nat \<Rightarrow> ('d, unit) fault_prog" where
  "pause_ms fx ms = outside (\<lambda>d. (fx_sleep fx ms d, Inr ()))"

definition now_ms :: "'d fault_ext \<Rightarrow> ('d, nat) fault_prog" where
  "now_ms fx = look (\<lambda>w. fx_now fx (fw_dev w))"

section \<open>Shell commands\<close>

definition RC_MARKER :: string where "RC_MARKER = ''__SD_RC=''"

definition wrap_command :: "string \<Rightarrow> string" where
  "wrap_command command = ''{ '' @ command @ [CHR 0x0A] @ ''} 2>&1; echo '' @ RC_MARKER @ ''$?''"

record ran =
  rn_status :: int
  rn_output :: string

definition ran_ok :: "ran \<Rightarrow> bool" where
  "ran_ok r \<longleftrightarrow> rn_status r = 0"

definition unwrap_ran :: "string \<Rightarrow> ran outcome" where
  "unwrap_ran raw =
     (case rfind_str RC_MARKER raw of
        None \<Rightarrow> Inl ''device shell ended without reporting a status''
      | Some (before, after) \<Rightarrow>
          (case parse_i32 (str_trim after) of
             None \<Rightarrow> Inl ''parse device shell status''
           | Some status \<Rightarrow> Inr \<lparr>rn_status = status, rn_output = trim_end before\<rparr>))"

definition dev_run :: "'d fault_ext \<Rightarrow> string \<Rightarrow> ('d, ran) fault_prog" where
  "dev_run fx command =
     step (changing (ShellChange command) (fx_shell fx (wrap_command command))) (\<lambda>raw. lift (unwrap_ran raw))"

definition dev_read :: "'d fault_ext \<Rightarrow> string \<Rightarrow> ('d, ran) fault_prog" where
  "dev_read fx command =
     step (outside (fx_shell fx (wrap_command command))) (\<lambda>raw. lift (unwrap_ran raw))"

definition ran_output :: "ran \<Rightarrow> string outcome" where
  "ran_output r = (if ran_ok r then Inr (rn_output r) else Inl ''device command failed'')"

definition run_ok :: "'d fault_ext \<Rightarrow> string \<Rightarrow> ('d, string) fault_prog" where
  "run_ok fx command = step (dev_run fx command) (\<lambda>r. lift (ran_output r))"

definition read_ok :: "'d fault_ext \<Rightarrow> string \<Rightarrow> ('d, string) fault_prog" where
  "read_ok fx command = step (dev_read fx command) (\<lambda>r. lift (ran_output r))"

abbreviation quoted :: "string \<Rightarrow> string" where
  "quoted \<equiv> quote_device_shell_arg"

definition get_setting :: "'d fault_ext \<Rightarrow> string \<Rightarrow> string \<Rightarrow> ('d, string option) fault_prog" where
  "get_setting fx namespace key =
     step (read_ok fx (''settings get '' @ namespace @ '' '' @ quoted key)) (\<lambda>output.
     let value = str_trim output in give (if value \<noteq> ''null'' then Some value else None))"

definition put_setting :: "'d fault_ext \<Rightarrow> string \<Rightarrow> string \<Rightarrow> string option \<Rightarrow> ('d, unit) fault_prog" where
  "put_setting fx namespace key value =
     step (run_ok fx
       (case value of
          Some v \<Rightarrow> ''settings put '' @ namespace @ '' '' @ quoted key @ '' '' @ quoted v
        | None \<Rightarrow> ''settings delete '' @ namespace @ '' '' @ quoted key)) (\<lambda>u.
     step (get_setting fx namespace key) (\<lambda>now.
     if now \<noteq> value then stop ''the setting reads differently after writing'' else give ()))"

definition device_sdk :: "'d fault_ext \<Rightarrow> ('d, nat) fault_prog" where
  "device_sdk fx =
     step (read_ok fx ''getprop ro.build.version.sdk'') (\<lambda>output.
     need ''read the device API level'' (parse_unsigned 32 (str_trim output)))"

definition is_emulator :: "'d fault_ext \<Rightarrow> ('d, bool) fault_prog" where
  "is_emulator fx = look (\<lambda>w. fx_avd_name fx (fw_dev w) \<noteq> None)"

definition pid_of :: "'d fault_ext \<Rightarrow> string \<Rightarrow> ('d, nat option) fault_prog" where
  "pid_of fx package =
     step (dev_read fx (''pidof '' @ quoted package)) (\<lambda>r.
     give (Option.bind (nth_opt 0 (split_whitespace (rn_output r))) (parse_unsigned 32)))"

definition console_reply :: "string \<times> bool \<Rightarrow> string outcome" where
  "console_reply reply =
     (let (text, success) = reply in
      if list_ex (\<lambda>line. starts_with line ''KO'') (str_lines text) then Inl ''emulator console refused''
      else if \<not> success then Inl ''emulator console failed''
      else Inr (join_with [CHR 0x0A] (filter (\<lambda>line. str_trim line \<noteq> ''OK'') (str_lines text))))"

definition emu :: "'d fault_ext \<Rightarrow> string list \<Rightarrow> ('d, string) fault_prog" where
  "emu fx args = step (changing (ConsoleChange args) (fx_console fx args)) (\<lambda>reply. lift (console_reply reply))"

end
