(* ===== verification/FaultRestore.thy ===== *)
theory FaultRestore
  imports FaultDevice
begin

text \<open>
  Undoing a fault (\<^verbatim>\<open>fault/restore.rs\<close>, and \<open>remove\<close> of \<^verbatim>\<open>fault/proxy.rs\<close>), the journal of a device
  (\<^verbatim>\<open>fault/journal.rs\<close>) and the recorder that writes a plan to it before anything changes
  (\<^verbatim>\<open>Recorder\<close> of \<^verbatim>\<open>fault/mod.rs\<close>).
\<close>

section \<open>Reading the clocks\<close>

definition jget :: "string \<Rightarrow> json \<Rightarrow> json" where
  "jget key j = (case j of JObj kvs \<Rightarrow> (case map_of kvs key of Some v \<Rightarrow> v | None \<Rightarrow> JNull) | _ \<Rightarrow> JNull)"

definition json_str :: "json \<Rightarrow> string option" where
  "json_str j = (case j of JStr s \<Rightarrow> Some s | _ \<Rightarrow> None)"

text \<open>\<open>as u64\<close> of a floating-point number saturates.\<close>

definition rat_u64 :: "rat \<Rightarrow> nat" where
  "rat_u64 q = min (nat \<lfloor>q\<rfloor>) (2 ^ 64 - 1)"

definition uptime_ms_now :: "'d fault_ext \<Rightarrow> ('d, nat) fault_prog" where
  "uptime_ms_now fx =
     step (read_ok fx ''cat /proc/uptime'') (\<lambda>text.
     step (need ''unreadable /proc/uptime''
       (fx_float fx (case nth_opt 0 (split_whitespace text) of Some w \<Rightarrow> w | None \<Rightarrow> []))) (\<lambda>seconds.
     give (rat_u64 (seconds * 1000))))"

definition device_epoch_ms :: "'d fault_ext \<Rightarrow> ('d, nat) fault_prog" where
  "device_epoch_ms fx =
     step (read_ok fx ''date +%s'') (\<lambda>text.
     step (need ''unreadable device date'' (parse_unsigned 64 (str_trim text))) (\<lambda>seconds.
     give (seconds * 1000 mod 2 ^ 64)))"

definition abs_diff :: "nat \<Rightarrow> nat \<Rightarrow> nat" where
  "abs_diff a b = (if a < b then b - a else a - b)"

section \<open>Waiting\<close>

text \<open>
  \<open>wait_for\<close> reads until the output shows what is expected or five seconds have passed. Its loop takes
  an iteration of fuel for every poll that fits, and one more.
\<close>

definition WAIT_MS :: nat where "WAIT_MS = 5000"
definition POLL_MS :: nat where "POLL_MS = 250"

fun wait_loop :: "'d fault_ext \<Rightarrow> fault_check \<Rightarrow> nat \<Rightarrow> nat \<Rightarrow> ('d, unit) fault_prog" where
  "wait_loop fx check deadline 0 = stop ''out of fuel''"
| "wait_loop fx check deadline (Suc fuel) =
     step (dev_read fx (vf_command check)) (\<lambda>r.
     if str_contains (rn_output r) (vf_contains check) then give ()
     else step (now_ms fx) (\<lambda>now.
       if deadline \<le> now then stop ''the check did not show what was expected''
       else step (pause_ms fx POLL_MS) (\<lambda>u. wait_loop fx check deadline fuel)))"

definition wait_for :: "'d fault_ext \<Rightarrow> fault_check \<Rightarrow> ('d, unit) fault_prog" where
  "wait_for fx check =
     step (now_ms fx) (\<lambda>now. wait_loop fx check (now + WAIT_MS) (WAIT_MS div POLL_MS + 1))"

section \<open>Restore steps\<close>

fun describe :: "restore_step \<Rightarrow> string" where
  "describe (SettingBack namespace key (Some value)) =
     ''set '' @ namespace @ '' setting '' @ key @ '' back to '' @ value"
| "describe (SettingBack namespace key None) =
     ''delete '' @ namespace @ '' setting '' @ key @ '' (it was unset)''"
| "describe (ShellBack command d check) = d"
| "describe (EmuBack args d) = d"
| "describe (ClockBack epoch_ms uptime_ms) = ''set the clock back to the true time''"
| "describe (KillPids dir) = ''stop the background processes recorded in '' @ dir"
| "describe (RemoveFile path) = ''delete '' @ path"
| "describe (ProxyFaultBack fid) = ''remove proxy fault '' @ fid"

definition proxy_remove :: "'d fault_ext \<Rightarrow> string \<Rightarrow> ('d, unit) fault_prog" where
  "proxy_remove fx fid =
     step (look (\<lambda>w. fx_proxy_running fx (fw_dev w))) (\<lambda>running.
     if \<not> running then give ()
     else
       let request = jobj [(''op'', JStr ''fault_remove''), (''id'', JStr fid)]
       in step (changing (ProxyChange request) (fx_control fx request)) (\<lambda>reply.
          if jget ''ok'' reply \<noteq> JBool True then stop ''the proxy did not remove the fault'' else give ()))"

definition restore_clock :: "'d fault_ext \<Rightarrow> nat \<Rightarrow> nat \<Rightarrow> ('d, unit) fault_prog" where
  "restore_clock fx epoch_ms uptime_ms =
     step (uptime_ms_now fx) (\<lambda>now_uptime.
     let true_now = u64_add epoch_ms (now_uptime - uptime_ms)
     in step (run_ok fx (''cmd alarm set-time '' @ dec_digits true_now)) (\<lambda>u.
        step (device_epoch_ms fx) (\<lambda>device_now.
        if abs_diff device_now true_now > 10000 then stop ''the clock reads differently after being set'' else give ())))"

definition kill_command :: "string \<Rightarrow> string" where
  "kill_command dir =
     ''for f in '' @ dir @ ''/*.pid; do [ -f \"$f\" ] && kill $(cat \"$f\") 2>/dev/null; done; rm -rf '' @ dir"

fun restore_apply :: "'d fault_ext \<Rightarrow> restore_step \<Rightarrow> ('d, unit) fault_prog" where
  "restore_apply fx (SettingBack namespace key value) = put_setting fx namespace key value"
| "restore_apply fx (ShellBack command d check) =
     step (run_ok fx command) (\<lambda>u. case check of Some c \<Rightarrow> wait_for fx c | None \<Rightarrow> give ())"
| "restore_apply fx (EmuBack args d) = step (emu fx args) (\<lambda>reply. give ())"
| "restore_apply fx (ClockBack epoch_ms uptime_ms) = restore_clock fx epoch_ms uptime_ms"
| "restore_apply fx (KillPids dir) = step (run_ok fx (kill_command (quoted dir))) (\<lambda>output. give ())"
| "restore_apply fx (RemoveFile path) = step (run_ok fx (''rm -f '' @ quoted path)) (\<lambda>output. give ())"
| "restore_apply fx (ProxyFaultBack fid) = proxy_remove fx fid"

text \<open>Run every step of a plan, whatever the ones before it did; the result is what failed.\<close>

fun apply_plan :: "'d fault_ext \<Rightarrow> restore_step list \<Rightarrow> ('d, json list) fault_prog" where
  "apply_plan fx [] = give []"
| "apply_plan fx (s # plan) =
     attempt (restore_apply fx s) (\<lambda>r.
     step (apply_plan fx plan) (\<lambda>errors.
     give (case r of
         Inl e \<Rightarrow> jobj [(''step'', JStr (describe s)), (''error'', JStr e)] # errors
       | Inr u \<Rightarrow> errors)))"

section \<open>The journal\<close>

definition journal_load :: "'d fault_ext \<Rightarrow> ('d, fault_record list) fault_prog" where
  "journal_load fx w =
     (w, if \<not> fx_readable fx (fw_dev w) then Inl ''read fault journal''
         else case fw_file w of
             NoJournal \<Rightarrow> Inr []
           | Faults fs \<Rightarrow> Inr fs
           | Garbled \<Rightarrow> Inl ''parse fault journal'')"

definition journal_save :: "'d fault_ext \<Rightarrow> fault_record list \<Rightarrow> ('d, unit) fault_prog" where
  "journal_save fx faults w =
     (if faults = [] then
        if fw_file w = NoJournal then (w, Inr ())
        else if fx_writable fx (fw_dev w) then (w\<lparr>fw_file := NoJournal\<rparr>, Inr ())
        else (w, Inl ''remove the fault journal'')
      else if fx_writable fx (fw_dev w) then (w\<lparr>fw_file := Faults faults\<rparr>, Inr ())
      else (w, Inl ''write the fault journal''))"

text \<open>\<open>unwrap_or_default\<close>: what the code works with when loading fails.\<close>

definition journal_or_empty :: "'d fault_ext \<Rightarrow> ('d, fault_record list) fault_prog" where
  "journal_or_empty fx =
     attempt (journal_load fx) (\<lambda>r. give (case r of Inl e \<Rightarrow> [] | Inr fs \<Rightarrow> fs))"

definition fault_event :: "string \<Rightarrow> fault_record \<Rightarrow> nat \<Rightarrow> json" where
  "fault_event name r now =
     jobj [(''type'', JStr ''fault''), (''event'', JStr name), (''id'', JStr (ft_id r)),
           (''kind'', JStr (ft_kind r)), (''app'', jopt JStr (ft_app r)), (''device'', JStr (ft_device r)),
           (''params'', ft_params r), (''ts_ms'', jnat now)]"

text \<open>The history is best effort.\<close>

definition append_event :: "'d fault_ext \<Rightarrow> string \<Rightarrow> fault_record \<Rightarrow> ('d, unit) fault_prog" where
  "append_event fx name r =
     alter (\<lambda>w. if fx_writable fx (fw_dev w)
                then w\<lparr>fw_events := fw_events w @ [fault_event name r (fx_now fx (fw_dev w))]\<rparr> else w)"

definition state_name :: "fault_state \<Rightarrow> string" where
  "state_name s = (case s of FaultActive \<Rightarrow> ''active'' | FaultRestoreFailed \<Rightarrow> ''restore_failed'')"

definition opt_field :: "string \<Rightarrow> ('a \<Rightarrow> json) \<Rightarrow> 'a option \<Rightarrow> (string \<times> json) list" where
  "opt_field key f v = (case v of None \<Rightarrow> [] | Some a \<Rightarrow> [(key, f a)])"

definition record_fields :: "fault_record \<Rightarrow> nat \<Rightarrow> (string \<times> json) list" where
  "record_fields r now =
     [(''id'', JStr (ft_id r)), (''kind'', JStr (ft_kind r)), (''device'', JStr (ft_device r))] @
     opt_field ''app'' JStr (ft_app r) @
     [(''params'', ft_params r), (''state'', JStr (state_name (ft_state r))),
      (''injected_at_ms'', jnat (ft_injected_at_ms r))] @
     opt_field ''expires_at_ms'' jnat (ft_expires_at_ms r) @
     [(''observed'', ft_observed r), (''resources'', JArr (map JStr (ft_resources r)))] @
     (if ft_restore_errors r = [] then [] else [(''restore_errors'', JArr (ft_restore_errors r))]) @
     [(''restore_plan'', JArr (map (JStr \<circ> describe) (ft_restore r)))] @
     opt_field ''overdue'' (\<lambda>expires. JBool (u64_add expires 5000 < now)) (ft_expires_at_ms r)"

definition record_json :: "fault_record \<Rightarrow> nat \<Rightarrow> json" where
  "record_json r now = jobj (record_fields r now)"

section \<open>The recorder\<close>

definition others :: "string \<Rightarrow> fault_record list \<Rightarrow> fault_record list" where
  "others fid faults = filter (\<lambda>fault. ft_id fault \<noteq> fid) faults"

definition recorder_record :: "'d fault_ext \<Rightarrow> json \<Rightarrow> restore_step list \<Rightarrow> ('d, unit) fault_prog" where
  "recorder_record fx params plan =
     step (journal_load fx) (\<lambda>faults.
     step (alter (\<lambda>w. w\<lparr>fw_record := (fw_record w)\<lparr>ft_params := params, ft_restore := plan\<rparr>\<rparr>)) (\<lambda>u.
     step (look fw_record) (\<lambda>rec.
     step (journal_save fx (others (ft_id rec) faults @ [rec])) (\<lambda>u.
     alter (\<lambda>w. w\<lparr>fw_recorded := True\<rparr>)))))"

text \<open>The history as it is read back.\<close>

definition event_time :: "json \<Rightarrow> nat" where
  "event_time e = (case jget ''ts_ms'' e of JInt n \<Rightarrow> nat n | _ \<Rightarrow> 0)"

definition events_since :: "json list \<Rightarrow> nat \<Rightarrow> nat \<Rightarrow> json list" where
  "events_since events since_ms limit =
     (let recent = filter (\<lambda>e. since_ms \<le> event_time e) events
      in if length recent > limit then drop (length recent - limit) recent else recent)"

text \<open>
  Tailing the history file: its complete lines after a byte offset, and the offset to go on from. The
  file is its text; \<open>parse\<close> reads one line.
\<close>

fun complete_part :: "string \<Rightarrow> nat" where
  "complete_part s = (case rfind_str [CHR 0x0A] s of None \<Rightarrow> 0 | Some (a, b) \<Rightarrow> length a + 1)"

definition events_after :: "(string \<Rightarrow> json option) \<Rightarrow> string option \<Rightarrow> nat \<Rightarrow> json list \<times> nat" where
  "events_after parse file offset =
     (case file of
        None \<Rightarrow> ([], offset)
      | Some text \<Rightarrow>
          let start = (if length text < offset then 0 else offset); rest = drop start text
          in if from_utf8 (str_bytes rest) = None then ([], offset)
             else let n = complete_part rest
                  in (List.map_filter parse (str_lines (take n rest)), u64_add start n))"

end
