(* ===== verification/FaultArgs.thy ===== *)
theory FaultArgs
  imports FaultRestore
begin

text \<open>
  The faults one can ask for, with their parameters (\<^verbatim>\<open>fault/args.rs\<close>). The ranges the argument parser
  enforces (durations, percentages, levels) are not repeated here.
\<close>

datatype trim_level =
    RunningModerate | RunningLow | RunningCritical | UiHidden | TrimBackground | TrimModerate | TrimComplete

fun trim_android_name :: "trim_level \<Rightarrow> string" where
  "trim_android_name RunningModerate = ''RUNNING_MODERATE''"
| "trim_android_name RunningLow = ''RUNNING_LOW''"
| "trim_android_name RunningCritical = ''RUNNING_CRITICAL''"
| "trim_android_name UiHidden = ''HIDDEN''"
| "trim_android_name TrimBackground = ''BACKGROUND''"
| "trim_android_name TrimModerate = ''MODERATE''"
| "trim_android_name TrimComplete = ''COMPLETE''"

definition needs_foreground :: "trim_level \<Rightarrow> bool" where
  "needs_foreground level \<longleftrightarrow> level \<in> {RunningModerate, RunningLow, RunningCritical}"

text \<open>The spelling of a value on the command line: its name in kebab case.\<close>

fun trim_name :: "trim_level \<Rightarrow> string" where
  "trim_name RunningModerate = ''running-moderate''"
| "trim_name RunningLow = ''running-low''"
| "trim_name RunningCritical = ''running-critical''"
| "trim_name UiHidden = ''ui-hidden''"
| "trim_name TrimBackground = ''background''"
| "trim_name TrimModerate = ''moderate''"
| "trim_name TrimComplete = ''complete''"

datatype rotation = R0 | R90 | R180 | R270

fun rotation_index :: "rotation \<Rightarrow> nat" where
  "rotation_index R0 = 0"
| "rotation_index R90 = 1"
| "rotation_index R180 = 2"
| "rotation_index R270 = 3"

definition rotation_degrees :: "rotation \<Rightarrow> nat" where
  "rotation_degrees r = rotation_index r * 90"

datatype on_off = On | Off

fun on_off_name :: "on_off \<Rightarrow> string" where
  "on_off_name On = ''on''"
| "on_off_name Off = ''off''"

datatype bucket = BucketActive | WorkingSet | Frequent | Rare | Restricted

fun bucket_value :: "bucket \<Rightarrow> nat" where
  "bucket_value BucketActive = 10"
| "bucket_value WorkingSet = 20"
| "bucket_value Frequent = 30"
| "bucket_value Rare = 40"
| "bucket_value Restricted = 45"

fun bucket_label :: "bucket \<Rightarrow> string" where
  "bucket_label BucketActive = ''active''"
| "bucket_label WorkingSet = ''working-set''"
| "bucket_label Frequent = ''frequent''"
| "bucket_label Rare = ''rare''"
| "bucket_label Restricted = ''restricted''"

datatype thermal_status = Light | ThermalModerate | Severe | Critical | Emergency | Shutdown

fun thermal_code :: "thermal_status \<Rightarrow> nat" where
  "thermal_code Light = 1"
| "thermal_code ThermalModerate = 2"
| "thermal_code Severe = 3"
| "thermal_code Critical = 4"
| "thermal_code Emergency = 5"
| "thermal_code Shutdown = 6"

fun thermal_name :: "thermal_status \<Rightarrow> string" where
  "thermal_name Light = ''light''"
| "thermal_name ThermalModerate = ''moderate''"
| "thermal_name Severe = ''severe''"
| "thermal_name Critical = ''critical''"
| "thermal_name Emergency = ''emergency''"
| "thermal_name Shutdown = ''shutdown''"

datatype speed_profile = Gsm | SpeedGprs | SpeedEdge | SpeedUmts | Hsdpa | Lte

fun speed_name :: "speed_profile \<Rightarrow> string" where
  "speed_name Gsm = ''gsm''"
| "speed_name SpeedGprs = ''gprs''"
| "speed_name SpeedEdge = ''edge''"
| "speed_name SpeedUmts = ''umts''"
| "speed_name Hsdpa = ''hsdpa''"
| "speed_name Lte = ''lte''"

datatype latency_profile = Gprs | Edge | Umts

fun latency_name :: "latency_profile \<Rightarrow> string" where
  "latency_name Gprs = ''gprs''"
| "latency_name Edge = ''edge''"
| "latency_name Umts = ''umts''"

datatype panel = Notifications | QuickSettings

fun panel_name :: "panel \<Rightarrow> string" where
  "panel_name Notifications = ''notifications''"
| "panel_name QuickSettings = ''quick-settings''"

record proxy_scope =
  ps_host :: "string option"
  ps_path :: "string option"
  ps_percent :: nat
  ps_seed :: nat

text \<open>
  One constructor per subcommand. \<open>app\<close> comes first where the fault has a target; the duration of a
  state fault (\<open>Hold\<close>) comes last.
\<close>

datatype inject_cmd =
    KProcessDeath "string option" bool nat
  | KDontKeepActivities "nat option"
  | KLowMemory "string option" trim_level
  | KRevokePermission "string option" string "nat option"
  | KOrientation rotation "nat option"
  | KNightMode on_off "nat option"
  | KFontScale rat "nat option"
  | KDisplaySize "string option" "nat option" "nat option"
  | KAppLocale "string option" string "nat option"
  | KSplitScreen "string option" nat "nat option"
  | KPip "string option"
  | KDoze "nat option"
  | KStandbyBucket "string option" bucket "nat option"
  | KBattery "nat option" bool "nat option"
  | KThermal thermal_status "nat option"
  | KStorageFull nat bool "nat option"
  | KClock int bool "nat option"
  | KTimezone string "nat option"
  | KCpuLoad "nat option" "nat option"
  | KAirplaneMode "nat option"
  | KWifiOff "nat option"
  | KMobileDataOff "nat option"
  | KNetworkFlap nat "nat option"
  | KDnsFailure "nat option"
  | KNetworkSpeed speed_profile "nat option"
  | KNetworkLatency latency_profile "nat option"
  | KHttpErrors proxy_scope nat "nat option"
  | KHttpLatency proxy_scope nat nat "nat option"
  | KBandwidth proxy_scope nat "nat option"
  | KConnectionReset proxy_scope nat "nat option"
  | KTruncatedResponse proxy_scope nat "nat option"
  | KTlsFailure string nat nat "nat option"
  | KIncomingCall string "nat option"
  | KSms string string
  | KScreenOff "nat option"
  | KNotificationShade panel "nat option"
  | KEmulatorCrash bool bool

fun kind_name :: "inject_cmd \<Rightarrow> string" where
  "kind_name (KProcessDeath app relaunch timeout) = ''process-death''"
| "kind_name (KDontKeepActivities hold) = ''dont-keep-activities''"
| "kind_name (KLowMemory app level) = ''low-memory''"
| "kind_name (KRevokePermission app permission hold) = ''revoke-permission''"
| "kind_name (KOrientation r hold) = ''orientation''"
| "kind_name (KNightMode mode hold) = ''night-mode''"
| "kind_name (KFontScale scale hold) = ''font-scale''"
| "kind_name (KDisplaySize sz density hold) = ''display-size''"
| "kind_name (KAppLocale app locales hold) = ''app-locale''"
| "kind_name (KSplitScreen app percent hold) = ''split-screen''"
| "kind_name (KPip app) = ''pip''"
| "kind_name (KDoze hold) = ''doze''"
| "kind_name (KStandbyBucket app b hold) = ''standby-bucket''"
| "kind_name (KBattery level saver hold) = ''battery''"
| "kind_name (KThermal status hold) = ''thermal''"
| "kind_name (KStorageFull free_mb allow hold) = ''storage-full''"
| "kind_name (KClock offset allow hold) = ''clock''"
| "kind_name (KTimezone tz hold) = ''timezone''"
| "kind_name (KCpuLoad threads hold) = ''cpu-load''"
| "kind_name (KAirplaneMode hold) = ''airplane-mode''"
| "kind_name (KWifiOff hold) = ''wifi-off''"
| "kind_name (KMobileDataOff hold) = ''mobile-data-off''"
| "kind_name (KNetworkFlap period hold) = ''network-flap''"
| "kind_name (KDnsFailure hold) = ''dns-failure''"
| "kind_name (KNetworkSpeed profile hold) = ''network-speed''"
| "kind_name (KNetworkLatency profile' hold) = ''network-latency''"
| "kind_name (KHttpErrors scope status' hold) = ''http-errors''"
| "kind_name (KHttpLatency scope delay jitter hold) = ''http-latency''"
| "kind_name (KBandwidth scope rate hold) = ''bandwidth''"
| "kind_name (KConnectionReset scope after hold) = ''connection-reset''"
| "kind_name (KTruncatedResponse scope keep hold) = ''truncated-response''"
| "kind_name (KTlsFailure host percent seed hold) = ''tls-failure''"
| "kind_name (KIncomingCall number hold) = ''incoming-call''"
| "kind_name (KSms sender text') = ''sms''"
| "kind_name (KScreenOff hold) = ''screen-off''"
| "kind_name (KNotificationShade panel hold) = ''notification-shade''"
| "kind_name (KEmulatorCrash relaunch cold) = ''emulator-crash''"

fun cmd_app :: "inject_cmd \<Rightarrow> string option" where
  "cmd_app (KProcessDeath app relaunch timeout) = app"
| "cmd_app (KLowMemory app level) = app"
| "cmd_app (KRevokePermission app permission hold) = app"
| "cmd_app (KAppLocale app locales hold) = app"
| "cmd_app (KSplitScreen app percent hold) = app"
| "cmd_app (KPip app) = app"
| "cmd_app (KStandbyBucket app b hold) = app"
| "cmd_app cmd = None"

fun duration_ms :: "inject_cmd \<Rightarrow> nat option" where
  "duration_ms (KDontKeepActivities hold) = hold"
| "duration_ms (KRevokePermission app permission hold) = hold"
| "duration_ms (KOrientation r hold) = hold"
| "duration_ms (KNightMode mode hold) = hold"
| "duration_ms (KFontScale scale hold) = hold"
| "duration_ms (KDisplaySize sz density hold) = hold"
| "duration_ms (KAppLocale app locales hold) = hold"
| "duration_ms (KSplitScreen app percent hold) = hold"
| "duration_ms (KDoze hold) = hold"
| "duration_ms (KStandbyBucket app b hold) = hold"
| "duration_ms (KBattery level saver hold) = hold"
| "duration_ms (KThermal status hold) = hold"
| "duration_ms (KStorageFull free_mb allow hold) = hold"
| "duration_ms (KClock offset allow hold) = hold"
| "duration_ms (KTimezone tz hold) = hold"
| "duration_ms (KCpuLoad threads hold) = hold"
| "duration_ms (KAirplaneMode hold) = hold"
| "duration_ms (KWifiOff hold) = hold"
| "duration_ms (KMobileDataOff hold) = hold"
| "duration_ms (KNetworkFlap period hold) = hold"
| "duration_ms (KDnsFailure hold) = hold"
| "duration_ms (KNetworkSpeed profile hold) = hold"
| "duration_ms (KNetworkLatency profile' hold) = hold"
| "duration_ms (KHttpErrors scope status' hold) = hold"
| "duration_ms (KHttpLatency scope delay jitter hold) = hold"
| "duration_ms (KBandwidth scope rate hold) = hold"
| "duration_ms (KConnectionReset scope after hold) = hold"
| "duration_ms (KTruncatedResponse scope keep hold) = hold"
| "duration_ms (KTlsFailure host percent seed hold) = hold"
| "duration_ms (KIncomingCall number hold) = hold"
| "duration_ms (KScreenOff hold) = hold"
| "duration_ms (KNotificationShade panel hold) = hold"
| "duration_ms (KProcessDeath app relaunch timeout) = None"
| "duration_ms (KLowMemory app level) = None"
| "duration_ms (KPip app) = None"
| "duration_ms (KSms sender text') = None"
| "duration_ms (KEmulatorCrash relaunch cold) = None"

definition allow_physical :: "inject_cmd \<Rightarrow> bool" where
  "allow_physical cmd \<longleftrightarrow>
     (case cmd of KStorageFull free_mb allow hold \<Rightarrow> allow | KClock offset allow hold \<Rightarrow> allow | _ \<Rightarrow> False)"

end
