(* ===== verification/FaultCatalog.thy ===== *)
theory FaultCatalog
  imports FaultArgs
begin

text \<open>
  The table of fault kinds (\<^verbatim>\<open>fault/catalog.rs\<close>): what each does, needs and changes. It drives the
  checks before an injection, the detection of conflicts, and the help texts.
\<close>

datatype fault_effect = StateFault | ActionFault

datatype fault_scope = OnDevice | OnEmulator | OnProxy

record kind_info =
  ki_kind :: string
  ki_category :: string
  ki_effect :: fault_effect
  ki_scope :: fault_scope
  ki_needs_app :: bool
  ki_destructive :: bool
  ki_min_sdk :: nat
  ki_summary :: string
  ki_clear :: string
  ki_side_effects :: "string list"
  ki_resources :: "string list"

definition state_kind :: "string \<Rightarrow> string \<Rightarrow> fault_scope \<Rightarrow> string \<Rightarrow> string \<Rightarrow> string list \<Rightarrow> kind_info" where
  "state_kind kind category scope summary clear resources =
     \<lparr>ki_kind = kind, ki_category = category, ki_effect = StateFault, ki_scope = scope, ki_needs_app = False,
      ki_destructive = False, ki_min_sdk = 26, ki_summary = summary, ki_clear = clear, ki_side_effects = [],
      ki_resources = resources\<rparr>"

definition action_info :: "string \<Rightarrow> string \<Rightarrow> fault_scope \<Rightarrow> string \<Rightarrow> kind_info" where
  "action_info kind category scope summary =
     \<lparr>ki_kind = kind, ki_category = category, ki_effect = ActionFault, ki_scope = scope, ki_needs_app = False,
      ki_destructive = False, ki_min_sdk = 26, ki_summary = summary, ki_clear = [], ki_side_effects = [],
      ki_resources = []\<rparr>"

definition with_app :: "kind_info \<Rightarrow> kind_info" where
  "with_app info = info\<lparr>ki_needs_app := True\<rparr>"

definition with_destructive :: "kind_info \<Rightarrow> kind_info" where
  "with_destructive info = info\<lparr>ki_destructive := True\<rparr>"

definition with_sdk :: "nat \<Rightarrow> kind_info \<Rightarrow> kind_info" where
  "with_sdk min_sdk info = info\<lparr>ki_min_sdk := min_sdk\<rparr>"

definition with_side_effects :: "string list \<Rightarrow> kind_info \<Rightarrow> kind_info" where
  "with_side_effects effects info = info\<lparr>ki_side_effects := effects\<rparr>"

text \<open>The resources a fault owns for an app.\<close>

definition resources_for :: "kind_info \<Rightarrow> string option \<Rightarrow> string list" where
  "resources_for info app =
     map (replace_str ''{app}'' (case app of Some a \<Rightarrow> a | None \<Rightarrow> [])) (ki_resources info)"

section \<open>The table\<close>

definition LIFECYCLE_KINDS :: "kind_info list" where
  "LIFECYCLE_KINDS =
    [with_side_effects [''presses HOME'', ''--relaunch reopens the app like tapping its icon'']
      (with_app (action_info ''process-death'' ''lifecycle'' OnDevice
       ''Send the app to the background and kill its process the way Android reclaims memory; the task stays in recents so reopening restores saved state'')),
     state_kind ''dont-keep-activities'' ''lifecycle'' OnDevice
       ''Destroy every activity as soon as the user leaves it (Developer options > Don't keep activities)''
       ''restores the previous Don't keep activities setting''
       [''always_finish_activities''],
     with_app (action_info ''low-memory'' ''lifecycle'' OnDevice
       ''Deliver an onTrimMemory level to the app (running-* levels need it in the foreground, the others in the background)''),
     with_side_effects [''Android kills the app's process on revoke and on re-grant'']
      (with_app (state_kind ''revoke-permission'' ''lifecycle'' OnDevice
       ''Revoke a granted runtime permission; Android kills the app when it does''
       ''grants the permission again''
       [''permission:{app}'']))]"

definition CONFIGURATION_KINDS :: "kind_info list" where
  "CONFIGURATION_KINDS =
    [state_kind ''orientation'' ''configuration'' OnDevice
       ''Lock the screen to a rotation (a configuration change for the foreground activity)''
       ''restores auto-rotate and the previous rotation''
       [''rotation''],
     state_kind ''night-mode'' ''configuration'' OnDevice
       ''Switch the system dark theme on or off''
       ''restores the previous night mode''
       [''night_mode''],
     state_kind ''font-scale'' ''configuration'' OnDevice
       ''Change the system font size''
       ''restores the previous font scale''
       [''font_scale''],
     state_kind ''display-size'' ''configuration'' OnDevice
       ''Override the display size and/or density, like a foldable unfolding or a different phone''
       ''restores the previous size and density overrides''
       [''display_size''],
     with_sdk 33 (with_app (state_kind ''app-locale'' ''configuration'' OnDevice
       ''Set the app's own locale (per-app language), e.g. a right-to-left language''
       ''restores the app's previous locales''
       [''app_locale:{app}''])),
     with_side_effects [''the top activity receives a new intent (onNewIntent) on inject and on clear'']
      (with_app (state_kind ''split-screen'' ''configuration'' OnDevice
       ''Put the app's task in multi-window mode and shrink it to part of the screen, as split screen does''
       ''resizes the task to the full screen and returns it to fullscreen mode''
       [''windowing:{app}''])),
     with_side_effects [''presses HOME'']
      (with_app (action_info ''pip'' ''configuration'' OnDevice
       ''Leave the app the way a user does (HOME) so an app that supports it enters picture-in-picture; reports whether it did''))]"

definition POWER_KINDS :: "kind_info list" where
  "POWER_KINDS =
    [state_kind ''doze'' ''power'' OnDevice
       ''Force the device into deep Doze: jobs, alarms and network access are deferred''
       ''leaves forced idle''
       [''deviceidle''],
     with_sdk 28 (with_app (state_kind ''standby-bucket'' ''power'' OnDevice
       ''Move the app to an App Standby bucket (rare or restricted limit background work)''
       ''restores the app's previous bucket''
       [''standby_bucket:{app}''])),
     state_kind ''battery'' ''power'' OnDevice
       ''Report the battery as unplugged, optionally at a low level and with Battery Saver on''
       ''resets the battery reading and restores Battery Saver''
       [''battery''],
     with_sdk 29 (state_kind ''thermal'' ''power'' OnDevice
       ''Report a thermal status (overheating), which throttling-aware apps react to''
       ''unlocks the thermal status''
       [''thermal''])]"

definition RESOURCE_KINDS :: "kind_info list" where
  "RESOURCE_KINDS =
    [with_side_effects [''other apps on the device also run out of space until clear'']
      (with_destructive (state_kind ''storage-full'' ''resources'' OnDevice
       ''Fill the data partition until only --free-mb remains, so writes fail''
       ''deletes the filler file''
       [''storage''])),
     with_side_effects [''turns automatic date & time off until clear'']
      (with_destructive (state_kind ''clock'' ''resources'' OnDevice
       ''Move the system clock by --offset-ms (token expiry, schedules, TLS certificate dates)''
       ''sets the clock back to the true time and restores automatic time''
       [''clock''])),
     state_kind ''timezone'' ''resources'' OnDevice
       ''Change the system time zone''
       ''restores the previous time zone and automatic time zone setting''
       [''timezone''],
     state_kind ''cpu-load'' ''resources'' OnDevice
       ''Keep CPU cores busy with background loops so the app competes for CPU (jank, timeouts)''
       ''stops the loops''
       [''cpu'']]"

definition NETWORK_KINDS :: "kind_info list" where
  "NETWORK_KINDS =
    [with_sdk 30 (state_kind ''airplane-mode'' ''network'' OnDevice
       ''Turn airplane mode on: no network at all''
       ''turns airplane mode back off''
       [''connectivity'']),
     state_kind ''wifi-off'' ''network'' OnDevice
       ''Turn Wi-Fi off (mobile data, if any, stays up)''
       ''turns Wi-Fi back on''
       [''wifi''],
     state_kind ''mobile-data-off'' ''network'' OnDevice
       ''Turn mobile data off (Wi-Fi, if any, stays up)''
       ''turns mobile data back on''
       [''mobile_data''],
     with_sdk 30 (state_kind ''network-flap'' ''network'' OnDevice
       ''Toggle airplane mode every --period-ms: the network keeps dropping and coming back''
       ''stops toggling and leaves airplane mode off''
       [''connectivity'']),
     with_sdk 28 (state_kind ''dns-failure'' ''network'' OnDevice
       ''Make every DNS lookup fail (Private DNS pointed at a host that doesn't exist)''
       ''restores the previous Private DNS setting''
       [''private_dns'']),
     state_kind ''network-speed'' ''network'' OnEmulator
       ''Throttle the emulator's link to a cellular speed profile''
       ''restores the previous link speed''
       [''link_speed''],
     state_kind ''network-latency'' ''network'' OnEmulator
       ''Add cellular link latency to every packet''
       ''restores the previous link latency''
       [''link_latency'']]"

definition PROXY_TRAFFIC_KINDS :: "kind_info list" where
  "PROXY_TRAFFIC_KINDS =
    [state_kind ''http-errors'' ''proxy'' OnProxy
       ''Answer matching requests with an HTTP error status instead of reaching the server''
       ''removes the fault from the proxy''
       [],
     state_kind ''http-latency'' ''proxy'' OnProxy
       ''Delay matching requests before they reach the server''
       ''removes the fault from the proxy''
       [],
     state_kind ''bandwidth'' ''proxy'' OnProxy
       ''Stream matching responses to the app at a limited rate''
       ''removes the fault from the proxy''
       [],
     state_kind ''connection-reset'' ''proxy'' OnProxy
       ''Break the connection partway through matching responses (the app sees an I/O error)''
       ''removes the fault from the proxy''
       [],
     state_kind ''truncated-response'' ''proxy'' OnProxy
       ''Deliver only the start of matching response bodies as if they were complete''
       ''removes the fault from the proxy''
       [],
     state_kind ''tls-failure'' ''proxy'' OnProxy
       ''Fail the TLS handshake for matching HTTPS hosts''
       ''removes the fault from the proxy''
       []]"

definition INTERRUPTION_KINDS :: "kind_info list" where
  "INTERRUPTION_KINDS =
    [state_kind ''incoming-call'' ''interruption'' OnEmulator
       ''Ring an incoming phone call''
       ''hangs the call up''
       [''call''],
     action_info ''sms'' ''interruption'' OnEmulator
       ''Deliver an incoming SMS'',
     state_kind ''screen-off'' ''interruption'' OnDevice
       ''Turn the screen off (the app is paused and stopped)''
       ''wakes the screen and dismisses a non-secure keyguard''
       [''screen''],
     state_kind ''notification-shade'' ''interruption'' OnDevice
       ''Pull the notification shade or quick settings down over the app''
       ''collapses the shade''
       [''statusbar''],
     with_side_effects [''the device disconnects; run `connect` after it boots again'', ''unsaved app data is lost, as in a real crash'']
      (with_destructive (action_info ''emulator-crash'' ''interruption'' OnEmulator
       ''Crash the emulator the way a host failure would, mid-whatever-the-app-is-doing; --relaunch boots it again''))]"

definition KINDS :: "kind_info list" where
  "KINDS =
     LIFECYCLE_KINDS @ CONFIGURATION_KINDS @ POWER_KINDS @ RESOURCE_KINDS @ NETWORK_KINDS @ PROXY_TRAFFIC_KINDS @ INTERRUPTION_KINDS"

definition find_kind :: "string \<Rightarrow> kind_info option" where
  "find_kind kind = List.find (\<lambda>info. ki_kind info = kind) KINDS"

section \<open>What the checks read of it\<close>

text \<open>The table without its texts, which is what proofs about kinds look at.\<close>

type_synonym kind_row = "fault_effect \<times> fault_scope \<times> bool \<times> bool \<times> nat \<times> string list"

definition row_of :: "kind_info \<Rightarrow> kind_row" where
  "row_of info = (ki_effect info, ki_scope info, ki_needs_app info, ki_destructive info, ki_min_sdk info, ki_resources info)"

lemmas kind_defs = state_kind_def action_info_def with_app_def with_destructive_def with_sdk_def
  with_side_effects_def row_of_def


definition KIND_ROWS :: "(string \<times> kind_row) list" where
  "KIND_ROWS =
    [(''process-death'', ActionFault, OnDevice, True, False, 26, []),
     (''dont-keep-activities'', StateFault, OnDevice, False, False, 26, [''always_finish_activities'']),
     (''low-memory'', ActionFault, OnDevice, True, False, 26, []),
     (''revoke-permission'', StateFault, OnDevice, True, False, 26, [''permission:{app}'']),
     (''orientation'', StateFault, OnDevice, False, False, 26, [''rotation'']),
     (''night-mode'', StateFault, OnDevice, False, False, 26, [''night_mode'']),
     (''font-scale'', StateFault, OnDevice, False, False, 26, [''font_scale'']),
     (''display-size'', StateFault, OnDevice, False, False, 26, [''display_size'']),
     (''app-locale'', StateFault, OnDevice, True, False, 33, [''app_locale:{app}'']),
     (''split-screen'', StateFault, OnDevice, True, False, 26, [''windowing:{app}'']),
     (''pip'', ActionFault, OnDevice, True, False, 26, []),
     (''doze'', StateFault, OnDevice, False, False, 26, [''deviceidle'']),
     (''standby-bucket'', StateFault, OnDevice, True, False, 28, [''standby_bucket:{app}'']),
     (''battery'', StateFault, OnDevice, False, False, 26, [''battery'']),
     (''thermal'', StateFault, OnDevice, False, False, 29, [''thermal'']),
     (''storage-full'', StateFault, OnDevice, False, True, 26, [''storage'']),
     (''clock'', StateFault, OnDevice, False, True, 26, [''clock'']),
     (''timezone'', StateFault, OnDevice, False, False, 26, [''timezone'']),
     (''cpu-load'', StateFault, OnDevice, False, False, 26, [''cpu'']),
     (''airplane-mode'', StateFault, OnDevice, False, False, 30, [''connectivity'']),
     (''wifi-off'', StateFault, OnDevice, False, False, 26, [''wifi'']),
     (''mobile-data-off'', StateFault, OnDevice, False, False, 26, [''mobile_data'']),
     (''network-flap'', StateFault, OnDevice, False, False, 30, [''connectivity'']),
     (''dns-failure'', StateFault, OnDevice, False, False, 28, [''private_dns'']),
     (''network-speed'', StateFault, OnEmulator, False, False, 26, [''link_speed'']),
     (''network-latency'', StateFault, OnEmulator, False, False, 26, [''link_latency'']),
     (''http-errors'', StateFault, OnProxy, False, False, 26, []),
     (''http-latency'', StateFault, OnProxy, False, False, 26, []),
     (''bandwidth'', StateFault, OnProxy, False, False, 26, []),
     (''connection-reset'', StateFault, OnProxy, False, False, 26, []),
     (''truncated-response'', StateFault, OnProxy, False, False, 26, []),
     (''tls-failure'', StateFault, OnProxy, False, False, 26, []),
     (''incoming-call'', StateFault, OnEmulator, False, False, 26, [''call'']),
     (''sms'', ActionFault, OnEmulator, False, False, 26, []),
     (''screen-off'', StateFault, OnDevice, False, False, 26, [''screen'']),
     (''notification-shade'', StateFault, OnDevice, False, False, 26, [''statusbar'']),
     (''emulator-crash'', ActionFault, OnEmulator, False, True, 26, [])]"
lemma kinds_rows: "map (\<lambda>i. (ki_kind i, row_of i)) KINDS = KIND_ROWS"
  by (simp add: KINDS_def LIFECYCLE_KINDS_def CONFIGURATION_KINDS_def POWER_KINDS_def RESOURCE_KINDS_def
      NETWORK_KINDS_def PROXY_TRAFFIC_KINDS_def INTERRUPTION_KINDS_def KIND_ROWS_def kind_defs)

lemma find_map_of: "map_of (map (\<lambda>i. (f i, g i)) xs) k = map_option g (List.find (\<lambda>i. f i = k) xs)"
  by (induction xs) auto

lemma find_kind_row: "map_option row_of (find_kind kind) = map_of KIND_ROWS kind"
  unfolding find_kind_def kinds_rows [symmetric] find_map_of ..

lemma find_kind_name: "find_kind kind = Some info \<Longrightarrow> ki_kind info = kind"
  by (auto simp: find_kind_def find_Some_iff)

text \<open>Every subcommand is in the table; it has a duration exactly when it is a state fault, and a target
  exactly when the table says so.\<close>

definition kind_row :: "inject_cmd \<Rightarrow> kind_row" where
  "kind_row cmd = the (map_of KIND_ROWS (kind_name cmd))"

end
