(* ===== verification/FaultKinds.thy ===== *)
theory FaultKinds
  imports FaultCatalog
begin

text \<open>
  One program per kind of fault (\<^verbatim>\<open>fault/kinds.rs\<close>, \<^verbatim>\<open>fault/proxy.rs\<close>). A state fault reads the state it
  replaces, hands its plan to the recorder, changes the device and checks that the change took effect.
  Texts of errors are reduced to their codes. A font scale, 32-bit floating point in the code, is a
  rational number here.
\<close>

record fault_ctx =
  cx_id :: string
  cx_app :: "string option"

record injected =
  in_params :: json
  in_observed :: json
  in_warnings :: "string list"
  in_next_actions :: "string list"

definition inj :: "json \<Rightarrow> json \<Rightarrow> injected" where
  "inj params observed = \<lparr>in_params = params, in_observed = observed, in_warnings = [], in_next_actions = []\<rparr>"

text \<open>\<open>expect\<close>: the checks before an injection make sure of the app.\<close>

definition the_app :: "fault_ctx \<Rightarrow> ('d, string) fault_prog" where
  "the_app ctx = need ''panicked: validated: kind needs an app'' (cx_app ctx)"

definition shell_step :: "string \<Rightarrow> string \<Rightarrow> restore_step" where
  "shell_step command d = ShellBack command d None"

definition verified_step :: "string \<Rightarrow> string \<Rightarrow> string \<Rightarrow> string \<Rightarrow> restore_step" where
  "verified_step command d check contains =
     ShellBack command d (Some \<lparr>vf_command = check, vf_contains = contains\<rparr>)"

definition setting_step :: "string \<Rightarrow> string \<Rightarrow> string option \<Rightarrow> restore_step" where
  "setting_step namespace key value = SettingBack namespace key value"

definition verify :: "'d fault_ext \<Rightarrow> string \<Rightarrow> string \<Rightarrow> ('d, unit) fault_prog" where
  "verify fx command contains =
     attempt (wait_for fx \<lparr>vf_command = command, vf_contains = contains\<rparr>) (\<lambda>r.
     case r of Inl e \<Rightarrow> stop ''fault_verification_failed'' | Inr u \<Rightarrow> give ())"

definition NL :: string where "NL = [CHR 0x0A]"

definition last_piece :: "char \<Rightarrow> string \<Rightarrow> string" where
  "last_piece sep s = last (split_on sep s)"

definition is_alnum :: "char \<Rightarrow> bool" where
  "is_alnum c \<longleftrightarrow> is_digit c \<or> (let n = (of_char c :: nat) in (65 \<le> n \<and> n \<le> 90) \<or> (97 \<le> n \<and> n \<le> 122))"

section \<open>App lifecycle\<close>

definition running_pid :: "'d fault_ext \<Rightarrow> fault_ctx \<Rightarrow> ('d, nat) fault_prog" where
  "running_pid fx ctx =
     step (the_app ctx) (\<lambda>package.
     step (pid_of fx package) (\<lambda>pid. need ''fault_app_not_running'' pid))"

definition root_activity_in :: "string \<Rightarrow> string \<Rightarrow> string option" where
  "root_activity_in needle task =
     Option.bind (find_str needle task) (\<lambda>(before, rest).
       map_option fst (split_once CHR ''}'' (drop (length before + length ''realActivity={'') task)))"

definition task_root_activity :: "'d fault_ext \<Rightarrow> string \<Rightarrow> ('d, string option) fault_prog" where
  "task_root_activity fx package =
     step (read_ok fx ''dumpsys activity recents'') (\<lambda>text.
     give (first_some (root_activity_in (''realActivity={'' @ package @ ''/'')) (split_str ''* Recent #'' text)))"

definition launcher_activity :: "'d fault_ext \<Rightarrow> string \<Rightarrow> ('d, string) fault_prog" where
  "launcher_activity fx package =
     step (read_ok fx (''cmd package resolve-activity --brief -a android.intent.action.MAIN -c android.intent.category.LAUNCHER ''
       @ quoted package)) (\<lambda>text.
     step (need ''the app has no launcher activity''
       (List.find (\<lambda>line. CHR ''/'' \<in> set line) (map str_trim (rev (str_lines text))))) (\<lambda>activity.
     if \<not> starts_with activity (package @ ''/'') then stop ''fault_invalid_param'' else give activity))"

text \<open>
  Asking Android to kill a process it may not consider cached yet, until the deadline. Every round
  sleeps half a second, which bounds the rounds.
\<close>

fun kill_loop :: "'d fault_ext \<Rightarrow> string \<Rightarrow> nat \<Rightarrow> nat \<Rightarrow> nat \<Rightarrow> ('d, bool) fault_prog" where
  "kill_loop fx package pid deadline 0 = stop ''out of fuel''"
| "kill_loop fx package pid deadline (Suc fuel) =
     step (now_ms fx) (\<lambda>now.
     if now < deadline then
       step (dev_run fx (''am kill '' @ quoted package)) (\<lambda>r.
       step (pause_ms fx 500) (\<lambda>u.
       step (pid_of fx package) (\<lambda>current.
       if current \<noteq> Some pid then give True else kill_loop fx package pid deadline fuel)))
     else give False)"

fun await_pid :: "'d fault_ext \<Rightarrow> string \<Rightarrow> nat \<Rightarrow> ('d, nat option) fault_prog" where
  "await_pid fx package 0 = give None"
| "await_pid fx package (Suc n) =
     step (pause_ms fx 250) (\<lambda>u.
     step (pid_of fx package) (\<lambda>pid. if pid \<noteq> None then give pid else await_pid fx package n))"

definition relaunch_app :: "'d fault_ext \<Rightarrow> string \<Rightarrow> string option \<Rightarrow> ('d, (string \<times> json) list) fault_prog" where
  "relaunch_app fx package root_activity =
     step (case root_activity of Some activity \<Rightarrow> give activity | None \<Rightarrow> launcher_activity fx package) (\<lambda>activity.
     step (run_ok fx (''am start -a android.intent.action.MAIN -c android.intent.category.LAUNCHER -n '' @ quoted activity)) (\<lambda>u.
     step (await_pid fx package 20) (\<lambda>new_pid.
     give [(''relaunched_pid'', jopt jnat new_pid), (''relaunched_activity'', JStr activity)])))"

definition process_death :: "'d fault_ext \<Rightarrow> fault_ctx \<Rightarrow> bool \<Rightarrow> nat \<Rightarrow> ('d, injected) fault_prog" where
  "process_death fx ctx relaunch timeout =
     step (the_app ctx) (\<lambda>package.
     step (running_pid fx ctx) (\<lambda>pid.
     step (task_root_activity fx package) (\<lambda>root_activity.
     step (run_ok fx ''input keyevent KEYCODE_HOME'') (\<lambda>u.
     step (now_ms fx) (\<lambda>started.
     step (kill_loop fx package pid (started + timeout) (timeout div 500 + 2)) (\<lambda>killed.
     step (if killed then give (Some ''am_kill'')
       else step (dev_run fx (''run-as '' @ quoted package @ '' kill -9 '' @ dec_digits pid)) (\<lambda>r.
            step (pause_ms fx 500) (\<lambda>u.
            if ran_ok r then
              step (pid_of fx package) (\<lambda>current. give (if current \<noteq> Some pid then Some ''run_as_kill'' else None))
            else give None))) (\<lambda>killed_by.
     step (need ''fault_verification_failed'' killed_by) (\<lambda>killed_by.
     step (now_ms fx) (\<lambda>now.
     step (if relaunch then relaunch_app fx package root_activity else give []) (\<lambda>relaunched.
     give ((inj (jobj [(''relaunch'', JBool relaunch), (''timeout_ms'', jnat timeout)])
             (jobj ([(''pid_before'', jnat pid), (''killed_by'', JStr killed_by),
                     (''waited_ms'', jnat (now - started)), (''task_kept'', JBool True)] @ relaunched)))
           \<lparr>in_next_actions := if relaunch then []
              else [''shadowdroid -d '' @ fx_serial fx @ '' app start '' @ package]\<rparr>)))))))))))"

definition dont_keep_activities :: "'d fault_ext \<Rightarrow> ('d, injected) fault_prog" where
  "dont_keep_activities fx =
     step (get_setting fx ''global'' ''always_finish_activities'') (\<lambda>prior.
     if prior = Some ''1'' then stop ''fault_no_effect'' else
     step (recorder_record fx (jobj []) [setting_step ''global'' ''always_finish_activities'' prior]) (\<lambda>u.
     step (put_setting fx ''global'' ''always_finish_activities'' (Some ''1'')) (\<lambda>u.
     give (inj (jobj []) (jobj [(''always_finish_activities'', jnat 1)])))))"

definition low_memory :: "'d fault_ext \<Rightarrow> fault_ctx \<Rightarrow> trim_level \<Rightarrow> ('d, injected) fault_prog" where
  "low_memory fx ctx level =
     step (the_app ctx) (\<lambda>package.
     step (running_pid fx ctx) (\<lambda>pid.
     step (dev_run fx (''am send-trim-memory '' @ quoted package @ '' '' @ trim_android_name level)) (\<lambda>r.
     if \<not> ran_ok r \<or> str_contains (rn_output r) ''Exception'' then stop ''fault_device_rejected''
     else give (inj (jobj [(''level'', JStr (trim_name level))])
                    (jobj [(''pid'', jnat pid), (''android_level'', JStr (trim_android_name level))])))))"

definition permission_check :: "string \<Rightarrow> string \<Rightarrow> string" where
  "permission_check package permission =
     ''dumpsys package '' @ quoted package @ '' | grep -F '' @ quoted (permission @ '': granted='')"

definition permission_granted :: "'d fault_ext \<Rightarrow> string \<Rightarrow> string \<Rightarrow> ('d, bool option) fault_prog" where
  "permission_granted fx package permission =
     step (dev_read fx (permission_check package permission)) (\<lambda>r.
     give (if str_contains (rn_output r) ''granted=true'' then Some True
           else if str_contains (rn_output r) ''granted=false'' then Some False else None))"

definition revoke_permission :: "'d fault_ext \<Rightarrow> fault_ctx \<Rightarrow> string \<Rightarrow> ('d, injected) fault_prog" where
  "revoke_permission fx ctx permission =
     step (the_app ctx) (\<lambda>package.
     step (permission_granted fx package permission) (\<lambda>granted.
     case granted of
       None \<Rightarrow> stop ''fault_invalid_param''
     | Some g \<Rightarrow>
         if \<not> g then stop ''fault_no_effect''
         else
           let params = jobj [(''permission'', JStr permission)]; check = permission_check package permission
           in step (recorder_record fx params
                [verified_step (''pm grant '' @ quoted package @ '' '' @ quoted permission)
                   (''grant '' @ permission @ '' to '' @ package @ '' again'') check ''granted=true'']) (\<lambda>u.
              step (run_ok fx (''pm revoke '' @ quoted package @ '' '' @ quoted permission)) (\<lambda>u.
              step (verify fx check ''granted=false'') (\<lambda>u.
              give (inj params (jobj [(''was_granted'', JBool True), (''granted'', JBool False),
                                      (''app_killed_by_android'', JBool True)])))))))"


section \<open>Configuration\<close>

definition orientation :: "'d fault_ext \<Rightarrow> rotation \<Rightarrow> ('d, injected) fault_prog" where
  "orientation fx r =
     step (get_setting fx ''system'' ''accelerometer_rotation'') (\<lambda>auto.
     step (get_setting fx ''system'' ''user_rotation'') (\<lambda>user.
     let wanted = dec_digits (rotation_index r); params = jobj [(''rotation'', jnat (rotation_degrees r))]
     in if auto = Some ''0'' \<and> user = Some wanted then stop ''fault_no_effect''
        else
          step (recorder_record fx params
            [setting_step ''system'' ''user_rotation'' user,
             setting_step ''system'' ''accelerometer_rotation'' auto]) (\<lambda>u.
          step (put_setting fx ''system'' ''accelerometer_rotation'' (Some ''0'')) (\<lambda>u.
          step (put_setting fx ''system'' ''user_rotation'' (Some wanted)) (\<lambda>u.
          give (inj params (jobj [(''rotation_degrees'', jnat (rotation_degrees r)),
                                  (''auto_rotate'', JBool False)])))))))"

definition night_mode_of :: "string \<Rightarrow> string" where
  "night_mode_of current =
     (let v = str_trim (last_piece CHR '':'' current) in if v = [] then ''no'' else v)"

definition night_mode :: "'d fault_ext \<Rightarrow> on_off \<Rightarrow> ('d, injected) fault_prog" where
  "night_mode fx mode =
     step (read_ok fx ''cmd uimode night'') (\<lambda>current.
     let prior = night_mode_of current; wanted = (case mode of On \<Rightarrow> ''yes'' | Off \<Rightarrow> ''no'');
         params = jobj [(''mode'', JStr (on_off_name mode))]
     in if prior = wanted then stop ''fault_no_effect''
        else
          step (recorder_record fx params
            [verified_step (''cmd uimode night '' @ quoted prior) (''set night mode back to '' @ prior)
               ''cmd uimode night'' (''Night mode: '' @ prior)]) (\<lambda>u.
          step (run_ok fx (''cmd uimode night '' @ wanted)) (\<lambda>u.
          step (verify fx ''cmd uimode night'' (''Night mode: '' @ wanted)) (\<lambda>u.
          give (inj params (jobj [(''night_mode'', JStr wanted), (''was'', JStr prior)]))))))"

definition font_scale :: "'d fault_ext \<Rightarrow> rat \<Rightarrow> ('d, injected) fault_prog" where
  "font_scale fx scale =
     (if \<not> (1 / 2 \<le> scale \<and> scale \<le> 3) then stop ''fault_invalid_param''
      else
        step (get_setting fx ''system'' ''font_scale'') (\<lambda>prior.
        let prior_value = (case Option.bind prior (fx_float fx) of Some v \<Rightarrow> v | None \<Rightarrow> 1);
            params = jobj [(''scale'', JFloat scale)]
        in if \<bar>prior_value - scale\<bar> < 1 / 1000 then stop ''fault_no_effect''
           else
             step (recorder_record fx params [setting_step ''system'' ''font_scale'' prior]) (\<lambda>u.
             step (put_setting fx ''system'' ''font_scale'' (Some (fx_show_float fx scale))) (\<lambda>u.
             give (inj params (jobj [(''font_scale'', JFloat scale), (''was'', JFloat prior_value)]))))))"

definition wm_field :: "string \<Rightarrow> string \<Rightarrow> string option" where
  "wm_field label output =
     Option.bind (List.find (\<lambda>line. starts_with (trim_start line) label) (str_lines output)) (\<lambda>line.
       map_option str_trim (nth_opt 1 (split_on CHR '':'' line)))"

definition parse_wm :: "string \<Rightarrow> string option \<times> string option" where
  "parse_wm output = (wm_field ''Physical'' output, wm_field ''Override'' output)"

definition parse_size :: "string \<Rightarrow> (nat \<times> nat) option" where
  "parse_size s =
     Option.bind (split_once CHR ''x'' s) (\<lambda>(w, h).
       Option.bind (parse_unsigned 32 w) (\<lambda>w. map_option (\<lambda>h. (w, h)) (parse_unsigned 32 h)))"

definition size_valid :: "string \<Rightarrow> bool" where
  "size_valid s \<longleftrightarrow> (case parse_size s of Some (w, h) \<Rightarrow> 200 \<le> w \<and> 200 \<le> h | None \<Rightarrow> False)"

definition opt_step :: "'a option \<Rightarrow> ('a \<Rightarrow> ('d, unit) fault_prog) \<Rightarrow> ('d, unit) fault_prog" where
  "opt_step v p = (case v of Some a \<Rightarrow> p a | None \<Rightarrow> give ())"

definition or_reset :: "string option \<Rightarrow> string" where
  "or_reset v = (case v of Some s \<Rightarrow> s | None \<Rightarrow> ''reset'')"

definition display_size :: "'d fault_ext \<Rightarrow> string option \<Rightarrow> nat option \<Rightarrow> ('d, injected) fault_prog" where
  "display_size fx sz density =
     (if (case sz of Some s \<Rightarrow> \<not> size_valid s | None \<Rightarrow> False) then stop ''fault_invalid_param''
      else if (case density of Some d \<Rightarrow> \<not> (72 \<le> d \<and> d \<le> 1000) | None \<Rightarrow> False) then stop ''fault_invalid_param''
      else
        step (read_ok fx ''wm size'') (\<lambda>size_text.
        step (read_ok fx ''wm density'') (\<lambda>density_text.
        let size_override = snd (parse_wm size_text); density_override = snd (parse_wm density_text);
            params = jobj [(''size'', jopt JStr sz), (''density'', jopt jnat density)];
            steps =
              (if sz \<noteq> None then
                 [shell_step (''wm size '' @ quoted (or_reset size_override))
                    (''set the display size back to '' @ or_reset size_override)] else []) @
              (if density \<noteq> None then
                 [shell_step (''wm density '' @ quoted (or_reset density_override))
                    (''set the display density back to '' @ or_reset density_override)] else [])
        in step (recorder_record fx params steps) (\<lambda>u.
           step (opt_step sz (\<lambda>s.
             step (run_ok fx (''wm size '' @ quoted s)) (\<lambda>u. verify fx ''wm size'' (''Override size: '' @ s)))) (\<lambda>u.
           step (opt_step density (\<lambda>d.
             step (run_ok fx (''wm density '' @ dec_digits d)) (\<lambda>u.
             verify fx ''wm density'' (''Override density: '' @ dec_digits d)))) (\<lambda>u.
           give (inj params (jobj [(''size'', jopt JStr sz), (''density'', jopt jnat density),
             (''was'', jobj [(''size_override'', jopt JStr size_override),
                             (''density_override'', jopt JStr density_override)])]))))))))"

definition parse_app_locales :: "string \<Rightarrow> string" where
  "parse_app_locales output =
     (case Option.bind (rfind_str ''['' output) (\<lambda>(a, rest). split_once CHR '']'' rest) of
        Some (inside, b) \<Rightarrow> filter (\<lambda>c. c \<noteq> CHR '' '') inside
      | None \<Rightarrow> [])"

definition spaced_commas :: "string \<Rightarrow> string" where
  "spaced_commas s = concat (map (\<lambda>c. if c = CHR '','' then '', '' else [c]) s)"

definition locales_valid :: "string \<Rightarrow> bool" where
  "locales_valid wanted \<longleftrightarrow> wanted \<noteq> [] \<and>
     list_all (\<lambda>tag. tag \<noteq> [] \<and> list_all (\<lambda>c. is_alnum c \<or> c = CHR ''-'') tag) (split_on CHR '','' wanted)"

definition app_locale :: "'d fault_ext \<Rightarrow> fault_ctx \<Rightarrow> string \<Rightarrow> ('d, injected) fault_prog" where
  "app_locale fx ctx locales =
     step (the_app ctx) (\<lambda>package.
     let wanted = filter (\<lambda>c. c \<noteq> CHR '' '') locales; get = ''cmd locale get-app-locales '' @ quoted package
     in if \<not> locales_valid wanted then stop ''fault_invalid_param''
        else
          step (read_ok fx get) (\<lambda>text.
          let prior = parse_app_locales text; params = jobj [(''locales'', JStr wanted)];
              set_to = (\<lambda>l. ''cmd locale set-app-locales '' @ quoted package @ '' --locales '' @ quoted l)
          in if prior = wanted then stop ''fault_no_effect''
             else
               step (recorder_record fx params
                 [verified_step (set_to prior)
                    (if prior = [] then ''return '' @ package @ '' to the system language''
                     else ''set '' @ package @ [CHR 0x27] @ ''s locales back to '' @ prior)
                    get (''['' @ spaced_commas prior @ '']'')]) (\<lambda>u.
               step (run_ok fx (set_to wanted)) (\<lambda>u.
               step (verify fx get (''['' @ spaced_commas wanted @ '']'')) (\<lambda>u.
               give (inj params (jobj [(''locales'', JStr wanted), (''was'', JStr prior)])))))))"

text \<open>A line of \<open>am stack list\<close>: the task, its component and its bounds.\<close>

definition task_of_line :: "string \<Rightarrow> (nat \<times> string \<times> string) option" where
  "task_of_line line =
     (let line = str_trim line in
      if \<not> starts_with line ''taskId='' then None
      else
        Option.bind (nth_opt 0 (split_on CHR '':'' (drop (length ''taskId='') line))) (\<lambda>digits.
        Option.bind (parse_unsigned 32 digits) (\<lambda>tid.
        Option.bind (nth_opt 1 (split_str '': '' line)) (\<lambda>rest.
        Option.bind (nth_opt 0 (split_whitespace rest)) (\<lambda>component.
        Option.bind (nth_opt 1 (split_str ''bounds='' line)) (\<lambda>rest.
        map_option (\<lambda>bounds. (tid, component, bounds)) (nth_opt 0 (split_whitespace rest))))))))"

definition app_task :: "'d fault_ext \<Rightarrow> string \<Rightarrow> ('d, (nat \<times> string \<times> string) option) fault_prog" where
  "app_task fx package =
     step (read_ok fx ''am stack list'') (\<lambda>text.
     give (Option.bind (List.find (\<lambda>line. str_contains line ('': '' @ package @ ''/'')) (str_lines text)) task_of_line))"

definition display_pixels :: "'d fault_ext \<Rightarrow> ('d, nat \<times> nat) fault_prog" where
  "display_pixels fx =
     step (read_ok fx ''wm size'') (\<lambda>text.
     let (physical, size_override) = parse_wm text
     in step (need ''unreadable wm size'' (case size_override of Some s \<Rightarrow> Some s | None \<Rightarrow> physical)) (\<lambda>s.
        need ''unreadable display size'' (parse_size s)))"

definition split_screen :: "'d fault_ext \<Rightarrow> fault_ctx \<Rightarrow> nat \<Rightarrow> ('d, injected) fault_prog" where
  "split_screen fx ctx percent =
     step (the_app ctx) (\<lambda>package.
     step (app_task fx package) (\<lambda>found.
     step (need ''fault_app_not_running'' found) (\<lambda>(task, component, bounds).
     step (display_pixels fx) (\<lambda>(width, height).
     let shrunk = height * percent mod 2 ^ 32 div 100; params = jobj [(''percent'', jnat percent)];
         resize = (\<lambda>h. ''am task resize '' @ dec_digits task @ '' 0 0 '' @ dec_digits width @ '' '' @ dec_digits h);
         start_in = (\<lambda>mode. ''am start --windowingMode '' @ mode @ '' -n '' @ quoted component)
     in step (recorder_record fx params
          [shell_step (resize height) (''resize task '' @ dec_digits task @ '' back to the full screen''),
           shell_step (start_in ''1'') (''return task '' @ dec_digits task @ '' to fullscreen mode'')]) (\<lambda>u.
        step (run_ok fx (start_in ''6'')) (\<lambda>u.
        step (run_ok fx (resize shrunk)) (\<lambda>u.
        step (verify fx (''am stack list | grep -F '' @ [CHR 0x27] @ ''taskId='' @ dec_digits task @ '':'' @ [CHR 0x27])
          (''bounds=[0,0]['' @ dec_digits width @ '','' @ dec_digits shrunk @ '']'')) (\<lambda>u.
        give (inj params (jobj [(''task_id'', jnat task),
          (''bounds'', JArr [jnat 0, jnat 0, jnat width, jnat shrunk]),
          (''display'', JArr [jnat width, jnat height])]))))))))))"

definition entered_pip :: "string \<Rightarrow> string \<Rightarrow> bool" where
  "entered_pip package pinned \<longleftrightarrow>
     list_ex (\<lambda>line. str_contains line package)
       (take 4 (dropWhile (\<lambda>line. \<not> str_contains line ''pinned'') (str_lines pinned)))"

definition pip :: "'d fault_ext \<Rightarrow> fault_ctx \<Rightarrow> ('d, injected) fault_prog" where
  "pip fx ctx =
     step (the_app ctx) (\<lambda>package.
     step (running_pid fx ctx) (\<lambda>pid.
     step (run_ok fx ''input keyevent KEYCODE_HOME'') (\<lambda>u.
     step (pause_ms fx 1500) (\<lambda>u.
     step (dev_read fx (''dumpsys activity activities | grep -E '' @ [CHR 0x27] @
       ''mWindowingMode=pinned|windowingMode=pinned|realActivity'' @ [CHR 0x27])) (\<lambda>r.
     let entered = entered_pip package (rn_output r)
     in give ((inj (jobj []) (jobj [(''pid'', jnat pid), (''entered_pip'', JBool entered)]))
          \<lparr>in_warnings := if entered then []
             else [package @ '' left the foreground but did not enter picture-in-picture (it may not support auto-enter on leave)'']\<rparr>))))))"


section \<open>Power\<close>

definition doze :: "'d fault_ext \<Rightarrow> ('d, injected) fault_prog" where
  "doze fx =
     step (read_ok fx ''dumpsys deviceidle get deep'') (\<lambda>deep.
     if str_trim deep = ''IDLE'' then stop ''fault_no_effect'' else
     step (recorder_record fx (jobj []) [shell_step ''dumpsys deviceidle unforce'' ''leave forced Doze'']) (\<lambda>u.
     step (run_ok fx ''dumpsys deviceidle force-idle'') (\<lambda>u.
     step (verify fx ''dumpsys deviceidle get deep'' ''IDLE'') (\<lambda>u.
     give (inj (jobj []) (jobj [(''deep_idle'', JStr ''IDLE''), (''was'', JStr (str_trim deep))]))))))"

definition bucket_name :: "string \<Rightarrow> string" where
  "bucket_name value =
     (let v = str_trim value in
      case map_of [(''5'', ''exempted''), (''10'', ''active''), (''20'', ''working_set''), (''30'', ''frequent''),
                   (''40'', ''rare''), (''45'', ''restricted''), (''50'', ''never'')] v of
        Some name \<Rightarrow> name | None \<Rightarrow> v)"

definition standby_bucket :: "'d fault_ext \<Rightarrow> fault_ctx \<Rightarrow> bucket \<Rightarrow> ('d, injected) fault_prog" where
  "standby_bucket fx ctx b =
     step (the_app ctx) (\<lambda>package.
     let get = ''am get-standby-bucket '' @ quoted package; wanted = dec_digits (bucket_value b)
     in step (read_ok fx get) (\<lambda>text.
        let prior = str_trim text; params = jobj [(''bucket'', JStr (bucket_label b))]
        in if prior = wanted then stop ''fault_no_effect''
           else if bucket_name prior \<in> {''exempted'', ''never''} then stop ''fault_invalid_param''
           else
             step (recorder_record fx params
               [verified_step (''am set-standby-bucket '' @ quoted package @ '' '' @ bucket_name prior)
                  (''move '' @ package @ '' back to the '' @ bucket_name prior @ '' bucket'') get prior]) (\<lambda>u.
             step (run_ok fx (''am set-standby-bucket '' @ quoted package @ '' '' @ bucket_name wanted)) (\<lambda>u.
             step (verify fx get wanted) (\<lambda>u.
             give (inj params (jobj [(''bucket'', JStr (bucket_label b)), (''was'', JStr (bucket_name prior))])))))))"

definition battery :: "'d fault_ext \<Rightarrow> nat option \<Rightarrow> bool \<Rightarrow> ('d, injected) fault_prog" where
  "battery fx level saver =
     step (get_setting fx ''global'' ''low_power'') (\<lambda>prior_saver.
     let params = jobj [(''level'', jopt jnat level), (''saver'', JBool saver)];
         steps = shell_step ''dumpsys battery reset'' ''stop overriding the battery reading'' #
           (if saver then [setting_step ''global'' ''low_power'' prior_saver] else [])
     in step (recorder_record fx params steps) (\<lambda>u.
        step (run_ok fx ''dumpsys battery unplug'') (\<lambda>u.
        step (opt_step level (\<lambda>l.
          step (run_ok fx (''dumpsys battery set level '' @ dec_digits l)) (\<lambda>u.
          verify fx ''dumpsys battery'' (''level: '' @ dec_digits l)))) (\<lambda>u.
        step (verify fx ''dumpsys battery'' ''AC powered: false'') (\<lambda>u.
        step (if saver then put_setting fx ''global'' ''low_power'' (Some ''1'') else give ()) (\<lambda>u.
        give (inj params (jobj [(''unplugged'', JBool True), (''level'', jopt jnat level),
                                (''battery_saver'', JBool saver)]))))))))"

definition thermal :: "'d fault_ext \<Rightarrow> thermal_status \<Rightarrow> ('d, injected) fault_prog" where
  "thermal fx status =
     (let params = jobj [(''status'', JStr (thermal_name status))]; code = dec_digits (thermal_code status)
      in step (recorder_record fx params
           [verified_step ''cmd thermalservice reset'' ''unlock the thermal status'' ''dumpsys thermalservice''
              ''IsStatusOverride: false'']) (\<lambda>u.
         step (run_ok fx (''cmd thermalservice override-status '' @ code)) (\<lambda>u.
         step (verify fx ''dumpsys thermalservice'' (''Thermal Status: '' @ code)) (\<lambda>u.
         give (inj params (jobj [(''thermal_status'', JStr (thermal_name status)),
                                 (''code'', jnat (thermal_code status))]))))))"

section \<open>Resources\<close>

definition data_free_kb :: "'d fault_ext \<Rightarrow> ('d, nat) fault_prog" where
  "data_free_kb fx =
     step (read_ok fx ''df -k /data | tail -1'') (\<lambda>text.
     need ''unreadable df -k /data'' (Option.bind (nth_opt 3 (split_whitespace text)) (parse_unsigned 64)))"

definition storage_full :: "'d fault_ext \<Rightarrow> fault_ctx \<Rightarrow> nat \<Rightarrow> ('d, injected) fault_prog" where
  "storage_full fx ctx free_mb =
     step (data_free_kb fx) (\<lambda>free_kb.
     let keep_kb = free_mb * 1024; fill_kb = free_kb - keep_kb;
         path = ''/data/local/tmp/.shadowdroid-fault-fill-'' @ cx_id ctx; params = jobj [(''free_mb'', jnat free_mb)]
     in if free_kb \<le> keep_kb then stop ''fault_no_effect''
        else
          step (recorder_record fx params [RemoveFile path]) (\<lambda>u.
          step (run_ok fx (''fallocate -l '' @ dec_digits fill_kb @ ''K '' @ quoted path)) (\<lambda>u.
          step (data_free_kb fx) (\<lambda>after_kb.
          if after_kb > keep_kb + keep_kb div 2 + 8 * 1024 then stop ''fault_verification_failed''
          else give (inj params (jobj [(''free_mb_before'', jnat (free_kb div 1024)),
                 (''free_mb_after'', jnat (after_kb div 1024)), (''filler'', JStr path)]))))))"

definition clock_target :: "nat \<Rightarrow> int \<Rightarrow> nat option" where
  "clock_target epoch offset =
     (let t = int epoch + offset in if epoch < 2 ^ 63 \<and> t < 2 ^ 63 \<and> 0 < t then Some (nat t) else None)"

definition clock :: "'d fault_ext \<Rightarrow> int \<Rightarrow> ('d, injected) fault_prog" where
  "clock fx offset =
     (if offset = 0 then stop ''fault_no_effect''
      else
        step (device_epoch_ms fx) (\<lambda>epoch.
        step (uptime_ms_now fx) (\<lambda>uptime.
        step (need ''fault_invalid_param'' (clock_target epoch offset)) (\<lambda>target.
        step (get_setting fx ''global'' ''auto_time'') (\<lambda>prior_auto.
        let params = jobj [(''offset_ms'', JInt offset)]
        in step (recorder_record fx params
             [ClockBack epoch uptime, setting_step ''global'' ''auto_time'' prior_auto]) (\<lambda>u.
           step (put_setting fx ''global'' ''auto_time'' (Some ''0'')) (\<lambda>u.
           step (run_ok fx (''cmd alarm set-time '' @ dec_digits target)) (\<lambda>u.
           step (device_epoch_ms fx) (\<lambda>now.
           if abs_diff now target > 10000 then stop ''fault_verification_failed''
           else give (inj params (jobj [(''device_time_ms'', jnat now), (''was_ms'', jnat epoch),
                  (''automatic_time'', JBool False)]))))))))))) "

definition tz_valid :: "string \<Rightarrow> bool" where
  "tz_valid tz \<longleftrightarrow> tz \<noteq> [] \<and> list_all (\<lambda>c. is_alnum c \<or> c \<in> set ''/_+-'') tz"

definition timezone :: "'d fault_ext \<Rightarrow> string \<Rightarrow> ('d, injected) fault_prog" where
  "timezone fx tz =
     (if \<not> tz_valid tz then stop ''fault_invalid_param''
      else
        step (read_ok fx ''getprop persist.sys.timezone'') (\<lambda>text.
        let prior = str_trim text; params = jobj [(''tz'', JStr tz)]
        in if prior = tz then stop ''fault_no_effect''
           else
             step (get_setting fx ''global'' ''auto_time_zone'') (\<lambda>prior_auto.
             step (recorder_record fx params
               ((if prior = [] then []
                 else [verified_step (''cmd alarm set-timezone '' @ quoted prior)
                         (''set the time zone back to '' @ prior) ''getprop persist.sys.timezone'' prior]) @
                [setting_step ''global'' ''auto_time_zone'' prior_auto])) (\<lambda>u.
             step (put_setting fx ''global'' ''auto_time_zone'' (Some ''0'')) (\<lambda>u.
             step (run_ok fx (''cmd alarm set-timezone '' @ quoted tz)) (\<lambda>u.
             step (verify fx ''getprop persist.sys.timezone'' tz) (\<lambda>u.
             give (inj params (jobj [(''timezone'', JStr tz), (''was'', JStr prior)])))))))))"

text \<open>A shell dollar sign with the backslash that keeps it for the inner shell.\<close>

definition own_pid :: string where "own_pid = [CHR 0x5C, CHR ''$'', CHR 0x5C, CHR ''$'']"

definition load_command :: "string \<Rightarrow> string \<Rightarrow> nat \<Rightarrow> string" where
  "load_command qdir dir threads =
     ''mkdir -p '' @ qdir @ ''; i=1; while [ $i -le '' @ dec_digits threads @ '' ]; do nohup sh -c \"echo '' @ own_pid @
     '' > '' @ dir @ ''/$i.pid; while :; do :; done\" >/dev/null 2>&1 & i=$((i+1)); done''"

definition count_command :: "string \<Rightarrow> string" where
  "count_command qdir =
     ''n=0; for f in '' @ qdir @ ''/*.pid; do kill -0 $(cat \"$f\") 2>/dev/null && n=$((n+1)); done; echo $n''"

definition cpu_load :: "'d fault_ext \<Rightarrow> fault_ctx \<Rightarrow> nat option \<Rightarrow> ('d, injected) fault_prog" where
  "cpu_load fx ctx requested =
     step (read_ok fx ''grep -c ^processor /proc/cpuinfo'') (\<lambda>text.
     let cores = (case parse_unsigned 8 (str_trim text) of Some n \<Rightarrow> n | None \<Rightarrow> 1);
         threads = (case requested of Some n \<Rightarrow> n | None \<Rightarrow> max cores 1);
         dir = ''/data/local/tmp/.shadowdroid-fault-cpu-'' @ cx_id ctx; params = jobj [(''threads'', jnat threads)]
     in step (recorder_record fx params [KillPids dir]) (\<lambda>u.
        step (run_ok fx (load_command (quoted dir) dir threads)) (\<lambda>u.
        step (pause_ms fx 300) (\<lambda>u.
        step (read_ok fx (count_command (quoted dir))) (\<lambda>alive.
        if str_trim alive \<noteq> dec_digits threads then stop ''fault_verification_failed''
        else give (inj params (jobj [(''threads'', jnat threads), (''cores'', jnat cores)])))))))"

section \<open>Network\<close>

definition airplane_mode :: "'d fault_ext \<Rightarrow> ('d, injected) fault_prog" where
  "airplane_mode fx =
     step (get_setting fx ''global'' ''airplane_mode_on'') (\<lambda>prior.
     if prior = Some ''1'' then stop ''fault_no_effect'' else
     step (recorder_record fx (jobj [])
       [verified_step ''cmd connectivity airplane-mode disable'' ''turn airplane mode off''
          ''settings get global airplane_mode_on'' ''0'']) (\<lambda>u.
     step (run_ok fx ''cmd connectivity airplane-mode enable'') (\<lambda>u.
     step (verify fx ''settings get global airplane_mode_on'' ''1'') (\<lambda>u.
     give (inj (jobj []) (jobj [(''airplane_mode'', JBool True)]))))))"

definition radio_off :: "'d fault_ext \<Rightarrow> string \<Rightarrow> string \<Rightarrow> string \<Rightarrow> string \<Rightarrow> ('d, injected) fault_prog" where
  "radio_off fx setting disable enable label =
     step (get_setting fx ''global'' setting) (\<lambda>prior.
     if prior = Some ''0'' then stop ''fault_no_effect'' else
     let check = ''settings get global '' @ setting
     in step (recorder_record fx (jobj [])
          [verified_step enable (''turn '' @ label @ '' back on'') check ''1'']) (\<lambda>u.
        step (run_ok fx disable) (\<lambda>u.
        step (verify fx check ''0'') (\<lambda>u.
        give (inj (jobj []) (jobj [(setting, jnat 0)]))))))"

text \<open>A period in seconds with three decimals.\<close>

definition pad3 :: "nat \<Rightarrow> string" where
  "pad3 n = [char_of (48 + n div 100 mod 10), char_of (48 + n div 10 mod 10), char_of (48 + n mod 10)]"

definition flap_command :: "string \<Rightarrow> string \<Rightarrow> string \<Rightarrow> string" where
  "flap_command qdir dir seconds =
     ''mkdir -p '' @ qdir @ ''; nohup sh -c \"echo '' @ own_pid @ '' > '' @ dir @
     ''/flap.pid; while :; do cmd connectivity airplane-mode enable; sleep '' @ seconds @
     ''; cmd connectivity airplane-mode disable; sleep '' @ seconds @ ''; done\" >/dev/null 2>&1 &''"

definition network_flap :: "'d fault_ext \<Rightarrow> fault_ctx \<Rightarrow> nat \<Rightarrow> ('d, injected) fault_prog" where
  "network_flap fx ctx period =
     step (get_setting fx ''global'' ''airplane_mode_on'') (\<lambda>prior.
     let back_to = (if prior = Some ''1'' then ''enable'' else ''disable'');
         dir = ''/data/local/tmp/.shadowdroid-fault-flap-'' @ cx_id ctx;
         seconds = dec_digits (period div 1000) @ ''.'' @ pad3 (period mod 1000);
         params = jobj [(''period_ms'', jnat period)]
     in step (recorder_record fx params
          [KillPids dir,
           shell_step (''cmd connectivity airplane-mode '' @ back_to)
             (''leave airplane mode '' @ (if back_to = ''enable'' then ''on'' else ''off''))]) (\<lambda>u.
        step (run_ok fx (flap_command (quoted dir) dir seconds)) (\<lambda>u.
        step (verify fx ''settings get global airplane_mode_on'' ''1'') (\<lambda>u.
        give (inj params (jobj [(''period_ms'', jnat period),
               (''cycle'', JStr ''airplane mode on, then off, repeating'')]))))))"

definition DNS_FAILURE_HOST :: string where "DNS_FAILURE_HOST = ''dns-failure.shadowdroid.invalid''"

definition dns_failure :: "'d fault_ext \<Rightarrow> ('d, injected) fault_prog" where
  "dns_failure fx =
     step (get_setting fx ''global'' ''private_dns_mode'') (\<lambda>mode.
     step (get_setting fx ''global'' ''private_dns_specifier'') (\<lambda>host.
     if mode = Some ''hostname'' \<and> host = Some DNS_FAILURE_HOST then stop ''fault_no_effect'' else
     step (recorder_record fx (jobj [])
       [setting_step ''global'' ''private_dns_mode'' mode, setting_step ''global'' ''private_dns_specifier'' host]) (\<lambda>u.
     step (put_setting fx ''global'' ''private_dns_specifier'' (Some DNS_FAILURE_HOST)) (\<lambda>u.
     step (put_setting fx ''global'' ''private_dns_mode'' (Some ''hostname'')) (\<lambda>u.
     give ((inj (jobj []) (jobj [(''private_dns'', JStr DNS_FAILURE_HOST),
             (''was'', jobj [(''mode'', jopt JStr mode), (''specifier'', jopt JStr host)])]))
       \<lparr>in_warnings := [''DNS failures start once Android re-validates the network, usually within a few seconds'']\<rparr>))))))"

definition status_number :: "string \<Rightarrow> string \<Rightarrow> nat option" where
  "status_number label text =
     Option.bind (List.find (\<lambda>line. str_contains line label) (str_lines text)) (\<lambda>line.
     Option.bind (nth_opt 1 (split_on CHR '':'' line)) (\<lambda>value.
     Option.bind (nth_opt 0 (split_whitespace value)) (parse_unsigned 64)))"

definition opt_pair :: "'a option \<Rightarrow> 'b option \<Rightarrow> ('a \<times> 'b) option" where
  "opt_pair a b = Option.bind a (\<lambda>x. map_option (\<lambda>y. (x, y)) b)"

definition parse_network_status :: "string \<Rightarrow> (nat \<times> nat) option \<times> (nat \<times> nat) option" where
  "parse_network_status text =
     (map_option (\<lambda>(down, up). (up div 1000, down div 1000))
        (opt_pair (status_number ''download speed'' text) (status_number ''upload speed'' text)),
      opt_pair (status_number ''minimum latency'' text) (status_number ''maximum latency'' text))"

definition pair_json :: "string \<Rightarrow> string \<Rightarrow> (nat \<times> nat) option \<Rightarrow> json" where
  "pair_json a b v = jopt (\<lambda>(x, y). jobj [(a, jnat x), (b, jnat y)]) v"

definition speed_back :: "(nat \<times> nat) option \<Rightarrow> string" where
  "speed_back speed =
     (case speed of Some (up, down) \<Rightarrow> if up > 0 \<and> down > 0 then dec_digits up @ '':'' @ dec_digits down else ''full''
      | None \<Rightarrow> ''full'')"

definition latency_back :: "(nat \<times> nat) option \<Rightarrow> string" where
  "latency_back latency =
     (case latency of Some (lo, hi) \<Rightarrow> if hi > 0 then dec_digits lo @ '':'' @ dec_digits hi else ''none''
      | None \<Rightarrow> ''none'')"

definition network_speed :: "'d fault_ext \<Rightarrow> speed_profile \<Rightarrow> ('d, injected) fault_prog" where
  "network_speed fx profile =
     step (emu fx [''network'', ''status'']) (\<lambda>status.
     let back_to = speed_back (fst (parse_network_status status)); params = jobj [(''profile'', JStr (speed_name profile))]
     in step (recorder_record fx params
          [EmuBack [''network'', ''speed'', back_to] (''set the emulator link speed back to '' @ back_to)]) (\<lambda>u.
        step (emu fx [''network'', ''speed'', speed_name profile]) (\<lambda>u.
        step (emu fx [''network'', ''status'']) (\<lambda>now.
        give (inj params (jobj [(''link_kbps'', pair_json ''up'' ''down'' (fst (parse_network_status now))),
                                (''was'', JStr back_to)]))))))"

definition network_latency :: "'d fault_ext \<Rightarrow> latency_profile \<Rightarrow> ('d, injected) fault_prog" where
  "network_latency fx profile =
     step (emu fx [''network'', ''status'']) (\<lambda>status.
     let back_to = latency_back (snd (parse_network_status status));
         params = jobj [(''profile'', JStr (latency_name profile))]
     in step (recorder_record fx params
          [EmuBack [''network'', ''delay'', back_to] (''set the emulator link latency back to '' @ back_to)]) (\<lambda>u.
        step (emu fx [''network'', ''delay'', latency_name profile]) (\<lambda>u.
        step (emu fx [''network'', ''status'']) (\<lambda>now.
        give (inj params (jobj [(''latency_ms'', pair_json ''min'' ''max'' (snd (parse_network_status now))),
                                (''was'', JStr back_to)]))))))"


section \<open>Traffic\<close>

definition nonempty :: "string option \<Rightarrow> string option" where
  "nonempty v = (case v of None \<Rightarrow> None | Some s \<Rightarrow> if s = [] then None else Some s)"

definition scope_spec :: "string \<Rightarrow> proxy_scope \<Rightarrow> net_fault_effect \<Rightarrow> net_fault_spec" where
  "scope_spec fid scope effect =
     \<lparr>nf_id = fid, nf_host = nonempty (ps_host scope), nf_path = nonempty (ps_path scope),
      nf_percent = ps_percent scope, nf_seed = ps_seed scope, nf_effect = effect\<rparr>"

fun spec_for :: "string \<Rightarrow> inject_cmd \<Rightarrow> net_fault_spec option" where
  "spec_for fid (KHttpErrors scope status hold) = Some (scope_spec fid scope (ErrorStatus status))"
| "spec_for fid (KHttpLatency scope delay jitter hold) = Some (scope_spec fid scope (Latency delay jitter))"
| "spec_for fid (KBandwidth scope rate hold) = Some (scope_spec fid scope (Bandwidth rate))"
| "spec_for fid (KConnectionReset scope after hold) = Some (scope_spec fid scope (ConnectionReset after))"
| "spec_for fid (KTruncatedResponse scope keep hold) = Some (scope_spec fid scope (TruncateBody keep))"
| "spec_for fid (KTlsFailure host percent seed hold) =
     Some \<lparr>nf_id = fid, nf_host = Some host, nf_path = None, nf_percent = percent, nf_seed = seed, nf_effect = TlsFailure\<rparr>"
| "spec_for fid cmd = None"

definition proxy_params :: "net_fault_spec \<Rightarrow> json" where
  "proxy_params sp =
     (let j = spec_json sp in
      jobj [(''host'', jget ''host'' j), (''path'', jget ''path'' j), (''percent'', jnat (nf_percent sp)),
            (''seed'', jnat (nf_seed sp)), (''effect'', jget ''effect'' j)])"

definition proxy_inject :: "'d fault_ext \<Rightarrow> fault_ctx \<Rightarrow> inject_cmd \<Rightarrow> ('d, injected) fault_prog" where
  "proxy_inject fx ctx cmd =
     step (look (\<lambda>w. fx_proxy_running fx (fw_dev w))) (\<lambda>running.
     if \<not> running then stop ''fault_requires_proxy''
     else
       step (need ''panicked: not a proxy fault'' (spec_for (cx_id ctx) cmd)) (\<lambda>sp.
       if validate_fault sp \<noteq> None then stop ''fault_invalid_param''
       else
         let params = proxy_params sp; request = jobj [(''op'', JStr ''fault_add''), (''spec'', spec_json sp)]
         in step (recorder_record fx params [ProxyFaultBack (cx_id ctx)]) (\<lambda>u.
            step (changing (ProxyChange request) (fx_control fx request)) (\<lambda>reply.
            if jget ''ok'' reply \<noteq> JBool True then
              (let message = (case json_str (jget ''error'' reply) of Some m \<Rightarrow> m | None \<Rightarrow> [])
               in if str_contains message ''unknown'' \<or> message = [] then stop ''fault_proxy_outdated''
                  else stop ''the proxy refused the fault'')
            else
              give \<lparr>in_params = params, in_observed = jobj [(''proxy_fault'', jget ''fault'' reply)],
                in_warnings = [''only traffic the app sends through the ShadowDroid proxy is affected; `net log` lists hit requests with fault_ids''],
                in_next_actions = [''shadowdroid -d '' @ fx_serial fx @ '' net log'']\<rparr>))))"

text \<open>Live hit counts of the faults installed in the proxy.\<close>

definition fault_hits_of :: "json \<Rightarrow> (string \<times> json) list" where
  "fault_hits_of fault =
     (case json_str (jget ''id'' (jget ''spec'' fault)) of
        None \<Rightarrow> []
      | Some fid \<Rightarrow> [(fid, jobj [(''matching_requests'', jget ''matching_requests'' fault), (''hits'', jget ''hits'' fault)])])"

definition proxy_stats :: "'d fault_ext \<Rightarrow> ('d, json option) fault_prog" where
  "proxy_stats fx =
     step (look (\<lambda>w. fx_proxy_running fx (fw_dev w))) (\<lambda>running.
     if \<not> running then give None
     else attempt (outside (fx_control fx (jobj [(''op'', JStr ''fault_list'')]))) (\<lambda>r.
       give (case r of
           Inl e \<Rightarrow> None
         | Inr reply \<Rightarrow>
             (case jget ''faults'' reply of
                JArr faults \<Rightarrow> Some (jobj (concat (map fault_hits_of faults)))
              | _ \<Rightarrow> None))))"

section \<open>Interruptions\<close>

definition number_valid :: "string \<Rightarrow> bool" where
  "number_valid number \<longleftrightarrow>
     number \<noteq> [] \<and> length number \<le> 20 \<and> list_all (\<lambda>c. is_digit c \<or> c = CHR ''+'') number"

definition incoming_call :: "'d fault_ext \<Rightarrow> string \<Rightarrow> ('d, injected) fault_prog" where
  "incoming_call fx number =
     (if \<not> number_valid number then stop ''fault_invalid_param''
      else
        let params = jobj [(''number'', JStr number)]
        in step (recorder_record fx params
             [EmuBack [''gsm'', ''cancel'', number] (''hang up the call from '' @ number)]) (\<lambda>u.
           step (emu fx [''gsm'', ''call'', number]) (\<lambda>u.
           step (verify fx ''dumpsys telephony.registry | grep mCallState'' ''mCallState=1'') (\<lambda>u.
           give (inj params (jobj [(''call_state'', JStr ''ringing'')]))))))"

definition sms :: "'d fault_ext \<Rightarrow> string \<Rightarrow> string \<Rightarrow> ('d, injected) fault_prog" where
  "sms fx sender body =
     (if \<not> number_valid sender then stop ''fault_invalid_param''
      else if body = [] \<or> CHR 0x0A \<in> set body then stop ''fault_invalid_param''
      else step (emu fx [''sms'', ''send'', sender, body]) (\<lambda>u.
        give (inj (jobj [(''from'', JStr sender), (''text_chars'', jnat (length (str_chars body)))])
                  (jobj [(''delivered_to_modem'', JBool True)]))))"

definition screen_off :: "'d fault_ext \<Rightarrow> ('d, injected) fault_prog" where
  "screen_off fx =
     (let check = ''dumpsys power | grep -m1 mWakefulness='' in
      step (read_ok fx check) (\<lambda>prior.
      if str_contains prior ''Asleep'' \<or> str_contains prior ''Dozing'' then stop ''fault_no_effect''
      else
        step (recorder_record fx (jobj [])
          [verified_step ''input keyevent KEYCODE_WAKEUP; wm dismiss-keyguard''
             ''wake the screen and dismiss a non-secure keyguard'' check ''Awake'']) (\<lambda>u.
        step (run_ok fx ''input keyevent KEYCODE_SLEEP'') (\<lambda>u.
        step (verify fx check ''Asleep'') (\<lambda>u.
        give (inj (jobj []) (jobj [(''wakefulness'', JStr ''Asleep'')])))))))"

definition notification_shade :: "'d fault_ext \<Rightarrow> panel \<Rightarrow> ('d, injected) fault_prog" where
  "notification_shade fx panel =
     (let expand = (case panel of
            Notifications \<Rightarrow> ''cmd statusbar expand-notifications'' | QuickSettings \<Rightarrow> ''cmd statusbar expand-settings'');
          params = jobj [(''panel'', JStr (panel_name panel))]
      in step (recorder_record fx params [shell_step ''cmd statusbar collapse'' ''collapse the shade'']) (\<lambda>u.
         step (run_ok fx expand) (\<lambda>u.
         step (verify fx ''dumpsys window | grep -m1 mCurrentFocus'' ''NotificationShade'') (\<lambda>u.
         give (inj params (jobj [(''focused_window'', JStr ''NotificationShade'')]))))))"

fun await_gone :: "'d fault_ext \<Rightarrow> nat \<Rightarrow> ('d, bool) fault_prog" where
  "await_gone fx 0 = give False"
| "await_gone fx (Suc n) =
     step (pause_ms fx 250) (\<lambda>u.
     attempt (outside (fx_devices fx)) (\<lambda>r.
     let online = (case r of Inl e \<Rightarrow> False | Inr listed \<Rightarrow> fx_serial fx \<in> set (map fst listed))
     in if \<not> online then give True else await_gone fx n))"

definition emulator_crash :: "'d fault_ext \<Rightarrow> bool \<Rightarrow> bool \<Rightarrow> ('d, injected) fault_prog" where
  "emulator_crash fx relaunch cold_boot =
     step (look (\<lambda>w. fx_avd_name fx (fw_dev w))) (\<lambda>name.
     step (need ''fault_requires_emulator'' name) (\<lambda>avd.
     step (outside (fx_release fx)) (\<lambda>u.
     step (emu fx [''kill'']) (\<lambda>u.
     step (await_gone fx 40) (\<lambda>gone.
     if \<not> gone then stop ''the emulator is still listed by adb after it was killed''
     else
       let params = jobj [(''relaunch'', JBool relaunch), (''cold_boot'', JBool cold_boot)];
           observed = [(''avd'', JStr avd), (''killed'', JBool True)]
       in if relaunch then
            step (outside (fx_launch_avd fx avd cold_boot)) (\<lambda>log.
            give \<lparr>in_params = params,
              in_observed = jobj (observed @ [(''relaunched'', JBool True), (''emulator_log'', JStr log)]),
              in_warnings = [''the emulator is booting; `connect` waits for it and restarts the ShadowDroid server''],
              in_next_actions = [''shadowdroid -d '' @ fx_serial fx @ '' connect'']\<rparr>)
          else
            give \<lparr>in_params = params, in_observed = jobj (observed @ [(''relaunched'', JBool False)]),
              in_warnings = [''the emulator is gone; start AVD '' @ avd @ '' again (or re-run with --relaunch)''],
              in_next_actions = []\<rparr>)))))"

section \<open>Dispatch\<close>

fun kind_inject :: "'d fault_ext \<Rightarrow> fault_ctx \<Rightarrow> inject_cmd \<Rightarrow> ('d, injected) fault_prog" where
  "kind_inject fx ctx (KProcessDeath app relaunch timeout) = process_death fx ctx relaunch timeout"
| "kind_inject fx ctx (KDontKeepActivities hold) = dont_keep_activities fx"
| "kind_inject fx ctx (KLowMemory app level) = low_memory fx ctx level"
| "kind_inject fx ctx (KRevokePermission app permission hold) = revoke_permission fx ctx permission"
| "kind_inject fx ctx (KOrientation r hold) = orientation fx r"
| "kind_inject fx ctx (KNightMode mode hold) = night_mode fx mode"
| "kind_inject fx ctx (KFontScale scale hold) = font_scale fx scale"
| "kind_inject fx ctx (KDisplaySize sz density hold) = display_size fx sz density"
| "kind_inject fx ctx (KAppLocale app locales hold) = app_locale fx ctx locales"
| "kind_inject fx ctx (KSplitScreen app percent hold) = split_screen fx ctx percent"
| "kind_inject fx ctx (KPip app) = pip fx ctx"
| "kind_inject fx ctx (KDoze hold) = doze fx"
| "kind_inject fx ctx (KStandbyBucket app b hold) = standby_bucket fx ctx b"
| "kind_inject fx ctx (KBattery level saver hold) = battery fx level saver"
| "kind_inject fx ctx (KThermal status hold) = thermal fx status"
| "kind_inject fx ctx (KStorageFull free_mb allow hold) = storage_full fx ctx free_mb"
| "kind_inject fx ctx (KClock offset allow hold) = clock fx offset"
| "kind_inject fx ctx (KTimezone tz hold) = timezone fx tz"
| "kind_inject fx ctx (KCpuLoad threads hold) = cpu_load fx ctx threads"
| "kind_inject fx ctx (KAirplaneMode hold) = airplane_mode fx"
| "kind_inject fx ctx (KWifiOff hold) = radio_off fx ''wifi_on'' ''svc wifi disable'' ''svc wifi enable'' ''Wi-Fi''"
| "kind_inject fx ctx (KMobileDataOff hold) =
     radio_off fx ''mobile_data'' ''svc data disable'' ''svc data enable'' ''mobile data''"
| "kind_inject fx ctx (KNetworkFlap period hold) = network_flap fx ctx period"
| "kind_inject fx ctx (KDnsFailure hold) = dns_failure fx"
| "kind_inject fx ctx (KNetworkSpeed profile hold) = network_speed fx profile"
| "kind_inject fx ctx (KNetworkLatency profile' hold) = network_latency fx profile'"
| "kind_inject fx ctx (KIncomingCall number hold) = incoming_call fx number"
| "kind_inject fx ctx (KSms sender body) = sms fx sender body"
| "kind_inject fx ctx (KScreenOff hold) = screen_off fx"
| "kind_inject fx ctx (KNotificationShade panel hold) = notification_shade fx panel"
| "kind_inject fx ctx (KEmulatorCrash relaunch cold) = emulator_crash fx relaunch cold"
| "kind_inject fx ctx cmd = proxy_inject fx ctx cmd"

end
