(* ===== verification/FaultInject.thy ===== *)
theory FaultInject
  imports FaultKinds
begin

text \<open>
  The fault commands themselves (\<^verbatim>\<open>fault/mod.rs\<close>): the checks before an injection, the injection with its
  roll-back, clearing with its variants, the expiry timer, snapshots, and what other commands read of
  the journal. What a command prints is the value it returns; where its next actions are fixed
  texts they are left out.
\<close>

section \<open>Checks\<close>

definition conflicting :: "string list \<Rightarrow> fault_record \<Rightarrow> bool" where
  "conflicting wanted active \<longleftrightarrow> list_ex (\<lambda>r. r \<in> set wanted) (ft_resources active)"

definition app_check :: "'d fault_ext \<Rightarrow> kind_info \<Rightarrow> string option \<Rightarrow> ('d, unit) fault_prog" where
  "app_check fx info app =
     (if ki_needs_app info then
        step (need ''fault_requires_app'' app) (\<lambda>package.
        attempt (outside (fx_shell fx (''pm path '' @ quoted package))) (\<lambda>r.
        let installed = (case r of Inl e \<Rightarrow> [] | Inr output \<Rightarrow> output)
        in if \<not> str_contains installed ''package:'' then stop ''fault_app_not_installed'' else give ()))
      else give ())"

definition preflight ::
  "'d fault_ext \<Rightarrow> kind_info \<Rightarrow> inject_cmd \<Rightarrow> string option \<Rightarrow> ('d, unit) fault_prog" where
  "preflight fx info cmd app =
     step (app_check fx info app) (\<lambda>u.
     step (is_emulator fx) (\<lambda>emulator.
     if ki_scope info = OnEmulator \<and> \<not> emulator then stop ''fault_requires_emulator''
     else if ki_destructive info \<and> \<not> emulator \<and> \<not> allow_physical cmd \<and> ki_scope info \<noteq> OnEmulator
       then stop ''fault_requires_allow_physical''
     else
       step (device_sdk fx) (\<lambda>sdk.
       if sdk < ki_min_sdk info then stop ''fault_unsupported_api''
       else if ki_effect info = ActionFault then give ()
       else
         step (journal_load fx) (\<lambda>faults.
         if list_ex (conflicting (resources_for info app)) faults then stop ''fault_conflict'' else give ()))))"

section \<open>Injection\<close>

definition effect_name :: "fault_effect \<Rightarrow> string" where
  "effect_name e = (case e of StateFault \<Rightarrow> ''state'' | ActionFault \<Rightarrow> ''action'')"

definition fault_view :: "fault_record \<Rightarrow> kind_info option \<Rightarrow> nat \<Rightarrow> json" where
  "fault_view r info now =
     jobj (record_fields r now @
       (case info of None \<Rightarrow> []
        | Some i \<Rightarrow> [(''category'', JStr (ki_category i)), (''effect'', JStr (effect_name (ki_effect i)))]))"

definition fresh_record ::
  "'d fault_ext \<Rightarrow> kind_info \<Rightarrow> string option \<Rightarrow> string \<Rightarrow> nat \<Rightarrow> nat option \<Rightarrow> fault_record" where
  "fresh_record fx info app fid injected_at expires_at =
     \<lparr>ft_id = fid, ft_kind = ki_kind info, ft_device = fx_serial fx, ft_app = app, ft_params = jobj [],
      ft_state = FaultActive, ft_injected_at_ms = injected_at, ft_expires_at_ms = expires_at,
      ft_observed = jobj [], ft_restore = [], ft_resources = resources_for info app, ft_expiry_pid = None,
      ft_restore_errors = []\<rparr>"

text \<open>Replacing the first record with an id, as \<open>iter_mut().find\<close> does, and marking one as not restored.\<close>

fun update_first :: "string \<Rightarrow> (fault_record \<Rightarrow> fault_record) \<Rightarrow> fault_record list \<Rightarrow> fault_record list" where
  "update_first fid f [] = []"
| "update_first fid f (r # rs) = (if ft_id r = fid then f r # rs else r # update_first fid f rs)"

definition mark_failed :: "string \<Rightarrow> json list \<Rightarrow> fault_record list \<Rightarrow> fault_record list" where
  "mark_failed fid errors =
     update_first fid (\<lambda>r. r\<lparr>ft_state := FaultRestoreFailed, ft_restore_errors := errors\<rparr>)"

text \<open>Saving whose failure is ignored.\<close>

definition save_quietly :: "'d fault_ext \<Rightarrow> fault_record list \<Rightarrow> ('d, unit) fault_prog" where
  "save_quietly fx faults = attempt (journal_save fx faults) (\<lambda>r. give ())"

definition roll_back :: "'d fault_ext \<Rightarrow> fault_record \<Rightarrow> string \<Rightarrow> ('d, json) fault_prog" where
  "roll_back fx r failure =
     step (apply_plan fx (ft_restore r)) (\<lambda>errors.
     step (journal_or_empty fx) (\<lambda>faults.
     if errors = [] then
       step (save_quietly fx (others (ft_id r) faults)) (\<lambda>u.
       step (append_event fx ''rolled_back'' r) (\<lambda>u. stop failure))
     else
       step (save_quietly fx (mark_failed (ft_id r) errors faults)) (\<lambda>u.
       step (append_event fx ''restore_failed'' r) (\<lambda>u. stop ''fault_restore_failed''))))"

definition begin_recording :: "fault_record \<Rightarrow> ('d, unit) fault_prog" where
  "begin_recording r = alter (\<lambda>w. w\<lparr>fw_record := r, fw_recorded := False\<rparr>)"

definition finish_state ::
  "'d fault_ext \<Rightarrow> fault_record \<Rightarrow> nat option \<Rightarrow> ('d, fault_record) fault_prog" where
  "finish_state fx r expires_at =
     step (look fw_recorded) (\<lambda>recorded.
     if \<not> recorded then stop ''internal error: the state fault did not journal its restore plan''
     else
       step (case expires_at of
               None \<Rightarrow> give r
             | Some at_ms \<Rightarrow>
                 attempt (outside (fx_spawn_timer fx (ft_id r) at_ms)) (\<lambda>pid.
                 give (r\<lparr>ft_expiry_pid := (case pid of Inl e \<Rightarrow> None | Inr p \<Rightarrow> Some p)\<rparr>))) (\<lambda>r.
       step (journal_load fx) (\<lambda>faults.
       step (journal_save fx (update_first (ft_id r) (\<lambda>slot. r) faults)) (\<lambda>u.
       step (append_event fx ''injected'' r) (\<lambda>u. give r)))))"

definition inject_report :: "'d fault_ext \<Rightarrow> kind_info \<Rightarrow> injected \<Rightarrow> fault_record \<Rightarrow> nat \<Rightarrow> json" where
  "inject_report fx info injected r now =
     (let command = ''shadowdroid -d '' @ fx_serial fx;
          view = fault_view r (Some info) now;
          view = (if ki_effect info = ActionFault then
                    (case view of JObj kvs \<Rightarrow> JObj (obj_put ''state'' (JStr ''completed'') kvs) | j \<Rightarrow> j) else view);
          actions = (if ki_effect info = StateFault then [command @ '' fault clear '' @ ft_id r] else []) @
            in_next_actions injected @ [command @ '' why'']
      in jobj [(''fault'', view), (''warnings'', JArr (map JStr (in_warnings injected))),
               (''next_actions'', JArr (map JStr actions))])"

text \<open>What follows the kind's program, with its outcome.\<close>

definition inject_rest ::
  "'d fault_ext \<Rightarrow> kind_info \<Rightarrow> nat option \<Rightarrow> injected outcome \<Rightarrow> ('d, json) fault_prog" where
  "inject_rest fx info expires_at outcome =
     step (look fw_record) (\<lambda>r.
     case outcome of
       Inl failure \<Rightarrow> step (look fw_recorded) (\<lambda>recorded. if recorded then roll_back fx r failure else stop failure)
     | Inr injected \<Rightarrow>
         let r = r\<lparr>ft_params := in_params injected, ft_observed := in_observed injected\<rparr>
         in step (if ki_effect info = StateFault then finish_state fx r expires_at
                  else step (append_event fx ''completed'' r) (\<lambda>u. give r)) (\<lambda>r.
            step (now_ms fx) (\<lambda>now. give (inject_report fx info injected r now))))"

definition fault_inject :: "'d fault_ext \<Rightarrow> inject_cmd \<Rightarrow> ('d, json) fault_prog" where
  "fault_inject fx cmd =
     step (need ''panicked: every inject subcommand is cataloged'' (find_kind (kind_name cmd))) (\<lambda>info.
     let app = cmd_app cmd
     in step (preflight fx info cmd app) (\<lambda>u.
        step (outside (\<lambda>d. case fx_new_id fx d of (d', fid) \<Rightarrow> (d', Inr fid))) (\<lambda>fid.
        step (now_ms fx) (\<lambda>injected_at.
        let expires_at = map_option (\<lambda>duration. u64_add injected_at duration) (duration_ms cmd)
        in step (begin_recording (fresh_record fx info app fid injected_at expires_at)) (\<lambda>u.
           attempt (kind_inject fx \<lparr>cx_id = fid, cx_app = app\<rparr> cmd) (\<lambda>outcome.
           inject_rest fx info expires_at outcome))))))"

section \<open>Clearing\<close>

text \<open>Newest first; records of the same millisecond keep their order (the sort is stable).\<close>

definition newest_first :: "fault_record list \<Rightarrow> fault_record list" where
  "newest_first rs = rev (sort_key ft_injected_at_ms (rev rs))"

definition stop_expiry :: "'d fault_ext \<Rightarrow> fault_record \<Rightarrow> ('d, unit) fault_prog" where
  "stop_expiry fx r =
     (case ft_expiry_pid r of
        None \<Rightarrow> give ()
      | Some pid \<Rightarrow> outside (\<lambda>d. (fx_stop_timer fx pid (ft_id r) d, Inr ())))"

definition clear_record ::
  "'d fault_ext \<Rightarrow> string \<Rightarrow> fault_record \<Rightarrow> ('d, fault_record + fault_record \<times> json list) fault_prog" where
  "clear_record fx event_name r =
     step (apply_plan fx (ft_restore r)) (\<lambda>errors.
     step (journal_or_empty fx) (\<lambda>faults.
     if errors = [] then
       step (append_event fx event_name r) (\<lambda>u.
       step (stop_expiry fx r) (\<lambda>u.
       step (save_quietly fx (others (ft_id r) faults)) (\<lambda>u. give (Inl r))))
     else
       step (append_event fx ''restore_failed'' r) (\<lambda>u.
       step (save_quietly fx (mark_failed (ft_id r) errors faults)) (\<lambda>u. give (Inr (r, errors))))))"

fun clear_loop ::
  "'d fault_ext \<Rightarrow> string \<Rightarrow> fault_record list \<Rightarrow> ('d, (fault_record + fault_record \<times> json list) list) fault_prog" where
  "clear_loop fx event_name [] = give []"
| "clear_loop fx event_name (r # rs) =
     step (clear_record fx event_name r) (\<lambda>x.
     step (clear_loop fx event_name rs) (\<lambda>xs. give (x # xs)))"

definition cleared_of :: "(fault_record + fault_record \<times> json list) list \<Rightarrow> fault_record list" where
  "cleared_of xs = List.map_filter (\<lambda>x. case x of Inl r \<Rightarrow> Some r | Inr e \<Rightarrow> None) xs"

definition failed_of :: "(fault_record + fault_record \<times> json list) list \<Rightarrow> (fault_record \<times> json list) list" where
  "failed_of xs = List.map_filter (\<lambda>x. case x of Inl r \<Rightarrow> None | Inr e \<Rightarrow> Some e) xs"

definition clear_records ::
  "'d fault_ext \<Rightarrow> fault_record list \<Rightarrow> string \<Rightarrow> ('d, fault_record list \<times> (fault_record \<times> json list) list) fault_prog" where
  "clear_records fx targets event_name =
     step (clear_loop fx event_name (newest_first targets)) (\<lambda>xs. give (cleared_of xs, failed_of xs))"

record clear_args =
  ca_ids :: "string list"
  ca_all :: bool
  ca_expired :: bool

fun resolve_ids :: "fault_record list \<Rightarrow> bool \<Rightarrow> string list \<Rightarrow> (fault_record list \<times> string list) outcome" where
  "resolve_ids faults expired [] = Inr ([], [])"
| "resolve_ids faults expired (i # ids) =
     (case List.find (\<lambda>fault. ft_id fault = i) faults of
        Some r \<Rightarrow> and_then (resolve_ids faults expired ids) (\<lambda>(targets, gone). Inr (r # targets, gone))
      | None \<Rightarrow>
          if expired then and_then (resolve_ids faults expired ids) (\<lambda>(targets, gone). Inr (targets, i # gone))
          else Inl ''fault_not_found'')"

record clear_report =
  cr_cleared :: "fault_record list"
  cr_already_gone :: "string list"
  cr_remaining :: nat

definition fault_clear :: "'d fault_ext \<Rightarrow> clear_args \<Rightarrow> ('d, clear_report) fault_prog" where
  "fault_clear fx args =
     step (journal_load fx) (\<lambda>faults.
     step (lift (if ca_all args then Inr (faults, []) else resolve_ids faults (ca_expired args) (ca_ids args)))
       (\<lambda>(targets, gone).
     step (clear_records fx targets (if ca_expired args then ''expired'' else ''cleared'')) (\<lambda>(cleared, failed).
     if failed \<noteq> [] then stop ''fault_restore_failed''
     else step (journal_load fx) (\<lambda>left.
       give \<lparr>cr_cleared = cleared, cr_already_gone = gone, cr_remaining = length left\<rparr>))))"

definition clear_all_quietly ::
  "'d fault_ext \<Rightarrow> ('d, (fault_record list \<times> (fault_record \<times> json list) list) option) fault_prog" where
  "clear_all_quietly fx =
     attempt (journal_load fx) (\<lambda>r.
     case r of
       Inl e \<Rightarrow> give None
     | Inr faults \<Rightarrow>
         if faults = [] then give None
         else step (clear_records fx faults ''cleared_by_disconnect'') (\<lambda>result. give (Some result)))"

section \<open>Leftovers and timers\<close>

definition is_stale :: "fault_record \<Rightarrow> nat \<Rightarrow> bool" where
  "is_stale r now \<longleftrightarrow>
     ft_state r = FaultRestoreFailed \<or>
     (case ft_expires_at_ms r of Some expires \<Rightarrow> u64_add expires 5000 < now | None \<Rightarrow> False)"

definition fault_label :: "fault_record \<Rightarrow> string" where
  "fault_label r = ft_id r @ '' ('' @ ft_kind r @ '')''"

definition fault_summary :: "'d fault_ext \<Rightarrow> ('d, string list \<times> string list) fault_prog" where
  "fault_summary fx =
     step (now_ms fx) (\<lambda>now.
     step (journal_or_empty fx) (\<lambda>faults.
     give (map fault_label (filter (\<lambda>r. \<not> is_stale r now) faults),
           map fault_label (filter (\<lambda>r. is_stale r now) faults))))"

definition clear_stale ::
  "'d fault_ext \<Rightarrow> ('d, fault_record list \<times> (fault_record \<times> json list) list) fault_prog" where
  "clear_stale fx =
     step (now_ms fx) (\<lambda>now.
     step (journal_or_empty fx) (\<lambda>faults.
     let stale = filter (\<lambda>r. is_stale r now) faults
     in if stale = [] then give ([], []) else clear_records fx stale ''cleared_by_doctor''))"

definition is_due :: "fault_record \<Rightarrow> nat \<Rightarrow> bool" where
  "is_due r now \<longleftrightarrow>
     ft_state r = FaultActive \<and> (case ft_expires_at_ms r of Some expires \<Rightarrow> expires \<le> now | None \<Rightarrow> False)"

definition clear_due :: "'d fault_ext \<Rightarrow> ('d, unit) fault_prog" where
  "clear_due fx =
     step (now_ms fx) (\<lambda>now.
     step (journal_or_empty fx) (\<lambda>faults.
     let due = filter (\<lambda>r. is_due r now) faults
     in if due = [] then give () else step (clear_records fx due ''expired'') (\<lambda>result. give ())))"

text \<open>The hidden timer sleeps until the deadline and then clears its fault like any other client.\<close>

definition run_expire :: "'d fault_ext \<Rightarrow> string \<Rightarrow> nat \<Rightarrow> ('d, clear_report) fault_prog" where
  "run_expire fx fid at_ms =
     step (now_ms fx) (\<lambda>now.
     step (pause_ms fx (at_ms - now)) (\<lambda>u.
     fault_clear fx \<lparr>ca_ids = [fid], ca_all = False, ca_expired = True\<rparr>))"

section \<open>Reports\<close>

definition with_hits :: "json option \<Rightarrow> fault_record \<Rightarrow> nat \<Rightarrow> json" where
  "with_hits stats r now =
     (case fault_view r (find_kind (ft_kind r)) now of
        JObj kvs \<Rightarrow>
          (case stats of
             Some (JObj hits) \<Rightarrow>
               (case map_of hits (ft_id r) of Some h \<Rightarrow> JObj (obj_put ''proxy_hits'' h kvs) | None \<Rightarrow> JObj kvs)
           | _ \<Rightarrow> JObj kvs)
      | j \<Rightarrow> j)"

definition is_proxy_fault :: "fault_record \<Rightarrow> bool" where
  "is_proxy_fault r \<longleftrightarrow> (case find_kind (ft_kind r) of Some info \<Rightarrow> ki_scope info = OnProxy | None \<Rightarrow> False)"

definition fault_list :: "'d fault_ext \<Rightarrow> ('d, json list) fault_prog" where
  "fault_list fx =
     step (journal_load fx) (\<lambda>faults.
     step (if list_ex is_proxy_fault faults then proxy_stats fx else give None) (\<lambda>stats.
     step (now_ms fx) (\<lambda>now.
     give (map (\<lambda>r. with_hits stats r now) faults))))"

definition fault_history :: "'d fault_ext \<Rightarrow> nat \<Rightarrow> ('d, json) fault_prog" where
  "fault_history fx since_ms =
     step (journal_or_empty fx) (\<lambda>faults.
     step (now_ms fx) (\<lambda>now.
     step (look fw_events) (\<lambda>events.
     give (jobj [(''active'', JArr (map (\<lambda>r. fault_view r (find_kind (ft_kind r)) now) faults)),
                 (''recent'', JArr (events_since events since_ms 20))]))))"

section \<open>Snapshots\<close>

definition snapshot_name_valid :: "string \<Rightarrow> bool" where
  "snapshot_name_valid name \<longleftrightarrow>
     name \<noteq> [] \<and> length name \<le> 64 \<and> list_all (\<lambda>c. is_alnum c \<or> c \<in> set ''_-.'') name"

datatype snapshot_cmd = SnapSave string | SnapLoad string | SnapList | SnapDelete string

text \<open>Waiting for the emulator after a load: at least half a second a round bounds the rounds.\<close>

fun boot_loop :: "'d fault_ext \<Rightarrow> nat \<Rightarrow> nat \<Rightarrow> ('d, bool) fault_prog" where
  "boot_loop fx deadline 0 = stop ''out of fuel''"
| "boot_loop fx deadline (Suc fuel) =
     step (now_ms fx) (\<lambda>now.
     if \<not> now < deadline then give False
     else
       step (pause_ms fx 500) (\<lambda>u.
       attempt (outside (fx_devices fx)) (\<lambda>r.
       let online = (case r of Inl e \<Rightarrow> False | Inr listed \<Rightarrow> (fx_serial fx, ''device'') \<in> set listed)
       in if \<not> online then boot_loop fx deadline fuel
          else attempt (dev_read fx ''getprop sys.boot_completed'') (\<lambda>r.
            case r of
              Inl e \<Rightarrow> boot_loop fx deadline fuel
            | Inr booted \<Rightarrow> if str_trim (rn_output booted) = ''1'' then give True else boot_loop fx deadline fuel))))"

definition wait_until_booted :: "'d fault_ext \<Rightarrow> nat \<Rightarrow> ('d, bool) fault_prog" where
  "wait_until_booted fx timeout =
     step (now_ms fx) (\<lambda>now. boot_loop fx (now + timeout) (timeout div 500 + 2))"

fun snapshot_line :: "string \<Rightarrow> json option" where
  "snapshot_line line =
     (let parts = split_whitespace line in
      if 4 \<le> length parts then
        Some (jobj [(''id'', JStr (parts ! 0)), (''name'', JStr (parts ! 1)), (''size'', JStr (parts ! 2)),
                    (''saved_at'', JStr (join_with '' '' (drop 3 parts)))])
      else None)"

definition snapshots_of :: "string \<Rightarrow> json list" where
  "snapshots_of text =
     List.map_filter snapshot_line
       (drop 1 (dropWhile (\<lambda>line. \<not> starts_with (trim_start line) ''--'') (str_lines text)))"

definition load_warnings :: "nat \<Rightarrow> bool \<Rightarrow> string list" where
  "load_warnings active back_again =
     (if active > 0 then
        [dec_digits active @ '' fault(s) injected before the load are still listed; the snapshot may already have undone them, and `fault clear --all` reconciles'']
      else []) @
     (if back_again then [] else [''the emulator did not report booted within 60 s after the load''])"

definition snapshot_run :: "'d fault_ext \<Rightarrow> snapshot_cmd \<Rightarrow> ('d, json) fault_prog" where
  "snapshot_run fx cmd =
     step (is_emulator fx) (\<lambda>emulator.
     if \<not> emulator then stop ''fault_requires_emulator''
     else case cmd of
       SnapSave name \<Rightarrow>
         if \<not> snapshot_name_valid name then stop ''fault_invalid_param''
         else step (emu fx [''avd'', ''snapshot'', ''save'', name]) (\<lambda>u.
           give (jobj [(''snapshot'', JStr name), (''saved'', JBool True)]))
     | SnapLoad name \<Rightarrow>
         if \<not> snapshot_name_valid name then stop ''fault_invalid_param''
         else
           step (emu fx [''avd'', ''snapshot'', ''load'', name]) (\<lambda>u.
           step (wait_until_booted fx 60000) (\<lambda>back_again.
           step (journal_load fx) (\<lambda>faults.
           give (jobj [(''snapshot'', JStr name), (''loaded'', JBool True), (''device_back'', JBool back_again),
                       (''warnings'', JArr (map JStr (load_warnings (length faults) back_again)))]))))
     | SnapList \<Rightarrow>
         step (emu fx [''avd'', ''snapshot'', ''list'']) (\<lambda>text. give (JArr (snapshots_of text)))
     | SnapDelete name \<Rightarrow>
         if \<not> snapshot_name_valid name then stop ''fault_invalid_param''
         else step (emu fx [''avd'', ''snapshot'', ''delete'', name]) (\<lambda>u.
           give (jobj [(''snapshot'', JStr name), (''deleted'', JBool True)])))"

end
