(* ===== verification/FaultLaws.thy ===== *)
theory FaultLaws
  imports FaultInject
begin

text \<open>
  What every program of the fault commands leaves alone. A program that only reads keeps any property
  of the world that does not look at the outside (\<open>reading_invariant\<close>); one that acts keeps any such
  property that also survives the note of a change (\<open>acting_invariant\<close>). The programs are taken apart
  once, here, and the invariants of the proofs that follow are interpretations.
\<close>

lemma keeps_opt_step [keep_intros]: "(\<And>a. keeps I (p a)) \<Longrightarrow> keeps I (opt_step v p)"
  by (auto simp: opt_step_def intro!: keep_intros)

lemma keeps_pair [keep_intros]: "keeps I (\<lambda>w. (w, r))"
  by (simp add: keeps_def)

locale reading_invariant =
  fixes I :: "'d fault_world \<Rightarrow> bool"
  assumes dev: "I w \<Longrightarrow> I (w\<lparr>fw_dev := d\<rparr>)"
begin

lemma keeps_outside: "keeps I (outside f)"
  using dev by (auto simp: keeps_def outside_def split: prod.splits)

lemma keeps_load: "keeps I (journal_load fx)" "keeps I (journal_or_empty fx)"
  by (simp_all add: keeps_def journal_load_def journal_or_empty_def attempt_def)

lemma keeps_wait_loop: "keeps I (wait_loop fx check deadline fuel)"
  by (induction fuel)
    (auto simp: now_ms_def pause_ms_def dev_read_def intro!: keep_intros keeps_outside)

lemma keeps_await_gone: "keeps I (await_gone fx n)"
  by (induction n) (auto simp: pause_ms_def Let_def intro!: keep_intros keeps_outside)

lemma keeps_await_pid: "keeps I (await_pid fx package n)"
  by (induction n) (auto simp: pause_ms_def pid_of_def dev_read_def intro!: keep_intros keeps_outside)

lemma keeps_primitive_reads:
  "keeps I (pause_ms fx ms)"
  "keeps I (now_ms fx)"
  "keeps I (dev_read fx command)"
  "keeps I (read_ok fx command)"
  "keeps I (get_setting fx ns key)"
  "keeps I (pid_of fx package)"
  "keeps I (device_epoch_ms fx)"
  "keeps I (uptime_ms_now fx)"
  "keeps I (device_sdk fx)"
  "keeps I (is_emulator fx)"
  by (auto simp: pause_ms_def now_ms_def dev_read_def read_ok_def get_setting_def pid_of_def device_sdk_def
      is_emulator_def uptime_ms_now_def device_epoch_ms_def Let_def intro!: keep_intros keeps_outside)

lemma keeps_kind_reads:
  "keeps I (wait_for fx check)"
  "keeps I (verify fx command contains)"
  "keeps I (the_app ctx)"
  "keeps I (permission_granted fx package permission)"
  "keeps I (app_task fx package)"
  "keeps I (display_pixels fx)"
  "keeps I (data_free_kb fx)"
  by (auto simp: wait_for_def verify_def the_app_def permission_granted_def app_task_def display_pixels_def
      data_free_kb_def Let_def intro!: keep_intros keeps_primitive_reads keeps_wait_loop)

lemmas reads = keeps_outside keeps_load keeps_primitive_reads keeps_kind_reads keeps_await_gone keeps_await_pid

end

locale acting_invariant = reading_invariant I for I :: "'d fault_world \<Rightarrow> bool" +
  assumes change: "I w \<Longrightarrow> I (w\<lparr>fw_trace := fw_trace w @ [(c, fw_file w)]\<rparr>)"
begin

lemma keeps_changing: "keeps I (changing c f)"
  using change keeps_outside [of f] by (auto simp: keeps_def changing_def)

lemma keeps_primitive_acts:
  "keeps I (dev_run fx command)"
  "keeps I (run_ok fx command)"
  "keeps I (put_setting fx ns key v)"
  "keeps I (emu fx args)"
  by (auto simp: dev_run_def run_ok_def put_setting_def emu_def intro!: keep_intros keeps_changing reads)

lemma keeps_restore: "keeps I (restore_apply fx s)"
  by (cases s rule: describe.cases)
    (auto simp: restore_clock_def proxy_remove_def Let_def intro!: keep_intros keeps_changing reads keeps_primitive_acts)

lemma keeps_apply_plan: "keeps I (apply_plan fx plan)"
  by (induction plan) (auto intro!: keep_intros keeps_restore)

lemma keeps_kill_loop: "keeps I (kill_loop fx package pid deadline fuel)"
  by (induction fuel) (auto intro!: keep_intros reads keeps_primitive_acts)

lemma keeps_action_kinds:
  "keeps I (process_death fx ctx relaunch timeout)"
  "keeps I (low_memory fx ctx level)"
  "keeps I (pip fx ctx)"
  "keeps I (sms fx sender body)"
  "keeps I (emulator_crash fx relaunch cold)"
  by (auto simp: process_death_def relaunch_app_def launcher_activity_def task_root_activity_def running_pid_def
      low_memory_def pip_def sms_def emulator_crash_def Let_def
      intro!: keep_intros reads keeps_primitive_acts keeps_kill_loop)

lemmas acts = keeps_changing keeps_primitive_acts keeps_restore keeps_apply_plan

end

text \<open>The journal and the recorder are not touched by any of this.\<close>

definition books :: "journal_file \<Rightarrow> fault_record \<Rightarrow> bool \<Rightarrow> json list \<Rightarrow> 'd fault_world \<Rightarrow> bool" where
  "books file r b events w \<longleftrightarrow> fw_file w = file \<and> fw_record w = r \<and> fw_recorded w = b \<and> fw_events w = events"

interpretation books: acting_invariant "books jf r b events" for jf r b events
  by unfold_locales (simp_all add: books_def)

lemma apply_plan_books:
  assumes "apply_plan fx plan w = (w', result)"
  shows "fw_file w' = fw_file w" "fw_record w' = fw_record w" "fw_recorded w' = fw_recorded w" "fw_events w' = fw_events w"
proof -
  have "books (fw_file w) (fw_record w) (fw_recorded w) (fw_events w) w"
    by (simp add: books_def)
  from keepsD [OF books.keeps_apply_plan this assms] show
    "fw_file w' = fw_file w" "fw_record w' = fw_record w" "fw_recorded w' = fw_recorded w" "fw_events w' = fw_events w"
    by (simp_all add: books_def)
qed

lemma apply_plan_total: "\<exists>w' errors. apply_plan fx plan w = (w', Inr errors)"
proof (induction plan arbitrary: w)
  case (Cons s plan)
  obtain w1 r where 1: "restore_apply fx s w = (w1, r)"
    by (cases "restore_apply fx s w")
  obtain w2 errors where "apply_plan fx plan w1 = (w2, Inr errors)"
    using Cons.IH by blast
  then show ?case
    using 1 by (simp add: attempt_def run_step_ok)
qed simp

end
