(* ===== verification/FaultProps.thy ===== *)
theory FaultProps
  imports FaultLaws
begin

text \<open>
  What the fault commands promise. The programs of the kinds are taken apart by the rules of
  \<open>Prog\<close>: before the recorder has run they change nothing, and after it they keep the journal as it
  is, so every change of the device is made while the journal holds the way back.
\<close>

section \<open>Two phases of an injection\<close>

text \<open>The reads that go through the emulator console are no changes.\<close>

definition changes :: "device_change \<Rightarrow> bool" where
  "changes c \<longleftrightarrow> c \<noteq> ConsoleChange [''network'', ''status'']"

definition with_id :: "string \<Rightarrow> fault_record list \<Rightarrow> fault_record list" where
  "with_id fid fs = filter (\<lambda>r. ft_id r = fid) fs"

text \<open>The journal file holds a record, and no other one under its id.\<close>

definition lists :: "journal_file \<Rightarrow> fault_record \<Rightarrow> bool" where
  "lists file r \<longleftrightarrow> (\<exists>fs. file = Faults fs \<and> with_id (ft_id r) fs = [r])"

lemma with_id_others [simp]:
  "with_id fid (others fid fs) = []" "fid \<noteq> i \<Longrightarrow> with_id fid (others i fs) = with_id fid fs"
  by (auto simp: with_id_def others_def intro: filter_cong)

lemma with_id_append [simp]: "with_id fid (fs @ gs) = with_id fid fs @ with_id fid gs"
  by (simp add: with_id_def)

lemma with_id_single [simp]: "with_id fid [r] = (if ft_id r = fid then [r] else [])"
  by (simp add: with_id_def)

definition new_changes :: "nat \<Rightarrow> 'd fault_world \<Rightarrow> (device_change \<times> journal_file) list" where
  "new_changes n w = filter (\<lambda>(c, file). changes c) (drop n (fw_trace w))"

text \<open>Before: nothing recorded and nothing changed since the trace had length \<open>n\<close>.\<close>

definition record_key :: "fault_record \<Rightarrow> string \<times> string list \<times> fault_state" where
  "record_key r = (ft_id r, ft_resources r, ft_state r)"

definition before_record ::
  "nat \<Rightarrow> journal_file \<Rightarrow> string \<times> string list \<times> fault_state \<Rightarrow> 'd fault_world \<Rightarrow> bool" where
  "before_record n file key w \<longleftrightarrow>
     n \<le> length (fw_trace w) \<and> \<not> fw_recorded w \<and> fw_file w = file \<and>
     record_key (fw_record w) = key \<and> new_changes n w = []"

definition after_record :: "nat \<Rightarrow> fault_record \<Rightarrow> journal_file \<Rightarrow> 'd fault_world \<Rightarrow> bool" where
  "after_record n r file w \<longleftrightarrow>
     n \<le> length (fw_trace w) \<and> fw_recorded w \<and> fw_record w = r \<and> fw_file w = file \<and>
     (\<forall>(c, f) \<in> set (new_changes n w). f = file)"

interpretation untried: reading_invariant "before_record n jf key" for n jf key
  by unfold_locales (simp add: before_record_def new_changes_def)

interpretation recorded: acting_invariant "after_record n r jf" for n r jf
  by unfold_locales (auto simp: after_record_def new_changes_def)

lemmas [keep_intros] = untried.reads recorded.reads recorded.acts

lemma keeps_status [keep_intros]:
  "keeps (before_record n file key) (emu fx [''network'', ''status''])"
  unfolding emu_def
  by (intro keep_intros)
    (auto simp: keeps_def changing_def outside_def before_record_def new_changes_def changes_def split: prod.splits)

definition file_of :: "fault_record list \<Rightarrow> journal_file" where
  "file_of fs = (if fs = [] then NoJournal else Faults fs)"

definition listed_in :: "journal_file \<Rightarrow> fault_record list" where
  "listed_in file = (case file of Faults fs \<Rightarrow> fs | _ \<Rightarrow> [])"

text \<open>
  A program \<open>plans\<close> when it either fails having changed nothing, or has recorded a plan and changed the
  device only with the journal as the recorder left it.
\<close>

definition recorded_in :: "journal_file \<Rightarrow> fault_record \<Rightarrow> journal_file" where
  "recorded_in file r = Faults (others (ft_id r) (listed_in file) @ [r])"

definition planned :: "nat \<Rightarrow> journal_file \<Rightarrow> string \<times> string list \<times> fault_state \<Rightarrow> 'a outcome \<Rightarrow> 'd fault_world \<Rightarrow> bool" where
  "planned n file key result w \<longleftrightarrow>
     (before_record n file key w \<and> (\<exists>e. result = Inl e)) \<or>
     (\<exists>r. after_record n r (recorded_in file r) w \<and> record_key r = key)"

definition plans :: "('d, 'a) fault_prog \<Rightarrow> bool" where
  "plans p \<longleftrightarrow> (\<forall>n file key. spec (before_record n file key) p (planned n file key))"

lemma plans_stop: "plans (stop e)"
  by (simp add: plans_def spec_def planned_def)

lemma plans_step:
  assumes "\<And>n file key. keeps (before_record n file key) p" "\<And>a. plans (k a)"
  shows "plans (step p k)"
  unfolding plans_def
proof (intro allI specI)
  fix n jf key and w :: "'a fault_world"
  assume w: "before_record n jf key w"
  obtain w' r where p: "p w = (w', r)"
    by (cases "p w")
  have w': "before_record n jf key w'"
    using assms(1) w p by (rule keepsD)
  show "planned n jf key (snd (step p k w)) (fst (step p k w))"
  proof (cases r)
    case (Inl e)
    then show ?thesis
      using p w' by (simp add: run_step_err planned_def)
  next
    case (Inr a)
    then show ?thesis
      using p w' assms(2) [of a] by (cases key) (simp add: run_step_ok plans_def spec_def)
  qed
qed

lemma recorder_result:
  assumes "before_record n file key w" "recorder_record fx params plan w = (w', r)"
  shows "(before_record n file key w' \<and> (\<exists>e. r = Inl e)) \<or>
    (\<exists>rec. after_record n rec (recorded_in file rec) w' \<and> record_key rec = key \<and> ft_restore rec = plan \<and> r = Inr ())"
proof (cases "snd (journal_load fx w)")
  case (Inl e)
  then show ?thesis
    using assms by (auto simp: recorder_record_def step_def journal_load_def split: if_splits)
next
  case (Inr faults)
  then have faults: "faults = listed_in (fw_file w)"
    by (auto simp: journal_load_def listed_in_def split: if_splits journal_file.splits)
  let ?rec = "(fw_record w)\<lparr>ft_params := params, ft_restore := plan\<rparr>"
  let ?w = "w\<lparr>fw_record := ?rec\<rparr>"
  have load: "journal_load fx w = (w, Inr faults)"
    using Inr by (simp add: journal_load_def)
  have run: "recorder_record fx params plan w =
      step (journal_save fx (others (ft_id ?rec) faults @ [?rec])) (\<lambda>u. alter (\<lambda>w. w\<lparr>fw_recorded := True\<rparr>)) ?w"
    unfolding recorder_record_def by (simp add: run_step_ok [where p = "journal_load fx", OF load])
  show ?thesis
    using assms unfolding run
    by (auto simp: step_def journal_save_def before_record_def after_record_def new_changes_def record_key_def
        recorded_in_def faults filter_empty_conv split: if_splits)
qed

lemma plans_record:
  assumes "\<And>n r file. keeps (after_record n r file) (k ())"
  shows "plans (step (recorder_record fx params plan) k)"
  unfolding plans_def
proof (intro allI specI)
  fix n jf key and w :: "'a fault_world"
  assume w: "before_record n jf key w"
  obtain w' r where p: "recorder_record fx params plan w = (w', r)"
    by (cases "recorder_record fx params plan w")
  from recorder_result [OF w p]
  show "planned n jf key (snd (step (recorder_record fx params plan) k w)) (fst (step (recorder_record fx params plan) k w))"
  proof (elim disjE exE conjE)
    fix rec
    assume "after_record n rec (recorded_in jf rec) w'" and key: "record_key rec = key" and r: "r = Inr ()"
    then have "after_record n rec (recorded_in jf rec) (fst (k () w'))"
      using assms by (simp add: keeps_def)
    then show ?thesis
      using p r key by (auto simp: run_step_ok planned_def)
  qed (use p in \<open>auto simp: run_step_err planned_def\<close>)
qed

lemma plans_if: "(c \<Longrightarrow> plans p) \<Longrightarrow> (\<not> c \<Longrightarrow> plans q) \<Longrightarrow> plans (if c then p else q)"
  by simp

lemma plans_option:
  "(v = None \<Longrightarrow> plans p) \<Longrightarrow> (\<And>a. v = Some a \<Longrightarrow> plans (q a)) \<Longrightarrow> plans (case v of None \<Rightarrow> p | Some a \<Rightarrow> q a)"
  by (cases v) simp_all

lemma plans_prod: "(\<And>a b. plans (p a b)) \<Longrightarrow> plans (case v of (a, b) \<Rightarrow> p a b)"
  by (cases v) simp

lemma plans_let: "(\<And>a. plans (p a)) \<Longrightarrow> plans (let a = v in p a)"
  by (simp add: Let_def)

lemmas plan_intros = plans_stop plans_record plans_let plans_if plans_option plans_prod plans_step

section \<open>Every kind plans before it acts\<close>

lemmas kind_defs_settings = dont_keep_activities_def orientation_def night_mode_def font_scale_def display_size_def

lemma plans_lifecycle:
  "plans (dont_keep_activities fx)"
  "plans (revoke_permission fx ctx permission)"
  unfolding dont_keep_activities_def revoke_permission_def
  by (intro plan_intros keep_intros)+

lemma plans_configuration:
  "plans (orientation fx r)"
  "plans (night_mode fx mode)"
  "plans (font_scale fx scale)"
  "plans (display_size fx sz density)"
  "plans (app_locale fx ctx locales)"
  "plans (split_screen fx ctx percent)"
  unfolding orientation_def night_mode_def font_scale_def display_size_def app_locale_def split_screen_def
  by (intro plan_intros keep_intros)+

lemma plans_power:
  "plans (doze fx)"
  "plans (standby_bucket fx ctx b)"
  "plans (battery fx level saver)"
  "plans (thermal fx status)"
  unfolding doze_def standby_bucket_def battery_def thermal_def
  by (intro plan_intros keep_intros)+

lemma plans_resources:
  "plans (storage_full fx ctx free_mb)"
  "plans (clock fx offset)"
  "plans (timezone fx tz)"
  "plans (cpu_load fx ctx threads)"
  unfolding storage_full_def clock_def timezone_def cpu_load_def
  by (intro plan_intros keep_intros)+

lemma plans_network:
  "plans (airplane_mode fx)"
  "plans (radio_off fx setting disable enable label)"
  "plans (network_flap fx ctx period)"
  "plans (dns_failure fx)"
  "plans (network_speed fx profile)"
  "plans (network_latency fx profile')"
  "plans (proxy_inject fx ctx cmd)"
  unfolding airplane_mode_def radio_off_def network_flap_def dns_failure_def network_speed_def network_latency_def
    proxy_inject_def
  by (intro plan_intros keep_intros)+

lemma plans_interruptions:
  "plans (incoming_call fx number)"
  "plans (screen_off fx)"
  "plans (notification_shade fx panel)"
  unfolding incoming_call_def screen_off_def notification_shade_def
  by (intro plan_intros keep_intros)+

definition is_state_cmd :: "inject_cmd \<Rightarrow> bool" where
  "is_state_cmd cmd \<longleftrightarrow> map_option ki_effect (find_kind (kind_name cmd)) = Some StateFault"

lemma state_cmd_row: "is_state_cmd cmd \<longleftrightarrow> map_option fst (map_of KIND_ROWS (kind_name cmd)) = Some StateFault"
  unfolding is_state_cmd_def find_kind_row [symmetric]
  by (cases "find_kind (kind_name cmd)") (simp_all add: row_of_def)

lemma action_cmds: "\<not> is_state_cmd (KProcessDeath app relaunch timeout)" "\<not> is_state_cmd (KLowMemory app level)"
  "\<not> is_state_cmd (KPip app)" "\<not> is_state_cmd (KSms sender body)" "\<not> is_state_cmd (KEmulatorCrash relaunch cold)"
  by (simp_all add: state_cmd_row KIND_ROWS_def)

lemma plans_state_kinds: "is_state_cmd cmd \<Longrightarrow> plans (kind_inject fx ctx cmd)"
  by (cases cmd) (simp_all add: action_cmds plans_lifecycle plans_configuration plans_power plans_resources
      plans_network plans_interruptions)


section \<open>Injection as a whole\<close>

text \<open>What stays true through the whole command.\<close>

definition covered :: "nat \<Rightarrow> fault_record \<Rightarrow> 'd fault_world \<Rightarrow> bool" where
  "covered n r w \<longleftrightarrow> n \<le> length (fw_trace w) \<and> fw_record w = r \<and> (\<forall>(c, f) \<in> set (new_changes n w). lists f r)"

definition untouched :: "nat \<Rightarrow> journal_file \<Rightarrow> 'd fault_world \<Rightarrow> bool" where
  "untouched n file w \<longleftrightarrow> n \<le> length (fw_trace w) \<and> fw_file w = file \<and> new_changes n w = []"

interpretation idle: reading_invariant "untouched n jf" for n jf
  by unfold_locales (simp add: untouched_def new_changes_def)

interpretation protected: reading_invariant "covered n r" for n r
  by unfold_locales (simp add: covered_def new_changes_def)

lemmas [keep_intros] = idle.reads protected.reads

lemma keeps_bookkeeping [keep_intros]:
  "keeps (covered n r) (journal_save fx faults)"
  "keeps (covered n r) (append_event fx name rec)"
  by (auto simp: keeps_def journal_save_def append_event_def covered_def new_changes_def)

lemma keeps_saving [keep_intros]:
  "keeps (covered n r) (save_quietly fx faults)"
  unfolding save_quietly_def by (intro keep_intros)

lemma keeps_preflight: "keeps (untouched n file) (preflight fx info cmd app)"
  unfolding preflight_def app_check_def by (intro keep_intros)+

lemma keeps_finish: "keeps (covered n r) (finish_state fx rec expires_at)"
  unfolding finish_state_def by (intro keep_intros)+

lemma lists_recorded [simp]: "lists (recorded_in file r) r"
  by (simp add: lists_def recorded_in_def)

lemma after_covered: "after_record n r file w \<Longrightarrow> lists file r \<Longrightarrow> covered n r w"
  by (auto simp: after_record_def covered_def)

text \<open>
  An injection up to the outcome of its kind: the checks and the reservation change nothing, and then
  the kind runs from a fresh recorder.
\<close>

definition free_in :: "string list \<Rightarrow> journal_file \<Rightarrow> bool" where
  "free_in wanted file \<longleftrightarrow> file \<noteq> Garbled \<and> \<not> list_ex (conflicting wanted) (listed_in file)"

lemma preflight_free:
  assumes "preflight fx info cmd app w = (w', Inr u)" "ki_effect info = StateFault"
  shows "free_in (resources_for info app) (fw_file w')"
  using assms
  by (auto simp: preflight_def step_Inr journal_load_def free_in_def listed_in_def split: if_splits journal_file.splits)

lemma fault_inject_cases:
  assumes "fault_inject fx cmd w = (w', result)"
  shows "(\<exists>e. result = Inl e \<and> untouched (length (fw_trace w)) (fw_file w) w') \<or>
    (\<exists>info fid expires_at ctx w1 w2 outcome. find_kind (kind_name cmd) = Some info \<and>
       (ki_effect info = StateFault \<longrightarrow> free_in (resources_for info (cmd_app cmd)) (fw_file w)) \<and>
       before_record (length (fw_trace w)) (fw_file w) (fid, resources_for info (cmd_app cmd), FaultActive) w1 \<and>
       kind_inject fx ctx cmd w1 = (w2, outcome) \<and> inject_rest fx info expires_at outcome w2 = (w', result))"
proof (cases "find_kind (kind_name cmd)")
  case None
  then show ?thesis
    using assms by (auto simp: fault_inject_def untouched_def new_changes_def)
next
  case (Some info)
  have start: "untouched (length (fw_trace w)) (fw_file w) w"
    by (simp add: untouched_def new_changes_def)
  obtain w0 r0 where pre: "preflight fx info cmd (cmd_app cmd) w = (w0, r0)"
    by (cases "preflight fx info cmd (cmd_app cmd) w")
  have w0: "untouched (length (fw_trace w)) (fw_file w) w0"
    using keeps_preflight start pre by (rule keepsD)
  show ?thesis
  proof (cases r0)
    case (Inl e)
    then show ?thesis
      using assms w0 pre by (auto simp: fault_inject_def Some step_def [of "preflight fx info cmd (cmd_app cmd)"] Let_def)
  next
    case (Inr u)
    obtain d fid where id: "fx_new_id fx (fw_dev w0) = (d, fid)"
      by (cases "fx_new_id fx (fw_dev w0)")
    define now where "now = fx_now fx d"
    define expires where "expires = map_option (\<lambda>duration. u64_add now duration) (duration_ms cmd)"
    define w1 where "w1 = w0\<lparr>fw_dev := d, fw_record := fresh_record fx info (cmd_app cmd) fid now expires,
      fw_recorded := False\<rparr>"
    define ctx where "ctx = \<lparr>cx_id = fid, cx_app = cmd_app cmd\<rparr>"
    obtain w2 outcome where kind: "kind_inject fx ctx cmd w1 = (w2, outcome)"
      by (cases "kind_inject fx ctx cmd w1")
    have "before_record (length (fw_trace w)) (fw_file w) (fid, resources_for info (cmd_app cmd), FaultActive) w1"
      using w0 by (simp add: untouched_def before_record_def w1_def new_changes_def fresh_record_def record_key_def)
    moreover have "ki_effect info = StateFault \<longrightarrow> free_in (resources_for info (cmd_app cmd)) (fw_file w)"
      using preflight_free [of fx info cmd "cmd_app cmd" w w0 u] pre Inr w0 by (auto simp: untouched_def)
    moreover have "inject_rest fx info expires outcome w2 = (w', result)"
      using assms kind Inr
      by (simp add: fault_inject_def Some step_def [of "preflight fx info cmd (cmd_app cmd)"] pre outside_def id
          run_step_ok [where p = "outside f" for f] now_ms_def begin_recording_def Let_def attempt_def
          w1_def now_def expires_def ctx_def)
    ultimately show ?thesis
      using Some kind by blast
  qed
qed


lemma keeps_roll_back:
  assumes "after_record n r file w" "lists file r" "roll_back fx r failure w = (w', result)"
  shows "covered n r w' \<and> (\<exists>e. result = Inl e)"
proof -
  obtain w1 errors where plan: "apply_plan fx (ft_restore r) w = (w1, Inr errors)"
    using apply_plan_total by blast
  have "after_record n r file w1"
    by (rule keepsD [OF recorded.keeps_apply_plan assms(1) plan])
  then have w1: "covered n r w1"
    using assms(2) by (rule after_covered)
  let ?rest = "step (journal_or_empty fx) (\<lambda>faults.
     if errors = [] then
       step (save_quietly fx (others (ft_id r) faults)) (\<lambda>u.
       step (append_event fx ''rolled_back'' r) (\<lambda>u. stop failure))
     else
       step (save_quietly fx (mark_failed (ft_id r) errors faults)) (\<lambda>u.
       step (append_event fx ''restore_failed'' r) (\<lambda>u. stop ''fault_restore_failed'')))"
  have rest: "?rest w1 = (w', result)"
    using assms(3) plan by (simp add: roll_back_def step_def [of "apply_plan fx (ft_restore r)"])
  have keep: "keeps (covered n r) ?rest"
    by (intro keep_intros)
  have "\<exists>e. result = Inl e"
    using rest by (auto simp: step_def journal_or_empty_def save_quietly_def append_event_def attempt_def Let_def
        split: if_splits prod.splits)
  then show ?thesis
    using keepsD [OF keep w1 rest] by simp
qed

lemma injection_outcome:
  assumes "is_state_cmd cmd" "fault_inject fx cmd w = (w', result)"
  shows "(\<exists>e. result = Inl e \<and> fw_file w' = fw_file w \<and> new_changes (length (fw_trace w)) w' = []) \<or>
    (\<exists>info r expires outcome w2. find_kind (kind_name cmd) = Some info \<and> ki_effect info = StateFault \<and>
      free_in (ft_resources r) (fw_file w) \<and> ft_state r = FaultActive \<and>
      after_record (length (fw_trace w)) r (recorded_in (fw_file w) r) w2 \<and>
      inject_rest fx info expires outcome w2 = (w', result))"
  using fault_inject_cases [OF assms(2)]
proof (elim disjE exE conjE)
  fix info and fid :: string and expires ctx w1 w2 outcome
  let ?key = "(fid, resources_for info (cmd_app cmd), FaultActive)"
  assume info: "find_kind (kind_name cmd) = Some info"
    and free: "ki_effect info = StateFault \<longrightarrow> free_in (resources_for info (cmd_app cmd)) (fw_file w)"
    and w1: "before_record (length (fw_trace w)) (fw_file w) ?key w1"
    and kind: "kind_inject fx ctx cmd w1 = (w2, outcome)"
    and rest: "inject_rest fx info expires outcome w2 = (w', result)"
  have state: "ki_effect info = StateFault"
    using assms(1) info by (simp add: is_state_cmd_def)
  have "planned (length (fw_trace w)) (fw_file w) ?key outcome w2"
    using plans_state_kinds [OF assms(1), of fx ctx] w1 kind unfolding plans_def
    by (metis specD)
  then show ?thesis
    unfolding planned_def
  proof (elim disjE exE conjE)
    fix e
    assume "before_record (length (fw_trace w)) (fw_file w) ?key w2" and "outcome = Inl e"
    then have "w' = w2" "result = Inl e" "fw_file w2 = fw_file w" "new_changes (length (fw_trace w)) w2 = []"
      using rest by (auto simp: inject_rest_def before_record_def)
    then show ?thesis
      by blast
  next
    fix r
    assume "after_record (length (fw_trace w)) r (recorded_in (fw_file w) r) w2" "record_key r = ?key"
    then show ?thesis
      using info state free rest by (auto simp: record_key_def)
  qed
qed (auto simp: untouched_def)

text \<open>
  C15: a crash of the command line program never loses the way back. However the injection of a
  state fault ends, every change it made to the device, the emulator or the proxy was made while the
  journal file listed the fault under its id, with the very plan that undoes it.
\<close>

theorem journal_before_change:
  assumes "is_state_cmd cmd" "fault_inject fx cmd w = (w', result)"
  shows "\<forall>(change, file) \<in> set (new_changes (length (fw_trace w)) w'). lists file (fw_record w')"
  using injection_outcome [OF assms]
proof (elim disjE exE conjE)
  fix info r expires outcome w2
  let ?n = "length (fw_trace w)"
  assume state: "ki_effect info = StateFault"
    and r: "after_record ?n r (recorded_in (fw_file w) r) w2"
    and rest: "inject_rest fx info expires outcome w2 = (w', result)"
  have w2: "covered ?n r w2" and rec: "fw_record w2 = r" "fw_recorded w2"
    using r by (auto simp: after_covered after_record_def)
  have "covered ?n r w'"
  proof (cases outcome)
    case (Inl failure)
    then have "roll_back fx r failure w2 = (w', result)"
      using rest rec by (simp add: inject_rest_def)
    then show ?thesis
      using keeps_roll_back [OF r lists_recorded] by blast
  next
    case (Inr injected)
    have "keeps (covered ?n r) (inject_rest fx info expires (Inr injected))"
      unfolding inject_rest_def using state by (auto intro!: keep_intros keeps_finish)
    then show ?thesis
      using w2 rest Inr by (blast intro: keepsD)
  qed
  then show ?thesis
    by (auto simp: covered_def)
qed simp

section \<open>No fault is lost\<close>

text \<open>A disk that can be read and written; without it the journal cannot be kept.\<close>

definition disk_ok :: "'d fault_ext \<Rightarrow> bool" where
  "disk_ok fx \<longleftrightarrow> (\<forall>d. fx_readable fx d \<and> fx_writable fx d)"

lemma listed_file_of [simp]: "listed_in (file_of fs) = fs"
  by (simp add: listed_in_def file_of_def)

lemma file_of_not_Garbled [simp]: "file_of fs \<noteq> Garbled"
  by (simp add: file_of_def)

lemma save_ok: "disk_ok fx \<Longrightarrow> journal_save fx faults w = (w\<lparr>fw_file := file_of faults\<rparr>, Inr ())"
  by (cases w) (auto simp: journal_save_def disk_ok_def file_of_def)

lemma save_quietly_ok: "disk_ok fx \<Longrightarrow> save_quietly fx faults w = (w\<lparr>fw_file := file_of faults\<rparr>, Inr ())"
  by (simp add: save_quietly_def attempt_def save_ok)

lemma load_ok: "disk_ok fx \<Longrightarrow> fw_file w \<noteq> Garbled \<Longrightarrow> journal_load fx w = (w, Inr (listed_in (fw_file w)))"
  by (simp add: journal_load_def disk_ok_def listed_in_def split: journal_file.splits)

lemma load_or_empty_ok: "disk_ok fx \<Longrightarrow> journal_or_empty fx w = (w, Inr (listed_in (fw_file w)))"
  by (simp add: journal_or_empty_def attempt_def journal_load_def disk_ok_def listed_in_def split: journal_file.splits)

lemma append_event_ok:
  "disk_ok fx \<Longrightarrow>
   append_event fx name r w = (w\<lparr>fw_events := fw_events w @ [fault_event name r (fx_now fx (fw_dev w))]\<rparr>, Inr ())"
  by (simp add: append_event_def disk_ok_def)

lemma with_id_update:
  assumes "\<And>x. ft_id x = fid \<Longrightarrow> ft_id (f x) = fid"
  shows "with_id fid (update_first fid f fs) = (case with_id fid fs of [] \<Rightarrow> [] | r # rs \<Rightarrow> f r # rs)"
  using assms by (induction fs) (auto simp: with_id_def)

lemma lists_update:
  assumes "lists file r" "ft_id (f r) = ft_id r" "\<And>x. ft_id x = ft_id r \<Longrightarrow> ft_id (f x) = ft_id r"
  shows "lists (file_of (update_first (ft_id r) f (listed_in file))) (f r)"
proof -
  obtain fs where fs: "file = Faults fs" "with_id (ft_id r) fs = [r]"
    using assms(1) by (auto simp: lists_def)
  have "with_id (ft_id r) (update_first (ft_id r) f fs) = [f r]"
    using with_id_update [OF assms(3), where fs = fs] fs(2) by simp
  then show ?thesis
    using assms(2) by (cases "update_first (ft_id r) f fs = []") (auto simp: lists_def file_of_def listed_in_def fs(1) with_id_def)
qed

lemma lists_failed:
  "lists file r \<Longrightarrow> lists (file_of (mark_failed (ft_id r) errors (listed_in file)))
     (r\<lparr>ft_state := FaultRestoreFailed, ft_restore_errors := errors\<rparr>)"
  unfolding mark_failed_def by (rule lists_update) simp_all

lemma roll_back_ok:
  assumes "disk_ok fx" "after_record n r file w" "lists file r" "roll_back fx r failure w = (w', result)"
  shows "(\<exists>w1. apply_plan fx (ft_restore r) w = (w1, Inr []) \<and> fw_dev w' = fw_dev w1 \<and> fw_trace w' = fw_trace w1 \<and>
        result = Inl failure \<and>
        fw_file w' = file_of (others (ft_id r) (listed_in file))) \<or>
    (\<exists>errors. errors \<noteq> [] \<and> result = Inl ''fault_restore_failed'' \<and>
        lists (fw_file w') (r\<lparr>ft_state := FaultRestoreFailed, ft_restore_errors := errors\<rparr>))"
proof -
  obtain w1 errors where plan: "apply_plan fx (ft_restore r) w = (w1, Inr errors)"
    using apply_plan_total by blast
  have w1: "fw_file w1 = file"
    using keepsD [OF recorded.keeps_apply_plan assms(2) plan] by (simp add: after_record_def)
  have run: "roll_back fx r failure w =
      (if errors = [] then
         step (save_quietly fx (others (ft_id r) (listed_in file))) (\<lambda>u.
         step (append_event fx ''rolled_back'' r) (\<lambda>u. stop failure))
       else
         step (save_quietly fx (mark_failed (ft_id r) errors (listed_in file))) (\<lambda>u.
         step (append_event fx ''restore_failed'' r) (\<lambda>u. stop ''fault_restore_failed''))) w1"
    using plan w1 load_or_empty_ok [OF assms(1), of w1]
    by (simp add: roll_back_def step_def [of "apply_plan fx (ft_restore r)"] step_def [of "journal_or_empty fx"])
  show ?thesis
  proof (cases "errors = []")
    case True
    then show ?thesis
      using assms(4) plan run
      by (auto simp: step_def save_quietly_ok [OF assms(1)] append_event_ok [OF assms(1)])
  next
    case False
    then show ?thesis
      using assms(4) run lists_failed [OF assms(3), of errors]
      by (auto simp: step_def save_quietly_ok [OF assms(1)] append_event_ok [OF assms(1)])
  qed
qed

lemma finish_state_ok:
  assumes "disk_ok fx" "after_record n r file w" "lists file r" "ft_id r' = ft_id r" "ft_restore r' = ft_restore r"
    "finish_state fx r' expires w = (w', result)"
  shows "\<exists>r''. result = Inr r'' \<and> lists (fw_file w') r'' \<and> ft_id r'' = ft_id r \<and> ft_restore r'' = ft_restore r \<and>
    ft_state r'' = ft_state r'"
proof -
  define body where "body r'' =
      step (journal_load fx) (\<lambda>faults.
      step (journal_save fx (update_first (ft_id r'') (\<lambda>slot. r'') faults)) (\<lambda>u.
      step (append_event fx ''injected'' r'') (\<lambda>u. give r'')))" for r''
  have "\<exists>d pid. finish_state fx r' expires w = body (r'\<lparr>ft_expiry_pid := pid\<rparr>) (w\<lparr>fw_dev := d\<rparr>)"
  proof (cases expires)
    case None
    have "finish_state fx r' expires w = body (r'\<lparr>ft_expiry_pid := ft_expiry_pid r'\<rparr>) (w\<lparr>fw_dev := fw_dev w\<rparr>)"
      using assms(2) by (simp add: finish_state_def None after_record_def body_def)
    then show ?thesis
      by blast
  next
    case (Some at_ms)
    obtain d pid where spawn: "fx_spawn_timer fx (ft_id r') at_ms (fw_dev w) = (d, pid)"
      by (cases "fx_spawn_timer fx (ft_id r') at_ms (fw_dev w)")
    have "finish_state fx r' expires w =
        body (r'\<lparr>ft_expiry_pid := case pid of Inl e \<Rightarrow> None | Inr p \<Rightarrow> Some p\<rparr>) (w\<lparr>fw_dev := d\<rparr>)"
      using assms(2) spawn
      by (simp add: finish_state_def Some after_record_def body_def attempt_def outside_def step_def [of "attempt p k" for p k])
    then show ?thesis
      by blast
  qed
  then obtain d pid where run: "body (r'\<lparr>ft_expiry_pid := pid\<rparr>) (w\<lparr>fw_dev := d\<rparr>) = (w', result)"
    using assms(6) by auto
  let ?r = "r'\<lparr>ft_expiry_pid := pid\<rparr>"
  have held: "fw_file (w\<lparr>fw_dev := d\<rparr>) = file" "file \<noteq> Garbled"
    using assms(2,3) by (auto simp: after_record_def lists_def)
  have "lists (file_of (update_first (ft_id r) (\<lambda>slot. ?r) (listed_in file))) ?r"
    using lists_update [OF assms(3), of "\<lambda>slot. ?r"] assms(4) by simp
  moreover have "fw_file w' = file_of (update_first (ft_id r) (\<lambda>slot. ?r) (listed_in file))" "result = Inr ?r"
    using run load_ok [OF assms(1), of "w\<lparr>fw_dev := d\<rparr>"] held assms(4)
    by (auto simp: body_def step_def save_ok [OF assms(1)] append_event_ok [OF assms(1)])
  ultimately show ?thesis
    using assms(4,5) by simp
qed


text \<open>
  C16: with a journal that can be read and written, an injection of a state fault ends in one of four
  ways: it succeeded, and the journal lists the fault as active with its plan; it failed and nothing
  was changed, neither the device nor the journal; it failed, its plan was run without an error as the last
  thing done to the device, and the journal is as it was before (less an entry of the same id); or it failed, some step of
  the plan failed too, and the journal lists the fault with its plan, to be cleared again.
\<close>

theorem fault_never_lost:
  assumes "disk_ok fx" "is_state_cmd cmd" "fault_inject fx cmd w = (w', result)"
  shows "(\<exists>report r. result = Inr report \<and> lists (fw_file w') r \<and> ft_state r = FaultActive \<and>
        ft_id r = ft_id (fw_record w') \<and> ft_restore r = ft_restore (fw_record w')) \<or>
    (\<exists>e. result = Inl e \<and> fw_file w' = fw_file w \<and> new_changes (length (fw_trace w)) w' = []) \<or>
    (\<exists>e w1 w2. result = Inl e \<and> apply_plan fx (ft_restore (fw_record w')) w1 = (w2, Inr []) \<and>
        fw_dev w' = fw_dev w2 \<and> fw_trace w' = fw_trace w2 \<and>
        fw_file w' = file_of (others (ft_id (fw_record w')) (listed_in (fw_file w)))) \<or>
    (\<exists>r. result = Inl ''fault_restore_failed'' \<and> lists (fw_file w') r \<and> ft_state r = FaultRestoreFailed \<and>
        ft_id r = ft_id (fw_record w') \<and> ft_restore r = ft_restore (fw_record w') \<and> ft_restore_errors r \<noteq> [])"
  using injection_outcome [OF assms(2,3)]
proof (elim disjE exE conjE)
  fix info r expires outcome w2
  let ?n = "length (fw_trace w)"
  assume state: "ki_effect info = StateFault" and active: "ft_state r = FaultActive"
    and r: "after_record ?n r (recorded_in (fw_file w) r) w2"
    and rest: "inject_rest fx info expires outcome w2 = (w', result)"
  have rec: "fw_record w2 = r" "fw_recorded w2"
    using r by (auto simp: after_record_def)
  show ?thesis
  proof (cases outcome)
    case (Inl failure)
    then have undo: "roll_back fx r failure w2 = (w', result)"
      using rest rec by (simp add: inject_rest_def)
    have "fw_record w' = r"
      using keeps_roll_back [OF r lists_recorded undo] by (simp add: covered_def)
    then show ?thesis
      using roll_back_ok [OF assms(1) r lists_recorded undo] by (auto simp: recorded_in_def others_def listed_in_def)
  next
    case (Inr injected)
    let ?r = "r\<lparr>ft_params := in_params injected, ft_observed := in_observed injected\<rparr>"
    obtain w3 result3 where finish: "finish_state fx ?r expires w2 = (w3, result3)"
      by (cases "finish_state fx ?r expires w2")
    obtain rec' where rec': "result3 = Inr rec'" "lists (fw_file w3) rec'" "ft_id rec' = ft_id r" "ft_restore rec' = ft_restore r"
      "ft_state rec' = ft_state ?r"
      using finish_state_ok [OF assms(1) r lists_recorded _ _ finish] by auto
    have "fw_record w3 = r"
      using keepsD [OF keeps_finish after_covered [OF r lists_recorded] finish] by (simp add: covered_def)
    moreover have "w' = w3" "\<exists>report. result = Inr report"
      using rest Inr state rec finish rec'(1)
      by (auto simp: inject_rest_def run_step_ok [where p = "finish_state fx r e" for r e] now_ms_def)
    ultimately show ?thesis
      using rec' active by auto
  qed
qed auto

end
