(* ===== verification/FaultClear.thy ===== *)
theory FaultClear
  imports FaultProps
begin

text \<open>
  Clearing faults: what becomes of every record of the journal, and the shape of the journal that
  injecting and clearing preserve: one record per id, and no resource owned twice.
\<close>

section \<open>Clearing one fault after the other\<close>

text \<open>What clearing does to the list of faults, given how each restoration ended.\<close>

fun settle :: "(fault_record + fault_record \<times> json list) list \<Rightarrow> fault_record list \<Rightarrow> fault_record list" where
  "settle [] fs = fs"
| "settle (Inl r # xs) fs = settle xs (others (ft_id r) fs)"
| "settle (Inr (r, errors) # xs) fs = settle xs (mark_failed (ft_id r) errors fs)"

definition target_of :: "fault_record + fault_record \<times> json list \<Rightarrow> fault_record" where
  "target_of x = (case x of Inl r \<Rightarrow> r | Inr (r, errors) \<Rightarrow> r)"

text \<open>A result is honest about a world when the plan of the target, run in that world, ended with those errors.\<close>

definition errors_of :: "fault_record + fault_record \<times> json list \<Rightarrow> json list" where
  "errors_of x = (case x of Inl r \<Rightarrow> [] | Inr (r, errors) \<Rightarrow> errors)"

definition honest :: "'d fault_ext \<Rightarrow> 'd fault_world \<Rightarrow> fault_record + fault_record \<times> json list \<Rightarrow> bool" where
  "honest fx w x \<longleftrightarrow>
     (\<exists>w'. apply_plan fx (ft_restore (target_of x)) w = (w', Inr (errors_of x))) \<and> (isl x \<longleftrightarrow> errors_of x = [])"

text \<open>The run told by a list of results: each target's plan was run in the world its predecessors left.\<close>

definition honest_run :: "'d fault_ext \<Rightarrow> string \<Rightarrow> 'd fault_world \<Rightarrow> (fault_record + fault_record \<times> json list) list \<Rightarrow> bool" where
  "honest_run fx name w xs \<longleftrightarrow>
     (\<forall>ys x zs. xs = ys @ x # zs \<longrightarrow>
        (\<exists>w1. clear_loop fx name (map target_of ys) w = (w1, Inr ys) \<and> honest fx w1 x))"

lemma stop_expiry_runs: "\<exists>d. stop_expiry fx r w = (w\<lparr>fw_dev := d\<rparr>, Inr ())"
proof (cases "ft_expiry_pid r")
  case None
  have "stop_expiry fx r w = (w\<lparr>fw_dev := fw_dev w\<rparr>, Inr ())"
    using None by (simp add: stop_expiry_def)
  then show ?thesis
    by blast
qed (auto simp: stop_expiry_def outside_def)

lemma clear_record_ok:
  assumes "disk_ok fx"
  obtains w' x where "clear_record fx name r w = (w', Inr x)" "target_of x = r" "honest fx w x"
    "listed_in (fw_file w') = settle [x] (listed_in (fw_file w))" "fw_file w' \<noteq> Garbled"
proof -
  obtain w1 errors where plan: "apply_plan fx (ft_restore r) w = (w1, Inr errors)"
    using apply_plan_total by blast
  obtain d where stopped:
    "stop_expiry fx r (w1\<lparr>fw_events := fw_events w1 @ [fault_event name r (fx_now fx (fw_dev w1))]\<rparr>) =
      (w1\<lparr>fw_events := fw_events w1 @ [fault_event name r (fx_now fx (fw_dev w1))]\<rparr>\<lparr>fw_dev := d\<rparr>, Inr ())"
    using stop_expiry_runs [of fx r "w1\<lparr>fw_events := fw_events w1 @ [fault_event name r (fx_now fx (fw_dev w1))]\<rparr>"] by auto
  have load: "journal_or_empty fx w1 = (w1, Inr (listed_in (fw_file w)))"
    using load_or_empty_ok [OF assms] apply_plan_books(1) [OF plan] by simp
  have start: "clear_record fx name r w =
      (if errors = [] then
         step (append_event fx name r) (\<lambda>u.
         step (stop_expiry fx r) (\<lambda>u.
         step (save_quietly fx (others (ft_id r) (listed_in (fw_file w)))) (\<lambda>u. give (Inl r))))
       else
         step (append_event fx ''restore_failed'' r) (\<lambda>u.
         step (save_quietly fx (mark_failed (ft_id r) errors (listed_in (fw_file w)))) (\<lambda>u. give (Inr (r, errors))))) w1"
    using plan load by (simp add: clear_record_def step_def [of "apply_plan fx p" for p] step_def [of "journal_or_empty fx"])
  show thesis
  proof (cases "errors = []")
    case True
    have "clear_record fx name r w =
        (w1\<lparr>fw_events := fw_events w1 @ [fault_event name r (fx_now fx (fw_dev w1))]\<rparr>
          \<lparr>fw_dev := d\<rparr>\<lparr>fw_file := file_of (others (ft_id r) (listed_in (fw_file w)))\<rparr>, Inr (Inl r))"
      using True stopped unfolding start by (simp add: step_def append_event_ok [OF assms] save_quietly_ok [OF assms])
    moreover have "honest fx w (Inl r)"
      using True plan by (simp add: honest_def target_of_def errors_of_def)
    ultimately show thesis
      using True by (intro that) (auto simp: target_of_def)
  next
    case False
    then have "clear_record fx name r w =
        (w1\<lparr>fw_events := fw_events w1 @ [fault_event ''restore_failed'' r (fx_now fx (fw_dev w1))]\<rparr>
          \<lparr>fw_file := file_of (mark_failed (ft_id r) errors (listed_in (fw_file w)))\<rparr>, Inr (Inr (r, errors)))"
      unfolding start by (simp add: step_def append_event_ok [OF assms] save_quietly_ok [OF assms])
    moreover have "honest fx w (Inr (r, errors))"
      using False plan by (simp add: honest_def target_of_def errors_of_def)
    ultimately show thesis
      using False by (intro that) (auto simp: target_of_def)
  qed
qed

lemma honest_run_Cons:
  assumes "clear_record fx name (target_of x) w = (w1, Inr x)" "honest fx w x" "honest_run fx name w1 xs"
  shows "honest_run fx name w (x # xs)"
  unfolding honest_run_def
proof (intro allI impI)
  fix ys y zs
  assume split: "x # xs = ys @ y # zs"
  show "\<exists>w1. clear_loop fx name (map target_of ys) w = (w1, Inr ys) \<and> honest fx w1 y"
  proof (cases ys)
    case Nil
    then show ?thesis
      using split assms(2) by simp
  next
    case (Cons u us)
    then obtain w2 where "clear_loop fx name (map target_of us) w1 = (w2, Inr us)" "honest fx w2 y"
      using split assms(3) unfolding honest_run_def by auto
    then show ?thesis
      using Cons split assms(1) by (simp add: run_step_ok)
  qed
qed

lemma clear_loop_ok:
  assumes "disk_ok fx"
  shows "\<exists>w' xs. clear_loop fx name rs w = (w', Inr xs) \<and> map target_of xs = rs \<and> honest_run fx name w xs \<and>
    listed_in (fw_file w') = settle xs (listed_in (fw_file w)) \<and> (fw_file w \<noteq> Garbled \<longrightarrow> fw_file w' \<noteq> Garbled)"
proof (induction rs arbitrary: w)
  case Nil
  then show ?case
    by (simp add: honest_run_def)
next
  case (Cons r rs)
  obtain w1 x where x: "clear_record fx name r w = (w1, Inr x)" "target_of x = r" "honest fx w x"
    "listed_in (fw_file w1) = settle [x] (listed_in (fw_file w))" "fw_file w1 \<noteq> Garbled"
    using clear_record_ok [OF assms] by blast
  obtain w2 xs where xs: "clear_loop fx name rs w1 = (w2, Inr xs)" "map target_of xs = rs" "honest_run fx name w1 xs"
    "listed_in (fw_file w2) = settle xs (listed_in (fw_file w1))" "fw_file w2 \<noteq> Garbled"
    using Cons.IH [of w1] x(5) by blast
  have "settle (x # xs) fs = settle xs (settle [x] fs)" for fs
    by (cases x) auto
  then have "clear_loop fx name (r # rs) w = (w2, Inr (x # xs)) \<and> map target_of (x # xs) = r # rs \<and>
      honest_run fx name w (x # xs) \<and> listed_in (fw_file w2) = settle (x # xs) (listed_in (fw_file w)) \<and>
      fw_file w2 \<noteq> Garbled"
    using x xs honest_run_Cons [of fx name x w w1 xs] by (simp add: run_step_ok)
  then show ?case
    by (intro exI [of _ w2] exI [of _ "x # xs"]) simp
qed

section \<open>What becomes of every record\<close>

lemma in_cleared: "Inl r \<in> set xs \<Longrightarrow> r \<in> set (cleared_of xs)"
  by (induction xs) (auto simp: cleared_of_def map_filter_simps split: sum.splits)

lemma in_failed: "Inr e \<in> set xs \<Longrightarrow> e \<in> set (failed_of xs)"
  by (induction xs) (auto simp: failed_of_def map_filter_simps split: sum.splits)


lemma settled_stays:
  "r \<in> set fs \<Longrightarrow> ft_id r \<notin> ft_id ` set (map target_of xs) \<Longrightarrow> r \<in> set (settle xs fs)"
proof (induction xs fs rule: settle.induct)
  case (3 r' errors xs fs)
  then have "r \<in> set (mark_failed (ft_id r') errors fs)"
    unfolding mark_failed_def target_of_def
    by (induction fs) (auto split: if_splits)
  then show ?case
    using 3 by (simp add: target_of_def)
qed (simp_all add: target_of_def others_def)

lemma ids_update: "(\<And>x. ft_id (f x) = ft_id x) \<Longrightarrow> map ft_id (update_first fid f fs) = map ft_id fs"
  by (induction fs) auto

lemma ids_mark_failed [simp]: "map ft_id (mark_failed fid errors fs) = map ft_id fs"
  unfolding mark_failed_def by (rule ids_update) simp

lemma distinct_others: "distinct (map ft_id fs) \<Longrightarrow> distinct (map ft_id (others fid fs))"
  by (simp add: others_def distinct_map_filter)

lemma settle_ids: "set (map ft_id (settle xs fs)) \<subseteq> set (map ft_id fs)"
proof (induction xs fs rule: settle.induct)
  case (2 r xs fs)
  then show ?case
    by (auto simp: others_def)
next
  case (3 r errors xs fs)
  then show ?case
    by (metis ids_mark_failed settle.simps(3))
qed simp

lemma settle_distinct: "distinct (map ft_id fs) \<Longrightarrow> distinct (map ft_id (settle xs fs))"
  by (induction xs fs rule: settle.induct) (auto simp: distinct_others simp flip: map_map)

lemma settle_gone:
  assumes "Inl r \<in> set xs"
  shows "ft_id r \<notin> set (map ft_id (settle xs fs))"
  using assms
proof (induction xs fs rule: settle.induct)
  case (2 r' xs fs)
  show ?case
  proof (cases "r' = r")
    case True
    have "ft_id r \<notin> set (map ft_id (others (ft_id r) fs))"
      by (auto simp: others_def)
    then show ?thesis
      using True settle_ids [of xs "others (ft_id r) fs"] by auto
  next
    case False
    then show ?thesis
      using 2 by auto
  qed
qed auto

lemma settle_marked:
  assumes "Inr (r, errors) \<in> set xs" "distinct (map (ft_id \<circ> target_of) xs)" "ft_id r \<in> set (map ft_id fs)"
    "distinct (map ft_id fs)" "r \<in> set fs"
  shows "r\<lparr>ft_state := FaultRestoreFailed, ft_restore_errors := errors\<rparr> \<in> set (settle xs fs)"
  using assms
proof (induction xs fs rule: settle.induct)
  case (2 r' xs fs)
  have "ft_id r' \<noteq> ft_id r"
    using 2(2,3) by (force simp: target_of_def)
  then show ?case
    using 2 by (simp add: distinct_others) (simp add: others_def)
next
  case (3 r' errors' xs fs)
  show ?case
  proof (cases "r' = r \<and> errors' = errors")
    case True
    let ?r = "r\<lparr>ft_state := FaultRestoreFailed, ft_restore_errors := errors\<rparr>"
    have "?r \<in> set (mark_failed (ft_id r) errors fs)"
      using \<open>r \<in> set fs\<close> \<open>distinct (map ft_id fs)\<close> unfolding mark_failed_def
      by (induction fs) (auto simp: rev_image_eqI)
    moreover have "ft_id ?r \<notin> ft_id ` set (map target_of xs)"
      using 3(3) True by (auto simp: target_of_def)
    ultimately show ?thesis
      using True settled_stays [of ?r "mark_failed (ft_id r) errors fs" xs] by simp
  next
    case False
    then have other: "ft_id r' \<noteq> ft_id r"
      using 3(2,3) by (force simp: target_of_def)
    have "r \<in> set (mark_failed (ft_id r') errors' fs)"
      using \<open>r \<in> set fs\<close> other unfolding mark_failed_def by (induction fs) auto
    then show ?thesis
      using 3 False by (auto simp: ids_mark_failed simp flip: set_map)
  qed
qed simp

text \<open>
  C17: clearing accounts for every fault. With a journal that can be read and written, one record per
  id, and targets that are different records of the journal, whatever the device answers: a fault that was not to be
  cleared stays as it is. The plan of a fault to be cleared is run, in the world that clearing the younger targets
  left. When it ends without an error, the fault is reported cleared and its id is gone from the journal; otherwise it is
  reported failed with the errors of that very run, and stays in the journal with its plan, marked as not restored, with
  the errors.
\<close>

theorem clear_loses_nothing:
  assumes "disk_ok fx" "distinct (map ft_id (listed_in (fw_file w)))" "distinct targets"
    "set targets \<subseteq> set (listed_in (fw_file w))" "r \<in> set (listed_in (fw_file w))"
  shows "\<exists>w' cleared failed. clear_records fx targets name w = (w', Inr (cleared, failed)) \<and>
    (r \<notin> set targets \<longrightarrow> r \<in> set (listed_in (fw_file w'))) \<and>
    (r \<in> set targets \<longrightarrow>
      (\<exists>younger older w1 w2 xs errors. newest_first targets = younger @ r # older \<and>
        clear_loop fx name younger w = (w1, Inr xs) \<and> apply_plan fx (ft_restore r) w1 = (w2, Inr errors) \<and>
        (if errors = [] then r \<in> set cleared \<and> (\<forall>s \<in> set (listed_in (fw_file w')). ft_id s \<noteq> ft_id r)
         else (r, errors) \<in> set failed \<and>
           r\<lparr>ft_state := FaultRestoreFailed, ft_restore_errors := errors\<rparr> \<in> set (listed_in (fw_file w')))))"
proof -
  let ?fs = "listed_in (fw_file w)"
  obtain w' xs where run: "clear_loop fx name (newest_first targets) w = (w', Inr xs)"
    "map target_of xs = newest_first targets" "honest_run fx name w xs" "listed_in (fw_file w') = settle xs ?fs"
    using clear_loop_ok [OF assms(1)] by blast
  have set: "set (map target_of xs) = set targets" and dist: "distinct (map target_of xs)"
    using run(2) assms(3) by (simp_all add: newest_first_def)
  have inj: "inj_on ft_id (set ?fs)"
    using assms(2) by (simp add: distinct_map)
  have dist_ids: "distinct (map (ft_id \<circ> target_of) xs)"
    using dist set inj_on_subset [OF inj assms(4)] by (simp flip: map_map add: distinct_map [of ft_id])
  have result: "clear_records fx targets name w = (w', Inr (cleared_of xs, failed_of xs))"
    using run(1) by (simp add: clear_records_def run_step_ok)
  have kept: "r \<in> set (settle xs ?fs)" if "r \<notin> set targets"
  proof (rule settled_stays [OF assms(5)])
    show "ft_id r \<notin> ft_id ` set (map target_of xs)"
      using that set inj assms(4,5) by (auto dest: inj_onD)
  qed
  have fate: "\<exists>younger older w1 w2 us errors. newest_first targets = younger @ r # older \<and>
        clear_loop fx name younger w = (w1, Inr us) \<and> apply_plan fx (ft_restore r) w1 = (w2, Inr errors) \<and>
        (if errors = [] then r \<in> set (cleared_of xs) \<and> (\<forall>s \<in> set (settle xs ?fs). ft_id s \<noteq> ft_id r)
         else (r, errors) \<in> set (failed_of xs) \<and>
           r\<lparr>ft_state := FaultRestoreFailed, ft_restore_errors := errors\<rparr> \<in> set (settle xs ?fs))"
    if target: "r \<in> set targets"
  proof -
    have "r \<in> target_of ` set xs"
      using target set by simp
    then obtain x where x: "x \<in> set xs" "target_of x = r"
      by blast
    then obtain ys zs where split: "xs = ys @ x # zs"
      by (auto simp: in_set_conv_decomp)
    then obtain w1 w2 where plan: "clear_loop fx name (map target_of ys) w = (w1, Inr ys)"
      "apply_plan fx (ft_restore r) w1 = (w2, Inr (errors_of x))" "isl x \<longleftrightarrow> errors_of x = []"
      using run(3) x(2) unfolding honest_run_def honest_def by blast
    have place: "newest_first targets = map target_of ys @ r # map target_of zs"
      using run(2) split x(2) by simp
    have "if errors_of x = [] then r \<in> set (cleared_of xs) \<and> (\<forall>s \<in> set (settle xs ?fs). ft_id s \<noteq> ft_id r)
         else (r, errors_of x) \<in> set (failed_of xs) \<and>
           r\<lparr>ft_state := FaultRestoreFailed, ft_restore_errors := errors_of x\<rparr> \<in> set (settle xs ?fs)"
    proof (cases x)
      case (Inl s)
      then show ?thesis
        using x plan(3) in_cleared settle_gone [of r xs ?fs] by (auto simp: target_of_def errors_of_def image_iff)
    next
      case (Inr s)
      then have errors: "x = Inr (r, errors_of x)"
        using x by (cases s) (simp add: target_of_def errors_of_def)
      then have "(r, errors_of x) \<in> set (failed_of xs)"
        using in_failed x(1) by metis
      moreover have "r\<lparr>ft_state := FaultRestoreFailed, ft_restore_errors := errors_of x\<rparr> \<in> set (settle xs ?fs)"
        using x(1) errors assms(2,5) dist_ids by (intro settle_marked) auto
      ultimately show ?thesis
        using Inr plan(3) by auto
    qed
    then show ?thesis
      using place plan(1,2) by blast
  qed
  have "(r \<notin> set targets \<longrightarrow> r \<in> set (settle xs ?fs)) \<and> (r \<in> set targets \<longrightarrow>
      (\<exists>younger older w1 w2 us errors. newest_first targets = younger @ r # older \<and>
        clear_loop fx name younger w = (w1, Inr us) \<and> apply_plan fx (ft_restore r) w1 = (w2, Inr errors) \<and>
        (if errors = [] then r \<in> set (cleared_of xs) \<and> (\<forall>s \<in> set (settle xs ?fs). ft_id s \<noteq> ft_id r)
         else (r, errors) \<in> set (failed_of xs) \<and>
           r\<lparr>ft_state := FaultRestoreFailed, ft_restore_errors := errors\<rparr> \<in> set (settle xs ?fs))))"
    using kept fate by blast
  then show ?thesis
    using result unfolding run(4) [symmetric] by blast
qed

end
