(* ===== verification/Machine.thy ===== *)
theory Machine
  imports Prelude
begin

text \<open>
  Components driven by a sequence of operations: an invariant that every operation keeps holds after
  any number of them, in any order.
\<close>

locale machine =
  fixes act :: "'a \<Rightarrow> 's \<Rightarrow> 's"
    and inv :: "'s \<Rightarrow> bool"
  assumes keep: "inv s \<Longrightarrow> inv (act a s)"
begin

lemma run_inv: "inv s \<Longrightarrow> inv (fold act ops s)"
  by (induction ops arbitrary: s) (auto intro: keep)

lemma always: "inv s \<Longrightarrow> inv (fold act (take n ops) s)"
  by (rule run_inv)

end

end
