(* ===== verification/FaultMachine.thy ===== *)
theory FaultMachine
  imports FaultClear Machine
begin

text \<open>
  The journal under any sequence of fault commands: one record per id, and no resource owned by two
  faults. Nothing is assumed of the device or of the disk.
\<close>

section \<open>Well-kept journals\<close>

definition journal_key :: "fault_record \<Rightarrow> string \<times> string list" where
  "journal_key r = (ft_id r, ft_resources r)"

definition apart :: "string \<times> string list \<Rightarrow> string \<times> string list \<Rightarrow> bool" where
  "apart a b \<longleftrightarrow> fst a \<noteq> fst b \<and> set (snd a) \<inter> set (snd b) = {}"

definition well_kept :: "fault_record list \<Rightarrow> bool" where
  "well_kept fs \<longleftrightarrow> sorted_wrt apart (map journal_key fs)"

definition kept_world :: "'d fault_world \<Rightarrow> bool" where
  "kept_world w \<longleftrightarrow> well_kept (listed_in (fw_file w))"

lemma well_kept_distinct: "well_kept fs \<Longrightarrow> distinct (map ft_id fs)"
  unfolding well_kept_def
  by (induction fs) (auto simp: apart_def journal_key_def)

lemma well_kept_disjoint:
  "well_kept fs \<Longrightarrow> r \<in> set fs \<Longrightarrow> s \<in> set fs \<Longrightarrow> r \<noteq> s \<Longrightarrow> set (ft_resources r) \<inter> set (ft_resources s) = {}"
  unfolding well_kept_def
  by (induction fs) (fastforce simp: apart_def journal_key_def)+

lemma well_kept_Nil [simp]: "well_kept []"
  by (simp add: well_kept_def)

lemma well_kept_others: "well_kept fs \<Longrightarrow> well_kept (others fid fs)"
  unfolding well_kept_def others_def sorted_wrt_map by (rule sorted_wrt_filter)

lemma keys_update:
  "(\<And>x. x \<in> set fs \<Longrightarrow> ft_id x = fid \<Longrightarrow> journal_key (f x) = journal_key x) \<Longrightarrow>
   map journal_key (update_first fid f fs) = map journal_key fs"
  by (induction fs) auto

lemma well_kept_failed: "well_kept fs \<Longrightarrow> well_kept (mark_failed fid errors fs)"
  unfolding well_kept_def mark_failed_def
  by (subst keys_update) (simp_all add: journal_key_def)

lemma well_kept_recorded:
  assumes "well_kept (listed_in file)" "free_in (ft_resources r) file"
  shows "well_kept (others (ft_id r) (listed_in file) @ [r])"
  using well_kept_others [OF assms(1), of "ft_id r"] assms(2)
  by (auto simp: well_kept_def sorted_wrt_append apart_def journal_key_def others_def free_in_def conflicting_def
      list_ex_iff)

section \<open>Every operation\<close>

interpretation journal_unread: acting_invariant kept_world
  by unfold_locales (simp_all add: kept_world_def)

lemma keeps_kept_save:
  "well_kept fs \<Longrightarrow> keeps kept_world (journal_save fx fs)"
  "well_kept fs \<Longrightarrow> keeps kept_world (save_quietly fx fs)"
  "keeps kept_world (append_event fx name r)"
  by (auto simp: keeps_def journal_save_def save_quietly_def attempt_def append_event_def kept_world_def listed_in_def
      split: if_splits prod.splits)

text \<open>A step whose continuation may use what the result is known to be.\<close>

lemma keeps_step_with:
  assumes "keeps I p" "\<And>w w' a. I w \<Longrightarrow> p w = (w', Inr a) \<Longrightarrow> J a" "\<And>a. J a \<Longrightarrow> keeps I (k a)"
  shows "keeps I (step p k)"
proof (rule keepsI)
  fix w
  assume w: "I w"
  obtain w' r where p: "p w = (w', r)"
    by (cases "p w")
  have "I w'"
    using assms(1) w p by (rule keepsD)
  then show "I (fst (step p k w))"
    using p w assms(2,3) by (cases r) (auto simp: step_def keeps_def)
qed

lemma kept_loaded: "kept_world w \<Longrightarrow> journal_or_empty fx w = (w', Inr fs) \<Longrightarrow> well_kept fs"
  by (auto simp: journal_or_empty_def attempt_def journal_load_def kept_world_def listed_in_def
      split: if_splits journal_file.splits)

lemma keeps_kept_stop_expiry: "keeps kept_world (stop_expiry fx r)"
  unfolding stop_expiry_def by (intro keep_intros journal_unread.reads)

lemma keeps_kept_clear_record: "keeps kept_world (clear_record fx name r)"
  unfolding clear_record_def
proof (intro keeps_step [OF journal_unread.keeps_apply_plan]
    keeps_step_with [where p = "journal_or_empty fx" and J = well_kept, OF journal_unread.keeps_load(2)])
  fix errors fs
  assume "well_kept fs"
  then show "keeps kept_world
    (if errors = [] then
       step (append_event fx name r) (\<lambda>u.
       step (stop_expiry fx r) (\<lambda>u.
       step (save_quietly fx (others (ft_id r) fs)) (\<lambda>u. give (Inl r))))
     else
       step (append_event fx ''restore_failed'' r) (\<lambda>u.
       step (save_quietly fx (mark_failed (ft_id r) errors fs)) (\<lambda>u. give (Inr (r, errors)))))"
    by (auto intro!: keep_intros keeps_kept_save keeps_kept_stop_expiry well_kept_others well_kept_failed)
qed (rule kept_loaded)

lemma keeps_kept_clear_loop: "keeps kept_world (clear_loop fx name rs)"
  by (induction rs) (auto intro!: keep_intros keeps_kept_clear_record)

lemma keeps_kept_clear_records: "keeps kept_world (clear_records fx targets name)"
  unfolding clear_records_def by (intro keep_intros keeps_kept_clear_loop)

lemma keeps_kept_clear:
  "keeps kept_world (fault_clear fx args)"
  "keeps kept_world (clear_all_quietly fx)"
  "keeps kept_world (clear_stale fx)"
  "keeps kept_world (clear_due fx)"
  unfolding fault_clear_def clear_all_quietly_def clear_stale_def clear_due_def
  by (auto simp: Let_def intro!: keep_intros keeps_kept_clear_records journal_unread.reads)

lemma keeps_kept_roll_back: "keeps kept_world (roll_back fx r failure)"
  unfolding roll_back_def
proof (intro keeps_step [OF journal_unread.keeps_apply_plan]
    keeps_step_with [where p = "journal_or_empty fx" and J = well_kept, OF journal_unread.keeps_load(2)])
  fix errors fs
  assume "well_kept fs"
  then show "keeps kept_world
    (if errors = [] then
       step (save_quietly fx (others (ft_id r) fs)) (\<lambda>u. step (append_event fx ''rolled_back'' r) (\<lambda>u. stop failure))
     else
       step (save_quietly fx (mark_failed (ft_id r) errors fs)) (\<lambda>u.
       step (append_event fx ''restore_failed'' r) (\<lambda>u. stop ''fault_restore_failed'')))"
    by (auto intro!: keep_intros keeps_kept_save well_kept_others well_kept_failed)
qed (rule kept_loaded)


text \<open>While a fault is being recorded, its entries in the journal own what it owns.\<close>

definition kept_with :: "fault_record \<Rightarrow> fault_record list \<Rightarrow> bool" where
  "kept_with r fs \<longleftrightarrow> well_kept fs \<and> (\<forall>s \<in> set fs. ft_id s = ft_id r \<longrightarrow> journal_key s = journal_key r)"

interpretation owning: reading_invariant "\<lambda>w. kept_with r (listed_in (fw_file w))" for r
  by unfold_locales simp

lemma keeps_kept_finish:
  assumes "journal_key r' = journal_key r"
  shows "keeps (\<lambda>w. kept_with r (listed_in (fw_file w))) (finish_state fx r' expires)"
proof -
  let ?I = "\<lambda>w :: 'a fault_world. kept_with r (listed_in (fw_file w))"
  have save: "keeps ?I (journal_save fx (update_first (ft_id s) (\<lambda>slot. s) fs))"
    if "kept_with r fs" "journal_key s = journal_key r" for s fs
  proof -
    have ids: "ft_id s = ft_id r"
      using that(2) by (simp add: journal_key_def)
    have owners: "\<forall>t \<in> set fs. ft_id t = ft_id r \<longrightarrow> journal_key t = journal_key r"
      using that(1) by (simp add: kept_with_def)
    have keys: "map journal_key (update_first (ft_id s) (\<lambda>slot. s) fs) = map journal_key fs"
      using that unfolding kept_with_def ids by (intro keys_update) auto
    have "\<forall>t \<in> set (update_first (ft_id s) (\<lambda>slot. s) fs). ft_id t = ft_id r \<longrightarrow> journal_key t = journal_key r"
      using owners by (induction fs) (auto simp: that(2) split: if_splits)
    then have "kept_with r (update_first (ft_id s) (\<lambda>slot. s) fs)"
      using that(1) keys by (simp add: kept_with_def well_kept_def)
    moreover have "keeps ?I (journal_save fx gs)" if "kept_with r gs" for gs
      using that by (auto simp: keeps_def journal_save_def listed_in_def split: if_splits)
    ultimately show ?thesis
      by blast
  qed
  have load: "keeps ?I (step (journal_load fx) (\<lambda>faults.
      step (journal_save fx (update_first (ft_id s) (\<lambda>slot. s) faults)) (\<lambda>u.
      step (append_event fx ''injected'' s) (\<lambda>u. give s))))" if "journal_key s = journal_key r" for s
  proof (rule keeps_step_with [where J = "kept_with r", OF owning.keeps_load(1)])
    fix w w' fs
    assume "kept_with r (listed_in (fw_file w))" "journal_load fx w = (w', Inr fs)"
    then show "kept_with r fs"
      by (simp add: journal_load_def listed_in_def split: if_splits journal_file.splits)
  next
    fix fs
    assume fs: "kept_with r fs"
    have logged: "keeps ?I (append_event fx ''injected'' s)"
      by (simp add: keeps_def append_event_def)
    show "keeps ?I (step (journal_save fx (update_first (ft_id s) (\<lambda>slot. s) fs)) (\<lambda>u.
        step (append_event fx ''injected'' s) (\<lambda>u. give s)))"
      by (intro keep_intros save [OF fs that] logged)
  qed
  have key: "journal_key (r'\<lparr>ft_expiry_pid := p\<rparr>) = journal_key r" for p
    using assms by (simp add: journal_key_def)
  show ?thesis
  proof (cases expires)
    case None
    show ?thesis
      unfolding finish_state_def None option.case step_give by (intro load [OF assms] keep_intros)
  next
    case (Some at_ms)
    have pull: "step (attempt p (\<lambda>pid. give (f pid))) k = attempt p (\<lambda>pid. k (f pid))"
      for p :: "('a, nat) fault_prog" and f and k :: "fault_record \<Rightarrow> ('a, fault_record) fault_prog"
      by (simp add: fun_eq_iff attempt_def step_def split: prod.splits)
    show ?thesis
      unfolding finish_state_def Some option.case pull by (intro load [OF key] keep_intros owning.reads)
  qed
qed

lemma keeps_kept_rest_state:
  assumes "after_record n r (recorded_in file r) w" "well_kept (listed_in file)" "free_in (ft_resources r) file"
    "ki_effect info = StateFault" "inject_rest fx info expires outcome w = (w', result)"
  shows "kept_world w'"
proof -
  have fs: "well_kept (others (ft_id r) (listed_in file) @ [r])"
    using well_kept_recorded assms(2,3) by blast
  have rec: "fw_record w = r" "fw_recorded w" "listed_in (fw_file w) = others (ft_id r) (listed_in file) @ [r]"
    using assms(1) by (auto simp: after_record_def recorded_in_def listed_in_def)
  show ?thesis
  proof (cases outcome)
    case (Inl failure)
    then have "roll_back fx r failure w = (w', result)"
      using assms(5) rec by (simp add: inject_rest_def)
    moreover have "kept_world w"
      using fs rec by (simp add: kept_world_def)
    ultimately show ?thesis
      using keepsD [OF keeps_kept_roll_back] by blast
  next
    case (Inr injected)
    let ?r = "r\<lparr>ft_params := in_params injected, ft_observed := in_observed injected\<rparr>"
    obtain w3 result3 where finish: "finish_state fx ?r expires w = (w3, result3)"
      by (cases "finish_state fx ?r expires w")
    have "kept_with r (listed_in (fw_file w))"
      using fs rec(3) by (auto simp: kept_with_def others_def)
    then have "kept_with r (listed_in (fw_file w3))"
      using keepsD [OF keeps_kept_finish [of ?r r fx expires] _ finish] by (simp add: journal_key_def)
    moreover have "w' = w3"
      using assms(4,5) Inr rec finish
      by (cases result3) (auto simp: inject_rest_def step_def [of "finish_state fx x y" for x y] now_ms_def)
    ultimately show ?thesis
      by (simp add: kept_world_def kept_with_def)
  qed
qed

lemma action_kind_cases:
  "\<not> is_state_cmd cmd \<Longrightarrow> find_kind (kind_name cmd) = Some info \<Longrightarrow> ki_effect info \<noteq> StateFault"
  by (auto simp: is_state_cmd_def)

lemma keeps_action:
  assumes "\<not> is_state_cmd cmd" "acting_invariant I"
  shows "keeps I (kind_inject fx ctx cmd)"
  using assms acting_invariant.keeps_action_kinds [OF assms(2)]
  by (cases cmd) (simp_all add: state_cmd_row KIND_ROWS_def)

lemma kept_inject:
  assumes "kept_world w" "fault_inject fx cmd w = (w', result)"
  shows "kept_world w'"
proof (cases "is_state_cmd cmd")
  case True
  then show ?thesis
    using injection_outcome [OF True assms(2)] keeps_kept_rest_state assms(1)
    unfolding kept_world_def by metis
next
  case False
  from fault_inject_cases [OF assms(2)] show ?thesis
  proof (elim disjE exE conjE)
    fix info and fid :: string and expires ctx w1 w2 outcome
    assume info: "find_kind (kind_name cmd) = Some info"
      and w1: "before_record (length (fw_trace w)) (fw_file w) (fid, resources_for info (cmd_app cmd), FaultActive) w1"
      and kind: "kind_inject fx ctx cmd w1 = (w2, outcome)"
      and rest: "inject_rest fx info expires outcome w2 = (w', result)"
    have "books (fw_file w) (fw_record w1) False (fw_events w1) w1"
      using w1 by (simp add: books_def before_record_def)
    then have "books (fw_file w) (fw_record w1) False (fw_events w1) w2"
      using keepsD [OF keeps_action [OF False books.acting_invariant_axioms] _ kind] by blast
    then have "fw_file w' = fw_file w"
      using rest action_kind_cases [OF False info]
      by (auto simp: books_def inject_rest_def append_event_def now_ms_def Let_def step_def split: sum.splits if_splits)
    then show ?thesis
      using assms(1) by (simp add: kept_world_def)
  qed (use assms(1) in \<open>simp add: untouched_def kept_world_def\<close>)
qed

section \<open>The machine\<close>

text \<open>\<open>OpOutside\<close> is anything that happens without us: time, the device, other programs.\<close>

datatype 'd fault_op =
    OpInject inject_cmd
  | OpClear clear_args
  | OpClearAll
  | OpClearStale
  | OpClearDue
  | OpExpire string nat
  | OpOutside "'d \<Rightarrow> 'd"

fun fault_act :: "'d fault_ext \<Rightarrow> 'd fault_op \<Rightarrow> 'd fault_world \<Rightarrow> 'd fault_world" where
  "fault_act fx (OpInject cmd) w = fst (fault_inject fx cmd w)"
| "fault_act fx (OpClear args) w = fst (fault_clear fx args w)"
| "fault_act fx OpClearAll w = fst (clear_all_quietly fx w)"
| "fault_act fx OpClearStale w = fst (clear_stale fx w)"
| "fault_act fx OpClearDue w = fst (clear_due fx w)"
| "fault_act fx (OpExpire fid at_ms) w = fst (run_expire fx fid at_ms w)"
| "fault_act fx (OpOutside f) w = w\<lparr>fw_dev := f (fw_dev w)\<rparr>"

interpretation fault_machine: machine "fault_act fx" kept_world for fx
proof unfold_locales
  fix w :: "'a fault_world" and op :: "'a fault_op"
  assume w: "kept_world w"
  show "kept_world (fault_act fx op w)"
  proof (cases op)
    case (OpInject cmd)
    then show ?thesis
      using kept_inject [OF w] by (metis fault_act.simps(1) prod.collapse)
  next
    case (OpExpire fid at_ms)
    have "keeps kept_world (run_expire fx fid at_ms)"
      unfolding run_expire_def by (intro keep_intros journal_unread.reads keeps_kept_clear)
    then show ?thesis
      using w OpExpire by (simp add: keeps_def)
  next
    case (OpClear args)
    then show ?thesis
      using w keeps_kept_clear(1) [of fx args] by (simp add: keeps_def)
  next
    case OpClearAll
    then show ?thesis
      using w keeps_kept_clear(2) [of fx] by (simp add: keeps_def)
  next
    case OpClearStale
    then show ?thesis
      using w keeps_kept_clear(3) [of fx] by (simp add: keeps_def)
  next
    case OpClearDue
    then show ?thesis
      using w keeps_kept_clear(4) [of fx] by (simp add: keeps_def)
  next
    case (OpOutside f)
    then show ?thesis
      using w by (simp add: kept_world_def)
  qed
qed

text \<open>
  C18: after any sequence of injections, clears, expiries and outside events, on a device and a disk
  that may fail at any point, the faults of the journal have distinct ids and no two of them own a
  resource in common.
\<close>

theorem resources_never_shared:
  assumes "fw_file w = NoJournal" "faults = listed_in (fw_file (fold (fault_act fx) ops w))"
  shows "distinct (map ft_id faults) \<and>
    (\<forall>r \<in> set faults. \<forall>s \<in> set faults. r \<noteq> s \<longrightarrow> set (ft_resources r) \<inter> set (ft_resources s) = {})"
proof -
  have "kept_world w"
    using assms(1) by (simp add: kept_world_def listed_in_def)
  then have "well_kept faults"
    using fault_machine.run_inv [of w fx ops] assms(2) by (simp add: kept_world_def)
  then show ?thesis
    using well_kept_distinct well_kept_disjoint by blast
qed

end
