(* ===== verification/FaultWait.thy ===== *)
theory FaultWait
  imports FaultMachine
begin

text \<open>
  The loops that wait for a device end: with as many rounds as fit into their time-outs, more rounds make
  no difference.
\<close>

section \<open>Waiting ends\<close>

text \<open>A clock that does not go backwards, and moves on while one sleeps.\<close>

definition clock_ok :: "'d fault_ext \<Rightarrow> bool" where
  "clock_ok fx \<longleftrightarrow>
     (\<forall>ms d. fx_now fx d + ms \<le> fx_now fx (fx_sleep fx ms d)) \<and>
     (\<forall>c d. fx_now fx d \<le> fx_now fx (fst (fx_shell fx c d))) \<and>
     (\<forall>d. fx_now fx d \<le> fx_now fx (fst (fx_devices fx d)))"

definition world_now :: "'d fault_ext \<Rightarrow> 'd fault_world \<Rightarrow> nat" where
  "world_now fx w = fx_now fx (fw_dev w)"

text \<open>A program in which time does not run backwards, seen through the invariant of a lower bound.\<close>

definition later :: "'d fault_ext \<Rightarrow> ('d, 'a) fault_prog \<Rightarrow> bool" where
  "later fx p \<longleftrightarrow> (\<forall>t. keeps (\<lambda>w. t \<le> world_now fx w) p)"

lemma laterD: "later fx p \<Longrightarrow> p w = (w', r) \<Longrightarrow> world_now fx w \<le> world_now fx w'"
  unfolding later_def by (blast dest: keepsD)

lemma later_shell: "clock_ok fx \<Longrightarrow> later fx (outside (fx_shell fx c))"
  by (auto simp: later_def keeps_def outside_def clock_ok_def world_now_def split: prod.splits)
    (metis fst_conv le_trans)

lemma later_run_shell: "clock_ok fx \<Longrightarrow> later fx (changing x (fx_shell fx c))"
  by (auto simp: later_def keeps_def changing_def outside_def clock_ok_def world_now_def split: prod.splits)
    (metis fst_conv le_trans)

lemma later_devices: "clock_ok fx \<Longrightarrow> later fx (outside (fx_devices fx))"
  by (auto simp: later_def keeps_def outside_def clock_ok_def world_now_def split: prod.splits)
    (metis fst_conv le_trans)

lemma later_step: "later fx p \<Longrightarrow> (\<And>a. later fx (k a)) \<Longrightarrow> later fx (step p k)"
  by (auto simp: later_def intro!: keep_intros)

lemma later_lift: "later fx (lift r)" "later fx (give a)"
  by (auto simp: later_def intro!: keep_intros)

lemma later_read: "clock_ok fx \<Longrightarrow> later fx (dev_read fx c)"
  unfolding dev_read_def by (intro later_step later_shell later_lift)

lemma later_run: "clock_ok fx \<Longrightarrow> later fx (dev_run fx c)"
  unfolding dev_run_def by (intro later_step later_run_shell later_lift)

lemma later_pid: "clock_ok fx \<Longrightarrow> later fx (pid_of fx package)"
  unfolding pid_of_def by (intro later_step later_read later_lift)

lemma pause_later: "clock_ok fx \<Longrightarrow> pause_ms fx ms w = (w', r) \<Longrightarrow> world_now fx w + ms \<le> world_now fx w'"
  by (auto simp: pause_ms_def outside_def world_now_def clock_ok_def)

lemma step_cong_run: "(\<And>w' a. p w = (w', Inr a) \<Longrightarrow> k a w' = k' a w') \<Longrightarrow> step p k w = step p k' w"
  by (simp add: step_def split: prod.splits sum.splits)

lemma step_now: "step (now_ms fx) k w = k (world_now fx w) w"
  by (simp add: now_ms_def world_now_def)

text \<open>With as much fuel as there are rounds before the deadline, more fuel makes no difference.\<close>

lemma wait_loop_fuel:
  assumes "clock_ok fx"
  shows "deadline \<le> world_now fx w + POLL_MS * n \<Longrightarrow>
    wait_loop fx check deadline (Suc n + j) w = wait_loop fx check deadline (Suc n) w"
proof (induction n arbitrary: w)
  case 0
  show ?case
    unfolding add_Suc wait_loop.simps(2)
  proof (rule step_cong_run)
    fix w' r
    assume "dev_read fx (vf_command check) w = (w', Inr r)"
    then have "deadline \<le> world_now fx w'"
      using laterD [OF later_read [OF assms]] 0 by fastforce
    then show "(if str_contains (rn_output r) (vf_contains check) then give ()
        else step (now_ms fx) (\<lambda>now. if deadline \<le> now then stop ''the check did not show what was expected''
          else step (pause_ms fx POLL_MS) (\<lambda>u. wait_loop fx check deadline (0 + j)))) w' =
      (if str_contains (rn_output r) (vf_contains check) then give ()
        else step (now_ms fx) (\<lambda>now. if deadline \<le> now then stop ''the check did not show what was expected''
          else step (pause_ms fx POLL_MS) (\<lambda>u. wait_loop fx check deadline 0))) w'"
      by (simp add: step_now)
  qed
next
  case (Suc n)
  have next_round: "wait_loop fx check deadline (Suc n + j) w'' = wait_loop fx check deadline (Suc n) w''"
    if "dev_read fx (vf_command check) w = (w', Inr r)" "pause_ms fx POLL_MS w' = (w'', u)" for w' r w'' u
    using Suc.IH [of w''] Suc.prems laterD [OF later_read [OF assms] that(1)] pause_later [OF assms that(2)] by simp
  show ?case
    unfolding add_Suc wait_loop.simps(2) [of fx check deadline "Suc (n + j)"] wait_loop.simps(2) [of fx check deadline "Suc n"]
  proof (rule step_cong_run)
    fix w' r
    assume read: "dev_read fx (vf_command check) w = (w', Inr r)"
    have "step (pause_ms fx POLL_MS) (\<lambda>u. wait_loop fx check deadline (Suc (n + j))) w' =
        step (pause_ms fx POLL_MS) (\<lambda>u. wait_loop fx check deadline (Suc n)) w'"
      using next_round [OF read] by (intro step_cong_run) simp
    then show "(if str_contains (rn_output r) (vf_contains check) then give ()
        else step (now_ms fx) (\<lambda>now. if deadline \<le> now then stop ''the check did not show what was expected''
          else step (pause_ms fx POLL_MS) (\<lambda>u. wait_loop fx check deadline (Suc (n + j))))) w' =
      (if str_contains (rn_output r) (vf_contains check) then give ()
        else step (now_ms fx) (\<lambda>now. if deadline \<le> now then stop ''the check did not show what was expected''
          else step (pause_ms fx POLL_MS) (\<lambda>u. wait_loop fx check deadline (Suc n)))) w'"
      by (simp add: step_now)
  qed
qed

lemma kill_loop_fuel:
  assumes "clock_ok fx"
  shows "deadline \<le> world_now fx w + 500 * n \<Longrightarrow>
    kill_loop fx package pid deadline (Suc n + j) w = kill_loop fx package pid deadline (Suc n) w"
proof (induction n arbitrary: w)
  case 0
  then show ?case
    by (simp add: step_now)
next
  case (Suc n)
  let ?rest = "\<lambda>fuel. step (pid_of fx package) (\<lambda>current.
    if current \<noteq> Some pid then give True else kill_loop fx package pid deadline fuel)"
  have "step (dev_run fx (''am kill '' @ quoted package)) (\<lambda>r. step (pause_ms fx 500) (\<lambda>u. ?rest (Suc (n + j)))) w =
      step (dev_run fx (''am kill '' @ quoted package)) (\<lambda>r. step (pause_ms fx 500) (\<lambda>u. ?rest (Suc n))) w"
  proof (intro step_cong_run)
    fix w1 r w2 u w3 current
    assume 1: "dev_run fx (''am kill '' @ quoted package) w = (w1, Inr r)"
      and 2: "pause_ms fx 500 w1 = (w2, Inr u)" and 3: "pid_of fx package w2 = (w3, Inr current)"
    have "deadline \<le> world_now fx w3 + 500 * n"
      using Suc.prems laterD [OF later_run [OF assms] 1] pause_later [OF assms 2] laterD [OF later_pid [OF assms] 3] by simp
    then show "(if current \<noteq> Some pid then give True else kill_loop fx package pid deadline (Suc (n + j))) w3 =
        (if current \<noteq> Some pid then give True else kill_loop fx package pid deadline (Suc n)) w3"
      using Suc.IH [of w3] by simp
  qed
  then show ?case
    unfolding add_Suc kill_loop.simps(2) [of fx package pid deadline "Suc (n + j)"]
      kill_loop.simps(2) [of fx package pid deadline "Suc n"]
    by (simp add: step_now)
qed

text \<open>
  C19: waiting for a device ends. While the clock runs and does not go backwards, the loop that polls a check is
  over after the number of rounds that fit into its five seconds, and the loop that kills a process
  after those that fit into its time-out: a larger bound on the rounds changes nothing.
\<close>

theorem waiting_ends:
  assumes "clock_ok fx"
  shows "wait_loop fx check (fx_now fx (fw_dev w) + WAIT_MS) (WAIT_MS div POLL_MS + 1 + more_rounds) w = wait_for fx check w \<and>
    kill_loop fx package pid (fx_now fx (fw_dev w) + timeout) (timeout div 500 + 2 + more_rounds) w =
      kill_loop fx package pid (fx_now fx (fw_dev w) + timeout) (timeout div 500 + 2) w"
proof
  show "wait_loop fx check (fx_now fx (fw_dev w) + WAIT_MS) (WAIT_MS div POLL_MS + 1 + more_rounds) w = wait_for fx check w"
    using wait_loop_fuel [OF assms, where n = 20 and j = more_rounds and w = w and deadline = "fx_now fx (fw_dev w) + WAIT_MS"]
    by (simp add: wait_for_def step_now world_now_def WAIT_MS_def POLL_MS_def del: wait_loop.simps)
  have "timeout \<le> 500 * (timeout div 500 + 1)"
    using dividend_less_times_div [of 500 timeout] by simp
  then show "kill_loop fx package pid (fx_now fx (fw_dev w) + timeout) (timeout div 500 + 2 + more_rounds) w =
      kill_loop fx package pid (fx_now fx (fw_dev w) + timeout) (timeout div 500 + 2) w"
    using kill_loop_fuel [OF assms, where n = "timeout div 500 + 1" and j = more_rounds and w = w
        and deadline = "fx_now fx (fw_dev w) + timeout"]
    by (simp add: world_now_def del: kill_loop.simps)
qed

end
