(* ===== verification/FaultShell.thy ===== *)
theory FaultShell
  imports FaultDevice
begin

text \<open>
  The status line: the device's shell runs a command in a group, with its errors among its output, and
  prints a marker with the exit status after it. Whatever the command itself prints, the status and the
  output are read back from that.
\<close>

section \<open>The last occurrence\<close>

lemma rfind_None: "n \<noteq> [] \<Longrightarrow> rfind_str n s = None \<longleftrightarrow> \<not> str_contains s n"
  by (induction s) (auto simp: starts_with_def split: option.splits)

lemma rfind_prepend: "rfind_str n s = Some (x, y) \<Longrightarrow> rfind_str n (a @ s) = Some (a @ x, y)"
  by (induction a) auto

lemma rfind_here:
  assumes "n \<noteq> []" "\<not> str_contains (tl (n @ b)) n"
  shows "rfind_str n (a @ n @ b) = Some (a, b)"
proof -
  obtain c cs where n: "n = c # cs"
    using assms(1) by (cases n) auto
  have "rfind_str n (cs @ b) = None"
    using assms n by (simp add: rfind_None)
  then have "rfind_str n (n @ b) = Some ([], b)"
    unfolding n by (simp add: starts_with_def)
  then show ?thesis
    using rfind_prepend [of n "n @ b" "[]" b a] by simp
qed

lemma contains_first: "str_contains s (c # cs) \<Longrightarrow> c \<in> set s"
  by (induction s) auto

section \<open>Decimal numbers\<close>

lemma digit_char:
  fixes n :: nat
  assumes "n < 10"
  shows "is_digit (char_of (48 + n))" "of_char (char_of (48 + n) :: char) = 48 + n"
  using assms by (simp_all add: is_digit_def Let_def)

lemma dec_digits_step:
  "n < 10 \<Longrightarrow> dec_digits n = [char_of (48 + n)]"
  "\<not> n < 10 \<Longrightarrow> dec_digits n = dec_digits (n div 10) @ [char_of (48 + n mod 10)]"
  by (subst dec_digits.simps, simp)+

lemma dec_digits_digits: "list_all is_digit (dec_digits n)"
proof (induction n rule: dec_digits.induct)
  case (1 n)
  show ?case
  proof (cases "n < 10")
    case True
    then show ?thesis
      by (simp add: dec_digits_step(1) digit_char(1))
  next
    case False
    have "is_digit (char_of (48 + n mod 10))"
      by (rule digit_char(1)) simp
    then show ?thesis
      using 1 False by (simp add: dec_digits_step(2))
  qed
qed

lemma dec_digits_value: "foldl (\<lambda>acc c. acc * 10 + (of_char c - 48)) 0 (dec_digits n) = n"
proof (induction n rule: dec_digits.induct)
  case (1 n)
  show ?case
  proof (cases "n < 10")
    case True
    then show ?thesis
      using digit_char(2) [of n] by (simp add: dec_digits_step(1))
  next
    case False
    then show ?thesis
      using 1 digit_char(2) [of "n mod 10"] by (simp add: dec_digits_step(2))
  qed
qed

lemma digits_not: "\<not> is_digit c \<Longrightarrow> c \<notin> set (dec_digits n)"
  using dec_digits_digits [of n] by (auto simp: list_all_iff)

lemma parse_dec_digits: "n < 2 ^ bits \<Longrightarrow> parse_unsigned bits (dec_digits n) = Some n"
proof -
  assume n: "n < 2 ^ bits"
  obtain c cs where d: "dec_digits n = c # cs"
    by (cases "dec_digits n") auto
  then have "c \<noteq> CHR ''+''"
    using digits_not [of "CHR ''+''" n] by (auto simp: is_digit_def Let_def)
  then show ?thesis
    using n dec_digits_digits [of n] dec_digits_value [of n] d by (simp add: parse_unsigned_def Let_def)
qed

lemma parse_i32_digits: "n < 2 ^ 31 \<Longrightarrow> parse_i32 (dec_digits n) = Some (int n)"
proof -
  assume n: "n < 2 ^ 31"
  obtain c cs where d: "dec_digits n = c # cs"
    by (cases "dec_digits n") auto
  then have "c \<noteq> CHR ''-''"
    using digits_not [of "CHR ''-''" n] by (auto simp: is_digit_def Let_def)
  then show ?thesis
    using parse_dec_digits [OF n] d by (simp add: parse_i32_def)
qed

section \<open>Trimming\<close>

lemma digit_visible: "is_digit c \<Longrightarrow> (32 :: nat) < of_char c \<and> of_char c < (128 :: nat)"
  by (simp add: is_digit_def Let_def)

lemma trim_line:
  assumes "list_all (\<lambda>c. (32 :: nat) < of_char c \<and> of_char c < (128 :: nat)) s"
  shows "str_trim (s @ [CHR 0x0A]) = s"
proof -
  have ascii: "list_all (\<lambda>c. of_char c < (128 :: nat)) (s @ [CHR 0x0A])" "list_all (\<lambda>c. of_char c < (128 :: nat)) s"
    using assms by (simp_all add: list_all_iff)
  have blank: "char_is_whitespace 10"
    by (simp add: char_is_whitespace_def)
  have stay: "dropWhile char_is_whitespace (map of_char t @ xs) = map of_char t @ xs" if "set t \<subseteq> set s" "t \<noteq> []" for t xs
    using that assms by (cases t) (auto simp: char_is_whitespace_def list_all_iff)
  show ?thesis
  proof (cases "s = []")
    case True
    then show ?thesis
      using ascii blank by (simp add: str_trim_def str_chars_ascii chars_str_def utf8_encode_def bytes_str_def)
  next
    case False
    then show ?thesis
      using ascii blank stay [of s "[10]"] stay [of "rev s" "[]"]
      by (simp add: str_trim_def str_chars_ascii [OF ascii(1)] chars_str_ascii rev_map [symmetric])
  qed
qed

lemma trim_end_line:
  assumes "list_all (\<lambda>c. (32 :: nat) < of_char c \<and> of_char c < (128 :: nat)) s"
  shows "trim_end (s @ [CHR 0x0A]) = s"
proof -
  have ascii: "list_all (\<lambda>c. of_char c < (128 :: nat)) (s @ [CHR 0x0A])" "list_all (\<lambda>c. of_char c < (128 :: nat)) s"
    using assms by (simp_all add: list_all_iff)
  have blank: "char_is_whitespace 10"
    by (simp add: char_is_whitespace_def)
  have "dropWhile char_is_whitespace (map of_char (rev s)) = map of_char (rev s)"
  proof (cases "rev s")
    case (Cons c t)
    then have "c \<in> set s"
      using set_rev [of s] by simp
    then show ?thesis
      using assms Cons by (auto simp: char_is_whitespace_def list_all_iff)
  qed simp
  then show ?thesis
    using blank by (simp add: trim_end_def str_chars_ascii [OF ascii(1)] chars_str_ascii [OF ascii(2)] flip: rev_map)
qed

section \<open>The status\<close>

lemma unwrap_marked:
  assumes "status < 2 ^ 31"
  shows "unwrap_ran (output @ RC_MARKER @ dec_digits status @ [CHR 0x0A]) =
    Inr \<lparr>rn_status = int status, rn_output = trim_end output\<rparr>"
proof -
  let ?tail = "dec_digits status @ [CHR 0x0A]"
  have "CHR ''_'' \<notin> set ?tail"
    using digits_not [of "CHR ''_''" status] by (simp add: is_digit_def Let_def)
  then have "\<not> str_contains ?tail RC_MARKER"
    using contains_first [of ?tail "CHR ''_''"] unfolding RC_MARKER_def by blast
  moreover have "hd ?tail \<noteq> CHR ''_''"
    using digits_not [of "CHR ''_''" status] by (cases "dec_digits status") (auto simp: is_digit_def Let_def)
  ultimately have "\<not> str_contains (tl (RC_MARKER @ ?tail)) RC_MARKER"
    by (simp add: RC_MARKER_def)
  then have "rfind_str RC_MARKER (output @ RC_MARKER @ ?tail) = Some (output, ?tail)"
    by (intro rfind_here) (simp_all add: RC_MARKER_def)
  moreover have "str_trim ?tail = dec_digits status"
    using dec_digits_digits [of status] digit_visible by (intro trim_line) (auto simp: list_all_iff)
  ultimately show ?thesis
    using parse_i32_digits [OF assms] by (simp add: unwrap_ran_def)
qed

text \<open>
  What a POSIX shell documents of a command group whose errors are redirected and of the \<open>echo\<close> after it, for
  a command that comes to its end (it leaves no quote or brace open and does not leave the shell): the group prints what
  the command prints, and then the word stands there with the decimal status of the group and a newline. The word
  is any that the shell does not change: letters, digits, underscores and equals signs.
\<close>

definition plain_word :: "string \<Rightarrow> bool" where
  "plain_word word \<longleftrightarrow>
     list_all (\<lambda>c. is_digit c \<or> (let n = of_char c :: nat in 65 \<le> n \<and> n \<le> 90 \<or> 97 \<le> n \<and> n \<le> 122) \<or> c \<in> set ''_='') word"

definition shell_ends :: "'d fault_ext \<Rightarrow> string \<Rightarrow> 'd \<Rightarrow> 'd \<Rightarrow> nat \<Rightarrow> string \<Rightarrow> bool" where
  "shell_ends fx command d d' status output \<longleftrightarrow>
     (\<forall>word. plain_word word \<longrightarrow>
        fx_shell fx (''{ '' @ command @ [CHR 0x0A] @ ''} 2>&1; echo '' @ word @ ''$?'') d =
          (d', Inr (output @ word @ dec_digits status @ [CHR 0x0A])))"

lemma marker_plain: "plain_word RC_MARKER"
  by (simp add: plain_word_def RC_MARKER_def)

text \<open>
  C20: when the device's shell runs a command to its end, with an exit status below \<open>2 ^ 31\<close>, \<open>run\<close> and \<open>read\<close> return
  that status and what the command printed, less the white space at its end, whatever it prints, be it text that looks
  like a status line. Only \<open>run\<close> is noted as a change, with the journal file of that moment.
\<close>

theorem shell_status_recovered:
  assumes "shell_ends fx command (fw_dev w) d' status output" "status < 2 ^ 31"
  shows "dev_run fx command w =
      (w\<lparr>fw_dev := d', fw_trace := fw_trace w @ [(ShellChange command, fw_file w)]\<rparr>,
       Inr \<lparr>rn_status = int status, rn_output = trim_end output\<rparr>) \<and>
    dev_read fx command w = (w\<lparr>fw_dev := d'\<rparr>, Inr \<lparr>rn_status = int status, rn_output = trim_end output\<rparr>)"
proof -
  have "fx_shell fx (wrap_command command) (fw_dev w) =
      (d', Inr (output @ RC_MARKER @ dec_digits status @ [CHR 0x0A]))"
    using assms(1) marker_plain by (simp add: shell_ends_def wrap_command_def)
  then show ?thesis
    using unwrap_marked [OF assms(2), of "output"]
    by (simp add: dev_run_def dev_read_def changing_def outside_def step_def)
qed

end
