(* ===== verification/FaultSamples.thy ===== *)
theory FaultSamples
  imports FaultWait FaultShell
begin

text \<open>
  A small device on which the fault commands run inside the logic: one global setting, a clock, an API
  level, and a disk that works. It shows that the promises of the other theories are about runs that
  exist.
\<close>

record sim_device =
  sim_now :: nat
  sim_setting :: "string option"

definition sim_reply :: "nat \<Rightarrow> string \<Rightarrow> string outcome" where
  "sim_reply status output = Inr (output @ [CHR 0x0A] @ RC_MARKER @ dec_digits status @ [CHR 0x0A])"

definition sim_shell :: "string \<Rightarrow> sim_device \<Rightarrow> sim_device \<times> string outcome" where
  "sim_shell command d =
     (if starts_with command ''{ getprop'' then (d, sim_reply 0 ''35'')
      else if starts_with command ''{ settings get'' then
        (d, sim_reply 0 (case sim_setting d of None \<Rightarrow> ''null'' | Some v \<Rightarrow> v))
      else if starts_with command ''{ settings delete'' then (d\<lparr>sim_setting := None\<rparr>, sim_reply 0 [])
      else if starts_with command ''{ settings put'' then (d\<lparr>sim_setting := Some ''1''\<rparr>, sim_reply 0 [])
      else (d, sim_reply 1 ''unknown command''))"

definition sim_fx :: "sim_device fault_ext" where
  "sim_fx =
     \<lparr>fx_serial = ''emulator-5554'',
      fx_shell = sim_shell,
      fx_console = (\<lambda>args d. (d, Inr (''OK'', True))),
      fx_avd_name = (\<lambda>d. Some ''Pixel''),
      fx_devices = (\<lambda>d. (d, Inr [(''emulator-5554'', ''device'')])),
      fx_launch_avd = (\<lambda>name cold d. (d, Inr ''emulator-5554'')),
      fx_release = (\<lambda>d. (d, Inr ())),
      fx_sleep = (\<lambda>ms d. d\<lparr>sim_now := sim_now d + ms\<rparr>),
      fx_now = sim_now,
      fx_new_id = (\<lambda>d. (d, ''flt_1'')),
      fx_proxy_running = (\<lambda>d. False),
      fx_control = (\<lambda>request d. (d, Inr JNull)),
      fx_readable = (\<lambda>d. True),
      fx_writable = (\<lambda>d. True),
      fx_spawn_timer = (\<lambda>fid at_ms d. (d, Inr 77)),
      fx_stop_timer = (\<lambda>pid fid d. d),
      fx_float = (\<lambda>s. None),
      fx_show_float = (\<lambda>q. [])\<rparr>"

definition sim_world :: "sim_device fault_world" where
  "sim_world =
     \<lparr>fw_dev = \<lparr>sim_now = 1000, sim_setting = None\<rparr>, fw_file = NoJournal, fw_events = [],
      fw_record = \<lparr>ft_id = [], ft_kind = [], ft_device = [], ft_app = None, ft_params = JNull,
        ft_state = FaultActive, ft_injected_at_ms = 0, ft_expires_at_ms = None, ft_observed = JNull,
        ft_restore = [], ft_resources = [], ft_expiry_pid = None, ft_restore_errors = []\<rparr>,
      fw_recorded = False, fw_trace = []\<rparr>"

definition sim_cmd :: inject_cmd where
  "sim_cmd = KDontKeepActivities (Some 60000)"

lemma sim_is_state: "is_state_cmd sim_cmd"
  by (simp add: state_cmd_row KIND_ROWS_def sim_cmd_def)

lemma sim_disk_ok: "disk_ok sim_fx"
  by (simp add: disk_ok_def sim_fx_def)

lemma sim_clock_ok: "clock_ok sim_fx"
  by (auto simp: clock_ok_def sim_fx_def sim_shell_def)

lemma sim_fields [simp]:
  "fx_now sim_fx d = sim_now d" "fx_new_id sim_fx d = (d, ''flt_1'')" "fx_readable sim_fx d" "fx_writable sim_fx d"
  "fx_spawn_timer sim_fx fid at_ms d = (d, Inr 77)" "fx_stop_timer sim_fx pid fid d = d"
  by (simp_all add: sim_fx_def)

text \<open>What it answers is read back.\<close>

lemma sim_reply_read:
  assumes "list_all (\<lambda>c. (32 :: nat) < of_char c \<and> of_char c < (128 :: nat)) output" "status < 2 ^ 31"
  shows "\<exists>raw. sim_reply status output = Inr raw \<and> unwrap_ran raw = Inr \<lparr>rn_status = int status, rn_output = output\<rparr>"
  using unwrap_marked [OF assms(2), of "output @ [CHR 0x0A]"] trim_end_line [OF assms(1)] by (simp add: sim_reply_def)

lemma sim_read:
  assumes "sim_shell (wrap_command c) (fw_dev w) = (fw_dev w, sim_reply 0 output)"
    "list_all (\<lambda>c. (32 :: nat) < of_char c \<and> of_char c < (128 :: nat)) output"
  shows "read_ok sim_fx c w = (w, Inr output)"
  using sim_reply_read [OF assms(2), of 0] assms(1)
  by (auto simp: read_ok_def dev_read_def outside_def step_def ran_output_def ran_ok_def sim_fx_def)

lemma sim_run:
  assumes "sim_shell (wrap_command c) (fw_dev w) = (d, sim_reply 0 [])"
  shows "run_ok sim_fx c w = (w\<lparr>fw_dev := d, fw_trace := fw_trace w @ [(ShellChange c, fw_file w)]\<rparr>, Inr [])"
  using sim_reply_read [of "[]" 0] assms
  by (auto simp: run_ok_def dev_run_def changing_def outside_def step_def ran_output_def ran_ok_def sim_fx_def)

lemma sim_sdk: "device_sdk sim_fx w = (w, Inr 35)"
proof -
  have "read_ok sim_fx ''getprop ro.build.version.sdk'' w = (w, Inr ''35'')"
    by (rule sim_read) (simp_all add: sim_shell_def wrap_command_def starts_with_def)
  moreover have "str_trim ''35'' = ''35''"
    by (rule str_trim_ascii) simp
  moreover have "parse_unsigned 32 ''35'' = Some 35"
    by (simp add: parse_unsigned_def is_digit_def)
  ultimately show ?thesis
    by (simp add: device_sdk_def step_def)
qed

lemma sim_get:
  assumes "sim_setting (fw_dev w) = v" "v \<in> {None, Some ''1''}"
  shows "get_setting sim_fx ''global'' ''always_finish_activities'' w = (w, Inr v)"
proof -
  define shown where "shown = (case v of None \<Rightarrow> ''null'' | Some x \<Rightarrow> x)"
  have visible: "list_all (\<lambda>c. (32 :: nat) < of_char c \<and> of_char c < (128 :: nat)) shown"
    using assms(2) by (auto simp: shown_def)
  have "read_ok sim_fx (''settings get '' @ ''global'' @ '' '' @ quoted ''always_finish_activities'') w = (w, Inr shown)"
    using visible assms(1) by (intro sim_read) (simp_all add: sim_shell_def wrap_command_def starts_with_def shown_def)
  then show ?thesis
    using str_trim_ascii [OF visible] assms(2) by (auto simp: get_setting_def step_def shown_def Let_def)
qed

lemma sim_put:
  "put_setting sim_fx ''global'' ''always_finish_activities'' (Some ''1'') w =
    (w\<lparr>fw_dev := (fw_dev w)\<lparr>sim_setting := Some ''1''\<rparr>,
       fw_trace := fw_trace w @ [(ShellChange (''settings put global '' @ quoted ''always_finish_activities'' @ '' '' @ quoted ''1''), fw_file w)]\<rparr>,
     Inr ())"
proof -
  have "run_ok sim_fx (''settings put '' @ ''global'' @ '' '' @ quoted ''always_finish_activities'' @ '' '' @ quoted ''1'') w =
      (w\<lparr>fw_dev := (fw_dev w)\<lparr>sim_setting := Some ''1''\<rparr>,
         fw_trace := fw_trace w @ [(ShellChange (''settings put '' @ ''global'' @ '' '' @ quoted ''always_finish_activities'' @ '' '' @ quoted ''1''), fw_file w)]\<rparr>,
       Inr [])"
    by (rule sim_run) (simp add: sim_shell_def wrap_command_def starts_with_def)
  then show ?thesis
    by (simp add: put_setting_def step_def sim_get)
qed

lemma sim_resource: "replace_str ''{app}'' [] ''always_finish_activities'' = ''always_finish_activities''"
  by (simp add: replace_str_def split_str.simps starts_with_def)

lemma sim_kind:
  obtains info where "find_kind ''dont-keep-activities'' = Some info"
    "ki_needs_app info = False" "ki_scope info = OnDevice" "ki_destructive info = False" "ki_min_sdk info = 26"
    "ki_effect info = StateFault" "resources_for info None = [''always_finish_activities'']"
  using find_kind_row [of "''dont-keep-activities''"] that by (auto simp: KIND_ROWS_def row_of_def resources_for_def sim_resource)

text \<open>The injection is journalled, sets the setting, and owns its resource.\<close>

lemma sim_injects:
  "\<exists>w' report r. fault_inject sim_fx sim_cmd sim_world = (w', Inr report) \<and>
     sim_setting (fw_dev w') = Some ''1'' \<and> length (filter (changes \<circ> fst) (fw_trace w')) = 1 \<and> fw_file w' = Faults [r] \<and>
     ft_resources r = [''always_finish_activities''] \<and> ft_expires_at_ms r = Some 61000"
proof -
  obtain info where info: "find_kind ''dont-keep-activities'' = Some info"
    "ki_needs_app info = False" "ki_scope info = OnDevice" "ki_destructive info = False" "ki_min_sdk info = 26"
    "ki_effect info = StateFault" "resources_for info None = [''always_finish_activities'']"
    by (rule sim_kind)
  show ?thesis
    by (simp add: fault_inject_def sim_cmd_def info preflight_def app_check_def is_emulator_def
        run_step_ok [OF sim_sdk] now_ms_def step_def attempt_def outside_def begin_recording_def fresh_record_def
        dont_keep_activities_def recorder_record_def sim_get sim_put sim_world_def journal_load_def
        journal_save_def Let_def others_def inject_rest_def finish_state_def append_event_def u64_add_def changes_def)
qed


section \<open>Witnesses\<close>

abbreviation sim_after :: "sim_device fault_world" where
  "sim_after \<equiv> fst (fault_inject sim_fx sim_cmd sim_world)"

lemma sim_run_pair: "fault_inject sim_fx sim_cmd sim_world = (sim_after, snd (fault_inject sim_fx sim_cmd sim_world))"
  by simp

lemma sim_trace:
  "length (fw_trace sim_world) = 0" "length (filter (changes \<circ> fst) (fw_trace sim_after)) = 1"
  using sim_injects by (auto simp: sim_world_def)

theorem journal_before_change_witness:
  "length (filter (changes \<circ> fst) (fw_trace sim_after)) = 1 \<and>
   list_all (\<lambda>(change, file). lists file (fw_record sim_after)) (filter (changes \<circ> fst) (fw_trace sim_after))"
  using journal_before_change [OF sim_is_state sim_run_pair] sim_trace
  by (auto simp: new_changes_def list_all_iff)

theorem fault_never_lost_witness:
  "(\<exists>r. lists (fw_file sim_after) r \<and> ft_id r = ft_id (fw_record sim_after) \<and>
     ft_restore r = ft_restore (fw_record sim_after)) \<and> sim_setting (fw_dev sim_after) = Some ''1''"
  using fault_never_lost [OF sim_disk_ok sim_is_state sim_run_pair] sim_injects by auto

text \<open>Clearing the fault again, from the journal the injection left.\<close>

theorem clear_loses_nothing_witness:
  "\<exists>r w' cleared failed w2 errors. listed_in (fw_file sim_after) = [r] \<and>
     clear_records sim_fx [r] ''cleared'' sim_after = (w', Inr (cleared, failed)) \<and>
     apply_plan sim_fx (ft_restore r) sim_after = (w2, Inr errors) \<and>
     (if errors = [] then r \<in> set cleared \<and> (\<forall>s \<in> set (listed_in (fw_file w')). ft_id s \<noteq> ft_id r)
      else (r, errors) \<in> set failed)"
proof -
  obtain r where r: "listed_in (fw_file sim_after) = [r]"
    using sim_injects by (auto simp: listed_in_def)
  have alone: "newest_first [r] = younger @ r # older \<longleftrightarrow> younger = [] \<and> older = []" for younger older
    by (auto simp: newest_first_def Cons_eq_append_conv)
  have "\<exists>w' cleared failed younger older w1 w2 xs errors.
    clear_records sim_fx [r] ''cleared'' sim_after = (w', Inr (cleared, failed)) \<and>
    newest_first [r] = younger @ r # older \<and> clear_loop sim_fx ''cleared'' younger sim_after = (w1, Inr xs) \<and>
    apply_plan sim_fx (ft_restore r) w1 = (w2, Inr errors) \<and>
    (if errors = [] then r \<in> set cleared \<and> (\<forall>s \<in> set (listed_in (fw_file w')). ft_id s \<noteq> ft_id r)
      else (r, errors) \<in> set failed \<and>
        r\<lparr>ft_state := FaultRestoreFailed, ft_restore_errors := errors\<rparr> \<in> set (listed_in (fw_file w')))"
    using clear_loses_nothing [OF sim_disk_ok, where w = sim_after and targets = "[r]" and r = r and name = "''cleared''"]
    by (simp only: r list.set list.map distinct.simps insert_iff empty_iff simp_thms) blast
  then obtain w' cleared failed younger older w1 w2 xs errors where
    run: "clear_records sim_fx [r] ''cleared'' sim_after = (w', Inr (cleared, failed))" and
    split: "newest_first [r] = younger @ r # older" and
    first: "clear_loop sim_fx ''cleared'' younger sim_after = (w1, Inr xs)" and
    plan: "apply_plan sim_fx (ft_restore r) w1 = (w2, Inr errors)" and
    fate: "if errors = [] then r \<in> set cleared \<and> (\<forall>s \<in> set (listed_in (fw_file w')). ft_id s \<noteq> ft_id r)
      else (r, errors) \<in> set failed \<and>
        r\<lparr>ft_state := FaultRestoreFailed, ft_restore_errors := errors\<rparr> \<in> set (listed_in (fw_file w'))"
    by blast
  have "w1 = sim_after"
    using first split by (simp only: alone) (simp add: give_def)
  then show ?thesis
    using r run plan fate by (intro exI [of _ r] exI [of _ w'] exI [of _ cleared] exI [of _ failed] exI [of _ w2]
      exI [of _ errors] conjI) (assumption | simp)+
qed

text \<open>
  A shell that knows one command, which prints a status line of its own and fails with status 137, and expands the word
  that is echoed after it.
\<close>

definition lying_command :: string where
  "lying_command = ''echo __SD_RC=0; sh -c \"kill -9 $$\"''"

definition lying_shell :: "string \<Rightarrow> sim_device \<Rightarrow> sim_device \<times> string outcome" where
  "lying_shell script d =
     (let group = ''{ '' @ lying_command @ [CHR 0x0A] @ ''} 2>&1; echo '' in
      if starts_with script group
      then (d, Inr (''__SD_RC=0'' @ [CHR 0x0A] @ butlast (butlast (drop (length group) script)) @ dec_digits 137 @ [CHR 0x0A]))
      else (d, Inr []))"

lemma butlast_two: "butlast (butlast (xs @ [a, b])) = xs"
  by (simp add: butlast_append)

lemma lying_shell_ends:
  "shell_ends (sim_fx\<lparr>fx_shell := lying_shell\<rparr>) lying_command d d 137 (''__SD_RC=0'' @ [CHR 0x0A])"
  unfolding shell_ends_def
proof (intro allI impI)
  fix word
  let ?group = "''{ '' @ lying_command @ [CHR 0x0A] @ ''} 2>&1; echo ''"
  have "lying_shell (?group @ word @ ''$?'') d =
      (d, Inr ((''__SD_RC=0'' @ [CHR 0x0A]) @ word @ dec_digits 137 @ [CHR 0x0A]))"
    unfolding lying_shell_def Let_def using butlast_two [of word] by (simp add: starts_with_def)
  then show "fx_shell (sim_fx\<lparr>fx_shell := lying_shell\<rparr>)
      (''{ '' @ lying_command @ [CHR 0x0A] @ ''} 2>&1; echo '' @ word @ ''$?'') d =
      (d, Inr ((''__SD_RC=0'' @ [CHR 0x0A]) @ word @ dec_digits 137 @ [CHR 0x0A]))"
    by simp
qed

theorem shell_status_recovered_witness:
  "dev_read (sim_fx\<lparr>fx_shell := lying_shell\<rparr>) lying_command sim_world =
     (sim_world, Inr \<lparr>rn_status = 137, rn_output = ''__SD_RC=0''\<rparr>)"
  using shell_status_recovered [OF lying_shell_ends [of "fw_dev sim_world"]] trim_end_line [of "''__SD_RC=0''"]
  by simp

text \<open>Two injections of one kind and a clock that runs: the second is refused.\<close>

theorem resources_never_shared_witness:
  "distinct (map ft_id (listed_in (fw_file
     (fold (fault_act sim_fx) [OpInject sim_cmd, OpOutside (\<lambda>d. d\<lparr>sim_now := 70000\<rparr>), OpInject sim_cmd] sim_world))))"
  using resources_never_shared [where w = sim_world and fx = sim_fx and
      ops = "[OpInject sim_cmd, OpOutside (\<lambda>d. d\<lparr>sim_now := 70000\<rparr>), OpInject sim_cmd]"]
  by (auto simp: sim_world_def)

theorem waiting_ends_witness:
  "wait_loop sim_fx \<lparr>vf_command = ''dumpsys deviceidle'', vf_contains = ''IDLE''\<rparr> (1000 + WAIT_MS) (WAIT_MS div POLL_MS + 1 + 7) sim_world =
     wait_for sim_fx \<lparr>vf_command = ''dumpsys deviceidle'', vf_contains = ''IDLE''\<rparr> sim_world"
  using waiting_ends [OF sim_clock_ok, where w = sim_world and more_rounds = 7 and
      check = "\<lparr>vf_command = ''dumpsys deviceidle'', vf_contains = ''IDLE''\<rparr>"]
  by (simp add: sim_world_def del: wait_loop.simps)

end
