(* ===== verification/CrashLog.thy ===== *)
theory CrashLog
  imports FaultDevice
begin

text \<open>
  Crash detection from the device log (\<^verbatim>\<open>watch/logcat.rs\<close>): the collector that gathers the lines of one crash,
  the reports built from them, and the loop that feeds it lines and ticks of a quiet timer. The regular
  expressions are parameters: what each captures of a text.
\<close>

section \<open>Events\<close>

record caused_by =
  cb_exception :: string
  cb_message :: "string option"
  cb_stack :: "string list"

record crash_event =
  ce_kind :: string
  ce_ts :: rat
  ce_package :: "string option"
  ce_pid :: "int option"
  ce_thread :: "string option"
  ce_exception :: "string option"
  ce_message :: "string option"
  ce_stack :: "string list"
  ce_caused_by :: "caused_by list"
  ce_signal :: "int option"
  ce_signal_name :: "string option"
  ce_backtrace :: "string list"
  ce_raw :: string
  ce_context :: "string list"
  ce_device_info :: json

definition no_event :: crash_event where
  "no_event =
     \<lparr>ce_kind = [], ce_ts = 0, ce_package = None, ce_pid = None, ce_thread = None, ce_exception = None,
      ce_message = None, ce_stack = [], ce_caused_by = [], ce_signal = None, ce_signal_name = None,
      ce_backtrace = [], ce_raw = [], ce_context = [], ce_device_info = JObj []\<rparr>"

section \<open>Lines\<close>

text \<open>
  What the patterns capture: a line of the log gives time, process, level, tag and message; a fatal signal
  its number, name, and thread if named; the header of a tombstone process, thread, name and package.
\<close>

record log_ext =
  lx_line :: "string \<Rightarrow> (string \<times> string \<times> string \<times> string \<times> string) option"
  lx_fatal_header :: "string \<Rightarrow> string option"
  lx_process :: "string \<Rightarrow> string option"
  lx_exception :: "string \<Rightarrow> (string \<times> string option) option"
  lx_at :: "string \<Rightarrow> string option"
  lx_caused_by :: "string \<Rightarrow> string option"
  lx_native_fatal :: "string \<Rightarrow> (string \<times> string \<times> (string \<times> string) option) option"
  lx_pid_line :: "string \<Rightarrow> (string \<times> string \<times> string \<times> string) option"
  lx_anr :: "string \<Rightarrow> string option"

record log_line =
  ll_ts :: string
  ll_pid :: int
  ll_level :: string
  ll_tag :: string
  ll_msg :: string
  ll_raw :: string

definition parse_log_line :: "log_ext \<Rightarrow> string \<Rightarrow> log_line option" where
  "parse_log_line lx line =
     (case lx_line lx line of
        None \<Rightarrow> None
      | Some (ts, pid, level, tag, msg) \<Rightarrow>
          (case parse_i32 pid of
             None \<Rightarrow> None
           | Some n \<Rightarrow> Some \<lparr>ll_ts = ts, ll_pid = n, ll_level = level, ll_tag = trim_end tag, ll_msg = msg, ll_raw = line\<rparr>))"

definition extract_msg :: "log_ext \<Rightarrow> string \<Rightarrow> string" where
  "extract_msg lx line = (case parse_log_line lx line of Some l \<Rightarrow> ll_msg l | None \<Rightarrow> line)"

definition package_matches_filter :: "string \<Rightarrow> string \<Rightarrow> bool" where
  "package_matches_filter package f \<longleftrightarrow>
     package = f \<or> (starts_with package f \<and> starts_with (drop (length f) package) '':'')"

section \<open>Building reports\<close>

definition build_anr_event :: "log_ext \<Rightarrow> rat \<Rightarrow> log_line \<Rightarrow> crash_event" where
  "build_anr_event lx now l =
     no_event\<lparr>ce_kind := ''anr'', ce_ts := now, ce_package := lx_anr lx (ll_msg l),
       ce_message := Some (ll_msg l), ce_raw := ll_raw l\<rparr>"

text \<open>One message of a Java crash: the first pattern that matches decides.\<close>

definition push_frame :: "string \<Rightarrow> crash_event \<Rightarrow> crash_event" where
  "push_frame frame e =
     (if ce_caused_by e = [] then e\<lparr>ce_stack := ce_stack e @ [frame]\<rparr>
      else let c = last (ce_caused_by e)
           in e\<lparr>ce_caused_by := butlast (ce_caused_by e) @ [c\<lparr>cb_stack := cb_stack c @ [frame]\<rparr>]\<rparr>)"

definition java_message :: "log_ext \<Rightarrow> string \<Rightarrow> crash_event \<Rightarrow> crash_event" where
  "java_message lx msg e =
     (case lx_fatal_header lx msg of Some t \<Rightarrow> e\<lparr>ce_thread := Some t\<rparr> | None \<Rightarrow>
      case lx_process lx msg of Some p \<Rightarrow> e\<lparr>ce_package := Some p\<rparr> | None \<Rightarrow>
      case lx_caused_by lx msg of
        Some cause \<Rightarrow>
          (case lx_exception lx cause of
             Some (ex, m) \<Rightarrow>
               e\<lparr>ce_caused_by := ce_caused_by e @ [\<lparr>cb_exception = ex, cb_message = m, cb_stack = []\<rparr>]\<rparr>
           | None \<Rightarrow> e)
      | None \<Rightarrow>
      case lx_at lx msg of Some frame \<Rightarrow> push_frame frame e | None \<Rightarrow>
        (if ce_exception e = None then
           (case lx_exception lx msg of
              Some (ex, m) \<Rightarrow> e\<lparr>ce_exception := Some ex, ce_message := m\<rparr>
            | None \<Rightarrow> e)
         else e))"

definition build_java_event :: "log_ext \<Rightarrow> rat \<Rightarrow> string list \<Rightarrow> int option \<Rightarrow> crash_event" where
  "build_java_event lx now lines pid =
     fold (java_message lx) (map (extract_msg lx) lines)
       (no_event\<lparr>ce_kind := ''java'', ce_ts := now, ce_pid := pid, ce_raw := join_with [CHR 0x0A] lines\<rparr>)"

definition native_thread_name :: "int option \<Rightarrow> int option \<Rightarrow> string \<Rightarrow> string" where
  "native_thread_name tid pid comm = (if tid \<noteq> None \<and> tid = pid then ''main'' else comm)"

definition native_message :: "log_ext \<Rightarrow> int option \<Rightarrow> string \<Rightarrow> crash_event \<Rightarrow> crash_event" where
  "native_message lx pid msg e =
     (case lx_native_fatal lx msg of
        Some (signal, name, thread) \<Rightarrow>
          e\<lparr>ce_signal := parse_i32 signal, ce_signal_name := Some name,
            ce_thread := (case thread of
                None \<Rightarrow> ce_thread e
              | Some (tid, comm) \<Rightarrow> Some (native_thread_name (parse_i32 tid) pid comm))\<rparr>
      | None \<Rightarrow>
      case lx_pid_line lx msg of
        Some (p, tid, comm, package) \<Rightarrow>
          e\<lparr>ce_thread := (if ce_thread e = None then Some (native_thread_name (parse_i32 tid) pid comm) else ce_thread e),
            ce_package := Some package\<rparr>
      | None \<Rightarrow>
          let stripped = trim_start msg
          in if starts_with stripped ''#'' then e\<lparr>ce_backtrace := ce_backtrace e @ [stripped]\<rparr> else e)"

definition build_native_event :: "log_ext \<Rightarrow> rat \<Rightarrow> string list \<Rightarrow> int option \<Rightarrow> crash_event" where
  "build_native_event lx now lines pid =
     fold (native_message lx pid) (map (extract_msg lx) lines)
       (no_event\<lparr>ce_kind := ''native'', ce_ts := now, ce_pid := pid, ce_raw := join_with [CHR 0x0A] lines\<rparr>)"

section \<open>The collector\<close>

datatype crash_kind = JavaCrash | NativeCrash

record collector =
  cc_buffer :: "string list"
  cc_kind :: "crash_kind option"
  cc_pid :: "int option"
  cc_tombstone_pid :: "int option"
  cc_last_seen :: "nat option"

definition collector_new :: collector where
  "collector_new = \<lparr>cc_buffer = [], cc_kind = None, cc_pid = None, cc_tombstone_pid = None, cc_last_seen = None\<rparr>"

text \<open>A moment: the monotonic clock in milliseconds, and the time of day an event is stamped with.\<close>

type_synonym moment = "nat \<times> rat"

definition keep_line :: "nat \<Rightarrow> string \<Rightarrow> collector \<Rightarrow> collector" where
  "keep_line instant line c = c\<lparr>cc_buffer := cc_buffer c @ [line], cc_last_seen := Some instant\<rparr>"

definition finalize_now :: "log_ext \<Rightarrow> rat \<Rightarrow> collector \<Rightarrow> collector \<times> crash_event option" where
  "finalize_now lx now c =
     (if cc_buffer c = [] then (c, None)
      else (collector_new,
        Some (case (case cc_kind c of Some k \<Rightarrow> k | None \<Rightarrow> JavaCrash) of
                JavaCrash \<Rightarrow> build_java_event lx now (cc_buffer c) (cc_pid c)
              | NativeCrash \<Rightarrow> build_native_event lx now (cc_buffer c) (cc_pid c))))"

definition QUIET_WINDOW :: nat where "QUIET_WINDOW = 1000"

definition finalize_if_quiet :: "log_ext \<Rightarrow> moment \<Rightarrow> nat \<Rightarrow> collector \<Rightarrow> collector \<times> crash_event option" where
  "finalize_if_quiet lx at_moment quiet c =
     (case cc_last_seen c of
        Some seen \<Rightarrow> if fst at_moment - seen \<ge> quiet then finalize_now lx (snd at_moment) c else (c, None)
      | None \<Rightarrow> (c, None))"

definition accepts_tombstone_line :: "log_ext \<Rightarrow> log_line \<Rightarrow> collector \<Rightarrow> collector \<times> bool" where
  "accepts_tombstone_line lx l c =
     (case cc_tombstone_pid c of
        Some bound \<Rightarrow> (c, ll_pid l = bound)
      | None \<Rightarrow>
          (case Option.bind (lx_pid_line lx (ll_msg l)) (\<lambda>(p, tid, comm, package). parse_i32 p) of
             Some crashed \<Rightarrow>
               if Some crashed = cc_pid c then (c\<lparr>cc_tombstone_pid := Some (ll_pid l)\<rparr>, True) else (c, False)
           | None \<Rightarrow> (c, True)))"

definition is_anr_line :: "log_line \<Rightarrow> bool" where
  "is_anr_line l \<longleftrightarrow> ll_tag l = ''ActivityManager'' \<and> str_contains (ll_msg l) ''ANR in ''"

definition is_java_start :: "log_line \<Rightarrow> bool" where
  "is_java_start l \<longleftrightarrow> ll_tag l = ''AndroidRuntime'' \<and> str_contains (ll_msg l) ''FATAL EXCEPTION''"

definition is_native_start :: "log_ext \<Rightarrow> log_line \<Rightarrow> bool" where
  "is_native_start lx l \<longleftrightarrow> lx_native_fatal lx (ll_msg l) \<noteq> None"

definition handle_line :: "log_ext \<Rightarrow> moment \<Rightarrow> string \<Rightarrow> collector \<Rightarrow> collector \<times> crash_event list" where
  "handle_line lx at_moment line c =
     (let instant = fst at_moment; now = snd at_moment in
      case parse_log_line lx line of
        None \<Rightarrow> (if cc_buffer c \<noteq> [] then keep_line instant line c else c, [])
      | Some l \<Rightarrow>
          if is_anr_line l then (c, [build_anr_event lx now l])
          else if is_java_start l \<or> is_native_start lx l then
            let (c', pending) = finalize_now lx now c
            in (c'\<lparr>cc_kind := Some (if is_java_start l then JavaCrash else NativeCrash), cc_pid := Some (ll_pid l),
                   cc_tombstone_pid := None, cc_buffer := [line], cc_last_seen := Some instant\<rparr>,
                case pending of None \<Rightarrow> [] | Some e \<Rightarrow> [e])
          else if cc_buffer c \<noteq> [] \<and> cc_kind c = Some NativeCrash \<and> ll_tag l = ''DEBUG'' \<and> Some (ll_pid l) \<noteq> cc_pid c then
            let (c', accepted) = accepts_tombstone_line lx l c
            in (if accepted then keep_line instant line c' else c', [])
          else if cc_buffer c \<noteq> [] \<and> Some (ll_pid l) = cc_pid c then
            (if cc_kind c = Some JavaCrash \<and> ll_tag l = ''AndroidRuntime'' \<or>
                cc_kind c = Some NativeCrash \<and> (ll_tag l = ''DEBUG'' \<or> ll_tag l = ''libc'')
             then keep_line instant line c else c, [])
          else (c, []))"

section \<open>The loop\<close>

datatype crash_input = LineRead moment string | QuietTick moment

text \<open>What is known of the device when a report goes out: lines around it, and its properties.\<close>

definition emit_if_matches ::
  "(crash_event \<Rightarrow> string list \<times> json) \<Rightarrow> string option \<Rightarrow> crash_event \<Rightarrow> crash_event list" where
  "emit_if_matches fetch app_filter e =
     (case (app_filter, ce_package e) of
        (Some f, Some package) \<Rightarrow>
          if \<not> package_matches_filter package f then []
          else [e\<lparr>ce_context := fst (fetch e), ce_device_info := snd (fetch e)\<rparr>]
      | _ \<Rightarrow> [e\<lparr>ce_context := fst (fetch e), ce_device_info := snd (fetch e)\<rparr>])"

definition crash_step :: "log_ext \<Rightarrow> crash_input \<Rightarrow> collector \<Rightarrow> collector \<times> crash_event list" where
  "crash_step lx input c =
     (case input of
        LineRead m line \<Rightarrow> handle_line lx m line c
      | QuietTick m \<Rightarrow>
          (case finalize_if_quiet lx m QUIET_WINDOW c of (c', e) \<Rightarrow> (c', case e of None \<Rightarrow> [] | Some e \<Rightarrow> [e])))"

fun crash_run :: "log_ext \<Rightarrow> crash_input list \<Rightarrow> collector \<Rightarrow> collector \<times> crash_event list" where
  "crash_run lx [] c = (c, [])"
| "crash_run lx (i # inputs) c =
     (let (c1, es) = crash_step lx i c; (c2, es') = crash_run lx inputs c1 in (c2, es @ es'))"

text \<open>Until the log ends: what the collector still holds is reported too.\<close>

definition run_crashes ::
  "log_ext \<Rightarrow> (crash_event \<Rightarrow> string list \<times> json) \<Rightarrow> string option \<Rightarrow> crash_input list \<Rightarrow> rat \<Rightarrow> crash_event list" where
  "run_crashes lx fetch app_filter inputs end_time =
     (let (c, es) = crash_run lx inputs collector_new;
          rest = (case snd (finalize_now lx end_time c) of None \<Rightarrow> [] | Some e \<Rightarrow> [e])
      in concat (map (emit_if_matches fetch app_filter) (es @ rest)))"

end
