(* ===== verification/CrashLogProps.thy ===== *)
theory CrashLogProps
  imports CrashLog "HOL-Library.Sublist"
begin

text \<open>
  What crash detection promises: every crash that starts in the log is reported exactly once, in order,
  wherever the quiet timer happens to tick, and its report is made of lines of its own.
\<close>

section \<open>What folding the messages leaves alone\<close>

definition stamp :: "crash_event \<Rightarrow> string \<times> int option \<times> string" where
  "stamp e = (ce_kind e, ce_pid e, ce_raw e)"

lemma stamp_java_message [simp]: "stamp (java_message lx msg e) = stamp e"
  by (auto simp: stamp_def java_message_def push_frame_def Let_def split: option.splits)

lemma stamp_native_message [simp]: "stamp (native_message lx pid msg e) = stamp e"
  by (auto simp: stamp_def native_message_def Let_def split: option.splits)

lemma stamp_fold:
  assumes "\<And>m e. stamp (f m e) = stamp e"
  shows "stamp (fold f ms e) = stamp e"
  using assms by (induction ms arbitrary: e) simp_all

lemma stamp_start: "stamp (no_event\<lparr>ce_kind := k, ce_ts := t, ce_pid := p, ce_raw := r\<rparr>) = (k, p, r)"
  by (simp add: stamp_def)

lemma stamp_java: "stamp (build_java_event lx now ls pid) = (''java'', pid, join_with [CHR 0x0A] ls)"
  by (simp add: build_java_event_def stamp_fold [OF stamp_java_message] stamp_start)

lemma stamp_native: "stamp (build_native_event lx now ls pid) = (''native'', pid, join_with [CHR 0x0A] ls)"
  by (simp add: build_native_event_def stamp_fold [OF stamp_native_message] stamp_start)

lemma stamp_anr: "stamp (build_anr_event lx now l) = (''anr'', None, ll_raw l)"
  by (simp add: build_anr_event_def no_event_def stamp_def)

section \<open>Blocks\<close>

type_synonym block = "crash_kind \<times> int \<times> string list"

definition block_lines :: "block \<Rightarrow> string list" where
  "block_lines b = snd (snd b)"

definition kind_label :: "crash_kind \<Rightarrow> string" where
  "kind_label k = (case k of JavaCrash \<Rightarrow> ''java'' | NativeCrash \<Rightarrow> ''native'')"

definition block_stamp :: "block \<Rightarrow> string \<times> int option \<times> string" where
  "block_stamp b = (kind_label (fst b), Some (fst (snd b)), join_with [CHR 0x0A] (block_lines b))"

text \<open>The lines that start a crash, and those that report a process that does not respond.\<close>

definition anr_line :: "log_ext \<Rightarrow> string \<Rightarrow> bool" where
  "anr_line lx line \<longleftrightarrow> (case parse_log_line lx line of None \<Rightarrow> False | Some l \<Rightarrow> is_anr_line l)"

definition start_line :: "log_ext \<Rightarrow> string \<Rightarrow> bool" where
  "start_line lx line \<longleftrightarrow>
     (case parse_log_line lx line of
        None \<Rightarrow> False
      | Some l \<Rightarrow> \<not> is_anr_line l \<and> (is_java_start l \<or> is_native_start lx l))"

text \<open>A line after the first belongs to a crash: it is no line of its own, or its process and tag fit.\<close>

definition line_fits :: "log_ext \<Rightarrow> crash_kind \<Rightarrow> int \<Rightarrow> string \<Rightarrow> bool" where
  "line_fits lx k p line \<longleftrightarrow>
     (case parse_log_line lx line of
        None \<Rightarrow> True
      | Some l \<Rightarrow>
          (case k of
             JavaCrash \<Rightarrow> ll_pid l = p \<and> ll_tag l = ''AndroidRuntime''
           | NativeCrash \<Rightarrow> ll_tag l = ''DEBUG'' \<or> ll_pid l = p \<and> ll_tag l = ''libc''))"

definition block_ok :: "log_ext \<Rightarrow> block \<Rightarrow> bool" where
  "block_ok lx b \<longleftrightarrow>
     (case b of (k, p, ls) \<Rightarrow>
        (case ls of
           [] \<Rightarrow> False
         | first # others \<Rightarrow>
             (\<exists>l. parse_log_line lx first = Some l \<and> ll_pid l = p \<and> start_line lx first \<and>
                  (k = JavaCrash \<longleftrightarrow> is_java_start l)) \<and>
             list_all (line_fits lx k p) others))"

text \<open>The block a collector is gathering.\<close>

definition open_blocks :: "collector \<Rightarrow> block list" where
  "open_blocks c =
     (if cc_buffer c = [] then []
      else [(the (cc_kind c), the (cc_pid c), cc_buffer c)])"

definition collecting_ok :: "log_ext \<Rightarrow> collector \<Rightarrow> bool" where
  "collecting_ok lx c \<longleftrightarrow>
     (cc_buffer c \<noteq> [] \<longrightarrow>
        cc_kind c \<noteq> None \<and> cc_pid c \<noteq> None \<and> block_ok lx (the (cc_kind c), the (cc_pid c), cc_buffer c))"

lemma collecting_new: "collecting_ok lx collector_new" "open_blocks collector_new = []"
  by (simp_all add: collecting_ok_def open_blocks_def collector_new_def)

definition lines_of :: "crash_input list \<Rightarrow> string list" where
  "lines_of inputs = List.map_filter (\<lambda>i. case i of LineRead m line \<Rightarrow> Some line | QuietTick m \<Rightarrow> None) inputs"

lemma lines_of_simps [simp]:
  "lines_of [] = []" "lines_of (LineRead m line # inputs) = line # lines_of inputs"
  "lines_of (QuietTick m # inputs) = lines_of inputs"
  by (simp_all add: lines_of_def List.map_filter_def)

definition crash_stamps :: "crash_event list \<Rightarrow> (string \<times> int option \<times> string) list" where
  "crash_stamps es = filter (\<lambda>s. fst s \<noteq> ''anr'') (map stamp es)"

definition anr_stamps :: "crash_event list \<Rightarrow> string list" where
  "anr_stamps es = map (snd \<circ> snd) (filter (\<lambda>s. fst s = ''anr'') (map stamp es))"

lemma stamps_append [simp]:
  "crash_stamps (es @ es') = crash_stamps es @ crash_stamps es'"
  "anr_stamps (es @ es') = anr_stamps es @ anr_stamps es'"
  by (simp_all add: crash_stamps_def anr_stamps_def)

lemma stamps_Nil [simp]: "crash_stamps [] = []" "anr_stamps [] = []"
  by (simp_all add: crash_stamps_def anr_stamps_def)

lemma block_not_anr [simp]: "fst (block_stamp b) \<noteq> ''anr''"
  by (cases "fst b") (simp_all add: block_stamp_def kind_label_def)

lemma block_event_stamps:
  assumes "map block_stamp bs = [stamp e]"
  shows "crash_stamps [e] = map block_stamp bs" "anr_stamps [e] = []"
proof -
  obtain b where "bs = [b]" "block_stamp b = stamp e"
    using assms by (cases bs) auto
  moreover have "fst (stamp e) \<noteq> ''anr''"
    using calculation(2) block_not_anr [of b] by simp
  ultimately show "crash_stamps [e] = map block_stamp bs" "anr_stamps [e] = []"
    by (simp_all add: crash_stamps_def anr_stamps_def)
qed

text \<open>Reporting the block at hand.\<close>

lemma finalize_reports:
  assumes "collecting_ok lx c" "finalize_now lx now c = (c', e)"
  shows "open_blocks c' = [] \<and> collecting_ok lx c' \<and> cc_buffer c' = [] \<and>
    (case e of None \<Rightarrow> open_blocks c = [] \<and> c' = c | Some e \<Rightarrow> map block_stamp (open_blocks c) = [stamp e])"
proof (cases "cc_buffer c = []")
  case True
  then show ?thesis
    using assms by (auto simp: finalize_now_def open_blocks_def collecting_ok_def)
next
  case False
  then obtain k p where kp: "cc_kind c = Some k" "cc_pid c = Some p"
    using assms(1) by (auto simp: collecting_ok_def)
  then show ?thesis
    using assms False collecting_new
    by (cases k) (auto simp: finalize_now_def open_blocks_def block_stamp_def block_lines_def kind_label_def
        stamp_java stamp_native collector_new_def)
qed

section \<open>One step\<close>

text \<open>What a step does to blocks: those it reports and the one it goes on with are made of what it had.\<close>

definition accounts ::
  "log_ext \<Rightarrow> collector \<Rightarrow> string list \<Rightarrow> block list \<Rightarrow> collector \<Rightarrow> crash_event list \<Rightarrow> bool" where
  "accounts lx c lines bs c' es \<longleftrightarrow>
     collecting_ok lx c' \<and> list_all (block_ok lx) bs \<and>
     crash_stamps es = map block_stamp bs \<and> anr_stamps es = filter (anr_line lx) lines \<and>
     map (hd \<circ> block_lines) (bs @ open_blocks c') = map (hd \<circ> block_lines) (open_blocks c) @ filter (start_line lx) lines \<and>
     subseq (concat (map block_lines bs) @ cc_buffer c') (cc_buffer c @ lines)"

lemma accounts_trans:
  assumes "accounts lx c ls bs c1 es" "accounts lx c1 ls' bs' c2 es'"
  shows "accounts lx c (ls @ ls') (bs @ bs') c2 (es @ es')"
proof -
  have "subseq (concat (map block_lines bs') @ cc_buffer c2) (cc_buffer c1 @ ls')"
    using assms(2) by (simp add: accounts_def)
  then have "subseq (concat (map block_lines bs) @ concat (map block_lines bs') @ cc_buffer c2)
      (concat (map block_lines bs) @ cc_buffer c1 @ ls')"
    by (simp only: subseq_append')
  also have "subseq \<dots> ((cc_buffer c @ ls) @ ls')"
    using assms(1) list_emb_append_mono [of "(=)" "concat (map block_lines bs) @ cc_buffer c1" "cc_buffer c @ ls" ls' ls']
    by (simp add: accounts_def)
  finally show ?thesis
    using assms by (simp add: accounts_def)
qed

lemma accounts_kept:
  assumes "collecting_ok lx c" "\<not> anr_line lx line" "\<not> start_line lx line"
    "cc_buffer c \<noteq> []" "line_fits lx (the (cc_kind c)) (the (cc_pid c)) line"
    "cc_buffer c' = cc_buffer c @ [line]" "cc_kind c' = cc_kind c" "cc_pid c' = cc_pid c"
  shows "accounts lx c [line] [] c' []"
proof -
  obtain first others where buf: "cc_buffer c = first # others"
    using assms(4) by (cases "cc_buffer c") auto
  show ?thesis
    using assms buf by (auto simp: accounts_def collecting_ok_def open_blocks_def block_lines_def block_ok_def)
qed

lemma accounts_dropped:
  assumes "collecting_ok lx c" "\<not> anr_line lx line" "\<not> start_line lx line"
    "cc_buffer c' = cc_buffer c" "cc_kind c' = cc_kind c" "cc_pid c' = cc_pid c"
  shows "accounts lx c [line] [] c' []"
  using assms by (auto simp: accounts_def collecting_ok_def open_blocks_def)

lemma accepts_fields:
  "accepts_tombstone_line lx l c = (c', b) \<Longrightarrow>
   cc_buffer c' = cc_buffer c \<and> cc_kind c' = cc_kind c \<and> cc_pid c' = cc_pid c"
  by (auto simp: accepts_tombstone_line_def split: option.splits if_splits)

lemma handle_line_accounts:
  assumes "collecting_ok lx c" "handle_line lx m line c = (c', es)"
  shows "\<exists>bs. accounts lx c [line] bs c' es"
proof (cases "parse_log_line lx line")
  case None
  then have quiet: "\<not> anr_line lx line" "\<not> start_line lx line" "line_fits lx k p line" for k p
    by (simp_all add: anr_line_def start_line_def line_fits_def)
  have run: "c' = (if cc_buffer c \<noteq> [] then keep_line (fst m) line c else c)" "es = []"
    using assms(2) None by (auto simp: handle_line_def)
  have "accounts lx c [line] [] c' es"
  proof (cases "cc_buffer c = []")
    case True
    then show ?thesis
      using run assms(1) quiet by (auto intro!: accounts_dropped)
  next
    case False
    then show ?thesis
      using quiet accounts_kept [OF assms(1), of line c'] run by (simp add: keep_line_def)
  qed
  then show ?thesis
    by blast
next
  case (Some l)
  have raw: "ll_raw l = line"
    using Some by (auto simp: parse_log_line_def split: option.splits prod.splits)
  show ?thesis
  proof (cases "is_anr_line l")
    case True
    then have "c' = c" "es = [build_anr_event lx (snd m) l]"
      using assms(2) Some by (simp_all add: handle_line_def)
    moreover have "anr_line lx line" "\<not> start_line lx line"
      using True Some by (simp_all add: anr_line_def start_line_def)
    ultimately have "accounts lx c [line] [] c' es"
      using assms(1) raw subseq_append' [of "cc_buffer c" "[]" "[line]"]
      by (simp add: accounts_def crash_stamps_def anr_stamps_def stamp_anr)
    then show ?thesis
      by blast
  next
    case no_anr: False
    then have not_anr: "\<not> anr_line lx line"
      using Some by (simp add: anr_line_def)
    show ?thesis
    proof (cases "is_java_start l \<or> is_native_start lx l")
      case True
      then have start: "start_line lx line"
        using Some no_anr by (simp add: start_line_def)
      obtain c1 pending where fin: "finalize_now lx (snd m) c = (c1, pending)"
        by (cases "finalize_now lx (snd m) c")
      let ?k = "if is_java_start l then JavaCrash else NativeCrash"
      have c': "cc_buffer c' = [line]" "cc_kind c' = Some ?k" "cc_pid c' = Some (ll_pid l)"
        and es: "es = (case pending of None \<Rightarrow> [] | Some e \<Rightarrow> [e])"
        using assms(2) Some no_anr True fin by (auto simp: handle_line_def)
      have rep: "case pending of None \<Rightarrow> open_blocks c = [] \<and> c1 = c | Some e \<Rightarrow> map block_stamp (open_blocks c) = [stamp e]"
        using finalize_reports [OF assms(1) fin] by blast
      have stamps: "crash_stamps es = map block_stamp (open_blocks c)" "anr_stamps es = []"
        using rep es block_event_stamps by (auto split: option.splits)
      have "list_all (block_ok lx) (open_blocks c)" "concat (map block_lines (open_blocks c)) = cc_buffer c"
        using assms(1) by (auto simp: collecting_ok_def open_blocks_def block_lines_def)
      moreover have "collecting_ok lx c'"
        using c' Some start by (auto simp: collecting_ok_def block_ok_def)
      moreover have "open_blocks c' = [(?k, ll_pid l, [line])]"
        using c' by (simp add: open_blocks_def)
      ultimately have "accounts lx c [line] (open_blocks c) c' es"
        using stamps start not_anr c'(1) by (simp add: accounts_def block_lines_def)
      then show ?thesis
        by blast
    next
      case False
      then have not_start: "\<not> start_line lx line"
        using Some by (simp add: start_line_def)
      have kp: "\<exists>k p. cc_kind c = Some k \<and> cc_pid c = Some p" if "cc_buffer c \<noteq> []"
        using assms(1) that by (auto simp: collecting_ok_def)
      have "accounts lx c [line] [] c' es"
      proof (cases "cc_buffer c \<noteq> [] \<and> cc_kind c = Some NativeCrash \<and> ll_tag l = ''DEBUG'' \<and> Some (ll_pid l) \<noteq> cc_pid c")
        case True
        obtain c1 accepted where acc: "accepts_tombstone_line lx l c = (c1, accepted)"
          by (cases "accepts_tombstone_line lx l c")
        have run: "c' = (if accepted then keep_line (fst m) line c1 else c1)" "es = []"
          using assms(2) Some no_anr False True acc by (auto simp: handle_line_def Let_def)
        have "line_fits lx (the (cc_kind c)) (the (cc_pid c)) line"
          using True Some by (simp add: line_fits_def)
        then show ?thesis
          using run not_anr not_start True accepts_fields [OF acc] accounts_kept [OF assms(1), of line c']
            accounts_dropped [OF assms(1), of line c']
          by (cases accepted) (simp_all add: keep_line_def)
      next
        case other: False
        let ?keep = "cc_buffer c \<noteq> [] \<and> Some (ll_pid l) = cc_pid c \<and>
          (cc_kind c = Some JavaCrash \<and> ll_tag l = ''AndroidRuntime'' \<or>
           cc_kind c = Some NativeCrash \<and> (ll_tag l = ''DEBUG'' \<or> ll_tag l = ''libc''))"
        have run: "c' = (if ?keep then keep_line (fst m) line c else c)" "es = []"
          using assms(2) Some no_anr False other by (auto simp: handle_line_def Let_def split: if_splits)
        show ?thesis
        proof (cases ?keep)
          case True
          then have "line_fits lx (the (cc_kind c)) (the (cc_pid c)) line"
            using Some by (cases "cc_pid c") (auto simp: line_fits_def)
          then show ?thesis
            using run True not_anr not_start accounts_kept [OF assms(1), of line c'] by (simp add: keep_line_def)
        next
          case False
          then show ?thesis
            using run assms(1) not_anr not_start by (auto intro!: accounts_dropped)
        qed
      qed
      then show ?thesis
        by blast
    qed
  qed
qed

lemma finalize_accounts:
  assumes "collecting_ok lx c" "finalize_now lx now c = (c', e)"
  shows "\<exists>bs. accounts lx c [] bs c' (case e of None \<Rightarrow> [] | Some e \<Rightarrow> [e]) \<and> open_blocks c' = []"
proof -
  have rep: "open_blocks c' = []" "collecting_ok lx c'" "cc_buffer c' = []"
    "case e of None \<Rightarrow> open_blocks c = [] \<and> c' = c | Some e \<Rightarrow> map block_stamp (open_blocks c) = [stamp e]"
    using finalize_reports [OF assms] by blast+
  have "accounts lx c [] (open_blocks c) c' (case e of None \<Rightarrow> [] | Some e \<Rightarrow> [e])"
    using rep assms(1) block_event_stamps
    by (auto simp: accounts_def collecting_ok_def open_blocks_def block_lines_def split: option.splits if_splits)
  then show ?thesis
    using rep(1) by blast
qed

section \<open>Any run\<close>

lemma crash_step_accounts:
  assumes "collecting_ok lx c" "crash_step lx i c = (c', es)"
  shows "\<exists>bs. accounts lx c (lines_of [i]) bs c' es"
proof (cases i)
  case (LineRead m line)
  then show ?thesis
    using assms handle_line_accounts [OF assms(1), of m line] by (auto simp: crash_step_def)
next
  case (QuietTick m)
  have idle: "accounts lx c [] [] c []"
    using assms(1) by (simp add: accounts_def)
  obtain c1 e where fin: "finalize_now lx (snd m) c = (c1, e)"
    by (cases "finalize_now lx (snd m) c")
  then show ?thesis
    using QuietTick assms finalize_accounts [OF assms(1) fin] idle
    by (auto simp: crash_step_def finalize_if_quiet_def split: option.splits if_splits)
qed

lemma crash_run_accounts:
  "collecting_ok lx c \<Longrightarrow> crash_run lx inputs c = (c', es) \<Longrightarrow> \<exists>bs. accounts lx c (lines_of inputs) bs c' es"
proof (induction inputs arbitrary: c c' es)
  case Nil
  then have "accounts lx c [] [] c' es"
    by (simp add: accounts_def)
  then show ?case
    by auto
next
  case (Cons i inputs)
  obtain c1 es1 where one: "crash_step lx i c = (c1, es1)"
    by (cases "crash_step lx i c")
  obtain es2 where two: "crash_run lx inputs c1 = (c', es2)" "es = es1 @ es2"
    using Cons.prems(2) one by (auto split: prod.splits)
  obtain bs1 where bs1: "accounts lx c (lines_of [i]) bs1 c1 es1"
    using crash_step_accounts [OF Cons.prems(1) one] by blast
  then have "collecting_ok lx c1"
    by (simp add: accounts_def)
  then obtain bs2 where bs2: "accounts lx c1 (lines_of inputs) bs2 c' es2"
    using Cons.IH two(1) by blast
  have "lines_of (i # inputs) = lines_of [i] @ lines_of inputs"
    by (cases i) simp_all
  then show ?case
    using accounts_trans [OF bs1 bs2] two(2) by auto
qed

lemma stamp_emitted [simp]:
  "crash_stamps (concat (map (emit_if_matches fetch None) es)) = crash_stamps es"
  "anr_stamps (concat (map (emit_if_matches fetch None) es)) = anr_stamps es"
  by (induction es) (simp_all add: emit_if_matches_def crash_stamps_def anr_stamps_def stamp_def)

text \<open>
  C29: every crash of the log is reported once. However the lines come and wherever the quiet timer ticks in
  between, the reports of crashes correspond, in order, to the lines that start one: each is made of a
  block of lines that begins with its start line, goes on with lines that fit its kind and process or
  are no log lines of their own, and shares no line with another block; and there is one report for every line
  that tells of a process that does not respond.
\<close>

theorem crashes_reported_once:
  "\<exists>bs. crash_stamps (run_crashes lx fetch None inputs end_time) = map block_stamp bs \<and>
     map (hd \<circ> block_lines) bs = filter (start_line lx) (lines_of inputs) \<and>
     list_all (block_ok lx) bs \<and>
     subseq (concat (map block_lines bs)) (lines_of inputs) \<and>
     anr_stamps (run_crashes lx fetch None inputs end_time) = filter (anr_line lx) (lines_of inputs)"
proof -
  obtain c es where run: "crash_run lx inputs collector_new = (c, es)"
    by (cases "crash_run lx inputs collector_new")
  obtain bs where bs: "accounts lx collector_new (lines_of inputs) bs c es"
    using crash_run_accounts [OF collecting_new(1) run] by blast
  obtain c' e where fin: "finalize_now lx end_time c = (c', e)"
    by (cases "finalize_now lx end_time c")
  have "collecting_ok lx c"
    using bs by (simp add: accounts_def)
  then obtain bs' where bs': "accounts lx c [] bs' c' (case e of None \<Rightarrow> [] | Some e \<Rightarrow> [e])" "open_blocks c' = []"
    using finalize_accounts [OF _ fin] by blast
  have all: "accounts lx collector_new (lines_of inputs) (bs @ bs') c' (es @ (case e of None \<Rightarrow> [] | Some e \<Rightarrow> [e]))"
    using accounts_trans [OF bs bs'(1)] by simp
  then have sub: "subseq (concat (map block_lines (bs @ bs')) @ cc_buffer c') (lines_of inputs)"
    by (simp add: accounts_def collector_new_def)
  then have "subseq (concat (map block_lines (bs @ bs'))) (lines_of inputs)"
    using subseq_order.order_trans [OF list_emb_prefix] by blast
  then show ?thesis
    using all bs'(2) run fin collecting_new(2)
    by (intro exI [of _ "bs @ bs'"]) (auto simp: run_crashes_def accounts_def Let_def)
qed

end
