(* ===== verification/CrashScan.thy ===== *)
theory CrashScan
  imports CrashLog
begin

text \<open>
  Scanning a dump of the device log (\<^verbatim>\<open>crashscan.rs\<close>): times of a calendar without years, the reports found in
  a dump, and the probe that attaches to a command's result what crashed since the command before. The read of
  logs built on it is \<^verbatim>\<open>cmd/log.rs\<close>. Times are rational seconds into a year of 366 days.
\<close>

section \<open>Times\<close>

definition YEAR_SECS :: rat where "YEAR_SECS = 366 * 86400"
definition FUTURE_SKEW_TOLERANCE_SECS :: rat where "FUTURE_SKEW_TOLERANCE_SECS = 120"
definition CURSOR_SLACK_SECS :: rat where "CURSOR_SLACK_SECS = 2"
definition MAX_FINGERPRINTS :: nat where "MAX_FINGERPRINTS = 32"
definition RESCAN_AFTER_MS :: nat where "RESCAN_AFTER_MS = 1500"

definition CUM_DAYS :: "nat list" where
  "CUM_DAYS = [0, 31, 60, 91, 121, 152, 182, 213, 244, 274, 305, 335]"

text \<open>Seconds and milliseconds: at most three digits of the fraction count.\<close>

definition parse_seconds :: "string \<Rightarrow> (nat \<times> nat) option" where
  "parse_seconds sec_part =
     (case split_once CHR ''.'' sec_part of
        Some (s, fraction) \<Rightarrow>
          Option.bind (parse_unsigned 32 s) (\<lambda>sec.
          let digits = chars_str (take 3 (str_chars fraction))
          in map_option (\<lambda>ms. (sec, ms * 10 ^ (3 - length digits))) (parse_unsigned 32 digits))
      | None \<Rightarrow> map_option (\<lambda>sec. (sec, 0)) (parse_unsigned 32 sec_part))"

definition time_secs :: "nat \<Rightarrow> nat \<Rightarrow> nat \<Rightarrow> nat \<Rightarrow> nat \<Rightarrow> nat \<Rightarrow> rat" where
  "time_secs month day h m sec ms =
     of_nat (CUM_DAYS ! (month - 1) + (day - 1)) * 86400 + of_nat h * 3600 + of_nat m * 60 + of_nat sec +
     of_nat ms / 1000"

definition parse_ts_secs :: "string \<Rightarrow> rat option" where
  "parse_ts_secs s =
     Option.bind (split_once CHR '' '' (str_trim s)) (\<lambda>(date, time).
     Option.bind (split_once CHR ''-'' date) (\<lambda>(month, day).
     Option.bind (parse_unsigned 64 month) (\<lambda>month.
     Option.bind (parse_unsigned 32 day) (\<lambda>day.
     if \<not> (1 \<le> month \<and> month \<le> 12) \<or> \<not> (1 \<le> day \<and> day \<le> 31) then None
     else
       let parts = split_str '':'' time in
       Option.bind (Option.bind (nth_opt 0 parts) (parse_unsigned 32)) (\<lambda>h.
       Option.bind (Option.bind (nth_opt 1 parts) (parse_unsigned 32)) (\<lambda>m.
       Option.bind (Option.bind (nth_opt 2 parts) parse_seconds) (\<lambda>(sec, ms).
       if h > 23 \<or> m > 59 \<or> sec > 60 then None
       else Some (time_secs month day h m sec ms))))))))"

text \<open>\<open>rem_euclid\<close> for a positive modulus.\<close>

definition rem_euclid :: "rat \<Rightarrow> rat \<Rightarrow> rat" where
  "rem_euclid a m = a - m * of_int \<lfloor>a / m\<rfloor>"

definition age_secs :: "rat \<Rightarrow> rat \<Rightarrow> rat" where
  "age_secs now line =
     (let diff = now - line in
      if diff \<ge> 0 then diff
      else if - diff \<le> FUTURE_SKEW_TOLERANCE_SECS then 0
      else rem_euclid diff YEAR_SECS)"

definition newer_than :: "rat \<Rightarrow> rat \<Rightarrow> bool" where
  "newer_than line cursor \<longleftrightarrow>
     (let fwd = rem_euclid (line - cursor) YEAR_SECS in fwd > 0 \<and> fwd < YEAR_SECS / 2)"

section \<open>A dump\<close>

record scanned_crash =
  sc_event :: crash_event
  sc_ts_raw :: string
  sc_ts_secs :: "rat option"
  sc_fingerprint :: string

record crash_scan =
  cn_now_raw :: "string option"
  cn_now_secs :: "rat option"
  cn_crashes :: "scanned_crash list"

definition NOW_MARKER :: string where "NOW_MARKER = ''SD_NOW=''"

definition scanned :: "log_ext \<Rightarrow> (string \<Rightarrow> string) \<Rightarrow> crash_event \<Rightarrow> scanned_crash" where
  "scanned lx digest e =
     (let ts_raw = (case nth_opt 0 (str_lines (ce_raw e)) of
                      None \<Rightarrow> []
                    | Some line \<Rightarrow> (case parse_log_line lx line of Some l \<Rightarrow> ll_ts l | None \<Rightarrow> []))
      in \<lparr>sc_event = e, sc_ts_raw = ts_raw, sc_ts_secs = parse_ts_secs ts_raw,
          sc_fingerprint = take 16 (digest (ce_raw e))\<rparr>)"

definition wanted_crash :: "string option \<Rightarrow> crash_event \<Rightarrow> bool" where
  "wanted_crash package e =
     (case (package, ce_package e) of
        (Some f, Some p) \<Rightarrow> package_matches_filter p f
      | _ \<Rightarrow> True)"

text \<open>The line that carries the device's time, if it is still looked for.\<close>

definition now_line :: "string option \<Rightarrow> string \<Rightarrow> string option" where
  "now_line now_raw line =
     (let t = str_trim line in
      if now_raw = None \<and> starts_with t NOW_MARKER then Some (str_trim (drop (length NOW_MARKER) t)) else None)"

fun scan_loop ::
  "log_ext \<Rightarrow> moment \<Rightarrow> string list \<Rightarrow> string option \<Rightarrow> collector \<Rightarrow> string option \<times> collector \<times> crash_event list" where
  "scan_loop lx m [] now_raw c = (now_raw, c, [])"
| "scan_loop lx m (line # lines) now_raw c =
     (case now_line now_raw line of
        Some now \<Rightarrow> scan_loop lx m lines (Some now) c
      | None \<Rightarrow>
          (case handle_line lx m line c of (c1, es) \<Rightarrow>
           case scan_loop lx m lines now_raw c1 of (now', c2, es') \<Rightarrow> (now', c2, es @ es')))"

definition scan_lines ::
  "log_ext \<Rightarrow> (string \<Rightarrow> string) \<Rightarrow> moment \<Rightarrow> string list \<Rightarrow> string option \<Rightarrow> crash_scan" where
  "scan_lines lx digest m lines package =
     (case scan_loop lx m lines None collector_new of (now_raw, c, es) \<Rightarrow>
      let rest = (case snd (finalize_now lx (snd m) c) of None \<Rightarrow> [] | Some e \<Rightarrow> [e])
      in \<lparr>cn_now_raw = now_raw, cn_now_secs = Option.bind now_raw parse_ts_secs,
          cn_crashes = map (scanned lx digest) (filter (wanted_crash package) (es @ rest))\<rparr>)"

definition crash_filter_spec :: "bool \<Rightarrow> string" where
  "crash_filter_spec filtered =
     (if filtered then '' AndroidRuntime:E ActivityManager:E libc:F DEBUG:F *:S'' else [])"

definition scan_command :: "string \<Rightarrow> nat \<Rightarrow> bool \<Rightarrow> string" where
  "scan_command buffers max_lines filtered =
     ''echo \"'' @ NOW_MARKER @ ''$(date '+%m-%d %H:%M:%S')\"; logcat -d -v threadtime -b '' @ buffers @ '' -t '' @
     dec_digits max_lines @ crash_filter_spec filtered @ '' 2>&1''"

section \<open>The probe\<close>

record crash_cursor =
  cu_ts_secs :: rat
  cu_ts_raw :: string
  cu_fingerprints :: "string list"

definition last_n :: "nat \<Rightarrow> 'a list \<Rightarrow> 'a list" where
  "last_n n xs = drop (length xs - n) xs"

definition fresh_crash :: "crash_cursor \<Rightarrow> scanned_crash \<Rightarrow> bool" where
  "fresh_crash cursor c \<longleftrightarrow>
     (case sc_ts_secs c of Some ts \<Rightarrow> newer_than ts (cu_ts_secs cursor) | None \<Rightarrow> False) \<and>
     sc_fingerprint c \<notin> set (cu_fingerprints cursor)"

text \<open>
  One probe, from the stored cursor and a scan (None when scanning failed): the cursor to store, if it
  changes, and what is reported. A probe that does not get the cursor's lock does nothing.
\<close>

definition probe_once ::
  "crash_cursor option \<Rightarrow> crash_scan option \<Rightarrow> crash_cursor option \<times> scanned_crash list" where
  "probe_once state scan =
     (case scan of
        None \<Rightarrow> (state, [])
      | Some scan \<Rightarrow>
          (case cn_now_secs scan of
             None \<Rightarrow> (state, [])
           | Some now_secs \<Rightarrow>
               let new_ts = now_secs - CURSOR_SLACK_SECS;
                   new_raw = (case cn_now_raw scan of None \<Rightarrow> [] | Some raw \<Rightarrow> raw)
               in case state of
                    None \<Rightarrow> (Some \<lparr>cu_ts_secs = new_ts, cu_ts_raw = new_raw, cu_fingerprints = []\<rparr>, [])
                  | Some cursor \<Rightarrow>
                      let fresh = filter (fresh_crash cursor) (cn_crashes scan);
                          fingerprints = cu_fingerprints cursor @ map sc_fingerprint fresh;
                          kept = (if length fingerprints > MAX_FINGERPRINTS
                                  then drop (length fingerprints - MAX_FINGERPRINTS) fingerprints else fingerprints)
                      in (Some \<lparr>cu_ts_secs = new_ts, cu_ts_raw = new_raw, cu_fingerprints = kept\<rparr>, fresh)))"

definition compact_event :: "scanned_crash \<Rightarrow> json" where
  "compact_event c =
     (let e = sc_event c in
      jobj ([(''type'', JStr ''crash''), (''kind'', JStr (ce_kind e)), (''ts'', JStr (sc_ts_raw c))] @
        (case ce_package e of None \<Rightarrow> [] | Some p \<Rightarrow> [(''package'', JStr p)]) @
        (case ce_exception e of None \<Rightarrow> [] | Some x \<Rightarrow> [(''exception'', JStr x)]) @
        (case ce_message e of None \<Rightarrow> [] | Some m \<Rightarrow> [(''message'', JStr m)]) @
        (case ce_signal_name e of None \<Rightarrow> [] | Some s \<Rightarrow> [(''signal'', JStr s)]) @
        (if ce_stack e = [] then [] else [(''stack'', JArr (map JStr (take 5 (ce_stack e))))]) @
        [(''hint'', JStr (if ce_kind e = ''anr'' then ''main thread blocked >5s; `shadowdroid why` for detail''
           else ''app process died; `shadowdroid why` or `shadowdroid log --last 2m` for detail''))]))"

text \<open>The probe at the end of a command: once more when the command took long and nothing was found.\<close>

definition finish_probe ::
  "(crash_cursor option \<times> scanned_crash list) \<Rightarrow> nat \<Rightarrow> crash_scan option \<Rightarrow> crash_cursor option \<times> scanned_crash list" where
  "finish_probe first elapsed_ms rescan =
     (case first of (state, events) \<Rightarrow>
      if events = [] \<and> elapsed_ms > RESCAN_AFTER_MS then probe_once state rescan else (state, events))"

section \<open>Frames of the project\<close>

text \<open>
  \<open>frame_file\<close> is what the pattern of a file and line captures of a frame; \<open>index\<close> the source files of the
  project by name. The shortest of several paths wins, the first of equally short ones.
\<close>

fun shortest :: "string list \<Rightarrow> string option" where
  "shortest [] = None"
| "shortest (p # ps) =
     (case shortest ps of None \<Rightarrow> Some p | Some q \<Rightarrow> Some (if length p \<le> length q then p else q))"

definition project_frame ::
  "(string \<Rightarrow> (string \<times> string) option) \<Rightarrow> (string \<Rightarrow> string list option) \<Rightarrow> string \<Rightarrow> json option" where
  "project_frame frame_file index frame =
     (case frame_file frame of
        None \<Rightarrow> None
      | Some (file, line) \<Rightarrow>
          (case Option.bind (index file) shortest of
             None \<Rightarrow> None
           | Some path \<Rightarrow>
               Some (jobj [(''frame'', JStr frame), (''file'', JStr file),
                           (''line'', jnat (case parse_unsigned 64 line of Some n \<Rightarrow> n | None \<Rightarrow> 0)),
                           (''path'', JStr path)])))"

definition project_frames ::
  "(string \<Rightarrow> (string \<times> string) option) \<Rightarrow> (string \<Rightarrow> string list option) \<Rightarrow> crash_event \<Rightarrow> json list" where
  "project_frames frame_file index e =
     take 8 (List.map_filter (project_frame frame_file index) (ce_stack e @ concat (map cb_stack (ce_caused_by e))))"

section \<open>Reading the log\<close>

record log_entry =
  le_ts :: string
  le_level :: string
  le_tag :: string
  le_pid :: int
  le_msg :: string
  le_repeat :: "nat option"

record log_query =
  lq_min_rank :: "nat option"
  lq_tags :: "string list"
  lq_grep :: "(string \<Rightarrow> bool) option"
  lq_window :: rat
  lq_max :: nat
  lq_no_dedup :: bool

record log_snapshot =
  ls_now_secs :: "rat option"
  ls_now_raw :: "string option"
  ls_pids :: "int list"
  ls_lines :: "string list"

definition level_rank :: "string \<Rightarrow> nat" where
  "level_rank level =
     (let l = to_ascii_lowercase level in
      if l = ''v'' then 0 else if l = ''d'' then 1 else if l = ''i'' then 2 else if l = ''w'' then 3
      else if l = ''e'' then 4 else if l = ''f'' then 5 else 0)"

definition is_ascii_alphabetic :: "char \<Rightarrow> bool" where
  "is_ascii_alphabetic c \<longleftrightarrow> (let n = of_char c :: nat in 65 \<le> n \<and> n \<le> 90 \<or> 97 \<le> n \<and> n \<le> 122)"

text \<open>\<open>number\<close> reads a floating-point number, None for what is none or not finite.\<close>

definition parse_duration_secs :: "(string \<Rightarrow> rat option) \<Rightarrow> string \<Rightarrow> rat outcome" where
  "parse_duration_secs number s =
     (let s = str_trim s;
          (num, measure_char) = (if s \<noteq> [] \<and> is_ascii_alphabetic (last s) then (butlast s, to_ascii_lowercase [last s]) else (s, ''s''))
      in case number num of
           None \<Rightarrow> Inl ''invalid duration''
         | Some v \<Rightarrow>
             and_then (if measure_char = ''s'' then Inr v else if measure_char = ''m'' then Inr (v * 60)
                       else if measure_char = ''h'' then Inr (v * 3600) else if measure_char = ''d'' then Inr (v * 86400)
                       else Inl ''invalid duration unit'') (\<lambda>secs.
             if \<not> secs > 0 then Inl ''duration must be positive'' else Inr secs))"

text \<open>The answer of the device: its time, its processes, and the log, in three sections.\<close>

definition ps_pid :: "string \<Rightarrow> string \<Rightarrow> int option" where
  "ps_pid package line =
     (case split_whitespace line of
        pid # name # rest \<Rightarrow> if package_matches_filter name package then parse_i32 pid else None
      | _ \<Rightarrow> None)"

function trim_start_matches :: "string \<Rightarrow> string \<Rightarrow> string" where
  "trim_start_matches p s =
     (if p \<noteq> [] \<and> starts_with s p then trim_start_matches p (drop (length p) s) else s)"
  by pat_completeness auto
termination
  by (relation "measure (\<lambda>(p, s). length s)") (auto simp: starts_with_def intro!: diff_less)

declare trim_start_matches.simps [simp del]

fun snapshot_loop :: "string option \<Rightarrow> string list \<Rightarrow> nat \<Rightarrow> log_snapshot \<Rightarrow> log_snapshot" where
  "snapshot_loop package [] sec snap = snap"
| "snapshot_loop package (line # lines) sec snap =
     (let t = str_trim line in
      if sec = 0 \<and> starts_with t NOW_MARKER then
        snapshot_loop package lines sec
          (snap\<lparr>ls_now_raw := Some (str_trim (trim_start_matches NOW_MARKER t))\<rparr>)
      else if t = ''SD_PS'' then snapshot_loop package lines 1 snap
      else if t = ''SD_LOG'' then snapshot_loop package lines 2 snap
      else if sec = 1 then
        snapshot_loop package lines sec
          (case Option.bind package (\<lambda>p. ps_pid p line) of
             None \<Rightarrow> snap | Some pid \<Rightarrow> snap\<lparr>ls_pids := ls_pids snap @ [pid]\<rparr>)
      else if sec = 2 then snapshot_loop package lines sec (snap\<lparr>ls_lines := ls_lines snap @ [line]\<rparr>)
      else snapshot_loop package lines sec snap)"

definition log_snapshot_of :: "string option \<Rightarrow> string \<Rightarrow> log_snapshot" where
  "log_snapshot_of package out =
     (let snap = snapshot_loop package (str_lines out) 0
            \<lparr>ls_now_secs = None, ls_now_raw = None, ls_pids = [], ls_lines = []\<rparr>
      in snap\<lparr>ls_now_secs := Option.bind (ls_now_raw snap) parse_ts_secs\<rparr>)"

definition in_window :: "rat option \<Rightarrow> rat \<Rightarrow> rat option \<Rightarrow> bool" where
  "in_window now_secs window ts_secs \<longleftrightarrow>
     (case (ts_secs, now_secs) of (Some ts, Some now) \<Rightarrow> age_secs now ts \<le> window | _ \<Rightarrow> True)"

text \<open>The filters of a line, in the code's order: level, tags, pattern, and what a report stands for already.\<close>

definition line_wanted :: "log_query \<Rightarrow> int list \<Rightarrow> log_line \<Rightarrow> bool" where
  "line_wanted q crash_pids l \<longleftrightarrow>
     \<not> (case lq_min_rank q of Some min_rank \<Rightarrow> level_rank (ll_level l) < min_rank | None \<Rightarrow> False) \<and>
     (lq_tags q = [] \<or> list_ex (\<lambda>t. str_contains (to_ascii_lowercase (ll_tag l)) (to_ascii_lowercase t)) (lq_tags q)) \<and>
     (case lq_grep q of Some re \<Rightarrow> re (ll_msg l) \<or> re (ll_tag l) | None \<Rightarrow> True) \<and>
     \<not> (ll_pid l \<in> set crash_pids \<and> ll_tag l \<in> {''AndroidRuntime'', ''DEBUG'', ''libc''}) \<and>
     \<not> (ll_tag l = ''ActivityManager'' \<and> str_contains (ll_msg l) ''ANR in '')"

definition same_entry :: "log_entry \<Rightarrow> log_line \<Rightarrow> bool" where
  "same_entry e l \<longleftrightarrow> le_level e = ll_level l \<and> le_tag e = ll_tag l \<and> le_msg e = ll_msg l"

definition push_entry :: "bool \<Rightarrow> log_line \<Rightarrow> log_entry list \<Rightarrow> log_entry list" where
  "push_entry no_dedup l entries =
     (if \<not> no_dedup \<and> entries \<noteq> [] \<and> same_entry (last entries) l then
        let e = last entries
        in butlast entries @ [e\<lparr>le_repeat := Some ((case le_repeat e of Some n \<Rightarrow> n | None \<Rightarrow> 1) + 1), le_ts := ll_ts l\<rparr>]
      else entries @ [\<lparr>le_ts = ll_ts l, le_level = ll_level l, le_tag = ll_tag l, le_pid = ll_pid l,
                       le_msg = ll_msg l, le_repeat = None\<rparr>])"

text \<open>The entries so far, and whether a line was dropped because its process is not the app's.\<close>

definition log_step ::
  "log_ext \<Rightarrow> log_query \<Rightarrow> log_snapshot \<Rightarrow> string option \<Rightarrow> int list \<Rightarrow> string \<Rightarrow> log_entry list \<times> bool \<Rightarrow> log_entry list \<times> bool" where
  "log_step lx q snap package crash_pids raw st =
     (case parse_log_line lx raw of
        None \<Rightarrow> st
      | Some l \<Rightarrow>
          if \<not> in_window (ls_now_secs snap) (lq_window q) (parse_ts_secs (ll_ts l)) then st
          else if package \<noteq> None \<and> \<not> (ll_pid l \<in> set (ls_pids snap) \<or> ll_pid l \<in> set crash_pids) then (fst st, True)
          else if \<not> line_wanted q crash_pids l then st
          else (push_entry (lq_no_dedup q) l (fst st), snd st))"

record log_report =
  lr_entries :: "log_entry list"
  lr_crashes :: "scanned_crash list"
  lr_dropped :: nat
  lr_window_truncated :: bool
  lr_scope_hint :: bool

definition window_covered :: "log_ext \<Rightarrow> rat \<Rightarrow> log_snapshot \<Rightarrow> bool" where
  "window_covered lx window snap \<longleftrightarrow>
     (case (Option.bind (nth_opt 0 (List.map_filter (parse_log_line lx) (ls_lines snap))) (\<lambda>l. parse_ts_secs (ll_ts l)),
            ls_now_secs snap) of
        (Some oldest, Some now) \<Rightarrow> age_secs now oldest \<ge> window
      | _ \<Rightarrow> True)"

definition log_read ::
  "log_ext \<Rightarrow> (string \<Rightarrow> string) \<Rightarrow> moment \<Rightarrow> log_query \<Rightarrow> string option \<Rightarrow> log_snapshot \<Rightarrow> log_report" where
  "log_read lx digest m q package snap =
     (let scan = scan_lines lx digest m (ls_lines snap) package;
          crashes = filter (\<lambda>c. in_window (ls_now_secs snap) (lq_window q) (sc_ts_secs c)) (cn_crashes scan);
          crash_pids = List.map_filter (\<lambda>c. ce_pid (sc_event c)) crashes;
          (entries, truncated) = fold (log_step lx q snap package crash_pids) (ls_lines snap) ([], False);
          dropped = length entries - lq_max q
      in \<lparr>lr_entries = drop dropped entries, lr_crashes = crashes, lr_dropped = dropped,
          lr_window_truncated = \<not> window_covered lx (lq_window q) snap,
          lr_scope_hint = truncated \<and> drop dropped entries = [] \<and> crashes = []\<rparr>)"

end
