(* ===== verification/CrashClock.thy ===== *)
theory CrashClock
  imports CrashScan FaultShell
begin

text \<open>
  The circular clock of the device log (\<^verbatim>\<open>crashscan.rs\<close>) against a calendar with years: what a time stamp without
  its year still says of the order and the distance of two moments.
\<close>

section \<open>Remainders of the year\<close>

lemma year_positive [simp]: "0 < YEAR_SECS"
  by (simp add: YEAR_SECS_def)

lemma rem_euclid_same: "0 \<le> a \<Longrightarrow> a < m \<Longrightarrow> rem_euclid a m = a"
proof -
  assume a: "0 \<le> a" "a < m"
  then have "\<lfloor>a / m\<rfloor> = 0"
    by (simp add: floor_eq_iff)
  then show ?thesis
    by (simp add: rem_euclid_def)
qed

lemma rem_euclid_shift: "0 < m \<Longrightarrow> rem_euclid (a + m * of_int k) m = rem_euclid a m"
proof -
  assume m: "0 < m"
  have "(a + m * of_int k) / m = a / m + of_int k"
    using m by (simp add: field_simps)
  then have "\<lfloor>(a + m * of_int k) / m\<rfloor> = \<lfloor>a / m\<rfloor> + k"
    by simp
  then show ?thesis
    by (simp add: rem_euclid_def algebra_simps)
qed

lemma rem_euclid_back: "- m \<le> a \<Longrightarrow> a < 0 \<Longrightarrow> rem_euclid a m = a + m"
  using rem_euclid_shift [of m a 1] rem_euclid_same [of "a + m" m] by simp

lemma newer_within:
  assumes "\<bar>s - t\<bar> < YEAR_SECS / 2"
  shows "newer_than s t \<longleftrightarrow> t < s"
proof (cases "t \<le> s")
  case True
  then have "rem_euclid (s - t) YEAR_SECS = s - t"
    using assms by (intro rem_euclid_same) auto
  then show ?thesis
    using assms True by (auto simp: newer_than_def)
next
  case False
  then have "rem_euclid (s - t) YEAR_SECS = s - t + YEAR_SECS"
    using assms by (intro rem_euclid_back) (auto simp: abs_if split: if_splits)
  then show ?thesis
    using assms False by (auto simp: newer_than_def abs_if split: if_splits)
qed

lemma newer_shift: "newer_than (s - YEAR_SECS) t = newer_than s t" "newer_than s (t - YEAR_SECS) = newer_than s t"
proof -
  have "rem_euclid (s - YEAR_SECS - t) YEAR_SECS = rem_euclid (s - t) YEAR_SECS"
    using rem_euclid_shift [of YEAR_SECS "s - t" "-1"] by (simp add: algebra_simps)
  then show "newer_than (s - YEAR_SECS) t = newer_than s t"
    by (simp add: newer_than_def)
  have "rem_euclid (s - (t - YEAR_SECS)) YEAR_SECS = rem_euclid (s - t) YEAR_SECS"
    using rem_euclid_shift [of YEAR_SECS "s - t" 1] by (simp add: algebra_simps)
  then show "newer_than s (t - YEAR_SECS) = newer_than s t"
    by (simp add: newer_than_def)
qed

section \<open>The calendar\<close>

text \<open>The Gregorian calendar, written down without the code's table; times are local, without leap seconds.\<close>

record calendar_time =
  ct_year :: nat
  ct_month :: nat
  ct_day :: nat
  ct_hour :: nat
  ct_min :: nat
  ct_sec :: nat
  ct_ms :: nat

definition leap_year :: "nat \<Rightarrow> bool" where
  "leap_year y \<longleftrightarrow> y mod 4 = 0 \<and> (y mod 100 \<noteq> 0 \<or> y mod 400 = 0)"

definition days_in_month :: "nat \<Rightarrow> nat \<Rightarrow> nat" where
  "days_in_month y m =
     (if m = 2 then (if leap_year y then 29 else 28) else if m \<in> {4, 6, 9, 11} then 30 else 31)"

definition days_before_month :: "nat \<Rightarrow> nat \<Rightarrow> nat" where
  "days_before_month y m = sum_list (map (days_in_month y) [1..<m])"

fun days_before_year :: "nat \<Rightarrow> nat" where
  "days_before_year 0 = 0"
| "days_before_year (Suc y) = days_before_year y + (if leap_year y then 366 else 365)"

definition on_calendar :: "calendar_time \<Rightarrow> bool" where
  "on_calendar x \<longleftrightarrow>
     ct_month x \<in> {1..12} \<and> ct_day x \<in> {1..days_in_month (ct_year x) (ct_month x)} \<and>
     ct_hour x < 24 \<and> ct_min x < 60 \<and> ct_sec x < 60 \<and> ct_ms x < 1000"

definition day_secs :: "calendar_time \<Rightarrow> rat" where
  "day_secs x = of_nat (ct_hour x) * 3600 + of_nat (ct_min x) * 60 + of_nat (ct_sec x) + of_nat (ct_ms x) / 1000"

text \<open>The seconds from the start of the calendar to a moment, and to the first of March of a year.\<close>

definition calendar_secs :: "calendar_time \<Rightarrow> rat" where
  "calendar_secs x =
     of_nat (days_before_year (ct_year x) + days_before_month (ct_year x) (ct_month x) + (ct_day x - 1)) * 86400 + day_secs x"

definition march_first :: "nat \<Rightarrow> rat" where
  "march_first y = of_nat (days_before_year y + days_before_month y 3) * 86400"

text \<open>The end of the February of a year without a 29th lies between the two moments.\<close>

definition leap_day_skipped :: "calendar_time \<Rightarrow> calendar_time \<Rightarrow> bool" where
  "leap_day_skipped earlier later \<longleftrightarrow>
     (\<exists>y \<in> {ct_year earlier..ct_year later}.
        \<not> leap_year y \<and> calendar_secs earlier < march_first y \<and> march_first y \<le> calendar_secs later)"

section \<open>What the log prints\<close>

definition pad2 :: "nat \<Rightarrow> string" where
  "pad2 n = [char_of (48 + n div 10), char_of (48 + n mod 10)]"

definition pad3 :: "nat \<Rightarrow> string" where
  "pad3 n = char_of (48 + n div 100) # pad2 (n mod 100)"

definition date_stamp :: "calendar_time \<Rightarrow> string" where
  "date_stamp x =
     pad2 (ct_month x) @ ''-'' @ pad2 (ct_day x) @ '' '' @
     pad2 (ct_hour x) @ '':'' @ pad2 (ct_min x) @ '':'' @ pad2 (ct_sec x)"

definition log_stamp :: "calendar_time \<Rightarrow> string" where
  "log_stamp x = date_stamp x @ ''.'' @ pad3 (ct_ms x)"

text \<open>A stamp of the moment: as a log line has it, or as \<open>date\<close> prints a moment at a full second.\<close>

definition stamp_of :: "calendar_time \<Rightarrow> string \<Rightarrow> bool" where
  "stamp_of x s \<longleftrightarrow> s = log_stamp x \<or> ct_ms x = 0 \<and> s = date_stamp x"

lemma pad2_digits: "n < 100 \<Longrightarrow> list_all is_digit (pad2 n)"
  using digit_char(1) [of "n div 10"] digit_char(1) [of "n mod 10"] by (simp add: pad2_def)

lemma parse_digits:
  assumes "list_all is_digit ds" "ds \<noteq> []"
  shows "parse_unsigned bits ds =
    (let n = foldl (\<lambda>acc c. acc * 10 + (of_char c - 48)) 0 ds in if n < 2 ^ bits then Some n else None)"
proof -
  obtain c cs where ds: "ds = c # cs"
    using assms(2) by (cases ds) auto
  then have "c \<noteq> CHR ''+''"
    using assms(1) by (auto simp: is_digit_def)
  then show ?thesis
    using assms ds by (simp add: parse_unsigned_def)
qed

lemma digit_value: "n < 10 \<Longrightarrow> of_char (char_of (48 + n) :: char) - (48 :: nat) = n"
  by (simp only: digit_char(2) add_diff_cancel_left')

lemma pad2_value: "n < 100 \<Longrightarrow> foldl (\<lambda>acc c. acc * 10 + (of_char c - 48)) acc (pad2 n) = acc * 100 + n"
proof -
  assume "n < 100"
  then have "n div 10 < 10" "n mod 10 < 10"
    by simp_all
  then have "foldl (\<lambda>acc c. acc * 10 + (of_char c - 48)) acc (pad2 n) = (acc * 10 + n div 10) * 10 + n mod 10"
    by (simp only: pad2_def foldl.simps digit_value)
  then show ?thesis
    by presburger
qed

lemma parse_pad2: "n < 100 \<Longrightarrow> 32 \<le> bits \<Longrightarrow> parse_unsigned bits (pad2 n) = Some n"
proof -
  assume n: "n < 100" "32 \<le> bits"
  have "(2 :: nat) ^ 32 \<le> 2 ^ bits"
    using n(2) by (intro power_increasing) simp_all
  then have "n < 2 ^ bits"
    using n(1) by simp
  moreover have "pad2 n \<noteq> []"
    by (simp add: pad2_def)
  ultimately show ?thesis
    using parse_digits [OF pad2_digits [OF n(1)], of bits] pad2_value [OF n(1), of 0]
    by (simp only: Let_def mult_0 add_0 if_True simp_thms)
qed

lemma parse_pad3: "n < 1000 \<Longrightarrow> parse_unsigned 32 (pad3 n) = Some n"
proof -
  assume n: "n < 1000"
  then have hundreds: "n div 100 < 10" "n mod 100 < 100"
    by simp_all
  then have "list_all is_digit (pad3 n)" "pad3 n \<noteq> []"
    using digit_char(1) [of "n div 100"] pad2_digits [of "n mod 100"] by (simp_all only: pad3_def list.pred_inject simp_thms list.distinct not_False_eq_True)
  moreover have "foldl (\<lambda>acc c. acc * 10 + (of_char c - 48)) 0 (pad3 n) = (0 * 10 + n div 100) * 100 + n mod 100"
    using hundreds by (simp only: pad3_def foldl.simps digit_value pad2_value)
  moreover have "(0 * 10 + n div 100) * 100 + n mod 100 = n"
    by simp
  moreover have "n < 2 ^ 32"
    using n by simp
  ultimately show ?thesis
    using parse_digits [of "pad3 n" 32] by (simp only: Let_def if_True simp_thms)
qed

text \<open>Fields apart.\<close>

lemma pad2_no: "\<not> is_digit c \<Longrightarrow> n < 100 \<Longrightarrow> c \<notin> set (pad2 n)"
  using pad2_digits [of n] by (auto simp: list_all_iff)

lemma pad3_digits: "n < 1000 \<Longrightarrow> list_all is_digit (pad3 n)"
  using digit_char(1) [of "n div 100"] pad2_digits [of "n mod 100"] by (simp add: pad3_def)

lemma split_once_at: "c \<notin> set a \<Longrightarrow> split_once c (a @ c # b) = Some (a, b)"
  by (induction a) auto

lemma split_once_none: "c \<notin> set a \<Longrightarrow> split_once c a = None"
  by (induction a) auto

lemma find_char: "c \<notin> set a \<Longrightarrow> find_str [c] (a @ c # b) = Some (a, b)" "c \<notin> set a \<Longrightarrow> find_str [c] a = None"
  by (induction a) (auto simp: starts_with_def)

lemma split_str_at: "c \<notin> set a \<Longrightarrow> split_str [c] (a @ c # b) = a # split_str [c] b"
  by (subst split_str.simps) (simp add: find_char)

lemma split_str_none: "c \<notin> set a \<Longrightarrow> split_str [c] a = [a]"
  by (subst split_str.simps) (simp add: find_char)

definition log_clock :: "calendar_time \<Rightarrow> rat" where
  "log_clock x = time_secs (ct_month x) (ct_day x) (ct_hour x) (ct_min x) (ct_sec x) (ct_ms x)"

lemma digits_visible: "list_all is_digit s \<Longrightarrow> list_all (\<lambda>c. (32 :: nat) < of_char c \<and> of_char c < (128 :: nat)) s"
  using digit_visible by (auto simp: list_all_iff)

lemma parse_whole_seconds: "n < 100 \<Longrightarrow> parse_seconds (pad2 n) = Some (n, 0)"
  using split_once_none [OF pad2_no, of "CHR ''.''" n] by (simp add: parse_seconds_def parse_pad2 is_digit_def)

lemma parse_milliseconds: "n < 100 \<Longrightarrow> ms < 1000 \<Longrightarrow> parse_seconds (pad2 n @ ''.'' @ pad3 ms) = Some (n, ms)"
proof -
  assume n: "n < 100" "ms < 1000"
  have ascii: "list_all (\<lambda>c. of_char c < (128 :: nat)) (pad3 ms)"
    using digits_visible [OF pad3_digits [OF n(2)]] by (simp add: list_all_iff)
  have len: "length (pad3 ms) = 3"
    by (simp add: pad3_def pad2_def)
  have "chars_str (take 3 (str_chars (pad3 ms))) = pad3 ms"
    using len by (simp add: str_chars_ascii [OF ascii] chars_str_ascii [OF ascii])
  moreover have "split_once CHR ''.'' (pad2 n @ ''.'' @ pad3 ms) = Some (pad2 n, pad3 ms)"
    using split_once_at [OF pad2_no, of "CHR ''.''" n "pad3 ms"] n(1) by (simp add: is_digit_def)
  ultimately show ?thesis
    using n len by (simp add: parse_seconds_def parse_pad2 parse_pad3 Let_def)
qed

text \<open>Trimming leaves a text alone whose ends are visible.\<close>

lemma trim_visible_ends:
  assumes "list_all (\<lambda>c. of_char c < (128 :: nat)) s" "s \<noteq> []" "(32 :: nat) < of_char (hd s)" "(32 :: nat) < of_char (last s)"
  shows "str_trim s = s"
proof -
  have "of_char (hd s) < (128 :: nat)" "of_char (last s) < (128 :: nat)"
    using assms(1,2) by (simp_all add: list_all_iff)
  then have "\<not> char_is_whitespace (of_char (hd s))" "\<not> char_is_whitespace (of_char (last s))"
    using assms(3,4) by (auto simp: char_is_whitespace_def)
  then have "dropWhile char_is_whitespace (map of_char s) = map of_char s"
    "dropWhile char_is_whitespace (rev (map of_char s)) = rev (map of_char s)"
    using assms(2) by (simp_all add: dropWhile_eq_self_iff hd_rev last_map list.map_sel(1))
  then show ?thesis
    using assms(1) by (simp add: str_trim_def str_chars_ascii chars_str_ascii)
qed

lemma digits_ascii: "list_all is_digit s \<Longrightarrow> list_all (\<lambda>c. of_char c < (128 :: nat)) s"
  using digits_visible by (auto simp: list_all_iff)

lemma parse_fields:
  assumes digits: "list_all is_digit mo" "list_all is_digit da" "list_all is_digit ho" "list_all is_digit mi"
    and ends: "mo \<noteq> []" "se \<noteq> []" "is_digit (last se)" "list_all (\<lambda>c. is_digit c \<or> c = CHR ''.'') se"
    and parsed: "parse_unsigned 64 mo = Some m" "parse_unsigned 32 da = Some d" "parse_unsigned 32 ho = Some h"
      "parse_unsigned 32 mi = Some n" "parse_seconds se = Some (sec, ms)"
    and ranges: "1 \<le> m" "m \<le> 12" "1 \<le> d" "d \<le> 31" "h \<le> 23" "n \<le> 59" "sec \<le> 60"
  shows "parse_ts_secs ((mo @ CHR ''-'' # da) @ CHR '' '' # ho @ CHR '':'' # mi @ CHR '':'' # se) =
    Some (time_secs m d h n sec ms)"
proof -
  let ?time = "ho @ CHR '':'' # mi @ CHR '':'' # se"
  let ?s = "(mo @ CHR ''-'' # da) @ CHR '' '' # ?time"
  have no: "c \<notin> set w" if "list_all is_digit w" "\<not> is_digit c" for c w
    using that by (auto simp: list_all_iff)
  have visible: "list_all (\<lambda>c. of_char c < (128 :: nat)) ?s"
    using digits_ascii [OF digits(1)] digits_ascii [OF digits(2)] digits_ascii [OF digits(3)] digits_ascii [OF digits(4)] ends(4)
    by (auto simp: list_all_iff is_digit_def Let_def)
  have head: "is_digit (hd ?s)"
    using digits(1) ends(1) by (cases mo) auto
  have trim: "str_trim ?s = ?s"
    by (rule trim_visible_ends [OF visible]) (use head ends(2,3) digit_visible in simp_all)
  have "CHR '' '' \<notin> set (mo @ CHR ''-'' # da)" "CHR ''-'' \<notin> set mo"
    using no [OF digits(1)] no [OF digits(2)] by (simp_all add: is_digit_def)
  then have dates: "split_once CHR '' '' ?s = Some (mo @ CHR ''-'' # da, ?time)"
    "split_once CHR ''-'' (mo @ CHR ''-'' # da) = Some (mo, da)"
    using split_once_at by metis+
  have "CHR '':'' \<notin> set ho" "CHR '':'' \<notin> set mi" "CHR '':'' \<notin> set se"
    using no [OF digits(3)] no [OF digits(4)] ends(4) by (auto simp: is_digit_def list_all_iff)
  then have "split_str '':'' ?time = [ho, mi, se]"
    by (simp add: split_str_at split_str_none)
  then show ?thesis
    unfolding parse_ts_secs_def trim dates bind.bind_lunit prod.case parsed
    using parsed ranges by (simp add: nth_opt_def not_le)
qed

lemma parse_stamp:
  assumes "on_calendar x" "stamp_of x s"
  shows "parse_ts_secs s = Some (log_clock x)"
proof -
  have small: "ct_month x < 100" "ct_day x < 100" "ct_hour x < 100" "ct_min x < 100" "ct_sec x < 100" "ct_ms x < 1000"
    "1 \<le> ct_month x" "ct_month x \<le> 12" "1 \<le> ct_day x" "ct_day x \<le> 31" "ct_hour x \<le> 23" "ct_min x \<le> 59" "ct_sec x \<le> 60"
    using assms(1) by (auto simp: on_calendar_def days_in_month_def split: if_splits)
  define se where "se = (if s = log_stamp x then pad2 (ct_sec x) @ ''.'' @ pad3 (ct_ms x) else pad2 (ct_sec x))"
  have "s = (pad2 (ct_month x) @ CHR ''-'' # pad2 (ct_day x)) @ CHR '' '' #
      pad2 (ct_hour x) @ CHR '':'' # pad2 (ct_min x) @ CHR '':'' # se"
    using assms(2) by (auto simp: stamp_of_def se_def log_stamp_def date_stamp_def)
  moreover have "parse_seconds se = Some (ct_sec x, ct_ms x)"
    using assms(2) small parse_whole_seconds parse_milliseconds by (auto simp: stamp_of_def se_def)
  moreover have "se \<noteq> []" "list_all (\<lambda>c. is_digit c \<or> c = CHR ''.'') se"
    using pad2_digits [OF small(5)] pad3_digits [OF small(6)] by (auto simp: se_def pad2_def list_all_iff)
  moreover have "is_digit (last se)"
    using pad2_digits [OF small(5)] pad3_digits [OF small(6)] by (simp add: se_def pad2_def pad3_def)
  ultimately show ?thesis
    using small parse_fields [of "pad2 (ct_month x)" "pad2 (ct_day x)" "pad2 (ct_hour x)" "pad2 (ct_min x)" se]
    by (simp add: pad2_digits parse_pad2 log_clock_def) (simp add: pad2_def)
qed

section \<open>The clock and the calendar\<close>

definition march_shift :: "calendar_time \<Rightarrow> rat" where
  "march_shift x = (if \<not> leap_year (ct_year x) \<and> 3 \<le> ct_month x then 86400 else 0)"

definition year_start :: "nat \<Rightarrow> rat" where
  "year_start y = of_nat (days_before_year y) * 86400"

lemma months: "m \<in> {1..12} \<longleftrightarrow> m \<in> {1, 2, 3, 4, 5, 6, 7, 8, 9, 10, 11, 12 :: nat}"
  unfolding atLeastAtMost_iff insert_iff empty_iff by presburger

lemma table_days:
  assumes "m \<in> {1..12}"
  shows "CUM_DAYS ! (m - 1) = days_before_month y m + (if \<not> leap_year y \<and> 3 \<le> m then 1 else 0)"
  using assms unfolding months
  by (elim insertE) (simp_all add: CUM_DAYS_def days_before_month_def days_in_month_def upt_rec)

lemma month_fits:
  assumes "m \<in> {1..12}"
  shows "days_before_month y m + days_in_month y m \<le> (if leap_year y then 366 else 365)"
    "3 \<le> m \<Longrightarrow> days_before_month y 3 \<le> days_before_month y m"
    "\<not> 3 \<le> m \<Longrightarrow> days_before_month y m + days_in_month y m \<le> days_before_month y 3"
  using assms unfolding months
  by (elim insertE; simp add: days_before_month_def days_in_month_def upt_rec)+

lemma day_bounds: "on_calendar x \<Longrightarrow> 0 \<le> day_secs x \<and> day_secs x < 86400"
proof -
  assume "on_calendar x"
  then have "ct_hour x \<le> 23" "ct_min x \<le> 59" "ct_sec x \<le> 59" "ct_ms x \<le> 999"
    by (auto simp: on_calendar_def)
  then have "of_nat (ct_hour x) \<le> (of_nat 23 :: rat)" "of_nat (ct_min x) \<le> (of_nat 59 :: rat)"
    "of_nat (ct_sec x) \<le> (of_nat 59 :: rat)" "of_nat (ct_ms x) \<le> (of_nat 999 :: rat)"
    by (simp_all only: of_nat_le_iff)
  then show ?thesis
    by (simp add: day_secs_def)
qed

lemma log_of_calendar:
  assumes "on_calendar x"
  shows "log_clock x = calendar_secs x - year_start (ct_year x) + march_shift x"
  using table_days [of "ct_month x" "ct_year x"] assms
  by (simp add: on_calendar_def log_clock_def time_secs_def calendar_secs_def year_start_def march_shift_def day_secs_def
      algebra_simps)

text \<open>Where a moment lies: in its year, and on one side of the first of March.\<close>

lemma nat_days_le: "a + 1 \<le> b \<Longrightarrow> (of_nat a :: rat) * 86400 + 86400 \<le> of_nat b * 86400"
proof -
  assume "a + 1 \<le> b"
  then have "of_nat (a + 1) \<le> (of_nat b :: rat)"
    by (simp only: of_nat_le_iff)
  then show ?thesis
    by simp
qed

lemma in_its_year:
  assumes "on_calendar x"
  shows "year_start (ct_year x) \<le> calendar_secs x" "calendar_secs x < year_start (Suc (ct_year x))"
proof -
  have "days_before_year (ct_year x) + days_before_month (ct_year x) (ct_month x) + (ct_day x - 1) + 1 \<le> days_before_year (Suc (ct_year x))"
    using assms month_fits(1) [of "ct_month x" "ct_year x"] by (auto simp: on_calendar_def)
  then show "calendar_secs x < year_start (Suc (ct_year x))"
    using day_bounds [OF assms] nat_days_le by (fastforce simp: calendar_secs_def year_start_def simp del: days_before_year.simps)
  have "year_start (ct_year x) \<le> of_nat (days_before_year (ct_year x) + days_before_month (ct_year x) (ct_month x) + (ct_day x - 1)) * 86400"
    by (simp add: year_start_def)
  then show "year_start (ct_year x) \<le> calendar_secs x"
    using day_bounds [OF assms] by (simp add: calendar_secs_def)
qed

lemma after_march:
  assumes "on_calendar x"
  shows "march_first (ct_year x) \<le> calendar_secs x \<longleftrightarrow> 3 \<le> ct_month x"
proof (cases "3 \<le> ct_month x")
  case True
  then have "days_before_year (ct_year x) + days_before_month (ct_year x) 3 \<le>
      days_before_year (ct_year x) + days_before_month (ct_year x) (ct_month x) + (ct_day x - 1)"
    using assms month_fits(2) [of "ct_month x" "ct_year x"] by (auto simp: on_calendar_def)
  then have "march_first (ct_year x) \<le>
      of_nat (days_before_year (ct_year x) + days_before_month (ct_year x) (ct_month x) + (ct_day x - 1)) * 86400"
    unfolding march_first_def by (intro mult_right_mono) (simp_all only: of_nat_le_iff zero_le_numeral)
  then show ?thesis
    using True day_bounds [OF assms] by (simp add: calendar_secs_def)
next
  case False
  have "days_before_year (ct_year x) + days_before_month (ct_year x) (ct_month x) + (ct_day x - 1) + 1 \<le>
      days_before_year (ct_year x) + days_before_month (ct_year x) 3"
    using assms False month_fits(3) [of "ct_month x" "ct_year x"] by (auto simp: on_calendar_def)
  then show ?thesis
    using False day_bounds [OF assms] nat_days_le by (fastforce simp: calendar_secs_def march_first_def)
qed

lemma march_place: "year_start y \<le> march_first y" "march_first y + 306 * 86400 = year_start (Suc y)"
  by (simp_all add: year_start_def march_first_def days_before_month_def days_in_month_def upt_rec)

lemma year_start_mono: "y \<le> z \<Longrightarrow> year_start y \<le> year_start z"
proof (induction z)
  case (Suc z)
  have "year_start z \<le> year_start (Suc z)"
    by (simp add: year_start_def)
  then show ?case
    using Suc by (cases "y = Suc z") auto
qed simp

lemma year_length: "year_start (Suc y) = year_start y + (if leap_year y then 366 else 365) * 86400"
  by (simp add: year_start_def algebra_simps)

section \<open>Order and distance\<close>

text \<open>What the log's clock adds to the distance of two moments when it skips a day that the year does not have.\<close>

definition skipped_secs :: "calendar_time \<Rightarrow> calendar_time \<Rightarrow> rat" where
  "skipped_secs earlier later = (if leap_day_skipped earlier later then 86400 else 0)"

lemma years_apart:
  assumes "on_calendar a" "on_calendar b" "calendar_secs a \<le> calendar_secs b" "calendar_secs b - calendar_secs a < 182 * 86400"
  obtains (same) "ct_year b = ct_year a" | (next_year) "ct_year b = Suc (ct_year a)" "3 \<le> ct_month a"
proof -
  let ?y = "ct_year a" and ?z = "ct_year b"
  note a = in_its_year [OF assms(1)] and b = in_its_year [OF assms(2)]
  have "\<not> ?z < ?y"
    using year_start_mono [of "Suc ?z" ?y] a(1) b(2) assms(3) by auto
  moreover have "\<not> Suc ?y < ?z"
    using year_start_mono [of "Suc (Suc ?y)" ?z] year_length [of "Suc ?y"] a(2) b(1) assms(4) by (auto split: if_splits)
  moreover have "3 \<le> ct_month a" if "?z = Suc ?y"
    using that march_place(2) [of ?y] b(1) assms(4) after_march [OF assms(1)] by (auto simp: not_le)
  ultimately show thesis
    using same next_year by linarith
qed

lemma skipped_next_year:
  assumes "on_calendar a" "on_calendar b" "ct_year b = Suc (ct_year a)" "3 \<le> ct_month a"
  shows "leap_day_skipped a b \<longleftrightarrow> \<not> leap_year (ct_year b) \<and> 3 \<le> ct_month b"
proof -
  let ?y = "ct_year a"
  have before: "calendar_secs a < march_first (Suc ?y)"
    using in_its_year(2) [OF assms(1)] march_place(1) [of "Suc ?y"] by auto
  have two: "{?y..ct_year b} = {?y, Suc ?y}"
    using assms(3) by auto
  show ?thesis
    unfolding leap_day_skipped_def two using before assms(3,4) after_march [OF assms(1)] after_march [OF assms(2)] by auto
qed

lemma log_distance:
  assumes "on_calendar a" "on_calendar b" "calendar_secs a \<le> calendar_secs b" "calendar_secs b - calendar_secs a < 182 * 86400"
  shows "log_clock b = log_clock a + (calendar_secs b - calendar_secs a + skipped_secs a b) -
    (if ct_year b = ct_year a then 0 else YEAR_SECS)"
  using assms
proof (cases rule: years_apart)
  case same
  have "skipped_secs a b = march_shift b - march_shift a"
    using assms(3) same after_march [OF assms(1)] after_march [OF assms(2)]
    by (auto simp: skipped_secs_def march_shift_def leap_day_skipped_def)
  then show ?thesis
    using same log_of_calendar [OF assms(1)] log_of_calendar [OF assms(2)] by simp
next
  case next_year
  let ?y = "ct_year a"
  have "skipped_secs a b = march_shift b"
    using skipped_next_year [OF assms(1,2) next_year] by (simp add: skipped_secs_def march_shift_def)
  moreover have "march_shift a = (if leap_year ?y then 0 else 86400)"
    using next_year(2) by (simp add: march_shift_def)
  ultimately show ?thesis
    using next_year(1) log_of_calendar [OF assms(1)] log_of_calendar [OF assms(2)] year_length [of ?y]
    by (simp add: YEAR_SECS_def split: if_splits)
qed

lemma skipped_bounds: "0 \<le> skipped_secs a b" "skipped_secs a b \<le> 86400" "calendar_secs a = calendar_secs b \<Longrightarrow> skipped_secs a b = 0"
  by (auto simp: skipped_secs_def leap_day_skipped_def)

text \<open>
  C30: the log prints its times without the year. Still, whatever the years, of two moments of the calendar less than
  182 days apart, read back from their stamps, one is newer exactly when it is later; and the age of the earlier one is
  the time that really passed, also when New Year lies in between, except that it is a day longer when the end of the
  February of a common year lies in between, because the clock counts a 29th in every year.
\<close>

theorem new_year_transparent:
  assumes "on_calendar a" "on_calendar b" "stamp_of a s" "stamp_of b t"
    "\<bar>calendar_secs a - calendar_secs b\<bar> < 182 * 86400"
  shows "\<exists>now line. parse_ts_secs s = Some now \<and> parse_ts_secs t = Some line \<and>
    (newer_than now line \<longleftrightarrow> calendar_secs b < calendar_secs a) \<and>
    (calendar_secs b \<le> calendar_secs a \<longrightarrow>
       age_secs now line = calendar_secs a - calendar_secs b + (if leap_day_skipped b a then 86400 else 0))"
proof -
  have "newer_than (log_clock a) (log_clock b) \<longleftrightarrow> calendar_secs b < calendar_secs a"
  proof (cases "calendar_secs b \<le> calendar_secs a")
    case True
    let ?d = "calendar_secs a - calendar_secs b + skipped_secs b a"
    have "newer_than (log_clock a) (log_clock b) = newer_than (log_clock b + ?d) (log_clock b)"
      using log_distance [OF assms(2,1) True] assms(5) True newer_shift(1) by (auto split: if_splits)
    also have "\<dots> \<longleftrightarrow> 0 < ?d"
      using newer_within [of "log_clock b + ?d" "log_clock b"] True assms(5) skipped_bounds(1,2) [of b a]
      by (auto simp: YEAR_SECS_def)
    finally show ?thesis
      using True skipped_bounds(1,3) [of b a] by (cases "calendar_secs b = calendar_secs a") auto
  next
    case False
    let ?d = "calendar_secs b - calendar_secs a + skipped_secs a b"
    have "newer_than (log_clock a) (log_clock b) = newer_than (log_clock a) (log_clock a + ?d)"
      using log_distance [OF assms(1,2)] assms(5) False newer_shift(2) by (auto split: if_splits)
    then show ?thesis
      using newer_within [of "log_clock a" "log_clock a + ?d"] False assms(5) skipped_bounds(1,2) [of a b]
      by (auto simp: YEAR_SECS_def)
  qed
  moreover have "age_secs (log_clock a) (log_clock b) = calendar_secs a - calendar_secs b + skipped_secs b a"
    if le: "calendar_secs b \<le> calendar_secs a"
  proof -
    let ?d = "calendar_secs a - calendar_secs b + skipped_secs b a"
    have small: "0 \<le> ?d" "?d < YEAR_SECS / 2"
      using le assms(5) skipped_bounds(1,2) [of b a] by (auto simp: YEAR_SECS_def)
    have "log_clock a - log_clock b = ?d - (if ct_year a = ct_year b then 0 else YEAR_SECS)"
      using log_distance [OF assms(2,1) le] assms(5) le by auto
    then show ?thesis
      using small rem_euclid_back [of YEAR_SECS "?d - YEAR_SECS"]
      by (auto simp: age_secs_def Let_def YEAR_SECS_def FUTURE_SKEW_TOLERANCE_SECS_def split: if_splits)
  qed
  ultimately show ?thesis
    using parse_stamp [OF assms(1,3)] parse_stamp [OF assms(2,4)] by (simp add: skipped_secs_def)
qed

text \<open>A minute after midnight of New Year 2024, and a line of the minute before midnight.\<close>

definition sample_time :: "nat \<Rightarrow> nat \<Rightarrow> nat \<Rightarrow> nat \<Rightarrow> nat \<Rightarrow> calendar_time" where
  "sample_time y mo d h mi = \<lparr>ct_year = y, ct_month = mo, ct_day = d, ct_hour = h, ct_min = mi, ct_sec = 0, ct_ms = 0\<rparr>"

theorem new_year_transparent_witness:
  "\<exists>now line. parse_ts_secs ''01-01 00:01:00'' = Some now \<and> parse_ts_secs ''12-31 23:59:00.000'' = Some line \<and>
    newer_than now line \<and> age_secs now line = 120"
proof -
  let ?a = "sample_time 2024 1 1 0 1" and ?b = "sample_time 2023 12 31 23 59"
  have valid: "on_calendar ?a" "on_calendar ?b"
    by (simp_all add: sample_time_def on_calendar_def days_in_month_def)
  have stamps: "stamp_of ?a ''01-01 00:01:00''" "stamp_of ?b ''12-31 23:59:00.000''"
    by (simp_all add: sample_time_def stamp_of_def log_stamp_def date_stamp_def pad2_def pad3_def char_of_def bit_Suc_0_iff)
  have year: "days_before_year 2024 = days_before_year 2023 + 365"
    using days_before_year.simps(2) [of 2023] by (simp add: leap_year_def)
  then have dist: "calendar_secs ?a - calendar_secs ?b = 120"
    by (simp add: calendar_secs_def sample_time_def day_secs_def days_before_month_def days_in_month_def leap_year_def upt_rec)
  have "\<not> leap_day_skipped ?b ?a"
    using skipped_next_year [OF valid(2,1)] by (simp add: sample_time_def)
  then show ?thesis
    using new_year_transparent [OF valid stamps] dist by auto
qed

end
