(* ===== verification/CrashScanProps.thy ===== *)
theory CrashScanProps
  imports CrashClock CrashLogProps
begin

text \<open>
  What scanning promises: a dump is read as the stream was; the probe reports what is new; and a read of the log
  accounts for every line it matched.
\<close>

section \<open>A dump and the stream\<close>

text \<open>A report without what only a watcher adds: the time it was read, the context, the device.\<close>

definition bare_event :: "crash_event \<Rightarrow> crash_event" where
  "bare_event e = e\<lparr>ce_ts := 0, ce_context := [], ce_device_info := JNull\<rparr>"

lemma bare_java: "bare_event (java_message lx msg e) = java_message lx msg (bare_event e)"
  by (auto simp: bare_event_def java_message_def push_frame_def Let_def split: option.splits)

lemma bare_native: "bare_event (native_message lx pid msg e) = native_message lx pid msg (bare_event e)"
  by (auto simp: bare_event_def native_message_def Let_def split: option.splits)

lemma bare_fold_java: "bare_event (fold (java_message lx) msgs e) = fold (java_message lx) msgs (bare_event e)"
  by (induction msgs arbitrary: e) (simp_all add: bare_java)

lemma bare_fold_native: "bare_event (fold (native_message lx pid) msgs e) = fold (native_message lx pid) msgs (bare_event e)"
  by (induction msgs arbitrary: e) (simp_all add: bare_native)

lemma bare_built:
  "bare_event (build_java_event lx now lines pid) = bare_event (build_java_event lx now' lines pid)"
  "bare_event (build_native_event lx now lines pid) = bare_event (build_native_event lx now' lines pid)"
  "bare_event (build_anr_event lx now l) = bare_event (build_anr_event lx now' l)"
  by (simp_all add: build_java_event_def build_native_event_def build_anr_event_def bare_fold_java bare_fold_native)
     (simp_all add: bare_event_def)

text \<open>Two collectors that differ only in when a line was last seen.\<close>

definition same_block :: "collector \<Rightarrow> collector \<Rightarrow> bool" where
  "same_block c d \<longleftrightarrow> c\<lparr>cc_last_seen := None\<rparr> = d\<lparr>cc_last_seen := None\<rparr>"

lemma same_block_fields:
  "same_block c d \<longleftrightarrow>
     cc_buffer c = cc_buffer d \<and> cc_kind c = cc_kind d \<and> cc_pid c = cc_pid d \<and> cc_tombstone_pid c = cc_tombstone_pid d"
  by (cases c; cases d) (auto simp: same_block_def)

lemma finalize_same:
  assumes "same_block c d"
  shows "same_block (fst (finalize_now lx now c)) (fst (finalize_now lx now' d))"
    "map_option bare_event (snd (finalize_now lx now c)) = map_option bare_event (snd (finalize_now lx now' d))"
  using assms bare_built
  by (auto simp: same_block_fields finalize_now_def collector_new_def split: option.splits crash_kind.splits)

lemma tombstone_same:
  assumes "same_block c d"
  shows "same_block (fst (accepts_tombstone_line lx l c)) (fst (accepts_tombstone_line lx l d)) \<and>
    snd (accepts_tombstone_line lx l c) = snd (accepts_tombstone_line lx l d)"
  using assms by (auto simp: same_block_fields accepts_tombstone_line_def split: option.splits)

lemma keep_same: "same_block c d \<Longrightarrow> same_block (keep_line t line c) (keep_line t' line d)"
  by (simp add: same_block_fields keep_line_def)

lemma handle_same:
  assumes "same_block c d"
  shows "same_block (fst (handle_line lx m line c)) (fst (handle_line lx m' line d)) \<and>
    map bare_event (snd (handle_line lx m line c)) = map bare_event (snd (handle_line lx m' line d))"
proof (cases "parse_log_line lx line")
  case None
  then show ?thesis
    using assms keep_same [OF assms] by (simp add: handle_line_def Let_def same_block_fields keep_line_def)
next
  case (Some l)
  have fields: "cc_buffer c = cc_buffer d" "cc_kind c = cc_kind d" "cc_pid c = cc_pid d"
    using assms by (simp_all add: same_block_fields)
  obtain c1 p d1 q where ended: "finalize_now lx (snd m) c = (c1, p)" "finalize_now lx (snd m') d = (d1, q)"
    by fastforce
  have ended_same: "same_block c1 d1" "map_option bare_event p = map_option bare_event q"
    using finalize_same [OF assms, of lx "snd m" "snd m'"] ended by simp_all
  obtain c2 d2 ok where tomb: "accepts_tombstone_line lx l c = (c2, ok)" "accepts_tombstone_line lx l d = (d2, ok)"
    "same_block c2 d2"
    using tombstone_same [OF assms, of lx l]
    by (cases "accepts_tombstone_line lx l c"; cases "accepts_tombstone_line lx l d") simp
  have reports: "map bare_event (case p of None \<Rightarrow> [] | Some e \<Rightarrow> [e]) = map bare_event (case q of None \<Rightarrow> [] | Some e \<Rightarrow> [e])"
    using ended_same(2) by (cases p; cases q) simp_all
  consider (anr) "is_anr_line l" | (start) "\<not> is_anr_line l" "is_java_start l \<or> is_native_start lx l"
    | (inside) "\<not> is_anr_line l" "\<not> (is_java_start l \<or> is_native_start lx l)"
    by blast
  then show ?thesis
  proof cases
    case anr
    then show ?thesis
      using assms Some bare_built(3) by (simp add: handle_line_def Let_def)
  next
    case start
    then show ?thesis
      using Some ended_same(1) reports
      by (simp only: handle_line_def Let_def option.case if_False if_True ended prod.case fst_conv snd_conv)
         (simp add: same_block_fields)
  next
    case inside
    let ?tomb = "cc_buffer d \<noteq> [] \<and> cc_kind d = Some NativeCrash \<and> ll_tag l = ''DEBUG'' \<and> Some (ll_pid l) \<noteq> cc_pid d"
    show ?thesis
    proof (cases ?tomb)
      case True
      then show ?thesis
        using Some inside tomb(3) keep_same [OF tomb(3)] by (simp add: handle_line_def Let_def fields tomb(1,2))
    next
      case False
      then show ?thesis
        using Some inside assms keep_same [OF assms]
        by (simp only: handle_line_def Let_def option.case if_False fields split: if_split) (simp, blast)
    qed
  qed
qed

text \<open>The lines a watcher read, and the ticks of its quiet timer that found no block that had gone quiet.\<close>

definition lines_read :: "crash_input list \<Rightarrow> string list" where
  "lines_read inputs = List.map_filter (\<lambda>i. case i of LineRead m line \<Rightarrow> Some line | QuietTick m \<Rightarrow> None) inputs"

fun uninterrupted :: "log_ext \<Rightarrow> crash_input list \<Rightarrow> collector \<Rightarrow> bool" where
  "uninterrupted lx [] c \<longleftrightarrow> True"
| "uninterrupted lx (LineRead m line # inputs) c \<longleftrightarrow> uninterrupted lx inputs (fst (handle_line lx m line c))"
| "uninterrupted lx (QuietTick m # inputs) c \<longleftrightarrow>
     snd (finalize_if_quiet lx m QUIET_WINDOW c) = None \<and> uninterrupted lx inputs c"

text \<open>The lines of a dump, less the first that carries the device's time.\<close>

fun without_now :: "string list \<Rightarrow> string list" where
  "without_now [] = []"
| "without_now (line # lines) = (if now_line None line = None then line # without_now lines else lines)"

lemma scan_loop_known:
  "snd (scan_loop lx m lines (Some now) c) = crash_run lx (map (LineRead m) lines) c"
  by (induction lines arbitrary: c) (simp_all add: now_line_def crash_step_def Let_def split_beta prod_eq_iff)

lemma scan_loop_run: "snd (scan_loop lx m lines None c) = crash_run lx (map (LineRead m) (without_now lines)) c"
  by (induction lines arbitrary: c)
     (auto simp: scan_loop_known crash_step_def Let_def split_beta prod_eq_iff split: option.splits)

lemma idle_tick: "snd (finalize_if_quiet lx m quiet c) = None \<Longrightarrow> finalize_if_quiet lx m quiet c = (c, None)"
  by (auto simp: finalize_if_quiet_def finalize_now_def split: option.splits if_splits)

lemma runs_agree:
  assumes "same_block c d" "uninterrupted lx inputs d"
  shows "same_block (fst (crash_run lx (map (LineRead m) (lines_read inputs)) c)) (fst (crash_run lx inputs d)) \<and>
    map bare_event (snd (crash_run lx (map (LineRead m) (lines_read inputs)) c)) = map bare_event (snd (crash_run lx inputs d))"
  using assms
proof (induction inputs arbitrary: c d)
  case Nil
  then show ?case
    by (simp add: lines_read_def List.map_filter_simps)
next
  case (Cons i inputs)
  show ?case
  proof (cases i)
    case (LineRead m' line)
    have next_line: "same_block (fst (handle_line lx m line c)) (fst (handle_line lx m' line d))"
      "map bare_event (snd (handle_line lx m line c)) = map bare_event (snd (handle_line lx m' line d))"
      using handle_same [OF Cons.prems(1)] by blast+
    show ?thesis
      using Cons.IH [OF next_line(1)] Cons.prems(2) next_line LineRead
      by (simp add: lines_read_def List.map_filter_simps crash_step_def Let_def split_beta)
  next
    case (QuietTick m')
    then show ?thesis
      using Cons.IH [OF Cons.prems(1)] Cons.prems(2) idle_tick [of lx m' QUIET_WINDOW d]
      by (simp add: lines_read_def List.map_filter_simps crash_step_def Let_def split_beta)
  qed
qed

text \<open>Both sides keep the same packages: a report without a package is kept.\<close>

lemma emitted_bare:
  "map bare_event (concat (map (emit_if_matches fetch package) xs)) = map bare_event (filter (wanted_crash package) xs)"
  by (induction xs) (auto simp: emit_if_matches_def wanted_crash_def bare_event_def split: option.splits)

lemma wanted_bare [simp]: "wanted_crash package (bare_event e) = wanted_crash package e"
  by (cases package) (simp_all add: wanted_crash_def bare_event_def)

lemma filter_bare: "map bare_event (filter (wanted_crash package) xs) = filter (wanted_crash package) (map bare_event xs)"
  by (induction xs) simp_all

text \<open>
  C31: a dump of the log is read as the stream was. Take a watcher that reads the lines of the dump in their order, each
  when it comes, but for the first line that carries the device's time, and whose quiet timer, however often it ticks,
  never finds a crash that has been quiet for a second: it reports, under any package filter, the crashes that the scan of the
  dump finds under it, in the same order, with all their fields except the time of reading, the context and the device.
\<close>

theorem dump_agrees_with_watch:
  assumes "lines_read inputs = without_now lines" "uninterrupted lx inputs collector_new"
  shows "map (bare_event \<circ> sc_event) (cn_crashes (scan_lines lx digest m lines package)) =
    map bare_event (run_crashes lx fetch package inputs end_time)"
proof -
  obtain now c es where scan: "scan_loop lx m lines None collector_new = (now, c, es)"
    by (cases "scan_loop lx m lines None collector_new")
  obtain d fs where run: "crash_run lx inputs collector_new = (d, fs)"
    by (cases "crash_run lx inputs collector_new")
  have "crash_run lx (map (LineRead m) (lines_read inputs)) collector_new = (c, es)"
    using scan_loop_run [of lx m lines collector_new] scan assms(1) by simp
  then have same: "same_block c d" "map bare_event es = map bare_event fs"
    using runs_agree [of collector_new collector_new lx inputs m] assms(2) run by (simp_all add: same_block_def)
  have rest: "map bare_event (case snd (finalize_now lx (snd m) c) of None \<Rightarrow> [] | Some e \<Rightarrow> [e]) =
      map bare_event (case snd (finalize_now lx end_time d) of None \<Rightarrow> [] | Some e \<Rightarrow> [e])"
    using finalize_same(2) [OF same(1), of lx "snd m" end_time]
    by (cases "snd (finalize_now lx (snd m) c)"; cases "snd (finalize_now lx end_time d)") simp_all
  show ?thesis
    using scan run same(2) rest
    by (simp add: scan_lines_def run_crashes_def scanned_def Let_def comp_def emitted_bare filter_bare del: map_append filter_append)
       (simp add: filter_bare)
qed

section \<open>The probe\<close>

text \<open>Probes one after the other: the cursor before each, and what it reported.\<close>

fun probe_run ::
  "crash_cursor option \<Rightarrow> crash_scan option list \<Rightarrow> (crash_cursor option \<times> scanned_crash list) list" where
  "probe_run state [] = []"
| "probe_run state (scan # scans) =
     (case probe_once state scan of (state', fresh) \<Rightarrow> (state, fresh) # probe_run state' scans)"

definition known_prints :: "crash_cursor option \<Rightarrow> string list" where
  "known_prints state = (case state of None \<Rightarrow> [] | Some cursor \<Rightarrow> cu_fingerprints cursor)"

lemma last_n_last_n: "last_n n (last_n n xs @ ys) = last_n n (xs @ ys)"
  by (cases "length xs \<le> n") (auto simp: last_n_def add.commute)

lemma last_n_short: "length xs \<le> n \<Longrightarrow> last_n n xs = xs"
  by (simp add: last_n_def)

lemma probe_prints:
  assumes "probe_once state scan = (state', fresh)" "length (known_prints state) \<le> MAX_FINGERPRINTS"
  shows "known_prints state' = last_n MAX_FINGERPRINTS (known_prints state @ map sc_fingerprint fresh)"
  using assms
  by (auto simp: probe_once_def known_prints_def last_n_def Let_def split: option.splits if_splits)

lemma last_n_length: "length (last_n n xs) \<le> n"
  by (simp add: last_n_def)

lemma probe_run_prints:
  assumes "length (known_prints state) \<le> MAX_FINGERPRINTS" "j < length scans"
  shows "known_prints (fst (probe_run state scans ! j)) =
      last_n MAX_FINGERPRINTS (known_prints state @ map sc_fingerprint (concat (take j (map snd (probe_run state scans))))) \<and>
    snd (probe_run state scans ! j) = snd (probe_once (fst (probe_run state scans ! j)) (scans ! j))"
  using assms
proof (induction scans arbitrary: state j)
  case (Cons scan scans)
  obtain state' fresh where one: "probe_once state scan = (state', fresh)"
    by (cases "probe_once state scan")
  show ?case
  proof (cases j)
    case 0
    then show ?thesis
      using one Cons.prems by (simp add: last_n_short)
  next
    case (Suc i)
    have "length (known_prints state') \<le> MAX_FINGERPRINTS"
      using probe_prints [OF one Cons.prems(1)] last_n_length by metis
    then show ?thesis
      using Cons.IH [of state' i] Cons.prems Suc one probe_prints [OF one Cons.prems(1)]
      by (simp add: last_n_last_n)
  qed
qed simp

text \<open>The cursor after a probe that read the time of the device, kept by the probes that could not.\<close>

definition scan_time :: "crash_scan option \<Rightarrow> rat option" where
  "scan_time scan = Option.bind scan cn_now_secs"

lemma probe_cursor:
  "scan_time scan = Some now \<Longrightarrow> \<exists>cursor. fst (probe_once state scan) = Some cursor \<and> cu_ts_secs cursor = now - CURSOR_SLACK_SECS"
  "scan_time scan = None \<Longrightarrow> probe_once state scan = (state, [])"
  by (auto simp: scan_time_def probe_once_def Let_def bind_eq_None_conv split: option.splits)

lemma probe_run_next:
  "Suc i < length scans \<Longrightarrow> fst (probe_run state scans ! Suc i) = fst (probe_once (fst (probe_run state scans ! i)) (scans ! i))"
proof (induction scans arbitrary: state i)
  case (Cons scan scans)
  then show ?case
    by (cases i; cases scans) (auto split: prod.split)
qed simp

lemma cursor_kept:
  assumes "i < j" "j < length scans" "scan_time (scans ! i) = Some before" "\<forall>k \<in> {i<..<j}. scan_time (scans ! k) = None"
  shows "\<exists>cursor. fst (probe_run state scans ! j) = Some cursor \<and> cu_ts_secs cursor = before - CURSOR_SLACK_SECS"
  using assms
proof (induction j)
  case (Suc j)
  have next_cursor: "fst (probe_run state scans ! Suc j) = fst (probe_once (fst (probe_run state scans ! j)) (scans ! j))"
    using Suc.prems(2) by (rule probe_run_next)
  show ?case
  proof (cases "i = j")
    case True
    then show ?thesis
      using next_cursor Suc.prems(3) probe_cursor(1) by metis
  next
    case False
    then have "i < j" "scan_time (scans ! j) = None"
      using Suc.prems(1,4) by auto
    then show ?thesis
      using next_cursor Suc.IH Suc.prems probe_cursor(2) by fastforce
  qed
qed simp

text \<open>The crashes the probes before the j-th have reported.\<close>

definition told_before :: "(crash_cursor option \<times> scanned_crash list) list \<Rightarrow> nat \<Rightarrow> string list" where
  "told_before run j = map sc_fingerprint (concat (take j (map snd run)))"

text \<open>
  C32: between commands, what is new is reported. In any sequence of probes that starts from a cursor without
  fingerprints, some of which may fail to read the log or the time: when the last probe before the j-th that succeeded read
  the time \<open>before\<close>, the j-th reports, in their order and number, exactly the crashes of its scan whose time is newer than two
  seconds before that time and whose fingerprints are not among the last 32 that were reported. So while no more than 32
  were reported, no fingerprint is reported twice by different probes; nor by one whose scan holds each once.
\<close>

theorem probe_reports_new_once:
  assumes "known_prints state = []" "i < j" "j < length scans" "scan_time (scans ! i) = Some before"
    "\<forall>k \<in> {i<..<j}. scan_time (scans ! k) = None" "scans ! j = Some scan" "cn_now_secs scan \<noteq> None"
    "told = told_before (probe_run state scans) j" "reported = snd (probe_run state scans ! j)"
  shows "reported =
      filter (\<lambda>c. (\<exists>ts. sc_ts_secs c = Some ts \<and> newer_than ts (before - 2)) \<and>
          sc_fingerprint c \<notin> set (last_n 32 told)) (cn_crashes scan) \<and>
    (length told \<le> 32 \<longrightarrow> set told \<inter> sc_fingerprint ` set reported = {}) \<and>
    (distinct (map sc_fingerprint (cn_crashes scan)) \<longrightarrow> distinct (map sc_fingerprint reported))"
proof -
  obtain cursor where cursor: "fst (probe_run state scans ! j) = Some cursor" "cu_ts_secs cursor = before - CURSOR_SLACK_SECS"
    using cursor_kept [OF assms(2,3,4,5)] by blast
  have "length (known_prints state) \<le> MAX_FINGERPRINTS"
    using assms(1) by simp
  then have prints: "cu_fingerprints cursor = last_n MAX_FINGERPRINTS told"
    and report: "reported = snd (probe_once (Some cursor) (Some scan))"
    using probe_run_prints [OF _ assms(3), of state] assms(1,6,8,9) cursor(1) by (simp_all add: known_prints_def told_before_def)
  obtain now where "cn_now_secs scan = Some now"
    using assms(7) by auto
  then have "reported = filter (fresh_crash cursor) (cn_crashes scan)"
    unfolding report by (simp add: probe_once_def Let_def)
  moreover have "fresh_crash cursor = (\<lambda>c. (\<exists>ts. sc_ts_secs c = Some ts \<and> newer_than ts (before - 2)) \<and>
      sc_fingerprint c \<notin> set (last_n 32 told))"
    using prints cursor(2) by (intro ext) (auto simp: fresh_crash_def CURSOR_SLACK_SECS_def MAX_FINGERPRINTS_def split: option.splits)
  ultimately have exact: "reported = filter (\<lambda>c. (\<exists>ts. sc_ts_secs c = Some ts \<and> newer_than ts (before - 2)) \<and>
      sc_fingerprint c \<notin> set (last_n 32 told)) (cn_crashes scan)"
    by (simp cong: filter_cong)
  then show ?thesis
    using last_n_short [of told 32] by (auto simp: distinct_map_filter)
qed

definition sample_crash :: scanned_crash where
  "sample_crash =
     \<lparr>sc_event = no_event\<lparr>ce_kind := ''java''\<rparr>, sc_ts_raw = ''06-05 12:00:04.000'', sc_ts_secs = Some 99,
      sc_fingerprint = ''0123456789abcdef''\<rparr>"

definition sample_scan :: "rat \<Rightarrow> crash_scan option" where
  "sample_scan now = Some \<lparr>cn_now_raw = Some ''06-05 12:00:05'', cn_now_secs = Some now, cn_crashes = [sample_crash]\<rparr>"

lemma sample_probes:
  "map snd (probe_run None [sample_scan 100, sample_scan 101, sample_scan 102]) = [[], [sample_crash], []]"
proof -
  have "newer_than 99 98" "newer_than 99 99 = False"
    by (subst newer_within; simp add: YEAR_SECS_def)+
  then show ?thesis
    by (simp add: probe_once_def sample_scan_def sample_crash_def CURSOR_SLACK_SECS_def fresh_crash_def MAX_FINGERPRINTS_def Let_def)
qed

theorem probe_reports_new_once_witness:
  "snd (probe_run None [sample_scan 100, None, sample_scan 101] ! 2) = [sample_crash]"
proof -
  have "newer_than 99 98"
    by (subst newer_within; simp add: YEAR_SECS_def)
  moreover have "told_before (probe_run None [sample_scan 100, None, sample_scan 101]) 2 = []"
    by (simp add: told_before_def probe_once_def sample_scan_def Let_def)
  moreover have "\<forall>k \<in> {0<..<2::nat}. scan_time ([sample_scan 100, None, sample_scan 101] ! k) = None"
    by (auto simp: scan_time_def less_2_cases_iff)
  ultimately show ?thesis
    using probe_reports_new_once [where state = None and i = 0 and j = 2 and before = 100
        and scans = "[sample_scan 100, None, sample_scan 101]" and scan = "the (sample_scan 101)",
        OF _ _ _ _ _ _ _ refl refl]
    by (simp add: known_prints_def sample_scan_def scan_time_def sample_crash_def last_n_def)
qed

text \<open>
  The first probe is to set the cursor without reporting history. It sets it two seconds back, and remembers
  none of the crashes it saw: one of the last two seconds is reported by the second probe.
\<close>

lemma first_probe_history_resurfaces:
  "snd (probe_once None (sample_scan 100)) = [] \<and>
   snd (probe_once (fst (probe_once None (sample_scan 100))) (sample_scan 101)) = [sample_crash]"
  using sample_probes by (auto simp: sample_scan_def probe_once_def Let_def split: prod.splits)

text \<open>In a year without a 29th of February, the first of March looks a day later than it is.\<close>

lemma march_gap: "time_secs 3 1 0 0 30 0 - time_secs 2 28 23 59 30 0 = 86400 + 60"
  by (simp add: time_secs_def CUM_DAYS_def)

section \<open>Reading the log\<close>

definition entry_count :: "log_entry \<Rightarrow> nat" where
  "entry_count e = (case le_repeat e of None \<Rightarrow> 1 | Some n \<Rightarrow> n)"

text \<open>The lines a read of the log matches.\<close>

definition matched_line ::
  "log_ext \<Rightarrow> log_query \<Rightarrow> log_snapshot \<Rightarrow> string option \<Rightarrow> int list \<Rightarrow> string \<Rightarrow> bool" where
  "matched_line lx q snap package crash_pids raw \<longleftrightarrow>
     (case parse_log_line lx raw of
        None \<Rightarrow> False
      | Some l \<Rightarrow>
          in_window (ls_now_secs snap) (lq_window q) (parse_ts_secs (ll_ts l)) \<and>
          (package = None \<or> ll_pid l \<in> set (ls_pids snap) \<or> ll_pid l \<in> set crash_pids) \<and>
          line_wanted q crash_pids l)"

definition entry_text :: "log_entry \<Rightarrow> string \<times> string \<times> string" where
  "entry_text e = (le_level e, le_tag e, le_msg e)"

definition expand_entries :: "log_entry list \<Rightarrow> (string \<times> string \<times> string) list" where
  "expand_entries es = concat (map (\<lambda>e. replicate (entry_count e) (entry_text e)) es)"

lemma push_entry_expands:
  "expand_entries (push_entry no_dedup l es) = expand_entries es @ [(ll_level l, ll_tag l, ll_msg l)]"
proof (cases "\<not> no_dedup \<and> es \<noteq> [] \<and> same_entry (last es) l")
  case True
  then obtain es0 e where es: "es = es0 @ [e]"
    by (metis append_butlast_last_id)
  then show ?thesis
    using True
    by (auto simp: push_entry_def expand_entries_def entry_count_def entry_text_def same_entry_def Let_def
        replicate_append_same [symmetric] split: option.splits)
next
  case False
  then show ?thesis
    by (auto simp: push_entry_def expand_entries_def entry_count_def entry_text_def)
qed

lemma log_steps_expand:
  "expand_entries (fst (fold (log_step lx q snap package pids) lines st)) =
    expand_entries (fst st) @
    List.map_filter (\<lambda>raw. if matched_line lx q snap package pids raw
      then map_option (\<lambda>l. (ll_level l, ll_tag l, ll_msg l)) (parse_log_line lx raw) else None) lines"
proof (induction lines arbitrary: st)
  case (Cons raw lines)
  show ?case
  proof (cases "parse_log_line lx raw")
    case None
    then show ?thesis
      using Cons by (simp add: log_step_def matched_line_def List.map_filter_simps)
  next
    case (Some l)
    then show ?thesis
      using Cons by (auto simp: log_step_def matched_line_def List.map_filter_simps push_entry_expands)
  qed
qed (simp add: List.map_filter_simps)

lemma log_read_run:
  assumes "pids = List.map_filter (\<lambda>c. ce_pid (sc_event c)) (lr_crashes (log_read lx digest m q package snap))"
    "fold (log_step lx q snap package pids) (ls_lines snap) ([], False) = (entries, truncated)"
  shows "lr_entries (log_read lx digest m q package snap) = drop (length entries - lq_max q) entries"
    "lr_dropped (log_read lx digest m q package snap) = length entries - lq_max q"
proof -
  have "lr_crashes (log_read lx digest m q package snap) =
      filter (\<lambda>c. in_window (ls_now_secs snap) (lq_window q) (sc_ts_secs c)) (cn_crashes (scan_lines lx digest m (ls_lines snap) package))"
    by (simp add: log_read_def Let_def split: prod.split)
  then show "lr_entries (log_read lx digest m q package snap) = drop (length entries - lq_max q) entries"
    "lr_dropped (log_read lx digest m q package snap) = length entries - lq_max q"
    using assms by (simp_all add: log_read_def Let_def)
qed

text \<open>
  C33: reading the log loses no matching line unannounced: with the repetitions written out, the entries are
  exactly the level, tag and message of the lines that match, in order, up to the entries reported as dropped at the front.
\<close>

theorem log_read_conserves:
  assumes "report = log_read lx digest m q package snap"
    "pids = List.map_filter (\<lambda>c. ce_pid (sc_event c)) (lr_crashes report)"
  shows "\<exists>front. length front = lr_dropped report \<and> length (lr_entries report) \<le> lq_max q \<and>
    expand_entries (front @ lr_entries report) =
      List.map_filter (\<lambda>raw. if matched_line lx q snap package pids raw
        then map_option (\<lambda>l. (ll_level l, ll_tag l, ll_msg l)) (parse_log_line lx raw) else None) (ls_lines snap)"
proof -
  obtain entries truncated where run:
    "fold (log_step lx q snap package pids) (ls_lines snap) ([], False) = (entries, truncated)"
    by (cases "fold (log_step lx q snap package pids) (ls_lines snap) ([], False)")
  have report: "lr_entries report = drop (length entries - lq_max q) entries" "lr_dropped report = length entries - lq_max q"
    using log_read_run [OF _ run] assms by simp_all
  have "expand_entries entries =
      List.map_filter (\<lambda>raw. if matched_line lx q snap package pids raw
        then map_option (\<lambda>l. (ll_level l, ll_tag l, ll_msg l)) (parse_log_line lx raw) else None) (ls_lines snap)"
    using log_steps_expand [of lx q snap package pids "ls_lines snap" "([], False)"] run by (simp add: expand_entries_def)
  then show ?thesis
    using report by (intro exI [of _ "take (length entries - lq_max q) entries"]) simp
qed

text \<open>A log of two equal lines, read with a pattern of lines that takes a text apart at bars.\<close>

definition bar_lx :: log_ext where
  "bar_lx =
     \<lparr>lx_line = (\<lambda>line. case split_str ''|'' line of [pid, level, tag, msg] \<Rightarrow> Some (''06-05 12:00:00.000'', pid, level, tag, msg) | _ \<Rightarrow> None),
      lx_fatal_header = (\<lambda>s. None), lx_process = (\<lambda>s. None), lx_exception = (\<lambda>s. None), lx_at = (\<lambda>s. None),
      lx_caused_by = (\<lambda>s. None), lx_native_fatal = (\<lambda>s. None), lx_pid_line = (\<lambda>s. None), lx_anr = (\<lambda>s. None)\<rparr>"

definition bar_query :: log_query where
  "bar_query = \<lparr>lq_min_rank = None, lq_tags = [], lq_grep = None, lq_window = 60, lq_max = 10, lq_no_dedup = False\<rparr>"

definition bar_snapshot :: log_snapshot where
  "bar_snapshot = \<lparr>ls_now_secs = None, ls_now_raw = None, ls_pids = [], ls_lines = [''7|I|T|hello'', ''7|I|T|hello'']\<rparr>"

theorem log_read_conserves_witness:
  "\<exists>front. expand_entries (front @ lr_entries (log_read bar_lx id (0, 0) bar_query None bar_snapshot)) =
    List.map_filter (\<lambda>raw. if matched_line bar_lx bar_query bar_snapshot None
        (List.map_filter (\<lambda>c. ce_pid (sc_event c)) (lr_crashes (log_read bar_lx id (0, 0) bar_query None bar_snapshot))) raw
      then map_option (\<lambda>l. (ll_level l, ll_tag l, ll_msg l)) (parse_log_line bar_lx raw) else None) [''7|I|T|hello'', ''7|I|T|hello'']"
  using log_read_conserves [OF refl refl, of bar_lx id "(0, 0)" bar_query None bar_snapshot]
  by (auto simp: bar_snapshot_def)

text \<open>A dump that starts with the device's time, and a watcher whose timer ticks after half a second.\<close>

lemma marker_line: "now_line None ''SD_NOW=06-05 12:00:05'' \<noteq> None" "now_line None ''7|E|AndroidRuntime|FATAL EXCEPTION: main'' = None"
proof -
  have "str_trim ''SD_NOW=06-05 12:00:05'' = ''SD_NOW=06-05 12:00:05''"
    "str_trim ''7|E|AndroidRuntime|FATAL EXCEPTION: main'' = ''7|E|AndroidRuntime|FATAL EXCEPTION: main''"
    by (rule trim_visible_ends; simp)+
  then show "now_line None ''SD_NOW=06-05 12:00:05'' \<noteq> None" "now_line None ''7|E|AndroidRuntime|FATAL EXCEPTION: main'' = None"
    by (simp_all add: now_line_def NOW_MARKER_def starts_with_def)
qed

theorem dump_agrees_with_watch_witness:
  "map (bare_event \<circ> sc_event) (cn_crashes (scan_lines bar_lx id (0, 0)
      [''SD_NOW=06-05 12:00:05'', ''7|E|AndroidRuntime|FATAL EXCEPTION: main''] None)) =
    map bare_event (run_crashes bar_lx (\<lambda>e. ([], JNull)) None
      [LineRead (100, 1) ''7|E|AndroidRuntime|FATAL EXCEPTION: main'', QuietTick (600, 2)] 3)"
proof -
  let ?line = "''7|E|AndroidRuntime|FATAL EXCEPTION: main''"
  have seen: "cc_last_seen (fst (handle_line bar_lx (100, 1) ?line collector_new)) \<in> {None, Some 100}"
    by (auto simp: handle_line_def collector_new_def finalize_now_def Let_def split: option.splits)
  then have "uninterrupted bar_lx [LineRead (100, 1) ?line, QuietTick (600, 2)] collector_new"
    by (auto simp: finalize_if_quiet_def QUIET_WINDOW_def)
  then show ?thesis
    using marker_line
    by (intro dump_agrees_with_watch) (simp_all add: lines_read_def List.map_filter_simps)
qed

end
