(* ===== verification/PortMap.thy ===== *)
theory PortMap
  imports FaultShell Machine
begin

text \<open>
  Host ports of devices (\<^verbatim>\<open>device/portmap.rs\<close>, \<^verbatim>\<open>stable_file_component\<close> of \<^verbatim>\<open>ids.rs\<close>, \<^verbatim>\<open>forward\<close> of \<^verbatim>\<open>device/adb.rs\<close>): every device
  and channel keeps its host port in a slot, a file of a shared directory; a port is handed out under a
  machine-wide lock, to a slot no other slot shares it with, and forwarded through the ADB server.

  The directory is a list of files with their contents (None for one that cannot be read), each name once.
  What holds the lock is one step. The ADB server, the operating system's choice of free ports and the
  health of the disk are functions on the outside state.
\<close>

section \<open>File names\<close>

definition safe_char :: "nat \<Rightarrow> bool" where
  "safe_char c \<longleftrightarrow>
     48 \<le> c \<and> c \<le> 57 \<or> 65 \<le> c \<and> c \<le> 90 \<or> 97 \<le> c \<and> c \<le> 122 \<or> c = 45 \<or> c = 95 \<or> c = 46"

definition hex_byte :: "byte \<Rightarrow> string" where
  "hex_byte b = hex_pad 2 (unat b)"

definition name_prefix :: "string \<Rightarrow> string" where
  "name_prefix s =
     (let p = map (\<lambda>c. if safe_char c then char_of c else CHR ''_'') (take 40 (str_chars s))
      in if p = [] then ''_'' else p)"

definition stable_file_component :: "(byte list \<Rightarrow> byte list) \<Rightarrow> string \<Rightarrow> string" where
  "stable_file_component sha256 s =
     (let named = name_prefix s @ concat (map hex_byte (take 8 (sha256 (str_bytes s))));
          split = length named - 16
      in take split named @ ''-'' @ drop split named)"

section \<open>The world\<close>

record 'd port_ext =
  px_sha :: "byte list \<Rightarrow> byte list"
  px_free :: "'d \<Rightarrow> 'd \<times> nat outcome"
  px_disk_ok :: "'d \<Rightarrow> bool"
  px_forward :: "string \<Rightarrow> nat \<Rightarrow> nat \<Rightarrow> 'd \<Rightarrow> 'd \<times> unit outcome"
  px_forward_list :: "'d \<Rightarrow> 'd \<times> string outcome"
  px_forward_remove :: "string \<Rightarrow> nat \<Rightarrow> 'd \<Rightarrow> 'd \<times> unit outcome"

record 'd port_world =
  pw_out :: 'd
  pw_files :: "(string \<times> string option) list"

type_synonym ('d, 'a) port_prog = "('d port_world, 'a) prog"

definition port_call :: "('d \<Rightarrow> 'd \<times> 'a outcome) \<Rightarrow> ('d, 'a) port_prog" where
  "port_call f w = (let (d, r) = f (pw_out w) in (w\<lparr>pw_out := d\<rparr>, r))"

definition slot_name :: "'d port_ext \<Rightarrow> string \<Rightarrow> string \<Rightarrow> string" where
  "slot_name px serial channel = stable_file_component (px_sha px) serial @ ''__'' @ channel @ ''.port''"

text \<open>Reading a slot, writing one in place, and removing one.\<close>

definition read_file :: "string \<Rightarrow> 'd port_world \<Rightarrow> string option" where
  "read_file name w = (case map_of (pw_files w) name of Some content \<Rightarrow> content | None \<Rightarrow> None)"

definition put_file :: "string \<Rightarrow> string \<Rightarrow> (string \<times> string option) list \<Rightarrow> (string \<times> string option) list" where
  "put_file name content files = (name, Some content) # filter (\<lambda>f. fst f \<noteq> name) files"

definition drop_file :: "string \<Rightarrow> (string \<times> string option) list \<Rightarrow> (string \<times> string option) list" where
  "drop_file name files = filter (\<lambda>f. fst f \<noteq> name) files"

definition port_of :: "string \<Rightarrow> nat option" where
  "port_of content = parse_unsigned 16 (str_trim content)"

definition peek_slot :: "string \<Rightarrow> 'd port_world \<Rightarrow> nat option" where
  "peek_slot name w = Option.bind (read_file name w) port_of"

definition peek :: "'d port_ext \<Rightarrow> string \<Rightarrow> string \<Rightarrow> 'd port_world \<Rightarrow> nat option" where
  "peek px serial channel = peek_slot (slot_name px serial channel)"

section \<open>Choosing a port\<close>

text \<open>\<open>Path::extension\<close> of a file name.\<close>

definition file_extension :: "string \<Rightarrow> string option" where
  "file_extension name =
     (case rfind_str ''.'' name of
        None \<Rightarrow> None
      | Some (stem, ext) \<Rightarrow> if stem = [] then None else Some ext)"

definition persisted_port :: "string option \<Rightarrow> string \<times> string option \<Rightarrow> nat option" where
  "persisted_port excluding f =
     (if excluding = Some (fst f) then None
      else if file_extension (fst f) \<noteq> Some ''port'' then None
      else case Option.bind (snd f) port_of of
          Some port \<Rightarrow> if port \<noteq> 0 then Some port else None
        | None \<Rightarrow> None)"

definition persisted_ports :: "'d port_ext \<Rightarrow> string option \<Rightarrow> ('d, nat list) port_prog" where
  "persisted_ports px excluding w =
     (w, if px_disk_ok px (pw_out w) then Inr (List.map_filter (persisted_port excluding) (pw_files w))
         else Inl ''read the port directory'')"

fun choose_loop :: "'d port_ext \<Rightarrow> nat list \<Rightarrow> nat \<Rightarrow> ('d, nat) port_prog" where
  "choose_loop px persisted 0 = stop ''could not allocate a unique loopback port after 32 attempts''"
| "choose_loop px persisted (Suc n) =
     step (port_call (px_free px)) (\<lambda>port.
     if port \<notin> set persisted then give port else choose_loop px persisted n)"

definition choose_unused_port :: "'d port_ext \<Rightarrow> string option \<Rightarrow> ('d, nat) port_prog" where
  "choose_unused_port px excluding =
     step (persisted_ports px excluding) (\<lambda>persisted. choose_loop px persisted 32)"

definition reassign_locked :: "'d port_ext \<Rightarrow> string \<Rightarrow> ('d, nat) port_prog" where
  "reassign_locked px name =
     step (choose_unused_port px (Some name)) (\<lambda>port.
     step (look (\<lambda>w. px_disk_ok px (pw_out w))) (\<lambda>ok.
     if \<not> ok then stop ''publish the port slot''
     else step (alter (\<lambda>w. w\<lparr>pw_files := put_file name (dec_digits port) (pw_files w)\<rparr>)) (\<lambda>u. give port)))"

definition assign_locked :: "'d port_ext \<Rightarrow> string \<Rightarrow> ('d, nat) port_prog" where
  "assign_locked px name =
     step (look (peek_slot name)) (\<lambda>own.
     case own of
       None \<Rightarrow> reassign_locked px name
     | Some port \<Rightarrow>
         step (persisted_ports px (Some name)) (\<lambda>persisted.
         if port \<notin> set persisted then give port else reassign_locked px name))"

section \<open>Forwarding\<close>

definition mapping_listed :: "string \<Rightarrow> string \<Rightarrow> nat \<Rightarrow> nat \<Rightarrow> bool" where
  "mapping_listed listing serial host_port device_port \<longleftrightarrow>
     list_ex (\<lambda>line. take 3 (split_whitespace line) =
         [serial, ''tcp:'' @ dec_digits host_port, ''tcp:'' @ dec_digits device_port]) (str_lines listing)"

definition forward_mapping_matches :: "'d port_ext \<Rightarrow> string \<Rightarrow> nat \<Rightarrow> nat \<Rightarrow> ('d, bool) port_prog" where
  "forward_mapping_matches px serial host_port device_port =
     step (port_call (px_forward_list px)) (\<lambda>listing. give (mapping_listed listing serial host_port device_port))"

definition forward :: "'d port_ext \<Rightarrow> string \<Rightarrow> nat \<Rightarrow> nat \<Rightarrow> ('d, unit) port_prog" where
  "forward px serial host_port device_port =
     attempt (port_call (px_forward px serial host_port device_port)) (\<lambda>r.
     step (forward_mapping_matches px serial host_port device_port) (\<lambda>owned.
     case r of
       Inr u \<Rightarrow> if owned then give () else stop ''ownership verification failed''
     | Inl e \<Rightarrow> if owned then give () else stop e))"

definition publish_forward :: "'d port_ext \<Rightarrow> string \<Rightarrow> string \<Rightarrow> nat \<Rightarrow> ('d, nat) port_prog" where
  "publish_forward px serial channel device_port =
     step (look (\<lambda>w. px_disk_ok px (pw_out w))) (\<lambda>ok.
     if \<not> ok then stop ''lock the port directory''
     else
       step (assign_locked px (slot_name px serial channel)) (\<lambda>port.
       attempt (forward px serial port device_port) (\<lambda>r.
       case r of
         Inr u \<Rightarrow> give port
       | Inl e \<Rightarrow>
           step (reassign_locked px (slot_name px serial channel)) (\<lambda>port.
           step (forward px serial port device_port) (\<lambda>u. give port)))))"

text \<open>A port for a listener of the program itself: reserved, not recorded.\<close>

definition reserve_loopback_port :: "'d port_ext \<Rightarrow> ('d, nat) port_prog" where
  "reserve_loopback_port px =
     step (look (\<lambda>w. px_disk_ok px (pw_out w))) (\<lambda>ok.
     if \<not> ok then stop ''lock the port directory'' else choose_unused_port px None)"

definition release :: "'d port_ext \<Rightarrow> string \<Rightarrow> string \<Rightarrow> ('d, nat option) port_prog" where
  "release px serial channel =
     step (look (\<lambda>w. px_disk_ok px (pw_out w))) (\<lambda>ok.
     if \<not> ok then give None
     else
       let name = slot_name px serial channel in
       step (look (read_file name)) (\<lambda>content.
       case content of
         None \<Rightarrow> give None
       | Some text \<Rightarrow>
           step (alter (\<lambda>w. w\<lparr>pw_files := drop_file name (pw_files w)\<rparr>)) (\<lambda>u. give (port_of text))))"

text \<open>
  Leaving a device (the end of \<^verbatim>\<open>free_ui_automation_slot\<close>): its slot is released, then the rule of its port is removed,
  outside the lock, and always the rule of the fixed port that older versions used. Errors of removals are ignored.
\<close>

definition DEFAULT_PORT :: nat where "DEFAULT_PORT = 7912"

definition UI_CHANNEL :: string where "UI_CHANNEL = ''ui''"

definition ports_to_remove :: "nat option \<Rightarrow> nat list" where
  "ports_to_remove released = (case released of None \<Rightarrow> [] | Some p \<Rightarrow> [p]) @ [DEFAULT_PORT]"

fun remove_rules :: "'d port_ext \<Rightarrow> string \<Rightarrow> nat list \<Rightarrow> ('d, unit) port_prog" where
  "remove_rules px serial [] = give ()"
| "remove_rules px serial (p # ps) = attempt (port_call (px_forward_remove px serial p)) (\<lambda>r. remove_rules px serial ps)"

definition release_and_remove :: "'d port_ext \<Rightarrow> string \<Rightarrow> ('d, unit) port_prog" where
  "release_and_remove px serial =
     step (release px serial UI_CHANNEL) (\<lambda>released. remove_rules px serial (ports_to_remove released))"

end
