(* ===== verification/PortMapProps.thy ===== *)
theory PortMapProps
  imports PortMap
begin

text \<open>
  What the port slots promise: safe names of their own, a port of their own under any sequence of commands, and
  a forward that stays with its device.
\<close>

section \<open>Names\<close>

lemma hex_digit_inject: "a < 16 \<Longrightarrow> b < 16 \<Longrightarrow> hex_digit a = hex_digit b \<Longrightarrow> a = b"
proof -
  assume ab: "a < 16" "b < 16" "hex_digit a = hex_digit b"
  have "of_char (hex_digit a) = (of_char (hex_digit b) :: nat)"
    using ab(3) by simp
  then show "a = b"
    using ab(1,2) by (auto simp: hex_digit_def split: if_splits)
qed

lemma hex_pad_inject: "a < 16 ^ k \<Longrightarrow> b < 16 ^ k \<Longrightarrow> hex_pad k a = hex_pad k b \<Longrightarrow> a = b"
proof (induction k arbitrary: a b)
  case (Suc k)
  have "a div 16 < 16 ^ k" "b div 16 < 16 ^ k"
    using Suc.prems(1,2) by (simp_all add: less_mult_imp_div_less mult.commute)
  moreover have "hex_pad k (a div 16) = hex_pad k (b div 16)" "hex_digit (a mod 16) = hex_digit (b mod 16)"
    using Suc.prems(3) by simp_all
  ultimately have "a div 16 = b div 16" "a mod 16 = b mod 16"
    using Suc.IH hex_digit_inject [of "a mod 16" "b mod 16"] by auto
  then show ?case
    by (metis div_mult_mod_eq)
qed simp

lemma length_hex_byte [simp]: "length (hex_byte b) = 2"
  by (simp add: hex_byte_def)

lemma hex_byte_inject: "hex_byte a = hex_byte b \<Longrightarrow> a = b"
proof -
  assume "hex_byte a = hex_byte b"
  then have "unat a = unat b"
    using hex_pad_inject [of "unat a" 2 "unat b"] unsigned_less [of a] unsigned_less [of b] by (simp add: hex_byte_def)
  then show "a = b"
    by (simp only: word_unat_eq_iff)
qed

lemma hex_bytes_inject: "length xs = length ys \<Longrightarrow> concat (map hex_byte xs) = concat (map hex_byte ys) \<Longrightarrow> xs = ys"
  by (induction xs ys rule: list_induct2) (auto simp: append_eq_append_conv dest: hex_byte_inject)

lemma length_hex_bytes: "length (concat (map hex_byte bs)) = 2 * length bs"
  by (induction bs) simp_all

lemma component_shape:
  assumes "length (sha256 (str_bytes s)) = 32"
  shows "stable_file_component sha256 s = name_prefix s @ ''-'' @ concat (map hex_byte (take 8 (sha256 (str_bytes s))))"
  using length_hex_bytes [of "take 8 (sha256 (str_bytes s))"] assms by (simp add: stable_file_component_def Let_def)

lemma safe_digit: "n < 16 \<Longrightarrow> safe_char (of_char (hex_digit n))"
  by (auto simp: safe_char_def hex_digit_def)

lemma safe_hex: "list_all (\<lambda>c. safe_char (of_char c)) (hex_pad k n)"
  by (induction k arbitrary: n) (auto simp: safe_digit)

lemma safe_hex_bytes: "list_all (\<lambda>c. safe_char (of_char c)) (concat (map hex_byte bs))"
  by (induction bs) (auto simp: hex_byte_def safe_hex)

lemma safe_mod: "safe_char c \<Longrightarrow> safe_char (c mod 256)"
  by (auto simp: safe_char_def)

lemma safe_prefix: "list_all (\<lambda>c. safe_char (of_char c)) (name_prefix s)" "length (name_prefix s) \<le> 40"
proof -
  have blank: "safe_char 95"
    by (simp add: safe_char_def)
  show "list_all (\<lambda>c. safe_char (of_char c)) (name_prefix s)"
    using blank safe_mod unfolding name_prefix_def Let_def list_all_iff by auto
  show "length (name_prefix s) \<le> 40"
    by (simp add: name_prefix_def Let_def)
qed

lemma slot_name_parts:
  assumes "CHR ''_'' \<notin> set channel"
  shows "rfind_str ''__'' (slot_name px serial channel) = Some (stable_file_component (px_sha px) serial, channel @ ''.port'')"
proof -
  let ?rest = "channel @ ''.port''"
  have none: "CHR ''_'' \<notin> set ?rest"
    using assms by auto
  then have "\<not> str_contains ?rest ''__''"
    using contains_first [of ?rest "CHR ''_''" "''_''"] by blast
  moreover have "take 1 ?rest \<noteq> ''_''"
    using none by (cases channel) auto
  ultimately have "\<not> str_contains (tl (''__'' @ ?rest)) ''__''"
    by simp
  then show ?thesis
    using rfind_here [of "''__''" ?rest "stable_file_component (px_sha px) serial"] by (simp add: slot_name_def)
qed

lemma slot_name_inject:
  assumes "\<And>bs. length (px_sha px bs) = 32" "CHR ''_'' \<notin> set channel" "CHR ''_'' \<notin> set channel'"
    "slot_name px serial channel = slot_name px serial' channel'"
  shows "channel = channel' \<and> name_prefix serial = name_prefix serial' \<and>
    take 8 (px_sha px (str_bytes serial)) = take 8 (px_sha px (str_bytes serial'))"
proof -
  let ?hex = "\<lambda>s. concat (map hex_byte (take 8 (px_sha px (str_bytes s))))"
  have shape: "stable_file_component (px_sha px) s = name_prefix s @ ''-'' @ ?hex s" for s
    using assms(1) by (rule component_shape)
  have len: "length (?hex s) = 16" for s
    using assms(1) by (simp add: length_hex_bytes)
  have same: "stable_file_component (px_sha px) serial = stable_file_component (px_sha px) serial'" "channel = channel'"
    using slot_name_parts [OF assms(2), of px serial] slot_name_parts [OF assms(3), of px serial'] assms(4) by simp_all
  have "(name_prefix serial @ ''-'') @ ?hex serial = (name_prefix serial' @ ''-'') @ ?hex serial'"
    using same(1) unfolding shape by simp
  then have "?hex serial = ?hex serial'" "name_prefix serial = name_prefix serial'"
    using len [of serial] len [of serial'] by (simp_all only: append_eq_append_conv append1_eq_conv simp_thms)
  then show ?thesis
    using same(2) hex_bytes_inject [of "take 8 (px_sha px (str_bytes serial))" "take 8 (px_sha px (str_bytes serial'))"] assms(1)
    by simp
qed

lemma plain_prefix:
  assumes "str_chars s \<noteq> []" "list_all safe_char (take 40 (str_chars s))"
  shows "name_prefix s = map char_of (take 40 (str_chars s))"
proof -
  have "map (\<lambda>c. if safe_char c then char_of c else CHR ''_'') (take 40 (str_chars s)) = map char_of (take 40 (str_chars s))"
    using assms(2) by (simp add: list_all_iff)
  then show ?thesis
    using assms(1) by (simp add: name_prefix_def Let_def)
qed

text \<open>
  C34: with a digest of 32 bytes, the file name made of a serial holds only letters, digits, dashes, underscores and
  dots, at most 57 of them, whatever the serial is, and begins with the first 40 characters of a serial in which these
  are such characters; and two slots of channels without underscores share a file only when they are of the same
  channel, their readable prefixes are equal and the first eight bytes of the digests of their serials agree.
\<close>

theorem slot_names_safe:
  assumes "\<And>bs. length (px_sha px bs) = 32" "CHR ''_'' \<notin> set channel" "CHR ''_'' \<notin> set channel'"
  shows "length (stable_file_component (px_sha px) serial) \<le> 57 \<and>
    list_all (\<lambda>c. safe_char (of_char c)) (stable_file_component (px_sha px) serial) \<and>
    (str_chars serial \<noteq> [] \<and> list_all safe_char (take 40 (str_chars serial)) \<longrightarrow>
       (\<exists>rest. stable_file_component (px_sha px) serial = map char_of (take 40 (str_chars serial)) @ ''-'' @ rest)) \<and>
    (slot_name px serial channel = slot_name px serial' channel' \<longrightarrow>
       channel = channel' \<and> name_prefix serial = name_prefix serial' \<and>
       take 8 (px_sha px (str_bytes serial)) = take 8 (px_sha px (str_bytes serial')))"
proof -
  have shape: "stable_file_component (px_sha px) serial =
      name_prefix serial @ ''-'' @ concat (map hex_byte (take 8 (px_sha px (str_bytes serial))))"
    using assms(1) by (rule component_shape)
  have "length (stable_file_component (px_sha px) serial) \<le> 57"
    using safe_prefix(2) [of serial] length_hex_bytes [of "take 8 (px_sha px (str_bytes serial))"] by (simp add: shape)
  moreover have "list_all (\<lambda>c. safe_char (of_char c)) (stable_file_component (px_sha px) serial)"
    using safe_prefix(1) safe_hex_bytes unfolding shape by (simp add: safe_char_def)
  moreover have "\<exists>rest. stable_file_component (px_sha px) serial = map char_of (take 40 (str_chars serial)) @ ''-'' @ rest"
    if "str_chars serial \<noteq> []" "list_all safe_char (take 40 (str_chars serial))"
    using plain_prefix [OF that] shape by (intro exI) simp
  ultimately show ?thesis
    using slot_name_inject [OF assms] by blast
qed

lemma slot_extension: "file_extension (slot_name px serial channel) = Some ''port''"
proof -
  have "\<not> str_contains (tl (''.'' @ ''port'')) ''.''"
    by simp
  then have "rfind_str ''.'' ((stable_file_component (px_sha px) serial @ ''__'' @ channel) @ ''.'' @ ''port'') =
      Some (stable_file_component (px_sha px) serial @ ''__'' @ channel, ''port'')"
    by (intro rfind_here) simp_all
  then show ?thesis
    by (simp add: file_extension_def slot_name_def)
qed

section \<open>Ports\<close>

definition all_ports :: "'d port_world \<Rightarrow> nat list" where
  "all_ports w = List.map_filter (persisted_port None) (pw_files w)"

text \<open>The operating system hands out ports, never zero.\<close>

definition ports_real :: "'d port_ext \<Rightarrow> bool" where
  "ports_real px \<longleftrightarrow> (\<forall>d. case snd (px_free px d) of Inl e \<Rightarrow> True | Inr p \<Rightarrow> 0 < p \<and> p < 2 ^ 16)"

definition slots_ok :: "'d port_world \<Rightarrow> bool" where
  "slots_ok w \<longleftrightarrow>
     distinct (map fst (pw_files w)) \<and> distinct (all_ports w) \<and>
     (\<forall>f \<in> set (pw_files w). Option.bind (snd f) port_of \<noteq> Some 0)"

lemma persisted_excluding:
  "List.map_filter (persisted_port (Some name)) files = List.map_filter (persisted_port None) (drop_file name files)"
  by (induction files) (auto simp: List.map_filter_simps drop_file_def persisted_port_def split: option.splits)

lemma persisted_member:
  assumes "(name, content) \<in> set files" "file_extension name = Some ''port''" "Option.bind content port_of = Some p" "p \<noteq> 0"
  shows "p \<in> set (List.map_filter (persisted_port None) files)"
  using assms by (force simp: List.map_filter_def persisted_port_def)

lemma distinct_filtered: "distinct (List.map_filter g xs) \<Longrightarrow> distinct (List.map_filter g (filter P xs))"
proof -
  assume "distinct (List.map_filter g xs)"
  then have "distinct (map (the \<circ> g) (filter P (filter (\<lambda>x. g x \<noteq> None) xs)))"
    unfolding List.map_filter_def by (rule distinct_map_filter)
  moreover have "filter P (filter (\<lambda>x. g x \<noteq> None) xs) = filter (\<lambda>x. g x \<noteq> None) (filter P xs)"
    by (simp add: conj_commute)
  ultimately show ?thesis
    by (simp only: List.map_filter_def)
qed

lemma port_of_digits: "p < 2 ^ 16 \<Longrightarrow> port_of (dec_digits p) = Some p"
proof -
  assume p: "p < 2 ^ 16"
  have "str_trim (dec_digits p) = dec_digits p"
    using dec_digits_digits [of p] digit_visible by (intro str_trim_ascii) (auto simp: list_all_iff)
  then show ?thesis
    using parse_dec_digits [OF p] by (simp add: port_of_def)
qed

lemma peek_member:
  assumes "peek_slot name w = Some p"
  obtains content where "(name, content) \<in> set (pw_files w)" "Option.bind content port_of = Some p"
  using assms by (auto simp: peek_slot_def read_file_def split: option.splits dest: map_of_SomeD)

lemma peek_apart:
  assumes "slots_ok w" "name \<noteq> name'" "file_extension name = Some ''port''" "file_extension name' = Some ''port''"
    "peek_slot name w = Some p" "peek_slot name' w = Some p'"
  shows "p \<noteq> p' \<and> p \<noteq> 0"
proof -
  obtain c where c: "(name, c) \<in> set (pw_files w)" "Option.bind c port_of = Some p"
    using assms(5) by (rule peek_member)
  obtain c' where c': "(name', c') \<in> set (pw_files w)" "Option.bind c' port_of = Some p'"
    using assms(6) by (rule peek_member)
  have nz: "p \<noteq> 0" "p' \<noteq> 0"
    using assms(1) c c' by (auto simp: slots_ok_def)
  obtain xs ys where split: "pw_files w = xs @ (name, c) # ys"
    using c(1) by (auto dest: split_list)
  have "persisted_port None (name, c) = Some p"
    using c(2) nz(1) assms(3) by (simp add: persisted_port_def)
  then have ports: "all_ports w = List.map_filter (persisted_port None) xs @ p # List.map_filter (persisted_port None) ys"
    by (simp add: all_ports_def split List.map_filter_def)
  have "(name', c') \<in> set xs \<or> (name', c') \<in> set ys"
    using c'(1) assms(2) by (auto simp: split)
  then have "p' \<in> set (List.map_filter (persisted_port None) xs) \<union> set (List.map_filter (persisted_port None) ys)"
    using persisted_member c'(2) nz(2) assms(4) by blast
  then show ?thesis
    using assms(1) nz(1) ports by (auto simp: slots_ok_def)
qed

lemma slots_ok_put:
  assumes "slots_ok w" "p \<notin> set (List.map_filter (persisted_port (Some name)) (pw_files w))" "0 < p" "p < 2 ^ 16"
  shows "slots_ok (w\<lparr>pw_files := put_file name (dec_digits p) (pw_files w)\<rparr>)"
proof -
  have "distinct (List.map_filter (persisted_port None) (drop_file name (pw_files w)))"
    using assms(1) distinct_filtered unfolding slots_ok_def all_ports_def drop_file_def by blast
  then show ?thesis
    using assms port_of_digits [OF assms(4)]
    by (auto simp: slots_ok_def all_ports_def put_file_def persisted_excluding drop_file_def List.map_filter_simps
        persisted_port_def distinct_map_filter split: option.splits)
qed

lemma slots_ok_drop: "slots_ok w \<Longrightarrow> slots_ok (w\<lparr>pw_files := drop_file name (pw_files w)\<rparr>)"
  by (auto simp: slots_ok_def all_ports_def drop_file_def distinct_filtered distinct_map_filter)

lemma choose_loop_port:
  assumes "choose_loop px persisted n w = (w', Inr p)"
  shows "p \<notin> set persisted \<and> pw_files w' = pw_files w \<and> (ports_real px \<longrightarrow> 0 < p \<and> p < 2 ^ 16)"
  using assms
proof (induction n arbitrary: w)
  case (Suc n)
  obtain d q where free: "px_free px (pw_out w) = (d, Inr q)"
    using Suc.prems by (auto simp: step_Inr port_call_def split: prod.splits)
  have real: "ports_real px \<longrightarrow> 0 < q \<and> q < 2 ^ 16"
    using free unfolding ports_real_def by (metis (mono_tags, lifting) snd_conv sum.case(2))
  have call: "port_call (px_free px) w = (w\<lparr>pw_out := d\<rparr>, Inr q)"
    using free by (simp add: port_call_def)
  show ?case
  proof (cases "q \<in> set persisted")
    case True
    then show ?thesis
      using Suc.IH [of "w\<lparr>pw_out := d\<rparr>"] Suc.prems call by (simp add: run_step_ok)
  next
    case False
    then show ?thesis
      using Suc.prems call real by (auto simp: run_step_ok)
  qed
qed simp

section \<open>Programs that keep the slots\<close>

lemma keeps_port_call: "(\<And>d. I (w\<lparr>pw_out := d\<rparr>) = I w) \<Longrightarrow> I w \<Longrightarrow> I (fst (port_call f w))"
  by (auto simp: port_call_def split: prod.splits)

lemma slots_ok_out [simp]: "slots_ok (w\<lparr>pw_out := d\<rparr>) = slots_ok w"
  by (simp add: slots_ok_def all_ports_def)

lemma keeps_slots_call [keep_intros]: "keeps slots_ok (port_call f)"
  by (rule keepsI) (simp add: keeps_port_call)

lemma keeps_slots_forward [keep_intros]: "keeps slots_ok (forward px serial p dp)"
  unfolding forward_def forward_mapping_matches_def by (intro keep_intros)

lemma keeps_persisted [keep_intros]: "keeps I (persisted_ports px excluding)"
  by (rule keepsI) (simp add: persisted_ports_def)

lemma keeps_choose_loop:
  assumes "\<And>f :: 'd \<Rightarrow> 'd \<times> nat outcome. keeps I (port_call f)"
  shows "keeps I (choose_loop (px :: 'd port_ext) persisted n)"
proof (induction n)
  case 0
  show ?case
    unfolding choose_loop.simps by (rule keep_intros)
next
  case (Suc n)
  then show ?case
    unfolding choose_loop.simps by (intro keep_intros assms)
qed

lemma keeps_choose [keep_intros]: "keeps slots_ok (choose_loop px persisted n)"
  by (rule keeps_choose_loop) (rule keep_intros)

lemma reassign_run:
  assumes "reassign_locked px name w = (w', Inr p)"
  shows "\<exists>d. w' = w\<lparr>pw_out := d, pw_files := put_file name (dec_digits p) (pw_files w)\<rparr> \<and>
    p \<notin> set (List.map_filter (persisted_port (Some name)) (pw_files w)) \<and> (ports_real px \<longrightarrow> 0 < p \<and> p < 2 ^ 16)"
proof -
  obtain w1 where chosen: "choose_unused_port px (Some name) w = (w1, Inr p)"
    "w' = w1\<lparr>pw_files := put_file name (dec_digits p) (pw_files w1)\<rparr>"
    using assms by (auto simp: reassign_locked_def step_Inr split: if_splits)
  then have loop: "choose_loop px (List.map_filter (persisted_port (Some name)) (pw_files w)) 32 w = (w1, Inr p)"
    by (auto simp: choose_unused_port_def step_Inr persisted_ports_def split: if_splits)
  then show ?thesis
    using choose_loop_port [OF loop] chosen(2) by (intro exI [of _ "pw_out w1"]) simp
qed

lemma reassign_stuck:
  assumes "reassign_locked px name w = (w', Inl e)"
  shows "pw_files w' = pw_files w"
proof -
  have call: "keeps (\<lambda>v. pw_files v = pw_files w) (port_call f)" for f :: "'a \<Rightarrow> 'a \<times> nat outcome"
    by (rule keepsI) (simp add: port_call_def split: prod.splits)
  have kept: "keeps (\<lambda>v. pw_files v = pw_files w) (choose_unused_port px (Some name))"
    unfolding choose_unused_port_def by (intro keep_intros keeps_choose_loop call)
  have "pw_files w1 = pw_files w" if "choose_unused_port px (Some name) w = (w1, r)" for w1 r
    using keepsD [OF kept refl that] by simp
  then show ?thesis
    using assms by (auto simp: reassign_locked_def step_def split: prod.splits sum.splits if_splits)
qed

lemma keeps_slots_reassign: "ports_real px \<Longrightarrow> keeps slots_ok (reassign_locked px name)"
proof (rule keepsI)
  fix w :: "'a port_world"
  assume real: "ports_real px" and w: "slots_ok w"
  obtain w' r where run: "reassign_locked px name w = (w', r)"
    by (cases "reassign_locked px name w")
  show "slots_ok (fst (reassign_locked px name w))"
  proof (cases r)
    case (Inl e)
    then show ?thesis
      using run reassign_stuck w by (fastforce simp: slots_ok_def all_ports_def)
  next
    case (Inr p)
    then obtain d where "w' = w\<lparr>pw_out := d, pw_files := put_file name (dec_digits p) (pw_files w)\<rparr>"
      "p \<notin> set (List.map_filter (persisted_port (Some name)) (pw_files w))" "0 < p" "p < 2 ^ 16"
      using reassign_run run real by blast
    then show ?thesis
      using slots_ok_put [OF w, of p name] run by (simp add: slots_ok_def all_ports_def)
  qed
qed

lemma keeps_slots_publish: "ports_real px \<Longrightarrow> keeps slots_ok (publish_forward px serial channel dp)"
  unfolding publish_forward_def assign_locked_def by (intro keep_intros keeps_slots_reassign)

lemma keeps_alter: "(\<And>w. I w \<Longrightarrow> I (f w)) \<Longrightarrow> keeps I (alter f)"
  by (simp add: keeps_def)

lemma keeps_slots_release: "keeps slots_ok (release px serial channel)"
  unfolding release_def by (intro keep_intros keeps_alter) (rule slots_ok_drop)

section \<open>Any sequence of commands\<close>

text \<open>
  What holds the lock is one operation; a request to remove a rule, which is made outside of it, is one of its own.
\<close>

datatype 'd port_op =
    OpPublish string string nat
  | OpRelease string string
  | OpRemove string nat
  | OpReserve
  | OpElsewhere "'d \<Rightarrow> 'd"

fun port_act :: "'d port_ext \<Rightarrow> 'd port_op \<Rightarrow> 'd port_world \<Rightarrow> 'd port_world" where
  "port_act px (OpPublish serial channel dp) w = fst (publish_forward px serial channel dp w)"
| "port_act px (OpRelease serial channel) w = fst (release px serial channel w)"
| "port_act px (OpRemove serial p) w = fst (port_call (px_forward_remove px serial p) w)"
| "port_act px OpReserve w = fst (reserve_loopback_port px w)"
| "port_act px (OpElsewhere f) w = w\<lparr>pw_out := f (pw_out w)\<rparr>"

text \<open>Leaving a device, undisturbed, is its release followed by its removals.\<close>

lemma remove_rules_steps: "fst (remove_rules px serial ps w) = fold (port_act px) (map (OpRemove serial) ps) w"
  by (induction ps arbitrary: w) (simp_all add: give_def attempt_def split: prod.splits)

lemma leave_steps:
  assumes "release px serial UI_CHANNEL w = (w1, Inr released)"
  shows "fst (release_and_remove px serial w) =
    fold (port_act px) (OpRelease serial UI_CHANNEL # map (OpRemove serial) (ports_to_remove released)) w"
  using assms by (simp add: release_and_remove_def run_step_ok remove_rules_steps)

interpretation port_machine: machine "port_act px" "\<lambda>w. ports_real px \<longrightarrow> slots_ok w" for px
proof unfold_locales
  fix w :: "'a port_world" and op :: "'a port_op"
  assume w: "ports_real px \<longrightarrow> slots_ok w"
  have "keeps slots_ok (reserve_loopback_port px)"
    unfolding reserve_loopback_port_def choose_unused_port_def by (intro keep_intros)
  moreover have "keeps slots_ok (port_call (px_forward_remove px serial p))" for serial p
    by (rule keeps_slots_call)
  ultimately show "ports_real px \<longrightarrow> slots_ok (port_act px op w)"
    using w keeps_slots_publish [of px] keeps_slots_release [of px]
    by (cases op) (auto simp: keeps_def)
qed

text \<open>
  C35: host ports are never shared. From an empty directory, after any number of devices have published, released and reserved
  ports in any order, with a disk and an ADB server that may fail at any point, two slots never hold the same port.
\<close>

theorem slots_never_share:
  assumes "ports_real px" "pw_files w = []" "w' = fold (port_act px) ops w"
    "slot_name px serial channel \<noteq> slot_name px serial' channel'"
    "peek px serial channel w' = Some p" "peek px serial' channel' w' = Some p'"
  shows "p \<noteq> p'"
proof -
  have "slots_ok w"
    using assms(2) by (simp add: slots_ok_def all_ports_def List.map_filter_simps)
  then have "slots_ok w'"
    using port_machine.run_inv [of px w ops] assms(1,3) by simp
  then show ?thesis
    using peek_apart [OF _ assms(4) slot_extension slot_extension] assms(5,6) unfolding peek_def by blast
qed

section \<open>A forward stays with its device\<close>

text \<open>
  What is relied on of the ADB server, whose forward rules are seen through \<open>rules\<close>: a request not to rebind
  changes no rule that exists and none of another port, the list tells only rules that exist, removing a
  rule leaves the others alone, and asking the operating system for a port does nothing to them.
\<close>

definition adb_ok :: "'d port_ext \<Rightarrow> ('d \<Rightarrow> nat \<Rightarrow> (string \<times> nat) option) \<Rightarrow> bool" where
  "adb_ok px rules \<longleftrightarrow>
     (\<forall>serial h dp d q. q \<noteq> h \<or> rules d h \<noteq> None \<longrightarrow> rules (fst (px_forward px serial h dp d)) q = rules d q) \<and>
     (\<forall>d q. rules (fst (px_forward_list px d)) q = rules d q) \<and>
     (\<forall>d text serial h dp. snd (px_forward_list px d) = Inr text \<longrightarrow> mapping_listed text serial h dp \<longrightarrow>
        rules d h = Some (serial, dp)) \<and>
     (\<forall>serial h d q. q \<noteq> h \<longrightarrow> rules (fst (px_forward_remove px serial h d)) q = rules d q) \<and>
     (\<forall>d q. rules (fst (px_free px d)) q = rules d q)"

definition owned :: "('d \<Rightarrow> nat \<Rightarrow> (string \<times> nat) option) \<Rightarrow> string \<Rightarrow> nat \<Rightarrow> string \<times> nat \<Rightarrow> 'd port_world \<Rightarrow> bool" where
  "owned rules name p owner w \<longleftrightarrow> peek_slot name w = Some p \<and> rules (pw_out w) p = Some owner"

lemma owned_out: "owned rules name p owner (w\<lparr>pw_out := d\<rparr>) \<longleftrightarrow> peek_slot name w = Some p \<and> rules d p = Some owner"
  by (simp add: owned_def peek_slot_def read_file_def)

lemma keeps_owned_call:
  assumes "\<And>d. rules d p = Some owner \<Longrightarrow> rules (fst (f d)) p = Some owner"
  shows "keeps (owned rules name p owner) (port_call f)"
proof (rule keepsI)
  fix w
  assume w: "owned rules name p owner w"
  have "port_call f w = (w\<lparr>pw_out := fst (f (pw_out w))\<rparr>, snd (f (pw_out w)))"
    by (simp add: port_call_def split: prod.splits)
  then show "owned rules name p owner (fst (port_call f w))"
    using w assms [of "pw_out w"] by (simp add: owned_out) (simp add: owned_def)
qed

lemma keeps_owned_calls:
  assumes "adb_ok px rules"
  shows "keeps (owned rules name p owner) (port_call (px_free px))"
    "keeps (owned rules name p owner) (port_call (px_forward_list px))"
    "keeps (owned rules name p owner) (port_call (px_forward px serial h dp))"
proof -
  have "\<forall>serial h dp d q. q \<noteq> h \<or> rules d h \<noteq> None \<longrightarrow> rules (fst (px_forward px serial h dp d)) q = rules d q"
    using assms unfolding adb_ok_def by (rule conjunct1)
  then have law: "q \<noteq> h \<or> rules d h \<noteq> None \<Longrightarrow> rules (fst (px_forward px serial h dp d)) q = rules d q" for d q
    by iprover
  have quiet: "rules (fst (px_free px d)) q = rules d q" "rules (fst (px_forward_list px d)) q = rules d q" for d q
    using assms unfolding adb_ok_def by blast+
  show "keeps (owned rules name p owner) (port_call (px_free px))"
    "keeps (owned rules name p owner) (port_call (px_forward_list px))"
    using quiet by (auto intro!: keeps_owned_call)
  show "keeps (owned rules name p owner) (port_call (px_forward px serial h dp))"
  proof (rule keeps_owned_call)
    fix d
    assume rule: "rules d p = Some owner"
    then have "p \<noteq> h \<or> rules d h \<noteq> None"
      by (cases "p = h") simp_all
    then show "rules (fst (px_forward px serial h dp d)) p = Some owner"
      using law rule by simp
  qed
qed

lemma keeps_owned_forward:
  assumes "adb_ok px rules"
  shows "keeps (owned rules name p owner) (forward px serial h dp)"
  unfolding forward_def forward_mapping_matches_def by (intro keep_intros keeps_owned_calls [OF assms])

lemma peek_put_other: "name \<noteq> name' \<Longrightarrow> peek_slot name (w\<lparr>pw_files := put_file name' c (pw_files w)\<rparr>) = peek_slot name w"
proof -
  assume "name \<noteq> name'"
  then have "map_of (filter (\<lambda>f. fst f \<noteq> name') files) name = map_of files name" for files :: "(string \<times> string option) list"
    by (induction files) auto
  then show ?thesis
    using \<open>name \<noteq> name'\<close> by (simp add: peek_slot_def read_file_def put_file_def)
qed

lemma keeps_owned_choose:
  assumes "adb_ok px rules"
  shows "keeps (owned rules name p owner) (choose_unused_port px excluding)"
proof -
  have "keeps (owned rules name p owner) (choose_loop px persisted n)" for persisted n
  proof (induction n)
    case (Suc n)
    then show ?case
      unfolding choose_loop.simps by (intro keep_intros keeps_owned_calls [OF assms])
  qed (simp only: choose_loop.simps keeps_stop)
  then show ?thesis
    unfolding choose_unused_port_def by (intro keep_intros)
qed

lemma keeps_owned_reassign:
  assumes "adb_ok px rules" "name \<noteq> name'"
  shows "keeps (owned rules name p owner) (reassign_locked px name')"
  unfolding reassign_locked_def
  by (intro keep_intros keeps_alter keeps_owned_choose [OF assms(1)]) (simp add: owned_def peek_put_other [OF assms(2)])

lemma keeps_owned_publish:
  assumes "adb_ok px rules" "name \<noteq> slot_name px serial channel"
  shows "keeps (owned rules name p owner) (publish_forward px serial channel dp)"
  unfolding publish_forward_def assign_locked_def
  by (intro keep_intros keeps_owned_forward [OF assms(1)] keeps_owned_reassign [OF assms])

lemma release_keeps_owned:
  assumes "slots_ok w" "owned rules name p owner w" "name \<noteq> slot_name px serial channel" "file_extension name = Some ''port''"
    "release px serial channel w = (w', r)"
  shows "owned rules name p owner w' \<and> (\<exists>released. r = Inr released \<and> released \<noteq> Some p)"
proof -
  let ?name = "slot_name px serial channel"
  let ?w1 = "w\<lparr>pw_files := drop_file ?name (pw_files w)\<rparr>"
  have "map_of (filter (\<lambda>f. fst f \<noteq> ?name) files) name = map_of files name" for files :: "(string \<times> string option) list"
    using assms(3) by (induction files) auto
  then have kept: "owned rules name p owner ?w1"
    using assms(2) by (simp add: owned_def peek_slot_def read_file_def drop_file_def)
  have "port_of told \<noteq> Some p" if "read_file ?name w = Some told" for told
    using peek_apart [OF assms(1,3), of p p] assms(2,4) that slot_extension by (auto simp: owned_def peek_slot_def)
  then show ?thesis
    using assms(2,5) kept by (auto simp: release_def Let_def step_def look_def alter_def give_def split: if_splits option.splits)
qed

lemma owned_listed:
  assumes "slots_ok w" "owned rules name p owner w" "file_extension name = Some ''port''"
  shows "p \<in> set (List.map_filter (persisted_port None) (pw_files w))"
proof -
  obtain c where c: "(name, c) \<in> set (pw_files w)" "Option.bind c port_of = Some p"
    using assms(2) unfolding owned_def by (auto elim: peek_member)
  then have "p \<noteq> 0"
    using assms(1) by (auto simp: slots_ok_def)
  then have "persisted_port None (name, c) = Some p"
    using c(2) assms(3) by (simp add: persisted_port_def)
  then show ?thesis
    using c(1) by (force simp: List.map_filter_def)
qed

lemma reserved_other:
  assumes "slots_ok w" "owned rules name p owner w" "file_extension name = Some ''port''"
    "reserve_loopback_port px w = (w', Inr q)"
  shows "q \<noteq> p"
proof -
  have "choose_loop px (List.map_filter (persisted_port None) (pw_files w)) 32 w = (w', Inr q)"
    using assms(4) by (auto simp: reserve_loopback_port_def choose_unused_port_def persisted_ports_def step_Inr split: if_splits)
  then show ?thesis
    using choose_loop_port owned_listed [OF assms(1-3)] by blast
qed

lemma forward_ok:
  assumes "adb_ok px rules" "forward px serial h dp w = (w', Inr u)"
  shows "pw_files w' = pw_files w \<and> rules (pw_out w') h = Some (serial, dp)"
proof -
  obtain d r where asked: "px_forward px serial h dp (pw_out w) = (d, r)"
    by (cases "px_forward px serial h dp (pw_out w)")
  obtain d' listing where listed: "px_forward_list px d = (d', listing)"
    by (cases "px_forward_list px d")
  obtain told where told: "listing = Inr told" "mapping_listed told serial h dp" "w' = w\<lparr>pw_out := d'\<rparr>"
    using assms(2) asked listed
    by (cases listing) (auto simp: forward_def forward_mapping_matches_def attempt_def port_call_def step_def
        split: sum.splits if_splits)
  have "snd (px_forward_list px d) = Inr told" "fst (px_forward_list px d) = d'"
    using listed told(1) by simp_all
  moreover have "rules (fst (px_forward_list px d)) h = rules d h"
    using assms(1) unfolding adb_ok_def by blast
  ultimately have "rules d' h = Some (serial, dp)"
    using assms(1) told(2) unfolding adb_ok_def by metis
  then show ?thesis
    using told(3) by simp
qed

lemma published_owned:
  assumes "adb_ok px rules" "ports_real px" "publish_forward px serial channel dp w = (w', Inr p)"
  shows "owned rules (slot_name px serial channel) p (serial, dp) w'"
proof -
  let ?name = "slot_name px serial channel"
  have peek_files: "peek_slot ?name v = peek_slot ?name v'" if "pw_files v = pw_files v'" for v v' :: "'a port_world"
    using that by (simp add: peek_slot_def read_file_def)
  have reassigned: "peek_slot ?name w2 = Some q" if "reassign_locked px ?name w1 = (w2, Inr q)" for w1 w2 q
    using reassign_run [OF that] assms(2) port_of_digits [of q] by (auto simp: peek_slot_def read_file_def put_file_def)
  have assigned: "peek_slot ?name w1 = Some q" if "assign_locked px ?name w = (w1, Inr q)" for w1 q
    using that reassigned
    by (auto simp: assign_locked_def step_Inr persisted_ports_def split: option.splits if_splits)
  have forwarded: "owned rules ?name q (serial, dp) w2" if "peek_slot ?name w1 = Some q" "forward px serial q dp w1 = (w2, Inr u)" for w1 w2 q u
    using that forward_ok [OF assms(1) that(2)] peek_files [of w2 w1] by (simp add: owned_def)
  obtain w1 q where assign: "assign_locked px ?name w = (w1, Inr q)"
    and rest: "attempt (forward px serial q dp) (\<lambda>r.
       case r of
         Inr u \<Rightarrow> give q
       | Inl e \<Rightarrow> step (reassign_locked px ?name) (\<lambda>port. step (forward px serial port dp) (\<lambda>u. give port))) w1 = (w', Inr p)"
    using assms(3) by (auto simp: publish_forward_def step_Inr split: if_splits)
  obtain w2 r where first: "forward px serial q dp w1 = (w2, r)"
    by (cases "forward px serial q dp w1")
  show ?thesis
  proof (cases r)
    case (Inr u)
    then show ?thesis
      using rest first forwarded [OF assigned [OF assign]] by (simp add: attempt_def)
  next
    case (Inl e)
    then obtain w3 where "reassign_locked px ?name w2 = (w3, Inr p)" "forward px serial p dp w3 = (w', Inr ())"
      using rest first by (auto simp: attempt_def step_Inr)
    then show ?thesis
      using forwarded reassigned by blast
  qed
qed

text \<open>
  Sessions, step by step: beside the world, the ports whose rules some session still is to remove. Leaving a device adds
  the released port and the fixed one, and a port that was reserved is removed when it is no longer used; removals
  happen at any later time, in any order.
\<close>

fun session_act :: "'d port_ext \<Rightarrow> 'd port_op \<Rightarrow> 'd port_world \<times> nat list \<Rightarrow> 'd port_world \<times> nat list" where
  "session_act px (OpRelease serial channel) (w, pending) =
     (case release px serial channel w of
        (w', Inr released) \<Rightarrow> (w', ports_to_remove released @ pending)
      | (w', Inl e) \<Rightarrow> (w', pending))"
| "session_act px OpReserve (w, pending) =
     (case reserve_loopback_port px w of
        (w', Inr q) \<Rightarrow> (w', q # pending)
      | (w', Inl e) \<Rightarrow> (w', pending))"
| "session_act px (OpRemove serial q) (w, pending) =
     (if q \<in> set pending then (port_act px (OpRemove serial q) w, remove1 q pending) else (w, pending))"
| "session_act px (OpPublish serial channel dp) (w, pending) = (port_act px (OpPublish serial channel dp) w, pending)"
| "session_act px (OpElsewhere f) (w, pending) = (port_act px (OpElsewhere f) w, pending)"

text \<open>What others may do meanwhile: anything to slots of their own.\<close>

definition foreign :: "'d port_ext \<Rightarrow> ('d \<Rightarrow> nat \<Rightarrow> (string \<times> nat) option) \<Rightarrow> string \<Rightarrow> nat \<Rightarrow> 'd port_op \<Rightarrow> bool" where
  "foreign px rules name p op \<longleftrightarrow>
     (case op of
        OpPublish serial channel dp \<Rightarrow> slot_name px serial channel \<noteq> name
      | OpRelease serial channel \<Rightarrow> slot_name px serial channel \<noteq> name
      | OpElsewhere f \<Rightarrow> \<forall>d. rules (f d) p = rules d p
      | _ \<Rightarrow> True)"

lemma removal_keeps_owned:
  assumes "adb_ok px rules" "owned rules name p owner w" "q \<noteq> p"
  shows "owned rules name p owner (port_act px (OpRemove serial q) w)"
proof -
  have "\<forall>serial h d q. q \<noteq> h \<longrightarrow> rules (fst (px_forward_remove px serial h d)) q = rules d q"
    using assms(1) by (simp add: adb_ok_def)
  then have "rules (fst (px_forward_remove px serial q (pw_out w))) p = Some owner"
    using assms(2,3) by (simp add: owned_def)
  moreover have "port_act px (OpRemove serial q) w = w\<lparr>pw_out := fst (px_forward_remove px serial q (pw_out w))\<rparr>"
    by (simp add: port_call_def split: prod.splits)
  ultimately show ?thesis
    using assms(2) by (simp only: owned_out) (simp add: owned_def)
qed

lemma session_world: "fst (session_act px op (w, pending)) \<in> {w, port_act px op w}"
  by (cases op) (auto split: prod.splits sum.splits)

lemma session_keeps:
  assumes "adb_ok px rules" "ports_real px" "file_extension name = Some ''port''" "p \<noteq> DEFAULT_PORT"
    "slots_ok w" "owned rules name p owner w" "p \<notin> set pending" "foreign px rules name p op"
    "session_act px op (w, pending) = (w', pending')"
  shows "slots_ok w' \<and> owned rules name p owner w' \<and> p \<notin> set pending'"
proof -
  have "slots_ok w'"
    using session_world [of px op w pending] assms(2,5,9) port_machine.keep [of px w op] by auto
  moreover have "owned rules name p owner w' \<and> p \<notin> set pending'"
  proof (cases op)
    case (OpPublish serial channel dp)
    then show ?thesis
      using assms(6-9) keeps_owned_publish [OF assms(1), of name serial channel p owner dp]
      by (auto simp: foreign_def keeps_def)
  next
    case (OpRelease serial channel)
    then have other: "name \<noteq> slot_name px serial channel"
      using assms(8) by (auto simp: foreign_def)
    obtain w1 r where run: "release px serial channel w = (w1, r)"
      by (cases "release px serial channel w")
    show ?thesis
      using release_keeps_owned [OF assms(5,6) other assms(3) run] OpRelease run assms(4,7,9)
      by (auto simp: ports_to_remove_def split: option.splits)
  next
    case (OpRemove serial q)
    then show ?thesis
      using assms(6,7,9) removal_keeps_owned [OF assms(1,6), of q serial] notin_set_remove1
      by (auto simp del: port_act.simps split: if_splits)
  next
    case OpReserve
    have "keeps (owned rules name p owner) (reserve_loopback_port px)"
      unfolding reserve_loopback_port_def by (intro keep_intros keeps_owned_choose [OF assms(1)])
    then have "owned rules name p owner (fst (reserve_loopback_port px w))"
      using assms(6) by (simp add: keeps_def)
    then show ?thesis
      using OpReserve assms(7,9) reserved_other [OF assms(5,6,3), of px]
      by (auto split: prod.splits sum.splits)
  next
    case (OpElsewhere f)
    then show ?thesis
      using assms(6-9) by (simp add: foreign_def) (auto simp: owned_def peek_slot_def read_file_def)
  qed
  ultimately show ?thesis
    by blast
qed

lemma sessions_keep:
  assumes "adb_ok px rules" "ports_real px" "file_extension name = Some ''port''" "p \<noteq> DEFAULT_PORT"
    "slots_ok w" "owned rules name p owner w" "p \<notin> set pending" "list_all (foreign px rules name p) ops"
  shows "owned rules name p owner (fst (fold (session_act px) ops (w, pending)))"
  using assms(5-8)
proof (induction ops arbitrary: w pending)
  case (Cons op ops)
  obtain w' pending' where act: "session_act px op (w, pending) = (w', pending')"
    by (cases "session_act px op (w, pending)")
  show ?case
    using Cons.IH session_keeps [OF assms(1-4) Cons.prems(1-3) _ act] Cons.prems(4) act by simp
qed simp

text \<open>
  C36: sessions on different devices are never cross-wired. Once the forward of a device is published on a port that is
  not the fixed one of older versions and whose rule no session was about to remove, the rule of this port leads to that
  device, and its slot names that port, however other devices and channels publish, release, reserve and remove
  afterwards, step by step and in any order.
\<close>

theorem forward_keeps_owner:
  assumes "adb_ok px rules" "ports_real px" "slots_ok w" "publish_forward px serial channel dp w = (w1, Inr p)"
    "p \<noteq> DEFAULT_PORT" "p \<notin> set pending" "list_all (foreign px rules (slot_name px serial channel) p) ops"
    "w2 = fst (fold (session_act px) ops (w1, pending))"
  shows "rules (pw_out w2) p = Some (serial, dp) \<and> peek px serial channel w2 = Some p"
proof -
  have "slots_ok w1"
    using keepsD [OF keeps_slots_publish [OF assms(2)] assms(3,4)] .
  then have "owned rules (slot_name px serial channel) p (serial, dp) w2"
    using sessions_keep [OF assms(1,2) slot_extension assms(5)] published_owned [OF assms(1,2,4)] assms(6-8) by blast
  then show ?thesis
    by (simp add: owned_def peek_def)
qed

section \<open>Witnesses\<close>

text \<open>An ADB server with at most one rule, for one device; free ports are handed out upwards from a number.\<close>

definition one_rule :: "bool \<times> nat \<Rightarrow> nat \<Rightarrow> (string \<times> nat) option" where
  "one_rule d h = (if fst d \<and> h = 41000 then Some (''emulator-5554'', 7912) else None)"

definition one_px :: "(bool \<times> nat) port_ext" where
  "one_px =
     \<lparr>px_sha = (\<lambda>bs. take 32 (bs @ replicate 32 0)),
      px_free = (\<lambda>d. ((fst d, snd d + 1), if 0 < snd d \<and> snd d < 65536 then Inr (snd d) else Inl ''no port'')),
      px_disk_ok = (\<lambda>d. True),
      px_forward = (\<lambda>serial h dp d. if serial = ''emulator-5554'' \<and> h = 41000 \<and> dp = 7912 then ((True, snd d), Inr ())
        else (d, Inl ''refused'')),
      px_forward_list = (\<lambda>d. (d, Inr (if fst d then ''emulator-5554 tcp:41000 tcp:7912'' else []))),
      px_forward_remove = (\<lambda>serial h d. (if h = 41000 then (False, snd d) else d, Inr ()))\<rparr>"

lemma one_ports_real: "ports_real one_px"
  by (simp add: ports_real_def one_px_def)

lemma plain_words:
  assumes "list_all (\<lambda>c. of_char c < (128 :: nat)) s"
  shows "split_whitespace s = map chars_str (word_chars [] (map of_char s))"
  using assms by (simp add: split_whitespace_def str_chars_ascii)

lemma one_words: "split_whitespace ''emulator-5554 tcp:41000 tcp:7912'' = [''emulator-5554'', ''tcp:41000'', ''tcp:7912'']"
  by (subst plain_words, simp)
    (simp add: char_is_whitespace_def chars_str_def utf8_encode_def utf8_encode_char_def bytes_str_def byte_char_def byte_of_def char_of_eq_iff)

lemma dec_digits_inject: "dec_digits a = dec_digits b \<Longrightarrow> a = b"
  by (metis dec_digits_value)

lemma one_digits: "dec_digits 41000 = ''41000''" "dec_digits 7912 = ''7912''"
  by (simp_all add: dec_digits_step char_of_eq_iff)

lemma one_lines: "str_lines ''emulator-5554 tcp:41000 tcp:7912'' = [''emulator-5554 tcp:41000 tcp:7912'']" "str_lines [] = []"
  by (simp_all add: str_lines_def strip_cr_def ends_with_def starts_with_def Let_def)

lemma one_listed:
  "mapping_listed ''emulator-5554 tcp:41000 tcp:7912'' serial h dp \<longleftrightarrow> serial = ''emulator-5554'' \<and> h = 41000 \<and> dp = 7912"
proof -
  have "''41000'' = dec_digits h \<longleftrightarrow> h = 41000" "''7912'' = dec_digits dp \<longleftrightarrow> dp = 7912"
    using dec_digits_inject one_digits by metis+
  then show ?thesis
    by (auto simp: mapping_listed_def one_lines one_words)
qed

lemma one_adb_ok: "adb_ok one_px one_rule"
  by (auto simp: adb_ok_def one_px_def one_rule_def one_listed one_lines mapping_listed_def [of "[]"] split: if_splits)

definition one_world :: "(bool \<times> nat) port_world" where
  "one_world = \<lparr>pw_out = (False, 41000), pw_files = []\<rparr>"

lemma numeral_32: "(32 :: nat) = Suc 31"
  by simp

lemma one_published: "\<exists>w'. publish_forward one_px ''emulator-5554'' ''ui'' 7912 one_world = (w', Inr 41000)"
proof -
  let ?name = "slot_name one_px ''emulator-5554'' ''ui''"
  let ?w1 = "\<lparr>pw_out = (False, 41001), pw_files = put_file ?name (dec_digits 41000) []\<rparr>"
  have "choose_loop one_px [] 32 one_world = (\<lparr>pw_out = (False, 41001), pw_files = []\<rparr>, Inr 41000)"
    unfolding numeral_32 choose_loop.simps by (simp add: step_def port_call_def one_px_def one_world_def)
  then have "reassign_locked one_px ?name one_world = (?w1, Inr 41000)"
    by (simp add: reassign_locked_def choose_unused_port_def persisted_ports_def step_def one_px_def one_world_def
        List.map_filter_simps)
  then have "assign_locked one_px ?name one_world = (?w1, Inr 41000)"
    by (simp add: assign_locked_def peek_slot_def read_file_def one_world_def)
  moreover have "snd (forward one_px ''emulator-5554'' 41000 7912 ?w1) = Inr ()"
    by (simp add: forward_def forward_mapping_matches_def attempt_def step_def port_call_def one_px_def one_listed)
  ultimately show ?thesis
    by (cases "forward one_px ''emulator-5554'' 41000 7912 ?w1")
      (simp add: publish_forward_def step_def attempt_def one_px_def)
qed

lemma one_slots_ok: "slots_ok one_world"
  by (simp add: slots_ok_def all_ports_def one_world_def List.map_filter_simps)

lemma one_names: "slot_name one_px ''R58'' ''ui'' \<noteq> slot_name one_px ''emulator-5554'' ''ui''"
proof
  assume "slot_name one_px ''R58'' ''ui'' = slot_name one_px ''emulator-5554'' ''ui''"
  then have "take 8 (px_sha one_px (str_bytes ''R58'')) = take 8 (px_sha one_px (str_bytes ''emulator-5554''))"
    using slot_name_inject [of one_px "''ui''" "''ui''" "''R58''" "''emulator-5554''"] by (simp add: one_px_def)
  then show False
    by (simp add: one_px_def str_bytes_def char_byte_def)
qed

theorem slot_names_safe_witness:
  "length (stable_file_component (px_sha one_px) ''Pixel/9; $(unsafe)'') \<le> 57 \<and>
   list_all (\<lambda>c. safe_char (of_char c)) (stable_file_component (px_sha one_px) ''Pixel/9; $(unsafe)'')"
  using slot_names_safe [of one_px "''ui''" "''ui''" "''Pixel/9; $(unsafe)''" "''x''"] by (simp add: one_px_def)

lemma one_reassign:
  assumes "n \<notin> set (List.map_filter (persisted_port (Some name)) fs)" "0 < n" "n < 65536"
  shows "reassign_locked one_px name \<lparr>pw_out = (b, n), pw_files = fs\<rparr> =
    (\<lparr>pw_out = (b, n + 1), pw_files = put_file name (dec_digits n) fs\<rparr>, Inr n)"
  using assms unfolding reassign_locked_def choose_unused_port_def numeral_32 choose_loop.simps
  by (simp add: persisted_ports_def step_def port_call_def one_px_def)

lemma one_fresh:
  assumes "\<forall>f \<in> set fs. persisted_port (Some name) f \<noteq> Some n" "read_file name \<lparr>pw_out = (b, n), pw_files = fs\<rparr> = None" "0 < n" "n < 65536"
  shows "assign_locked one_px name \<lparr>pw_out = (b, n), pw_files = fs\<rparr> =
    (\<lparr>pw_out = (b, n + 1), pw_files = put_file name (dec_digits n) fs\<rparr>, Inr n)"
proof -
  have "n \<notin> set (List.map_filter (persisted_port (Some name)) fs)"
    using assms(1) by (auto simp: List.map_filter_def)
  then show ?thesis
    using one_reassign [of n name fs b] assms(2-4) by (simp add: assign_locked_def peek_slot_def step_def)
qed

lemma one_forward:
  "forward one_px ''emulator-5554'' 41000 7912 \<lparr>pw_out = (b, n), pw_files = fs\<rparr> = (\<lparr>pw_out = (True, n), pw_files = fs\<rparr>, Inr ())"
  "forward one_px ''R58'' h dp \<lparr>pw_out = (True, n), pw_files = fs\<rparr> = (\<lparr>pw_out = (True, n), pw_files = fs\<rparr>, Inl ''refused'')"
  by (simp_all add: forward_def forward_mapping_matches_def attempt_def step_def port_call_def one_px_def one_listed)

lemma one_disk: "px_disk_ok one_px d"
  by (simp add: one_px_def)

lemma one_two_slots:
  assumes "m = slot_name one_px ''R58'' ''ui''" "n = slot_name one_px ''emulator-5554'' ''ui''"
  shows "fold (port_act one_px) [OpPublish ''emulator-5554'' ''ui'' 7912, OpPublish ''R58'' ''ui'' 7912] one_world =
    \<lparr>pw_out = (True, 41003), pw_files = [(m, Some (dec_digits 41002)), (n, Some (dec_digits 41000))]\<rparr>"
proof -
  have mn: "m \<noteq> n" "n \<noteq> m"
    using one_names assms by auto
  have kept: "persisted_port (Some m) (n, Some (dec_digits 41000)) = Some 41000"
    using mn assms slot_extension [of one_px] by (simp add: persisted_port_def port_of_digits)
  have own: "persisted_port (Some m) (m, x) = None" for x
    by (simp add: persisted_port_def)
  have 1: "publish_forward one_px ''emulator-5554'' ''ui'' 7912 one_world =
      (\<lparr>pw_out = (True, 41001), pw_files = [(n, Some (dec_digits 41000))]\<rparr>, Inr 41000)"
    using one_fresh [of "[]" n 41000 False] one_forward(1) [of False 41001]
    by (simp add: publish_forward_def step_def attempt_def one_disk assms(2) one_world_def read_file_def put_file_def)
  have 2: "assign_locked one_px m \<lparr>pw_out = (True, 41001), pw_files = [(n, Some (dec_digits 41000))]\<rparr> =
      (\<lparr>pw_out = (True, 41002), pw_files = [(m, Some (dec_digits 41001)), (n, Some (dec_digits 41000))]\<rparr>, Inr 41001)"
    using one_fresh [of "[(n, Some (dec_digits 41000))]" m 41001 True] mn kept by (simp add: read_file_def put_file_def)
  have 3: "reassign_locked one_px m \<lparr>pw_out = (True, 41002), pw_files = [(m, Some (dec_digits 41001)), (n, Some (dec_digits 41000))]\<rparr> =
      (\<lparr>pw_out = (True, 41003), pw_files = [(m, Some (dec_digits 41002)), (n, Some (dec_digits 41000))]\<rparr>, Inr 41002)"
    using one_reassign [of 41002 m "[(m, Some (dec_digits 41001)), (n, Some (dec_digits 41000))]" True] mn kept own
    by (simp add: put_file_def List.map_filter_simps)
  have "fst (publish_forward one_px ''R58'' ''ui'' 7912 \<lparr>pw_out = (True, 41001), pw_files = [(n, Some (dec_digits 41000))]\<rparr>) =
      \<lparr>pw_out = (True, 41003), pw_files = [(m, Some (dec_digits 41002)), (n, Some (dec_digits 41000))]\<rparr>"
    using 2 3 by (simp add: publish_forward_def step_def attempt_def one_disk assms(1) one_forward(2))
  then show ?thesis
    using 1 by simp
qed

theorem slots_never_share_witness:
  "\<exists>p p'. peek one_px ''R58'' ''ui'' (fold (port_act one_px) [OpPublish ''emulator-5554'' ''ui'' 7912, OpPublish ''R58'' ''ui'' 7912] one_world) = Some p \<and>
     peek one_px ''emulator-5554'' ''ui'' (fold (port_act one_px) [OpPublish ''emulator-5554'' ''ui'' 7912, OpPublish ''R58'' ''ui'' 7912] one_world) = Some p' \<and> p \<noteq> p'"
proof -
  let ?w = "fold (port_act one_px) [OpPublish ''emulator-5554'' ''ui'' 7912, OpPublish ''R58'' ''ui'' 7912] one_world"
  have peeks: "peek one_px ''R58'' ''ui'' ?w = Some 41002" "peek one_px ''emulator-5554'' ''ui'' ?w = Some 41000"
    using one_names unfolding one_two_slots [OF refl refl]
    by (simp_all add: peek_def peek_slot_def read_file_def port_of_digits)
  have files: "pw_files one_world = []"
    by (simp add: one_world_def)
  show ?thesis
    using slots_never_share [OF one_ports_real files refl one_names peeks] peeks by blast
qed

theorem forward_keeps_owner_witness:
  "\<exists>w1. publish_forward one_px ''emulator-5554'' ''ui'' 7912 one_world = (w1, Inr 41000) \<and>
     one_rule (pw_out (fst (fold (session_act one_px)
       [OpPublish ''R58'' ''ui'' 7912, OpReserve, OpRelease ''R58'' ''ui'', OpRemove ''R58'' 7912] (w1, [40000])))) 41000 =
       Some (''emulator-5554'', 7912)"
proof -
  obtain w1 where w1: "publish_forward one_px ''emulator-5554'' ''ui'' 7912 one_world = (w1, Inr 41000)"
    using one_published by blast
  have "list_all (foreign one_px one_rule (slot_name one_px ''emulator-5554'' ''ui'') 41000)
      [OpPublish ''R58'' ''ui'' 7912, OpReserve, OpRelease ''R58'' ''ui'', OpRemove ''R58'' 7912]"
    using one_names by (simp add: foreign_def)
  moreover have "41000 \<noteq> DEFAULT_PORT" "41000 \<notin> set [40000 :: nat]"
    by (simp_all add: DEFAULT_PORT_def)
  ultimately show ?thesis
    using w1 forward_keeps_owner [OF one_adb_ok one_ports_real one_slots_ok w1 _ _ _ refl, of "[40000]"
        "[OpPublish ''R58'' ''ui'' 7912, OpReserve, OpRelease ''R58'' ''ui'', OpRemove ''R58'' 7912]"] by blast
qed

text \<open>
  Without the condition on pending removals it does not hold. A device whose rule is gone (the ADB server was restarted)
  leaves: its slot is released, another device is given the same port and publishes its rule, and then the removal
  of the device that left takes that rule away.
\<close>

lemma late_removal_hits_new_owner:
  "\<exists>w'. fold (session_act one_px) [OpRelease ''R58'' ''ui'', OpPublish ''emulator-5554'' ''ui'' 7912]
      (\<lparr>pw_out = (False, 41000), pw_files = [(slot_name one_px ''R58'' ''ui'', Some (dec_digits 41000))]\<rparr>, []) =
      (w', [41000, 7912]) \<and> peek one_px ''emulator-5554'' ''ui'' w' = Some 41000 \<and>
    one_rule (pw_out w') 41000 = Some (''emulator-5554'', 7912) \<and>
    one_rule (pw_out (fst (session_act one_px (OpRemove ''R58'' 41000) (w', [41000, 7912])))) 41000 = None"
proof -
  let ?m = "slot_name one_px ''R58'' ''ui''" and ?n = "slot_name one_px ''emulator-5554'' ''ui''"
  have left: "release one_px ''R58'' ''ui'' \<lparr>pw_out = (False, 41000), pw_files = [(?m, Some (dec_digits 41000))]\<rparr> =
      (\<lparr>pw_out = (False, 41000), pw_files = []\<rparr>, Inr (Some 41000))"
    by (simp add: release_def step_def look_def alter_def give_def one_disk read_file_def drop_file_def port_of_digits Let_def)
  have published: "publish_forward one_px ''emulator-5554'' ''ui'' 7912 \<lparr>pw_out = (False, 41000), pw_files = []\<rparr> =
      (\<lparr>pw_out = (True, 41001), pw_files = [(?n, Some (dec_digits 41000))]\<rparr>, Inr 41000)"
    using one_fresh [of "[]" ?n 41000 False] one_forward(1) [of False 41001]
    by (simp add: publish_forward_def step_def attempt_def one_disk read_file_def put_file_def)
  show ?thesis
    using left published
    by (simp add: ports_to_remove_def DEFAULT_PORT_def peek_def peek_slot_def read_file_def port_of_digits one_rule_def
        port_call_def one_px_def [THEN arg_cong [where f = px_forward_remove]])
qed

end
