(* ===== verification/WatchRules.thy ===== *)
theory WatchRules
  imports Selector FaultRestore
begin

text \<open>
  The rules of \<^verbatim>\<open>watch/watcher.rs\<close> that dismiss dialogs while a device is watched: a query on elements, the
  commands to run when one matches, a limit, and the screen it fired on last. The set behind the mutex is a
  list in insertion order. Reading a rule from JSON is derived code of a library and a parameter.
\<close>

section \<open>Rules\<close>

datatype permission_policy = PermIgnore | PermAllow | PermDeny

fun policy_str :: "permission_policy \<Rightarrow> string" where
  "policy_str PermIgnore = ''ignore''"
| "policy_str PermAllow = ''allow''"
| "policy_str PermDeny = ''deny''"

definition policy_parse :: "string \<Rightarrow> permission_policy option" where
  "policy_parse value =
     (if value \<in> {''ignore'', ''off'', ''none''} then Some PermIgnore
      else if value \<in> {''allow'', ''accept''} then Some PermAllow
      else if value \<in> {''deny'', ''dismiss''} then Some PermDeny
      else None)"

record when_query =
  wq_text :: "string option"
  wq_rid :: "string option"
  wq_desc :: "string option"
  wq_klass :: "string option"
  wq_clickable :: "bool option"

record watcher_rule =
  wr_name :: string
  wr_when :: when_query
  wr_then :: "json list"
  wr_max_fires :: "nat option"
  wr_fire_count :: nat
  wr_last_fired :: "string option"

record watcher_hit =
  wh_name :: string
  wh_matched :: element
  wh_screen_hash :: string
  wh_then :: "json list"

definition when_matches :: "(string \<Rightarrow> string) \<Rightarrow> when_query \<Rightarrow> element \<Rightarrow> bool" where
  "when_matches lower q el \<longleftrightarrow>
     text_matches lower (el_text el) (wq_text q) False \<and>
     text_matches lower (el_rid el) (wq_rid q) False \<and>
     text_matches lower (el_desc el) (wq_desc q) False \<and>
     text_matches lower (el_klass el) (wq_klass q) False \<and>
     (case wq_clickable q of Some v \<Rightarrow> el_clickable el = v | None \<Rightarrow> True)"

section \<open>The set\<close>

fun watcher_add :: "watcher_rule \<Rightarrow> watcher_rule list \<Rightarrow> watcher_rule list" where
  "watcher_add rule [] = [rule]"
| "watcher_add rule (r # rs) = (if wr_name r = wr_name rule then rule # rs else r # watcher_add rule rs)"

definition watcher_remove :: "string \<Rightarrow> watcher_rule list \<Rightarrow> watcher_rule list \<times> bool" where
  "watcher_remove name rules =
     (let kept = filter (\<lambda>r. wr_name r \<noteq> name) rules in (kept, length kept \<noteq> length rules))"

text \<open>A file holds a list of rules, or one.\<close>

definition parse_rules ::
  "(string \<Rightarrow> watcher_rule list option) \<Rightarrow> (string \<Rightarrow> watcher_rule outcome) \<Rightarrow> string \<Rightarrow> watcher_rule list outcome" where
  "parse_rules as_list as_rule text =
     (case as_list text of
        Some rules \<Rightarrow> Inr rules
      | None \<Rightarrow> (case as_rule text of Inr r \<Rightarrow> Inr [r] | Inl e \<Rightarrow> Inl e))"

fun from_files ::
  "(string \<Rightarrow> string outcome) \<Rightarrow> (string \<Rightarrow> watcher_rule list outcome) \<Rightarrow> string list \<Rightarrow> watcher_rule list \<Rightarrow> watcher_rule list outcome" where
  "from_files read_text parse [] rules = Inr rules"
| "from_files read_text parse (path # paths) rules =
     (case read_text path of
        Inl e \<Rightarrow> Inl (''reading watcher file '' @ path)
      | Inr text \<Rightarrow>
          (case parse text of
             Inl e \<Rightarrow> Inl (''parsing watcher file '' @ path)
           | Inr more_rules \<Rightarrow> from_files read_text parse paths (rules @ more_rules)))"

section \<open>Permission dialogs\<close>

definition permission_dialog_button_rule :: "string \<Rightarrow> string \<Rightarrow> watcher_rule" where
  "permission_dialog_button_rule name rid =
     \<lparr>wr_name = ''builtin_'' @ name,
      wr_when = \<lparr>wq_text = None, wq_rid = Some rid, wq_desc = None, wq_klass = None, wq_clickable = Some True\<rparr>,
      wr_then = [jobj [(''cmd'', JStr ''tap_rid''), (''value'', JStr rid)]],
      wr_max_fires = None, wr_fire_count = 0, wr_last_fired = None\<rparr>"

fun permission_dialog_rules :: "permission_policy \<Rightarrow> watcher_rule list" where
  "permission_dialog_rules PermIgnore = []"
| "permission_dialog_rules PermAllow =
     [permission_dialog_button_rule ''permission_allow_foreground'' ''permission_allow_foreground_only_button'',
      permission_dialog_button_rule ''permission_allow'' ''permission_allow_button'']"
| "permission_dialog_rules PermDeny =
     [permission_dialog_button_rule ''permission_deny'' ''permission_deny_button'',
      permission_dialog_button_rule ''permission_deny_and_dont_ask_again'' ''permission_deny_and_dont_ask_again_button'']"

definition is_builtin_permission_rule :: "string \<Rightarrow> bool" where
  "is_builtin_permission_rule name \<longleftrightarrow>
     name \<in> {''builtin_permission_allow_foreground'', ''builtin_permission_allow'', ''builtin_permission_deny'',
             ''builtin_permission_deny_and_dont_ask_again''}"

definition set_permission_dialog_policy :: "permission_policy \<Rightarrow> watcher_rule list \<Rightarrow> watcher_rule list" where
  "set_permission_dialog_policy policy rules =
     fold watcher_add (permission_dialog_rules policy)
       (filter (\<lambda>r. \<not> is_builtin_permission_rule (wr_name r)) rules)"

section \<open>Matching a screen\<close>

text \<open>One rule on one screen: what becomes of it, and the hit if it fires.\<close>

definition match_rule ::
  "(string \<Rightarrow> string) \<Rightarrow> string \<Rightarrow> element list \<Rightarrow> watcher_rule \<Rightarrow> watcher_rule \<times> watcher_hit option" where
  "match_rule lower screen_hash elements r =
     (if (case wr_max_fires r of Some m \<Rightarrow> wr_fire_count r \<ge> m | None \<Rightarrow> False) then (r, None)
      else if wr_last_fired r = Some screen_hash then (r, None)
      else (case find (when_matches lower (wr_when r)) elements of
              None \<Rightarrow> (r, None)
            | Some matched \<Rightarrow>
                (r\<lparr>wr_fire_count := u32_add (wr_fire_count r) 1, wr_last_fired := Some screen_hash\<rparr>,
                 Some \<lparr>wh_name = wr_name r, wh_matched = matched, wh_screen_hash = screen_hash, wh_then = wr_then r\<rparr>)))"

definition watcher_matches ::
  "(string \<Rightarrow> string) \<Rightarrow> string \<Rightarrow> element list \<Rightarrow> watcher_rule list \<Rightarrow> watcher_rule list \<times> watcher_hit list" where
  "watcher_matches lower screen_hash elements rules =
     (map (\<lambda>r. fst (match_rule lower screen_hash elements r)) rules,
      List.map_filter (\<lambda>r. snd (match_rule lower screen_hash elements r)) rules)"

end
