(* ===== verification/Floats.thy ===== *)
theory Floats
  imports Prelude "HOL-Library.Log_Nat"
begin

text \<open>
  Binary floating-point numbers as far as the program computes with them: a value is a rational, an infinity or not a
  number; a result is rounded to the nearest value of the format, to the even one of two that are equally near.
\<close>

datatype machine_float = FiniteFloat rat | InfiniteFloat bool | NotANumber

section \<open>Rounding\<close>

definition round_even :: "rat \<Rightarrow> int" where
  "round_even x =
     (let f = \<lfloor>x\<rfloor>; d = x - of_int f in
      if d < 1 / 2 then f else if 1 / 2 < d then f + 1 else if even f then f else f + 1)"

text \<open>The exponent of the leading bit of a positive rational.\<close>

definition leading_exponent :: "rat \<Rightarrow> int" where
  "leading_exponent x =
     (case quotient_of x of (n, d) \<Rightarrow>
        let e = bitlen n - bitlen d in if 2 powi e \<le> x then e else e - 1)"

text \<open>A format: the bits of the significand, the exponent of the smallest positive value, and of the first value too large.\<close>

definition to_format :: "int \<Rightarrow> int \<Rightarrow> int \<Rightarrow> rat \<Rightarrow> machine_float" where
  "to_format bits smallest largest x =
     (if x = 0 then FiniteFloat 0
      else
        let unit = 2 powi (max (leading_exponent \<bar>x\<bar> - bits + 1) smallest);
            r = of_int (round_even (x / unit)) * unit
        in if 2 powi largest \<le> \<bar>r\<bar> then InfiniteFloat (r < 0) else FiniteFloat r)"

definition f64_of :: "rat \<Rightarrow> machine_float" where
  "f64_of = to_format 53 (- 1074) 1024"

text \<open>\<open>f as f32\<close>\<close>

definition as_f32 :: "machine_float \<Rightarrow> machine_float" where
  "as_f32 f = (case f of FiniteFloat x \<Rightarrow> to_format 24 (- 149) 128 x | _ \<Rightarrow> f)"

text \<open>\<open>f * 1000.0\<close>\<close>

definition times_1000 :: "machine_float \<Rightarrow> machine_float" where
  "times_1000 f = (case f of FiniteFloat x \<Rightarrow> f64_of (x * 1000) | _ \<Rightarrow> f)"

text \<open>\<open>f.round().max(0.0) as u32\<close>: not a number and what is below zero is zero, what is too large the largest.\<close>

definition round_to_u32 :: "machine_float \<Rightarrow> nat" where
  "round_to_u32 f =
     (case f of
        FiniteFloat x \<Rightarrow> nat (min \<lfloor>x + 1 / 2\<rfloor> (2 ^ 32 - 1))
      | InfiniteFloat negative \<Rightarrow> if negative then 0 else 2 ^ 32 - 1
      | NotANumber \<Rightarrow> 0)"

text \<open>As a JSON number; what is not finite is null.\<close>

definition json_float :: "machine_float \<Rightarrow> json" where
  "json_float f = (case f of FiniteFloat x \<Rightarrow> JFloat x | _ \<Rightarrow> JNull)"

section \<open>Rounding is to the nearest\<close>

lemma round_even_near: "\<bar>of_int (round_even x) - x\<bar> \<le> 1 / 2"
proof -
  have "of_int \<lfloor>x\<rfloor> \<le> x" "x < of_int \<lfloor>x\<rfloor> + 1"
    using floor_correct [of x] by simp_all
  then show ?thesis
    by (auto simp: round_even_def Let_def abs_le_iff)
qed

lemma round_even_int [simp]: "round_even (of_int n) = n"
  by (simp add: round_even_def)

text \<open>The result is off by at most half a unit in the last place.\<close>

lemma to_format_near:
  assumes "to_format bits smallest largest x = FiniteFloat r" "x \<noteq> 0"
  shows "\<bar>r - x\<bar> \<le> 2 powi (max (leading_exponent \<bar>x\<bar> - bits + 1) smallest) / 2"
proof -
  define unit :: rat where "unit = 2 powi (max (leading_exponent \<bar>x\<bar> - bits + 1) smallest)"
  have unit: "0 < unit"
    by (simp add: unit_def)
  have r: "r = of_int (round_even (x / unit)) * unit"
    using assms by (simp add: to_format_def unit_def Let_def split: if_splits)
  have "r - x = (of_int (round_even (x / unit)) - x / unit) * unit"
    using unit by (simp add: r algebra_simps)
  then have "\<bar>r - x\<bar> = \<bar>of_int (round_even (x / unit)) - x / unit\<bar> * unit"
    using unit by (simp add: abs_mult)
  also have "\<dots> \<le> 1 / 2 * unit"
    using round_even_near unit by (intro mult_right_mono) simp_all
  finally show ?thesis
    by (simp add: unit_def)
qed

end
