(* ===== verification/WatchStdin.thy ===== *)
theory WatchStdin
  imports FaultRestore Floats
begin

text \<open>
  The commands read from standard input while a device is watched (\<^verbatim>\<open>watch/stdin.rs\<close>): JSON as it is, or a line of words
  with quotes. The parsers of JSON and of floating-point numbers (with their infinities and not-a-number) are parameters.
\<close>

section \<open>Words\<close>

text \<open>The open quote, the word so far and the characters left; inside quotes a backslash takes the next character.\<close>

fun shell_words_loop :: "nat option \<Rightarrow> nat list \<Rightarrow> nat list \<Rightarrow> nat list list" where
  "shell_words_loop quote cur [] = (if cur = [] then [] else [cur])"
| "shell_words_loop (Some q) cur (c # cs) =
     (if c = q then shell_words_loop None cur cs
      else if c = 0x5C then
        (case cs of [] \<Rightarrow> shell_words_loop (Some q) cur [] | n # cs' \<Rightarrow> shell_words_loop (Some q) (cur @ [n]) cs')
      else shell_words_loop (Some q) (cur @ [c]) cs)"
| "shell_words_loop None cur (c # cs) =
     (if c = 0x22 \<or> c = 0x27 then shell_words_loop (Some c) cur cs
      else if char_is_whitespace c then (if cur = [] then [] else [cur]) @ shell_words_loop None [] cs
      else shell_words_loop None (cur @ [c]) cs)"

definition shell_words :: "string \<Rightarrow> string list" where
  "shell_words line = map chars_str (shell_words_loop None [] (str_chars line))"

section \<open>Commands\<close>

record stdin_ext =
  sx_json :: "string \<Rightarrow> json outcome"
  sx_float :: "string \<Rightarrow> machine_float option"

definition arg_i32 :: "string \<Rightarrow> json outcome" where
  "arg_i32 v = (case parse_i32 v of Some n \<Rightarrow> Inr (JInt n) | None \<Rightarrow> Inl ''not an integer'')"

definition parse_f64_opt :: "stdin_ext \<Rightarrow> string option \<Rightarrow> rat \<Rightarrow> json outcome" where
  "parse_f64_opt sx v preset =
     (case v of
        None \<Rightarrow> Inr (json_float (f64_of preset))
      | Some s \<Rightarrow> (case sx_float sx s of Some f \<Rightarrow> Inr (json_float f) | None \<Rightarrow> Inl ''not a number''))"

text \<open>Octal digits after an optional plus sign, no overflow of 32 bits.\<close>

definition parse_octal :: "string \<Rightarrow> nat option" where
  "parse_octal s =
     (let ds = (case s of c # cs \<Rightarrow> if c = CHR ''+'' then cs else s | [] \<Rightarrow> s) in
      if ds = [] \<or> \<not> list_all (\<lambda>c. is_digit c \<and> (of_char c :: nat) \<le> 55) ds then None
      else let n = foldl (\<lambda>acc c. acc * 8 + (of_char c - 48)) 0 ds in if n < 2 ^ 32 then Some n else None)"

text \<open>The fields of an object, each of which may fail; the first failure in writing order is the error.\<close>

fun fields_of :: "(string \<times> json outcome) list \<Rightarrow> (string \<times> json) list outcome" where
  "fields_of [] = Inr []"
| "fields_of ((k, Inl e) # kvs) = Inl e"
| "fields_of ((k, Inr v) # kvs) = (case fields_of kvs of Inl e \<Rightarrow> Inl e | Inr vs \<Rightarrow> Inr ((k, v) # vs))"

definition object_of :: "(string \<times> json outcome) list \<Rightarrow> json outcome" where
  "object_of kvs = (case fields_of kvs of Inl e \<Rightarrow> Inl e | Inr vs \<Rightarrow> Inr (jobj vs))"

definition pair_of :: "json outcome \<Rightarrow> json outcome \<Rightarrow> json outcome" where
  "pair_of a b = (case a of Inl e \<Rightarrow> Inl e | Inr x \<Rightarrow> (case b of Inl e \<Rightarrow> Inl e | Inr y \<Rightarrow> Inr (JArr [x, y])))"

abbreviation str_of :: "string \<Rightarrow> json outcome" where "str_of s \<equiv> Inr (JStr s)"

definition need_args :: "bool \<Rightarrow> json outcome \<Rightarrow> json outcome" where
  "need_args cond r = (if cond then r else Inl ''wrong number of arguments'')"

definition shorthand :: "stdin_ext \<Rightarrow> string \<Rightarrow> string list \<Rightarrow> json outcome" where
  "shorthand sx cmd args =
     (let arg = (\<lambda>i. args ! i); n = length args; joined = join_with '' '' args in
      if cmd \<in> {''tap'', ''tap_and_wait''} then
        (if n = 1 then object_of [(''cmd'', str_of cmd), (''id'', arg_i32 (arg 0))]
         else need_args (n = 2) (object_of [(''cmd'', str_of cmd), (''x'', arg_i32 (arg 0)), (''y'', arg_i32 (arg 1))]))
      else if cmd = ''double_tap'' then
        need_args (n = 2) (object_of [(''cmd'', str_of cmd), (''x'', arg_i32 (arg 0)), (''y'', arg_i32 (arg 1))])
      else if cmd = ''long_tap'' then
        need_args (n \<ge> 2) (object_of [(''cmd'', str_of cmd), (''x'', arg_i32 (arg 0)), (''y'', arg_i32 (arg 1)),
          (''duration'', parse_f64_opt sx (nth_opt 2 args) (6 / 10))])
      else if cmd \<in> {''swipe'', ''drag''} then
        need_args (n \<ge> 4) (object_of [(''cmd'', str_of cmd),
          (''from'', pair_of (arg_i32 (arg 0)) (arg_i32 (arg 1))), (''to'', pair_of (arg_i32 (arg 2)) (arg_i32 (arg 3))),
          (''duration'', parse_f64_opt sx (nth_opt 4 args) (if cmd = ''drag'' then 5 / 10 else 2 / 10))])
      else if cmd \<in> {''tap_text'', ''tap_rid'', ''tap_desc'', ''tap_text_and_wait'', ''tap_rid_and_wait'', ''tap_desc_and_wait''} then
        object_of [(''cmd'', str_of cmd), (''value'', str_of joined)]
      else if cmd \<in> {''back'', ''home'', ''menu''} then object_of [(''cmd'', str_of ''key''), (''name'', str_of cmd)]
      else if cmd = ''key'' then need_args (n = 1) (object_of [(''cmd'', str_of cmd), (''name'', str_of (arg 0))])
      else if cmd = ''text'' then object_of [(''cmd'', str_of cmd), (''value'', str_of joined)]
      else if cmd \<in> {''launch'', ''stop'', ''app_clear'', ''app_info''} then
        need_args (n = 1) (object_of [(''cmd'', str_of cmd), (''package'', str_of (arg 0))])
      else if cmd = ''app_wait'' then
        need_args (n \<ge> 1) (object_of [(''cmd'', str_of cmd), (''package'', str_of (arg 0)),
          (''timeout'', parse_f64_opt sx (nth_opt 1 args) 20)])
      else if cmd = ''wait_activity'' then
        need_args (n \<ge> 1) (object_of [(''cmd'', str_of cmd), (''name'', str_of (arg 0)),
          (''timeout'', parse_f64_opt sx (nth_opt 1 args) 10)])
      else if cmd = ''screenshot'' then
        object_of [(''cmd'', str_of cmd), (''path'', Inr (jopt JStr (nth_opt 0 args)))]
      else if cmd = ''shell'' then object_of [(''cmd'', str_of cmd), (''value'', str_of joined)]
      else if cmd \<in> {''screen_on'', ''screen_off'', ''wakeup'', ''unlock''} then object_of [(''cmd'', str_of cmd)]
      else if cmd = ''orientation'' then
        (case nth_opt 0 args of
           Some v \<Rightarrow> object_of [(''cmd'', str_of ''set_orientation''), (''value'', str_of v)]
         | None \<Rightarrow> object_of [(''cmd'', str_of cmd)])
      else if cmd = ''clipboard'' then
        (if args = [] then object_of [(''cmd'', str_of cmd)]
         else object_of [(''cmd'', str_of ''set_clipboard''), (''value'', str_of joined)])
      else if cmd = ''notifications'' then object_of [(''cmd'', str_of ''open_notification'')]
      else if cmd = ''quick_settings'' then object_of [(''cmd'', str_of ''open_quick_settings'')]
      else if cmd \<in> {''xpath'', ''xpath_tap''} then object_of [(''cmd'', str_of cmd), (''query'', str_of joined)]
      else if cmd = ''toast'' then
        object_of [(''cmd'', str_of cmd), (''timeout'', parse_f64_opt sx (nth_opt 0 args) 5)]
      else if cmd = ''swipe_ext'' then
        need_args (n \<ge> 1) (object_of [(''cmd'', str_of cmd), (''direction'', str_of (arg 0)),
          (''scale'', parse_f64_opt sx (nth_opt 1 args) (9 / 10)), (''duration'', parse_f64_opt sx (nth_opt 2 args) (2 / 10))])
      else if cmd = ''open_url'' then need_args (n = 1) (object_of [(''cmd'', str_of cmd), (''url'', str_of (arg 0))])
      else if cmd = ''push'' then
        need_args (n \<ge> 2)
          (case nth_opt 2 args of
             None \<Rightarrow> object_of [(''cmd'', str_of cmd), (''local'', str_of (arg 0)), (''remote'', str_of (arg 1))]
           | Some mode \<Rightarrow>
               object_of [(''cmd'', str_of cmd), (''local'', str_of (arg 0)), (''remote'', str_of (arg 1)),
                 (''mode'', case parse_octal mode of Some m \<Rightarrow> Inr (jnat m) | None \<Rightarrow> Inl ''not an octal number'')])
      else if cmd = ''pull'' then
        need_args (n \<ge> 2) (object_of [(''cmd'', str_of cmd), (''remote'', str_of (arg 0)), (''local'', str_of (arg 1))])
      else if cmd \<in> {''add_watcher'', ''remove_watcher'', ''list_watchers'', ''clear_watchers''} then Inl ''requires JSON form''
      else if cmd = ''permission_dialogs'' then
        need_args (n = 1) (object_of [(''cmd'', str_of cmd), (''policy'', str_of (arg 0))])
      else if cmd = ''screen'' then object_of [(''cmd'', str_of cmd)]
      else if cmd \<in> {''quit'', ''exit''} then object_of [(''cmd'', str_of ''quit'')]
      else Inl ''unknown command'')"

definition parse_command :: "stdin_ext \<Rightarrow> string \<Rightarrow> json outcome" where
  "parse_command sx raw =
     (let line = str_trim raw in
      if line = [] \<or> starts_with line ''#'' then Inr JNull
      else if starts_with line ''{'' then sx_json sx line
      else (case shell_words line of
              [] \<Rightarrow> Inr JNull
            | cmd # args \<Rightarrow> shorthand sx cmd args))"

end
