(* ===== verification/WatchLoop.thy ===== *)
theory WatchLoop
  imports WatchRules WatchStdin
begin

text \<open>
  The watch loop (\<^verbatim>\<open>watch/loop.rs\<close>): one screen event for every real change, rules that act on it, and commands from
  standard input. The server on the device, the clock, the fault commands and the reading of a rule from
  JSON are parameters; a call of the server answers with JSON. What is printed is a list of events.
\<close>

section \<open>Events and calls\<close>

text \<open>A screen: the fields the loop reads, and the rest of what the server reports as JSON.\<close>

record screen_response =
  sr_package :: "string option"
  sr_activity :: "string option"
  sr_hash :: string
  sr_hash_version :: nat
  sr_elements :: "element list"
  sr_rest :: json

datatype watch_event =
    EvScreen screen_response
  | EvFired string string nat element
  | EvAction string json
  | EvError string string string json

datatype server_call =
    CFindTap selector_query
  | CTap int int
  | CDoubleTap int int
  | CLongTap int int nat
  | CSwipe int int int int nat
  | CDrag int int int int nat
  | CSwipeExt string machine_float nat
  | CKey string
  | CText string bool "selector_query option"
  | CAppStart string
  | CAppStop string
  | CAppClear string
  | CAppWait string nat bool
  | CAppInfo string
  | CAppCurrent
  | CScreenshot "string option"
  | CShell string nat
  | CScreenOn
  | CScreenOff
  | CUnlock
  | CWakeup
  | COrientationGet
  | COrientationSet string
  | CClipboardGet
  | CClipboardSet string
  | COpenNotifications
  | COpenQuickSettings
  | COpenUrl string
  | CXpath string
  | CXpathTap string
  | CToastStart nat
  | CToastRecent nat
  | CPush string string "nat option"
  | CPull string string
  | CFault "string list"

record 'd watch_ext =
  wx_screen :: "'d \<Rightarrow> 'd \<times> screen_response outcome"
  wx_call :: "server_call \<Rightarrow> 'd \<Rightarrow> 'd \<times> json outcome"
  wx_now :: "'d \<Rightarrow> nat"
  wx_unix_ms :: "'d \<Rightarrow> nat"
  wx_sleep :: "nat \<Rightarrow> 'd \<Rightarrow> 'd"
  wx_lower :: "string \<Rightarrow> string"
  wx_rule :: "json \<Rightarrow> watcher_rule outcome"
  wx_rule_json :: "watcher_rule \<Rightarrow> json"
  wx_json_text :: "json \<Rightarrow> string"
  wx_stdin :: stdin_ext

text \<open>Of the configuration, what decides about screens: the app to watch and the debounce.\<close>

record watch_config =
  wc_app_filter :: "string option"
  wc_debounce_ms :: nat

record 'd watch_world =
  ww_dev :: 'd
  ww_rules :: "watcher_rule list"
  ww_last :: "string option"
  ww_events :: "watch_event list"

type_synonym ('d, 'a) watch_prog = "('d watch_world, 'a) prog"

definition emit :: "watch_event \<Rightarrow> ('d, unit) watch_prog" where
  "emit e = alter (\<lambda>w. w\<lparr>ww_events := ww_events w @ [e]\<rparr>)"

definition ask :: "('d \<Rightarrow> 'd \<times> 'a outcome) \<Rightarrow> ('d, 'a) watch_prog" where
  "ask f w = (let (d, r) = f (ww_dev w) in (w\<lparr>ww_dev := d\<rparr>, r))"

definition nap :: "'d watch_ext \<Rightarrow> nat \<Rightarrow> ('d, unit) watch_prog" where
  "nap wx ms = alter (\<lambda>w. w\<lparr>ww_dev := wx_sleep wx ms (ww_dev w)\<rparr>)"

definition set_last :: "string \<Rightarrow> ('d, unit) watch_prog" where
  "set_last h = alter (\<lambda>w. w\<lparr>ww_last := Some h\<rparr>)"

section \<open>Which screens are shown\<close>

definition is_system_interruption :: "string \<Rightarrow> bool" where
  "is_system_interruption package \<longleftrightarrow>
     package \<in> {''com.android.permissioncontroller'', ''com.google.android.permissioncontroller'', ''com.android.systemui'',
                ''com.google.android.packageinstaller'', ''com.android.packageinstaller''}"

definition should_emit_package :: "string option \<Rightarrow> string option \<Rightarrow> bool" where
  "should_emit_package app_filter package \<longleftrightarrow>
     (case app_filter of
        None \<Rightarrow> True
      | Some f \<Rightarrow> (case package of None \<Rightarrow> False | Some p \<Rightarrow> p = f \<or> is_system_interruption p))"

definition should_emit_screen :: "string option \<Rightarrow> string option \<Rightarrow> bool \<Rightarrow> bool" where
  "should_emit_screen app_filter package force \<longleftrightarrow> force \<or> should_emit_package app_filter package"

datatype wake = WakeEvent | WakePoll | WakeCommand | WakeInit

fun debounce_delay_ms :: "wake \<Rightarrow> nat \<Rightarrow> nat" where
  "debounce_delay_ms WakeEvent ms = ms"
| "debounce_delay_ms WakeInit ms = ms"
| "debounce_delay_ms WakeCommand ms = 0"
| "debounce_delay_ms WakePoll ms = 0"

definition is_ui_wake_line :: "string \<Rightarrow> bool" where
  "is_ui_wake_line line \<longleftrightarrow>
     list_ex (str_contains line)
       [''Activity'', ''Window'', ''focused'', ''addWindow'', ''removeWindow'', ''TYPE_WINDOW'', ''startActivity'', ''resumeActivity'']"

section \<open>Fields of a command\<close>

definition jfind :: "string \<Rightarrow> json \<Rightarrow> json option" where
  "jfind key j = (case j of JObj kvs \<Rightarrow> map_of kvs key | _ \<Rightarrow> None)"

definition field_str :: "string \<Rightarrow> json \<Rightarrow> string option" where
  "field_str key j = Option.bind (jfind key j) json_str"

definition req_str :: "json \<Rightarrow> string \<Rightarrow> string outcome" where
  "req_str cmd key = (case field_str key cmd of Some s \<Rightarrow> Inr s | None \<Rightarrow> Inl (''missing string field `'' @ key @ ''`''))"

fun req_any_str :: "json \<Rightarrow> string list \<Rightarrow> string outcome" where
  "req_any_str cmd [] = Inl ''missing string field''"
| "req_any_str cmd (key # keys) = (case field_str key cmd of Some s \<Rightarrow> Inr s | None \<Rightarrow> req_any_str cmd keys)"

definition parse_i64 :: "string \<Rightarrow> int option" where
  "parse_i64 s =
     (case s of
        c # ds \<Rightarrow>
          if c = CHR ''-'' then
            (if starts_with ds ''+'' then None
             else case parse_unsigned 64 ds of Some n \<Rightarrow> if n \<le> 2 ^ 63 then Some (- int n) else None | None \<Rightarrow> None)
          else map_option int (parse_unsigned 63 s)
      | [] \<Rightarrow> None)"

definition as_i64 :: "json \<Rightarrow> int option" where
  "as_i64 v =
     (case v of
        JInt n \<Rightarrow> if - (2 ^ 63) \<le> n \<and> n < 2 ^ 63 then Some n else None
      | JStr s \<Rightarrow> parse_i64 s
      | _ \<Rightarrow> None)"

definition as_i32 :: "json \<Rightarrow> int option" where
  "as_i32 v = Option.bind (as_i64 v) (\<lambda>n. if - (2 ^ 31) \<le> n \<and> n < 2 ^ 31 then Some n else None)"

definition as_u32 :: "json \<Rightarrow> nat option" where
  "as_u32 v = Option.bind (as_i64 v) (\<lambda>n. if 0 \<le> n \<and> n < 2 ^ 32 then Some (nat n) else None)"

definition as_number :: "'d watch_ext \<Rightarrow> json \<Rightarrow> machine_float option" where
  "as_number wx v =
     (case v of
        JInt n \<Rightarrow> Some (f64_of (of_int n))
      | JFloat f \<Rightarrow> Some (FiniteFloat f)
      | JStr s \<Rightarrow> sx_float (wx_stdin wx) s
      | _ \<Rightarrow> None)"

definition req_i32 :: "json \<Rightarrow> string \<Rightarrow> int outcome" where
  "req_i32 cmd key =
     (case Option.bind (jfind key cmd) as_i32 of Some n \<Rightarrow> Inr n | None \<Rightarrow> Inl (''missing integer field `'' @ key @ ''`''))"

definition opt_u32 :: "json \<Rightarrow> string \<Rightarrow> nat option outcome" where
  "opt_u32 cmd key =
     (case jfind key cmd of
        None \<Rightarrow> Inr None
      | Some v \<Rightarrow> (case as_u32 v of Some n \<Rightarrow> Inr (Some n) | None \<Rightarrow> Inl ''must be a non-negative integer''))"

definition opt_f32 :: "'d watch_ext \<Rightarrow> json \<Rightarrow> string \<Rightarrow> machine_float option outcome" where
  "opt_f32 wx cmd key =
     (case jfind key cmd of
        None \<Rightarrow> Inr None
      | Some v \<Rightarrow> (case as_number wx v of Some f \<Rightarrow> Inr (Some (as_f32 f)) | None \<Rightarrow> Inl ''must be a number''))"

definition opt_bool :: "json \<Rightarrow> string \<Rightarrow> bool option" where
  "opt_bool cmd key = (case jfind key cmd of Some (JBool b) \<Rightarrow> Some b | _ \<Rightarrow> None)"

definition req_pair :: "json \<Rightarrow> string \<Rightarrow> (int \<times> int) outcome" where
  "req_pair cmd key =
     (case jfind key cmd of
        Some (JArr [a, b]) \<Rightarrow>
          (case (as_i32 a, as_i32 b) of (Some x, Some y) \<Rightarrow> Inr (x, y) | _ \<Rightarrow> Inl ''must be an integer'')
      | Some (JArr vs) \<Rightarrow> Inl ''must have exactly two integers''
      | _ \<Rightarrow> Inl ''missing array field'')"

text \<open>\<open>(secs * 1000.0).round().max(0.0) as u32\<close>\<close>

definition secs_ms :: "machine_float \<Rightarrow> nat" where
  "secs_ms secs = round_to_u32 (times_1000 secs)"

definition ms_field :: "'d watch_ext \<Rightarrow> string \<Rightarrow> string \<Rightarrow> json \<Rightarrow> nat \<Rightarrow> nat outcome" where
  "ms_field wx in_ms in_secs cmd default_ms =
     (case jfind in_ms cmd of
        Some v \<Rightarrow> (case as_u32 v of Some n \<Rightarrow> Inr n | None \<Rightarrow> Inl ''must be a non-negative integer'')
      | None \<Rightarrow>
          (case jfind in_secs cmd of
             Some v \<Rightarrow> (case as_number wx v of Some secs \<Rightarrow> Inr (secs_ms secs) | None \<Rightarrow> Inl ''must be a number'')
           | None \<Rightarrow> Inr default_ms))"

definition watch_duration_ms :: "'d watch_ext \<Rightarrow> json \<Rightarrow> nat \<Rightarrow> nat outcome" where
  "watch_duration_ms wx = ms_field wx ''duration_ms'' ''duration''"

definition timeout_ms :: "'d watch_ext \<Rightarrow> json \<Rightarrow> nat \<Rightarrow> nat outcome" where
  "timeout_ms wx = ms_field wx ''timeout_ms'' ''timeout''"

definition toast_timeout_ms :: "'d watch_ext \<Rightarrow> json \<Rightarrow> nat outcome" where
  "toast_timeout_ms wx cmd =
     (if jfind ''timeout_ms'' cmd \<noteq> None \<or> jfind ''timeout'' cmd \<noteq> None then timeout_ms wx cmd 5000
      else (case jfind ''wait'' cmd of
              Some v \<Rightarrow> (case as_number wx v of Some secs \<Rightarrow> Inr (secs_ms secs) | None \<Rightarrow> Inl ''must be a number'')
            | None \<Rightarrow> Inr 5000))"

definition selector_query_from_cmd :: "json \<Rightarrow> selector_query option outcome" where
  "selector_query_from_cmd cmd =
     (case opt_u32 cmd ''id'' of
        Inl e \<Rightarrow> Inl e
      | Inr eid \<Rightarrow>
          let text = field_str ''text'' cmd; rid = field_str ''rid'' cmd; desc = field_str ''desc'' cmd;
              klass = field_str ''klass'' cmd; xpath = field_str ''xpath'' cmd
          in if eid = None \<and> text = None \<and> rid = None \<and> desc = None \<and> klass = None \<and> xpath = None then Inr None
             else Inr (Some (selector_query_default\<lparr>sq_id := eid, sq_text := text, sq_rid := rid, sq_desc := desc, sq_klass := klass,
                    sq_xpath := xpath, sq_exact := (case opt_bool cmd ''exact'' of Some b \<Rightarrow> b | None \<Rightarrow> False)\<rparr>)))"

definition optional_field :: "string \<Rightarrow> ('a \<Rightarrow> json) \<Rightarrow> 'a option \<Rightarrow> (string \<times> json) list" where
  "optional_field k f v = (case v of None \<Rightarrow> [] | Some a \<Rightarrow> [(k, f a)])"

definition query_json :: "selector_query \<Rightarrow> json" where
  "query_json q =
     jobj (optional_field ''id'' jnat (sq_id q) @ optional_field ''text'' JStr (sq_text q) @ optional_field ''rid'' JStr (sq_rid q) @
       optional_field ''desc'' JStr (sq_desc q) @ optional_field ''klass'' JStr (sq_klass q) @ optional_field ''xpath'' JStr (sq_xpath q) @
       [(''all'', JBool (sq_all q)), (''exact'', JBool (sq_exact q))] @
       optional_field ''clickable'' JBool (sq_clickable q) @ optional_field ''enabled'' JBool (sq_enabled q) @
       [(''coordinate_fallback'', JBool (sq_coordinate_fallback q))])"

section \<open>Waiting\<close>

definition field_within :: "json \<Rightarrow> string \<Rightarrow> string option \<Rightarrow> bool" where
  "field_within cmd key actual \<longleftrightarrow>
     (case field_str key cmd of None \<Rightarrow> True | Some s \<Rightarrow> str_contains (case actual of Some a \<Rightarrow> a | None \<Rightarrow> []) s)"

definition wait_query_matches :: "'d watch_ext \<Rightarrow> json \<Rightarrow> screen_response \<Rightarrow> bool" where
  "wait_query_matches wx cmd screen \<longleftrightarrow>
     (let text = field_str ''text'' cmd; rid = field_str ''rid'' cmd; desc = field_str ''desc'' cmd; klass = field_str ''klass'' cmd
      in field_within cmd ''package'' (sr_package screen) \<and> field_within cmd ''activity'' (sr_activity screen) \<and>
         (text = None \<and> rid = None \<and> desc = None \<and> klass = None \<or>
          list_ex (\<lambda>el. text_matches (wx_lower wx) (el_text el) text False \<and>
              text_matches (wx_lower wx) (el_rid el) rid False \<and>
              text_matches (wx_lower wx) (el_desc el) desc False \<and>
              text_matches (wx_lower wx) (el_klass el) klass False) (sr_elements screen)))"

definition has_wait_query :: "json \<Rightarrow> bool" where
  "has_wait_query cmd \<longleftrightarrow>
     list_ex (\<lambda>key. field_str key cmd \<noteq> None) [''text'', ''rid'', ''desc'', ''klass'', ''package'', ''activity'']"

record tap_outcome =
  ta_id :: json
  ta_x :: json
  ta_y :: json
  ta_source :: json

definition tap_json :: "tap_outcome \<Rightarrow> json" where
  "tap_json t = jobj [(''id'', ta_id t), (''x'', ta_x t), (''y'', ta_y t), (''source'', ta_source t)]"

text \<open>
  After an action: until the query holds (or no longer holds), or without one until the screen changes. Fuel
  for as many rounds as fit before the deadline, and two more.
\<close>

fun wait_after_loop ::
  "'d watch_ext \<Rightarrow> watch_config \<Rightarrow> json \<Rightarrow> string option \<Rightarrow> string \<Rightarrow> tap_outcome \<Rightarrow> nat \<Rightarrow> bool \<Rightarrow> nat \<Rightarrow> nat \<Rightarrow> ('d, unit) watch_prog" where
  "wait_after_loop wx cfg cmd start_hash action_cmd tap poll gone deadline 0 = stop ''out of fuel''"
| "wait_after_loop wx cfg cmd start_hash action_cmd tap poll gone deadline (Suc fuel) =
     step (ask (wx_screen wx)) (\<lambda>screen.
     step (look (\<lambda>w. deadline \<le> wx_now wx (ww_dev w))) (\<lambda>timed_out.
     if wc_app_filter cfg \<noteq> None \<and> \<not> should_emit_package (wc_app_filter cfg) (sr_package screen) then
       if timed_out then stop ''timed out outside the app filter''
       else step (nap wx poll) (\<lambda>u. wait_after_loop wx cfg cmd start_hash action_cmd tap poll gone deadline fuel)
     else
       let changed = (case start_hash of None \<Rightarrow> True | Some h \<Rightarrow> h \<noteq> sr_hash screen);
           finished = (if has_wait_query cmd then wait_query_matches wx cmd screen \<noteq> gone else changed)
       in if finished \<or> timed_out then
            step (set_last (sr_hash screen)) (\<lambda>u.
            step (emit (EvScreen screen)) (\<lambda>u.
            if timed_out \<and> \<not> finished then stop ''wait timed out''
            else emit (EvAction action_cmd (jobj [(''matched'', JBool True), (''timeout'', JBool False),
              (''screen_hash'', JStr (sr_hash screen)), (''screen_hash_version'', jnat (sr_hash_version screen)),
              (''hash_changed'', JBool changed), (''tap'', tap_json tap)]))))
          else step (nap wx poll) (\<lambda>u. wait_after_loop wx cfg cmd start_hash action_cmd tap poll gone deadline fuel)))"

definition poll_of :: "json \<Rightarrow> nat \<Rightarrow> nat outcome" where
  "poll_of cmd default_ms =
     (case opt_u32 cmd ''poll_ms'' of
        Inl e \<Rightarrow> Inl e
      | Inr p \<Rightarrow> Inr (max (case p of Some n \<Rightarrow> n | None \<Rightarrow> default_ms) 1))"

definition gone_of :: "json \<Rightarrow> bool" where
  "gone_of cmd = (case opt_bool cmd ''gone'' of Some b \<Rightarrow> b | None \<Rightarrow> False)"

definition wait_after_action ::
  "'d watch_ext \<Rightarrow> watch_config \<Rightarrow> json \<Rightarrow> string option \<Rightarrow> string \<Rightarrow> tap_outcome \<Rightarrow> ('d, unit) watch_prog" where
  "wait_after_action wx cfg cmd start_hash action_cmd tap =
     step (lift (timeout_ms wx cmd 2000)) (\<lambda>timeout.
     step (lift (poll_of cmd 25)) (\<lambda>poll.
     step (look (\<lambda>w. wx_now wx (ww_dev w) + timeout)) (\<lambda>deadline.
     wait_after_loop wx cfg cmd start_hash action_cmd tap poll (gone_of cmd) deadline (timeout div poll + 2))))"

fun wait_activity_loop :: "'d watch_ext \<Rightarrow> string \<Rightarrow> nat \<Rightarrow> nat \<Rightarrow> ('d, unit) watch_prog" where
  "wait_activity_loop wx name deadline 0 = stop ''out of fuel''"
| "wait_activity_loop wx name deadline (Suc fuel) =
     step (ask (wx_call wx CAppCurrent)) (\<lambda>cur.
     if str_contains (case field_str ''activity'' cur of Some a \<Rightarrow> a | None \<Rightarrow> []) name then
       emit (EvAction ''wait_activity'' (jobj [(''name'', JStr name), (''matched'', JBool True), (''current'', cur)]))
     else
       step (look (\<lambda>w. deadline \<le> wx_now wx (ww_dev w))) (\<lambda>timed_out.
       if timed_out then stop ''wait_activity timed out''
       else step (nap wx 200) (\<lambda>u. wait_activity_loop wx name deadline fuel)))"

definition wait_activity :: "'d watch_ext \<Rightarrow> string \<Rightarrow> nat \<Rightarrow> ('d, unit) watch_prog" where
  "wait_activity wx name timeout =
     step (look (\<lambda>w. wx_now wx (ww_dev w) + timeout)) (\<lambda>deadline.
     wait_activity_loop wx name deadline (timeout div 200 + 2))"

fun wait_for_screen_loop :: "'d watch_ext \<Rightarrow> json \<Rightarrow> bool \<Rightarrow> nat \<Rightarrow> nat \<Rightarrow> nat \<Rightarrow> ('d, unit) watch_prog" where
  "wait_for_screen_loop wx cmd gone poll deadline 0 = stop ''out of fuel''"
| "wait_for_screen_loop wx cmd gone poll deadline (Suc fuel) =
     step (ask (wx_screen wx)) (\<lambda>screen.
     if wait_query_matches wx cmd screen \<noteq> gone then
       emit (EvAction ''wait_for'' (jobj [(''matched'', JBool (wait_query_matches wx cmd screen)), (''gone'', JBool gone),
         (''screen_hash'', JStr (sr_hash screen)), (''screen_hash_version'', jnat (sr_hash_version screen))]))
     else
       step (look (\<lambda>w. deadline \<le> wx_now wx (ww_dev w))) (\<lambda>timed_out.
       if timed_out then stop ''wait_for timed out''
       else step (nap wx poll) (\<lambda>u. wait_for_screen_loop wx cmd gone poll deadline fuel)))"

definition wait_for_screen :: "'d watch_ext \<Rightarrow> json \<Rightarrow> bool \<Rightarrow> nat \<Rightarrow> nat \<Rightarrow> ('d, unit) watch_prog" where
  "wait_for_screen wx cmd gone timeout poll =
     step (look (\<lambda>w. wx_now wx (ww_dev w) + timeout)) (\<lambda>deadline.
     wait_for_screen_loop wx cmd gone poll deadline (timeout div poll + 2))"

fun toast_loop :: "'d watch_ext \<Rightarrow> nat \<Rightarrow> nat \<Rightarrow> nat \<Rightarrow> ('d, unit) watch_prog" where
  "toast_loop wx start deadline 0 = stop ''out of fuel''"
| "toast_loop wx start deadline (Suc fuel) =
     step (ask (wx_call wx (CToastRecent start))) (\<lambda>recent.
     step (look (\<lambda>w. deadline \<le> wx_now wx (ww_dev w))) (\<lambda>timed_out.
     if jget ''toasts'' recent \<noteq> JArr [] \<or> timed_out then emit (EvAction ''toast'' (jobj [(''toasts'', jget ''toasts'' recent)]))
     else step (nap wx 100) (\<lambda>u. toast_loop wx start deadline fuel)))"

section \<open>Commands\<close>

datatype dispatch_outcome = Handled | Continue | ScreenOnly | Quit

text \<open>A call of the server, what is printed of it, and on with the loop.\<close>

definition acted :: "string \<Rightarrow> (string \<times> json) list \<Rightarrow> ('d, dispatch_outcome) watch_prog" where
  "acted name payload = step (emit (EvAction name (jobj payload))) (\<lambda>u. give Continue)"

definition call_then ::
  "'d watch_ext \<Rightarrow> server_call \<Rightarrow> (json \<Rightarrow> ('d, 'a) watch_prog) \<Rightarrow> ('d, 'a) watch_prog" where
  "call_then wx c k = step (ask (wx_call wx c)) k"

definition found_fields :: "json \<Rightarrow> (string \<times> json) list" where
  "found_fields r =
     [(''selector_matched'', JBool True), (''actionable_resolved'', jget ''actionable_resolved'' r),
      (''input_delivered'', jget ''input_delivered'' r), (''matched_element'', jget ''matched'' r),
      (''activated_element'', jget ''activated_element'' r)]"

definition source_of :: "json \<Rightarrow> json" where
  "source_of r = (case jget ''action'' r of JStr s \<Rightarrow> JStr s | _ \<Rightarrow> JStr ''server'')"

definition dispatch_tap :: "'d watch_ext \<Rightarrow> json \<Rightarrow> string \<Rightarrow> ('d, tap_outcome) watch_prog" where
  "dispatch_tap wx cmd action_cmd =
     step (lift (selector_query_from_cmd cmd)) (\<lambda>query.
     case query of
       Some q \<Rightarrow>
         step (look ww_last) (\<lambda>last_hash.
         if sq_id q \<noteq> None \<and> field_str ''screen_hash'' cmd \<noteq> None \<and> last_hash \<noteq> field_str ''screen_hash'' cmd
         then stop ''stale screen id''
         else call_then wx (CFindTap q) (\<lambda>r.
           step (emit (EvAction action_cmd (jobj ([(''id'', jopt jnat (sq_id q)), (''selector'', query_json q), (''x'', jget ''x'' r),
             (''y'', jget ''y'' r), (''source'', source_of r)] @ found_fields r)))) (\<lambda>u.
           give \<lparr>ta_id = jopt jnat (sq_id q), ta_x = jget ''x'' r, ta_y = jget ''y'' r, ta_source = source_of r\<rparr>)))
     | None \<Rightarrow>
         if jfind ''x'' cmd = None \<and> jfind ''y'' cmd = None then stop ''tap needs a selector''
         else
           step (lift (req_i32 cmd ''x'')) (\<lambda>x.
           step (lift (req_i32 cmd ''y'')) (\<lambda>y.
           call_then wx (CTap x y) (\<lambda>r.
           step (emit (EvAction action_cmd (jobj [(''x'', JInt x), (''y'', JInt y), (''source'', JStr ''coordinates'')]))) (\<lambda>u.
           give \<lparr>ta_id = JNull, ta_x = JInt x, ta_y = JInt y, ta_source = JStr ''coordinates''\<rparr>)))))"

definition dispatch_pointer :: "'d watch_ext \<Rightarrow> watch_config \<Rightarrow> string \<Rightarrow> json \<Rightarrow> ('d, dispatch_outcome) watch_prog" where
  "dispatch_pointer wx cfg op cmd =
     (if op = ''tap'' then step (dispatch_tap wx cmd op) (\<lambda>t. give Continue)
      else if op = ''tap_and_wait'' then
        step (look ww_last) (\<lambda>start_hash.
        step (dispatch_tap wx cmd op) (\<lambda>t.
        step (wait_after_action wx cfg cmd start_hash op t) (\<lambda>u. give Handled)))
      else if op = ''double_tap'' then
        step (lift (req_i32 cmd ''x'')) (\<lambda>x.
        step (lift (req_i32 cmd ''y'')) (\<lambda>y.
        call_then wx (CDoubleTap x y) (\<lambda>r. acted op [(''x'', JInt x), (''y'', JInt y)])))
      else if op = ''long_tap'' then
        step (lift (req_i32 cmd ''x'')) (\<lambda>x.
        step (lift (req_i32 cmd ''y'')) (\<lambda>y.
        step (lift (watch_duration_ms wx cmd 600)) (\<lambda>ms.
        call_then wx (CLongTap x y ms) (\<lambda>r. acted op [(''x'', JInt x), (''y'', JInt y), (''duration_ms'', jnat ms)]))))
      else if op = ''swipe'' \<or> op = ''drag'' then
        step (lift (req_pair cmd ''from'')) (\<lambda>from_xy.
        step (lift (req_pair cmd ''to'')) (\<lambda>to_xy.
        step (lift (watch_duration_ms wx cmd (if op = ''drag'' then 500 else 200))) (\<lambda>ms.
        call_then wx ((if op = ''drag'' then CDrag else CSwipe) (fst from_xy) (snd from_xy) (fst to_xy) (snd to_xy) ms) (\<lambda>r.
          acted op [(''from'', JArr [JInt (fst from_xy), JInt (snd from_xy)]),
            (''to'', JArr [JInt (fst to_xy), JInt (snd to_xy)]), (''duration_ms'', jnat ms)]))))
      else
        step (lift (req_str cmd ''direction'')) (\<lambda>direction.
        step (lift (opt_f32 wx cmd ''scale'')) (\<lambda>scale.
        let scale = (case scale of Some f \<Rightarrow> f | None \<Rightarrow> as_f32 (FiniteFloat (9 / 10))) in
        step (lift (watch_duration_ms wx cmd 200)) (\<lambda>ms.
        call_then wx (CSwipeExt direction scale ms) (\<lambda>r.
          acted op [(''direction'', JStr direction), (''scale'', json_float scale), (''duration_ms'', jnat ms)])))))"

definition dispatch_input :: "'d watch_ext \<Rightarrow> string \<Rightarrow> json \<Rightarrow> ('d, dispatch_outcome) watch_prog" where
  "dispatch_input wx op cmd =
     (if op = ''key'' then
        step (lift (req_str cmd ''name'')) (\<lambda>name.
        call_then wx (CKey name) (\<lambda>injected. acted op [(''name'', JStr name), (''injected'', injected)]))
      else
        step (lift (req_str cmd ''value'')) (\<lambda>value.
        let clear = (case opt_bool cmd ''clear'' of Some b \<Rightarrow> b | None \<Rightarrow> False) in
        step (lift (selector_query_from_cmd cmd)) (\<lambda>target.
        call_then wx (CText value clear target) (\<lambda>r.
          acted op [(''value'', JStr value), (''clear'', JBool clear), (''target'', jopt query_json target)]))))"

definition dispatch_app :: "'d watch_ext \<Rightarrow> string \<Rightarrow> json \<Rightarrow> ('d, dispatch_outcome) watch_prog" where
  "dispatch_app wx op cmd =
     (if op = ''fault'' then
        (case jfind ''args'' cmd of
           Some (JArr vs) \<Rightarrow> call_then wx (CFault (List.map_filter json_str vs)) (\<lambda>r. give Continue)
         | _ \<Rightarrow> stop ''fault needs args'')
      else if op = ''wait_activity'' then
        step (lift (req_str cmd ''name'')) (\<lambda>name.
        step (lift (timeout_ms wx cmd 10000)) (\<lambda>timeout.
        step (wait_activity wx name timeout) (\<lambda>u. give Continue)))
      else
        step (lift (req_str cmd ''package'')) (\<lambda>package.
        if op = ''launch'' then call_then wx (CAppStart package) (\<lambda>r. acted op [(''package'', JStr package)])
        else if op = ''stop'' then call_then wx (CAppStop package) (\<lambda>r. acted op [(''package'', JStr package)])
        else if op = ''app_clear'' then call_then wx (CAppClear package) (\<lambda>r. acted op [(''package'', JStr package)])
        else if op = ''app_info'' then
          call_then wx (CAppInfo package) (\<lambda>info.
            acted op [(''package'', JStr package), (''version_name'', jget ''version_name'' info),
              (''version_code'', jget ''version_code'' info), (''label'', jget ''label'' info)])
        else
          step (lift (timeout_ms wx cmd 20000)) (\<lambda>timeout.
          let front = (case opt_bool cmd ''front'' of Some b \<Rightarrow> b | None \<Rightarrow> False) in
          call_then wx (CAppWait package timeout front) (\<lambda>r.
            if jget ''matched'' r \<noteq> JBool True then stop ''app_wait timed out''
            else acted op [(''package'', JStr package), (''matched'', jget ''matched'' r), (''current'', jget ''current'' r)]))))"

definition dispatch_device :: "'d watch_ext \<Rightarrow> string \<Rightarrow> json \<Rightarrow> ('d, dispatch_outcome) watch_prog" where
  "dispatch_device wx op cmd =
     (if op = ''screenshot'' then
        call_then wx (CScreenshot (field_str ''path'' cmd)) (\<lambda>r. acted op [(''path'', jget ''path'' r), (''bytes'', jget ''bytes'' r)])
      else if op = ''shell'' then
        step (lift (req_any_str cmd [''value'', ''input'', ''cmdline''])) (\<lambda>value.
        step (lift (timeout_ms wx cmd 30000)) (\<lambda>timeout.
        call_then wx (CShell value timeout) (\<lambda>r.
          if jget ''exit_code'' r \<noteq> JNull \<and> jget ''exit_code'' r \<noteq> JInt 0 then stop ''device shell exited''
          else acted op [(''input'', jget ''input'' r), (''output'', jget ''output'' r), (''exit_code'', jget ''exit_code'' r)])))
      else if op = ''screen_on'' then call_then wx CScreenOn (\<lambda>r. acted op [])
      else if op = ''screen_off'' then call_then wx CScreenOff (\<lambda>r. acted op [])
      else if op = ''unlock'' then call_then wx CUnlock (\<lambda>r. acted op [])
      else if op = ''wakeup'' then call_then wx CWakeup (\<lambda>r. acted op [])
      else if op = ''orientation'' then call_then wx COrientationGet (\<lambda>v. acted op [(''value'', v)])
      else if op = ''set_orientation'' then
        step (lift (req_str cmd ''value'')) (\<lambda>value. call_then wx (COrientationSet value) (\<lambda>r. acted op [(''value'', JStr value)]))
      else if op = ''clipboard'' then call_then wx CClipboardGet (\<lambda>v. acted op [(''value'', v)])
      else if op = ''set_clipboard'' then
        step (lift (req_str cmd ''value'')) (\<lambda>value. call_then wx (CClipboardSet value) (\<lambda>r. acted op [(''value'', JStr value)]))
      else if op = ''open_notification'' then call_then wx COpenNotifications (\<lambda>r. acted op [])
      else if op = ''open_quick_settings'' then call_then wx COpenQuickSettings (\<lambda>r. acted op [])
      else
        step (lift (req_str cmd ''url'')) (\<lambda>url. call_then wx (COpenUrl url) (\<lambda>r. acted op [(''url'', JStr url)])))"

definition dispatch_toast :: "'d watch_ext \<Rightarrow> json \<Rightarrow> ('d, dispatch_outcome) watch_prog" where
  "dispatch_toast wx cmd =
     step (lift (toast_timeout_ms wx cmd)) (\<lambda>wait.
     step (look (\<lambda>w. wx_unix_ms wx (ww_dev w))) (\<lambda>start.
     call_then wx (CToastStart 50) (\<lambda>r.
     step (look (\<lambda>w. wx_now wx (ww_dev w) + wait)) (\<lambda>deadline.
     step (toast_loop wx start deadline (wait div 100 + 2)) (\<lambda>u. give Continue)))))"

definition base_op :: "string \<Rightarrow> string" where
  "base_op op = (if ends_with op ''_and_wait'' then take (length op - 9) op else op)"

definition value_query :: "string \<Rightarrow> string \<Rightarrow> selector_query" where
  "value_query op value =
     (if base_op op = ''tap_text'' then selector_query_default\<lparr>sq_text := Some value\<rparr>
      else if base_op op = ''tap_rid'' then selector_query_default\<lparr>sq_rid := Some value\<rparr>
      else selector_query_default\<lparr>sq_desc := Some value\<rparr>)"

definition dispatch_value_tap :: "'d watch_ext \<Rightarrow> watch_config \<Rightarrow> string \<Rightarrow> json \<Rightarrow> ('d, dispatch_outcome) watch_prog" where
  "dispatch_value_tap wx cfg op cmd =
     step (lift (req_str cmd ''value'')) (\<lambda>value.
     step (look ww_last) (\<lambda>start_hash.
     call_then wx (CFindTap (value_query op value)) (\<lambda>r.
     step (emit (EvAction (base_op op) (jobj ([(''value'', JStr value), (''x'', jget ''x'' r), (''y'', jget ''y'' r),
       (''action'', jget ''action'' r)] @ found_fields r)))) (\<lambda>u.
     if ends_with op ''_and_wait'' then
       step (wait_after_action wx cfg cmd start_hash op
         \<lparr>ta_id = jget ''id'' (jget ''matched'' r), ta_x = jget ''x'' r, ta_y = jget ''y'' r, ta_source = source_of r\<rparr>) (\<lambda>u.
       give Handled)
     else give Continue))))"

definition dispatch_xpath :: "'d watch_ext \<Rightarrow> string \<Rightarrow> json \<Rightarrow> ('d, dispatch_outcome) watch_prog" where
  "dispatch_xpath wx op cmd =
     step (lift (req_any_str cmd [''query'', ''value''])) (\<lambda>query.
     if op = ''xpath'' then
       call_then wx (CXpath query) (\<lambda>r.
         acted op [(''query'', JStr query), (''matched'', jget ''matched'' r), (''elements'', jget ''elements'' r)])
     else
       call_then wx (CXpathTap query) (\<lambda>r.
         acted op ([(''query'', JStr query), (''x'', jget ''x'' r), (''y'', jget ''y'' r), (''action'', jget ''action'' r)] @
           found_fields r)))"

definition dispatch_wait_for :: "'d watch_ext \<Rightarrow> json \<Rightarrow> ('d, dispatch_outcome) watch_prog" where
  "dispatch_wait_for wx cmd =
     step (lift (timeout_ms wx cmd 10000)) (\<lambda>timeout.
     step (lift (poll_of cmd 200)) (\<lambda>poll.
     step (wait_for_screen wx cmd (gone_of cmd) timeout poll) (\<lambda>u. give Continue)))"

definition dispatch_file :: "'d watch_ext \<Rightarrow> string \<Rightarrow> json \<Rightarrow> ('d, dispatch_outcome) watch_prog" where
  "dispatch_file wx op cmd =
     (if op = ''push'' then
        step (lift (req_str cmd ''local'')) (\<lambda>local_path.
        step (lift (req_str cmd ''remote'')) (\<lambda>remote.
        step (lift (opt_u32 cmd ''mode'')) (\<lambda>mode.
        call_then wx (CPush remote local_path mode) (\<lambda>r.
          if mode \<noteq> None \<and> jopt jnat mode \<noteq> jget ''mode'' r then stop ''file_mode_postcondition_failed''
          else acted op ([(''local'', JStr local_path), (''remote'', JStr remote), (''path'', jget ''path'' r),
            (''bytes'', jget ''bytes'' r), (''mode'', jget ''mode'' r)] @ optional_field ''requested_mode'' jnat mode)))))
      else
        step (lift (req_str cmd ''remote'')) (\<lambda>remote.
        step (lift (req_str cmd ''local'')) (\<lambda>local_path.
        call_then wx (CPull remote local_path) (\<lambda>r.
          acted op [(''remote'', JStr remote), (''local'', JStr local_path), (''bytes'', jget ''bytes'' r)]))))"

definition without_key :: "string \<Rightarrow> json \<Rightarrow> json" where
  "without_key key j = (case j of JObj kvs \<Rightarrow> JObj (filter (\<lambda>kv. fst kv \<noteq> key) kvs) | v \<Rightarrow> v)"

definition change_rules :: "(watcher_rule list \<Rightarrow> watcher_rule list) \<Rightarrow> ('d, unit) watch_prog" where
  "change_rules f = alter (\<lambda>w. w\<lparr>ww_rules := f (ww_rules w)\<rparr>)"

definition dispatch_watcher :: "'d watch_ext \<Rightarrow> string \<Rightarrow> json \<Rightarrow> ('d, dispatch_outcome) watch_prog" where
  "dispatch_watcher wx op cmd =
     (if op = ''add_watcher'' then
        step (lift (wx_rule wx (case jfind ''rule'' cmd of Some v \<Rightarrow> v | None \<Rightarrow> without_key ''cmd'' cmd))) (\<lambda>rule.
        step (change_rules (watcher_add rule)) (\<lambda>u. acted op [(''name'', JStr (wr_name rule))]))
      else if op = ''remove_watcher'' then
        step (lift (req_str cmd ''name'')) (\<lambda>name.
        step (look (\<lambda>w. snd (watcher_remove name (ww_rules w)))) (\<lambda>removed.
        step (change_rules (\<lambda>rules. fst (watcher_remove name rules))) (\<lambda>u.
        acted op [(''name'', JStr name), (''removed'', JBool removed)])))
      else if op = ''list_watchers'' then
        step (look ww_rules) (\<lambda>rules. acted op [(''watchers'', JArr (map (wx_rule_json wx) rules))])
      else if op = ''clear_watchers'' then step (change_rules (\<lambda>rules. [])) (\<lambda>u. acted op [])
      else
        step (lift (req_str cmd ''policy'')) (\<lambda>value.
        step (need ''policy must be ignore|allow|deny'' (policy_parse value)) (\<lambda>policy.
        step (change_rules (set_permission_dialog_policy policy)) (\<lambda>u.
        acted op [(''policy'', JStr (policy_str policy))]))))"

definition dispatch_command :: "'d watch_ext \<Rightarrow> watch_config \<Rightarrow> json \<Rightarrow> ('d, dispatch_outcome) watch_prog" where
  "dispatch_command wx cfg cmd =
     step (lift (req_str cmd ''cmd'')) (\<lambda>op.
     if op = ''quit'' then step (emit (EvAction op (jobj []))) (\<lambda>u. give Quit)
     else if op = ''screen'' then give ScreenOnly
     else if op \<in> {''tap'', ''tap_and_wait'', ''double_tap'', ''long_tap'', ''swipe'', ''drag'', ''swipe_ext''} then
       dispatch_pointer wx cfg op cmd
     else if op \<in> {''key'', ''text''} then dispatch_input wx op cmd
     else if op \<in> {''launch'', ''stop'', ''app_clear'', ''app_wait'', ''fault'', ''app_info'', ''wait_activity''} then
       dispatch_app wx op cmd
     else if op \<in> {''screenshot'', ''shell'', ''screen_on'', ''screen_off'', ''unlock'', ''wakeup'', ''orientation'', ''set_orientation'',
         ''clipboard'', ''set_clipboard'', ''open_notification'', ''open_quick_settings'', ''open_url''} then
       dispatch_device wx op cmd
     else if op = ''toast'' then dispatch_toast wx cmd
     else if op \<in> {''tap_text'', ''tap_rid'', ''tap_desc'', ''tap_text_and_wait'', ''tap_rid_and_wait'', ''tap_desc_and_wait''} then
       dispatch_value_tap wx cfg op cmd
     else if op \<in> {''xpath'', ''xpath_tap''} then dispatch_xpath wx op cmd
     else if op = ''wait_for'' then dispatch_wait_for wx cmd
     else if op \<in> {''push'', ''pull''} then dispatch_file wx op cmd
     else if op \<in> {''add_watcher'', ''remove_watcher'', ''list_watchers'', ''clear_watchers'', ''permission_dialogs''} then
       dispatch_watcher wx op cmd
     else stop ''unknown cmd'')"

section \<open>The loop\<close>

text \<open>The commands of a rule that fired; True when one of them quits.\<close>

fun run_actions :: "'d watch_ext \<Rightarrow> watch_config \<Rightarrow> string \<Rightarrow> json list \<Rightarrow> ('d, bool) watch_prog" where
  "run_actions wx cfg name [] = give False"
| "run_actions wx cfg name (action # actions) =
     attempt (dispatch_command wx cfg action) (\<lambda>r.
     case r of
       Inr out \<Rightarrow> if out = Quit then give True else run_actions wx cfg name actions
     | Inl e \<Rightarrow>
         step (emit (EvError ''watcher'' ''watcher_action_failed'' e (jobj [(''input'', JStr (wx_json_text wx action)),
           (''watcher'', JStr name)]))) (\<lambda>u. run_actions wx cfg name actions))"

fun run_hits :: "'d watch_ext \<Rightarrow> watch_config \<Rightarrow> nat \<Rightarrow> watcher_hit list \<Rightarrow> ('d, bool) watch_prog" where
  "run_hits wx cfg version [] = give False"
| "run_hits wx cfg version (hit # hits) =
     step (emit (EvFired (wh_name hit) (wh_screen_hash hit) version (wh_matched hit))) (\<lambda>u.
     step (run_actions wx cfg (wh_name hit) (wh_then hit)) (\<lambda>quit.
     if quit then give True else run_hits wx cfg version hits))"

definition debounced :: "'d watch_ext \<Rightarrow> watch_config \<Rightarrow> wake \<Rightarrow> ('d, unit) watch_prog" where
  "debounced wx cfg wake =
     (let ms = debounce_delay_ms wake (wc_debounce_ms cfg) in if ms > 0 then nap wx ms else give ())"

definition handle_screen_wake :: "'d watch_ext \<Rightarrow> watch_config \<Rightarrow> wake \<Rightarrow> bool \<Rightarrow> ('d, bool) watch_prog" where
  "handle_screen_wake wx cfg wake force =
     step (debounced wx cfg wake) (\<lambda>u.
     attempt (ask (wx_screen wx)) (\<lambda>r.
     case r of
       Inl e \<Rightarrow> step (emit (EvError ''screen'' ''screen_read_failed'' e (jobj []))) (\<lambda>u. give False)
     | Inr screen \<Rightarrow>
         if \<not> should_emit_screen (wc_app_filter cfg) (sr_package screen) force then give False
         else
           step (look ww_last) (\<lambda>last_hash.
           if \<not> force \<and> last_hash = Some (sr_hash screen) then give False
           else
             step (set_last (sr_hash screen)) (\<lambda>u.
             step (look (\<lambda>w. snd (watcher_matches (wx_lower wx) (sr_hash screen) (sr_elements screen) (ww_rules w)))) (\<lambda>hits.
             step (change_rules (\<lambda>rules. fst (watcher_matches (wx_lower wx) (sr_hash screen) (sr_elements screen) rules))) (\<lambda>u.
             step (emit (EvScreen screen)) (\<lambda>u.
             run_hits wx cfg (sr_hash_version screen) hits)))))))"

definition handle_command :: "'d watch_ext \<Rightarrow> watch_config \<Rightarrow> string \<Rightarrow> ('d, bool) watch_prog" where
  "handle_command wx cfg line =
     (case parse_command (wx_stdin wx) line of
        Inr JNull \<Rightarrow> give False
      | Inl e \<Rightarrow> step (emit (EvError ''parse'' ''watch_input_invalid'' e (jobj [(''input'', JStr line)]))) (\<lambda>u. give False)
      | Inr cmd \<Rightarrow>
          attempt (dispatch_command wx cfg cmd) (\<lambda>r.
          case r of
            Inr Handled \<Rightarrow> give False
          | Inr Continue \<Rightarrow> handle_screen_wake wx cfg WakeCommand False
          | Inr ScreenOnly \<Rightarrow> handle_screen_wake wx cfg WakeCommand True
          | Inr Quit \<Rightarrow> give True
          | Inl e \<Rightarrow>
              step (emit (EvError ''dispatch'' ''watch_action_failed'' e (jobj [(''input'', JStr (wx_json_text wx cmd))])))
                (\<lambda>u. give False)))"

text \<open>What wakes the loop; the world outside may change in between.\<close>

datatype 'd watch_input = PollTick | Woken wake | StdinLine string | Outside "'d \<Rightarrow> 'd"

fun watch_step :: "'d watch_ext \<Rightarrow> watch_config \<Rightarrow> 'd watch_input \<Rightarrow> ('d, bool) watch_prog" where
  "watch_step wx cfg PollTick = handle_screen_wake wx cfg WakePoll False"
| "watch_step wx cfg (Woken wake) = handle_screen_wake wx cfg wake False"
| "watch_step wx cfg (StdinLine line) = handle_command wx cfg line"
| "watch_step wx cfg (Outside f) = step (alter (\<lambda>w. w\<lparr>ww_dev := f (ww_dev w)\<rparr>)) (\<lambda>u. give False)"

fun watch_run :: "'d watch_ext \<Rightarrow> watch_config \<Rightarrow> 'd watch_input list \<Rightarrow> ('d, bool) watch_prog" where
  "watch_run wx cfg [] = give False"
| "watch_run wx cfg (i # inputs) =
     step (watch_step wx cfg i) (\<lambda>quit. if quit then give True else watch_run wx cfg inputs)"

text \<open>The start: rules of the files, then those of the policy; the first wake is \<open>Init\<close>.\<close>

definition watch_start ::
  "(string \<Rightarrow> string outcome) \<Rightarrow> (string \<Rightarrow> watcher_rule list outcome) \<Rightarrow> string list \<Rightarrow> permission_policy \<Rightarrow> 'd \<Rightarrow> 'd watch_world outcome" where
  "watch_start read_text parse paths policy d =
     (case from_files read_text parse paths [] of
        Inl e \<Rightarrow> Inl e
      | Inr rules \<Rightarrow> Inr \<lparr>ww_dev = d, ww_rules = set_permission_dialog_policy policy rules, ww_last = None, ww_events = []\<rparr>)"

end
