(* ===== verification/WatchRulesProps.thy ===== *)
theory WatchRulesProps
  imports WatchRules Machine
begin

text \<open>
  Over any sequence of screens each rule fires where a reference function says. Editing the set keeps the names
  of its rules apart, and the rules for permission dialogs are those of the last policy.
\<close>

section \<open>Firing\<close>

text \<open>A set of rules over a sequence of screens, each a hash with its elements.\<close>

type_synonym seen_screen = "string \<times> element list"

fun match_run ::
  "(string \<Rightarrow> string) \<Rightarrow> seen_screen list \<Rightarrow> watcher_rule list \<Rightarrow> watcher_rule list \<times> watcher_hit list" where
  "match_run lower [] rules = (rules, [])"
| "match_run lower ((h, els) # ss) rules =
     (let (rules1, hits) = watcher_matches lower h els rules; (rules2, hits') = match_run lower ss rules1
      in (rules2, hits @ hits'))"

fun rule_run :: "(string \<Rightarrow> string) \<Rightarrow> seen_screen list \<Rightarrow> watcher_rule \<Rightarrow> watcher_hit list" where
  "rule_run lower [] r = []"
| "rule_run lower ((h, els) # ss) r =
     (case snd (match_rule lower h els r) of None \<Rightarrow> [] | Some hit \<Rightarrow> [hit]) @
     rule_run lower ss (fst (match_rule lower h els r))"

definition screen_fits :: "(string \<Rightarrow> string) \<Rightarrow> watcher_rule \<Rightarrow> seen_screen \<Rightarrow> bool" where
  "screen_fits lower r s \<longleftrightarrow> list_ex (when_matches lower (wr_when r)) (snd s)"

definition fires_left :: "watcher_rule \<Rightarrow> 'a list \<Rightarrow> 'a list" where
  "fires_left r xs = (case wr_max_fires r of None \<Rightarrow> xs | Some m \<Rightarrow> take (m - wr_fire_count r) xs)"

definition fires_fit :: "watcher_rule \<Rightarrow> bool" where
  "fires_fit r \<longleftrightarrow> (case wr_max_fires r of None \<Rightarrow> True | Some m \<Rightarrow> m < 2 ^ 32)"

lemma match_rule_name: "wr_name (fst (match_rule lower h els r)) = wr_name r"
  by (simp add: match_rule_def split: option.split)

lemma match_rule_when: "wr_when (fst (match_rule lower h els r)) = wr_when r"
  by (simp add: match_rule_def split: option.split)

lemma match_rule_max: "wr_max_fires (fst (match_rule lower h els r)) = wr_max_fires r"
  by (simp add: match_rule_def split: option.split)

lemma hit_name: "snd (match_rule lower h els r) = Some hit \<Longrightarrow> wh_name hit = wr_name r"
  by (auto simp: match_rule_def split: option.splits if_splits)

lemma hit_screen:
  "snd (match_rule lower h els r) = Some hit \<Longrightarrow>
    wh_screen_hash hit = h \<and> find (when_matches lower (wr_when r)) els = Some (wh_matched hit)"
  by (auto simp: match_rule_def split: option.splits if_splits)

lemma filter_hits:
  assumes "distinct (map wr_name rules)" "r \<in> set rules"
  shows "filter (\<lambda>hit. wh_name hit = wr_name r) (List.map_filter (\<lambda>q. snd (match_rule lower h els q)) rules) =
    (case snd (match_rule lower h els r) of None \<Rightarrow> [] | Some hit \<Rightarrow> [hit])"
  using assms
proof (induction rules)
  case (Cons q rules)
  have others: "filter (\<lambda>hit. wh_name hit = wr_name r) (List.map_filter (\<lambda>q. snd (match_rule lower h els q)) qs) = []"
    if "wr_name r \<notin> wr_name ` set qs" for qs
    using that
  proof (induction qs)
    case (Cons p qs)
    then show ?case
      using hit_name [of lower h els p] by (cases "snd (match_rule lower h els p)") (auto simp: List.map_filter_simps)
  qed (simp add: List.map_filter_simps)
  show ?case
  proof (cases "q = r")
    case True
    then have "wr_name r \<notin> wr_name ` set rules"
      using Cons.prems by auto
    then show ?thesis
      using True others [of rules] hit_name [of lower h els r]
      by (cases "snd (match_rule lower h els r)") (simp_all add: List.map_filter_simps)
  next
    case False
    then have "r \<in> set rules" "wr_name q \<noteq> wr_name r"
      using Cons.prems by (auto simp: rev_image_eqI)
    then show ?thesis
      using Cons hit_name [of lower h els q]
      by (cases "snd (match_rule lower h els q)") (simp_all add: List.map_filter_simps)
  qed
qed simp

lemma match_run_rule:
  assumes "distinct (map wr_name rules)" "r \<in> set rules"
  shows "filter (\<lambda>hit. wh_name hit = wr_name r) (snd (match_run lower screens rules)) = rule_run lower screens r"
  using assms
proof (induction lower screens rules arbitrary: r rule: match_run.induct)
  case (2 lower h els ss rules)
  let ?r' = "fst (match_rule lower h els r)" and ?rules' = "map (\<lambda>q. fst (match_rule lower h els q)) rules"
  have "map wr_name ?rules' = map wr_name rules"
    by (simp add: match_rule_name)
  then have "distinct (map wr_name ?rules')" "?r' \<in> set ?rules'"
    using 2(2,3) by (auto simp del: map_map)
  then have "filter (\<lambda>hit. wh_name hit = wr_name ?r') (snd (match_run lower ss ?rules')) = rule_run lower ss ?r'"
    using 2(1) [of _ ?rules' _ ?r'] by (auto simp: watcher_matches_def)
  then show ?case
    using filter_hits [OF 2(2,3), of lower h els]
    by (cases "match_run lower ss ?rules'") (simp add: watcher_matches_def match_rule_name)
qed simp

lemma rule_run_hashes:
  assumes "fires_fit r"
  shows "map wh_screen_hash (rule_run lower screens r) =
    fires_left r (case wr_last_fired r of
      None \<Rightarrow> remdups_adj (map fst (filter (screen_fits lower r) screens))
    | Some l \<Rightarrow> tl (remdups_adj (l # map fst (filter (screen_fits lower r) screens))))"
  using assms
proof (induction lower screens r rule: rule_run.induct)
  case (1 lower r)
  then show ?case
    by (simp add: fires_left_def split: option.split)
next
  case (2 lower h els ss r)
  let ?r' = "fst (match_rule lower h els r)"
  have fits: "screen_fits lower ?r' = screen_fits lower r" "fires_fit ?r'"
    using 2(2) by (auto simp: screen_fits_def fires_fit_def match_rule_when match_rule_max fun_eq_iff)
  note IH = 2(1) [OF fits(2), unfolded fits(1)]
  show ?case
  proof (cases "\<exists>m. wr_max_fires r = Some m \<and> wr_fire_count r \<ge> m")
    case True
    then show ?thesis
      using IH by (auto simp: match_rule_def fires_left_def)
  next
    case False
    show ?thesis
    proof (cases "find (when_matches lower (wr_when r)) els")
      case None
      then have "\<not> screen_fits lower r (h, els)"
        by (auto simp: screen_fits_def find_None_iff list_ex_iff)
      moreover have "match_rule lower h els r = (r, None)"
        using None False by (auto simp: match_rule_def split: option.split)
      ultimately show ?thesis
        using IH by (simp cong: option.case_cong)
    next
      case (Some el)
      then have fit: "screen_fits lower r (h, els)"
        by (auto simp: screen_fits_def find_Some_iff list_ex_iff intro: nth_mem)
      show ?thesis
      proof (cases "wr_last_fired r = Some h")
        case True
        then have "match_rule lower h els r = (r, None)"
          by (simp add: match_rule_def)
        then show ?thesis
          using IH fit True by (simp cong: option.case_cong)
      next
        case fresh: False
        have r': "match_rule lower h els r =
            (r\<lparr>wr_fire_count := u32_add (wr_fire_count r) 1, wr_last_fired := Some h\<rparr>,
             Some \<lparr>wh_name = wr_name r, wh_matched = el, wh_screen_hash = h, wh_then = wr_then r\<rparr>)"
          using False fresh Some by (auto simp: match_rule_def split: option.split)
        have count: "u32_add (wr_fire_count r) 1 = wr_fire_count r + 1" "wr_fire_count r < m" if "wr_max_fires r = Some m" for m
          using that False 2(2) by (auto simp: fires_fit_def u32_add_def)
        have hd: "remdups_adj (h # xs) = h # tl (remdups_adj (h # xs))" for xs :: "string list"
          by (metis hd_Cons_tl hd_remdups_adj list.distinct(1) list.sel(1) remdups_adj_Nil_iff)
        have head: "(case wr_last_fired r of None \<Rightarrow> remdups_adj (h # xs) | Some l \<Rightarrow> tl (remdups_adj (l # h # xs))) =
            h # tl (remdups_adj (h # xs))" for xs
          using fresh hd [of xs] by (auto split: option.split)
        have left: "fires_left r (h # xs) = h # fires_left ?r' xs" for xs
        proof (cases "wr_max_fires r")
          case (Some m)
          then show ?thesis
            using r' count [OF Some] by (simp add: fires_left_def take_Cons' Suc_diff_Suc)
        qed (use r' in \<open>simp add: fires_left_def\<close>)
        have seen: "wr_last_fired ?r' = Some h"
          using r' by simp
        let ?xs = "map fst (filter (screen_fits lower r) ss)"
        have "map fst (filter (screen_fits lower r) ((h, els) # ss)) = h # ?xs"
          using fit by simp
        then have "fires_left r (case wr_last_fired r of
              None \<Rightarrow> remdups_adj (map fst (filter (screen_fits lower r) ((h, els) # ss)))
            | Some l \<Rightarrow> tl (remdups_adj (l # map fst (filter (screen_fits lower r) ((h, els) # ss))))) =
            h # fires_left ?r' (tl (remdups_adj (h # ?xs)))"
          by (simp only: head left)
        then show ?thesis
          using IH seen r' by simp
      qed
    qed
  qed
qed

lemma rule_run_first:
  "hit \<in> set (rule_run lower screens r) \<Longrightarrow>
    \<exists>els. (wh_screen_hash hit, els) \<in> set screens \<and> find (when_matches lower (wr_when r)) els = Some (wh_matched hit)"
proof (induction lower screens r rule: rule_run.induct)
  case (2 lower h els ss r)
  show ?case
  proof (cases "snd (match_rule lower h els r) = Some hit")
    case True
    then show ?thesis
      using hit_screen [OF True] by auto
  next
    case False
    then have "hit \<in> set (rule_run lower ss (fst (match_rule lower h els r)))"
      using 2(2) by (auto split: option.splits)
    then show ?thesis
      using 2(1) by (auto simp: match_rule_when)
  qed
qed simp

text \<open>
  C38: over any sequence of screens a rule fires on exactly the screens that hold an element it asks for,
  once for every run of equal hashes among them and at most as often as its limit allows, each time for the first
  such element; the other rules of the set make no difference.
\<close>

theorem watchers_fire_once:
  assumes "distinct (map wr_name rules)" "r \<in> set rules" "wr_fire_count r = 0" "wr_last_fired r = None" "fires_fit r"
    "hits = filter (\<lambda>hit. wh_name hit = wr_name r) (snd (match_run lower screens rules))"
  shows "map wh_screen_hash hits =
      (case wr_max_fires r of None \<Rightarrow> id | Some m \<Rightarrow> take m)
        (remdups_adj (map fst (filter (\<lambda>(h, els). \<exists>el \<in> set els. when_matches lower (wr_when r) el) screens))) \<and>
    (\<forall>hit \<in> set hits. \<exists>els. (wh_screen_hash hit, els) \<in> set screens \<and>
      find (when_matches lower (wr_when r)) els = Some (wh_matched hit))"
proof -
  have fits: "screen_fits lower r = (\<lambda>(h, els). \<exists>el \<in> set els. when_matches lower (wr_when r) el)"
    by (auto simp: screen_fits_def list_ex_iff fun_eq_iff)
  have hits: "hits = rule_run lower screens r"
    using match_run_rule [OF assms(1,2), of lower screens] assms(6) by simp
  then have "map wh_screen_hash hits =
      (case wr_max_fires r of None \<Rightarrow> id | Some m \<Rightarrow> take m) (remdups_adj (map fst (filter (screen_fits lower r) screens)))"
    using rule_run_hashes [OF assms(5), of lower screens] assms(3,4) by (simp add: fires_left_def split: option.split)
  then show ?thesis
    using fits hits rule_run_first [of _ lower screens r] by simp
qed

section \<open>Editing the set\<close>

datatype watcher_op = AddWatcher watcher_rule | RemoveWatcher string | ClearWatchers | SetPolicy permission_policy | SeeScreen string "element list"

fun watcher_act :: "(string \<Rightarrow> string) \<Rightarrow> watcher_op \<Rightarrow> watcher_rule list \<Rightarrow> watcher_rule list" where
  "watcher_act lower (AddWatcher r) rules = watcher_add r rules"
| "watcher_act lower (RemoveWatcher name) rules = fst (watcher_remove name rules)"
| "watcher_act lower ClearWatchers rules = []"
| "watcher_act lower (SetPolicy policy) rules = set_permission_dialog_policy policy rules"
| "watcher_act lower (SeeScreen h els) rules = fst (watcher_matches lower h els rules)"

lemma watcher_add_names: "set (map wr_name (watcher_add r rules)) = insert (wr_name r) (set (map wr_name rules))"
  by (induction rules) auto

lemma watcher_add_distinct: "distinct (map wr_name rules) \<Longrightarrow> distinct (map wr_name (watcher_add r rules))"
proof (induction rules)
  case (Cons q rules)
  then show ?case
    using watcher_add_names [of r rules] by auto
qed simp

lemma fold_add_distinct: "distinct (map wr_name rules) \<Longrightarrow> distinct (map wr_name (fold watcher_add rs rules))"
  by (induction rs arbitrary: rules) (auto intro: watcher_add_distinct)

interpretation watcher_machine: machine "watcher_act lower" "\<lambda>rules. distinct (map wr_name rules)" for lower
proof unfold_locales
  fix rules :: "watcher_rule list" and op :: watcher_op
  assume *: "distinct (map wr_name rules)"
  show "distinct (map wr_name (watcher_act lower op rules))"
  proof (cases op)
    case (SeeScreen h els)
    have "map wr_name (map (\<lambda>r. fst (match_rule lower h els r)) rules) = map wr_name rules"
      by (simp add: match_rule_name)
    then show ?thesis
      using * SeeScreen by (simp add: watcher_matches_def del: map_map)
  qed (use * in \<open>auto simp: watcher_remove_def set_permission_dialog_policy_def Let_def distinct_map_filter
      intro!: watcher_add_distinct fold_add_distinct\<close>)
qed

lemma names_stay_apart: "distinct (map wr_name (fold (watcher_act lower) ops []))"
  by (rule watcher_machine.run_inv) simp

lemma watcher_add_new: "wr_name r \<notin> set (map wr_name rules) \<Longrightarrow> watcher_add r rules = rules @ [r]"
  by (induction rules) auto

lemma fold_add_new: "distinct (map wr_name (rules @ rs)) \<Longrightarrow> fold watcher_add rs rules = rules @ rs"
  by (induction rs arbitrary: rules) (auto simp: watcher_add_new)

text \<open>Setting a policy leaves the rules of the user alone and has exactly the rules of the policy behind them.\<close>

lemma policy_rules:
  assumes "distinct (map wr_name rules)"
  shows "set_permission_dialog_policy policy rules =
    filter (\<lambda>r. \<not> is_builtin_permission_rule (wr_name r)) rules @ permission_dialog_rules policy"
proof -
  have "list_all (\<lambda>r. is_builtin_permission_rule (wr_name r)) (permission_dialog_rules policy)"
    "distinct (map wr_name (permission_dialog_rules policy))"
    by (cases policy; simp add: permission_dialog_button_rule_def is_builtin_permission_rule_def)+
  then show ?thesis
    unfolding set_permission_dialog_policy_def
    by (intro fold_add_new) (auto simp: list_all_iff assms distinct_map_filter)
qed

text \<open>Files are appended as they are: two files may bring two rules of one name.\<close>

lemma files_may_clash:
  "from_files Inr (\<lambda>text. Inr [permission_dialog_button_rule text ''x'']) [''r'', ''r''] [] =
    Inr [permission_dialog_button_rule ''r'' ''x'', permission_dialog_button_rule ''r'' ''x'']"
  by simp

section \<open>Witness\<close>

definition ok_button :: element where
  "ok_button =
     \<lparr>el_id = 1, el_handle = None, el_text = None, el_desc = None, el_klass = None, el_rid = None, el_bounds = None,
      el_tap = None, el_range = None, el_actions = [], el_clickable = True, el_long_clickable = False,
      el_scrollable = False, el_checkable = False, el_focusable = False, el_enabled = True, el_selected = False,
      el_checked = False, el_focused = False, el_password = False, el_input = False\<rparr>"

definition ok_rule :: watcher_rule where
  "ok_rule =
     \<lparr>wr_name = ''ok'', wr_when = \<lparr>wq_text = None, wq_rid = None, wq_desc = None, wq_klass = None, wq_clickable = Some True\<rparr>,
      wr_then = [], wr_max_fires = Some 2, wr_fire_count = 0, wr_last_fired = None\<rparr>"

theorem watchers_fire_once_witness:
  "map wh_screen_hash (filter (\<lambda>hit. wh_name hit = ''ok'')
      (snd (match_run id [(''a'', [ok_button]), (''a'', [ok_button]), (''b'', []), (''c'', [ok_button]), (''d'', [ok_button])] [ok_rule]))) =
    [''a'', ''c'']"
proof -
  have "when_matches id (wr_when ok_rule) ok_button"
    by (simp add: when_matches_def ok_rule_def ok_button_def text_matches_def)
  then show ?thesis
    using watchers_fire_once [of "[ok_rule]" ok_rule _ id
      "[(''a'', [ok_button]), (''a'', [ok_button]), (''b'', []), (''c'', [ok_button]), (''d'', [ok_button])]", OF _ _ _ _ _ refl]
    by (simp add: ok_rule_def fires_fit_def)
qed

end
