(* ===== verification/WatchLoopProps.thy ===== *)
theory WatchLoopProps
  imports WatchLoop WatchRulesProps FaultWait
begin

text \<open>
  A real change of the screen is shown once, whatever commands run in between, and the waits end. What every
  part of the loop keeps is proved once, in a locale for invariants of the watch; the loops that poll are
  instances of one more.
\<close>

section \<open>Invariants of the watch\<close>

locale watch_keeper =
  fixes I :: "'d watch_world \<Rightarrow> bool"
  assumes dev: "I w \<Longrightarrow> I (w\<lparr>ww_dev := d\<rparr>)"
    and rules: "I w \<Longrightarrow> I (w\<lparr>ww_rules := rs\<rparr>)"
    and quiet: "I w \<Longrightarrow> (\<And>s. e \<noteq> EvScreen s) \<Longrightarrow> I (w\<lparr>ww_events := ww_events w @ [e]\<rparr>)"
    and shown: "I w \<Longrightarrow> I (w\<lparr>ww_last := Some (sr_hash s), ww_events := ww_events w @ [EvScreen s]\<rparr>)"
begin

lemma keeps_ask: "keeps I (ask f)"
  by (simp add: keeps_def ask_def dev split: prod.split)

lemma keeps_nap: "keeps I (nap wx ms)"
  by (simp add: keeps_def nap_def dev)

lemma keeps_alter_dev: "keeps I (alter (\<lambda>w. w\<lparr>ww_dev := f (ww_dev w)\<rparr>))"
  by (simp add: keeps_def dev)

lemma keeps_rules: "keeps I (change_rules f)"
  by (simp add: keeps_def change_rules_def rules)

lemma keeps_emit: "keeps I (emit (EvAction n j))" "keeps I (emit (EvError a b c j))" "keeps I (emit (EvFired n h v el))"
  by (simp_all add: keeps_def emit_def quiet)

lemma keeps_show:
  assumes "\<And>u. keeps I (k u)"
  shows "keeps I (step (set_last (sr_hash s)) (\<lambda>u. step (emit (EvScreen s)) k))"
  using assms shown by (simp add: keeps_def set_last_def emit_def)

lemma keeps_call: "(\<And>r. keeps I (k r)) \<Longrightarrow> keeps I (call_then wx c k)"
  unfolding call_then_def by (intro keep_intros keeps_ask)

lemma keeps_acted: "keeps I (acted name payload)"
  unfolding acted_def by (intro keep_intros keeps_emit)

lemma keeps_json:
  "keeps I p1 \<Longrightarrow> (\<And>b. keeps I (p2 b)) \<Longrightarrow> (\<And>n. keeps I (p3 n)) \<Longrightarrow> (\<And>q. keeps I (p4 q)) \<Longrightarrow>
   (\<And>s. keeps I (p5 s)) \<Longrightarrow> (\<And>vs. keeps I (p6 vs)) \<Longrightarrow> (\<And>kvs. keeps I (p7 kvs)) \<Longrightarrow>
   keeps I (case j of JNull \<Rightarrow> p1 | JBool b \<Rightarrow> p2 b | JInt n \<Rightarrow> p3 n | JFloat q \<Rightarrow> p4 q | JStr s \<Rightarrow> p5 s
     | JArr vs \<Rightarrow> p6 vs | JObj kvs \<Rightarrow> p7 kvs)"
  by (cases j) simp_all

lemma keeps_outcome:
  "keeps I p1 \<Longrightarrow> keeps I p2 \<Longrightarrow> keeps I p3 \<Longrightarrow> keeps I p4 \<Longrightarrow>
   keeps I (case out of Handled \<Rightarrow> p1 | Continue \<Rightarrow> p2 | ScreenOnly \<Rightarrow> p3 | Quit \<Rightarrow> p4)"
  by (cases out) simp_all

lemmas watch_intros = keep_intros keeps_ask keeps_nap keeps_rules keeps_emit keeps_call keeps_acted keeps_json keeps_outcome

lemma keeps_wait_after_loop: "keeps I (wait_after_loop wx cfg cmd sh act tap poll gone deadline fuel)"
proof (induction fuel)
  case (Suc fuel)
  then show ?case
    unfolding wait_after_loop.simps by (intro watch_intros keeps_show)
qed (unfold wait_after_loop.simps, intro watch_intros)

lemma keeps_wait_after: "keeps I (wait_after_action wx cfg cmd sh act tap)"
  unfolding wait_after_action_def by (intro watch_intros keeps_wait_after_loop)

lemma keeps_wait_activity_loop: "keeps I (wait_activity_loop wx name deadline fuel)"
proof (induction fuel)
  case (Suc fuel)
  then show ?case
    unfolding wait_activity_loop.simps by (intro watch_intros )
qed (unfold wait_activity_loop.simps, intro watch_intros)

lemma keeps_wait_activity: "keeps I (wait_activity wx name timeout)"
  unfolding wait_activity_def by (intro watch_intros keeps_wait_activity_loop)

lemma keeps_wait_for_loop: "keeps I (wait_for_screen_loop wx cmd gone poll deadline fuel)"
proof (induction fuel)
  case (Suc fuel)
  then show ?case
    unfolding wait_for_screen_loop.simps by (intro watch_intros )
qed (unfold wait_for_screen_loop.simps, intro watch_intros)

lemma keeps_wait_for: "keeps I (wait_for_screen wx cmd gone timeout poll)"
  unfolding wait_for_screen_def by (intro watch_intros keeps_wait_for_loop)

lemma keeps_toast_loop: "keeps I (toast_loop wx start deadline fuel)"
proof (induction fuel)
  case (Suc fuel)
  then show ?case
    unfolding toast_loop.simps by (intro watch_intros )
qed (unfold toast_loop.simps, intro watch_intros)

lemma keeps_tap: "keeps I (dispatch_tap wx cmd act)"
  unfolding dispatch_tap_def by (intro watch_intros)

lemma keeps_pointer: "keeps I (dispatch_pointer wx cfg op cmd)"
  unfolding dispatch_pointer_def by (intro watch_intros keeps_tap keeps_wait_after)

lemma keeps_input: "keeps I (dispatch_input wx op cmd)"
  unfolding dispatch_input_def by (intro watch_intros)

lemma keeps_app: "keeps I (dispatch_app wx op cmd)"
  unfolding dispatch_app_def by (intro watch_intros keeps_wait_activity)

lemma keeps_device: "keeps I (dispatch_device wx op cmd)"
  unfolding dispatch_device_def by (intro watch_intros)

lemma keeps_toast: "keeps I (dispatch_toast wx cmd)"
  unfolding dispatch_toast_def by (intro watch_intros keeps_toast_loop)

lemma keeps_value_tap: "keeps I (dispatch_value_tap wx cfg op cmd)"
  unfolding dispatch_value_tap_def by (intro watch_intros keeps_wait_after)

lemma keeps_xpath: "keeps I (dispatch_xpath wx op cmd)"
  unfolding dispatch_xpath_def by (intro watch_intros)

lemma keeps_dispatch_wait: "keeps I (dispatch_wait_for wx cmd)"
  unfolding dispatch_wait_for_def by (intro watch_intros keeps_wait_for)

lemma keeps_file: "keeps I (dispatch_file wx op cmd)"
  unfolding dispatch_file_def by (intro watch_intros)

lemma keeps_watcher: "keeps I (dispatch_watcher wx op cmd)"
  unfolding dispatch_watcher_def by (intro watch_intros)

lemma keeps_dispatch: "keeps I (dispatch_command wx cfg cmd)"
  unfolding dispatch_command_def
  by (intro watch_intros keeps_pointer keeps_input keeps_app keeps_device keeps_toast keeps_value_tap keeps_xpath
      keeps_dispatch_wait keeps_file keeps_watcher)

lemma keeps_actions: "keeps I (run_actions wx cfg name actions)"
proof (induction actions)
  case (Cons x xs)
  then show ?case
    unfolding run_actions.simps by (intro watch_intros keeps_dispatch)
qed (unfold run_actions.simps, intro watch_intros)

lemma keeps_hits: "keeps I (run_hits wx cfg version hits)"
proof (induction hits)
  case (Cons x xs)
  then show ?case
    unfolding run_hits.simps by (intro watch_intros keeps_actions)
qed (unfold run_hits.simps, intro watch_intros)

lemma keeps_wake: "keeps I (handle_screen_wake wx cfg wake force)"
proof -
  have show_screen: "keeps I (step (set_last (sr_hash s)) (\<lambda>u. step (look f) (\<lambda>hits. step (change_rules g) (\<lambda>u.
      step (emit (EvScreen s)) (\<lambda>u. run_hits wx cfg v hits)))))" for s f g v
  proof (rule keepsI)
    fix w
    assume "I w"
    then have "I (w\<lparr>ww_last := Some (sr_hash s), ww_rules := g (ww_rules w), ww_events := ww_events w @ [EvScreen s]\<rparr>)"
      using shown [OF rules, of w "g (ww_rules w)" s] by (cases w) simp
    then show "I (fst (step (set_last (sr_hash s)) (\<lambda>u. step (look f) (\<lambda>hits. step (change_rules g) (\<lambda>u.
        step (emit (EvScreen s)) (\<lambda>u. run_hits wx cfg v hits)))) w))"
      using keeps_hits by (simp add: keeps_def set_last_def change_rules_def emit_def)
  qed
  show ?thesis
    unfolding handle_screen_wake_def debounced_def by (intro watch_intros show_screen)
qed

lemma keeps_line: "keeps I (handle_command wx cfg line)"
  unfolding handle_command_def by (intro watch_intros keeps_wake keeps_dispatch)

lemma keeps_watch_step: "keeps I (watch_step wx cfg i)"
  by (cases i; simp only: watch_step.simps; intro watch_intros keeps_wake keeps_line keeps_alter_dev)

lemma keeps_watch_run: "keeps I (watch_run wx cfg inputs)"
proof (induction inputs)
  case (Cons x xs)
  then show ?case
    unfolding watch_run.simps by (intro watch_intros keeps_watch_step)
qed (unfold watch_run.simps, intro watch_intros)

end

section \<open>The screen shown last\<close>

definition shown_screens :: "watch_event list \<Rightarrow> screen_response list" where
  "shown_screens es = List.map_filter (\<lambda>e. case e of EvScreen s \<Rightarrow> Some s | _ \<Rightarrow> None) es"

definition last_hash_shown :: "'d watch_world \<Rightarrow> bool" where
  "last_hash_shown w \<longleftrightarrow>
     ww_last w = (if shown_screens (ww_events w) = [] then None else Some (sr_hash (last (shown_screens (ww_events w)))))"

lemma shown_append: "shown_screens (es @ es') = shown_screens es @ shown_screens es'"
  by (simp add: shown_screens_def List.map_filter_def)

lemma shown_one: "shown_screens [EvScreen s] = [s]" "(\<And>s. e \<noteq> EvScreen s) \<Longrightarrow> shown_screens [e] = []"
  by (auto simp: shown_screens_def List.map_filter_simps split: watch_event.split)

interpretation last_keeper: watch_keeper last_hash_shown
  by unfold_locales (simp_all add: last_hash_shown_def shown_append shown_one)

interpretation events_grow: watch_keeper "\<lambda>w. \<exists>rest. ww_events w = es @ rest" for es
  by unfold_locales auto

text \<open>
  C37: one event for every real change. However the watch has run before, whatever commands and rules have acted,
  a wake that reads a screen shows it exactly when it is in the scope of the watch and differs from the screen shown
  last; then it is the first thing printed, and otherwise nothing is printed and no rule is asked.
\<close>

theorem changes_shown_once:
  assumes "w = fst (watch_run wx cfg inputs w0)" "ww_events w0 = []" "ww_last w0 = None"
    "waited = (if debounce_delay_ms wake (wc_debounce_ms cfg) > 0
      then wx_sleep wx (debounce_delay_ms wake (wc_debounce_ms cfg)) (ww_dev w) else ww_dev w)"
    "wx_screen wx waited = (d, Inr s)"
    "w' = fst (handle_screen_wake wx cfg wake False w)"
    "shown = shown_screens (ww_events w)"
  shows "if should_emit_package (wc_app_filter cfg) (sr_package s) \<and> (shown = [] \<or> sr_hash (last shown) \<noteq> sr_hash s)
    then \<exists>rest. ww_events w' = ww_events w @ EvScreen s # rest
    else ww_events w' = ww_events w \<and> ww_rules w' = ww_rules w \<and> ww_last w' = ww_last w"
proof -
  have "last_hash_shown w0"
    using assms(2,3) by (simp add: last_hash_shown_def shown_screens_def List.map_filter_simps)
  then have "last_hash_shown w"
    using last_keeper.keeps_watch_run [of wx cfg inputs] assms(1) by (simp add: keeps_def)
  then have last: "ww_last w = Some (sr_hash s) \<longleftrightarrow> \<not> (shown = [] \<or> sr_hash (last shown) \<noteq> sr_hash s)"
    using assms(7) by (auto simp: last_hash_shown_def)
  have slept: "debounced wx cfg wake w = (w\<lparr>ww_dev := waited\<rparr>, Inr ())"
    using assms(4) by (simp add: debounced_def nap_def)
  show ?thesis
  proof (cases "should_emit_package (wc_app_filter cfg) (sr_package s) \<and> ww_last w \<noteq> Some (sr_hash s)")
    case True
    define v where "v = w\<lparr>ww_dev := d, ww_last := Some (sr_hash s),
      ww_rules := fst (watcher_matches (wx_lower wx) (sr_hash s) (sr_elements s) (ww_rules w)), ww_events := ww_events w @ [EvScreen s]\<rparr>"
    have "w' = fst (run_hits wx cfg (sr_hash_version s) (snd (watcher_matches (wx_lower wx) (sr_hash s) (sr_elements s) (ww_rules w))) v)"
      using True assms(5,6) unfolding handle_screen_wake_def
      by (simp add: run_step_ok [where p = "debounced wx cfg wake" and w = w, OF slept] should_emit_screen_def attempt_def ask_def set_last_def change_rules_def emit_def v_def
          split_beta)
    moreover have "\<exists>rest. ww_events (fst (run_hits wx cfg version hits v)) = (ww_events w @ [EvScreen s]) @ rest" for version hits
      by (rule events_grow.keeps_hits [unfolded keeps_def, rule_format]) (simp add: v_def)
    ultimately have "\<exists>rest. ww_events w' = (ww_events w @ [EvScreen s]) @ rest"
      by simp
    then show ?thesis
      using True last by auto
  next
    case False
    then have "w' = w\<lparr>ww_dev := d\<rparr>"
      using assms(5,6) unfolding handle_screen_wake_def
      by (auto simp: run_step_ok [where p = "debounced wx cfg wake" and w = w, OF slept] should_emit_screen_def attempt_def ask_def split_beta)
    then show ?thesis
      using False last by auto
  qed
qed

text \<open>A screen that a wait has shown was not given to the rules, and is not given to them afterwards.\<close>

lemma keeps_rules_ask: "keeps (\<lambda>w. ww_rules w = rs) (ask f)" "keeps (\<lambda>w. ww_rules w = rs) (nap wx ms)"
  "keeps (\<lambda>w. ww_rules w = rs) (emit e)" "keeps (\<lambda>w. ww_rules w = rs) (set_last h)"
  by (simp_all add: keeps_def ask_def nap_def emit_def set_last_def split: prod.split)

lemma wait_asks_no_rules: "ww_rules (fst (wait_after_action wx cfg cmd sh act tap w)) = ww_rules w"
proof -
  have "keeps (\<lambda>v. ww_rules v = ww_rules w) (wait_after_loop wx cfg cmd sh act tap poll gone deadline fuel)" for poll gone deadline fuel
  proof (induction fuel)
    case (Suc fuel)
    then show ?case
      unfolding wait_after_loop.simps by (intro keep_intros keeps_rules_ask)
  qed (unfold wait_after_loop.simps, intro keep_intros)
  then have "keeps (\<lambda>v. ww_rules v = ww_rules w) (wait_after_action wx cfg cmd sh act tap)"
    unfolding wait_after_action_def by (intro keep_intros)
  then show ?thesis
    by (simp add: keeps_def)
qed

section \<open>Waits end\<close>

text \<open>
  A loop that probes, may be over, and otherwise sleeps: under the law of the clock, with as many rounds as fit before its deadline, more
  rounds make no difference.
\<close>

locale polling =
  fixes loop :: "nat \<Rightarrow> ('w, 'b) prog"
    and probe :: "('w, 'a) prog"
    and over :: "'a \<Rightarrow> bool \<Rightarrow> bool"
    and finish :: "'a \<Rightarrow> bool \<Rightarrow> ('w, 'b) prog"
    and pause :: "('w, unit) prog"
    and now :: "'w \<Rightarrow> nat"
    and poll deadline :: nat
    and law :: bool
  assumes round: "loop (Suc n) w = step probe (\<lambda>a w'. if over a (deadline \<le> now w') then finish a (deadline \<le> now w') w'
      else step pause (\<lambda>u. loop n) w') w"
    and over_late: "over a True"
    and probe_later: "law \<Longrightarrow> probe w = (w', r) \<Longrightarrow> now w \<le> now w'"
    and pause_later: "law \<Longrightarrow> pause w = (w', r') \<Longrightarrow> now w + poll \<le> now w'"
begin

lemma more_rounds: "law \<Longrightarrow> deadline \<le> now w + poll * n \<Longrightarrow> loop (Suc n + j) w = loop (Suc n) w"
proof (induction n arbitrary: w)
  case 0
  show ?case
    unfolding add_Suc round
  proof (rule step_cong_run)
    fix w' a
    assume "probe w = (w', Inr a)"
    then have "deadline \<le> now w'"
      using 0 probe_later [OF 0(1)] by fastforce
    then show "(if over a (deadline \<le> now w') then finish a (deadline \<le> now w') w' else step pause (\<lambda>u. loop (0 + j)) w') =
      (if over a (deadline \<le> now w') then finish a (deadline \<le> now w') w' else step pause (\<lambda>u. loop 0) w')"
      by (simp add: over_late)
  qed
next
  case (Suc n)
  show ?case
    unfolding add_Suc [of "Suc n"] round [of "Suc n + j"] round [of "Suc n"]
  proof (rule step_cong_run)
    fix w' a
    assume probe: "probe w = (w', Inr a)"
    have "step pause (\<lambda>u. loop (Suc n + j)) w' = step pause (\<lambda>u. loop (Suc n)) w'"
    proof (rule step_cong_run)
      fix w'' u
      assume "pause w' = (w'', Inr u)"
      then show "loop (Suc n + j) w'' = loop (Suc n) w''"
        using Suc pause_later [of w' w''] probe_later [OF _ probe] by simp
    qed
    then show "(if over a (deadline \<le> now w') then finish a (deadline \<le> now w') w' else step pause (\<lambda>u. loop (Suc n + j)) w') =
      (if over a (deadline \<le> now w') then finish a (deadline \<le> now w') w' else step pause (\<lambda>u. loop (Suc n)) w')"
      by simp
  qed
qed

end

text \<open>A clock that does not go backwards, and moves on while one sleeps.\<close>

definition watch_clock :: "'d watch_ext \<Rightarrow> bool" where
  "watch_clock wx \<longleftrightarrow>
     (\<forall>ms d. wx_now wx d + ms \<le> wx_now wx (wx_sleep wx ms d)) \<and>
     (\<forall>d. wx_now wx d \<le> wx_now wx (fst (wx_screen wx d))) \<and>
     (\<forall>c d. wx_now wx d \<le> wx_now wx (fst (wx_call wx c d)))"

text \<open>The same server without a clock, or with the one it has when that obeys the law.\<close>

definition clocked :: "'d watch_ext \<Rightarrow> 'd watch_world \<Rightarrow> nat" where
  "clocked wx w = wx_now wx (ww_dev w)"

lemma clock_ask:
  "watch_clock wx \<Longrightarrow> ask (wx_screen wx) w = (w', r) \<Longrightarrow> clocked wx w \<le> clocked wx w'"
  "watch_clock wx \<Longrightarrow> ask (wx_call wx c) w = (w', r') \<Longrightarrow> clocked wx w \<le> clocked wx w'"
  by (auto simp: ask_def watch_clock_def clocked_def split: prod.splits) (metis fst_conv)+

lemma clock_nap: "watch_clock wx \<Longrightarrow> nap wx ms w = (w', r) \<Longrightarrow> clocked wx w + ms \<le> clocked wx w'"
  by (auto simp: nap_def watch_clock_def clocked_def)

definition after_over :: "'d watch_ext \<Rightarrow> watch_config \<Rightarrow> json \<Rightarrow> string option \<Rightarrow> bool \<Rightarrow> screen_response \<Rightarrow> bool" where
  "after_over wx cfg cmd start_hash gone screen \<longleftrightarrow>
     (wc_app_filter cfg = None \<or> should_emit_package (wc_app_filter cfg) (sr_package screen)) \<and>
     (if has_wait_query cmd then wait_query_matches wx cmd screen \<noteq> gone
      else case start_hash of None \<Rightarrow> True | Some h \<Rightarrow> h \<noteq> sr_hash screen)"

interpretation wait_after: polling
  "wait_after_loop wx cfg cmd start_hash act tap poll gone deadline" "ask (wx_screen wx)"
  "\<lambda>s late. after_over wx cfg cmd start_hash gone s \<or> late"
  "\<lambda>screen late.
     if wc_app_filter cfg \<noteq> None \<and> \<not> should_emit_package (wc_app_filter cfg) (sr_package screen)
     then stop ''timed out outside the app filter''
     else step (set_last (sr_hash screen)) (\<lambda>u. step (emit (EvScreen screen)) (\<lambda>u.
       if late \<and> \<not> after_over wx cfg cmd start_hash gone screen then stop ''wait timed out''
       else emit (EvAction act (jobj [(''matched'', JBool True), (''timeout'', JBool False),
         (''screen_hash'', JStr (sr_hash screen)), (''screen_hash_version'', jnat (sr_hash_version screen)),
         (''hash_changed'', JBool (case start_hash of None \<Rightarrow> True | Some h \<Rightarrow> h \<noteq> sr_hash screen)), (''tap'', tap_json tap)]))))"
  "nap wx poll" "clocked wx" poll deadline "watch_clock wx"
  for wx cfg cmd start_hash act tap poll gone deadline
proof unfold_locales
  fix n w
  show "wait_after_loop wx cfg cmd start_hash act tap poll gone deadline (Suc n) w =
    step (ask (wx_screen wx)) (\<lambda>screen w'. if after_over wx cfg cmd start_hash gone screen \<or> deadline \<le> clocked wx w' then
      (if wc_app_filter cfg \<noteq> None \<and> \<not> should_emit_package (wc_app_filter cfg) (sr_package screen)
       then stop ''timed out outside the app filter''
       else step (set_last (sr_hash screen)) (\<lambda>u. step (emit (EvScreen screen)) (\<lambda>u.
         if deadline \<le> clocked wx w' \<and> \<not> after_over wx cfg cmd start_hash gone screen then stop ''wait timed out''
         else emit (EvAction act (jobj [(''matched'', JBool True), (''timeout'', JBool False),
           (''screen_hash'', JStr (sr_hash screen)), (''screen_hash_version'', jnat (sr_hash_version screen)),
           (''hash_changed'', JBool (case start_hash of None \<Rightarrow> True | Some h \<Rightarrow> h \<noteq> sr_hash screen)), (''tap'', tap_json tap)]))))) w'
      else step (nap wx poll) (\<lambda>u. wait_after_loop wx cfg cmd start_hash act tap poll gone deadline n) w') w"
    unfolding wait_after_loop.simps
    by (rule step_cong_run) (auto simp: after_over_def clocked_def Let_def simp del: wait_after_loop.simps)
qed (auto dest: clock_ask clock_nap)

interpretation wait_activity: polling
  "wait_activity_loop wx name deadline" "ask (wx_call wx CAppCurrent)"
  "\<lambda>cur late. str_contains (case field_str ''activity'' cur of Some a \<Rightarrow> a | None \<Rightarrow> []) name \<or> late"
  "\<lambda>cur late. if str_contains (case field_str ''activity'' cur of Some a \<Rightarrow> a | None \<Rightarrow> []) name
     then emit (EvAction ''wait_activity'' (jobj [(''name'', JStr name), (''matched'', JBool True), (''current'', cur)]))
     else stop ''wait_activity timed out''"
  "nap wx 200" "clocked wx" 200 deadline "watch_clock wx"
  for wx name deadline
  by unfold_locales (auto simp: clocked_def intro!: step_cong_run dest: clock_ask clock_nap)

interpretation wait_for_screen: polling
  "wait_for_screen_loop wx cmd gone poll deadline" "ask (wx_screen wx)"
  "\<lambda>s late. wait_query_matches wx cmd s \<noteq> gone \<or> late"
  "\<lambda>s late. if wait_query_matches wx cmd s \<noteq> gone
     then emit (EvAction ''wait_for'' (jobj [(''matched'', JBool (wait_query_matches wx cmd s)), (''gone'', JBool gone),
       (''screen_hash'', JStr (sr_hash s)), (''screen_hash_version'', jnat (sr_hash_version s))]))
     else stop ''wait_for timed out''"
  "nap wx poll" "clocked wx" poll deadline "watch_clock wx"
  for wx cmd gone poll deadline
  by unfold_locales (auto simp: clocked_def intro!: step_cong_run dest: clock_ask clock_nap)

interpretation toast: polling
  "toast_loop wx start deadline" "ask (wx_call wx (CToastRecent start))"
  "\<lambda>recent late. jget ''toasts'' recent \<noteq> JArr [] \<or> late"
  "\<lambda>recent late. emit (EvAction ''toast'' (jobj [(''toasts'', jget ''toasts'' recent)]))"
  "nap wx 100" "clocked wx" 100 deadline "watch_clock wx"
  for wx start deadline
  by unfold_locales (auto simp: clocked_def intro!: step_cong_run dest: clock_ask clock_nap)

lemma rounds_fit:
  assumes "0 < poll"
  shows "now + timeout \<le> now + poll * (timeout div poll + 1 :: nat)"
  using dividend_less_times_div [OF assms, of timeout] by simp

text \<open>
  Every wait of the watch ends. On a clock that moves on while one sleeps, the rounds each loop is given
  are enough: with more of them nothing would be different, so no wait runs out before its deadline decides.
\<close>

theorem watch_waits_end:
  assumes "watch_clock wx" "0 < poll" "deadline = wx_now wx (ww_dev w) + timeout"
  shows "wait_after_loop wx cfg cmd sh act tap poll gone deadline (timeout div poll + 2 + j) w =
      wait_after_loop wx cfg cmd sh act tap poll gone deadline (timeout div poll + 2) w \<and>
    wait_for_screen_loop wx cmd gone poll deadline (timeout div poll + 2 + j) w =
      wait_for_screen_loop wx cmd gone poll deadline (timeout div poll + 2) w \<and>
    wait_activity_loop wx name deadline (timeout div 200 + 2 + j) w = wait_activity_loop wx name deadline (timeout div 200 + 2) w \<and>
    toast_loop wx start deadline (timeout div 100 + 2 + j) w = toast_loop wx start deadline (timeout div 100 + 2) w"
proof -
  have late: "deadline \<le> clocked wx w + p * (timeout div p + 1)" if "0 < p" for p
    using rounds_fit [OF that] assms(3) by (simp add: clocked_def)
  show ?thesis
    using wait_after.more_rounds [OF assms(1) late [OF assms(2)], of cfg cmd sh act tap gone j]
      wait_for_screen.more_rounds [OF assms(1) late [OF assms(2)], of cmd gone j]
      wait_activity.more_rounds [OF assms(1) late [of 200], of name j]
      toast.more_rounds [OF assms(1) late [of 100], of start j]
    by (simp add: numeral_2_eq_2 del: wait_after_loop.simps wait_for_screen_loop.simps wait_activity_loop.simps toast_loop.simps)
qed

section \<open>Witnesses\<close>

text \<open>A device whose screen is its clock's reading modulo two.\<close>

definition tick_screen :: "nat \<Rightarrow> screen_response" where
  "tick_screen d = \<lparr>sr_package = None, sr_activity = None, sr_hash = dec_digits (d mod 2), sr_hash_version = 1, sr_elements = [], sr_rest = JNull\<rparr>"

definition tick_ext :: "nat watch_ext" where
  "tick_ext =
     \<lparr>wx_screen = (\<lambda>d. (d, Inr (tick_screen d))), wx_call = (\<lambda>c d. (d, Inr JNull)), wx_now = id, wx_unix_ms = id,
      wx_sleep = (\<lambda>ms d. d + ms), wx_lower = id, wx_rule = (\<lambda>j. Inl ''no rule''), wx_rule_json = (\<lambda>r. JNull),
      wx_json_text = (\<lambda>j. []), wx_stdin = \<lparr>sx_json = (\<lambda>s. Inl ''no json''), sx_float = (\<lambda>s. None)\<rparr>\<rparr>"

definition tick_config :: watch_config where
  "tick_config = \<lparr>wc_app_filter = None, wc_debounce_ms = 0\<rparr>"

definition tick_world :: "nat watch_world" where
  "tick_world = \<lparr>ww_dev = 4, ww_rules = [], ww_last = None, ww_events = []\<rparr>"

theorem watch_waits_end_witness:
  "wait_for_screen_loop tick_ext (JObj []) True 200 (4 + 1000) (1000 div 200 + 2 + 3) tick_world =
    wait_for_screen_loop tick_ext (JObj []) True 200 (4 + 1000) (1000 div 200 + 2) tick_world"
proof -
  have clock: "watch_clock tick_ext" and deadline: "4 + 1000 = wx_now tick_ext (ww_dev tick_world) + 1000"
    by (simp_all add: watch_clock_def tick_ext_def tick_world_def)
  show ?thesis
    using watch_waits_end [OF clock _ deadline, where poll = 200 and gone = True and j = 3 and cmd = "JObj []"] by (simp del: wait_for_screen_loop.simps)
qed

theorem changes_shown_once_witness:
  "\<exists>rest. ww_events (fst (handle_screen_wake tick_ext tick_config WakePoll False tick_world)) = EvScreen (tick_screen 4) # rest"
proof -
  have start: "tick_world = fst (watch_run tick_ext tick_config [] tick_world)" "ww_events tick_world = []" "ww_last tick_world = None"
    by (simp_all add: tick_world_def)
  have read: "wx_screen tick_ext 4 = (4, Inr (tick_screen 4))"
    by (simp add: tick_ext_def)
  show ?thesis
    using changes_shown_once [OF start _ read refl refl, where wake = WakePoll]
    by (simp add: tick_world_def tick_config_def should_emit_package_def shown_screens_def List.map_filter_simps)
qed

end
