(* ===== verification/WatchStdinProps.thy ===== *)
theory WatchStdinProps
  imports WatchStdin
begin

text \<open>What is written in quotes is read back: any words, any characters.\<close>

section \<open>Quoting\<close>

fun escaped :: "nat list \<Rightarrow> nat list" where
  "escaped [] = []"
| "escaped (c # cs) = (if c = 0x22 \<or> c = 0x5C then [0x5C, c] else [c]) @ escaped cs"

definition quoted :: "nat list \<Rightarrow> nat list" where
  "quoted w = [0x22] @ escaped w @ [0x22]"

fun quoted_line :: "nat list list \<Rightarrow> nat list" where
  "quoted_line [] = []"
| "quoted_line [w] = quoted w"
| "quoted_line (w # v # ws) = quoted w @ [0x20] @ quoted_line (v # ws)"

lemma words_escaped: "shell_words_loop (Some 0x22) cur (escaped w @ 0x22 # rest) = shell_words_loop None (cur @ w) rest"
  by (induction w arbitrary: cur) auto

lemma words_quoted: "shell_words_loop None [] (quoted w @ rest) = shell_words_loop None w rest"
  by (simp add: quoted_def words_escaped)

lemma words_quoted_line: "shell_words_loop None [] (quoted_line ws) = filter (\<lambda>w. w \<noteq> []) ws"
proof (induction ws rule: quoted_line.induct)
  case (2 w)
  then show ?case
    using words_quoted [of w "[]"] by simp
next
  case (3 w v ws)
  then show ?case
    using words_quoted [of w "0x20 # quoted_line (v # ws)"] by (auto simp: char_is_whitespace_def)
qed simp

lemma quoted_line_ends:
  assumes "ws \<noteq> []"
  shows "\<exists>mid. quoted_line ws = 0x22 # mid \<and> last (quoted_line ws) = 0x22"
  using assms
proof (induction ws rule: quoted_line.induct)
  case (3 w v ws)
  then have "quoted_line (v # ws) \<noteq> []"
    by auto
  then show ?case
    using 3 by (auto simp: quoted_def)
qed (auto simp: quoted_def)

lemma escaped_scalar: "list_all is_scalar w \<Longrightarrow> list_all is_scalar (escaped w)"
  by (induction w) (auto simp: is_scalar_def)

lemma quoted_line_scalar: "list_all (list_all is_scalar) ws \<Longrightarrow> list_all is_scalar (quoted_line ws)"
  by (induction ws rule: quoted_line.induct) (auto simp: quoted_def escaped_scalar is_scalar_def)

lemma trim_visible:
  assumes "list_all is_scalar cs" "cs \<noteq> []" "\<not> char_is_whitespace (hd cs)" "\<not> char_is_whitespace (last cs)"
  shows "str_trim (chars_str cs) = chars_str cs"
proof -
  have "dropWhile char_is_whitespace cs = cs"
    using assms(2,3) by (cases cs) auto
  moreover have "dropWhile char_is_whitespace (rev cs) = rev cs"
    using assms(2,4) by (cases cs rule: rev_cases) auto
  ultimately show ?thesis
    by (simp add: str_trim_def str_chars_chars_str [OF assms(1)])
qed

lemma chars_str_quote: "chars_str (0x22 # cs) = CHR 0x22 # chars_str cs"
  by (simp add: chars_str_def utf8_encode_def utf8_encode_char_def bytes_str_def byte_char_def byte_of_def char_of_eq_iff)

text \<open>
  C39: a line with every word in quotes, with quotes and backslashes in them escaped, is read as the command of its first
  word that is not empty with the arguments that follow, whatever characters the words hold (white space, quotes and
  backslashes included); empty words are dropped (\<open>empty_word_dropped\<close>).
\<close>

theorem quoted_line_reads_back:
  assumes "list_all (list_all is_scalar) words" "filter (\<lambda>w. w \<noteq> []) words = cmd # args"
  shows "parse_command sx (chars_str (quoted_line words)) = shorthand sx (chars_str cmd) (map chars_str args)"
proof -
  let ?line = "quoted_line words"
  have "words \<noteq> []"
    using assms(2) by auto
  then obtain mid where line: "?line = 0x22 # mid" "last ?line = 0x22"
    using quoted_line_ends [of words] by auto
  have scalars: "list_all is_scalar ?line"
    using assms(1) by (rule quoted_line_scalar)
  have "str_trim (chars_str ?line) = chars_str ?line"
    using scalars line by (intro trim_visible) (auto simp: char_is_whitespace_def)
  moreover have "shell_words (chars_str ?line) = map chars_str (cmd # args)"
    unfolding shell_words_def str_chars_chars_str [OF scalars] words_quoted_line assms(2) ..
  moreover have "chars_str ?line = CHR 0x22 # chars_str mid"
    using line(1) by (simp only: chars_str_quote)
  ultimately show ?thesis
    by (simp add: parse_command_def starts_with_def)
qed

text \<open>An empty word is dropped, and its place taken by the next.\<close>

lemma empty_word_dropped: "shell_words ''launch \"\"'' = [''launch'']"
  by (simp add: shell_words_def str_chars_ascii char_is_whitespace_def chars_str_def utf8_encode_def utf8_encode_char_def
      bytes_str_def byte_char_def byte_of_def char_of_eq_iff)

theorem quoted_line_reads_back_witness:
  "parse_command \<lparr>sx_json = (\<lambda>_. Inl []), sx_float = (\<lambda>_. None)\<rparr>
      (chars_str (quoted_line [map of_char ''tap_text'', [], [0x53, 0x22, 0x20, 0x5C, 0x1F600]])) =
    shorthand \<lparr>sx_json = (\<lambda>_. Inl []), sx_float = (\<lambda>_. None)\<rparr> (chars_str (map of_char ''tap_text''))
      [chars_str [0x53, 0x22, 0x20, 0x5C, 0x1F600]]"
  using quoted_line_reads_back [of "[map of_char ''tap_text'', [], [0x53, 0x22, 0x20, 0x5C, 0x1F600]]"
      "map of_char ''tap_text''" "[[0x53, 0x22, 0x20, 0x5C, 0x1F600]]"
      "\<lparr>sx_json = (\<lambda>_. Inl []), sx_float = (\<lambda>_. None)\<rparr>"]
  by (simp add: is_scalar_def)

end
