(* ===== verification/FaultScenario.thy ===== *)
theory FaultScenario
  imports FaultArgs
begin

text \<open>
  Scripted chaos runs (\<^verbatim>\<open>fault/scenario.rs\<close>): a list of steps checked before anything runs, each an ordinary command run
  as a child process, and the faults they injected cleared at the end. The child process with its last line
  of JSON, the hash that picks among options and the reading of the file are parameters; reports leave out durations.
\<close>

section \<open>Scenarios\<close>

record scenario_step =
  ss_run :: "string list option"
  ss_fault :: "string list option"
  ss_wait_ms :: "nat option"
  ss_pick :: "string list list option"
  ss_allow_failure :: bool

record scenario =
  sn_name :: "string option"
  sn_seed :: "nat option"
  sn_steps :: "scenario_step list"

definition PROXY_KINDS :: "string list" where
  "PROXY_KINDS = [''http-errors'', ''http-latency'', ''bandwidth'', ''connection-reset'', ''truncated-response'', ''tls-failure'']"

definition RESERVED :: "string list" where
  "RESERVED = [''-d'', ''--device'', ''--target'', ''--authority-dir'', ''--takeover'', ''--session'']"

definition reserved_flag :: "string \<Rightarrow> bool" where
  "reserved_flag arg \<longleftrightarrow> list_ex (\<lambda>reserved. arg = reserved \<or> starts_with arg (reserved @ ''='')) RESERVED"

section \<open>Checking\<close>

definition step_commands :: "scenario_step \<Rightarrow> string list list" where
  "step_commands s =
     (case ss_run s of None \<Rightarrow> [] | Some argv \<Rightarrow> [argv]) @
     (case ss_fault s of None \<Rightarrow> [] | Some argv \<Rightarrow> [''fault'' # argv]) @
     (case ss_pick s of None \<Rightarrow> [] | Some options \<Rightarrow> options)"

definition command_valid :: "string list \<Rightarrow> unit outcome" where
  "command_valid argv =
     (if argv = [] then Inl ''empty command''
      else if hd argv = ''fault'' \<and> nth_opt 1 argv = Some ''run'' then Inl ''scenarios cannot nest fault run''
      else if list_ex reserved_flag argv then Inl ''a flag is set by fault run, not by steps''
      else Inr ())"

fun all_valid :: "('a \<Rightarrow> unit outcome) \<Rightarrow> 'a list \<Rightarrow> unit outcome" where
  "all_valid f [] = Inr ()"
| "all_valid f (x # xs) = (case f x of Inl e \<Rightarrow> Inl e | Inr u \<Rightarrow> all_valid f xs)"

definition step_valid :: "scenario_step \<Rightarrow> unit outcome" where
  "step_valid s =
     (if length (filter id [ss_run s \<noteq> None, ss_fault s \<noteq> None, ss_wait_ms s \<noteq> None, ss_pick s \<noteq> None]) \<noteq> 1
      then Inl ''a step must have exactly one of run, fault, wait_ms, pick''
      else if ss_pick s = Some [] then Inl ''pick has no options''
      else (case all_valid command_valid (step_commands s) of
              Inl e \<Rightarrow> Inl e
            | Inr u \<Rightarrow> if (case ss_wait_ms s of Some ms \<Rightarrow> ms > 600000 | None \<Rightarrow> False) then Inl ''wait_ms is over 10 minutes'' else Inr ()))"

definition validate_scenario :: "scenario \<Rightarrow> unit outcome" where
  "validate_scenario s =
     (if sn_steps s = [] then Inl ''the scenario has no steps'' else all_valid step_valid (sn_steps s))"

section \<open>Running\<close>

record 'd scenario_ext =
  sc_hash :: "byte list \<Rightarrow> byte list"
  sc_child :: "string list \<Rightarrow> 'd \<Rightarrow> 'd \<times> (int \<times> json) outcome"
  sc_wait :: "nat \<Rightarrow> 'd \<Rightarrow> 'd"

text \<open>The first eight bytes of the hash of seed and index, little-endian, modulo the number of options.\<close>

definition choose_option :: "'d scenario_ext \<Rightarrow> nat \<Rightarrow> nat \<Rightarrow> nat \<Rightarrow> nat" where
  "choose_option sx seed index options = le_nat (take 8 (sc_hash sx (str_bytes (dec_digits seed @ '':'' @ dec_digits index)))) mod options"

definition injects_proxy_fault :: "string list \<Rightarrow> bool" where
  "injects_proxy_fault argv \<longleftrightarrow>
     nth_opt 0 argv = Some ''fault'' \<and> nth_opt 1 argv = Some ''inject'' \<and>
     (case nth_opt 2 argv of Some kind \<Rightarrow> kind \<in> set PROXY_KINDS | None \<Rightarrow> False)"

definition with_seed :: "nat \<Rightarrow> string list \<Rightarrow> string list" where
  "with_seed seed argv =
     (if injects_proxy_fault argv \<and> \<not> list_ex (\<lambda>arg. arg = ''--seed'' \<or> starts_with arg ''--seed='') argv
      then argv @ [''--seed'', dec_digits seed] else argv)"

definition command_for :: "'d scenario_ext \<Rightarrow> scenario_step \<Rightarrow> nat \<Rightarrow> nat \<Rightarrow> (string \<times> string list) option" where
  "command_for sx s index seed =
     map_option (\<lambda>(form, argv). (form, with_seed seed argv))
       (case ss_run s of
          Some argv \<Rightarrow> Some (''run'', argv)
        | None \<Rightarrow>
            (case ss_fault s of
               Some argv \<Rightarrow> Some (''fault'', ''fault'' # argv)
             | None \<Rightarrow>
                 (case ss_pick s of
                    Some options \<Rightarrow> Some (''pick'', options ! choose_option sx seed index (length options))
                  | None \<Rightarrow> None)))"

text \<open>The world outside, and the children run so far with what came of them.\<close>

record 'd scenario_world =
  sw_dev :: 'd
  sw_ran :: "(string list \<times> int \<times> json) list"

type_synonym ('d, 'a) scenario_prog = "('d scenario_world, 'a) prog"

definition run_child :: "'d scenario_ext \<Rightarrow> string list \<Rightarrow> ('d, int \<times> json) scenario_prog" where
  "run_child sx argv w =
     (case sc_child sx argv (sw_dev w) of
        (d, Inl e) \<Rightarrow> (w\<lparr>sw_dev := d\<rparr>, Inl e)
      | (d, Inr (code, out)) \<Rightarrow> (w\<lparr>sw_dev := d, sw_ran := sw_ran w @ [(argv, code, out)]\<rparr>, Inr (code, out)))"

record scenario_progress =
  sp_steps :: "json list"
  sp_injected :: "string list"
  sp_failed :: "nat option"

definition injected_id :: "int \<Rightarrow> json \<Rightarrow> string option" where
  "injected_id code out =
     (if code = 0 \<and> jget ''cmd'' out = JStr ''fault_inject'' \<and> jget ''state'' (jget ''fault'' out) = JStr ''active''
      then json_str (jget ''id'' (jget ''fault'' out)) else None)"

definition step_report :: "nat \<Rightarrow> string \<Rightarrow> string list \<Rightarrow> bool \<Rightarrow> int \<Rightarrow> json \<Rightarrow> json" where
  "step_report index form argv allow code out =
     jobj [(''index'', jnat index), (''form'', JStr form), (''argv'', JArr (map JStr argv)), (''exit_code'', JInt code),
       (''ok'', JBool (code = 0)), (''allow_failure'', JBool allow), (''output'', out)]"

fun scenario_loop ::
  "'d scenario_ext \<Rightarrow> nat \<Rightarrow> nat \<Rightarrow> scenario_step list \<Rightarrow> scenario_progress \<Rightarrow> ('d, scenario_progress) scenario_prog" where
  "scenario_loop sx seed index [] p = give p"
| "scenario_loop sx seed index (s # ss) p =
     (case ss_wait_ms s of
        Some ms \<Rightarrow>
          step (alter (\<lambda>w. w\<lparr>sw_dev := sc_wait sx ms (sw_dev w)\<rparr>)) (\<lambda>u.
          scenario_loop sx seed (index + 1) ss (p\<lparr>sp_steps := sp_steps p @
            [jobj [(''index'', jnat index), (''form'', JStr ''wait''), (''wait_ms'', jnat ms), (''ok'', JBool True)]]\<rparr>))
      | None \<Rightarrow>
          step (need ''validated step'' (command_for sx s index seed)) (\<lambda>(form, argv).
          step (run_child sx argv) (\<lambda>(code, out).
          let p' = p\<lparr>sp_steps := sp_steps p @ [step_report index form argv (ss_allow_failure s) code out],
                     sp_injected := sp_injected p @ (case injected_id code out of None \<Rightarrow> [] | Some fid \<Rightarrow> [fid])\<rparr>
          in if code \<noteq> 0 \<and> \<not> ss_allow_failure s then give (p'\<lparr>sp_failed := Some index\<rparr>)
             else scenario_loop sx seed (index + 1) ss p')))"

definition clear_command :: "string list \<Rightarrow> string list" where
  "clear_command injected = [''fault'', ''clear''] @ injected @ [''--expired'']"

text \<open>None: nothing to clean up. The result carries the report, success or not.\<close>

definition cleanup :: "'d scenario_ext \<Rightarrow> string list \<Rightarrow> ('d, (int \<times> json) option) scenario_prog" where
  "cleanup sx injected =
     (if injected = [] then give None
      else step (run_child sx (clear_command injected)) (\<lambda>ran. give (Some ran)))"

record scenario_result =
  so_ok :: bool
  so_failed_step :: "nat option"
  so_steps :: "json list"
  so_injected :: "string list"
  so_cleanup :: "(int \<times> json) option"

definition scenario_run :: "'d scenario_ext \<Rightarrow> nat option \<Rightarrow> scenario \<Rightarrow> ('d, scenario_result) scenario_prog" where
  "scenario_run sx arg_seed s =
     step (lift (validate_scenario s)) (\<lambda>u.
     let seed = (case arg_seed of Some n \<Rightarrow> n | None \<Rightarrow> case sn_seed s of Some n \<Rightarrow> n | None \<Rightarrow> 0)
     in step (scenario_loop sx seed 0 (sn_steps s) \<lparr>sp_steps = [], sp_injected = [], sp_failed = None\<rparr>) (\<lambda>p.
        step (cleanup sx (sp_injected p)) (\<lambda>clean.
        let cleanup_ok = (case clean of None \<Rightarrow> True | Some (code, out) \<Rightarrow> code = 0)
        in give \<lparr>so_ok = (sp_failed p = None \<and> cleanup_ok), so_failed_step = sp_failed p, so_steps = sp_steps p,
             so_injected = sp_injected p, so_cleanup = clean\<rparr>)))"

end
