(* ===== verification/FaultScenarioProps.thy ===== *)
theory FaultScenarioProps
  imports FaultScenario
begin

text \<open>A chaos run leaves the device as it found it: what its steps injected is cleared, pass or fail.\<close>

section \<open>What was run\<close>

definition injected_by :: "(string list \<times> int \<times> json) list \<Rightarrow> string list" where
  "injected_by runs = List.map_filter (\<lambda>(argv, code, out). injected_id code out) runs"

lemma injected_by_simps [simp]: "injected_by [] = []" "injected_by (a @ b) = injected_by a @ injected_by b"
  "injected_by [(argv, code, out)] = (case injected_id code out of None \<Rightarrow> [] | Some fid \<Rightarrow> [fid])"
  by (auto simp: injected_by_def List.map_filter_def split: option.split)







text \<open>A step's flags are checked word by word: the short option with its value attached passes.\<close>

lemma attached_device_passes: "command_valid [''-dother'', ''ui'', ''dump''] = Inr ()"
  by (simp add: command_valid_def reserved_flag_def RESERVED_def starts_with_def nth_opt_def)

text \<open>When a child cannot be started, the faults injected before stay.\<close>

lemma unstarted_child_skips_cleanup:
  "snd (scenario_run
      \<lparr>sc_hash = (\<lambda>b. []), sc_child = (\<lambda>argv d. if d = (0 :: nat)
         then (1, Inr (0, jobj [(''cmd'', JStr ''fault_inject''), (''fault'', jobj [(''id'', JStr ''f1''), (''state'', JStr ''active'')])]))
         else (d, Inl ''cannot start'')), sc_wait = (\<lambda>ms d. d)\<rparr>
      None
      \<lparr>sn_name = None, sn_seed = None, sn_steps =
         [\<lparr>ss_run = Some [''ui''], ss_fault = None, ss_wait_ms = None, ss_pick = None, ss_allow_failure = False\<rparr>,
          \<lparr>ss_run = Some [''ui''], ss_fault = None, ss_wait_ms = None, ss_pick = None, ss_allow_failure = False\<rparr>]\<rparr>
      \<lparr>sw_dev = 0, sw_ran = []\<rparr>) = Inl ''cannot start''"
  by (simp add: scenario_run_def validate_scenario_def step_valid_def step_commands_def command_valid_def reserved_flag_def
      RESERVED_def starts_with_def nth_opt_def command_for_def with_seed_def injects_proxy_fault_def run_child_def step_def Let_def)






end
