(* ===== verification/Spec2Isabelle.thy ===== *)
theory Spec2Isabelle
  imports WsSession WsRender Selector ScreenDiff ReplaySamples AdbWireProps FaultSamples CrashLogProps CrashScanProps PortMapProps
    WatchLoopProps WatchStdinProps FaultScenarioProps
begin

text \<open>
  \<^bold>\<open>ShadowDroid\<close> drives Android apps for coding agents. Its command line program (\<^verbatim>\<open>src/cli/src\<close>, Rust)
  reads screens, drives the device, injects faults into it, and runs a proxy daemon that captures, rewrites,
  holds, replays and breaks the app's traffic. This development models the parts of it that compute and
  keep state rather than call out, and proves what they are for.

  \<^bold>\<open>How the parts interact.\<close> The app's traffic reaches the proxy (\<^verbatim>\<open>net/proxy.rs\<close>). A request passes the
  declarative rules (\<^verbatim>\<open>net/rule.rs\<close>), the network faults (\<^verbatim>\<open>net/fault.rs\<close>), the replay set
  (\<^verbatim>\<open>net/replay.rs\<close>) and the hold registry before it goes to the upstream, and the answer passes rules and
  hold again; for a host in scope a flow record (\<^verbatim>\<open>net/flow.rs\<close>) is filed. An upgraded connection becomes
  a WebSocket tunnel (\<^verbatim>\<open>net/ws.rs\<close>): in observe mode bytes are copied and decoded on the side, in managed
  mode frames are parsed, given to rules and interception, and written again. Flow records are the input of
  replay bundles. The device is reached through the ADB server (\<^verbatim>\<open>device/adb_wire.rs\<close>); the fault commands
  (\<^verbatim>\<open>fault/\<close>) change the device by shell commands, keep a journal of how to undo each change, and install the
  proxy's own faults over its control socket. Screens are remembered and compared (\<^verbatim>\<open>screen_cache.rs\<close>) and
  elements are named by selectors (\<^verbatim>\<open>selector.rs\<close>).

  \<^bold>\<open>Which theory models what.\<close>
  \<^item> \<open>Prelude\<close>, \<open>Utf8\<close>: \<open>u64\<close> arithmetic, bytes in network order, JSON values as \<open>serde_json\<close> builds them, the string
    operations of the standard library, UTF-8 decoding with replacement. Contracts shared by components are
    locales: \<open>Incremental\<close> (a parser fed in pieces), \<open>Codec\<close> (a packet framing), \<open>Machine\<close> (an invariant
    under operations), and the reading and acting invariants of \<open>FaultLaws\<close>; each is interpreted on the model.
  \<^item> \<^verbatim>\<open>net/ws.rs\<close>: \<open>WsFrame\<close> (opcodes, findings, header parser, \<open>encode_frame\<close>), \<open>WsDecoder\<close> (\<open>FrameDecoder\<close>),
    \<open>WsFramer\<close> (\<open>ManagedFramer\<close>), \<open>WsAssembler\<close> (\<open>MessageAssembler\<close>, \<open>Inflater\<close>), \<open>WsBase64\<close>, \<open>WsRender\<close> (codecs,
    protobuf), \<open>WsRecord\<close> (durable records, \<open>WsStats\<close>), \<open>WsTap\<close> (rules, interception and emission of the live tap), \<open>WsTunnel\<close>
    (what a pump promises), \<open>WsSession\<close> (two pumps and a drain in any interleaving; lint).
  \<^item> \<^verbatim>\<open>net/rule.rs\<close>, \<^verbatim>\<open>net/mod.rs\<close>: \<open>NetRule\<close> (matchers, actions, JSON edits), \<open>NetRuleCheck\<close> (compilation, lint).
    \<^verbatim>\<open>net/fault.rs\<close>: \<open>NetFault\<close>. \<^verbatim>\<open>net/flow.rs\<close>, \<^verbatim>\<open>redaction.rs\<close>: \<open>NetFlow\<close>.
  \<^item> \<^verbatim>\<open>net/proxy.rs\<close>: \<open>ProxyHttp\<close> (headers, bodies, decoding, mutations), \<open>ProxyRules\<close> (both rule phases), \<open>ProxyHold\<close>
    (the registry of held flows), \<open>ProxyRequest\<close> (one request as a machine of stages: the awaits of
    \<open>handle_request\<close> are the boundaries, and the future may be dropped at each), \<open>ProxyRequestProps\<close>.
  \<^item> \<^verbatim>\<open>net/replay.rs\<close>: \<open>ReplayKey\<close> (request identity), \<open>ReplayBundle\<close> (building, writing, loading, payloads),
    \<open>ReplayProps\<close>, \<open>ReplayProxy\<close>, \<open>ReplaySamples\<close>.
  \<^item> \<^verbatim>\<open>device/adb_wire.rs\<close> and the shell quoting of \<^verbatim>\<open>config.rs\<close>: \<open>AdbWire\<close>, \<open>AdbWireProps\<close>.
  \<^item> \<^verbatim>\<open>fault/\<close>: \<open>Prog\<close> (programs that may fail), \<open>FaultDevice\<close> (\<^verbatim>\<open>device.rs\<close>, record types), \<open>FaultRestore\<close> (\<^verbatim>\<open>restore.rs\<close>,
    \<^verbatim>\<open>journal.rs\<close>, the recorder), \<open>FaultArgs\<close>, \<open>FaultCatalog\<close>, \<open>FaultKinds\<close> (\<^verbatim>\<open>kinds.rs\<close>, \<^verbatim>\<open>proxy.rs\<close>), \<open>FaultInject\<close> (\<^verbatim>\<open>mod.rs\<close>);
    \<open>FaultLaws\<close>, \<open>FaultProps\<close>, \<open>FaultClear\<close>, \<open>FaultMachine\<close>, \<open>FaultWait\<close>, \<open>FaultShell\<close>, \<open>FaultSamples\<close>.
  \<^item> \<^verbatim>\<open>watch/logcat.rs\<close>: \<open>CrashLog\<close> (the collector of crashes), \<open>CrashLogProps\<close>. \<^verbatim>\<open>crashscan.rs\<close>, \<^verbatim>\<open>cmd/log.rs\<close>:
    \<open>CrashScan\<close> (clock, scans, the probe, reading the log), \<open>CrashClock\<close> (its clock and the calendar), \<open>CrashScanProps\<close>.
  \<^item> \<^verbatim>\<open>device/portmap.rs\<close>, \<^verbatim>\<open>ids.rs\<close> and the forwards of \<^verbatim>\<open>device/adb.rs\<close>: \<open>PortMap\<close>, \<open>PortMapProps\<close>.
  \<^item> \<^verbatim>\<open>watch/watcher.rs\<close>: \<open>WatchRules\<close>, \<open>WatchRulesProps\<close>. \<open>Floats\<close>. \<^verbatim>\<open>watch/stdin.rs\<close>: \<open>WatchStdin\<close>, \<open>WatchStdinProps\<close>. \<^verbatim>\<open>watch/loop.rs\<close>:
    \<open>WatchLoop\<close> (wakes, every command, the waits), \<open>WatchLoopProps\<close>. \<^verbatim>\<open>fault/scenario.rs\<close>: \<open>FaultScenario\<close>, \<open>FaultScenarioProps\<close>.
  \<^item> \<^verbatim>\<open>selector.rs\<close>: \<open>Selector\<close>. \<^verbatim>\<open>screen_cache.rs\<close>: \<open>ScreenDiff\<close>.

  \<^bold>\<open>What the lemmas show.\<close> For the WebSocket tunnel: framing conserves bytes, the two modes agree on frames,
  pieces do not matter, fragments reassemble (up to the retention cap), losing a shared compression context is
  noticed and never papered over, rules act on the wire as they say, and the records tell what was seen. For the proxy: every request in scope whose body
  can be read files exactly one record, truthful when the request ran to its end, a quiet proxy relays what is end-to-end, held flows follow a small
  contract, end, and stay within their budget. For replay: bundles do not depend on order, writing is safe
  against crashes, and a recorded request is answered without its backend. For ADB: the framings are codecs.
  For device faults: no change is made to a device before the journal holds the plan that undoes it, no
  fault is lost by injecting or clearing while the journal can be read and written, no resource is owned twice under any sequence of commands, and
  the waits end.
  For the log: the watcher accounts for each crash once, scanning a dump finds what it reports, the probe between
  commands reports what its last 32 reports do not hold, the clock without years orders moments as the calendar does; reading the
  log conserves lines. For ports: slots are never shared, and a published forward survives other sessions.
  For the watch: a real change of the screen is shown once, rules fire where a reference says, quoted commands are
  read back, and waits end. A chaos run clears what it injected, if its processes start.

  \<^bold>\<open>Bounds and fuel.\<close> A proxied request takes at most ten stages (\<open>px_run_ends\<close>). The loops that poll a
  device carry as fuel the rounds that fit into their time-out, \<open>WAIT_MS div POLL_MS + 1\<close> for a check and
  \<open>timeout div 500 + 2\<close> for killing a process; more makes no difference (\<open>waiting_ends\<close>). Every other recursion is
  structural or has a measure. Caps of the code (retained payloads, buffered bodies, held flows, record queue,
  cached screens, edits per rule) are constants of the model with their values.

  \<^bold>\<open>Parameters.\<close> Code outside \<^verbatim>\<open>src/\<close> is an argument: \<open>flate2\<close> and the body decoders, BLAKE3 and SHA-256, the parsers
  of URLs, regular expressions and JSON text, Unicode lower-casing, percent coding, the syntax checks of the
  HTTP crates, the upstream server, the one-shot channel, the file system, the ADB server. What the code
  relies on is a named hypothesis with a concrete instance in a witness. The text policy of \<^verbatim>\<open>redaction.rs\<close> is
  a parameter of the record types that use it. For faults everything outside the process is one record of
  functions (\<open>fault_ext\<close>) over a state of any type: nothing is assumed of the device.

  \<^bold>\<open>Simplifications.\<close> Fractions are rationals, in \<^verbatim>\<open>watch/\<close> rounded to \<open>f64\<close> and \<open>f32\<close> by \<open>Floats\<close>; one reading of the clock serves a request; sequence counters of a
  session do not wrap; one event of a pump is atomic; a body stream is a list of chunks; a directory is a list of files
  or a map with atomic writes; headers are a list of lines; a hash map is an association list and a B-tree map
  one sorted by key; error texts are reduced to codes; delays that only shape timing are not timed; sockets
  are lists of bytes; the fault journal is absent, a list of records, or unreadable.

  \<^bold>\<open>Not modelled.\<close> The argument tables of \<^verbatim>\<open>cli.rs\<close> and the fixed texts of hints; processes, sockets, TLS and certificates
  (\<^verbatim>\<open>net/ca.rs\<close>, \<^verbatim>\<open>net/trust.rs\<close>, \<^verbatim>\<open>net/daemon.rs\<close>, the transport half of \<^verbatim>\<open>net/proxy.rs\<close>), the command front ends under
  \<^verbatim>\<open>cmd/\<close> and \<^verbatim>\<open>net/commands.rs\<close>, which drive external tools and print what they answer, recording of video, the
  runner of user journeys, and the on-device agent (Kotlin). Their results depend on programs that are not
  in the repository; \<^verbatim>\<open>PROJECT.json\<close> lists each with its reason.
\<close>

end
